(* ===== verification/Prelude.thy ===== *)
theory Prelude
  imports Main "HOL-Library.Word"
begin

text \<open>
  Shared vocabulary of the development: the machine types of the scheduler, the faults a
  C++ step can end in, the result type \<open>'a res\<close> with its sequencing combinators, and the
  generic list and word lemmas the components use.
\<close>

section \<open>Types\<close>

text \<open>
  Thread identifiers of the runtime are small non-negative integers; \<open>InvalidTid\<close>
  (\<open>-1\<close> in the code) is \<open>None\<close> where an operation may return it. \<open>pthread\<close> stands
  for \<open>pthread_t\<close>, \<open>vptr\<close> for the \<open>void *\<close> channels threads wait on (\<open>0\<close> is
  \<open>NULL\<close>), \<open>addr\<close> for the address of a run-queue element.
\<close>

type_synonym tid = nat
type_synonym addr = nat
type_synonym pthread = nat
type_synonym vptr = nat
type_synonym u32 = "32 word"
type_synonym size_t = "64 word"

section \<open>Faults and results\<close>

text \<open>
  What a step can end in instead of a next state: a null or dangling pointer is
  dereferenced, an array is indexed out of range, an integer is divided by
  zero, an \<open>assert\<close> fails (only in builds
  without \<open>NDEBUG\<close>), the process or the thread exits, the process is aborted, or the bound given to a model loop
  is used up (which the termination theorems exclude).
\<close>

datatype fault =
    NullDeref
  | DanglingDeref
  | OutOfRange
  | AssertFailed
  | DivisionByZero
  | ExitProcess nat
  | ThreadExit
  | Aborted
  | LoopBound

type_synonym 'a res = "fault + 'a"

named_theorems res_simps "sequencing of results"

definition res_bind :: "'a res \<Rightarrow> ('a \<Rightarrow> 'b res) \<Rightarrow> 'b res" where
  "res_bind m f = (case m of Inl e \<Rightarrow> Inl e | Inr x \<Rightarrow> f x)"

definition check :: "fault \<Rightarrow> bool \<Rightarrow> 'a res \<Rightarrow> 'a res" where
  "check e b m = (if b then m else Inl e)"

lemma res_bind_Inr [simp, res_simps]: "res_bind (Inr x) f = f x"
  by (simp add: res_bind_def)

lemma res_bind_Inl [simp, res_simps]: "res_bind (Inl e) f = Inl e"
  by (simp add: res_bind_def)

lemma res_bind_assoc [res_simps]:
  "res_bind (res_bind m f) g = res_bind m (\<lambda>x. res_bind (f x) g)"
  by (cases m) simp_all

lemma res_bind_cong [fundef_cong]:
  assumes "m = n" and "\<And>x. n = Inr x \<Longrightarrow> f x = g x"
  shows "res_bind m f = res_bind n g"
  using assms by (cases n) simp_all

lemma res_bind_eq_Inr [res_simps]:
  "res_bind m f = Inr y \<longleftrightarrow> (\<exists>x. m = Inr x \<and> f x = Inr y)"
  by (cases m) simp_all

lemma check_True [simp, res_simps]: "check e True m = m"
  by (simp add: check_def)

lemma check_False [simp, res_simps]: "check e False m = Inl e"
  by (simp add: check_def)

lemma check_eq_Inr [res_simps]: "check e b m = Inr y \<longleftrightarrow> b \<and> m = Inr y"
  by (simp add: check_def)

text \<open>Running a fallible step over a list, left to right.\<close>

primrec res_fold :: "('a \<Rightarrow> 's \<Rightarrow> 's res) \<Rightarrow> 'a list \<Rightarrow> 's \<Rightarrow> 's res" where
  "res_fold f [] s = Inr s"
| "res_fold f (x # xs) s = res_bind (f x s) (res_fold f xs)"

lemma res_fold_append:
  "res_fold f (xs @ ys) s = res_bind (res_fold f xs s) (res_fold f ys)"
proof (induction xs arbitrary: s)
  case (Cons x xs)
  then have "res_fold f (xs @ ys) = (\<lambda>s. res_bind (res_fold f xs s) (res_fold f ys))"
    by blast
  then show ?case by (simp add: res_bind_assoc)
qed simp

section \<open>Generic lemmas\<close>

lemma of_nat_size_t_eq_0:
  assumes "n < 2 ^ 64"
  shows "(of_nat n :: size_t) = 0 \<longleftrightarrow> n = 0"
proof -
  have "unat (of_nat n :: size_t) = n"
    using assms by (simp add: unat_of_nat)
  then show ?thesis by (auto simp: unat_eq_zero)
qed

lemma hd_append_if: "hd (xs @ ys) = (if xs = [] then hd ys else hd xs)"
  by simp

lemma distinct_split_first:
  assumes "x \<in> set xs"
  obtains us vs where "xs = us @ x # vs" and "x \<notin> set us"
  using assms by (meson split_list_first)

end
