(* ===== verification/RunQueue.thy ===== *)
theory RunQueue
  imports Prelude
begin

text \<open>
  The thread run queue of \<open>include/tern/runtime/run-queue.h\<close>, at the level of its pointers:
  an intrusive doubly linked list of heap elements with a head, a tail, a length, a table
  from thread identifiers to elements and a count of yielded elements. The heap is a partial
  map from addresses to elements, so that a null or dangling pointer is a fault of the model.
  \<open>runq\<close> and \<open>hp_runq\<close> of the scheduler share one heap.

  The second half relates the pointers to lists: \<open>rq_list m q as\<close> says that the queue
  \<open>q\<close> holds the elements \<open>as\<close> in this order, and every operation is shown to act on
  that list.
\<close>

section \<open>Data\<close>

datatype THD_STATUS = RUNNABLE | RUNNING_REG | RUNNING_INTER_PRO | INTER_PRO_STOP

record runq_elem =
  e_tid :: tid
  e_status :: THD_STATUS
  e_prev :: "addr option"
  e_next :: "addr option"
  e_last_yield :: bool

text \<open>
  \<open>cells\<close> maps the address of a live element to its contents; \<open>brk\<close> is the next address
  \<open>new\<close> returns (addresses are never reused, so a dangling pointer stays recognisable).
\<close>

record mem =
  cells :: "addr \<Rightarrow> runq_elem option"
  brk :: addr

record run_queue =
  q_head :: "addr option"
  q_tail :: "addr option"
  num_elements :: size_t
  tid_map :: "tid \<Rightarrow> addr option"
  num_yield_elem :: size_t

definition MAX_THREAD_NUM :: nat where
  "MAX_THREAD_NUM = 5000"

definition new_runq_elem :: "tid \<Rightarrow> runq_elem" where
  "new_runq_elem t =
     \<lparr>e_tid = t, e_status = RUNNABLE, e_prev = None, e_next = None, e_last_yield = False\<rparr>"

section \<open>Pointers\<close>

definition deref :: "mem \<Rightarrow> addr option \<Rightarrow> runq_elem res" where
  "deref m p = (case p of None \<Rightarrow> Inl NullDeref
     | Some a \<Rightarrow> (case cells m a of None \<Rightarrow> Inl DanglingDeref | Some e \<Rightarrow> Inr e))"

definition store :: "mem \<Rightarrow> addr option \<Rightarrow> (runq_elem \<Rightarrow> runq_elem) \<Rightarrow> mem res" where
  "store m p f = res_bind (deref m p) (\<lambda>e. Inr (m\<lparr>cells := (cells m)(the p \<mapsto> f e)\<rparr>))"

section \<open>Operations\<close>

text \<open>Every access to \<open>tid_map\<close> is an access to an array of \<open>MAX_THREAD_NUM\<close> entries.\<close>

definition rq_get_my_elem :: "tid \<Rightarrow> run_queue \<Rightarrow> addr option res" where
  "rq_get_my_elem t q = check OutOfRange (t < MAX_THREAD_NUM) (Inr (tid_map q t))"

definition rq_create_thd_elem ::
  "tid \<Rightarrow> mem \<Rightarrow> run_queue \<Rightarrow> (addr \<times> mem \<times> run_queue) res" where
  "rq_create_thd_elem t m q = check OutOfRange (t < MAX_THREAD_NUM)
     (let a = brk m in
      Inr (a, m\<lparr>cells := (cells m)(a \<mapsto> new_runq_elem t), brk := Suc a\<rparr>,
              q\<lparr>tid_map := (tid_map q)(t \<mapsto> a)\<rparr>))"

definition rq_set_thd_elem :: "tid \<Rightarrow> addr option \<Rightarrow> run_queue \<Rightarrow> run_queue res" where
  "rq_set_thd_elem t p q = check OutOfRange (t < MAX_THREAD_NUM)
     (Inr (q\<lparr>tid_map := (tid_map q)(t := p)\<rparr>))"

definition rq_del_thd_elem :: "tid \<Rightarrow> mem \<Rightarrow> run_queue \<Rightarrow> (mem \<times> run_queue) res" where
  "rq_del_thd_elem t m q = check OutOfRange (t < MAX_THREAD_NUM)
     (let elem = tid_map q t in
      res_bind (deref m elem) (\<lambda>_.
      Inr (m\<lparr>cells := (cells m)(the elem := None)\<rparr>,
           q\<lparr>tid_map := (tid_map q)(t := None)\<rparr>)))"

text \<open>Iterators are element pointers; \<open>end()\<close> is the null pointer.\<close>

definition rq_begin :: "run_queue \<Rightarrow> addr option" where
  "rq_begin q = q_head q"

definition rq_end :: "addr option" where
  "rq_end = None"

definition iter_next :: "mem \<Rightarrow> addr option \<Rightarrow> addr option res" where
  "iter_next m p = res_bind (deref m p) (\<lambda>e. Inr (e_next e))"

definition iter_tid :: "mem \<Rightarrow> addr option \<Rightarrow> tid res" where
  "iter_tid m p = res_bind (deref m p) (\<lambda>e. Inr (e_tid e))"

definition rq_in :: "tid \<Rightarrow> mem \<Rightarrow> run_queue \<Rightarrow> bool res" where
  "rq_in t m q = check OutOfRange (t < MAX_THREAD_NUM)
     (let elem = tid_map q t in
      res_bind (deref m elem) (\<lambda>e.
      if e_prev e \<noteq> None \<or> e_next e \<noteq> None then Inr True
      else if q_head q = elem \<and> q_tail q = elem then Inr True
      else Inr False))"

text \<open>One iteration of the loop of \<open>deep_clear\<close>.\<close>

definition rq_clear_slot :: "nat \<Rightarrow> mem \<times> run_queue \<Rightarrow> (mem \<times> run_queue) res" where
  "rq_clear_slot i mq = (case mq of (m, q) \<Rightarrow>
     (case tid_map q i of
        None \<Rightarrow> Inr (m, q)
      | Some a \<Rightarrow>
          res_bind (iter_tid m (Some a)) (\<lambda>t.
          res_bind (store m (Some a) (\<lambda>e. e\<lparr>e_prev := None, e_next := None\<rparr>)) (\<lambda>m.
          rq_del_thd_elem t m q))))"

definition rq_deep_clear :: "mem \<Rightarrow> run_queue \<Rightarrow> (mem \<times> run_queue) res" where
  "rq_deep_clear m q =
     res_fold rq_clear_slot [0..<MAX_THREAD_NUM]
       (m, q\<lparr>q_head := None, q_tail := None, num_elements := 0, num_yield_elem := 0\<rparr>)"

text \<open>The constructor: \<open>memset\<close> of the table, then \<open>deep_clear\<close>.\<close>

definition rq_new :: "mem \<Rightarrow> (mem \<times> run_queue) res" where
  "rq_new m = rq_deep_clear m
     \<lparr>q_head = None, q_tail = None, num_elements = 0, tid_map = (\<lambda>_. None),
      num_yield_elem = 0\<rparr>"

definition rq_size :: "run_queue \<Rightarrow> size_t" where
  "rq_size q = num_elements q"

definition rq_empty :: "run_queue \<Rightarrow> bool" where
  "rq_empty q \<longleftrightarrow> rq_size q = 0"

definition rq_erase ::
  "addr option \<Rightarrow> mem \<Rightarrow> run_queue \<Rightarrow> (addr option \<times> mem \<times> run_queue) res" where
  "rq_erase position m q =
     (if position = rq_end then Inr (rq_end, m, q)
      else
        res_bind (iter_next m position) (\<lambda>ret.
        res_bind (deref m position) (\<lambda>e.
        res_bind (if e_prev e \<noteq> None
                  then store m (e_prev e) (\<lambda>p. p\<lparr>e_next := e_next e\<rparr>) else Inr m) (\<lambda>m.
        res_bind (deref m position) (\<lambda>e.
        res_bind (if e_next e \<noteq> None
                  then store m (e_next e) (\<lambda>n. n\<lparr>e_prev := e_prev e\<rparr>) else Inr m) (\<lambda>m.
        res_bind (deref m position) (\<lambda>e.
        let q1 = (if q_head q = position then q\<lparr>q_head := e_next e\<rparr> else q);
            q2 = (if q_tail q1 = position then q1\<lparr>q_tail := e_prev e\<rparr> else q1)
        in
        res_bind (store m position (\<lambda>e. e\<lparr>e_prev := None, e_next := None\<rparr>)) (\<lambda>m.
        let q3 = q2\<lparr>num_elements := num_elements q2 - 1\<rparr>;
            q4 = (if e_last_yield e then q3\<lparr>num_yield_elem := num_yield_elem q3 - 1\<rparr> else q3)
        in Inr (ret, m, q4)))))))))"

definition rq_push_back :: "tid \<Rightarrow> mem \<Rightarrow> run_queue \<Rightarrow> (mem \<times> run_queue) res" where
  "rq_push_back t m q = check OutOfRange (t < MAX_THREAD_NUM)
     (let elem = tid_map q t in
      if q_head q = None
      then Inr (m, q\<lparr>q_head := elem, q_tail := elem, num_elements := num_elements q + 1\<rparr>)
      else
        res_bind (store m elem (\<lambda>e. e\<lparr>e_prev := q_tail q\<rparr>)) (\<lambda>m.
        res_bind (store m (q_tail q) (\<lambda>e. e\<lparr>e_next := elem\<rparr>)) (\<lambda>m.
        Inr (m, q\<lparr>q_tail := elem, num_elements := num_elements q + 1\<rparr>))))"

text \<open>
  The scan of \<open>insert_yield\<close>: walk from \<open>cur\<close> while there is a next element and either
  fewer than \<open>ny\<close> yielded elements or no element that did not yield has been passed. The
  result is the element to insert after. The first argument bounds the number of steps.
\<close>

fun insert_scan ::
  "nat \<Rightarrow> mem \<Rightarrow> size_t \<Rightarrow> addr option \<Rightarrow> nat \<Rightarrow> bool \<Rightarrow> (addr option) res" where
  "insert_scan n m ny cur count non_yield_found =
     res_bind (deref m cur) (\<lambda>e.
     if e_next e \<noteq> None \<and> (of_nat count < ny \<or> \<not> non_yield_found)
     then (case n of 0 \<Rightarrow> Inl LoopBound
           | Suc n' \<Rightarrow>
             res_bind (deref m (e_next e)) (\<lambda>f.
             if e_last_yield f
             then insert_scan n' m ny (e_next e) (Suc count) non_yield_found
             else insert_scan n' m ny (e_next e) count True))
     else Inr cur)"

declare insert_scan.simps [simp del]

text \<open>Linking \<open>elem\<close> in after \<open>cur\<close>.\<close>

definition link_after :: "addr option \<Rightarrow> addr option \<Rightarrow> mem \<Rightarrow> mem res" where
  "link_after elem cur m =
     res_bind (deref m cur) (\<lambda>c.
     let next_to_cur = e_next c in
     res_bind (store m cur (\<lambda>e. e\<lparr>e_next := elem\<rparr>)) (\<lambda>m.
     res_bind (store m elem (\<lambda>e. e\<lparr>e_prev := cur, e_next := next_to_cur\<rparr>)) (\<lambda>m.
     if next_to_cur \<noteq> None
     then store m next_to_cur (\<lambda>e. e\<lparr>e_prev := elem\<rparr>) else Inr m)))"

definition rq_insert_yield :: "tid \<Rightarrow> mem \<Rightarrow> run_queue \<Rightarrow> (mem \<times> run_queue) res" where
  "rq_insert_yield t m q = check OutOfRange (t < MAX_THREAD_NUM)
     (let elem = tid_map q t in
      res_bind (store m elem (\<lambda>e. e\<lparr>e_last_yield := True\<rparr>)) (\<lambda>m.
      if q_head q = None
      then Inr (m, q\<lparr>q_head := elem, q_tail := elem, num_elements := num_elements q + 1\<rparr>)
      else
        res_bind (deref m (q_head q)) (\<lambda>h.
        res_bind (insert_scan (unat (num_elements q)) m (num_yield_elem q) (q_head q)
                    (if e_last_yield h then 1 else 0) (\<not> e_last_yield h)) (\<lambda>cur.
        res_bind (link_after elem cur m) (\<lambda>m.
        let q1 = (if cur = q_tail q then q\<lparr>q_tail := elem\<rparr> else q);
            q2 = q1\<lparr>num_yield_elem := num_yield_elem q1 + 1\<rparr>
        in Inr (m, q2\<lparr>num_elements := num_elements q2 + 1\<rparr>))))))"

definition rq_front_elem :: "run_queue \<Rightarrow> addr option" where
  "rq_front_elem q = q_head q"

definition rq_front :: "mem \<Rightarrow> run_queue \<Rightarrow> tid res" where
  "rq_front m q = res_bind (deref m (q_head q)) (\<lambda>e. Inr (e_tid e))"

definition rq_push_front :: "tid \<Rightarrow> mem \<Rightarrow> run_queue \<Rightarrow> (mem \<times> run_queue) res" where
  "rq_push_front t m q = check OutOfRange (t < MAX_THREAD_NUM)
     (let elem = tid_map q t in
      if q_head q = None
      then Inr (m, q\<lparr>q_head := elem, q_tail := elem, num_elements := num_elements q + 1\<rparr>)
      else
        res_bind (store m elem (\<lambda>e. e\<lparr>e_next := q_head q\<rparr>)) (\<lambda>m.
        Inr (m, q\<lparr>q_head := elem, num_elements := num_elements q + 1\<rparr>)))"

definition rq_pop_front :: "mem \<Rightarrow> run_queue \<Rightarrow> (mem \<times> run_queue) res" where
  "rq_pop_front m q =
     (let elem = q_head q in
      res_bind (deref m elem) (\<lambda>e.
      let q1 = (if e_last_yield e then q\<lparr>num_yield_elem := num_yield_elem q - 1\<rparr> else q) in
      res_bind (if e_last_yield e then store m elem (\<lambda>e. e\<lparr>e_last_yield := False\<rparr>)
                else Inr m) (\<lambda>m.
      res_bind (deref m elem) (\<lambda>e.
      let q2 = q1\<lparr>q_head := e_next e\<rparr> in
      res_bind (store m elem (\<lambda>e. e\<lparr>e_prev := None, e_next := None\<rparr>)) (\<lambda>m.
      let q3 = (if q_head q2 = None then q2\<lparr>q_tail := None\<rparr> else q2)
      in Inr (m, q3\<lparr>num_elements := num_elements q3 - 1\<rparr>))))))"

text \<open>
  The threads met between \<open>begin()\<close> and \<open>end()\<close>, as \<open>dump\<close> and \<open>selfcheck\<close> visit
  them; the first argument bounds the number of steps.
\<close>

primrec rq_walk :: "nat \<Rightarrow> mem \<Rightarrow> addr option \<Rightarrow> tid list res" where
  "rq_walk 0 m p = (if p = rq_end then Inr [] else Inl LoopBound)"
| "rq_walk (Suc n) m p = (if p = rq_end then Inr []
     else res_bind (iter_tid m p) (\<lambda>t.
          res_bind (iter_next m p) (\<lambda>p'.
          res_bind (rq_walk n m p') (\<lambda>ts. Inr (t # ts)))))"

definition rq_tids :: "mem \<Rightarrow> run_queue \<Rightarrow> tid list res" where
  "rq_tids m q = rq_walk (unat (num_elements q)) m (rq_begin q)"

section \<open>Queues as lists\<close>

text \<open>
  \<open>nexts c as n\<close>: the elements at \<open>as\<close> are live and linked forwards in this order, the
  last one pointing to \<open>n\<close>. \<open>prevs c p as\<close>: they are linked backwards, the first one
  pointing to \<open>p\<close>. A queue is a forward chain to the null pointer whose elements after the
  first are linked backwards; nothing is said of the first element's \<open>prev\<close>, because
  \<open>pop_front\<close> leaves it pointing at the element it removed.
\<close>

primrec nexts :: "(addr \<Rightarrow> runq_elem option) \<Rightarrow> addr list \<Rightarrow> addr option \<Rightarrow> bool" where
  "nexts c [] n = True"
| "nexts c (a # as) n =
     ((\<exists>e. c a = Some e \<and> e_next e = (if as = [] then n else Some (hd as))) \<and> nexts c as n)"

primrec prevs :: "(addr \<Rightarrow> runq_elem option) \<Rightarrow> addr option \<Rightarrow> addr list \<Rightarrow> bool" where
  "prevs c p [] = True"
| "prevs c p (a # as) = ((\<exists>e. c a = Some e \<and> e_prev e = p) \<and> prevs c (Some a) as)"

definition dll :: "(addr \<Rightarrow> runq_elem option) \<Rightarrow> addr list \<Rightarrow> bool" where
  "dll c as \<longleftrightarrow> nexts c as None \<and> (as \<noteq> [] \<longrightarrow> prevs c (Some (hd as)) (tl as))"

definition rq_list :: "mem \<Rightarrow> run_queue \<Rightarrow> addr list \<Rightarrow> bool" where
  "rq_list m q as \<longleftrightarrow>
     q_head q = (if as = [] then None else Some (hd as)) \<and>
     q_tail q = (if as = [] then None else Some (last as)) \<and>
     dll (cells m) as \<and> distinct as \<and>
     num_elements q = of_nat (length as) \<and> length as \<le> MAX_THREAD_NUM"

text \<open>What an element carries beside its links.\<close>

definition meta :: "mem \<Rightarrow> addr \<Rightarrow> (tid \<times> THD_STATUS \<times> bool) option" where
  "meta m a = map_option (\<lambda>e. (e_tid e, e_status e, e_last_yield e)) (cells m a)"

named_theorems ptr_simps "evaluation of pointer accesses"

lemma deref_Some [ptr_simps]: "cells m a = Some e \<Longrightarrow> deref m (Some a) = Inr e"
  by (simp add: deref_def)

lemma deref_None [ptr_simps]: "deref m None = Inl NullDeref"
  by (simp add: deref_def)

lemma store_Some [ptr_simps]:
  "cells m a = Some e \<Longrightarrow> store m (Some a) f = Inr (m\<lparr>cells := (cells m)(a \<mapsto> f e)\<rparr>)"
  by (simp add: store_def deref_Some)

lemma deref_eq_Inr: "deref m p = Inr e \<longleftrightarrow> (\<exists>a. p = Some a \<and> cells m a = Some e)"
  by (auto simp: deref_def split: option.splits)

subsection \<open>Chains\<close>

lemma nexts_append [simp]:
  "nexts c (us @ vs) n \<longleftrightarrow> nexts c us (if vs = [] then n else Some (hd vs)) \<and> nexts c vs n"
  by (induction us) auto

lemma prevs_append [simp]:
  "prevs c p (us @ vs) \<longleftrightarrow> prevs c p us \<and> prevs c (if us = [] then p else Some (last us)) vs"
  by (induction us arbitrary: p) auto

lemma nexts_cong:
  "(\<And>a. a \<in> set as \<Longrightarrow> c' a = c a) \<Longrightarrow> nexts c' as n = nexts c as n"
  by (induction as) auto

lemma prevs_cong:
  "(\<And>a. a \<in> set as \<Longrightarrow> c' a = c a) \<Longrightarrow> prevs c' p as = prevs c p as"
  by (induction as arbitrary: p) auto

lemma nexts_upd [simp]: "a \<notin> set as \<Longrightarrow> nexts (c(a := x)) as n = nexts c as n"
  by (rule nexts_cong) auto

lemma prevs_upd [simp]: "a \<notin> set as \<Longrightarrow> prevs (c(a := x)) p as = prevs c p as"
  by (rule prevs_cong) auto

lemma nexts_same:
  assumes "nexts c as n"
    and "\<And>a e. a \<in> set as \<Longrightarrow> c a = Some e \<Longrightarrow> \<exists>e'. c' a = Some e' \<and> e_next e' = e_next e"
  shows "nexts c' as n"
  using assms by (induction as) (auto, metis+)

lemma prevs_same:
  assumes "prevs c p as"
    and "\<And>a e. a \<in> set as \<Longrightarrow> c a = Some e \<Longrightarrow> \<exists>e'. c' a = Some e' \<and> e_prev e' = e_prev e"
  shows "prevs c' p as"
  using assms by (induction as arbitrary: p) (simp_all, metis)

lemma nexts_live: "nexts c as n \<Longrightarrow> a \<in> set as \<Longrightarrow> \<exists>e. c a = Some e"
  by (induction as) auto

lemma dll_live: "dll c as \<Longrightarrow> a \<in> set as \<Longrightarrow> \<exists>e. c a = Some e"
  by (auto simp: dll_def dest: nexts_live)

lemma dll_Nil [simp]: "dll c []"
  by (simp add: dll_def)

lemma dll_Cons: "dll c (a # as) \<Longrightarrow> dll c as"
  by (cases as) (auto simp: dll_def)

lemma dll_same:
  assumes "dll c as"
    and "\<And>a e. a \<in> set as \<Longrightarrow> c a = Some e \<Longrightarrow>
           \<exists>e'. c' a = Some e' \<and> e_next e' = e_next e \<and> e_prev e' = e_prev e"
  shows "dll c' as"
proof -
  from assms(1) have n: "nexts c as None" and p: "as \<noteq> [] \<Longrightarrow> prevs c (Some (hd as)) (tl as)"
    by (simp_all add: dll_def)
  from n have "nexts c' as None" by (rule nexts_same) (use assms(2) in blast)
  moreover have "prevs c' (Some (hd as)) (tl as)" if "as \<noteq> []"
    by (rule prevs_same [OF p [OF that]]) (meson assms(2) list.set_sel(2) that)
  ultimately show ?thesis by (simp add: dll_def)
qed

lemma dll_cong: "(\<And>a. a \<in> set as \<Longrightarrow> c' a = c a) \<Longrightarrow> dll c as \<Longrightarrow> dll c' as"
  by (erule dll_same) auto

lemma dll_upd [simp]: "a \<notin> set as \<Longrightarrow> dll (c(a := x)) as = dll c as"
  by (cases as) (auto simp: dll_def)

lemma dll_next:
  "dll c (us @ a # vs) \<Longrightarrow> c a = Some e \<Longrightarrow> e_next e = (if vs = [] then None else Some (hd vs))"
  by (simp add: dll_def)

lemma dll_prev:
  "dll c (us @ a # vs) \<Longrightarrow> c a = Some e \<Longrightarrow> us \<noteq> [] \<Longrightarrow> e_prev e = Some (last us)"
  by (cases us) (auto simp: dll_def split: if_splits)

text \<open>A queue split at one of its elements.\<close>

lemma dll_split:
  "dll c (us @ a # vs) \<longleftrightarrow>
     nexts c us (Some a) \<and> (us \<noteq> [] \<longrightarrow> prevs c (Some (hd us)) (tl us)) \<and>
     (\<exists>e. c a = Some e \<and> e_next e = (if vs = [] then None else Some (hd vs)) \<and>
          (us \<noteq> [] \<longrightarrow> e_prev e = Some (last us))) \<and>
     nexts c vs None \<and> prevs c (Some a) vs"
  by (cases us) (auto simp: dll_def split: if_splits)

text \<open>Linking a new element \<open>n\<close> in after \<open>a\<close>, the step the insertions share.\<close>

lemma dll_insert_after:
  assumes "dll c (us @ a # vs)"
    and n: "c' n = Some en" "e_prev en = Some a"
      "e_next en = (if vs = [] then None else Some (hd vs))"
    and a: "c a = Some ea" "c' a = Some (ea\<lparr>e_next := Some n\<rparr>)"
    and v: "\<And>v ws. vs = v # ws \<Longrightarrow> \<exists>e. c v = Some e \<and> c' v = Some (e\<lparr>e_prev := Some n\<rparr>)"
    and frame: "\<And>x. x \<in> set us \<union> set (tl vs) \<Longrightarrow> c' x = c x"
  shows "dll c' (us @ a # n # vs)"
proof -
  note old = assms(1) [unfolded dll_split]
  have "nexts c' us (Some a)"
    using old frame nexts_cong [of us c' c] by simp
  moreover have "us \<noteq> [] \<longrightarrow> prevs c' (Some (hd us)) (tl us)"
    using old frame prevs_cong [of "tl us" c' c] by (simp add: list.set_sel(2))
  moreover have "nexts c' vs None \<and> prevs c' (Some n) vs"
  proof (cases vs)
    case (Cons x ws)
    then have "nexts c' ws None" "prevs c' (Some x) ws"
      using old frame nexts_cong [of ws c' c] prevs_cong [of ws c' c] by simp_all
    with Cons old v [OF Cons] show ?thesis by auto
  qed simp
  ultimately show ?thesis using old n a unfolding dll_split by auto
qed

subsection \<open>The operations on lists\<close>

text \<open>
  \<open>frame m m' A\<close>: going from \<open>m\<close> to \<open>m'\<close> allocated nothing and changed no element
  outside \<open>A\<close>.
\<close>

definition frame :: "mem \<Rightarrow> mem \<Rightarrow> addr set \<Rightarrow> bool" where
  "frame m m' A \<longleftrightarrow> brk m' = brk m \<and> (\<forall>a. a \<notin> A \<longrightarrow> cells m' a = cells m a)"

lemma meta_Some: "meta m a = Some x \<longleftrightarrow>
    (\<exists>e. cells m a = Some e \<and> x = (e_tid e, e_status e, e_last_yield e))"
  by (auto simp: meta_def)

lemma meta_None: "meta m a = None \<longleftrightarrow> cells m a = None"
  by (simp add: meta_def)

lemma rq_listD:
  assumes "rq_list m q as"
  shows "q_head q = (if as = [] then None else Some (hd as))"
    and "q_tail q = (if as = [] then None else Some (last as))"
    and "dll (cells m) as" and "distinct as" and "num_elements q = of_nat (length as)"
    and "length as \<le> MAX_THREAD_NUM"
  using assms by (simp_all add: rq_list_def)

lemma rq_list_frame:
  assumes "rq_list m q as" and "\<And>a. a \<in> set as \<Longrightarrow> cells m' a = cells m a"
  shows "rq_list m' q as"
  using assms dll_cong [of as "cells m'" "cells m"] by (simp add: rq_list_def)

lemma rq_empty_list: "rq_list m q as \<Longrightarrow> rq_empty q \<longleftrightarrow> as = []"
  by (simp add: rq_list_def rq_empty_def rq_size_def of_nat_size_t_eq_0 MAX_THREAD_NUM_def)

lemma rq_size_list: "rq_list m q as \<Longrightarrow> unat (rq_size q) = length as"
  by (simp add: rq_list_def rq_size_def MAX_THREAD_NUM_def unat_of_nat)

lemma rq_push_back_list:
  assumes q: "rq_list m q as" and t: "t < MAX_THREAD_NUM" "tid_map q t = Some a"
    and a: "a \<notin> set as" "cells m a = Some e" "e_prev e = None" "e_next e = None"
    and len: "length as < MAX_THREAD_NUM"
  shows "\<exists>m' q'. rq_push_back t m q = Inr (m', q') \<and> rq_list m' q' (as @ [a]) \<and>
     frame m m' (insert a (set as)) \<and> meta m' = meta m \<and>
     tid_map q' = tid_map q \<and> num_yield_elem q' = num_yield_elem q"
proof (cases as rule: rev_cases)
  case Nil
  with assms show ?thesis
    by (auto simp: rq_push_back_def rq_list_def dll_def frame_def Let_def)
next
  case (snoc us l)
  note d = rq_listD [OF q]
  from d(3) snoc obtain el where el: "cells m l = Some el" by (auto dest: dll_live)
  have ne: "a \<noteq> l" using a(1) snoc by auto
  let ?c = "(cells m)(a \<mapsto> e\<lparr>e_prev := Some l\<rparr>, l \<mapsto> el\<lparr>e_next := Some a\<rparr>)"
  let ?q = "q\<lparr>q_tail := Some a, num_elements := num_elements q + 1\<rparr>"
  have run: "rq_push_back t m q = Inr (m\<lparr>cells := ?c\<rparr>, ?q)"
    using t d a el ne snoc by (simp add: rq_push_back_def ptr_simps Let_def)
  have "dll ?c (us @ l # a # [])"
    by (rule dll_insert_after [where c = "cells m" and en = "e\<lparr>e_prev := Some l\<rparr>" and ea = el])
      (use d a el ne snoc in auto)
  then have "rq_list (m\<lparr>cells := ?c\<rparr>) ?q (as @ [a])"
    using d a len snoc by (auto simp: rq_list_def hd_append)
  moreover have "meta (m\<lparr>cells := ?c\<rparr>) = meta m" "frame m (m\<lparr>cells := ?c\<rparr>) (insert a (set as))"
    using a el snoc by (auto simp: meta_def frame_def fun_eq_iff)
  ultimately show ?thesis using run by auto
qed

lemma rq_pop_front_list:
  assumes q: "rq_list m q (a # as)" and a: "cells m a = Some e"
  shows "\<exists>m' q'. rq_pop_front m q = Inr (m', q') \<and> rq_list m' q' as \<and>
     frame m m' {a} \<and> cells m' a = Some (e\<lparr>e_prev := None, e_next := None, e_last_yield := False\<rparr>) \<and>
     tid_map q' = tid_map q \<and>
     num_yield_elem q' = (if e_last_yield e then num_yield_elem q - 1 else num_yield_elem q)"
proof -
  note d = rq_listD [OF q]
  let ?e = "e\<lparr>e_prev := None, e_next := None, e_last_yield := False\<rparr>"
  let ?m = "m\<lparr>cells := (cells m)(a \<mapsto> ?e)\<rparr>"
  let ?q = "q\<lparr>num_yield_elem := (if e_last_yield e then num_yield_elem q - 1 else num_yield_elem q),
      q_head := (if as = [] then None else Some (hd as)),
      q_tail := (if as = [] then None else Some (last as)), num_elements := num_elements q - 1\<rparr>"
  have nx: "e_next e = (if as = [] then None else Some (hd as))"
    using dll_next [of "cells m" "[]" a as e] d(3) a by simp
  have run: "rq_pop_front m q = Inr (?m, ?q)"
    using a nx d by (cases e) (auto simp: rq_pop_front_def ptr_simps)
  have "rq_list ?m ?q as"
    using d dll_Cons [OF d(3)] by (auto simp: rq_list_def)
  then show ?thesis using run by (auto simp: frame_def)
qed

text \<open>
  The position \<open>insert_yield\<close> chooses, on the list of yield flags after the first
  element: how many further elements the scan passes.
\<close>

fun scan_len :: "size_t \<Rightarrow> nat \<Rightarrow> bool \<Rightarrow> bool list \<Rightarrow> nat" where
  "scan_len ny count nyf [] = 0"
| "scan_len ny count nyf (f # fs) =
     (if of_nat count < ny \<or> \<not> nyf
      then Suc (scan_len ny (if f then Suc count else count) (nyf \<or> \<not> f) fs) else 0)"

lemma scan_len_le: "scan_len ny count nyf fs \<le> length fs"
  by (induction ny count nyf fs rule: scan_len.induct) auto

definition flag :: "mem \<Rightarrow> addr \<Rightarrow> bool" where
  "flag m a = (case cells m a of None \<Rightarrow> False | Some e \<Rightarrow> e_last_yield e)"

lemma flag_eq: "cells m a = Some e \<Longrightarrow> flag m a = e_last_yield e"
  by (simp add: flag_def)

lemma insert_scan_list:
  assumes "nexts (cells m) (a # as) None" and "length as \<le> n"
  shows "insert_scan n m ny (Some a) count nyf =
           Inr (Some ((a # as) ! scan_len ny count nyf (map (flag m) as)))"
  using assms
proof (induction as arbitrary: a n count nyf)
  case Nil
  then show ?case by (auto simp: insert_scan.simps [of n] ptr_simps)
next
  case (Cons b bs)
  then obtain e f n' where e: "cells m a = Some e" "e_next e = Some b" "cells m b = Some f"
    and n: "n = Suc n'" by (cases n) auto
  from Cons.prems n have prem: "nexts (cells m) (b # bs) None" "length bs \<le> n'" by auto
  show ?case
  proof (cases "of_nat count < ny \<or> \<not> nyf")
    case True
    then show ?thesis
      using e n Cons.IH [OF prem, of "Suc count" nyf] Cons.IH [OF prem, of count True]
      by (simp add: insert_scan.simps [of "Suc n'"] ptr_simps flag_eq)
  next
    case False
    then show ?thesis using e n by (simp add: insert_scan.simps [of "Suc n'"] ptr_simps)
  qed
qed

lemma nth_split_take: "i < length xs \<Longrightarrow> xs = take i xs @ xs ! i # drop (Suc i) xs"
  by (rule id_take_nth_drop)

text \<open>The place of a yielding thread in a queue of \<open>as\<close>.\<close>

definition yield_pos :: "mem \<Rightarrow> run_queue \<Rightarrow> addr list \<Rightarrow> nat" where
  "yield_pos m q as = (case as of [] \<Rightarrow> 0
     | a # bs \<Rightarrow> Suc (scan_len (num_yield_elem q) (if flag m a then 1 else 0) (\<not> flag m a)
                       (map (flag m) bs)))"

lemma yield_pos_le: "yield_pos m q as \<le> length as"
  using scan_len_le [of _ _ _ "map (flag m) (tl as)"] by (cases as) (simp_all add: yield_pos_def)

lemma link_after_list:
  assumes l: "dll (cells m) (us @ c # vs)" "distinct (us @ c # vs)"
    and a: "a \<notin> set (us @ c # vs)" "cells m a = Some e"
  shows "\<exists>m'. link_after (Some a) (Some c) m = Inr m' \<and> dll (cells m') (us @ c # a # vs) \<and>
     frame m m' (insert a (set (us @ c # vs))) \<and> meta m' = meta m"
proof -
  obtain ec where ec: "cells m c = Some ec" using l by (auto dest: dll_live)
  have nc: "e_next ec = (if vs = [] then None else Some (hd vs))" using dll_next l(1) ec by blast
  have ne: "a \<noteq> c" "a \<notin> set us" "c \<notin> set us" "a \<notin> set vs" "c \<notin> set vs" using a l by auto
  let ?ea = "e\<lparr>e_prev := Some c, e_next := e_next ec\<rparr>"
  let ?c1 = "(cells m)(c \<mapsto> ec\<lparr>e_next := Some a\<rparr>, a \<mapsto> ?ea)"
  show ?thesis
  proof (cases vs)
    case Nil
    have "dll ?c1 (us @ c # a # [])"
      by (rule dll_insert_after [where c = "cells m" and en = ?ea and ea = ec])
        (use l a ne ec nc Nil in auto)
    then show ?thesis using a ec nc ne Nil
      by (auto simp: link_after_def ptr_simps frame_def meta_def fun_eq_iff)
  next
    case (Cons v ws)
    obtain ev where ev: "cells m v = Some ev" using l Cons by (auto dest: dll_live)
    have nv: "v \<noteq> a" "v \<noteq> c" "v \<notin> set us" "v \<notin> set ws" using ne l Cons by auto
    let ?c2 = "?c1(v \<mapsto> ev\<lparr>e_prev := Some a\<rparr>)"
    have "dll ?c2 (us @ c # a # v # ws)"
      by (rule dll_insert_after [where c = "cells m" and en = ?ea and ea = ec])
        (use l a ne ec nc nv ev Cons in auto)
    then show ?thesis using a ec nc ne nv ev Cons
      by (auto simp: link_after_def ptr_simps frame_def meta_def fun_eq_iff)
  qed
qed

lemma rq_insert_yield_list:
  assumes q: "rq_list m q as" and t: "t < MAX_THREAD_NUM" "tid_map q t = Some a"
    and a: "a \<notin> set as" "cells m a = Some e" "e_prev e = None" "e_next e = None"
    and len: "length as < MAX_THREAD_NUM"
  shows "\<exists>m' q'. rq_insert_yield t m q = Inr (m', q') \<and>
     rq_list m' q' (take (yield_pos m q as) as @ a # drop (yield_pos m q as) as) \<and>
     frame m m' (insert a (set as)) \<and>
     meta m' = (meta m)(a \<mapsto> (e_tid e, e_status e, True)) \<and> tid_map q' = tid_map q \<and>
     num_yield_elem q' = (if as = [] then num_yield_elem q else num_yield_elem q + 1)"
proof (cases as)
  case Nil
  with assms show ?thesis
    by (auto simp: rq_insert_yield_def rq_list_def dll_def frame_def ptr_simps meta_def fun_eq_iff Let_def)
next
  case (Cons h bs)
  note d = rq_listD [OF q]
  define k where "k = scan_len (num_yield_elem q) (if flag m h then 1 else 0) (\<not> flag m h) (map (flag m) bs)"
  define c where "c = (h # bs) ! k"
  define us where "us = take k as"
  define vs where "vs = drop (Suc k) as"
  let ?m = "m\<lparr>cells := (cells m)(a \<mapsto> e\<lparr>e_last_yield := True\<rparr>)\<rparr>"
  have k: "k < length as" "yield_pos m q as = Suc k"
    using scan_len_le [of _ _ _ "map (flag m) bs"] by (simp_all add: k_def Cons yield_pos_def less_Suc_eq_le)
  have as: "as = us @ c # vs"
    using id_take_nth_drop [OF k(1)] by (simp add: us_def vs_def c_def Cons)
  have split: "take (yield_pos m q as) as @ a # drop (yield_pos m q as) as = us @ c # a # vs"
    using take_Suc_conv_app_nth [OF k(1)] k(2) Cons by (simp add: us_def c_def vs_def)
  obtain eh where eh: "cells m h = Some eh" using d(3) Cons by (auto dest: dll_live)
  have "nexts (cells ?m) (h # bs) None" using d(3) a(1) Cons by (auto simp: dll_def)
  moreover have "unat (num_elements q) = Suc (length bs)"
    using rq_size_list [OF q] Cons by (simp add: rq_size_def)
  moreover have fl: "map (flag ?m) bs = map (flag m) bs" using a(1) Cons by (auto simp: flag_def)
  ultimately have scan: "insert_scan (unat (num_elements q)) ?m (num_yield_elem q) (Some h)
      (if e_last_yield eh then 1 else 0) (\<not> e_last_yield eh) = Inr (Some c)"
    by (simp add: insert_scan_list c_def k_def flag_eq [OF eh] del: nexts.simps map_eq_conv)
  obtain m' where m': "link_after (Some a) (Some c) ?m = Inr m'" "dll (cells m') (us @ c # a # vs)"
    "frame ?m m' (insert a (set as))" "meta m' = meta ?m"
    using link_after_list [of ?m us c vs a] d a as by auto
  have lst: "c = last as \<longleftrightarrow> vs = []" using as d(4) by auto
  let ?q = "(if vs = [] then q\<lparr>q_tail := Some a\<rparr> else q)
      \<lparr>num_yield_elem := num_yield_elem q + 1, num_elements := num_elements q + 1\<rparr>"
  have run: "rq_insert_yield t m q = Inr (m', ?q)"
  proof -
    have "h \<noteq> a" "q_head q = Some h" "q_tail q = Some (last as)" using d(1,2) a(1) Cons by auto
    then show ?thesis using t a(2) eh scan m'(1) lst
      by (simp add: rq_insert_yield_def ptr_simps Let_def)
  qed
  have "rq_list m' ?q (us @ c # a # vs)"
    using d a(1) m'(2) len as by (auto simp: rq_list_def hd_append)
  moreover have "frame m m' (insert a (set as))" using m'(3) by (auto simp: frame_def)
  moreover have "meta m' = (meta m)(a \<mapsto> (e_tid e, e_status e, True))"
    using m'(4) by (auto simp: meta_def fun_eq_iff)
  ultimately show ?thesis using run split Cons by auto
qed

lemma rq_front_list:
  assumes "rq_list m q (a # as)" and "cells m a = Some e"
  shows "rq_front m q = Inr (e_tid e)" and "rq_front_elem q = Some a"
  using assms by (simp_all add: rq_front_def rq_front_elem_def rq_list_def ptr_simps)

section \<open>Two queues over one set of elements\<close>

text \<open>
  The scheduler keeps two queues over the same elements. \<open>queues M m q xs p ys\<close>: every
  thread of \<open>M\<close> has a live element that carries its identifier, the tables of \<open>q\<close> and
  \<open>p\<close> agree with \<open>M\<close>, \<open>q\<close> holds the threads \<open>xs\<close> and \<open>p\<close> the threads \<open>ys\<close>, no
  thread is on both, and an element on neither has no neighbours.
\<close>

type_synonym elem_map = "tid \<Rightarrow> addr option"

definition elems_ok :: "elem_map \<Rightarrow> mem \<Rightarrow> bool" where
  "elems_ok M m \<longleftrightarrow> (\<forall>t a. M t = Some a \<longrightarrow>
     t < MAX_THREAD_NUM \<and> a < brk m \<and> (\<exists>e. cells m a = Some e \<and> e_tid e = t))"

definition unlinked :: "elem_map \<Rightarrow> mem \<Rightarrow> tid set \<Rightarrow> bool" where
  "unlinked M m T \<longleftrightarrow> (\<forall>t a e. M t = Some a \<and> t \<notin> T \<and> cells m a = Some e \<longrightarrow>
     e_prev e = None \<and> e_next e = None)"

definition addrs :: "elem_map \<Rightarrow> tid list \<Rightarrow> addr list" where
  "addrs M xs = map (the \<circ> M) xs"

definition queues ::
  "elem_map \<Rightarrow> mem \<Rightarrow> run_queue \<Rightarrow> tid list \<Rightarrow> run_queue \<Rightarrow> tid list \<Rightarrow> bool" where
  "queues M m q xs p ys \<longleftrightarrow>
     elems_ok M m \<and> unlinked M m (set xs \<union> set ys) \<and>
     tid_map q \<subseteq>\<^sub>m M \<and> tid_map p \<subseteq>\<^sub>m M \<and>
     rq_list m q (addrs M xs) \<and> rq_list m p (addrs M ys) \<and>
     distinct (xs @ ys) \<and> set xs \<union> set ys \<subseteq> dom M"

text \<open>The state and the yield flag of a thread's element.\<close>

definition th_meta :: "elem_map \<Rightarrow> mem \<Rightarrow> tid \<Rightarrow> (THD_STATUS \<times> bool) option" where
  "th_meta M m t = (case M t of None \<Rightarrow> None | Some a \<Rightarrow> map_option snd (meta m a))"

lemma queues_swap: "queues M m q xs p ys \<longleftrightarrow> queues M m p ys q xs"
  by (auto simp: queues_def Un_commute)

lemma elems_okD:
  "elems_ok M m \<Longrightarrow> M t = Some a \<Longrightarrow>
     t < MAX_THREAD_NUM \<and> a < brk m \<and> (\<exists>e. cells m a = Some e \<and> e_tid e = t)"
  by (simp add: elems_ok_def)

lemma elems_ok_inj: "elems_ok M m \<Longrightarrow> M t = Some a \<Longrightarrow> M u = Some a \<Longrightarrow> t = u"
  using elems_okD [of M m t a] elems_okD [of M m u a] by auto

lemma addrs_simps [simp]:
  "addrs M [] = []" "addrs M (t # ts) = the (M t) # addrs M ts"
  "addrs M (ts @ us) = addrs M ts @ addrs M us" "length (addrs M ts) = length ts"
  "take k (addrs M ts) = addrs M (take k ts)" "drop k (addrs M ts) = addrs M (drop k ts)"
  by (simp_all add: addrs_def take_map drop_map)

lemma addrs_Nil_iff [simp]: "addrs M ts = [] \<longleftrightarrow> ts = []"
  by (simp add: addrs_def)

lemma in_addrs:
  assumes "elems_ok M m" and "set ts \<subseteq> dom M" and "M t = Some a"
  shows "a \<in> set (addrs M ts) \<longleftrightarrow> t \<in> set ts"
  using assms by (force simp: addrs_def dest: elems_ok_inj)

lemma elems_ok_meta:
  assumes "elems_ok M m" and "brk m' = brk m"
    and tid: "\<And>a x. meta m a = Some x \<Longrightarrow> \<exists>y. meta m' a = Some y \<and> fst y = fst x"
  shows "elems_ok M m'"
proof -
  have "\<exists>e. cells m' a = Some e \<and> e_tid e = t" if Mt: "M t = Some a" for t a
  proof -
    obtain e where "cells m a = Some e" "e_tid e = t" using elems_okD [OF assms(1) Mt] by blast
    then show ?thesis using tid [of a "(t, e_status e, e_last_yield e)"] by (auto simp: meta_def)
  qed
  then show ?thesis using assms(1,2) by (auto simp: elems_ok_def)
qed

lemma dom_bounded_length:
  assumes "elems_ok M m" and "distinct ts" and "set ts \<subseteq> dom M"
  shows "length ts \<le> MAX_THREAD_NUM"
proof -
  have "set ts \<subseteq> {..<MAX_THREAD_NUM}" using assms by (fastforce simp: elems_ok_def)
  then have "card (set ts) \<le> MAX_THREAD_NUM" using card_mono [of "{..<MAX_THREAD_NUM}"] by fastforce
  then show ?thesis using assms(2) by (simp add: distinct_card)
qed

lemma queuesD:
  assumes "queues M m q xs p ys"
  shows "elems_ok M m" and "unlinked M m (set xs \<union> set ys)" and "tid_map q \<subseteq>\<^sub>m M"
    and "rq_list m q (addrs M xs)" and "rq_list m p (addrs M ys)" and "distinct (xs @ ys)"
    and "set xs \<subseteq> dom M" and "set ys \<subseteq> dom M"
  using assms by (auto simp: queues_def)

text \<open>What an operation on one of the queues has to show.\<close>

lemma queues_step:
  assumes q: "queues M m q xs p ys" and fr: "frame m m' (set (addrs M zs))"
    and zs: "set zs \<subseteq> dom M" "set zs \<inter> set ys = {}"
    and tid: "\<And>a x. meta m a = Some x \<Longrightarrow> \<exists>y. meta m' a = Some y \<and> fst y = fst x"
    and q': "rq_list m' q' (addrs M xs')" "tid_map q' = tid_map q"
    and xs': "distinct (xs' @ ys)" "set xs' \<subseteq> dom M" "set xs \<subseteq> set xs' \<union> set zs"
    and un: "unlinked M m' (set xs' \<union> set ys \<union> - set zs)"
  shows "queues M m' q' xs' p ys"
proof -
  note d = queuesD [OF q]
  have other: "cells m' a = cells m a" if "M t = Some a" "t \<notin> set zs" for t a
    using fr in_addrs [OF d(1) zs(1) that(1)] that(2) by (simp add: frame_def)
  have "cells m' a = cells m a" if "a \<in> set (addrs M ys)" for a
    using that zs(2) d(8) other by (force simp: addrs_def)
  then have "rq_list m' p (addrs M ys)" by (rule rq_list_frame [OF d(5)])
  moreover have "unlinked M m' (set xs' \<union> set ys)"
    unfolding unlinked_def
  proof (intro allI impI, elim conjE)
    fix t a e
    assume t: "M t = Some a" "t \<notin> set xs' \<union> set ys" "cells m' a = Some e"
    show "e_prev e = None \<and> e_next e = None"
    proof (cases "t \<in> set zs")
      case True
      then show ?thesis using un t by (auto simp: unlinked_def)
    next
      case False
      then have "t \<notin> set xs \<union> set ys" "cells m a = Some e" using t xs'(3) other by auto
      then show ?thesis using d(2) t(1) unfolding unlinked_def by blast
    qed
  qed
  moreover have "elems_ok M m'" using fr tid by (intro elems_ok_meta [OF d(1)]) (auto simp: frame_def)
  ultimately show ?thesis using q q' xs' by (simp add: queues_def)
qed

lemma queues_push_back:
  assumes q: "queues M m q xs p ys" and t: "tid_map q t = Some a" "t \<notin> set xs" "t \<notin> set ys"
  shows "\<exists>m' q'. rq_push_back t m q = Inr (m', q') \<and> queues M m' q' (xs @ [t]) p ys \<and>
     meta m' = meta m \<and> brk m' = brk m \<and> tid_map q' = tid_map q \<and> num_yield_elem q' = num_yield_elem q"
proof -
  note d = queuesD [OF q]
  have M: "M t = Some a" using d(3) t(1) by (force simp: map_le_def)
  then obtain e where e: "t < MAX_THREAD_NUM" "cells m a = Some e" using elems_okD [OF d(1)] by blast
  have un: "e_prev e = None" "e_next e = None" using d(2) M t e by (auto simp: unlinked_def)
  have "length (xs @ [t]) \<le> MAX_THREAD_NUM"
    using d M t by (intro dom_bounded_length [OF d(1)]) auto
  then obtain m' q' where r: "rq_push_back t m q = Inr (m', q')" "rq_list m' q' (addrs M xs @ [a])"
      "frame m m' (insert a (set (addrs M xs)))" "meta m' = meta m" "tid_map q' = tid_map q"
      "num_yield_elem q' = num_yield_elem q"
    using rq_push_back_list [OF d(4) e(1) t(1) _ e(2) un] in_addrs [OF d(1,7) M] t(2) by auto
  have "queues M m' q' (xs @ [t]) p ys"
    by (rule queues_step [OF q, where zs = "t # xs"])
      (use r M d t in \<open>auto simp: unlinked_def\<close>)
  then show ?thesis using r by (auto simp: frame_def)
qed

lemma queues_insert_yield:
  assumes q: "queues M m q xs p ys" and t: "tid_map q t = Some a" "t \<notin> set xs" "t \<notin> set ys"
    and k: "k = yield_pos m q (addrs M xs)"
  shows "\<exists>m' q'. rq_insert_yield t m q = Inr (m', q') \<and>
     queues M m' q' (take k xs @ t # drop k xs) p ys \<and>
     meta m' = (meta m)(a := map_option (\<lambda>(u, s, y). (u, s, True)) (meta m a)) \<and>
     brk m' = brk m \<and> tid_map q' = tid_map q \<and>
     num_yield_elem q' = (if xs = [] then num_yield_elem q else num_yield_elem q + 1)"
proof -
  note d = queuesD [OF q]
  have M: "M t = Some a" using d(3) t(1) by (force simp: map_le_def)
  then obtain e where e: "t < MAX_THREAD_NUM" "cells m a = Some e" using elems_okD [OF d(1)] by blast
  have un: "e_prev e = None" "e_next e = None" using d(2) M t e by (auto simp: unlinked_def)
  have "length (xs @ [t]) \<le> MAX_THREAD_NUM"
    using d M t by (intro dom_bounded_length [OF d(1)]) auto
  then obtain m' q' where r: "rq_insert_yield t m q = Inr (m', q')"
      "rq_list m' q' (addrs M (take k xs) @ a # addrs M (drop k xs))"
      "frame m m' (insert a (set (addrs M xs)))" "meta m' = (meta m)(a \<mapsto> (e_tid e, e_status e, True))"
      "tid_map q' = tid_map q" "num_yield_elem q' = (if xs = [] then num_yield_elem q else num_yield_elem q + 1)"
    using rq_insert_yield_list [OF d(4) e(1) t(1) _ e(2) un] in_addrs [OF d(1,7) M] t(2) k by auto
  have set: "set (take k xs @ t # drop k xs) = insert t (set xs)"
    by (metis Un_insert_right append_take_drop_id list.simps(15) set_append)
  have "set (take k xs) \<inter> set (drop k xs) = {}" "t \<notin> set (take k xs)" "t \<notin> set (drop k xs)"
    using d(6) t(2) set_take_disj_set_drop_if_distinct [of xs k k]
    by (simp_all, metis in_set_takeD, metis in_set_dropD)
  then have dist: "distinct ((take k xs @ t # drop k xs) @ ys)"
    using d(6) t set by auto
  have "queues M m' q' (take k xs @ t # drop k xs) p ys"
    by (rule queues_step [OF q, where zs = "t # xs"])
      (use r M d t e set dist in \<open>auto simp: unlinked_def meta_def split: if_splits\<close>)
  then show ?thesis using r e by (auto simp: meta_def frame_def)
qed

lemma queues_pop_front:
  assumes q: "queues M m q (t # xs) p ys" and M: "M t = Some a"
  shows "\<exists>m' q'. rq_pop_front m q = Inr (m', q') \<and> queues M m' q' xs p ys \<and>
     meta m' = (meta m)(a := map_option (\<lambda>(u, s, y). (u, s, False)) (meta m a)) \<and>
     brk m' = brk m \<and> tid_map q' = tid_map q \<and>
     num_yield_elem q' = (if flag m a then num_yield_elem q - 1 else num_yield_elem q)"
proof -
  note d = queuesD [OF q]
  obtain e where e: "cells m a = Some e" using elems_okD [OF d(1) M] by blast
  obtain m' q' where r: "rq_pop_front m q = Inr (m', q')" "rq_list m' q' (addrs M xs)" "frame m m' {a}"
      "cells m' a = Some (e\<lparr>e_prev := None, e_next := None, e_last_yield := False\<rparr>)"
      "tid_map q' = tid_map q" "num_yield_elem q' = (if e_last_yield e then num_yield_elem q - 1 else num_yield_elem q)"
    using rq_pop_front_list [of m q a "addrs M xs" e] d(4) M e by auto
  have mt: "meta m' = (meta m)(a := map_option (\<lambda>(u, s, y). (u, s, False)) (meta m a))"
    using r e by (auto simp: meta_def frame_def fun_eq_iff)
  have "queues M m' q' xs p ys"
    by (rule queues_step [OF q, where zs = "[t]"])
      (use r M d e mt in \<open>auto simp: unlinked_def meta_def split: if_splits\<close>)
  then show ?thesis using r mt e by (simp add: flag_eq frame_def)
qed

lemma queues_empty: "queues M m q xs p ys \<Longrightarrow> rq_empty q \<longleftrightarrow> xs = []"
  using rq_empty_list queuesD(4) by fastforce

lemma queues_size: "queues M m q xs p ys \<Longrightarrow> unat (rq_size q) = length xs"
  using rq_size_list queuesD(4) by fastforce

lemma queues_front:
  assumes q: "queues M m q (t # xs) p ys"
  shows "rq_front m q = Inr t" and "rq_front_elem q = M t" and "q_head q = M t"
proof -
  note d = queuesD [OF q]
  obtain a e where "M t = Some a" "cells m a = Some e" "e_tid e = t"
    using d(7) elems_okD [OF d(1), of t] by auto
  with rq_front_list [of m q a "addrs M xs" e] d(4)
  show "rq_front m q = Inr t" "rq_front_elem q = M t" "q_head q = M t"
    by (simp_all add: rq_front_elem_def)
qed

lemma rq_walk_list:
  assumes "elems_ok M m" and "set ts \<subseteq> dom M" and "nexts (cells m) (addrs M ts) None"
  shows "rq_walk (length ts) m (if ts = [] then None else M (hd ts)) = Inr ts"
  using assms(2,3)
proof (induction ts)
  case (Cons t ts)
  then obtain a e where a: "M t = Some a" "cells m a = Some e" "e_tid e = t"
    using elems_okD [OF assms(1), of t] by auto
  have "hd (addrs M ts) = the (M (hd ts))" if "ts \<noteq> []" using that by (cases ts) auto
  then have "e_next e = (if ts = [] then None else M (hd ts))"
    using a Cons.prems by (cases ts) auto
  then show ?case using a Cons
    by (simp add: iter_tid_def iter_next_def ptr_simps rq_end_def)
qed (simp add: rq_end_def)

text \<open>Walking the queue gives the threads it holds, in order.\<close>

lemma queues_tids:
  assumes q: "queues M m q xs p ys"
  shows "rq_tids m q = Inr xs"
proof -
  note d = queuesD [OF q]
  have "q_head q = (if xs = [] then None else M (hd xs))"
    using d(4,7) by (cases xs) (auto simp: rq_list_def)
  then show ?thesis
    using rq_walk_list [OF d(1,7)] rq_listD(3) [OF d(4)] rq_size_list [OF d(4)]
    by (simp add: rq_tids_def rq_begin_def rq_size_def dll_def)
qed

lemma queues_in:
  assumes q: "queues M m q xs p ys" and t: "tid_map q t = Some a" "t \<notin> set ys"
  shows "rq_in t m q = Inr (t \<in> set xs)"
proof -
  note d = queuesD [OF q]
  have M: "M t = Some a" using d(3) t(1) by (force simp: map_le_def)
  then obtain e where e: "t < MAX_THREAD_NUM" "cells m a = Some e" using elems_okD [OF d(1)] by blast
  have mem: "a \<in> set (addrs M xs) \<longleftrightarrow> t \<in> set xs" by (rule in_addrs [OF d(1,7) M])
  note l = rq_listD [OF d(4)]
  show ?thesis
  proof (cases "t \<in> set xs")
    case True
    then obtain us vs where as: "addrs M xs = us @ a # vs" using mem by (meson split_list)
    then have "e_next e = (if vs = [] then None else Some (hd vs))" "us \<noteq> [] \<Longrightarrow> e_prev e = Some (last us)"
      using l(3) e(2) dll_next dll_prev by metis+
    then show ?thesis using True e t(1) l(1,2) as
      by (cases us; cases vs) (auto simp: rq_in_def ptr_simps Let_def)
  next
    case False
    then have "e_prev e = None" "e_next e = None" using d(2) M e t(2) by (auto simp: unlinked_def)
    moreover have "q_head q \<noteq> Some a"
      using l(1) mem False list.set_sel(1) by (metis addrs_Nil_iff option.distinct(1) option.inject)
    ultimately show ?thesis using False e t(1) by (simp add: rq_in_def ptr_simps)
  qed
qed

text \<open>A step that keeps every link keeps both queues.\<close>

lemma queues_links:
  assumes q: "queues M m q xs p ys" and "brk m' = brk m"
    and links: "\<And>a e. cells m a = Some e \<Longrightarrow> \<exists>e'. cells m' a = Some e' \<and> e_tid e' = e_tid e \<and>
      e_next e' = e_next e \<and> e_prev e' = e_prev e"
  shows "queues M m' q xs p ys"
proof -
  note d = queuesD [OF q]
  have "elems_ok M m'" using d(1) assms(2) links unfolding elems_ok_def by metis
  moreover have "unlinked M m' (set xs \<union> set ys)"
    unfolding unlinked_def
  proof (intro allI impI, elim conjE)
    fix t a e
    assume t: "M t = Some a" "t \<notin> set xs \<union> set ys" "cells m' a = Some e"
    obtain e0 where "cells m a = Some e0" using elems_okD [OF d(1) t(1)] by blast
    then show "e_prev e = None \<and> e_next e = None"
      using links [of a e0] d(2) t by (auto simp: unlinked_def)
  qed
  moreover have "dll (cells m') (addrs M ts)" if "dll (cells m) (addrs M ts)" for ts
    by (rule dll_same [OF that]) (use links in blast)
  ultimately show ?thesis using q by (simp add: queues_def rq_list_def)
qed

lemma queues_set_status:
  assumes q: "queues M m q xs p ys" and M: "M t = Some a"
  shows "\<exists>m'. store m (Some a) (\<lambda>e. e\<lparr>e_status := st\<rparr>) = Inr m' \<and> queues M m' q xs p ys \<and>
     meta m' = (meta m)(a := map_option (\<lambda>(u, s, y). (u, st, y)) (meta m a)) \<and> brk m' = brk m"
proof -
  obtain e where e: "cells m a = Some e" using elems_okD [OF queuesD(1) [OF q] M] by blast
  let ?m = "m\<lparr>cells := (cells m)(a \<mapsto> e\<lparr>e_status := st\<rparr>)\<rparr>"
  have "queues M ?m q xs p ys" using q by (rule queues_links) (use e in auto)
  then show ?thesis using e by (auto simp: ptr_simps meta_def fun_eq_iff)
qed

lemma queues_create:
  assumes q: "queues (tid_map q) m q xs p ys" and t: "t < MAX_THREAD_NUM" "tid_map q t = None"
    and fresh: "\<And>a. cells m a \<noteq> None \<Longrightarrow> a < brk m"
  shows "\<exists>m' q'. rq_create_thd_elem t m q = Inr (brk m, m', q') \<and>
     queues (tid_map q') m' q' xs p ys \<and> tid_map q' = (tid_map q)(t \<mapsto> brk m) \<and>
     meta m' = (meta m)(brk m \<mapsto> (t, RUNNABLE, False)) \<and> brk m' = Suc (brk m) \<and>
     (\<forall>a. cells m' a \<noteq> None \<longrightarrow> a < brk m') \<and> num_yield_elem q' = num_yield_elem q"
proof -
  note d = queuesD [OF q]
  let ?a = "brk m"
  let ?m = "m\<lparr>cells := (cells m)(?a \<mapsto> new_runq_elem t), brk := Suc ?a\<rparr>"
  let ?q = "q\<lparr>tid_map := (tid_map q)(t \<mapsto> ?a)\<rparr>"
  have old: "a < ?a" if "tid_map q u = Some a" for u a using elems_okD [OF d(1) that] by blast
  have "t \<notin> set xs" "t \<notin> set ys" using d(7,8) t(2) by auto
  then have adr: "addrs (tid_map ?q) xs = addrs (tid_map q) xs" "addrs (tid_map ?q) ys = addrs (tid_map q) ys"
    by (auto simp: addrs_def)
  have notin: "?a \<notin> set (addrs (tid_map q) ts)" if "set ts \<subseteq> dom (tid_map q)" for ts
    using that old by (force simp: addrs_def)
  have "elems_ok (tid_map ?q) ?m"
    using d(1) t(1) old unfolding elems_ok_def by (auto simp: new_runq_elem_def less_SucI)
  moreover have "unlinked (tid_map ?q) ?m (set xs \<union> set ys)"
    using d(2) old unfolding unlinked_def by (auto simp: new_runq_elem_def split: if_splits)
  moreover have "rq_list ?m ?q (addrs (tid_map ?q) xs)" "rq_list ?m p (addrs (tid_map ?q) ys)"
    using d(4,5) notin [OF d(7)] notin [OF d(8)] unfolding adr by (simp_all add: rq_list_def)
  moreover have "tid_map p \<subseteq>\<^sub>m tid_map ?q"
    using q t(2) by (auto simp: queues_def map_le_def dom_def)
  ultimately have "queues (tid_map ?q) ?m ?q xs p ys"
    using d(6,7,8) by (auto simp: queues_def)
  then show ?thesis
    using t fresh by (auto simp: rq_create_thd_elem_def Let_def meta_def fun_eq_iff new_runq_elem_def less_SucI)
qed

lemma queues_set_thd_elem:
  assumes "queues M m q xs p ys" and "M t = Some a"
  shows "\<exists>p'. rq_set_thd_elem t (Some a) p = Inr p' \<and> queues M m q xs p' ys \<and>
     tid_map p' = (tid_map p)(t \<mapsto> a) \<and> num_yield_elem p' = num_yield_elem p"
  using assms elems_okD [OF queuesD(1) [OF assms(1)] assms(2)]
  by (auto simp: rq_set_thd_elem_def queues_def rq_list_def map_le_def)

section \<open>Clearing\<close>

text \<open>The queue and the heap after the first \<open>n\<close> iterations of \<open>deep_clear\<close>.\<close>

definition cleared :: "nat \<Rightarrow> mem \<Rightarrow> run_queue \<Rightarrow> mem \<times> run_queue" where
  "cleared n m q =
     (m\<lparr>cells := (\<lambda>a. if \<exists>t < n. tid_map q t = Some a then None else cells m a)\<rparr>,
      q\<lparr>tid_map := (\<lambda>t. if t < n then None else tid_map q t)\<rparr>)"

lemma rq_clear_slot_step:
  assumes ok: "elems_ok (tid_map q) m" and n: "n < MAX_THREAD_NUM"
  shows "rq_clear_slot n (cleared n m q) = Inr (cleared (Suc n) m q)"
proof (cases "tid_map q n")
  case None
  then have "(\<exists>t < Suc n. tid_map q t = Some a) \<longleftrightarrow> (\<exists>t < n. tid_map q t = Some a)" for a
    using less_Suc_eq by auto
  moreover have "(\<lambda>t. if t < Suc n then None else tid_map q t) = (\<lambda>t. if t < n then None else tid_map q t)"
    using None less_Suc_eq by fastforce
  ultimately have "cleared (Suc n) m q = cleared n m q" by (simp add: cleared_def)
  with None show ?thesis by (simp add: rq_clear_slot_def cleared_def)
next
  case (Some a)
  obtain e where e: "cells m a = Some e" "e_tid e = n" using elems_okD [OF ok Some] by blast
  have other: "\<not> (\<exists>t < n. tid_map q t = Some a)" using elems_ok_inj [OF ok Some] by blast
  then have "cells (fst (cleared n m q)) a = Some e" using e by (auto simp: cleared_def)
  moreover have "(\<lambda>b. if \<exists>t < Suc n. tid_map q t = Some b then None else cells m b) =
      (\<lambda>b. if \<exists>t < n. tid_map q t = Some b then None else cells m b)(a := None)"
    using Some by (auto simp: fun_eq_iff less_Suc_eq)
  moreover have "(\<lambda>t. if t < Suc n then None else tid_map q t) =
      (\<lambda>t. if t < n then None else tid_map q t)(n := None)"
    by (auto simp: fun_eq_iff less_Suc_eq)
  ultimately show ?thesis using Some e n
    by (simp add: rq_clear_slot_def cleared_def iter_tid_def ptr_simps rq_del_thd_elem_def Let_def)
qed

lemma res_fold_clear:
  assumes "elems_ok (tid_map q) m" and "n \<le> MAX_THREAD_NUM"
  shows "res_fold rq_clear_slot [0..<n] (m, q) = Inr (cleared n m q)"
  using assms(2)
proof (induction n)
  case (Suc n)
  then show ?case using rq_clear_slot_step [OF assms(1)] by (simp add: res_fold_append)
qed (simp add: cleared_def)

lemma rq_deep_clear_spec:
  assumes ok: "elems_ok (tid_map q) m"
  shows "\<exists>m' q'. rq_deep_clear m q = Inr (m', q') \<and> tid_map q' = Map.empty \<and> brk m' = brk m \<and>
     (\<forall>a. cells m' a = (if a \<in> ran (tid_map q) then None else cells m a)) \<and>
     rq_list m' q' [] \<and> num_yield_elem q' = 0"
proof -
  let ?q = "q\<lparr>q_head := None, q_tail := None, num_elements := 0, num_yield_elem := 0\<rparr>"
  have small: "t < MAX_THREAD_NUM" if "tid_map q t = Some a" for t a using elems_okD [OF ok that] by blast
  then have "\<And>t. \<not> t < MAX_THREAD_NUM \<Longrightarrow> tid_map q t = None" by (meson not_None_eq)
  moreover have "(\<exists>t < MAX_THREAD_NUM. tid_map q t = Some a) \<longleftrightarrow> a \<in> ran (tid_map q)" for a
    using small by (auto simp: ran_def)
  ultimately show ?thesis
    using ok res_fold_clear [of ?q m MAX_THREAD_NUM]
    by (auto simp: rq_deep_clear_def cleared_def rq_list_def fun_eq_iff)
qed

lemma rq_new_spec:
  "\<exists>q. rq_new m = Inr (m, q) \<and> tid_map q = Map.empty \<and> rq_list m q [] \<and> num_yield_elem q = 0"
proof -
  let ?q = "\<lparr>q_head = None, q_tail = None, num_elements = 0, tid_map = \<lambda>_. None, num_yield_elem = 0\<rparr>"
  have "res_fold rq_clear_slot [0..<MAX_THREAD_NUM] (m, ?q) = Inr (cleared MAX_THREAD_NUM m ?q)"
    by (rule res_fold_clear) (simp_all add: elems_ok_def)
  then show ?thesis
    by (simp add: rq_new_def rq_deep_clear_def cleared_def rq_list_def fun_eq_iff)
qed

end
