(* ===== verification/TidMap.thy ===== *)
theory TidMap
  imports Prelude
begin

text \<open>
  The run-time options (\<open>default.options\<close>), the thread-identifier map \<open>TidMap\<close> of
  \<open>include/tern/runtime/scheduler.h\<close> and the set of threads running outside the
  schedule, \<open>include/tern/runtime/non-det-thread-set.h\<close>.

  The lemmas show that the two directions of the identifier map stay inverse to each other,
  that identifiers are handed out consecutively and never twice, that roles are numbered
  injectively, and that the thread set is a queue ordered by insertion.
\<close>

section \<open>Options\<close>

text \<open>
  \<open>ndebug\<close> says whether the library is compiled with \<open>NDEBUG\<close>, which removes the
  assertions. \<open>set_order\<close> is the order in which an \<open>unordered_set\<close> with the given
  members is iterated, which the C++ library leaves open.
\<close>

record options =
  ndebug :: bool
  enforce_turn_type :: int
  scheduling_policy :: "32 word"
  enforce_non_det_clock_bound :: bool
  non_det_clock_bound :: u32
  enforce_non_det_annotations :: int
  launch_idle_thread :: int
  wakeamap_plus :: bool
  high_priority_yield :: bool
  enforce_no_wait_non_det_annotations :: int
  enforce_next_n_annotations :: bool
  enforce_ext_turn :: bool
  enforce_dummy_sync :: bool
  enforce_delays :: bool
  log_task_time :: int
  log_sync :: bool
  record_runtime_stat :: bool
  generate_per_sync_stats :: bool
  RR_ignore_rw_regular_file :: bool
  exec_sleep :: bool
  nanosec_per_turn :: int
  non_block_recv :: bool
  set_mutex_errorcheck :: bool
  non_det_for_single_thread :: bool
  log_type :: string
  output_dir :: string
  pid_in_logfilename :: bool
  DMT :: bool
  enforce_annotations :: bool
  disable_soba :: bool
  dync_geteip :: bool
  whole_stack_eip_signature :: bool
  backtrace_level :: int
  record_rdtsc :: bool
  rdtsc_output_dir :: string
  set_order :: "tid list \<Rightarrow> tid list"

definition default_options :: options where
  "default_options = \<lparr>ndebug = True, enforce_turn_type = 2, scheduling_policy = 0,
     enforce_non_det_clock_bound = False, non_det_clock_bound = 1000,
     enforce_non_det_annotations = 0, launch_idle_thread = 2, wakeamap_plus = False,
     high_priority_yield = False, enforce_no_wait_non_det_annotations = 0,
     enforce_next_n_annotations = False, enforce_ext_turn = False,
     enforce_dummy_sync = False, enforce_delays = False, log_task_time = 0,
     log_sync = False, record_runtime_stat = False, generate_per_sync_stats = False,
     RR_ignore_rw_regular_file = True, exec_sleep = False, nanosec_per_turn = 3000,
     non_block_recv = False, set_mutex_errorcheck = False, non_det_for_single_thread = False, log_type = ''txt'',
     output_dir = ''./dmt_out'', pid_in_logfilename = True, DMT = True, enforce_annotations = True,
     disable_soba = False, dync_geteip = False, whole_stack_eip_signature = False, backtrace_level = 0,
     record_rdtsc = False, rdtsc_output_dir = ''./dmt_rdtsc_out'',
     set_order = (\<lambda>xs. xs)\<rparr>"

text \<open>\<open>assert(b)\<close> followed by the rest; absent when compiled with \<open>NDEBUG\<close>.\<close>

definition assert_then :: "options \<Rightarrow> bool \<Rightarrow> 'a res \<Rightarrow> 'a res" where
  "assert_then opt b m = check AssertFailed (ndebug opt \<or> b) m"

text \<open>
  Using an iterator that may be \<open>end()\<close>: the assertion that guards it fails, or, without
  assertions, the iterator is dereferenced all the same.
\<close>

definition use_found :: "options \<Rightarrow> 'a option \<Rightarrow> ('a \<Rightarrow> 'b res) \<Rightarrow> 'b res" where
  "use_found opt it k = (case it of
     None \<Rightarrow> Inl (if ndebug opt then DanglingDeref else AssertFailed) | Some x \<Rightarrow> k x)"

lemma assert_then_simps [simp]:
  "assert_then opt True m = m" "ndebug opt \<Longrightarrow> assert_then opt b m = m"
  by (simp_all add: assert_then_def)

lemma use_found_simps [simp]: "use_found opt (Some x) k = k x"
  by (simp add: use_found_def)

section \<open>Thread identifiers\<close>

type_synonym func = nat

definition MainThreadTid :: tid where
  "MainThreadTid = 0"

definition IdleThreadTid :: tid where
  "IdleThreadTid = 1"

record tidmap =
  p_t_map :: "pthread \<Rightarrow> tid option"
  t_p_map :: "tid \<Rightarrow> pthread option"
  zombies :: "pthread set"
  nthread :: nat
  f_r_map :: "func \<Rightarrow> nat option"
  r_f_map :: "nat \<Rightarrow> func option"
  nrole :: nat
  t_r_map :: "tid \<Rightarrow> nat option"

text \<open>The part \<open>create\<close> and \<open>changeRole\<close> share: give thread \<open>t\<close> the role of \<open>f\<close>.\<close>

definition tm_assign_role :: "tid \<Rightarrow> func \<Rightarrow> tidmap \<Rightarrow> tidmap" where
  "tm_assign_role t f m = (case f_r_map m f of
     None \<Rightarrow> m\<lparr>f_r_map := (f_r_map m)(f \<mapsto> nrole m), r_f_map := (r_f_map m)(nrole m \<mapsto> f),
               t_r_map := (t_r_map m)(t \<mapsto> nrole m), nrole := nrole m + 1\<rparr>
   | Some r \<Rightarrow> m\<lparr>t_r_map := (t_r_map m)(t \<mapsto> r)\<rparr>)"

definition tm_create :: "options \<Rightarrow> pthread \<Rightarrow> func \<Rightarrow> tidmap \<Rightarrow> (tid \<times> tidmap) res" where
  "tm_create opt th f m = assert_then opt (p_t_map m th = None)
     (let m1 = m\<lparr>p_t_map := (p_t_map m)(th \<mapsto> nthread m),
                 t_p_map := (t_p_map m)(nthread m \<mapsto> th)\<rparr>;
          m2 = (if wakeamap_plus opt then tm_assign_role (nthread m1) f m1 else m1)
      in Inr (nthread m2, m2\<lparr>nthread := nthread m2 + 1\<rparr>))"

text \<open>
  Without assertions \<open>p_t_map[pthread_th]\<close> creates the missing entry with value \<open>0\<close>.
\<close>

definition tm_changeRole :: "options \<Rightarrow> pthread \<Rightarrow> func \<Rightarrow> tidmap \<Rightarrow> tidmap res" where
  "tm_changeRole opt th f m = assert_then opt (p_t_map m th \<noteq> None)
     (case p_t_map m th of
        Some t \<Rightarrow> Inr (tm_assign_role t f m)
      | None \<Rightarrow> Inr (tm_assign_role 0 f (m\<lparr>p_t_map := (p_t_map m)(th \<mapsto> 0)\<rparr>)))"

definition tm_getRoleid :: "options \<Rightarrow> tid \<Rightarrow> tidmap \<Rightarrow> nat res" where
  "tm_getRoleid opt t m = use_found opt (t_r_map m t) Inr"

text \<open>The thread-local \<open>self_tid\<close> and \<open>self_roleid\<close> that \<open>self(th)\<close> sets.\<close>

definition tm_self :: "options \<Rightarrow> pthread \<Rightarrow> tidmap \<Rightarrow> (tid \<times> nat option) res" where
  "tm_self opt th m = use_found opt (p_t_map m th) (\<lambda>t.
     if wakeamap_plus opt then res_bind (tm_getRoleid opt t m) (\<lambda>r. Inr (t, Some r))
     else Inr (t, None))"

definition tm_set_self_role :: "options \<Rightarrow> func \<Rightarrow> tidmap \<Rightarrow> nat res" where
  "tm_set_self_role opt f m = use_found opt (f_r_map m f) Inr"

definition tm_zombify :: "options \<Rightarrow> tid \<Rightarrow> pthread \<Rightarrow> tidmap \<Rightarrow> tidmap res" where
  "tm_zombify opt self self_th m = use_found opt (t_p_map m self) (\<lambda>th.
     assert_then opt (self_th = th)
       (Inr (m\<lparr>zombies := insert th (zombies m), p_t_map := (p_t_map m)(th := None),
               t_p_map := (t_p_map m)(self := None)\<rparr>)))"

definition tm_reap :: "pthread \<Rightarrow> tidmap \<Rightarrow> tidmap" where
  "tm_reap th m = m\<lparr>zombies := zombies m - {th}\<rparr>"

definition tm_getTid :: "pthread \<Rightarrow> tidmap \<Rightarrow> tid option" where
  "tm_getTid th m = p_t_map m th"

definition tm_getPthreadTid :: "tid \<Rightarrow> tidmap \<Rightarrow> pthread option" where
  "tm_getPthreadTid t m = t_p_map m t"

definition tm_zombie :: "pthread \<Rightarrow> tidmap \<Rightarrow> bool" where
  "tm_zombie th m \<longleftrightarrow> th \<in> zombies m"

definition tm_init :: "options \<Rightarrow> pthread \<Rightarrow> tidmap \<Rightarrow> tidmap res" where
  "tm_init opt main_th m =
     res_bind (tm_create opt main_th 0 (m\<lparr>nthread := 0, nrole := 0\<rparr>)) (\<lambda>(_, m).
     res_bind (tm_self opt main_th m) (\<lambda>_. Inr m))"

definition tm_cleared :: tidmap where
  "tm_cleared = \<lparr>p_t_map = Map.empty, t_p_map = Map.empty, zombies = {}, nthread = 0,
     f_r_map = Map.empty, r_f_map = Map.empty, nrole = 0, t_r_map = Map.empty\<rparr>"

definition tm_reset :: "options \<Rightarrow> pthread \<Rightarrow> tidmap \<Rightarrow> tidmap res" where
  "tm_reset opt main_th m = tm_init opt main_th
     (m\<lparr>p_t_map := Map.empty, t_p_map := Map.empty, zombies := {},
        f_r_map := Map.empty, r_f_map := Map.empty, t_r_map := Map.empty\<rparr>)"

section \<open>Correctness of the identifier map\<close>

text \<open>
  The two directions are inverse and every identifier in use is below \<open>nthread\<close>; the
  role tables are inverse, numbered below \<open>nrole\<close>, and every thread's role exists.
\<close>

definition ids_ok :: "tidmap \<Rightarrow> bool" where
  "ids_ok m \<longleftrightarrow> (\<forall>th t. p_t_map m th = Some t \<longleftrightarrow> t_p_map m t = Some th) \<and>
     dom (t_p_map m) \<subseteq> {..<nthread m}"

definition roles_ok :: "tidmap \<Rightarrow> bool" where
  "roles_ok m \<longleftrightarrow> (\<forall>f r. f_r_map m f = Some r \<longleftrightarrow> r_f_map m r = Some f) \<and>
     dom (r_f_map m) = {..<nrole m} \<and> ran (t_r_map m) \<subseteq> {..<nrole m}"

definition tm_inv :: "tidmap \<Rightarrow> bool" where
  "tm_inv m \<longleftrightarrow> ids_ok m \<and> roles_ok m"

lemma tm_assign_role_fields [simp]:
  "p_t_map (tm_assign_role t f m) = p_t_map m" "t_p_map (tm_assign_role t f m) = t_p_map m"
  "nthread (tm_assign_role t f m) = nthread m" "zombies (tm_assign_role t f m) = zombies m"
  by (simp_all add: tm_assign_role_def split: option.split)

lemma ran_upd_subset: "ran (g(x \<mapsto> y)) \<subseteq> insert y (ran g)"
  by (auto simp: ran_def)

lemma roles_ok_assign:
  assumes ok: "roles_ok m"
  shows "roles_ok (tm_assign_role t f m)"
proof (cases "f_r_map m f")
  case None
  have fresh: "r_f_map m (nrole m) = None" using ok by (auto simp: roles_ok_def dom_def)
  have notf: "r_f_map m r \<noteq> Some f" for r using ok None unfolding roles_ok_def by (metis option.distinct(1))
  have "ran ((t_r_map m)(t \<mapsto> nrole m)) \<subseteq> {..<Suc (nrole m)}"
    using ok ran_upd_subset [of "t_r_map m" t "nrole m"] by (fastforce simp: roles_ok_def)
  moreover have "(if f = f' then Some (nrole m) else f_r_map m f') = Some r \<longleftrightarrow>
      (if r = nrole m then Some f else r_f_map m r) = Some f'" for f' r
    using ok None fresh notf by (auto simp: roles_ok_def)
  ultimately show ?thesis
    using ok None notf by (auto simp: roles_ok_def tm_assign_role_def)
next
  case (Some r)
  then have "r < nrole m" using ok by (auto simp: roles_ok_def)
  then have "ran ((t_r_map m)(t \<mapsto> r)) \<subseteq> {..<nrole m}"
    using ok ran_upd_subset [of "t_r_map m" t r] by (auto simp: roles_ok_def)
  moreover have "tm_assign_role t f m = m\<lparr>t_r_map := (t_r_map m)(t \<mapsto> r)\<rparr>"
    using Some by (simp add: tm_assign_role_def)
  ultimately show ?thesis using ok by (simp add: roles_ok_def)
qed

lemma ids_ok_assign [simp]: "ids_ok (tm_assign_role t f m) = ids_ok m"
  by (simp add: ids_ok_def)

lemma tm_create_inv:
  assumes "tm_inv m" and "p_t_map m th = None"
  shows "\<exists>m'. tm_create opt th f m = Inr (nthread m, m') \<and> tm_inv m' \<and>
     p_t_map m' = (p_t_map m)(th \<mapsto> nthread m) \<and> nthread m' = Suc (nthread m) \<and>
     zombies m' = zombies m"
proof -
  let ?m = "m\<lparr>p_t_map := (p_t_map m)(th \<mapsto> nthread m), t_p_map := (t_p_map m)(nthread m \<mapsto> th)\<rparr>"
  have fresh: "t_p_map m (nthread m) = None" using assms(1) by (auto simp: tm_inv_def ids_ok_def)
  have noth: "t_p_map m t \<noteq> Some th" for t
    using assms unfolding tm_inv_def ids_ok_def by (metis option.distinct(1))
  have "dom (t_p_map m) \<subseteq> {..<Suc (nthread m)}" using assms(1) by (fastforce simp: tm_inv_def ids_ok_def)
  then have "ids_ok (?m\<lparr>nthread := Suc (nthread m)\<rparr>)"
    using assms fresh noth by (auto simp: tm_inv_def ids_ok_def)
  moreover have "roles_ok ?m" using assms(1) by (simp add: tm_inv_def roles_ok_def)
  ultimately show ?thesis
    using assms(2) roles_ok_assign [of ?m "nthread m" f]
    by (auto simp: tm_create_def Let_def tm_inv_def ids_ok_def roles_ok_def)
qed

lemma tm_changeRole_inv:
  assumes "tm_inv m" and "p_t_map m th = Some t"
  shows "\<exists>m'. tm_changeRole opt th f m = Inr m' \<and> tm_inv m' \<and> tm_getRoleid opt t m' =
    Inr (case f_r_map m f of None \<Rightarrow> nrole m | Some r \<Rightarrow> r)"
proof -
  have "tm_inv (tm_assign_role t f m)"
    using assms(1) roles_ok_assign by (simp add: tm_inv_def)
  moreover have "t_r_map (tm_assign_role t f m) t = Some (case f_r_map m f of None \<Rightarrow> nrole m | Some r \<Rightarrow> r)"
    by (simp add: tm_assign_role_def split: option.split)
  ultimately show ?thesis using assms by (simp add: tm_changeRole_def tm_getRoleid_def)
qed

lemma tm_zombify_inv:
  assumes "tm_inv m" and "t_p_map m t = Some th"
  shows "\<exists>m'. tm_zombify opt t th m = Inr m' \<and> tm_inv m' \<and> tm_zombie th m' \<and>
     tm_getTid th m' = None \<and> tm_getPthreadTid t m' = None \<and> nthread m' = nthread m \<and>
     (\<forall>th'. th' \<noteq> th \<longrightarrow> tm_getTid th' m' = tm_getTid th' m)"
proof -
  have p: "p_t_map m th' = Some t \<longleftrightarrow> th' = th" for th'
    using assms unfolding tm_inv_def ids_ok_def by (metis option.inject)
  have q: "t_p_map m u = Some th \<longleftrightarrow> u = t" for u
    using assms unfolding tm_inv_def ids_ok_def by (metis option.inject)
  have "ids_ok (m\<lparr>zombies := insert th (zombies m), p_t_map := (p_t_map m)(th := None),
      t_p_map := (t_p_map m)(t := None)\<rparr>)"
    using assms(1) p q unfolding tm_inv_def ids_ok_def by (auto simp: dom_def)
  then show ?thesis
    using assms by (simp add: tm_zombify_def tm_inv_def roles_ok_def tm_zombie_def tm_getTid_def
      tm_getPthreadTid_def)
qed

lemma tm_inv_cleared: "tm_inv tm_cleared"
  by (simp add: tm_inv_def ids_ok_def roles_ok_def tm_cleared_def)

lemma tm_reset_spec:
  "\<exists>m'. tm_reset opt th m = Inr m' \<and> tm_inv m' \<and> nthread m' = 1 \<and> zombies m' = {} \<and>
     p_t_map m' = [th \<mapsto> MainThreadTid]"
proof -
  let ?m = "m\<lparr>p_t_map := Map.empty, t_p_map := Map.empty, zombies := {}, f_r_map := Map.empty,
    r_f_map := Map.empty, t_r_map := Map.empty, nthread := 0, nrole := 0\<rparr>"
  have "tm_inv ?m" by (simp add: tm_inv_def ids_ok_def roles_ok_def)
  then obtain m' where m': "tm_create opt th 0 ?m = Inr (0, m')" "tm_inv m'" "nthread m' = 1"
      "p_t_map m' = [th \<mapsto> 0]" "zombies m' = {}"
    using tm_create_inv [of ?m th opt 0] by auto
  have "wakeamap_plus opt \<Longrightarrow> t_r_map m' 0 \<noteq> None"
    using m'(1) by (auto simp: tm_create_def Let_def tm_assign_role_def)
  then obtain x where "tm_self opt th m' = Inr x"
    using m'(4) by (cases "wakeamap_plus opt") (auto simp: tm_self_def tm_getRoleid_def)
  then show ?thesis using m' by (auto simp: tm_reset_def tm_init_def MainThreadTid_def)
qed

section \<open>Threads outside the schedule\<close>

record non_det_thread_set =
  tid_list :: "tid list"
  tid_to_logical_clock_map :: "tid \<Rightarrow> u32 option"

definition nd_new :: non_det_thread_set where
  "nd_new = \<lparr>tid_list = [], tid_to_logical_clock_map = Map.empty\<rparr>"

text \<open>
  \<open>in\<close> looks into the map first and searches the list otherwise; \<open>ASSERT2\<close> is
  \<open>assert\<close> because the header defines \<open>DEBUG_NON_DET_THREAD_SET\<close>.
\<close>

definition nd_in :: "tid \<Rightarrow> non_det_thread_set \<Rightarrow> bool" where
  "nd_in t s \<longleftrightarrow> tid_to_logical_clock_map s t \<noteq> None \<or> List.member (tid_list s) t"

definition nd_insert ::
  "options \<Rightarrow> tid \<Rightarrow> u32 \<Rightarrow> non_det_thread_set \<Rightarrow> non_det_thread_set res" where
  "nd_insert opt t clock s = assert_then opt (\<not> nd_in t s)
     (assert_then opt (tid_to_logical_clock_map s t = None)
       (Inr (s\<lparr>tid_list := tid_list s @ [t],
               tid_to_logical_clock_map := (tid_to_logical_clock_map s)(t \<mapsto> clock)\<rparr>)))"

definition nd_erase :: "options \<Rightarrow> tid \<Rightarrow> non_det_thread_set \<Rightarrow> non_det_thread_set res" where
  "nd_erase opt t s =
     (if List.member (tid_list s) t
      then Inr (s\<lparr>tid_list := remove1 t (tid_list s),
                 tid_to_logical_clock_map := (tid_to_logical_clock_map s)(t := None)\<rparr>)
      else assert_then opt False (Inr s))"

definition nd_size :: "non_det_thread_set \<Rightarrow> nat" where
  "nd_size s = length (tid_list s)"

definition nd_first_thread :: "options \<Rightarrow> non_det_thread_set \<Rightarrow> tid res" where
  "nd_first_thread opt s = assert_then opt (nd_size s > 0)
     (case tid_list s of [] \<Rightarrow> Inl DanglingDeref | t # _ \<Rightarrow> Inr t)"

text \<open>Without assertions a missing clock reads as \<open>0\<close> (and is entered as such).\<close>

definition nd_get_clock ::
  "options \<Rightarrow> tid \<Rightarrow> non_det_thread_set \<Rightarrow> (u32 \<times> non_det_thread_set) res" where
  "nd_get_clock opt t s = assert_then opt (tid_to_logical_clock_map s t \<noteq> None)
     (case tid_to_logical_clock_map s t of
        Some c \<Rightarrow> Inr (c, s)
      | None \<Rightarrow> Inr (0, s\<lparr>tid_to_logical_clock_map := (tid_to_logical_clock_map s)(t \<mapsto> 0)\<rparr>))"

definition nd_inv :: "non_det_thread_set \<Rightarrow> bool" where
  "nd_inv s \<longleftrightarrow> distinct (tid_list s) \<and> dom (tid_to_logical_clock_map s) = set (tid_list s)"

lemma nd_in_iff: "nd_inv s \<Longrightarrow> nd_in t s \<longleftrightarrow> t \<in> set (tid_list s)"
  by (auto simp: nd_in_def nd_inv_def)

lemma nd_new_inv: "nd_inv nd_new"
  by (simp add: nd_inv_def nd_new_def)

lemma nd_insert_spec:
  assumes "nd_inv s" and "\<not> nd_in t s"
  shows "\<exists>s'. nd_insert opt t c s = Inr s' \<and> nd_inv s' \<and> tid_list s' = tid_list s @ [t] \<and>
     tid_to_logical_clock_map s' t = Some c"
proof -
  have "t \<notin> set (tid_list s)" "tid_to_logical_clock_map s t = None"
    using assms by (auto simp: nd_in_def nd_inv_def)
  then show ?thesis using assms by (simp add: nd_insert_def nd_inv_def)
qed

lemma nd_erase_spec:
  assumes "nd_inv s" and "t \<in> set (tid_list s)"
  shows "\<exists>s'. nd_erase opt t s = Inr s' \<and> nd_inv s' \<and> tid_list s' = filter (\<lambda>u. u \<noteq> t) (tid_list s)"
  using assms by (auto simp: nd_erase_def nd_inv_def distinct_remove1_removeAll removeAll_filter_not_eq
    fun_eq_iff intro!: filter_cong)

end
