(* ===== verification/Scheduler.thy ===== *)
theory Scheduler
  imports RunQueue TidMap
begin

text \<open>
  The deterministic scheduler: \<open>Serializer\<close> and \<open>Scheduler\<close> of
  \<open>include/tern/runtime/scheduler.h\<close> and \<open>RRScheduler\<close> of
  \<open>include/tern/runtime/record-scheduler.h\<close> and \<open>lib/runtime/record-scheduler.cpp\<close>.

  The whole scheduler is one record, and every method is a function from a state to a result.
  The executing thread (\<open>self()\<close>) is an argument. A method that waits for the turn in the
  middle (\<open>wait\<close>, \<open>block\<close>) is split at that point.
\<close>

unbundle bit_operations_syntax

section \<open>State\<close>

datatype Wake_Reasons = SIGNAL | TIMEDOUT

text \<open>The per-thread wait record; the mutex and condition of the hybrid relay are in \<open>WaitPost\<close>.\<close>

record wait_t =
  sem :: nat
  chan :: vptr
  timeout :: u32
  wstatus :: nat
  wakenUp :: bool
  wake_reason :: Wake_Reasons
  woken_up_from_hp_queue_flag :: bool
  runnable :: bool

definition FOREVER :: u32 where
  "FOREVER = 2 ^ 32 - 1"

definition ETIMEDOUT :: nat where
  "ETIMEDOUT = 110"

definition wt_reset :: "nat \<Rightarrow> wait_t \<Rightarrow> wait_t" where
  "wt_reset st w = w\<lparr>chan := 0, timeout := FOREVER, wstatus := st, wakenUp := False, runnable := True\<rparr>"

definition wt_new :: wait_t where
  "wt_new = wt_reset 0 \<lparr>sem = 0, chan = 0, timeout = 0, wstatus = 0, wakenUp = False,
     wake_reason = SIGNAL, woken_up_from_hp_queue_flag = False, runnable = False\<rparr>"

text \<open>
  \<open>idle_done\<close>, \<open>nNonDetWait\<close> and \<open>inSync\<close> are globals; \<open>idle_cond_signals\<close> counts the
  signals sent to \<open>idle_cond\<close>. Thread identifiers are below \<open>MAX_THREAD_NUM\<close> (creating
  a thread beyond faults), so \<open>waits\<close> is total.
\<close>

record sched =
  tids :: tidmap
  turnCount :: u32
  heap :: mem
  runq :: run_queue
  hp_runq :: run_queue
  waitq :: "tid list"
  non_det_thds :: non_det_thread_set
  waits :: "tid \<Rightarrow> wait_t"
  inter_pro_wakeup_tids :: "tid list"
  inter_pro_wakeup_flag :: bool
  idle_done :: bool
  nNonDetWait :: nat
  inSync :: bool
  idle_cond_signals :: nat

definition PUTTURN_STRATEGY_CURRENT_THREAD :: nat where
  "PUTTURN_STRATEGY_CURRENT_THREAD = 1"

definition PUTTURN_STRATEGY_CURRENT_ROLE :: nat where
  "PUTTURN_STRATEGY_CURRENT_ROLE = 2"

definition PUTTURN_STRATEGY_YIELD :: nat where
  "PUTTURN_STRATEGY_YIELD = 3"

definition PUTTURN_STRATEGY_CREATE :: nat where
  "PUTTURN_STRATEGY_CREATE = 4"

lemmas strategy_defs =
  PUTTURN_STRATEGY_CURRENT_THREAD_def PUTTURN_STRATEGY_CURRENT_ROLE_def
  PUTTURN_STRATEGY_YIELD_def PUTTURN_STRATEGY_CREATE_def

text \<open>\<open>scheduling_policy & bits\<close>, and an assertion whose condition may itself fault.\<close>

definition policy :: "options \<Rightarrow> 32 word \<Rightarrow> bool" where
  "policy opt bits \<longleftrightarrow> scheduling_policy opt AND bits \<noteq> 0"

definition assert_res :: "options \<Rightarrow> bool res \<Rightarrow> 'a res \<Rightarrow> 'a res" where
  "assert_res opt b m = (if ndebug opt then m else res_bind b (\<lambda>c. check AssertFailed c m))"

definition self_is_front :: "tid \<Rightarrow> sched \<Rightarrow> bool res" where
  "self_is_front self s = res_bind (rq_front (heap s) (runq s)) (\<lambda>t. Inr (self = t))"

section \<open>Turn hand-over\<close>

text \<open>
  \<open>wait_t::post\<close>, and \<open>wait_t::wait\<close> as the step that ends it: \<open>None\<close> while the
  thread has to keep waiting. Values of \<open>enforce_turn_type\<close> above \<open>2\<close> match no branch.
\<close>

definition wt_post :: "options \<Rightarrow> wait_t \<Rightarrow> wait_t" where
  "wt_post opt w =
     (if enforce_turn_type opt = 1 then w\<lparr>sem := sem w + 1\<rparr>
      else if enforce_turn_type opt = 2 then w\<lparr>wakenUp := True\<rparr>
      else if enforce_turn_type opt = 0 then w\<lparr>wakenUp := True\<rparr>
      else if enforce_turn_type opt < 0 then w\<lparr>runnable := True\<rparr>
      else w)"

definition wt_wait :: "options \<Rightarrow> bool \<Rightarrow> wait_t \<Rightarrow> (bool \<times> wait_t) option" where
  "wt_wait opt sync w =
     (if enforce_turn_type opt = 1 then (if sem w > 0 then Some (sync, w\<lparr>sem := sem w - 1\<rparr>) else None)
      else if enforce_turn_type opt = 2 then (if wakenUp w then Some (sync, w\<lparr>wakenUp := False\<rparr>) else None)
      else if enforce_turn_type opt = 0 then (if wakenUp w then Some (sync, w\<lparr>wakenUp := False\<rparr>) else None)
      else if enforce_turn_type opt < 0 then (if runnable w \<and> \<not> sync then Some (True, w) else None)
      else Some (sync, w))"

definition upd_wait :: "tid \<Rightarrow> (wait_t \<Rightarrow> wait_t) \<Rightarrow> sched \<Rightarrow> sched" where
  "upd_wait t f s = s\<lparr>waits := (waits s)(t := f (waits s t))\<rparr>"

definition post :: "options \<Rightarrow> tid \<Rightarrow> sched \<Rightarrow> sched" where
  "post opt t s = upd_wait t (wt_post opt) s"

text \<open>
  \<open>getTurn\<close>: \<open>None\<close> while the turn has not been passed to the thread. Its assertion that the identifier
  is in range is left out: identifiers come from \<open>create\<close>, which hands out those below \<open>nthread\<close>.
\<close>

definition getTurn :: "options \<Rightarrow> tid \<Rightarrow> sched \<Rightarrow> sched option" where
  "getTurn opt self s = map_option (\<lambda>(sync, w). s\<lparr>inSync := sync, waits := (waits s)(self := w)\<rparr>)
     (wt_wait opt (inSync s) (waits s self))"

section \<open>The queues of a scheduler state\<close>

definition runq_push_back :: "tid \<Rightarrow> sched \<Rightarrow> sched res" where
  "runq_push_back t s = res_bind (rq_push_back t (heap s) (runq s)) (\<lambda>(m, q). Inr (s\<lparr>heap := m, runq := q\<rparr>))"

definition hp_push_back :: "tid \<Rightarrow> sched \<Rightarrow> sched res" where
  "hp_push_back t s = res_bind (rq_push_back t (heap s) (hp_runq s)) (\<lambda>(m, q). Inr (s\<lparr>heap := m, hp_runq := q\<rparr>))"

definition runq_insert_yield :: "tid \<Rightarrow> sched \<Rightarrow> sched res" where
  "runq_insert_yield t s = res_bind (rq_insert_yield t (heap s) (runq s)) (\<lambda>(m, q). Inr (s\<lparr>heap := m, runq := q\<rparr>))"

definition runq_pop_front :: "sched \<Rightarrow> sched res" where
  "runq_pop_front s = res_bind (rq_pop_front (heap s) (runq s)) (\<lambda>(m, q). Inr (s\<lparr>heap := m, runq := q\<rparr>))"

definition hp_pop_front :: "sched \<Rightarrow> sched res" where
  "hp_pop_front s = res_bind (rq_pop_front (heap s) (hp_runq s)) (\<lambda>(m, q). Inr (s\<lparr>heap := m, hp_runq := q\<rparr>))"

text \<open>Reading and writing the status of the element at \<open>p\<close>.\<close>

definition get_status :: "addr option \<Rightarrow> sched \<Rightarrow> THD_STATUS res" where
  "get_status p s = res_bind (deref (heap s) p) (\<lambda>e. Inr (e_status e))"

definition set_status :: "addr option \<Rightarrow> THD_STATUS \<Rightarrow> sched \<Rightarrow> sched res" where
  "set_status p st s = res_bind (store (heap s) p (\<lambda>e. e\<lparr>e_status := st\<rparr>)) (\<lambda>m. Inr (s\<lparr>heap := m\<rparr>))"

definition nd_block :: "options \<Rightarrow> tid \<Rightarrow> sched \<Rightarrow> sched res" where
  "nd_block opt t s = (if enforce_non_det_clock_bound opt
     then res_bind (nd_insert opt t (turnCount s) (non_det_thds s)) (\<lambda>n. Inr (s\<lparr>non_det_thds := n\<rparr>))
     else Inr s)"

section \<open>Waking threads\<close>

text \<open>Where \<open>signal\<close> and \<open>fireTimeouts\<close> put a thread they took off the wait queue.\<close>

definition enqueue_woken :: "options \<Rightarrow> tid \<Rightarrow> sched \<Rightarrow> sched res" where
  "enqueue_woken opt t s =
     (if enforce_turn_type opt \<ge> 0
      then (if policy opt 4 \<and> t \<noteq> 1 then hp_push_back t s else runq_push_back t s)
      else Inr (post opt t s))"

text \<open>The loop of \<open>signal\<close>; \<open>kept\<close> are the waiting threads already passed over.\<close>

fun signal_loop :: "options \<Rightarrow> vptr \<Rightarrow> bool \<Rightarrow> tid list \<Rightarrow> tid list \<Rightarrow> sched \<Rightarrow> sched res" where
  "signal_loop opt ch all kept [] s = Inr s"
| "signal_loop opt ch all kept (t # rest) s =
     assert_then opt (t < nthread (tids s))
       (if chan (waits s t) = ch
        then let s1 = upd_wait t (\<lambda>w. (wt_reset 0 w)\<lparr>wake_reason := SIGNAL\<rparr>) (s\<lparr>waitq := kept @ rest\<rparr>) in
             res_bind (enqueue_woken opt t s1) (\<lambda>s2.
             if all then signal_loop opt ch all kept rest s2 else Inr s2)
        else signal_loop opt ch all (kept @ [t]) rest s)"

definition signal :: "options \<Rightarrow> tid \<Rightarrow> vptr \<Rightarrow> bool \<Rightarrow> sched \<Rightarrow> sched res" where
  "signal opt self ch all s =
     assert_then opt (ch \<noteq> 0)
       (assert_res opt (self_is_front self s)
         (signal_loop opt ch all [] (waitq s) s))"

fun fire_loop :: "options \<Rightarrow> nat \<Rightarrow> tid list \<Rightarrow> tid list \<Rightarrow> sched \<Rightarrow> (nat \<times> sched) res" where
  "fire_loop opt timedout kept [] s = Inr (timedout, s)"
| "fire_loop opt timedout kept (t # rest) s =
     assert_then opt (t < nthread (tids s))
       (if timeout (waits s t) < turnCount s
        then let s1 = upd_wait t (\<lambda>w. (wt_reset ETIMEDOUT w)\<lparr>wake_reason := TIMEDOUT\<rparr>) (s\<lparr>waitq := kept @ rest\<rparr>) in
             res_bind (enqueue_woken opt t s1) (fire_loop opt (timedout + 1) kept rest)
        else fire_loop opt timedout (kept @ [t]) rest s)"

definition fireTimeouts :: "options \<Rightarrow> sched \<Rightarrow> (nat \<times> sched) res" where
  "fireTimeouts opt s = fire_loop opt 0 [] (waitq s) s"

definition nextTimeout :: "sched \<Rightarrow> u32" where
  "nextTimeout s = fold (\<lambda>t n. if timeout (waits s t) < n then timeout (waits s t) else n) (waitq s) FOREVER"

text \<open>One iteration of \<open>check_wakeup\<close>, and the whole.\<close>

definition wakeup_one :: "options \<Rightarrow> tid \<Rightarrow> sched \<Rightarrow> sched res" where
  "wakeup_one opt t s =
     res_bind (rq_in t (heap s) (runq s)) (\<lambda>b.
     if b then Inr s
     else res_bind (if enforce_turn_type opt \<ge> 0 then runq_push_back t s else Inr (post opt t s)) (\<lambda>s.
          if enforce_non_det_clock_bound opt
          then res_bind (nd_erase opt t (non_det_thds s)) (\<lambda>n. Inr (s\<lparr>non_det_thds := n\<rparr>))
          else Inr s))"

definition check_wakeup :: "options \<Rightarrow> sched \<Rightarrow> sched res" where
  "check_wakeup opt s =
     (if inter_pro_wakeup_flag s
      then res_bind (res_fold (wakeup_one opt) (set_order opt (inter_pro_wakeup_tids s)) s) (\<lambda>s.
           Inr (s\<lparr>inter_pro_wakeup_tids := [], inter_pro_wakeup_flag := False\<rparr>))
      else Inr s)"

text \<open>\<open>wakeup\<close>, called by a thread that returns from a blocking call (without the turn).\<close>

definition wakeup :: "tid \<Rightarrow> sched \<Rightarrow> sched" where
  "wakeup self s = s\<lparr>inter_pro_wakeup_tids := List.insert self (inter_pro_wakeup_tids s),
                     inter_pro_wakeup_flag := True\<rparr>"

text \<open>
  The search of \<open>wakeUpIdleThread\<close>: the last thread looked at (\<open>None\<close> when the queue is
  empty) and the state.
\<close>

fun idle_loop :: "options \<Rightarrow> tid option \<Rightarrow> tid list \<Rightarrow> tid list \<Rightarrow> sched \<Rightarrow> (tid option \<times> sched) res" where
  "idle_loop opt seen kept [] s = Inr (seen, s)"
| "idle_loop opt seen kept (t # rest) s =
     assert_then opt (t < nthread (tids s))
       (if t = IdleThreadTid
        then let s1 = upd_wait t (wt_reset 0) (s\<lparr>waitq := kept @ rest\<rparr>) in
             res_bind (if enforce_turn_type opt \<ge> 0 then runq_push_back t s1 else Inr (post opt t s1)) (\<lambda>s2.
             Inr (Some t, s2))
        else idle_loop opt (Some t) (kept @ [t]) rest s)"

definition wakeUpIdleThread :: "options \<Rightarrow> sched \<Rightarrow> sched res" where
  "wakeUpIdleThread opt s =
     (if idle_done s then Inl ThreadExit
      else res_bind (idle_loop opt None [] (waitq s) s) (\<lambda>(t, s).
           assert_then opt (t = Some IdleThreadTid)
             (assert_then opt (\<not> rq_empty (runq s))
               (Inr (s\<lparr>idle_cond_signals := idle_cond_signals s + 1\<rparr>)))))"

section \<open>Choosing the next thread\<close>

text \<open>
  The head element of a queue is passed over when its thread is stopped in a blocking call, and
  takes the turn otherwise: \<open>pass_head\<close> is the part of the loop body that passes the turn to
  the element at \<open>p\<close>.
\<close>

definition pass_head :: "options \<Rightarrow> addr option \<Rightarrow> sched \<Rightarrow> (tid \<times> sched) res" where
  "pass_head opt p s =
     res_bind (deref (heap s) p) (\<lambda>e.
     assert_then opt (e_status e = RUNNABLE \<or> e_status e = RUNNING_REG \<or> e_status e = RUNNING_INTER_PRO)
       (res_bind (if e_status e = RUNNABLE then set_status p RUNNING_REG s else Inr s) (\<lambda>s.
        Inr (e_tid e, s))))"

text \<open>
  Two distinct non-null addresses stand for the globals \<open>nonDetCV\<close>, the channel threads wait
  on before a non-deterministic region, and \<open>idle_cond\<close>, that of the idle thread.
\<close>

definition nonDetCV :: vptr where
  "nonDetCV = 1"

definition idle_cond :: vptr where
  "idle_cond = 2"

text \<open>
  The part of the last branch before the head is examined: wake the idle thread when the run
  queue is empty, or end. The result says whether to return an invalid identifier, and the
  strategy for the following iterations.
\<close>

definition refill :: "options \<Rightarrow> tid \<Rightarrow> bool \<Rightarrow> nat \<Rightarrow> sched \<Rightarrow> (bool \<times> nat \<times> sched) res" where
  "refill opt self at_thread_end strategy s =
     (if rq_empty (runq s)
      then if at_thread_end \<and> waitq s = [] then Inr (True, strategy, s)
           else if at_thread_end \<and> waitq s \<noteq> [] \<and> self = MainThreadTid then Inr (True, strategy, s)
           else if launch_idle_thread opt = 0 then Inl (ExitProcess 1)
           else assert_then opt (self \<noteq> IdleThreadTid)
                  (res_bind (wakeUpIdleThread opt s) (\<lambda>s. Inr (False, 0, s)))
      else if enforce_non_det_annotations opt \<noteq> 0 \<and> nNonDetWait s > 0 \<and> self = IdleThreadTid \<and>
              rq_size (runq s) = 1
           then res_bind (rq_front (heap s) (runq s)) (\<lambda>t.
                if t = IdleThreadTid
                then res_bind (signal opt self nonDetCV True s) (\<lambda>s. Inr (False, strategy, s))
                else Inr (False, strategy, s))
           else Inr (False, strategy, s))"

text \<open>The loop of \<open>nextRunnable\<close>; the first argument bounds its iterations.\<close>

fun next_loop :: "nat \<Rightarrow> options \<Rightarrow> tid \<Rightarrow> bool \<Rightarrow> nat \<Rightarrow> sched \<Rightarrow> (tid option \<times> sched) res" where
  "next_loop 0 opt self at_thread_end strategy s = Inl LoopBound"
| "next_loop (Suc n) opt self at_thread_end strategy s =
     (if policy opt 4 \<and> \<not> rq_empty (hp_runq s) \<and>
         ((strategy = PUTTURN_STRATEGY_CURRENT_THREAD) = woken_up_from_hp_queue_flag (waits s self)) \<and>
         strategy \<noteq> PUTTURN_STRATEGY_CURRENT_ROLE
      then let headElem = rq_front_elem (hp_runq s) in
           res_bind (deref (heap s) headElem) (\<lambda>e.
           if e_status e = INTER_PRO_STOP
           then res_bind (hp_pop_front s) (\<lambda>s.
                res_bind (nd_block opt (e_tid e) s) (next_loop n opt self at_thread_end strategy))
           else res_bind (pass_head opt headElem s) (\<lambda>(t, s).
                Inr (Some t, upd_wait t (\<lambda>w. w\<lparr>woken_up_from_hp_queue_flag := True\<rparr>) s)))
      else if strategy = PUTTURN_STRATEGY_CURRENT_ROLE \<and> \<not> rq_empty (runq s)
      then res_bind (tm_getRoleid opt self (tids s)) (\<lambda>role.
           let headElem = rq_front_elem (runq s) in
           res_bind (deref (heap s) headElem) (\<lambda>e.
           if e_status e = INTER_PRO_STOP
           then res_bind (runq_pop_front s) (\<lambda>s.
                res_bind (nd_block opt (e_tid e) s) (next_loop n opt self at_thread_end strategy))
           else res_bind (tm_getRoleid opt (e_tid e) (tids s)) (\<lambda>r.
                if role = r
                then res_bind (pass_head opt headElem s) (\<lambda>(t, s). Inr (Some t, s))
                else res_bind (runq_pop_front s) (\<lambda>s.
                     res_bind (runq_push_back (e_tid e) s) (next_loop n opt self at_thread_end strategy)))))
      else res_bind (refill opt self at_thread_end strategy s) (\<lambda>(ended, strategy, s).
           if ended then Inr (None, s)
           else assert_then opt (\<not> rq_empty (runq s))
             (let headElem = rq_front_elem (runq s) in
              res_bind (deref (heap s) headElem) (\<lambda>e.
              if e_status e = INTER_PRO_STOP
              then res_bind (runq_pop_front s) (\<lambda>s.
                   res_bind (nd_block opt (e_tid e) s) (next_loop n opt self at_thread_end strategy))
              else res_bind (pass_head opt headElem s) (\<lambda>(t, s). Inr (Some t, s))))))"

declare next_loop.simps [simp del]

definition next_bound :: "sched \<Rightarrow> nat" where
  "next_bound s = unat (rq_size (runq s)) + unat (rq_size (hp_runq s)) + length (waitq s) + 2"

definition nextRunnable :: "options \<Rightarrow> tid \<Rightarrow> bool \<Rightarrow> nat \<Rightarrow> sched \<Rightarrow> (tid option \<times> sched) res" where
  "nextRunnable opt self at_thread_end strategy s =
     next_loop (next_bound s) opt self at_thread_end strategy s"

section \<open>Passing the turn\<close>

text \<open>Taking the executing thread off the queue it got the turn from.\<close>

definition pop_self :: "tid \<Rightarrow> sched \<Rightarrow> sched res" where
  "pop_self self s =
     (if woken_up_from_hp_queue_flag (waits s self)
      then res_bind (hp_pop_front s) (\<lambda>s.
           Inr (upd_wait self (\<lambda>w. w\<lparr>woken_up_from_hp_queue_flag := False\<rparr>) s))
      else runq_pop_front s)"

definition rr_next :: "options \<Rightarrow> tid \<Rightarrow> bool \<Rightarrow> bool \<Rightarrow> nat \<Rightarrow> sched \<Rightarrow> sched res" where
  "rr_next opt self at_thread_end hasPoppedFront strategy s =
     (if enforce_turn_type opt \<ge> 0
      then res_bind
             (if \<not> hasPoppedFront
              then res_bind (rq_get_my_elem self (runq s)) (\<lambda>my.
                   res_bind (get_status my s) (\<lambda>st.
                   res_bind (if st = RUNNING_REG then set_status my RUNNABLE s
                             else assert_then opt (st = RUNNING_INTER_PRO) (set_status my INTER_PRO_STOP s))
                     (pop_self self)))
              else Inr s) (\<lambda>s.
           res_bind (check_wakeup opt s) (\<lambda>s.
           res_bind (nextRunnable opt self at_thread_end strategy s) (\<lambda>(next_tid, s).
           case next_tid of
             None \<Rightarrow> Inr s
           | Some t \<Rightarrow> assert_then opt (t < nthread (tids s)) (Inr (post opt t s)))))
      else res_bind (check_wakeup opt s) (\<lambda>s. Inr (s\<lparr>inSync := False\<rparr>)))"

definition ser_incTurnCount :: "sched \<Rightarrow> u32 \<times> sched" where
  "ser_incTurnCount s = (turnCount s, s\<lparr>turnCount := turnCount s + 1\<rparr>)"

definition ser_getTurnCount :: "sched \<Rightarrow> u32" where
  "ser_getTurnCount s = turnCount s - 1"

definition incTurnCount :: "options \<Rightarrow> sched \<Rightarrow> (u32 \<times> sched) res" where
  "incTurnCount opt s =
     (let (ret, s) = ser_incTurnCount s in
      res_bind (fireTimeouts opt s) (\<lambda>(_, s).
      res_bind (check_wakeup opt s) (\<lambda>s. Inr (ret, s))))"

definition getTurnCount :: "sched \<Rightarrow> u32" where
  "getTurnCount s = ser_getTurnCount s"

definition checkNonDetBound :: "options \<Rightarrow> sched \<Rightarrow> sched res" where
  "checkNonDetBound opt s =
     (if enforce_non_det_clock_bound opt \<and> nd_size (non_det_thds s) > 0
      then res_bind (nd_first_thread opt (non_det_thds s)) (\<lambda>t.
           res_bind (nd_get_clock opt t (non_det_thds s)) (\<lambda>(clock, n).
           let s = s\<lparr>non_det_thds := n\<rparr> in
           if turnCount s > clock + non_det_clock_bound opt
           then res_bind (if enforce_turn_type opt \<ge> 0 then runq_push_back t s else Inr s) (\<lambda>s.
                res_bind (nd_erase opt t (non_det_thds s)) (\<lambda>n. Inr (s\<lparr>non_det_thds := n\<rparr>)))
           else Inr s))
      else Inr s)"

text \<open>The requeueing of \<open>putTurn\<close>: what happens to the run queue when a thread gives up the turn.\<close>

definition requeue_self :: "options \<Rightarrow> tid \<Rightarrow> nat \<Rightarrow> sched \<Rightarrow> sched res" where
  "requeue_self opt self strategy s =
     res_bind (rq_get_my_elem self (runq s)) (\<lambda>my.
     res_bind (get_status my s) (\<lambda>st.
     assert_then opt (st = RUNNING_REG)
       (res_bind (set_status my RUNNABLE s) (\<lambda>s.
        if strategy = PUTTURN_STRATEGY_CURRENT_THREAD \<or> strategy = PUTTURN_STRATEGY_CREATE
        then Inr s
        else res_bind (pop_self self s) (\<lambda>s.
             if strategy = PUTTURN_STRATEGY_YIELD
             then runq_insert_yield self s else runq_push_back self s)))))"

definition putTurn :: "options \<Rightarrow> tid \<Rightarrow> pthread \<Rightarrow> bool \<Rightarrow> nat \<Rightarrow> sched \<Rightarrow> sched res" where
  "putTurn opt self th at_thread_end strategy s =
     assert_then opt (self < nthread (tids s))
       (assert_res opt (self_is_front self s)
         (res_bind
            (if at_thread_end
             then res_bind (signal opt self th False s) (\<lambda>s.
                  res_bind (tm_zombify opt self th (tids s)) (\<lambda>m. Inr (False, s\<lparr>tids := m\<rparr>)))
             else if enforce_turn_type opt \<ge> 0
             then res_bind (requeue_self opt self strategy s) (\<lambda>s. Inr (True, s))
             else Inr (False, s)) (\<lambda>(hasPoppedFront, s).
          res_bind (checkNonDetBound opt s) (\<lambda>s.
          rr_next opt self at_thread_end hasPoppedFront strategy s))))"

section \<open>Waiting and blocking\<close>

text \<open>\<open>wait\<close> up to its \<open>getTurn\<close>, and its result after it.\<close>

definition wait_begin :: "options \<Rightarrow> tid \<Rightarrow> vptr \<Rightarrow> u32 \<Rightarrow> sched \<Rightarrow> sched res" where
  "wait_begin opt self ch nturn s =
     res_bind (incTurnCount opt s) (\<lambda>(_, s).
     assert_then opt (self < nthread (tids s))
       (assert_res opt (self_is_front self s)
         (let s1 = upd_wait self (\<lambda>w. w\<lparr>chan := ch, timeout := nturn\<rparr>) s;
              s2 = s1\<lparr>waitq := waitq s1 @ [self]\<rparr>;
              s3 = (if enforce_turn_type opt < 0 then upd_wait self (\<lambda>w. w\<lparr>runnable := False\<rparr>) s2 else s2)
          in rr_next opt self False False 0 s3)))"

definition wait_end :: "tid \<Rightarrow> sched \<Rightarrow> Wake_Reasons" where
  "wait_end self s = wake_reason (waits s self)"

text \<open>\<open>block\<close> after its \<open>getTurn\<close>.\<close>

definition block_turn :: "options \<Rightarrow> tid \<Rightarrow> sched \<Rightarrow> (u32 \<times> sched) res" where
  "block_turn opt self s =
     res_bind (nd_block opt self s) (\<lambda>s.
     assert_then opt (self < nthread (tids s))
       (assert_res opt (self_is_front self s)
         (res_bind (incTurnCount opt s) (\<lambda>(ret, s).
          res_bind (rr_next opt self False False 0 s) (\<lambda>s. Inr (ret, s))))))"

text \<open>The two ends of an inter-process operation; both run without the turn.\<close>

definition interProStart :: "options \<Rightarrow> tid \<Rightarrow> sched \<Rightarrow> (bool \<times> sched) res" where
  "interProStart opt self s =
     res_bind (rq_get_my_elem self (runq s)) (\<lambda>elem.
     res_bind (get_status elem s) (\<lambda>st.
     if st = RUNNABLE
     then res_bind (set_status elem INTER_PRO_STOP s) (\<lambda>s. Inr (False, s))
     else assert_then opt (st = RUNNING_REG)
            (res_bind (set_status elem RUNNING_INTER_PRO s) (\<lambda>s. Inr (True, s)))))"

definition interProEnd :: "options \<Rightarrow> tid \<Rightarrow> sched \<Rightarrow> (bool \<times> sched) res" where
  "interProEnd opt self s =
     res_bind (rq_get_my_elem self (runq s)) (\<lambda>elem.
     res_bind (get_status elem s) (\<lambda>st.
     assert_then opt (st = INTER_PRO_STOP)
       (res_bind (set_status elem RUNNABLE s) (\<lambda>s. Inr (True, s)))))"

section \<open>The idle thread\<close>

primrec try_loop :: "nat \<Rightarrow> addr option \<Rightarrow> sched \<Rightarrow> (bool \<times> sched) res" where
  "try_loop 0 p s = (if p = rq_end then Inr (False, s) else Inl LoopBound)"
| "try_loop (Suc n) p s =
     (if p = rq_end then Inr (False, s)
      else res_bind (get_status p s) (\<lambda>st.
           if st = RUNNABLE then res_bind (set_status p RUNNING_REG s) (\<lambda>s. Inr (True, s))
           else res_bind (iter_next (heap s) p) (\<lambda>p. try_loop n p s)))"

definition tryPutTurn :: "options \<Rightarrow> tid \<Rightarrow> sched \<Rightarrow> (bool \<times> sched) res" where
  "tryPutTurn opt self s =
     assert_then opt (\<not> rq_empty (runq s))
       (assert_res opt (self_is_front self s)
         (res_bind (iter_next (heap s) (rq_begin (runq s))) (\<lambda>p.
          try_loop (unat (rq_size (runq s))) p s)))"

text \<open>The result says whether the idle thread then waits on \<open>idle_cond\<close>.\<close>

definition idleThreadCondWait :: "options \<Rightarrow> tid \<Rightarrow> pthread \<Rightarrow> sched \<Rightarrow> (bool \<times> sched) res" where
  "idleThreadCondWait opt self th s =
     res_bind (tryPutTurn opt self s) (\<lambda>(b, s).
     if b
     then assert_then opt (self = IdleThreadTid)
            (let s1 = upd_wait self (\<lambda>w. w\<lparr>chan := idle_cond, timeout := FOREVER\<rparr>) s;
                 s2 = s1\<lparr>waitq := waitq s1 @ [self]\<rparr>
             in assert_res opt (self_is_front self s2)
                  (res_bind (rr_next opt self False False 0 s2) (\<lambda>s. Inr (True, s))))
     else res_bind (putTurn opt self th False 0 s) (\<lambda>s. Inr (False, s)))"

section \<open>Creation, forking, roles\<close>

definition sched_create :: "options \<Rightarrow> tid \<Rightarrow> pthread \<Rightarrow> func \<Rightarrow> sched \<Rightarrow> (tid \<times> sched) res" where
  "sched_create opt self new_th thread_func s =
     assert_res opt (self_is_front self s)
       (res_bind (tm_create opt new_th thread_func (tids s)) (\<lambda>(_, m).
        let s = s\<lparr>tids := m\<rparr> in
        case tm_getTid new_th (tids s) of
          None \<Rightarrow> Inl OutOfRange
        | Some t \<Rightarrow>
            res_bind (rq_create_thd_elem t (heap s) (runq s)) (\<lambda>(a, m, q).
            let s = s\<lparr>heap := m, runq := q\<rparr> in
            res_bind
              (if enforce_turn_type opt \<ge> 0
               then if policy opt 4
                    then res_bind (rq_set_thd_elem t (Some a) (hp_runq s)) (\<lambda>q.
                         hp_push_back t (s\<lparr>hp_runq := q\<rparr>))
                    else runq_push_back t s
               else Inr s) (\<lambda>s. Inr (t, s)))))"

definition sched_join :: "pthread \<Rightarrow> sched \<Rightarrow> sched" where
  "sched_join th s = s\<lparr>tids := tm_reap th (tids s)\<rparr>"

definition sched_childForkReturn :: "options \<Rightarrow> pthread \<Rightarrow> sched \<Rightarrow> sched res" where
  "sched_childForkReturn opt th s =
     res_bind (tm_reset opt th (tids s)) (\<lambda>m.
     let s = s\<lparr>tids := m, waitq := []\<rparr> in
     res_bind (rq_deep_clear (heap s) (runq s)) (\<lambda>(m, q).
     res_bind (rq_create_thd_elem MainThreadTid m q) (\<lambda>(a, m, q).
     let s = s\<lparr>heap := m, runq := q\<rparr> in
     res_bind (if policy opt 4
               then res_bind (rq_set_thd_elem MainThreadTid (Some a) (hp_runq s)) (\<lambda>q. Inr (s\<lparr>hp_runq := q\<rparr>))
               else Inr s) (\<lambda>s.
     res_bind (set_status (Some a) RUNNING_REG s) (runq_push_back MainThreadTid)))))"

definition childForkReturn :: "options \<Rightarrow> pthread \<Rightarrow> sched \<Rightarrow> sched res" where
  "childForkReturn opt th s =
     res_bind (sched_childForkReturn opt th s) (\<lambda>s.
     Inr (s\<lparr>waits := (\<lambda>t. if t < MAX_THREAD_NUM then wt_reset 0 (waits s t) else waits s t)\<rparr>))"

definition getRoleid :: "options \<Rightarrow> tid \<Rightarrow> sched \<Rightarrow> nat res" where
  "getRoleid opt t s = tm_getRoleid opt t (tids s)"

definition changeRole :: "options \<Rightarrow> pthread \<Rightarrow> func \<Rightarrow> sched \<Rightarrow> sched res" where
  "changeRole opt th f s = res_bind (tm_changeRole opt th f (tids s)) (\<lambda>m. Inr (s\<lparr>tids := m\<rparr>))"

text \<open>The constructors: \<open>TidMap\<close>, \<open>Serializer\<close>, the two queues, \<open>RRScheduler\<close>.\<close>

definition rr_new :: "options \<Rightarrow> pthread \<Rightarrow> sched res" where
  "rr_new opt main_th =
     res_bind (tm_init opt main_th tm_cleared) (\<lambda>tm.
     res_bind (rq_new \<lparr>cells = Map.empty, brk = 1\<rparr>) (\<lambda>(m, q).
     res_bind (rq_new m) (\<lambda>(m, hq).
     res_bind (rq_create_thd_elem MainThreadTid m q) (\<lambda>(a, m, q).
     let s = \<lparr>tids = tm, turnCount = 0, heap = m, runq = q, hp_runq = hq, waitq = [],
              non_det_thds = nd_new, waits = (\<lambda>_. wt_new), inter_pro_wakeup_tids = [],
              inter_pro_wakeup_flag = False, idle_done = False, nNonDetWait = 0, inSync = False,
              idle_cond_signals = 0\<rparr> in
     res_bind (if policy opt 4
               then res_bind (rq_set_thd_elem MainThreadTid (Some a) (hp_runq s)) (\<lambda>hq. Inr (s\<lparr>hp_runq := hq\<rparr>))
               else Inr s) (\<lambda>s.
     res_bind (runq_push_back MainThreadTid s) (\<lambda>s.
     set_status (Some a) RUNNING_REG (post opt MainThreadTid s)))))))"

section \<open>Debugging aids\<close>

text \<open>\<open>selfcheck\<close>: \<open>False\<close> where the code reports an inconsistency.\<close>

definition selfcheck :: "sched \<Rightarrow> bool res" where
  "selfcheck s =
     res_bind (rq_tids (heap s) (runq s)) (\<lambda>rs.
     Inr (list_all (\<lambda>t. t \<le> nthread (tids s)) (rs @ waitq s) \<and> distinct (rs @ waitq s) \<and>
          list_all (\<lambda>t. chan (waits s t) = 0 \<and> timeout (waits s t) = FOREVER) rs \<and>
          list_all (\<lambda>t. \<not> (chan (waits s t) = 0 \<and> timeout (waits s t) = FOREVER)) (waitq s)))"

text \<open>What \<open>dump\<close> prints.\<close>

definition dump ::
  "sched \<Rightarrow> (nat \<times> u32 \<times> tid list \<times> tid list \<times> (tid \<times> vptr \<times> u32) list) res" where
  "dump s =
     res_bind (rq_tids (heap s) (runq s)) (\<lambda>rs.
     res_bind (rq_tids (heap s) (hp_runq s)) (\<lambda>hs.
     Inr (nthread (tids s), turnCount s, rs, hs,
          map (\<lambda>t. (t, chan (waits s t), timeout (waits s t))) (waitq s))))"

end
