(* ===== verification/Interfaces.thy ===== *)
theory Interfaces
  imports Prelude
begin

text \<open>
  The interfaces between the components, as locales. \<open>fifo_queue\<close> is what the scheduler
  relies on in a run queue, \<open>indexed_queue\<close> adds the membership test, and
  \<open>turn_segment\<close> is what the runtime relies on in the scheduler. Each is interpreted on the
  model's own definitions in the theory of the component that provides it.
\<close>

section \<open>Iterated steps\<close>

primrec iterate :: "nat \<Rightarrow> ('s \<Rightarrow> 's res) \<Rightarrow> 's \<Rightarrow> 's res" where
  "iterate 0 f s = Inr s"
| "iterate (Suc n) f s = res_bind (f s) (iterate n f)"

text \<open>Taking the front element off a queue and appending it again.\<close>

definition requeue_front :: "('s \<Rightarrow> 'a res) \<Rightarrow> ('a \<Rightarrow> 's \<Rightarrow> 's res) \<Rightarrow> ('s \<Rightarrow> 's res) \<Rightarrow> 's \<Rightarrow> 's res" where
  "requeue_front front push pop s = res_bind (front s) (\<lambda>x. res_bind (pop s) (push x))"

text \<open>Appending an element unless it is queued already.\<close>

definition push_absent :: "('a \<Rightarrow> 's \<Rightarrow> bool res) \<Rightarrow> ('a \<Rightarrow> 's \<Rightarrow> 's res) \<Rightarrow> 'a \<Rightarrow> 's \<Rightarrow> 's res" where
  "push_absent member push x s = res_bind (member x s) (\<lambda>b. if b then Inr s else push x s)"

section \<open>Queues\<close>

text \<open>
  \<open>holds s xs\<close>: the queue in state \<open>s\<close> holds \<open>xs\<close>, front first; \<open>valid s x\<close>: \<open>x\<close> may
  be put on it.
\<close>

locale fifo_queue =
  fixes holds :: "'s \<Rightarrow> 'a list \<Rightarrow> bool"
    and valid :: "'s \<Rightarrow> 'a \<Rightarrow> bool"
    and front :: "'s \<Rightarrow> 'a res"
    and push :: "'a \<Rightarrow> 's \<Rightarrow> 's res"
    and pop :: "'s \<Rightarrow> 's res"
  assumes distinct: "holds s xs \<Longrightarrow> distinct xs"
    and members: "holds s xs \<Longrightarrow> x \<in> set xs \<Longrightarrow> valid s x"
    and front: "holds s (x # xs) \<Longrightarrow> front s = Inr x"
    and pop: "holds s (x # xs) \<Longrightarrow> \<exists>s'. pop s = Inr s' \<and> holds s' xs \<and> valid s' = valid s"
    and push: "holds s xs \<Longrightarrow> valid s x \<Longrightarrow> x \<notin> set xs \<Longrightarrow>
      \<exists>s'. push x s = Inr s' \<and> holds s' (xs @ [x]) \<and> valid s' = valid s"
begin

lemma requeue:
  assumes "holds s (x # xs)"
  shows "\<exists>s'. requeue_front front push pop s = Inr s' \<and> holds s' (xs @ [x]) \<and> valid s' = valid s"
proof -
  obtain s1 where s1: "pop s = Inr s1" "holds s1 xs" "valid s1 = valid s" using pop [OF assms] by blast
  have "x \<notin> set xs" "valid s1 x" using distinct [OF assms] members [OF assms, of x] s1(3) by simp_all
  then obtain s2 where "push x s1 = Inr s2" "holds s2 (xs @ [x])" "valid s2 = valid s1"
    using push [OF s1(2)] by blast
  then show ?thesis using s1 front [OF assms] by (simp add: requeue_front_def)
qed

lemma rotation:
  assumes "holds s xs" and "xs \<noteq> []"
  shows "\<exists>s'. iterate n (requeue_front front push pop) s = Inr s' \<and> holds s' (rotate n xs) \<and> valid s' = valid s"
  using assms
proof (induction n arbitrary: s xs)
  case (Suc n)
  obtain y ys where xs: "xs = y # ys" using Suc.prems(2) by (cases xs) auto
  obtain s1 where s1: "requeue_front front push pop s = Inr s1" "holds s1 (ys @ [y])" "valid s1 = valid s"
    using requeue Suc.prems(1) xs by blast
  obtain s2 where "iterate n (requeue_front front push pop) s1 = Inr s2" "holds s2 (rotate n (ys @ [y]))"
     "valid s2 = valid s1" using Suc.IH [OF s1(2)] by auto
  moreover have "rotate (Suc n) xs = rotate n (ys @ [y])" using xs by (simp add: rotate1_rotate_swap)
  ultimately show ?case using s1 by simp
qed simp

text \<open>A full round serves every element once, in order, and restores the queue.\<close>

lemma full_round:
  assumes "holds s xs"
  shows "\<exists>s'. iterate (length xs) (requeue_front front push pop) s = Inr s' \<and> holds s' xs"
proof (cases "xs = []")
  case False
  then show ?thesis using rotation [OF assms False, of "length xs"] by auto
qed (use assms in simp)

lemma round_serves:
  assumes "holds s xs" and "i < length xs"
  shows "\<exists>s'. iterate i (requeue_front front push pop) s = Inr s' \<and> front s' = Inr (xs ! i)"
proof -
  have ne: "xs \<noteq> []" using assms(2) by auto
  obtain s' where s': "iterate i (requeue_front front push pop) s = Inr s'" "holds s' (rotate i xs)"
    using rotation [OF assms(1) ne] by blast
  have "rotate i xs = xs ! i # drop (Suc i) xs @ take i xs"
    using assms(2) by (simp add: rotate_drop_take Cons_nth_drop_Suc)
  then show ?thesis using s' front by auto
qed

end

locale indexed_queue = fifo_queue +
  fixes member :: "'a \<Rightarrow> 's \<Rightarrow> bool res"
  assumes member: "holds s xs \<Longrightarrow> valid s x \<Longrightarrow> member x s = Inr (x \<in> set xs)"
begin

lemma push_absent_all:
  assumes "holds s xs" and "\<And>y. y \<in> set ys \<Longrightarrow> valid s y" and "distinct ys"
  shows "\<exists>s'. res_fold (push_absent member push) ys s = Inr s' \<and> holds s' (xs @ filter (\<lambda>y. y \<notin> set xs) ys)"
  using assms
proof (induction ys arbitrary: s xs)
  case (Cons y ys)
  have m: "member y s = Inr (y \<in> set xs)" using member Cons.prems by simp
  show ?case
  proof (cases "y \<in> set xs")
    case True
    then show ?thesis using m Cons by (simp add: push_absent_def)
  next
    case False
    then obtain s1 where s1: "push y s = Inr s1" "holds s1 (xs @ [y])" "valid s1 = valid s"
      using push [OF Cons.prems(1)] Cons.prems(2) by auto
    obtain s2 where s2: "res_fold (push_absent member push) ys s1 = Inr s2"
       "holds s2 ((xs @ [y]) @ filter (\<lambda>z. z \<notin> set (xs @ [y])) ys)"
      using Cons.IH [OF s1(2)] Cons.prems(2,3) s1(3) by auto
    have "filter (\<lambda>z. z \<notin> set (xs @ [y])) ys = filter (\<lambda>z. z \<notin> set xs) ys"
      by (rule filter_cong) (use Cons.prems(3) in auto)
    moreover have "push_absent member push y s = Inr s1" using m False s1(1) by (simp add: push_absent_def)
    ultimately show ?thesis using s2 False by simp
  qed
qed simp

end

section \<open>Segments that hold the turn\<close>

text \<open>
  Between two turns a thread makes calls that keep the turn and then one that gives it up:
  \<open>held\<close> and \<open>free\<close> describe the states with and without a holder, \<open>ok\<close> the calls that
  may be made while holding, \<open>may\<close> the conditions for giving the turn up.
\<close>

locale turn_segment =
  fixes held :: "'s \<Rightarrow> bool"
    and free :: "'s \<Rightarrow> bool"
    and call :: "'o \<Rightarrow> 's \<Rightarrow> 's res"
    and ok :: "'o \<Rightarrow> bool"
    and leave :: "'l \<Rightarrow> 's \<Rightarrow> 's res"
    and may :: "'l \<Rightarrow> 's \<Rightarrow> bool"
  assumes call: "held s \<Longrightarrow> ok x \<Longrightarrow> \<exists>s'. call x s = Inr s' \<and> held s'"
    and keeps: "held s \<Longrightarrow> ok x \<Longrightarrow> may l s \<Longrightarrow> call x s = Inr s' \<Longrightarrow> may l s'"
    and leave: "held s \<Longrightarrow> may l s \<Longrightarrow> \<exists>s'. leave l s = Inr s' \<and> free s'"
begin

lemma calls:
  assumes "held s" and "list_all ok xs" and "may l s"
  shows "\<exists>s'. res_fold call xs s = Inr s' \<and> held s' \<and> may l s'"
  using assms
proof (induction xs arbitrary: s)
  case (Cons x xs)
  obtain s1 where s1: "call x s = Inr s1" "held s1" using call Cons.prems by auto
  have "may l s1" using keeps Cons.prems s1(1) by auto
  then show ?case using Cons.IH [OF s1(2)] Cons.prems(2) s1(1) by simp
qed simp

theorem segment:
  assumes "held s" and "list_all ok xs" and "may l s"
  shows "\<exists>s'. res_bind (res_fold call xs s) (leave l) = Inr s' \<and> free s'"
  using calls [OF assms] leave by auto

end

section \<open>Thread-local state\<close>

text \<open>
  Steps on a shared state of which each thread has a private part: a step of \<open>inside\<close> keeps the
  flag \<open>space\<close> of the thread that makes it, a step of \<open>crossing\<close> may change it, and neither
  touches the private part of another thread.
\<close>

locale private_state =
  fixes inside :: "tid \<Rightarrow> 's \<Rightarrow> 's \<Rightarrow> bool"
    and crossing :: "tid \<Rightarrow> 's \<Rightarrow> 's \<Rightarrow> bool"
    and own :: "'s \<Rightarrow> tid \<Rightarrow> 'v"
    and space :: "'v \<Rightarrow> bool"
  assumes inside_space: "inside u s s' \<Longrightarrow> space (own s' u) = space (own s u)"
    and inside_other: "inside u s s' \<Longrightarrow> v \<noteq> u \<Longrightarrow> own s' v = own s v"
    and crossing_other: "crossing u s s' \<Longrightarrow> v \<noteq> u \<Longrightarrow> own s' v = own s v"
begin

lemma others_run:
  assumes "(\<lambda>s s'. \<exists>u. u \<noteq> v \<and> (inside u s s' \<or> crossing u s s'))\<^sup>*\<^sup>* s s'"
  shows "own s' v = own s v"
  using assms by (induction rule: rtranclp_induct) (metis inside_other crossing_other)+

lemma space_run:
  assumes "(\<lambda>s s'. inside v s s' \<or> (\<exists>u. u \<noteq> v \<and> (inside u s s' \<or> crossing u s s')))\<^sup>*\<^sup>* s s'"
  shows "space (own s' v) = space (own s v)"
  using assms by (induction rule: rtranclp_induct) (metis inside_space inside_other crossing_other)+

end

end
