(* ===== verification/SchedInv.thy ===== *)
theory SchedInv
  imports Scheduler Interfaces
begin

text \<open>
  The structural invariant of the scheduler and what each of its queue operations does to the
  two run queues, seen as lists of thread identifiers.
\<close>

section \<open>The invariant\<close>

text \<open>
  \<open>sinv opt s xs hs\<close>: the run queue holds the threads \<open>xs\<close> and the high-priority queue
  \<open>hs\<close>; every created thread has its element, entered in the high-priority table as well
  when that policy is on; the wait queue names each waiting thread once.
\<close>

definition sinv :: "options \<Rightarrow> sched \<Rightarrow> tid list \<Rightarrow> tid list \<Rightarrow> bool" where
  "sinv opt s xs hs \<longleftrightarrow>
     queues (tid_map (runq s)) (heap s) (runq s) xs (hp_runq s) hs \<and>
     (\<forall>a. cells (heap s) a \<noteq> None \<longrightarrow> a < brk (heap s)) \<and>
     dom (tid_map (runq s)) = {..<nthread (tids s)} \<and>
     (if policy opt 4 then tid_map (hp_runq s) = tid_map (runq s) else hs = []) \<and>
     distinct (waitq s) \<and> set (waitq s) \<subseteq> {..<nthread (tids s)}"

text \<open>The status of a thread's element.\<close>

definition status_of :: "sched \<Rightarrow> tid \<Rightarrow> THD_STATUS option" where
  "status_of s t = map_option fst (th_meta (tid_map (runq s)) (heap s) t)"

definition yielded :: "sched \<Rightarrow> tid \<Rightarrow> bool" where
  "yielded s t \<longleftrightarrow> map_option snd (th_meta (tid_map (runq s)) (heap s) t) = Some True"

text \<open>Nothing but the heap and the links of the queues differs.\<close>

definition qframe :: "sched \<Rightarrow> sched \<Rightarrow> bool" where
  "qframe s s' \<longleftrightarrow>
     tids s' = tids s \<and> turnCount s' = turnCount s \<and> waitq s' = waitq s \<and>
     non_det_thds s' = non_det_thds s \<and> waits s' = waits s \<and>
     inter_pro_wakeup_tids s' = inter_pro_wakeup_tids s \<and>
     inter_pro_wakeup_flag s' = inter_pro_wakeup_flag s \<and> idle_done s' = idle_done s \<and>
     nNonDetWait s' = nNonDetWait s \<and> inSync s' = inSync s \<and>
     idle_cond_signals s' = idle_cond_signals s \<and>
     tid_map (runq s') = tid_map (runq s) \<and> tid_map (hp_runq s') = tid_map (hp_runq s)"

lemma qframe_refl [simp]: "qframe s s"
  by (simp add: qframe_def)

lemma qframe_trans [trans]: "qframe s s' \<Longrightarrow> qframe s' s'' \<Longrightarrow> qframe s s''"
  by (simp add: qframe_def)

lemma sinvD:
  assumes "sinv opt s xs hs"
  shows "queues (tid_map (runq s)) (heap s) (runq s) xs (hp_runq s) hs"
    and "\<And>a. cells (heap s) a \<noteq> None \<Longrightarrow> a < brk (heap s)"
    and "\<And>t. t < nthread (tids s) \<longleftrightarrow> (\<exists>a. tid_map (runq s) t = Some a)"
    and "policy opt 4 \<Longrightarrow> tid_map (hp_runq s) = tid_map (runq s)" and "\<not> policy opt 4 \<Longrightarrow> hs = []"
    and "distinct (waitq s)" and "set (waitq s) \<subseteq> {..<nthread (tids s)}"
proof -
  show "t < nthread (tids s) \<longleftrightarrow> (\<exists>a. tid_map (runq s) t = Some a)" for t
    using assms unfolding sinv_def by (metis domIff lessThan_iff option.exhaust option.distinct(1))
qed (use assms in \<open>auto simp: sinv_def\<close>)

lemma sinv_threads:
  assumes "sinv opt s xs hs"
  shows "distinct (xs @ hs)" and "set xs \<subseteq> {..<nthread (tids s)}" and "set hs \<subseteq> {..<nthread (tids s)}"
    and "nthread (tids s) \<le> MAX_THREAD_NUM"
proof -
  note q = sinvD(1) [OF assms]
  have d: "dom (tid_map (runq s)) = {..<nthread (tids s)}" using assms by (simp add: sinv_def)
  show "distinct (xs @ hs)" "set xs \<subseteq> {..<nthread (tids s)}" "set hs \<subseteq> {..<nthread (tids s)}"
    using queuesD(6-8) [OF q] d by auto
  have "{..<nthread (tids s)} \<subseteq> {..<MAX_THREAD_NUM}"
    using queuesD(1) [OF q] d unfolding elems_ok_def by (metis domD lessThan_iff subsetI)
  then show "nthread (tids s) \<le> MAX_THREAD_NUM" by simp
qed

text \<open>Rebuilding the invariant after a step that stays within the queues.\<close>

lemma sinv_qframe:
  assumes s: "sinv opt s xs hs" and f: "qframe s s'"
    and q: "queues (tid_map (runq s)) (heap s') (runq s') xs' (hp_runq s') hs'"
    and cells: "\<And>a. meta (heap s) a = None \<Longrightarrow> meta (heap s') a = None" "brk (heap s') = brk (heap s)"
    and hs': "\<not> policy opt 4 \<Longrightarrow> hs' = []"
  shows "sinv opt s' xs' hs'"
proof -
  have "cells (heap s') a \<noteq> None \<Longrightarrow> a < brk (heap s')" for a
    using cells sinvD(2) [OF s, of a] unfolding meta_None by metis
  then show ?thesis using s q hs' f unfolding sinv_def qframe_def by auto
qed

text \<open>What a step that rewrites one element does to the statuses and yield flags.\<close>

lemma views_same:
  assumes "tid_map (runq s') = tid_map (runq s)" and "meta (heap s') = meta (heap s)"
  shows "status_of s' = status_of s" and "yielded s' = yielded s"
  using assms by (simp_all add: fun_eq_iff status_of_def yielded_def th_meta_def split: option.split)

lemma views_upd:
  assumes s: "sinv opt s xs hs" and f: "tid_map (runq s') = tid_map (runq s)"
    and a: "tid_map (runq s) t = Some a"
    and m: "meta (heap s') = (meta (heap s))(a := map_option (\<lambda>(u, st, y). (u, g st, h y)) (meta (heap s) a))"
  shows "status_of s' = (status_of s)(t := map_option g (status_of s t))"
    and "yielded s' = (yielded s)(t := h (yielded s t))"
proof -
  have ok: "elems_ok (tid_map (runq s)) (heap s)" using queuesD(1) [OF sinvD(1) [OF s]] .
  obtain e where e: "cells (heap s) a = Some e" using elems_okD [OF ok a] by blast
  have other: "b \<noteq> a" if "tid_map (runq s) u = Some b" "u \<noteq> t" for u b
    using elems_ok_inj [OF ok a] that by blast
  have "th_meta (tid_map (runq s')) (heap s') u =
      (if u = t then Some (g (e_status e), h (e_last_yield e)) else th_meta (tid_map (runq s)) (heap s) u)" for u
    using f a m e other [of u] by (auto simp: th_meta_def meta_def split: option.split)
  moreover have "th_meta (tid_map (runq s)) (heap s) t = Some (e_status e, e_last_yield e)"
    using a e by (simp add: th_meta_def meta_def)
  ultimately show "status_of s' = (status_of s)(t := map_option g (status_of s t))"
    "yielded s' = (yielded s)(t := h (yielded s t))"
    by (auto simp: status_of_def yielded_def fun_eq_iff)
qed

lemma status_of_eq:
  assumes "tid_map (runq s) t = Some a" and "cells (heap s) a = Some e"
  shows "status_of s t = Some (e_status e)"
  using assms by (simp add: status_of_def th_meta_def meta_def)

lemma elem_of:
  assumes "sinv opt s xs hs" and "t < nthread (tids s)"
  obtains a e where "tid_map (runq s) t = Some a" "cells (heap s) a = Some e" "e_tid e = t"
    "status_of s t = Some (e_status e)" "t < MAX_THREAD_NUM"
proof -
  obtain a where a: "tid_map (runq s) t = Some a" using sinvD(3) [OF assms(1)] assms(2) by blast
  then obtain e where "cells (heap s) a = Some e" "e_tid e = t" "t < MAX_THREAD_NUM"
    using elems_okD [OF queuesD(1) [OF sinvD(1) [OF assms(1)]] a] by blast
  then show thesis using that a status_of_eq by blast
qed

section \<open>Queue operations\<close>

lemma runq_push_back_ok:
  assumes s: "sinv opt s xs hs" and t: "t < nthread (tids s)" "t \<notin> set xs" "t \<notin> set hs"
  shows "\<exists>s'. runq_push_back t s = Inr s' \<and> sinv opt s' (xs @ [t]) hs \<and> qframe s s' \<and>
     status_of s' = status_of s \<and> yielded s' = yielded s"
proof -
  note d = sinvD [OF s]
  obtain a where a: "tid_map (runq s) t = Some a" using d(3) t(1) by blast
  from queues_push_back [OF d(1) a t(2,3)]
  obtain m q where r: "rq_push_back t (heap s) (runq s) = Inr (m, q)"
      "queues (tid_map (runq s)) m q (xs @ [t]) (hp_runq s) hs" "meta m = meta (heap s)"
      "brk m = brk (heap s)" "tid_map q = tid_map (runq s)" by blast
  let ?s = "s\<lparr>heap := m, runq := q\<rparr>"
  have f: "qframe s ?s" using r(5) by (simp add: qframe_def)
  have "sinv opt ?s (xs @ [t]) hs" by (rule sinv_qframe [OF s f]) (use r d(5) in auto)
  moreover have "status_of ?s = status_of s" "yielded ?s = yielded s" by (rule views_same; use r in simp)+
  ultimately show ?thesis using r f by (simp add: runq_push_back_def)
qed

lemma hp_push_back_ok:
  assumes s: "sinv opt s xs hs" and t: "t < nthread (tids s)" "t \<notin> set xs" "t \<notin> set hs"
    and hp: "policy opt 4"
  shows "\<exists>s'. hp_push_back t s = Inr s' \<and> sinv opt s' xs (hs @ [t]) \<and> qframe s s' \<and>
     status_of s' = status_of s \<and> yielded s' = yielded s"
proof -
  note d = sinvD [OF s]
  obtain a where a: "tid_map (hp_runq s) t = Some a" using d(3,4) hp t(1) by auto
  from queues_push_back [OF queues_swap [THEN iffD1, OF d(1)] a t(3,2)]
  obtain m q where r: "rq_push_back t (heap s) (hp_runq s) = Inr (m, q)"
      "queues (tid_map (runq s)) m q (hs @ [t]) (runq s) xs" "meta m = meta (heap s)"
      "brk m = brk (heap s)" "tid_map q = tid_map (hp_runq s)" by blast
  let ?s = "s\<lparr>heap := m, hp_runq := q\<rparr>"
  have f: "qframe s ?s" using r(5) by (simp add: qframe_def)
  have "sinv opt ?s xs (hs @ [t])"
    by (rule sinv_qframe [OF s f]) (use r hp queues_swap [THEN iffD1, OF r(2)] in auto)
  moreover have "status_of ?s = status_of s" "yielded ?s = yielded s" by (rule views_same; use r in simp)+
  ultimately show ?thesis using r f by (simp add: hp_push_back_def)
qed

lemma runq_insert_yield_ok:
  assumes s: "sinv opt s xs hs" and t: "t < nthread (tids s)" "t \<notin> set xs" "t \<notin> set hs"
  shows "\<exists>s' k. runq_insert_yield t s = Inr s' \<and> sinv opt s' (take k xs @ t # drop k xs) hs \<and>
     k = yield_pos (heap s) (runq s) (addrs (tid_map (runq s)) xs) \<and> qframe s s' \<and>
     status_of s' = status_of s \<and> yielded s' = (yielded s)(t := True)"
proof -
  note d = sinvD [OF s]
  obtain a where a: "tid_map (runq s) t = Some a" using d(3) t(1) by blast
  define k where "k = yield_pos (heap s) (runq s) (addrs (tid_map (runq s)) xs)"
  from queues_insert_yield [OF d(1) a t(2,3) k_def]
  obtain m q where r: "rq_insert_yield t (heap s) (runq s) = Inr (m, q)"
      "queues (tid_map (runq s)) m q (take k xs @ t # drop k xs) (hp_runq s) hs"
      "meta m = (meta (heap s))(a := map_option (\<lambda>(u, st, y). (u, st, True)) (meta (heap s) a))"
      "brk m = brk (heap s)" "tid_map q = tid_map (runq s)" by blast
  let ?s = "s\<lparr>heap := m, runq := q\<rparr>"
  have f: "qframe s ?s" using r(5) by (simp add: qframe_def)
  have "sinv opt ?s (take k xs @ t # drop k xs) hs" by (rule sinv_qframe [OF s f]) (use r d(5) in auto)
  moreover have "status_of ?s = status_of s" "yielded ?s = (yielded s)(t := True)"
    using views_upd [OF s _ a, of ?s "\<lambda>x. x" "\<lambda>_. True"] r by (simp_all add: option.map_ident)
  ultimately show ?thesis using r f k_def by (auto simp: runq_insert_yield_def)
qed

lemma runq_pop_front_ok:
  assumes s: "sinv opt s (t # xs) hs"
  shows "\<exists>s'. runq_pop_front s = Inr s' \<and> sinv opt s' xs hs \<and> qframe s s' \<and>
     status_of s' = status_of s \<and> yielded s' = (yielded s)(t := False)"
proof -
  note d = sinvD [OF s]
  have "t < nthread (tids s)" using sinv_threads(2) [OF s] by simp
  then obtain a where a: "tid_map (runq s) t = Some a" using d(3) by blast
  from queues_pop_front [OF d(1) a]
  obtain m q where r: "rq_pop_front (heap s) (runq s) = Inr (m, q)"
      "queues (tid_map (runq s)) m q xs (hp_runq s) hs"
      "meta m = (meta (heap s))(a := map_option (\<lambda>(u, st, y). (u, st, False)) (meta (heap s) a))"
      "brk m = brk (heap s)" "tid_map q = tid_map (runq s)" by blast
  let ?s = "s\<lparr>heap := m, runq := q\<rparr>"
  have f: "qframe s ?s" using r(5) by (simp add: qframe_def)
  have "sinv opt ?s xs hs" by (rule sinv_qframe [OF s f]) (use r d(5) in auto)
  moreover have "status_of ?s = status_of s" "yielded ?s = (yielded s)(t := False)"
    using views_upd [OF s _ a, of ?s "\<lambda>x. x" "\<lambda>_. False"] r by (simp_all add: option.map_ident)
  ultimately show ?thesis using r f by (simp add: runq_pop_front_def)
qed

lemma hp_pop_front_ok:
  assumes s: "sinv opt s xs (t # hs)"
  shows "\<exists>s'. hp_pop_front s = Inr s' \<and> sinv opt s' xs hs \<and> qframe s s' \<and>
     status_of s' = status_of s \<and> yielded s' = (yielded s)(t := False)"
proof -
  note d = sinvD [OF s]
  have "t < nthread (tids s)" using sinv_threads(3) [OF s] by simp
  then obtain a where a: "tid_map (runq s) t = Some a" using d(3) by blast
  from queues_pop_front [OF queues_swap [THEN iffD1, OF d(1)] a]
  obtain m q where r: "rq_pop_front (heap s) (hp_runq s) = Inr (m, q)"
      "queues (tid_map (runq s)) m q hs (runq s) xs"
      "meta m = (meta (heap s))(a := map_option (\<lambda>(u, st, y). (u, st, False)) (meta (heap s) a))"
      "brk m = brk (heap s)" "tid_map q = tid_map (hp_runq s)" by blast
  let ?s = "s\<lparr>heap := m, hp_runq := q\<rparr>"
  have f: "qframe s ?s" using r(5) by (simp add: qframe_def)
  have "sinv opt ?s xs hs" by (rule sinv_qframe [OF s f]) (use r d(5) queues_swap [THEN iffD1, OF r(2)] in auto)
  moreover have "status_of ?s = status_of s" "yielded ?s = (yielded s)(t := False)"
    using views_upd [OF s _ a, of ?s "\<lambda>x. x" "\<lambda>_. False"] r by (simp_all add: option.map_ident)
  ultimately show ?thesis using r f by (simp add: hp_pop_front_def)
qed

lemma set_status_ok:
  assumes s: "sinv opt s xs hs" and a: "tid_map (runq s) t = Some a"
  shows "\<exists>s'. set_status (Some a) st s = Inr s' \<and> sinv opt s' xs hs \<and> qframe s s' \<and>
     runq s' = runq s \<and> hp_runq s' = hp_runq s \<and>
     status_of s' = (status_of s)(t \<mapsto> st) \<and> yielded s' = yielded s"
proof -
  note d = sinvD [OF s]
  from queues_set_status [OF d(1) a, of st]
  obtain m where r: "store (heap s) (Some a) (\<lambda>e. e\<lparr>e_status := st\<rparr>) = Inr m"
      "queues (tid_map (runq s)) m (runq s) xs (hp_runq s) hs" "brk m = brk (heap s)"
      "meta m = (meta (heap s))(a := map_option (\<lambda>(u, _, y). (u, st, y)) (meta (heap s) a))" by blast
  let ?s = "s\<lparr>heap := m\<rparr>"
  have f: "qframe s ?s" by (simp add: qframe_def)
  have "sinv opt ?s xs hs" by (rule sinv_qframe [OF s f]) (use r d(5) in auto)
  moreover have "status_of s t \<noteq> None" using elem_of [OF s] sinvD(3) [OF s, of t] a by fastforce
  then have "status_of ?s = (status_of s)(t \<mapsto> st)" "yielded ?s = yielded s"
    using views_upd [OF s _ a, of ?s "\<lambda>_. st" "\<lambda>y. y"] r by auto
  ultimately show ?thesis using r f by (simp add: set_status_def)
qed

section \<open>The queues as interfaces\<close>

text \<open>
  The run queue provides the queue interface with its membership test, and so does the
  high-priority queue (without the test, which looks at the run queue's own head only) when that
  policy is on.
\<close>

interpretation runq: indexed_queue
  "\<lambda>s xs. sinv opt s xs hs" "\<lambda>s t. t < nthread (tids s) \<and> t \<notin> set hs"
  "\<lambda>s. rq_front (heap s) (runq s)" runq_push_back runq_pop_front "\<lambda>t s. rq_in t (heap s) (runq s)"
  for opt hs
proof (unfold_locales, goal_cases)
  case (1 s xs)
  then show ?case using sinv_threads(1) by fastforce
next
  case (2 s xs x)
  then show ?case using sinv_threads(1,2) [OF 2(1)] by auto
next
  case (3 s x xs)
  then show ?case using queues_front(1) [OF sinvD(1)] by blast
next
  case (4 s x xs)
  then show ?case using runq_pop_front_ok [OF 4] by (auto simp: qframe_def)
next
  case (5 s xs x)
  then show ?case using runq_push_back_ok [OF 5(1), of x] by (auto simp: qframe_def)
next
  case (6 s xs x)
  then obtain a where "tid_map (runq s) x = Some a" using sinvD(3) [OF 6(1)] by blast
  then show ?case using queues_in [OF sinvD(1) [OF 6(1)]] 6(2) by blast
qed

interpretation hp_runq: fifo_queue
  "\<lambda>s hs. sinv opt s xs hs \<and> policy opt 4" "\<lambda>s t. t < nthread (tids s) \<and> t \<notin> set xs"
  "\<lambda>s. rq_front (heap s) (hp_runq s)" hp_push_back hp_pop_front
  for opt xs
proof (unfold_locales, goal_cases)
  case (1 s hs)
  then show ?case using sinv_threads(1) by fastforce
next
  case (2 s hs x)
  then show ?case using sinv_threads(1,3) [of opt s xs hs] by auto
next
  case (3 s x hs)
  then show ?case using queues_front(1) [OF queues_swap [THEN iffD1, OF sinvD(1)]] by blast
next
  case (4 s x hs)
  then show ?case using hp_pop_front_ok [of opt s xs x hs] by (auto simp: qframe_def)
next
  case (5 s hs x)
  then show ?case using hp_push_back_ok [of opt s xs hs x] by (auto simp: qframe_def)
qed

end
