(* ===== verification/SchedWake.thy ===== *)
theory SchedWake
  imports SchedInv
begin

text \<open>
  What \<open>signal\<close>, \<open>fireTimeouts\<close>, \<open>wakeUpIdleThread\<close> and \<open>check_wakeup\<close> do, on the
  lists of waiting and runnable threads.
\<close>

section \<open>Frames\<close>

text \<open>Neither the identifier map, the clock, the wake-up set nor the tables differ.\<close>

definition wframe :: "sched \<Rightarrow> sched \<Rightarrow> bool" where
  "wframe s s' \<longleftrightarrow>
     tids s' = tids s \<and> turnCount s' = turnCount s \<and>
     non_det_thds s' = non_det_thds s \<and>
     inter_pro_wakeup_tids s' = inter_pro_wakeup_tids s \<and>
     inter_pro_wakeup_flag s' = inter_pro_wakeup_flag s \<and> idle_done s' = idle_done s \<and>
     nNonDetWait s' = nNonDetWait s \<and> inSync s' = inSync s \<and>
     idle_cond_signals s' = idle_cond_signals s \<and>
     tid_map (runq s') = tid_map (runq s) \<and> tid_map (hp_runq s') = tid_map (hp_runq s)"

lemma wframe_refl [simp]: "wframe s s"
  by (simp add: wframe_def)

lemma wframe_trans [trans]: "wframe s s' \<Longrightarrow> wframe s' s'' \<Longrightarrow> wframe s s''"
  by (simp add: wframe_def)

lemma qframe_wframe: "qframe s s' \<Longrightarrow> wframe s s'"
  by (simp add: qframe_def wframe_def)

lemma upd_wait_fields [simp]:
  "heap (upd_wait t f s) = heap s" "runq (upd_wait t f s) = runq s" "hp_runq (upd_wait t f s) = hp_runq s"
  "waitq (upd_wait t f s) = waitq s" "tids (upd_wait t f s) = tids s"
  "turnCount (upd_wait t f s) = turnCount s" "non_det_thds (upd_wait t f s) = non_det_thds s"
  "inter_pro_wakeup_tids (upd_wait t f s) = inter_pro_wakeup_tids s"
  "inter_pro_wakeup_flag (upd_wait t f s) = inter_pro_wakeup_flag s"
  "idle_done (upd_wait t f s) = idle_done s" "nNonDetWait (upd_wait t f s) = nNonDetWait s"
  "inSync (upd_wait t f s) = inSync s" "idle_cond_signals (upd_wait t f s) = idle_cond_signals s"
  "waits (upd_wait t f s) = (waits s)(t := f (waits s t))"
  by (simp_all add: upd_wait_def)

lemma wframe_upd_wait [simp]: "wframe s (upd_wait t f s)"
  by (simp add: wframe_def)

lemma views_other [simp]:
  "status_of (upd_wait t f s) = status_of s" "yielded (upd_wait t f s) = yielded s"
  "status_of (s\<lparr>waitq := w\<rparr>) = status_of s" "yielded (s\<lparr>waitq := w\<rparr>) = yielded s"
  "status_of (s\<lparr>tids := m\<rparr>) = status_of s" "yielded (s\<lparr>tids := m\<rparr>) = yielded s"
  "status_of (s\<lparr>non_det_thds := n\<rparr>) = status_of s" "yielded (s\<lparr>non_det_thds := n\<rparr>) = yielded s"
  "status_of (s\<lparr>turnCount := c\<rparr>) = status_of s" "yielded (s\<lparr>turnCount := c\<rparr>) = yielded s"
  "status_of (s\<lparr>inter_pro_wakeup_tids := i, inter_pro_wakeup_flag := b\<rparr>) = status_of s"
  "yielded (s\<lparr>inter_pro_wakeup_tids := i, inter_pro_wakeup_flag := b\<rparr>) = yielded s"
  "status_of (s\<lparr>idle_cond_signals := k\<rparr>) = status_of s" "yielded (s\<lparr>idle_cond_signals := k\<rparr>) = yielded s"
  by (simp_all add: fun_eq_iff status_of_def yielded_def)

lemma sinv_other [simp]:
  "sinv opt (upd_wait t f s) xs hs = sinv opt s xs hs"
  "sinv opt (s\<lparr>non_det_thds := n\<rparr>) xs hs = sinv opt s xs hs"
  "sinv opt (s\<lparr>turnCount := c\<rparr>) xs hs = sinv opt s xs hs"
  "sinv opt (s\<lparr>inter_pro_wakeup_tids := i, inter_pro_wakeup_flag := b\<rparr>) xs hs = sinv opt s xs hs"
  "sinv opt (s\<lparr>idle_cond_signals := k\<rparr>) xs hs = sinv opt s xs hs"
  by (simp_all add: sinv_def)

lemma sinv_waitq:
  "sinv opt s xs hs \<Longrightarrow> distinct w \<Longrightarrow> set w \<subseteq> {..<nthread (tids s)} \<Longrightarrow> sinv opt (s\<lparr>waitq := w\<rparr>) xs hs"
  by (simp add: sinv_def)

section \<open>Waking waiting threads\<close>

text \<open>The high-priority queue receives every woken thread but the idle one when the policy asks for it.\<close>

definition to_hp :: "options \<Rightarrow> tid \<Rightarrow> bool" where
  "to_hp opt t \<longleftrightarrow> policy opt 4 \<and> t \<noteq> 1"

lemma enqueue_woken_ok:
  assumes s: "sinv opt s xs hs" and t: "t < nthread (tids s)" "t \<notin> set xs" "t \<notin> set hs"
    and det: "enforce_turn_type opt \<ge> 0"
  shows "\<exists>s'. enqueue_woken opt t s = Inr s' \<and> qframe s s' \<and>
     sinv opt s' (xs @ filter (\<lambda>t. \<not> to_hp opt t) [t]) (hs @ filter (to_hp opt) [t]) \<and>
     status_of s' = status_of s \<and> yielded s' = yielded s"
proof (cases "to_hp opt t")
  case True
  then show ?thesis
    using hp_push_back_ok [OF s t] det by (auto simp: enqueue_woken_def to_hp_def)
next
  case False
  then have "enqueue_woken opt t s = runq_push_back t s"
    using det by (auto simp: enqueue_woken_def to_hp_def)
  then show ?thesis using False runq_push_back_ok [OF s t] by auto
qed

text \<open>
  Both loops over the wait queue are instances of one: take off every thread (or the first)
  whose wait record satisfies \<open>P\<close>, rewrite that record with \<open>f\<close>, and enqueue the thread.
\<close>

fun wake_loop ::
  "options \<Rightarrow> (wait_t \<Rightarrow> bool) \<Rightarrow> (wait_t \<Rightarrow> wait_t) \<Rightarrow> bool \<Rightarrow> tid list \<Rightarrow> tid list \<Rightarrow> sched \<Rightarrow> sched res" where
  "wake_loop opt P f all kept [] s = Inr s"
| "wake_loop opt P f all kept (t # rest) s =
     assert_then opt (t < nthread (tids s))
       (if P (waits s t)
        then res_bind (enqueue_woken opt t (upd_wait t f (s\<lparr>waitq := kept @ rest\<rparr>))) (\<lambda>s2.
             if all then wake_loop opt P f all kept rest s2 else Inr s2)
        else wake_loop opt P f all (kept @ [t]) rest s)"

definition woken :: "(wait_t \<Rightarrow> bool) \<Rightarrow> bool \<Rightarrow> tid list \<Rightarrow> sched \<Rightarrow> tid list" where
  "woken P all ws s = (if all then filter (\<lambda>t. P (waits s t)) ws else take 1 (filter (\<lambda>t. P (waits s t)) ws))"

lemma woken_Cons:
  "woken P all (t # ws) s =
     (if P (waits s t) then t # (if all then woken P all ws s else []) else woken P all ws s)"
  by (simp add: woken_def)

lemma woken_subset: "set (woken P all ws s) \<subseteq> set ws"
  using set_take_subset [of 1 "filter (\<lambda>t. P (waits s t)) ws"] by (auto simp: woken_def)

lemma woken_cong: "(\<And>t. t \<in> set ws \<Longrightarrow> waits s' t = waits s t) \<Longrightarrow> woken P all ws s' = woken P all ws s"
  by (simp add: woken_def cong: filter_cong)

lemma wake_loop_ok:
  assumes det: "enforce_turn_type opt \<ge> 0"
  shows "sinv opt s xs hs \<Longrightarrow> waitq s = kept @ rest \<Longrightarrow> set rest \<inter> (set xs \<union> set hs) = {} \<Longrightarrow>
     W = woken P all rest s \<Longrightarrow>
     \<exists>s'. wake_loop opt P f all kept rest s = Inr s' \<and> wframe s s' \<and>
       sinv opt s' (xs @ filter (\<lambda>t. \<not> to_hp opt t) W) (hs @ filter (to_hp opt) W) \<and>
       waitq s' = kept @ filter (\<lambda>t. t \<notin> set W) rest \<and>
       waits s' = (\<lambda>t. if t \<in> set W then f (waits s t) else waits s t) \<and>
       status_of s' = status_of s \<and> yielded s' = yielded s"
proof (induction rest arbitrary: kept s xs hs W)
  case Nil
  then show ?case by (auto simp: woken_def)
next
  case (Cons t rest)
  note d = sinvD [OF Cons.prems(1)]
  have t: "t < nthread (tids s)" "t \<notin> set xs" "t \<notin> set hs" "t \<notin> set rest" "t \<notin> set kept"
    using d(6,7) Cons.prems(2,3) by auto
  show ?case
  proof (cases "P (waits s t)")
    case False
    have eq: "W = woken P all rest s" using False Cons.prems(4) by (simp add: woken_Cons)
    then have "t \<notin> set W" using woken_subset t(4) by fastforce
    then show ?thesis
      using Cons.IH [OF Cons.prems(1), of "kept @ [t]" W] Cons.prems(2,3) False t(1) eq by auto
  next
    case True
    let ?s1 = "upd_wait t f (s\<lparr>waitq := kept @ rest\<rparr>)"
    have s1: "sinv opt ?s1 xs hs" using Cons.prems(1,2) d(6,7) by (simp add: sinv_waitq)
    obtain s2 where s2: "enqueue_woken opt t ?s1 = Inr s2" "qframe ?s1 s2"
        "sinv opt s2 (xs @ filter (\<lambda>t. \<not> to_hp opt t) [t]) (hs @ filter (to_hp opt) [t])"
        "status_of s2 = status_of s" "yielded s2 = yielded s"
      using enqueue_woken_ok [OF s1, of t] t det by auto
    have fr: "wframe s s2" using s2(2) by (simp add: qframe_def wframe_def)
    have w2: "waits s2 = (waits s)(t := f (waits s t))" "waitq s2 = kept @ rest"
      using s2(2) by (simp_all add: qframe_def)
    show ?thesis
    proof (cases all)
      case False
      have "filter (\<lambda>u. u \<noteq> t) rest = rest" using t(4) by (induction rest) auto
      then show ?thesis
        using True False Cons.prems(4) s2 fr w2 t(1) by (auto simp: woken_Cons fun_eq_iff)
    next
      case all: True
      define V where "V = woken P all rest s"
      have W: "W = t # V" using True all Cons.prems(4) by (simp add: woken_Cons V_def)
      have V2: "V = woken P all rest s2" unfolding V_def using w2(1) t(4) by (auto intro!: woken_cong)
      have tV: "t \<notin> set V" using woken_subset t(4) unfolding V_def by fastforce
      have "set rest \<inter> (set (xs @ filter (\<lambda>t. \<not> to_hp opt t) [t]) \<union> set (hs @ filter (to_hp opt) [t])) = {}"
        using Cons.prems(3) t(4) by auto
      from Cons.IH [OF s2(3) w2(2) this V2]
      obtain s' where s': "wake_loop opt P f all kept rest s2 = Inr s'" "wframe s2 s'"
        "sinv opt s' ((xs @ filter (\<lambda>t. \<not> to_hp opt t) [t]) @ filter (\<lambda>t. \<not> to_hp opt t) V)
           ((hs @ filter (to_hp opt) [t]) @ filter (to_hp opt) V)"
        "waitq s' = kept @ filter (\<lambda>t. t \<notin> set V) rest"
        "waits s' = (\<lambda>u. if u \<in> set V then f (waits s2 u) else waits s2 u)"
        "status_of s' = status_of s2" "yielded s' = yielded s2" by blast
      have "filter (\<lambda>u. u \<notin> set V) rest = filter (\<lambda>u. u \<notin> set W) rest"
        using t(4) W by (auto intro!: filter_cong)
      moreover have "sinv opt s' (xs @ filter (\<lambda>t. \<not> to_hp opt t) W) (hs @ filter (to_hp opt) W)"
        using s'(3) W by (cases "to_hp opt t") simp_all
      moreover have "waits s' = (\<lambda>u. if u \<in> set W then f (waits s u) else waits s u)"
        using s'(5) w2(1) W tV by (auto simp: fun_eq_iff)
      ultimately show ?thesis
        using True all s2 s' t(1) W wframe_trans [OF fr s'(2)] by simp
    qed
  qed
qed

lemma signal_loop_wake:
  "signal_loop opt ch all kept rest s =
     wake_loop opt (\<lambda>w. chan w = ch) (\<lambda>w. (wt_reset 0 w)\<lparr>wake_reason := SIGNAL\<rparr>) all kept rest s"
proof (induction rest arbitrary: kept s)
  case (Cons t rest)
  then show ?case by (cases all) (simp_all add: Let_def)
qed simp

lemma fire_loop_wake:
  "wframe s0 s \<Longrightarrow>
   map_sum (\<lambda>x. x) snd (fire_loop opt n kept rest s) =
     wake_loop opt (\<lambda>w. timeout w < turnCount s0)
       (\<lambda>w. (wt_reset ETIMEDOUT w)\<lparr>wake_reason := TIMEDOUT\<rparr>) True kept rest s"
proof (induction rest arbitrary: n kept s)
  case (Cons t rest)
  have "turnCount s = turnCount s0" using Cons.prems by (simp add: wframe_def)
  moreover have "map_sum (\<lambda>x. x) snd (res_bind (enqueue_woken opt t s1) (fire_loop opt (n + 1) kept rest)) =
      res_bind (enqueue_woken opt t s1) (wake_loop opt (\<lambda>w. timeout w < turnCount s0)
       (\<lambda>w. (wt_reset ETIMEDOUT w)\<lparr>wake_reason := TIMEDOUT\<rparr>) True kept rest)"
    if s1: "wframe s0 s1" for s1
  proof (cases "enqueue_woken opt t s1")
    case (Inr s2)
    have "wframe s1 s2"
      using Inr by (auto simp: enqueue_woken_def hp_push_back_def runq_push_back_def post_def res_bind_eq_Inr
          rq_push_back_def wframe_def check_eq_Inr Let_def split: if_splits)
    with s1 have "wframe s0 s2" by (rule wframe_trans)
    then show ?thesis using Cons.IH [of s2 "Suc n" kept] Inr by simp
  qed simp
  ultimately show ?case
    using Cons by (auto simp: assert_then_def check_def Let_def wframe_def)
qed simp

text \<open>
  \<open>signal\<close>: the first waiter on the channel in the order of the wait queue, or all of them
  in that order, moves to the back of the run queue.
\<close>

definition signalled :: "vptr \<Rightarrow> bool \<Rightarrow> sched \<Rightarrow> tid list" where
  "signalled ch all s = woken (\<lambda>w. chan w = ch) all (waitq s) s"

definition expired :: "sched \<Rightarrow> tid list" where
  "expired s = filter (\<lambda>t. timeout (waits s t) < turnCount s) (waitq s)"

lemma signal_ok:
  assumes det: "enforce_turn_type opt \<ge> 0" and s: "sinv opt s xs hs"
    and disj: "set (waitq s) \<inter> (set xs \<union> set hs) = {}"
    and self: "ndebug opt \<or> (ch \<noteq> 0 \<and> xs \<noteq> [] \<and> self = hd xs)"
    and W: "W = signalled ch all s"
  shows "\<exists>s'. signal opt self ch all s = Inr s' \<and> wframe s s' \<and>
       sinv opt s' (xs @ filter (\<lambda>t. \<not> to_hp opt t) W) (hs @ filter (to_hp opt) W) \<and>
       waitq s' = filter (\<lambda>t. t \<notin> set W) (waitq s) \<and>
       waits s' = (\<lambda>t. if t \<in> set W then (wt_reset 0 (waits s t))\<lparr>wake_reason := SIGNAL\<rparr> else waits s t) \<and>
       status_of s' = status_of s \<and> yielded s' = yielded s"
proof -
  have "signal opt self ch all s = signal_loop opt ch all [] (waitq s) s"
  proof (cases "ndebug opt")
    case False
    then obtain ys where "xs = self # ys" "ch \<noteq> 0" using self by (cases xs) auto
    then show ?thesis
      using queues_front(1) [of _ "heap s" "runq s" self ys] sinvD(1) [OF s]
      by (simp add: signal_def assert_res_def self_is_front_def)
  qed (simp add: signal_def assert_res_def)
  then show ?thesis
    using wake_loop_ok [OF det s, of "[]" "waitq s" W "\<lambda>w. chan w = ch" all] disj W
    by (simp add: signal_loop_wake signalled_def)
qed

lemma fireTimeouts_ok:
  assumes det: "enforce_turn_type opt \<ge> 0" and s: "sinv opt s xs hs"
    and disj: "set (waitq s) \<inter> (set xs \<union> set hs) = {}" and W: "W = expired s"
  shows "\<exists>n s'. fireTimeouts opt s = Inr (n, s') \<and> wframe s s' \<and>
       sinv opt s' (xs @ filter (\<lambda>t. \<not> to_hp opt t) W) (hs @ filter (to_hp opt) W) \<and>
       waitq s' = filter (\<lambda>t. t \<notin> set W) (waitq s) \<and>
       waits s' = (\<lambda>t. if t \<in> set W then (wt_reset ETIMEDOUT (waits s t))\<lparr>wake_reason := TIMEDOUT\<rparr>
                       else waits s t) \<and>
       status_of s' = status_of s \<and> yielded s' = yielded s"
proof -
  let ?f = "\<lambda>w. (wt_reset ETIMEDOUT w)\<lparr>wake_reason := TIMEDOUT\<rparr>"
  let ?P = "\<lambda>w. timeout w < turnCount s"
  obtain s' where s': "wake_loop opt ?P ?f True [] (waitq s) s = Inr s'"
    and rest: "wframe s s'" "sinv opt s' (xs @ filter (\<lambda>t. \<not> to_hp opt t) W) (hs @ filter (to_hp opt) W)"
       "waitq s' = filter (\<lambda>t. t \<notin> set W) (waitq s)"
       "waits s' = (\<lambda>t. if t \<in> set W then ?f (waits s t) else waits s t)"
       "status_of s' = status_of s" "yielded s' = yielded s"
    using wake_loop_ok [OF det s, of "[]" "waitq s" W ?P True ?f] disj W
    by (auto simp: expired_def woken_def)
  from s' have "map_sum (\<lambda>x. x) snd (fireTimeouts opt s) = Inr s'"
    using fire_loop_wake [of s s opt 0 "[]" "waitq s"] by (simp add: fireTimeouts_def)
  then obtain n where "fireTimeouts opt s = Inr (n, s')"
    by (cases "fireTimeouts opt s") auto
  then show ?thesis using rest by blast
qed

text \<open>\<open>nextTimeout\<close> is the least deadline of a waiting thread.\<close>

lemma nextTimeout_fold:
  "fold (\<lambda>t n. if f t < n then f t else n) ws (n0 :: u32) = Min (insert n0 (f ` set ws))"
proof (induction ws arbitrary: n0)
  case (Cons w ws)
  have "Min (insert (if f w < n0 then f w else n0) (f ` set ws)) = Min (insert n0 (insert (f w) (f ` set ws)))"
  proof (cases "ws = []")
    case False
    then show ?thesis by (auto simp: min_def)
  qed (auto simp: min_def)
  then show ?case using Cons by simp
qed simp

lemma nextTimeout_Min: "nextTimeout s = Min (insert FOREVER ((\<lambda>t. timeout (waits s t)) ` set (waitq s)))"
  unfolding nextTimeout_def by (rule nextTimeout_fold)

section \<open>Threads coming back from blocking calls\<close>

text \<open>
  The iteration order of an \<open>unordered_set\<close> visits every member once. With assertions on, the
  set of threads outside the schedule has to agree with the calls; without them it does not
  matter to the queues.
\<close>

definition order_ok :: "options \<Rightarrow> bool" where
  "order_ok opt \<longleftrightarrow> (\<forall>xs. distinct xs \<longrightarrow> distinct (set_order opt xs) \<and> set (set_order opt xs) = set xs)"

definition no_bound :: "options \<Rightarrow> bool" where
  "no_bound opt \<longleftrightarrow> ndebug opt \<or> \<not> enforce_non_det_clock_bound opt"

text \<open>As \<open>wframe\<close>, but the set of threads outside the schedule may differ.\<close>

definition nframe :: "sched \<Rightarrow> sched \<Rightarrow> bool" where
  "nframe s s' \<longleftrightarrow>
     tids s' = tids s \<and> turnCount s' = turnCount s \<and>
     idle_done s' = idle_done s \<and> nNonDetWait s' = nNonDetWait s \<and> inSync s' = inSync s \<and>
     tid_map (runq s') = tid_map (runq s) \<and> tid_map (hp_runq s') = tid_map (hp_runq s)"

lemma nframe_refl [simp]: "nframe s s"
  by (simp add: nframe_def)

lemma nframe_trans [trans]: "nframe s s' \<Longrightarrow> nframe s' s'' \<Longrightarrow> nframe s s''"
  by (simp add: nframe_def)

lemma wframe_nframe: "wframe s s' \<Longrightarrow> nframe s s'"
  by (simp add: wframe_def nframe_def)

lemma nd_erase_total: "no_bound opt \<Longrightarrow> enforce_non_det_clock_bound opt \<Longrightarrow> \<exists>n'. nd_erase opt t n = Inr n'"
  by (simp add: no_bound_def nd_erase_def)

lemma nd_block_ok:
  assumes "no_bound opt"
  shows "\<exists>n. nd_block opt t s = Inr (s\<lparr>non_det_thds := n\<rparr>)"
proof (cases "enforce_non_det_clock_bound opt")
  case True
  then show ?thesis using assms by (auto simp: nd_block_def no_bound_def nd_insert_def)
next
  case False
  then have "nd_block opt t s = Inr (s\<lparr>non_det_thds := non_det_thds s\<rparr>)" by (simp add: nd_block_def)
  then show ?thesis by blast
qed

lemma wakeup_one_ok:
  assumes det: "enforce_turn_type opt \<ge> 0" "no_bound opt" and s: "sinv opt s xs hs"
    and t: "t < nthread (tids s)" "t \<notin> set hs"
  shows "\<exists>s'. wakeup_one opt t s = Inr s' \<and> nframe s s' \<and> waitq s' = waitq s \<and> waits s' = waits s \<and>
     sinv opt s' (if t \<in> set xs then xs else xs @ [t]) hs \<and>
     idle_cond_signals s' = idle_cond_signals s \<and>
     status_of s' = status_of s \<and> yielded s' = yielded s"
proof -
  obtain a where a: "tid_map (runq s) t = Some a" using sinvD(3) [OF s] t(1) by blast
  have inq: "rq_in t (heap s) (runq s) = Inr (t \<in> set xs)"
    by (rule queues_in [OF sinvD(1) [OF s] a t(2)])
  show ?thesis
  proof (cases "t \<in> set xs")
    case True
    then show ?thesis using s inq by (simp add: wakeup_one_def)
  next
    case False
    obtain s' where s': "runq_push_back t s = Inr s'" "sinv opt s' (xs @ [t]) hs" "qframe s s'"
        "status_of s' = status_of s" "yielded s' = yielded s"
      using runq_push_back_ok [OF s t(1) False t(2)] by blast
    show ?thesis
    proof (cases "enforce_non_det_clock_bound opt")
      case True
      then obtain n where "nd_erase opt t (non_det_thds s') = Inr n" using nd_erase_total det(2) by blast
      then show ?thesis using False det(1) inq s' True by (simp add: wakeup_one_def qframe_def nframe_def)
    next
      case F: False
      then show ?thesis using False det(1) inq s' by (simp add: wakeup_one_def qframe_def nframe_def)
    qed
  qed
qed

lemma wakeup_fold_ok:
  assumes det: "enforce_turn_type opt \<ge> 0" "no_bound opt"
  shows "sinv opt s xs hs \<Longrightarrow> distinct ts \<Longrightarrow> set ts \<subseteq> {..<nthread (tids s)} \<Longrightarrow> set ts \<inter> set hs = {} \<Longrightarrow>
     \<exists>s'. res_fold (wakeup_one opt) ts s = Inr s' \<and> nframe s s' \<and> waitq s' = waitq s \<and> waits s' = waits s \<and>
     sinv opt s' (xs @ filter (\<lambda>t. t \<notin> set xs) ts) hs \<and>
     idle_cond_signals s' = idle_cond_signals s \<and>
     status_of s' = status_of s \<and> yielded s' = yielded s"
proof (induction ts arbitrary: s xs)
  case (Cons t ts)
  obtain s1 where s1: "wakeup_one opt t s = Inr s1" "nframe s s1" "waitq s1 = waitq s" "waits s1 = waits s"
      "sinv opt s1 (if t \<in> set xs then xs else xs @ [t]) hs"
      "idle_cond_signals s1 = idle_cond_signals s" "status_of s1 = status_of s" "yielded s1 = yielded s"
    using wakeup_one_ok [OF det Cons.prems(1), of t] Cons.prems by auto
  have "tids s1 = tids s" using s1(2) by (simp add: nframe_def)
  then obtain s2 where s2: "res_fold (wakeup_one opt) ts s1 = Inr s2" "nframe s1 s2"
      "waitq s2 = waitq s1" "waits s2 = waits s1"
      "sinv opt s2 ((if t \<in> set xs then xs else xs @ [t]) @
         filter (\<lambda>u. u \<notin> set (if t \<in> set xs then xs else xs @ [t])) ts) hs"
      "idle_cond_signals s2 = idle_cond_signals s1" "status_of s2 = status_of s1" "yielded s2 = yielded s1"
    using Cons.IH [OF s1(5)] Cons.prems by auto
  have "filter (\<lambda>u. u \<notin> set (xs @ [t])) ts = filter (\<lambda>u. u \<notin> set xs) ts"
    using Cons.prems(2) by (auto intro!: filter_cong)
  then have "sinv opt s2 (xs @ filter (\<lambda>u. u \<notin> set xs) (t # ts)) hs"
    using s2(5) by (cases "t \<in> set xs") simp_all
  then show ?case using s1 s2 nframe_trans [OF s1(2) s2(2)] by simp
qed simp

text \<open>The threads \<open>check_wakeup\<close> puts back on the run queue.\<close>

definition returning :: "options \<Rightarrow> sched \<Rightarrow> tid list \<Rightarrow> tid list" where
  "returning opt s xs = (if inter_pro_wakeup_flag s
     then filter (\<lambda>t. t \<notin> set xs) (set_order opt (inter_pro_wakeup_tids s)) else [])"

text \<open>
  The wake-up set names threads of the process, none of which waits in the scheduler or sits in
  the high-priority queue.
\<close>

definition wset_ok :: "sched \<Rightarrow> tid list \<Rightarrow> bool" where
  "wset_ok s hs \<longleftrightarrow> distinct (inter_pro_wakeup_tids s) \<and>
     set (inter_pro_wakeup_tids s) \<subseteq> {..<nthread (tids s)} \<and>
     set (inter_pro_wakeup_tids s) \<inter> (set (waitq s) \<union> set hs) = {} \<and>
     (\<not> inter_pro_wakeup_flag s \<longrightarrow> inter_pro_wakeup_tids s = [])"

lemma check_wakeup_ok:
  assumes det: "enforce_turn_type opt \<ge> 0" "no_bound opt" "order_ok opt"
    and s: "sinv opt s xs hs" and w: "wset_ok s hs"
  shows "\<exists>s'. check_wakeup opt s = Inr s' \<and> nframe s s' \<and> waitq s' = waitq s \<and> waits s' = waits s \<and>
     sinv opt s' (xs @ returning opt s xs) hs \<and> inter_pro_wakeup_tids s' = [] \<and> \<not> inter_pro_wakeup_flag s' \<and>
     idle_cond_signals s' = idle_cond_signals s \<and>
     status_of s' = status_of s \<and> yielded s' = yielded s"
proof (cases "inter_pro_wakeup_flag s")
  case True
  let ?ts = "set_order opt (inter_pro_wakeup_tids s)"
  have ts: "distinct ?ts" "set ?ts = set (inter_pro_wakeup_tids s)"
    using det(3) w by (simp_all add: order_ok_def wset_ok_def)
  obtain s' where "res_fold (wakeup_one opt) ?ts s = Inr s'" "nframe s s'" "waitq s' = waitq s" "waits s' = waits s"
     "sinv opt s' (xs @ filter (\<lambda>t. t \<notin> set xs) ?ts) hs" "idle_cond_signals s' = idle_cond_signals s"
     "status_of s' = status_of s" "yielded s' = yielded s"
    using wakeup_fold_ok [OF det(1,2) s ts(1)] ts(2) w unfolding wset_ok_def by blast
  then show ?thesis using True by (simp add: check_wakeup_def returning_def nframe_def)
next
  case False
  then show ?thesis using s w by (simp add: check_wakeup_def returning_def wset_ok_def)
qed

section \<open>The idle thread\<close>

lemma idle_loop_ok:
  assumes det: "enforce_turn_type opt \<ge> 0"
  shows "sinv opt s xs hs \<Longrightarrow> waitq s = kept @ rest \<Longrightarrow> IdleThreadTid \<in> set rest \<Longrightarrow>
     IdleThreadTid \<notin> set xs \<union> set hs \<Longrightarrow>
     \<exists>s'. idle_loop opt seen kept rest s = Inr (Some IdleThreadTid, s') \<and> wframe s s' \<and>
       sinv opt s' (xs @ [IdleThreadTid]) hs \<and> waitq s' = kept @ remove1 IdleThreadTid rest \<and>
       waits s' = (waits s)(IdleThreadTid := wt_reset 0 (waits s IdleThreadTid)) \<and>
       status_of s' = status_of s \<and> yielded s' = yielded s"
proof (induction rest arbitrary: seen kept)
  case (Cons t rest)
  note d = sinvD [OF Cons.prems(1)]
  have t: "t < nthread (tids s)" using d(7) Cons.prems(2) by auto
  show ?case
  proof (cases "t = IdleThreadTid")
    case True
    let ?s1 = "upd_wait t (wt_reset 0) (s\<lparr>waitq := kept @ rest\<rparr>)"
    have s1: "sinv opt ?s1 xs hs" using Cons.prems(1,2) d(6,7) by (simp add: sinv_waitq)
    obtain s2 where "runq_push_back t ?s1 = Inr s2" "sinv opt s2 (xs @ [t]) hs" "qframe ?s1 s2"
        "status_of s2 = status_of ?s1" "yielded s2 = yielded ?s1"
      using runq_push_back_ok [OF s1, of t] t True Cons.prems(4) by auto
    then show ?thesis using True t det by (auto simp: Let_def qframe_def wframe_def fun_eq_iff)
  next
    case False
    then show ?thesis using Cons.IH [OF Cons.prems(1), of "kept @ [t]" "Some t"] Cons.prems t by simp
  qed
qed simp

lemma wakeUpIdleThread_ok:
  assumes det: "enforce_turn_type opt \<ge> 0" and s: "sinv opt s xs hs" and "\<not> idle_done s"
    and idle: "IdleThreadTid \<in> set (waitq s)" "IdleThreadTid \<notin> set xs \<union> set hs"
  shows "\<exists>s'. wakeUpIdleThread opt s = Inr s' \<and> nframe s s' \<and> sinv opt s' (xs @ [IdleThreadTid]) hs \<and>
     waitq s' = remove1 IdleThreadTid (waitq s) \<and>
     waits s' = (waits s)(IdleThreadTid := wt_reset 0 (waits s IdleThreadTid)) \<and>
     non_det_thds s' = non_det_thds s \<and>
     inter_pro_wakeup_tids s' = inter_pro_wakeup_tids s \<and>
     inter_pro_wakeup_flag s' = inter_pro_wakeup_flag s \<and>
     idle_cond_signals s' = idle_cond_signals s + 1 \<and>
     status_of s' = status_of s \<and> yielded s' = yielded s"
proof -
  obtain s' where s': "idle_loop opt None [] (waitq s) s = Inr (Some IdleThreadTid, s')" "wframe s s'"
      "sinv opt s' (xs @ [IdleThreadTid]) hs" "waitq s' = remove1 IdleThreadTid (waitq s)"
      "waits s' = (waits s)(IdleThreadTid := wt_reset 0 (waits s IdleThreadTid))"
      "status_of s' = status_of s" "yielded s' = yielded s"
    using idle_loop_ok [OF det s, of "[]" "waitq s" None] idle by auto
  have "\<not> rq_empty (runq s')" using queues_empty [OF sinvD(1) [OF s'(3)]] by simp
  then show ?thesis
    using s' assms(3) by (simp add: wakeUpIdleThread_def wframe_def nframe_def)
qed

section \<open>Advancing the clock\<close>

text \<open>
  \<open>incTurnCount\<close>: the clock advances by one (modulo \<open>2 ^ 32\<close>), then the threads whose
  deadline has passed are woken, then those that came back from blocking calls.
\<close>

lemma incTurnCount_ok:
  assumes det: "enforce_turn_type opt \<ge> 0" "no_bound opt" "order_ok opt"
    and s: "sinv opt s xs hs" and w: "wset_ok s hs"
    and disj: "set (waitq s) \<inter> (set xs \<union> set hs) = {}"
    and W: "W = expired (s\<lparr>turnCount := turnCount s + 1\<rparr>)"
    and xs1: "xs1 = xs @ filter (\<lambda>t. \<not> to_hp opt t) W"
  shows "\<exists>s'. incTurnCount opt s = Inr (turnCount s, s') \<and> tids s' = tids s \<and>
     turnCount s' = turnCount s + 1 \<and> nNonDetWait s' = nNonDetWait s \<and> idle_done s' = idle_done s \<and>
     inSync s' = inSync s \<and> tid_map (runq s') = tid_map (runq s) \<and>
     sinv opt s' (xs1 @ returning opt s xs1) (hs @ filter (to_hp opt) W) \<and>
     waitq s' = filter (\<lambda>t. t \<notin> set W) (waitq s) \<and>
     waits s' = (\<lambda>t. if t \<in> set W then (wt_reset ETIMEDOUT (waits s t))\<lparr>wake_reason := TIMEDOUT\<rparr>
                     else waits s t) \<and>
     inter_pro_wakeup_tids s' = [] \<and> \<not> inter_pro_wakeup_flag s' \<and>
     status_of s' = status_of s \<and> yielded s' = yielded s"
proof -
  let ?s = "s\<lparr>turnCount := turnCount s + 1\<rparr>"
  obtain n s1 where s1: "fireTimeouts opt ?s = Inr (n, s1)" "wframe ?s s1"
       "sinv opt s1 xs1 (hs @ filter (to_hp opt) W)"
       "waitq s1 = filter (\<lambda>t. t \<notin> set W) (waitq s)"
       "waits s1 = (\<lambda>t. if t \<in> set W then (wt_reset ETIMEDOUT (waits s t))\<lparr>wake_reason := TIMEDOUT\<rparr> else waits s t)"
       "status_of s1 = status_of s" "yielded s1 = yielded s"
    using fireTimeouts_ok [OF det(1), of ?s xs hs W] s disj W unfolding xs1 by (auto cong: if_cong)
  have "set W \<subseteq> set (waitq s)" using W by (auto simp: expired_def)
  then have w1: "wset_ok s1 (hs @ filter (to_hp opt) W)"
    using w s1(2,4) unfolding wset_ok_def wframe_def by auto
  have b: "returning opt s1 xs1 = returning opt s xs1" using s1(2) by (simp add: returning_def wframe_def)
  obtain s2 where s2: "check_wakeup opt s1 = Inr s2" "nframe s1 s2" "waitq s2 = waitq s1" "waits s2 = waits s1"
     "sinv opt s2 (xs1 @ returning opt s1 xs1) (hs @ filter (to_hp opt) W)"
     "inter_pro_wakeup_tids s2 = []" "\<not> inter_pro_wakeup_flag s2"
     "status_of s2 = status_of s1" "yielded s2 = yielded s1"
    using check_wakeup_ok [OF det s1(3) w1] by blast
  have "incTurnCount opt s = Inr (turnCount s, s2)"
    using s1(1) s2(1) by (simp add: incTurnCount_def ser_incTurnCount_def)
  then show ?thesis using s1 s2 b by (simp add: wframe_def nframe_def)
qed

end
