(* ===== verification/SchedTurn.thy ===== *)
theory SchedTurn
  imports SchedWake
begin

text \<open>
  Passing the turn: which thread \<open>nextRunnable\<close> chooses, that its loop ends, and what
  \<open>next\<close>, \<open>putTurn\<close>, \<open>wait\<close> and \<open>block\<close> do to the queues.
\<close>

section \<open>Examining the head of a queue\<close>

definition stopped :: "sched \<Rightarrow> tid \<Rightarrow> bool" where
  "stopped s t \<longleftrightarrow> status_of s t = Some INTER_PRO_STOP"

text \<open>The status a thread has once the turn was passed to it.\<close>

definition running :: "THD_STATUS \<Rightarrow> THD_STATUS" where
  "running st = (if st = RUNNABLE then RUNNING_REG else st)"

lemma pass_head_ok:
  assumes s: "sinv opt s xs hs" and t: "t < nthread (tids s)" "\<not> stopped s t"
  shows "\<exists>s'. pass_head opt (tid_map (runq s) t) s = Inr (t, s') \<and> qframe s s' \<and> sinv opt s' xs hs \<and>
     status_of s' = (status_of s)(t := map_option running (status_of s t)) \<and> yielded s' = yielded s"
proof -
  obtain a e where a: "tid_map (runq s) t = Some a" "cells (heap s) a = Some e" "e_tid e = t"
      "status_of s t = Some (e_status e)"
    using elem_of [OF s t(1)] by metis
  have ne: "e_status e \<noteq> INTER_PRO_STOP" using t(2) a(4) by (simp add: stopped_def)
  then have st: "e_status e = RUNNABLE \<or> e_status e = RUNNING_REG \<or> e_status e = RUNNING_INTER_PRO"
    by (cases "e_status e") auto
  show ?thesis
  proof (cases "e_status e = RUNNABLE")
    case True
    then show ?thesis
      using set_status_ok [OF s a(1), of RUNNING_REG] a st
      by (auto simp: pass_head_def ptr_simps running_def)
  next
    case False
    then have "(status_of s)(t := map_option running (status_of s t)) = status_of s"
      using a(4) by (simp add: running_def fun_upd_idem)
    then show ?thesis using False a s st by (simp add: pass_head_def ptr_simps)
  qed
qed

lemma front_status:
  assumes s: "sinv opt s (t # xs) hs"
  obtains a e where "rq_front_elem (runq s) = Some a" "deref (heap s) (Some a) = Inr e" "e_tid e = t"
    "e_status e = INTER_PRO_STOP \<longleftrightarrow> stopped s t" "tid_map (runq s) t = Some a" "t < nthread (tids s)"
proof -
  have t: "t < nthread (tids s)" using sinv_threads(2) [OF s] by simp
  obtain a e where "tid_map (runq s) t = Some a" "cells (heap s) a = Some e" "e_tid e = t"
      "status_of s t = Some (e_status e)" using elem_of [OF s t] by metis
  then show thesis
    using that t queues_front(2) [OF sinvD(1) [OF s]] by (simp add: ptr_simps stopped_def)
qed

lemma hp_front_status:
  assumes s: "sinv opt s xs (t # hs)"
  obtains a e where "rq_front_elem (hp_runq s) = Some a" "deref (heap s) (Some a) = Inr e" "e_tid e = t"
    "e_status e = INTER_PRO_STOP \<longleftrightarrow> stopped s t" "tid_map (runq s) t = Some a" "t < nthread (tids s)"
proof -
  have t: "t < nthread (tids s)" using sinv_threads(3) [OF s] by simp
  obtain a e where "tid_map (runq s) t = Some a" "cells (heap s) a = Some e" "e_tid e = t"
      "status_of s t = Some (e_status e)" using elem_of [OF s t] by metis
  then show thesis
    using that t queues_front(2) [OF queues_swap [THEN iffD1, OF sinvD(1) [OF s]]]
    by (simp add: ptr_simps stopped_def)
qed

lemma sinv_empty: "sinv opt s xs hs \<Longrightarrow> rq_empty (runq s) \<longleftrightarrow> xs = []"
  using queues_empty sinvD(1) by blast

lemma sinv_hp_empty: "sinv opt s xs hs \<Longrightarrow> rq_empty (hp_runq s) \<longleftrightarrow> hs = []"
  using queues_empty queues_swap sinvD(1) by blast

lemma sinv_size_1: "sinv opt s xs hs \<Longrightarrow> rq_size (runq s) = 1 \<longleftrightarrow> length xs = 1"
  using queues_size [OF sinvD(1)] by (simp add: word_unat_eq_iff)

section \<open>The loop of nextRunnable\<close>

text \<open>When the loop looks at the high-priority queue first.\<close>

definition hp_first :: "options \<Rightarrow> tid \<Rightarrow> nat \<Rightarrow> sched \<Rightarrow> bool" where
  "hp_first opt self strategy s \<longleftrightarrow> policy opt 4 \<and>
     ((strategy = PUTTURN_STRATEGY_CURRENT_THREAD) = woken_up_from_hp_queue_flag (waits s self)) \<and>
     strategy \<noteq> PUTTURN_STRATEGY_CURRENT_ROLE"

text \<open>The idle thread wakes the threads waiting for a non-deterministic region instead.\<close>

definition non_det_release :: "options \<Rightarrow> tid \<Rightarrow> sched \<Rightarrow> bool" where
  "non_det_release opt self s \<longleftrightarrow>
     enforce_non_det_annotations opt \<noteq> 0 \<and> nNonDetWait s > 0 \<and> self = IdleThreadTid"

text \<open>A state the loop may be in: the queues differ, the threads set aside may, nothing else.\<close>

definition lframe :: "sched \<Rightarrow> sched \<Rightarrow> bool" where
  "lframe s s' \<longleftrightarrow> nframe s s' \<and> waitq s' = waitq s \<and> waits s' = waits s \<and>
     inter_pro_wakeup_tids s' = inter_pro_wakeup_tids s \<and>
     inter_pro_wakeup_flag s' = inter_pro_wakeup_flag s \<and>
     idle_cond_signals s' = idle_cond_signals s"

lemma lframe_refl [simp]: "lframe s s"
  by (simp add: lframe_def)

lemma lframe_trans [trans]: "lframe s s' \<Longrightarrow> lframe s' s'' \<Longrightarrow> lframe s s''"
  by (simp add: lframe_def nframe_def)

lemma qframe_lframe: "qframe s s' \<Longrightarrow> lframe s s'"
  by (simp add: qframe_def lframe_def nframe_def)

lemma lframe_nd [simp]: "lframe s (s\<lparr>non_det_thds := n\<rparr>)"
  by (simp add: lframe_def nframe_def)

text \<open>One iteration on a run queue whose head is stopped, or not.\<close>

lemma next_loop_run_stopped:
  assumes nb: "no_bound opt" and s: "sinv opt s (t # xs) hs" and st: "stopped s t"
    and br: "\<not> (hp_first opt self strategy s \<and> hs \<noteq> [])" "strategy \<noteq> PUTTURN_STRATEGY_CURRENT_ROLE"
    and nd: "\<not> non_det_release opt self s"
  shows "\<exists>s'. next_loop (Suc n) opt self ate strategy s = next_loop n opt self ate strategy s' \<and>
     sinv opt s' xs hs \<and> lframe s s' \<and> status_of s' = status_of s"
proof -
  obtain a e where f: "rq_front_elem (runq s) = Some a" "deref (heap s) (Some a) = Inr e" "e_tid e = t"
    "e_status e = INTER_PRO_STOP" using front_status [OF s] st by metis
  obtain s1 where s1: "runq_pop_front s = Inr s1" "sinv opt s1 xs hs" "qframe s s1" "status_of s1 = status_of s"
    using runq_pop_front_ok [OF s] by blast
  obtain m where m: "nd_block opt t s1 = Inr (s1\<lparr>non_det_thds := m\<rparr>)" using nd_block_ok [OF nb] by blast
  have "refill opt self ate strategy s = Inr (False, strategy, s)"
    using nd sinv_empty [OF s] by (auto simp: refill_def non_det_release_def)
  then have "next_loop (Suc n) opt self ate strategy s = next_loop n opt self ate strategy (s1\<lparr>non_det_thds := m\<rparr>)"
    using br f s1(1) m sinv_empty [OF s] sinv_hp_empty [OF s]
    by (auto simp: next_loop.simps hp_first_def Let_def)
  then show ?thesis
    using s1 lframe_trans [OF qframe_lframe [OF s1(3)] lframe_nd] by auto
qed

lemma next_loop_run_pass:
  assumes s: "sinv opt s (t # xs) hs" and st: "\<not> stopped s t"
    and br: "\<not> (hp_first opt self strategy s \<and> hs \<noteq> [])" "strategy \<noteq> PUTTURN_STRATEGY_CURRENT_ROLE"
    and nd: "\<not> non_det_release opt self s"
  shows "\<exists>s'. next_loop (Suc n) opt self ate strategy s = Inr (Some t, s') \<and> sinv opt s' (t # xs) hs \<and>
     qframe s s' \<and> status_of s' = (status_of s)(t := map_option running (status_of s t))"
proof -
  obtain a e where f: "rq_front_elem (runq s) = Some a" "deref (heap s) (Some a) = Inr e" "e_tid e = t"
    "e_status e \<noteq> INTER_PRO_STOP" "tid_map (runq s) t = Some a" "t < nthread (tids s)"
    using front_status [OF s] st by metis
  obtain s1 where s1: "pass_head opt (Some a) s = Inr (t, s1)" "qframe s s1" "sinv opt s1 (t # xs) hs"
     "status_of s1 = (status_of s)(t := map_option running (status_of s t))"
    using pass_head_ok [OF s f(6) st] f(5) by auto
  have "refill opt self ate strategy s = Inr (False, strategy, s)"
    using nd sinv_empty [OF s] by (auto simp: refill_def non_det_release_def)
  then have "next_loop (Suc n) opt self ate strategy s = Inr (Some t, s1)"
    using br f s1(1) sinv_empty [OF s] sinv_hp_empty [OF s]
    by (auto simp: next_loop.simps hp_first_def Let_def)
  then show ?thesis using s1 by blast
qed

lemma hp_first_cong: "lframe s s' \<Longrightarrow> hp_first opt self strategy s' = hp_first opt self strategy s"
  by (simp add: hp_first_def lframe_def)

lemma release_cong: "lframe s s' \<Longrightarrow> non_det_release opt self s' = non_det_release opt self s"
  by (simp add: non_det_release_def lframe_def nframe_def)

lemma stopped_cong: "status_of s' = status_of s \<Longrightarrow> stopped s' = stopped s"
  by (simp add: stopped_def fun_eq_iff)

text \<open>Stopped threads at the front of the run queue are dropped one by one.\<close>

lemma next_loop_run_drop:
  assumes nb: "no_bound opt" and br: "strategy \<noteq> PUTTURN_STRATEGY_CURRENT_ROLE"
  shows "sinv opt s (us @ ys) hs \<Longrightarrow> \<forall>t \<in> set us. stopped s t \<Longrightarrow>
     \<not> (hp_first opt self strategy s \<and> hs \<noteq> []) \<Longrightarrow> \<not> non_det_release opt self s \<Longrightarrow>
     \<exists>s'. next_loop (length us + n) opt self ate strategy s = next_loop n opt self ate strategy s' \<and>
       sinv opt s' ys hs \<and> lframe s s' \<and> status_of s' = status_of s"
proof (induction us arbitrary: s)
  case (Cons t us)
  obtain s1 where s1: "next_loop (Suc (length us + n)) opt self ate strategy s =
      next_loop (length us + n) opt self ate strategy s1"
      "sinv opt s1 (us @ ys) hs" "lframe s s1" "status_of s1 = status_of s"
    using next_loop_run_stopped [OF nb, of s t "us @ ys" hs self strategy "length us + n" ate] Cons.prems br
    by auto
  obtain s' where s': "next_loop (length us + n) opt self ate strategy s1 = next_loop n opt self ate strategy s'"
      "sinv opt s' ys hs" "lframe s1 s'" "status_of s' = status_of s1"
    using Cons.IH [OF s1(2)] Cons.prems stopped_cong [OF s1(4)] hp_first_cong [OF s1(3)] release_cong [OF s1(3)]
    by auto
  show ?case using s1 s' lframe_trans [OF s1(3) s'(3)] by auto
qed auto

lemma next_loop_hp_stopped:
  assumes nb: "no_bound opt" and s: "sinv opt s xs (t # hs)" and st: "stopped s t"
    and br: "hp_first opt self strategy s"
  shows "\<exists>s'. next_loop (Suc n) opt self ate strategy s = next_loop n opt self ate strategy s' \<and>
     sinv opt s' xs hs \<and> lframe s s' \<and> status_of s' = status_of s"
proof -
  obtain a e where f: "rq_front_elem (hp_runq s) = Some a" "deref (heap s) (Some a) = Inr e" "e_tid e = t"
    "e_status e = INTER_PRO_STOP" using hp_front_status [OF s] st by metis
  obtain s1 where s1: "hp_pop_front s = Inr s1" "sinv opt s1 xs hs" "qframe s s1" "status_of s1 = status_of s"
    using hp_pop_front_ok [OF s] by blast
  obtain m where m: "nd_block opt t s1 = Inr (s1\<lparr>non_det_thds := m\<rparr>)" using nd_block_ok [OF nb] by blast
  have "next_loop (Suc n) opt self ate strategy s = next_loop n opt self ate strategy (s1\<lparr>non_det_thds := m\<rparr>)"
    using br f s1(1) m sinv_hp_empty [OF s] by (auto simp: next_loop.simps hp_first_def Let_def)
  then show ?thesis using s1 lframe_trans [OF qframe_lframe [OF s1(3)] lframe_nd] by auto
qed

lemma next_loop_hp_drop:
  assumes nb: "no_bound opt"
  shows "sinv opt s xs (us @ ys) \<Longrightarrow> \<forall>t \<in> set us. stopped s t \<Longrightarrow> hp_first opt self strategy s \<Longrightarrow>
     \<exists>s'. next_loop (length us + n) opt self ate strategy s = next_loop n opt self ate strategy s' \<and>
       sinv opt s' xs ys \<and> lframe s s' \<and> status_of s' = status_of s"
proof (induction us arbitrary: s)
  case (Cons t us)
  obtain s1 where s1: "next_loop (Suc (length us + n)) opt self ate strategy s =
      next_loop (length us + n) opt self ate strategy s1"
      "sinv opt s1 xs (us @ ys)" "lframe s s1" "status_of s1 = status_of s"
    using next_loop_hp_stopped [OF nb, of s xs t "us @ ys" self strategy "length us + n" ate] Cons.prems
    by auto
  obtain s' where s': "next_loop (length us + n) opt self ate strategy s1 = next_loop n opt self ate strategy s'"
      "sinv opt s' xs ys" "lframe s1 s'" "status_of s' = status_of s1"
    using Cons.IH [OF s1(2)] Cons.prems stopped_cong [OF s1(4)] hp_first_cong [OF s1(3)] by auto
  show ?case using s1 s' lframe_trans [OF s1(3) s'(3)] by auto
qed auto

lemma next_loop_hp_pass:
  assumes s: "sinv opt s xs (t # hs)" and st: "\<not> stopped s t" and br: "hp_first opt self strategy s"
  shows "\<exists>s' s1. next_loop (Suc n) opt self ate strategy s = Inr (Some t, s') \<and> sinv opt s' xs (t # hs) \<and>
     qframe s s1 \<and> s' = upd_wait t (\<lambda>w. w\<lparr>woken_up_from_hp_queue_flag := True\<rparr>) s1 \<and>
     status_of s' = (status_of s)(t := map_option running (status_of s t))"
proof -
  obtain a e where f: "rq_front_elem (hp_runq s) = Some a" "deref (heap s) (Some a) = Inr e" "e_tid e = t"
    "e_status e \<noteq> INTER_PRO_STOP" "tid_map (runq s) t = Some a" "t < nthread (tids s)"
    using hp_front_status [OF s] st by metis
  obtain s1 where s1: "pass_head opt (Some a) s = Inr (t, s1)" "qframe s s1" "sinv opt s1 xs (t # hs)"
     "status_of s1 = (status_of s)(t := map_option running (status_of s t))"
    using pass_head_ok [OF s f(6) st] f(5) by auto
  have "next_loop (Suc n) opt self ate strategy s =
      Inr (Some t, upd_wait t (\<lambda>w. w\<lparr>woken_up_from_hp_queue_flag := True\<rparr>) s1)"
    using br f s1(1) sinv_hp_empty [OF s] by (auto simp: next_loop.simps hp_first_def Let_def)
  then show ?thesis using s1 by auto
qed

text \<open>With both queues exhausted the loop ends the program or turns to the idle thread.\<close>

lemma next_loop_end:
  assumes s: "sinv opt s [] hs" and br: "\<not> (hp_first opt self strategy s \<and> hs \<noteq> [])"
    and e: "ate" "waitq s = [] \<or> self = MainThreadTid"
  shows "next_loop (Suc n) opt self ate strategy s = Inr (None, s)"
  using br e sinv_empty [OF s] sinv_hp_empty [OF s]
  by (auto simp: next_loop.simps hp_first_def refill_def)

lemma next_loop_no_idle:
  assumes s: "sinv opt s [] hs" and br: "\<not> (hp_first opt self strategy s \<and> hs \<noteq> [])"
    and e: "\<not> (ate \<and> (waitq s = [] \<or> self = MainThreadTid))" and "launch_idle_thread opt = 0"
  shows "next_loop (Suc n) opt self ate strategy s = Inl (ExitProcess 1)"
  using assms sinv_empty [OF s] sinv_hp_empty [OF s]
  by (auto simp: next_loop.simps hp_first_def refill_def)

lemma next_loop_idle:
  assumes det: "enforce_turn_type opt \<ge> 0" and s: "sinv opt s [] hs"
    and br: "\<not> (hp_first opt self strategy s \<and> hs \<noteq> [])"
    and e: "\<not> (ate \<and> (waitq s = [] \<or> self = MainThreadTid))" "launch_idle_thread opt \<noteq> 0"
    and idle: "\<not> idle_done s" "IdleThreadTid \<in> set (waitq s)" "IdleThreadTid \<notin> set hs"
      "\<not> stopped s IdleThreadTid" "self \<noteq> IdleThreadTid"
  shows "\<exists>s'. next_loop (Suc n) opt self ate strategy s = Inr (Some IdleThreadTid, s') \<and>
     sinv opt s' [IdleThreadTid] hs \<and> nframe s s' \<and> waitq s' = remove1 IdleThreadTid (waitq s) \<and>
     waits s' = (waits s)(IdleThreadTid := wt_reset 0 (waits s IdleThreadTid)) \<and>
     inter_pro_wakeup_tids s' = inter_pro_wakeup_tids s \<and>
     inter_pro_wakeup_flag s' = inter_pro_wakeup_flag s \<and>
     idle_cond_signals s' = idle_cond_signals s + 1 \<and>
     status_of s' = (status_of s)(IdleThreadTid := map_option running (status_of s IdleThreadTid))"
proof -
  obtain s1 where s1: "wakeUpIdleThread opt s = Inr s1" "nframe s s1" "sinv opt s1 [IdleThreadTid] hs"
     "waitq s1 = remove1 IdleThreadTid (waitq s)"
     "waits s1 = (waits s)(IdleThreadTid := wt_reset 0 (waits s IdleThreadTid))"
     "inter_pro_wakeup_tids s1 = inter_pro_wakeup_tids s" "inter_pro_wakeup_flag s1 = inter_pro_wakeup_flag s"
     "idle_cond_signals s1 = idle_cond_signals s + 1" "status_of s1 = status_of s"
    using wakeUpIdleThread_ok [OF det s idle(1,2)] idle(3) by auto
  have st: "\<not> stopped s1 IdleThreadTid" using idle(4) s1(9) by (simp add: stopped_def)
  obtain a el where f: "rq_front_elem (runq s1) = Some a" "deref (heap s1) (Some a) = Inr el"
    "e_status el \<noteq> INTER_PRO_STOP" "tid_map (runq s1) IdleThreadTid = Some a" "IdleThreadTid < nthread (tids s1)"
    using front_status [OF s1(3)] st by metis
  obtain s2 where s2: "pass_head opt (Some a) s1 = Inr (IdleThreadTid, s2)" "qframe s1 s2"
     "sinv opt s2 [IdleThreadTid] hs"
     "status_of s2 = (status_of s1)(IdleThreadTid := map_option running (status_of s1 IdleThreadTid))"
    using pass_head_ok [OF s1(3) f(5) st] f(4) by auto
  have "refill opt self ate strategy s = Inr (False, 0, s1)"
    using e idle(5) s1(1) sinv_empty [OF s] by (auto simp: refill_def)
  then have "next_loop (Suc n) opt self ate strategy s = Inr (Some IdleThreadTid, s2)"
    using br f s2(1) sinv_empty [OF s] sinv_hp_empty [OF s] sinv_empty [OF s1(3)]
    by (auto simp: next_loop.simps hp_first_def Let_def)
  then show ?thesis using s1 s2 by (auto simp: qframe_def nframe_def)
qed

section \<open>The choice of nextRunnable\<close>

lemma next_bound_eq: "sinv opt s xs hs \<Longrightarrow> next_bound s = length xs + length hs + length (waitq s) + 2"
  using queues_size [OF sinvD(1), of opt s xs hs]
    queues_size [OF queues_swap [THEN iffD1, OF sinvD(1)], of opt s xs hs]
  by (simp add: next_bound_def)

lemma takeWhile_stopped: "\<forall>t \<in> set (takeWhile P xs). P t"
  using set_takeWhileD by fastforce

text \<open>From the high-priority queue, when it comes first and a thread on it is not stopped.\<close>

lemma nextRunnable_hp:
  assumes nb: "no_bound opt" and s: "sinv opt s xs hs" and br: "hp_first opt self strategy s"
    and hs: "dropWhile (stopped s) hs = t # ys"
  shows "\<exists>s'. nextRunnable opt self ate strategy s = Inr (Some t, s') \<and> sinv opt s' xs (t # ys) \<and>
     nframe s s' \<and> waitq s' = waitq s \<and>
     waits s' = (waits s)(t := (waits s t)\<lparr>woken_up_from_hp_queue_flag := True\<rparr>) \<and>
     inter_pro_wakeup_tids s' = inter_pro_wakeup_tids s \<and>
     inter_pro_wakeup_flag s' = inter_pro_wakeup_flag s \<and>
     status_of s' = (status_of s)(t := map_option running (status_of s t))"
proof -
  let ?us = "takeWhile (stopped s) hs"
  have eq: "hs = ?us @ t # ys" using hs by (metis takeWhile_dropWhile_id)
  have t: "\<not> stopped s t" using hs by (metis dropWhile_eq_Cons_conv)
  define n where "n = length xs + length ys + length (waitq s) + 2"
  have len: "length hs = length ?us + Suc (length ys)" by (subst eq) (simp only: length_append list.size)
  have fuel: "next_bound s = length ?us + Suc n"
    using next_bound_eq [OF s] len by (simp add: n_def)
  obtain s1 where s1: "next_loop (length ?us + Suc n) opt self ate strategy s = next_loop (Suc n) opt self ate strategy s1"
      "sinv opt s1 xs (t # ys)" "lframe s s1" "status_of s1 = status_of s"
    using next_loop_hp_drop [OF nb, of s xs ?us "t # ys" self strategy "Suc n" ate] s eq takeWhile_stopped br
    by metis
  have "hp_first opt self strategy s1" "\<not> stopped s1 t"
    using br t hp_first_cong [OF s1(3)] stopped_cong [OF s1(4)] by simp_all
  then obtain s' s2 where s': "next_loop (Suc n) opt self ate strategy s1 = Inr (Some t, s')" "sinv opt s' xs (t # ys)"
     "qframe s1 s2" "s' = upd_wait t (\<lambda>w. w\<lparr>woken_up_from_hp_queue_flag := True\<rparr>) s2"
     "status_of s' = (status_of s1)(t := map_option running (status_of s1 t))"
    using next_loop_hp_pass [OF s1(2)] by blast
  have "nextRunnable opt self ate strategy s = Inr (Some t, s')"
    using s1(1) s'(1) fuel by (simp add: nextRunnable_def)
  then show ?thesis using s1(3,4) s' by (auto simp: lframe_def qframe_def nframe_def)
qed

text \<open>
  From the run queue otherwise: the first thread on it that is not stopped in a blocking call.
  The high-priority queue is then either not consulted or has been emptied.
\<close>

lemma nextRunnable_prefix:
  assumes nb: "no_bound opt" and s: "sinv opt s xs hs"
    and role: "strategy \<noteq> PUTTURN_STRATEGY_CURRENT_ROLE"
    and br: "hp_first opt self strategy s \<Longrightarrow> \<forall>t \<in> set hs. stopped s t"
    and hs': "hs' = (if hp_first opt self strategy s then [] else hs)"
    and xs: "xs = us @ ys" "\<forall>t \<in> set us. stopped s t" and nd: "us = [] \<or> \<not> non_det_release opt self s"
  shows "\<exists>s' n. nextRunnable opt self ate strategy s = next_loop (Suc n) opt self ate strategy s' \<and>
     sinv opt s' ys hs' \<and> lframe s s' \<and> status_of s' = status_of s"
proof -
  define n where "n = length us + (length ys + length (waitq s) + 2)"
  have fuel: "next_bound s = length hs + n" using next_bound_eq [OF s] xs(1) by (simp add: n_def)
  obtain s1 m where s1: "nextRunnable opt self ate strategy s = next_loop (m + n) opt self ate strategy s1"
      "sinv opt s1 xs hs'" "lframe s s1" "status_of s1 = status_of s"
  proof (cases "hp_first opt self strategy s")
    case True
    then have "hs' = []" using hs' by simp
    then show thesis
      using that [of 0] next_loop_hp_drop [OF nb, of s xs hs "[]" self strategy n ate] s br True fuel
      unfolding nextRunnable_def by auto
  next
    case False
    then show thesis using that [of "length hs" s] s fuel hs' unfolding nextRunnable_def by simp
  qed
  have no: "\<not> (hp_first opt self strategy s1 \<and> hs' \<noteq> [])" using hs' hp_first_cong [OF s1(3)] by simp
  have len: "m + n = length us + Suc (m + length ys + length (waitq s) + 1)" by (simp add: n_def)
  show ?thesis
  proof (cases "us = []")
    case True
    then show ?thesis using s1 xs(1) len by auto
  next
    case False
    then have "\<not> non_det_release opt self s1" using nd release_cong [OF s1(3)] by simp
    then obtain s2 where "next_loop (m + n) opt self ate strategy s1 =
        next_loop (Suc (m + length ys + length (waitq s) + 1)) opt self ate strategy s2"
        "sinv opt s2 ys hs'" "lframe s1 s2" "status_of s2 = status_of s1"
      using next_loop_run_drop [OF nb role, of s1 us ys hs' self] s1(2) xs stopped_cong [OF s1(4)] no
      unfolding len by metis
    then show ?thesis using s1 lframe_trans by metis
  qed
qed

lemma nextRunnable_run:
  assumes nb: "no_bound opt" and s: "sinv opt s xs hs"
    and role: "strategy \<noteq> PUTTURN_STRATEGY_CURRENT_ROLE"
    and br: "hp_first opt self strategy s \<Longrightarrow> \<forall>t \<in> set hs. stopped s t"
    and hs': "hs' = (if hp_first opt self strategy s then [] else hs)"
    and nd: "\<not> non_det_release opt self s" and xs: "dropWhile (stopped s) xs = t # ys"
  shows "\<exists>s'. nextRunnable opt self ate strategy s = Inr (Some t, s') \<and> sinv opt s' (t # ys) hs' \<and>
     lframe s s' \<and> status_of s' = (status_of s)(t := map_option running (status_of s t))"
proof -
  have eq: "xs = takeWhile (stopped s) xs @ t # ys" using xs by (metis takeWhile_dropWhile_id)
  have t: "\<not> stopped s t" using xs by (metis dropWhile_eq_Cons_conv)
  obtain s1 n where s1: "nextRunnable opt self ate strategy s = next_loop (Suc n) opt self ate strategy s1"
     "sinv opt s1 (t # ys) hs'" "lframe s s1" "status_of s1 = status_of s"
    using nextRunnable_prefix [OF nb s role br hs' eq takeWhile_stopped] nd by blast
  have "\<not> (hp_first opt self strategy s1 \<and> hs' \<noteq> [])" using hs' hp_first_cong [OF s1(3)] by simp
  moreover have "\<not> stopped s1 t" "\<not> non_det_release opt self s1"
    using t nd stopped_cong [OF s1(4)] release_cong [OF s1(3)] by simp_all
  ultimately show ?thesis
    using next_loop_run_pass [OF s1(2) _ _ role] s1 lframe_trans [OF s1(3)] qframe_lframe by metis
qed

text \<open>With every thread stopped: the end of the program, a missing idle thread, or the idle thread.\<close>

lemma nextRunnable_end:
  assumes nb: "no_bound opt" and s: "sinv opt s xs hs"
    and role: "strategy \<noteq> PUTTURN_STRATEGY_CURRENT_ROLE"
    and all: "\<forall>t \<in> set xs \<union> set hs. stopped s t" and nd: "\<not> non_det_release opt self s"
    and e: "waitq s = [] \<or> self = MainThreadTid"
  shows "\<exists>s'. nextRunnable opt self True strategy s = Inr (None, s') \<and> lframe s s' \<and> status_of s' = status_of s \<and>
    (\<exists>hs'. sinv opt s' [] hs')"
proof -
  define hs' where "hs' = (if hp_first opt self strategy s then [] else hs)"
  obtain s1 n where s1: "nextRunnable opt self True strategy s = next_loop (Suc n) opt self True strategy s1"
     "sinv opt s1 [] hs'" "lframe s s1" "status_of s1 = status_of s"
    using nextRunnable_prefix [OF nb s role _ hs'_def, of xs "[]" True] all nd by auto
  have no: "\<not> (hp_first opt self strategy s1 \<and> hs' \<noteq> [])" using hs'_def hp_first_cong [OF s1(3)] by simp
  have w: "waitq s1 = [] \<or> self = MainThreadTid" using e s1(3) by (simp add: lframe_def)
  have "next_loop (Suc n) opt self True strategy s1 = Inr (None, s1)"
    by (rule next_loop_end [OF s1(2) no _ w]) simp
  then show ?thesis using s1 by auto
qed

lemma nextRunnable_stuck:
  assumes nb: "no_bound opt" and s: "sinv opt s xs hs"
    and role: "strategy \<noteq> PUTTURN_STRATEGY_CURRENT_ROLE"
    and all: "\<forall>t \<in> set xs \<union> set hs. stopped s t" and nd: "\<not> non_det_release opt self s"
    and e: "\<not> (ate \<and> (waitq s = [] \<or> self = MainThreadTid))" "launch_idle_thread opt = 0"
  shows "nextRunnable opt self ate strategy s = Inl (ExitProcess 1)"
proof -
  define hs' where "hs' = (if hp_first opt self strategy s then [] else hs)"
  obtain s1 n where s1: "nextRunnable opt self ate strategy s = next_loop (Suc n) opt self ate strategy s1"
     "sinv opt s1 [] hs'" "lframe s s1" "status_of s1 = status_of s"
    using nextRunnable_prefix [OF nb s role _ hs'_def, of xs "[]" ate] all nd by auto
  have no: "\<not> (hp_first opt self strategy s1 \<and> hs' \<noteq> [])" using hs'_def hp_first_cong [OF s1(3)] by simp
  have "\<not> (ate \<and> (waitq s1 = [] \<or> self = MainThreadTid))" using e(1) s1(3) by (simp add: lframe_def)
  then show ?thesis using next_loop_no_idle [OF s1(2) no _ e(2)] s1(1) by simp
qed

lemma nextRunnable_idle:
  assumes det: "enforce_turn_type opt \<ge> 0" "no_bound opt" and s: "sinv opt s xs hs"
    and role: "strategy \<noteq> PUTTURN_STRATEGY_CURRENT_ROLE"
    and all: "\<forall>t \<in> set xs \<union> set hs. stopped s t" and hs': "hs' = (if hp_first opt self strategy s then [] else hs)"
    and nd: "\<not> non_det_release opt self s"
    and e: "\<not> (ate \<and> (waitq s = [] \<or> self = MainThreadTid))" "launch_idle_thread opt \<noteq> 0"
    and idle: "\<not> idle_done s" "IdleThreadTid \<in> set (waitq s)" "IdleThreadTid \<notin> set hs"
      "\<not> stopped s IdleThreadTid" "self \<noteq> IdleThreadTid"
  shows "\<exists>s'. nextRunnable opt self ate strategy s = Inr (Some IdleThreadTid, s') \<and>
     sinv opt s' [IdleThreadTid] hs' \<and> nframe s s' \<and> waitq s' = remove1 IdleThreadTid (waitq s) \<and>
     waits s' = (waits s)(IdleThreadTid := wt_reset 0 (waits s IdleThreadTid)) \<and>
     inter_pro_wakeup_tids s' = inter_pro_wakeup_tids s \<and>
     inter_pro_wakeup_flag s' = inter_pro_wakeup_flag s \<and>
     idle_cond_signals s' = idle_cond_signals s + 1 \<and>
     status_of s' = (status_of s)(IdleThreadTid := map_option running (status_of s IdleThreadTid))"
proof -
  obtain s1 n where s1: "nextRunnable opt self ate strategy s = next_loop (Suc n) opt self ate strategy s1"
     "sinv opt s1 [] hs'" "lframe s s1" "status_of s1 = status_of s"
    using nextRunnable_prefix [OF det(2) s role _ hs', of xs "[]" ate] all nd by auto
  have fr: "waitq s1 = waitq s" "waits s1 = waits s" "idle_done s1 = idle_done s"
      "inter_pro_wakeup_tids s1 = inter_pro_wakeup_tids s" "inter_pro_wakeup_flag s1 = inter_pro_wakeup_flag s"
      "idle_cond_signals s1 = idle_cond_signals s" "nframe s s1"
    using s1(3) by (simp_all add: lframe_def nframe_def)
  have no: "\<not> (hp_first opt self strategy s1 \<and> hs' \<noteq> [])" using hs' hp_first_cong [OF s1(3)] by simp
  have hs2: "IdleThreadTid \<notin> set hs'" using hs' idle(3) by simp
  have st: "\<not> stopped s1 IdleThreadTid" using idle(4) stopped_cong [OF s1(4)] by simp
  have e1: "\<not> (ate \<and> (waitq s1 = [] \<or> self = MainThreadTid))" using e(1) fr(1) by simp
  have i1: "\<not> idle_done s1" "IdleThreadTid \<in> set (waitq s1)" using idle(1,2) fr(1,3) by simp_all
  note idle_step = next_loop_idle [OF det(1) s1(2) no e1 e(2) i1 hs2 st idle(5), of n]
  then obtain s2 where s2: "next_loop (Suc n) opt self ate strategy s1 = Inr (Some IdleThreadTid, s2)"
     "sinv opt s2 [IdleThreadTid] hs'" "nframe s1 s2" "waitq s2 = remove1 IdleThreadTid (waitq s1)"
     "waits s2 = (waits s1)(IdleThreadTid := wt_reset 0 (waits s1 IdleThreadTid))"
     "inter_pro_wakeup_tids s2 = inter_pro_wakeup_tids s1"
     "inter_pro_wakeup_flag s2 = inter_pro_wakeup_flag s1" "idle_cond_signals s2 = idle_cond_signals s1 + 1"
     "status_of s2 = (status_of s1)(IdleThreadTid := map_option running (status_of s1 IdleThreadTid))" by blast
  show ?thesis
    using s1(1,4) s2 fr nframe_trans [OF fr(7) s2(3)] by (intro exI [of _ s2]) simp
qed

text \<open>
  Under the role strategy the queue is rotated until a thread of the same role is in front;
  stopped threads met on the way are dropped.
\<close>

definition has_role :: "sched \<Rightarrow> nat \<Rightarrow> tid \<Rightarrow> bool" where
  "has_role s r t \<longleftrightarrow> t_r_map (tids s) t = Some r"

lemma role_drop_one:
  assumes nb: "no_bound opt" and self: "has_role s r self" and s: "sinv opt s (u # xs) hs" and u: "stopped s u"
  shows "\<exists>s'. next_loop (Suc n) opt self ate PUTTURN_STRATEGY_CURRENT_ROLE s =
       next_loop n opt self ate PUTTURN_STRATEGY_CURRENT_ROLE s' \<and>
     sinv opt s' xs hs \<and> lframe s s' \<and> status_of s' = status_of s"
proof -
  obtain a e where f: "rq_front_elem (runq s) = Some a" "deref (heap s) (Some a) = Inr e" "e_tid e = u"
    "e_status e = INTER_PRO_STOP \<longleftrightarrow> stopped s u" using front_status [OF s] by metis
  obtain s1 where s1: "runq_pop_front s = Inr s1" "sinv opt s1 xs hs" "qframe s s1" "status_of s1 = status_of s"
    using runq_pop_front_ok [OF s] by blast
  obtain m where m: "nd_block opt u s1 = Inr (s1\<lparr>non_det_thds := m\<rparr>)" using nd_block_ok [OF nb] by blast
  have "next_loop (Suc n) opt self ate PUTTURN_STRATEGY_CURRENT_ROLE s =
      next_loop n opt self ate PUTTURN_STRATEGY_CURRENT_ROLE (s1\<lparr>non_det_thds := m\<rparr>)"
    using f s1(1) m self u sinv_empty [OF s] by (simp add: next_loop.simps(2) Let_def tm_getRoleid_def has_role_def)
  then show ?thesis
    using s1(2,4) lframe_trans [OF qframe_lframe [OF s1(3)] lframe_nd [of s1 m]]
    by (intro exI [of _ "s1\<lparr>non_det_thds := m\<rparr>"]) simp
qed

lemma role_skip_one:
  assumes self: "has_role s r self" and s: "sinv opt s (u # xs) hs" and u: "\<not> stopped s u" "has_role s r' u" "r' \<noteq> r"
  shows "\<exists>s'. next_loop (Suc n) opt self ate PUTTURN_STRATEGY_CURRENT_ROLE s =
       next_loop n opt self ate PUTTURN_STRATEGY_CURRENT_ROLE s' \<and>
     sinv opt s' (xs @ [u]) hs \<and> lframe s s' \<and> status_of s' = status_of s"
proof -
  obtain a e where f: "rq_front_elem (runq s) = Some a" "deref (heap s) (Some a) = Inr e" "e_tid e = u"
    "e_status e = INTER_PRO_STOP \<longleftrightarrow> stopped s u" using front_status [OF s] by metis
  obtain s1 where s1: "runq_pop_front s = Inr s1" "sinv opt s1 xs hs" "qframe s s1" "status_of s1 = status_of s"
    using runq_pop_front_ok [OF s] by blast
  have "u < nthread (tids s1)" "u \<notin> set xs" "u \<notin> set hs" using sinv_threads(1,2) [OF s] s1(3) by (auto simp: qframe_def)
  then obtain s2 where s2: "runq_push_back u s1 = Inr s2" "sinv opt s2 (xs @ [u]) hs" "qframe s1 s2"
      "status_of s2 = status_of s1" using runq_push_back_ok [OF s1(2)] by blast
  have "next_loop (Suc n) opt self ate PUTTURN_STRATEGY_CURRENT_ROLE s =
      next_loop n opt self ate PUTTURN_STRATEGY_CURRENT_ROLE s2"
    using f s1(1) s2(1) self u sinv_empty [OF s] by (simp add: next_loop.simps(2) Let_def tm_getRoleid_def has_role_def)
  then show ?thesis
    using s1(4) s2(2,4) lframe_trans [OF qframe_lframe [OF s1(3)] qframe_lframe [OF s2(3)]] by (intro exI [of _ s2]) simp
qed

lemma has_role_cong: "lframe s s' \<Longrightarrow> has_role s' = has_role s"
  by (simp add: has_role_def lframe_def nframe_def fun_eq_iff)

lemma next_loop_role:
  assumes nb: "no_bound opt"
  shows "sinv opt s (us @ t # vs) hs \<Longrightarrow> has_role s r self \<Longrightarrow> \<not> stopped s t \<Longrightarrow> has_role s r t \<Longrightarrow>
     \<forall>u \<in> set us. stopped s u \<or> (\<exists>r'. has_role s r' u \<and> r' \<noteq> r) \<Longrightarrow>
     \<exists>s'. next_loop (length us + Suc n) opt self ate PUTTURN_STRATEGY_CURRENT_ROLE s = Inr (Some t, s') \<and>
       sinv opt s' (t # vs @ filter (\<lambda>u. \<not> stopped s u) us) hs \<and> lframe s s' \<and>
       status_of s' = (status_of s)(t := map_option running (status_of s t))"
proof (induction us arbitrary: s vs)
  case Nil
  have s: "sinv opt s (t # vs) hs" using Nil by simp
  obtain a e where f: "rq_front_elem (runq s) = Some a" "deref (heap s) (Some a) = Inr e" "e_tid e = t"
    "e_status e \<noteq> INTER_PRO_STOP" "tid_map (runq s) t = Some a" "t < nthread (tids s)"
    using front_status [OF s] Nil(3) by metis
  obtain s1 where s1: "pass_head opt (Some a) s = Inr (t, s1)" "qframe s s1" "sinv opt s1 (t # vs) hs"
     "status_of s1 = (status_of s)(t := map_option running (status_of s t))"
    using pass_head_ok [OF s f(6) Nil(3)] f(5) by auto
  have "next_loop (Suc n) opt self ate PUTTURN_STRATEGY_CURRENT_ROLE s = Inr (Some t, s1)"
    using f s1(1) Nil(2,4) sinv_empty [OF s] by (simp add: next_loop.simps Let_def tm_getRoleid_def has_role_def)
  then show ?case using s1 qframe_lframe [OF s1(2)] by (simp add: fun_upd_def)
next
  case (Cons u us)
  have s: "sinv opt s (u # (us @ t # vs)) hs" using Cons.prems(1) by simp
  obtain s1 vs' where s1: "next_loop (Suc (length us + Suc n)) opt self ate PUTTURN_STRATEGY_CURRENT_ROLE s =
       next_loop (length us + Suc n) opt self ate PUTTURN_STRATEGY_CURRENT_ROLE s1"
     "sinv opt s1 (us @ t # vs @ filter (\<lambda>u. \<not> stopped s u) [u]) hs" "lframe s s1" "status_of s1 = status_of s"
  proof (cases "stopped s u")
    case True
    then show thesis using that role_drop_one [OF nb Cons.prems(2) s True] by auto
  next
    case False
    then obtain r' where r': "has_role s r' u" "r' \<noteq> r" using Cons.prems(5) by auto
    show thesis using that role_skip_one [OF Cons.prems(2) s False r', of "length us + Suc n" ate] False by auto
  qed
  note c = has_role_cong [OF s1(3)] stopped_cong [OF s1(4)]
  have "filter (\<lambda>u. \<not> stopped s u) (u # us) = filter (\<lambda>u. \<not> stopped s u) [u] @ filter (\<lambda>u. \<not> stopped s u) us" by simp
  then show ?case
    using Cons.IH [OF s1(2)] Cons.prems s1(1,4) c lframe_trans [OF s1(3)] by fastforce
qed

lemma nextRunnable_role:
  assumes nb: "no_bound opt" and s: "sinv opt s (us @ t # vs) hs"
    and self: "has_role s r self" and t: "\<not> stopped s t" "has_role s r t"
    and us: "\<forall>u \<in> set us. stopped s u \<or> (\<exists>r'. has_role s r' u \<and> r' \<noteq> r)"
  shows "\<exists>s'. nextRunnable opt self ate PUTTURN_STRATEGY_CURRENT_ROLE s = Inr (Some t, s') \<and>
       sinv opt s' (t # vs @ filter (\<lambda>u. \<not> stopped s u) us) hs \<and> lframe s s' \<and>
       status_of s' = (status_of s)(t := map_option running (status_of s t))"
proof -
  have "next_bound s = length us + Suc (length vs + length hs + length (waitq s) + 2)"
    using next_bound_eq [OF s] by simp
  then show ?thesis
    using next_loop_role [OF nb s self t us] unfolding nextRunnable_def by metis
qed

text \<open>When dropping the stopped threads empties the queue, the strategy no longer matters.\<close>

lemma next_loop_role_drop:
  assumes nb: "no_bound opt"
  shows "sinv opt s us hs \<Longrightarrow> has_role s r self \<Longrightarrow> \<forall>u \<in> set us. stopped s u \<Longrightarrow>
     \<exists>s'. next_loop (length us + n) opt self ate PUTTURN_STRATEGY_CURRENT_ROLE s =
         next_loop n opt self ate PUTTURN_STRATEGY_CURRENT_ROLE s' \<and>
       sinv opt s' [] hs \<and> lframe s s' \<and> status_of s' = status_of s"
proof (induction us arbitrary: s)
  case Nil
  then show ?case by auto
next
  case (Cons u us)
  obtain s1 where s1: "next_loop (Suc (length us + n)) opt self ate PUTTURN_STRATEGY_CURRENT_ROLE s =
       next_loop (length us + n) opt self ate PUTTURN_STRATEGY_CURRENT_ROLE s1"
     "sinv opt s1 us hs" "lframe s s1" "status_of s1 = status_of s"
    using role_drop_one [OF nb Cons.prems(2,1)] Cons.prems(3) by fastforce
  moreover have "has_role s1 r self" "\<forall>u \<in> set us. stopped s1 u"
    using Cons.prems(2,3) has_role_cong [OF s1(3)] stopped_cong [OF s1(4)] by simp_all
  ultimately show ?case using Cons.IH [of s1] lframe_trans [OF s1(3)] by fastforce
qed

lemma nextRunnable_role_none:
  assumes nb: "no_bound opt" and nohp: "\<not> policy opt 4" and s: "sinv opt s xs []" and self: "has_role s r self"
    and all: "\<forall>u \<in> set xs. stopped s u"
  shows "\<exists>s'. nextRunnable opt self ate PUTTURN_STRATEGY_CURRENT_ROLE s = nextRunnable opt self ate 0 s' \<and>
     sinv opt s' [] [] \<and> lframe s s' \<and> status_of s' = status_of s"
proof -
  obtain s' where s': "next_loop (length xs + (length (waitq s) + 2)) opt self ate PUTTURN_STRATEGY_CURRENT_ROLE s =
       next_loop (Suc (Suc (length (waitq s)))) opt self ate PUTTURN_STRATEGY_CURRENT_ROLE s'"
     "sinv opt s' [] []" "lframe s s'" "status_of s' = status_of s"
    using next_loop_role_drop [OF nb s self all, of "length (waitq s) + 2" ate] by auto
  have "refill opt self ate PUTTURN_STRATEGY_CURRENT_ROLE s' = Inl f \<longleftrightarrow> refill opt self ate 0 s' = Inl f"
    "refill opt self ate PUTTURN_STRATEGY_CURRENT_ROLE s' = Inr (b, k, s2) \<longleftrightarrow>
       (if b then refill opt self ate 0 s' = Inr (b, 0, s2) \<and> k = PUTTURN_STRATEGY_CURRENT_ROLE
        else refill opt self ate 0 s' = Inr (b, k, s2))" for f b k s2
    using sinv_empty [OF s'(2)] by (auto simp: refill_def assert_then_def res_simps)
  then have "next_loop (Suc (Suc (length (waitq s)))) opt self ate PUTTURN_STRATEGY_CURRENT_ROLE s' =
      next_loop (Suc (Suc (length (waitq s)))) opt self ate 0 s'"
    using nohp sinv_empty [OF s'(2)] by (simp add: next_loop.simps(2) res_bind_def split: sum.split)
  moreover have "next_bound s' = Suc (Suc (length (waitq s)))"
    using next_bound_eq [OF s'(2)] s'(3) by (simp add: lframe_def)
  ultimately show ?thesis using s' next_bound_eq [OF s] by (intro exI [of _ s']) (auto simp: nextRunnable_def)
qed

text \<open>
  When somebody on the queue can run but nobody of the caller's role can, the rotation goes on for
  ever: no bound on the number of iterations is enough.
\<close>

lemma next_loop_role_diverges:
  assumes nb: "no_bound opt"
  shows "sinv opt s xs hs \<Longrightarrow> has_role s r self \<Longrightarrow> \<exists>u \<in> set xs. \<not> stopped s u \<Longrightarrow>
     \<forall>u \<in> set xs. stopped s u \<or> (\<exists>r'. has_role s r' u \<and> r' \<noteq> r) \<Longrightarrow>
     next_loop n opt self ate PUTTURN_STRATEGY_CURRENT_ROLE s = Inl LoopBound"
proof (induction n arbitrary: s xs)
  case 0
  then show ?case by (simp add: next_loop.simps(1))
next
  case (Suc n)
  then obtain u us where xs: "xs = u # us" by (cases xs) auto
  show ?case
  proof (cases "stopped s u")
    case True
    obtain s1 where s1: "next_loop (Suc n) opt self ate PUTTURN_STRATEGY_CURRENT_ROLE s =
         next_loop n opt self ate PUTTURN_STRATEGY_CURRENT_ROLE s1"
       "sinv opt s1 us hs" "lframe s s1" "status_of s1 = status_of s"
      using role_drop_one [OF nb Suc.prems(2) Suc.prems(1) [unfolded xs] True] by blast
    then show ?thesis
      using Suc.IH [OF s1(2)] Suc.prems xs True has_role_cong [OF s1(3)] stopped_cong [OF s1(4)] by auto
  next
    case False
    then obtain r' where r': "has_role s r' u" "r' \<noteq> r" using Suc.prems(4) xs by auto
    obtain s1 where s1: "next_loop (Suc n) opt self ate PUTTURN_STRATEGY_CURRENT_ROLE s =
         next_loop n opt self ate PUTTURN_STRATEGY_CURRENT_ROLE s1"
       "sinv opt s1 (us @ [u]) hs" "lframe s s1" "status_of s1 = status_of s"
      using role_skip_one [OF Suc.prems(2) Suc.prems(1) [unfolded xs] False r'] by blast
    then show ?thesis
      using Suc.IH [OF s1(2)] Suc.prems xs False has_role_cong [OF s1(3)] stopped_cong [OF s1(4)] by auto
  qed
qed

section \<open>Giving up the turn\<close>

lemma pop_self_ok:
  assumes s: "sinv opt s (self # xs) hs" and fl: "\<not> woken_up_from_hp_queue_flag (waits s self)"
  shows "\<exists>s'. pop_self self s = Inr s' \<and> sinv opt s' xs hs \<and> qframe s s' \<and>
     status_of s' = status_of s \<and> yielded s' = (yielded s)(self := False)"
  using runq_pop_front_ok [OF s] fl by (auto simp: pop_self_def)

lemma pop_self_hp_ok:
  assumes s: "sinv opt s xs (self # hs)" and fl: "woken_up_from_hp_queue_flag (waits s self)"
  shows "\<exists>s'. pop_self self s = Inr s' \<and> sinv opt s' xs hs \<and> wframe s s' \<and> waitq s' = waitq s \<and>
     waits s' = (waits s)(self := (waits s self)\<lparr>woken_up_from_hp_queue_flag := False\<rparr>) \<and>
     status_of s' = status_of s \<and> yielded s' = (yielded s)(self := False)"
  using hp_pop_front_ok [OF s] fl by (auto simp: pop_self_def qframe_def wframe_def)

lemma get_status_ok:
  assumes s: "sinv opt s xs hs" and t: "t < nthread (tids s)"
  obtains a st where "rq_get_my_elem t (runq s) = Inr (Some a)" "tid_map (runq s) t = Some a"
    "get_status (Some a) s = Inr st" "status_of s t = Some st"
proof -
  obtain a e where "tid_map (runq s) t = Some a" "cells (heap s) a = Some e" "e_tid e = t"
      "status_of s t = Some (e_status e)" "t < MAX_THREAD_NUM"
    using elem_of [OF s t] by metis
  then show thesis
    using that [of a "e_status e"] by (simp add: rq_get_my_elem_def get_status_def ptr_simps)
qed

text \<open>
  The options the following is about: the turn is enforced, there is no high-priority queue and
  no bound on non-determinism, and the \<open>unordered_set\<close> is iterated properly.
\<close>

definition plain :: "options \<Rightarrow> bool" where
  "plain opt \<longleftrightarrow> enforce_turn_type opt \<in> {0, 1, 2} \<and> \<not> policy opt 4 \<and>
     \<not> enforce_non_det_clock_bound opt \<and> order_ok opt"

lemma plainD:
  assumes "plain opt"
  shows "enforce_turn_type opt \<ge> 0" "\<not> policy opt 4" "no_bound opt" "order_ok opt"
    "to_hp opt = (\<lambda>_. False)" "\<not> hp_first opt self strategy s" "\<not> enforce_non_det_clock_bound opt"
  using assms by (auto simp: plain_def to_hp_def hp_first_def fun_eq_iff no_bound_def)

text \<open>The first thread that can run, and the first one of a role.\<close>

lemma first_runnable:
  assumes "plain opt" and "sinv opt s xs []" and "strategy \<noteq> PUTTURN_STRATEGY_CURRENT_ROLE"
    and "\<not> non_det_release opt self s" and "dropWhile (stopped s) xs = t # ys"
  shows "\<exists>s'. nextRunnable opt self ate strategy s = Inr (Some t, s') \<and>
     rq_tids (heap s') (runq s') = Inr (t # ys @ filter (\<lambda>u. \<not> stopped s u) (takeWhile (stopped s) xs))"
proof -
  have "filter (\<lambda>u. \<not> stopped s u) (takeWhile (stopped s) xs) = []"
    by (auto simp: filter_empty_conv dest: set_takeWhileD)
  then show ?thesis
    using nextRunnable_run [OF plainD(3) [OF assms(1)] assms(2,3) _ refl assms(4,5), of ate] plainD(6) [OF assms(1)]
      queues_tids [OF sinvD(1)] by auto
qed

lemma first_of_role:
  assumes p: "plain opt" and s: "sinv opt s xs []" and self: "has_role s r self"
    and ro: "\<forall>u \<in> set xs. stopped s u \<or> has_role s r u \<or> (\<exists>r'. has_role s r' u \<and> r' \<noteq> r)"
  shows "dropWhile (\<lambda>u. stopped s u \<or> \<not> has_role s r u) xs = t # ys \<Longrightarrow>
     \<exists>s'. nextRunnable opt self ate PUTTURN_STRATEGY_CURRENT_ROLE s = Inr (Some t, s') \<and>
       rq_tids (heap s') (runq s') =
         Inr (t # ys @ filter (\<lambda>u. \<not> stopped s u) (takeWhile (\<lambda>u. stopped s u \<or> \<not> has_role s r u) xs))"
    and "dropWhile (\<lambda>u. stopped s u \<or> \<not> has_role s r u) xs = [] \<Longrightarrow> \<exists>u \<in> set xs. \<not> stopped s u \<Longrightarrow>
     next_loop n opt self ate PUTTURN_STRATEGY_CURRENT_ROLE s = Inl LoopBound"
proof -
  let ?P = "\<lambda>u. stopped s u \<or> \<not> has_role s r u"
  note pd = plainD [OF p]
  show "\<exists>s'. nextRunnable opt self ate PUTTURN_STRATEGY_CURRENT_ROLE s = Inr (Some t, s') \<and>
     rq_tids (heap s') (runq s') = Inr (t # ys @ filter (\<lambda>u. \<not> stopped s u) (takeWhile ?P xs))"
    if d: "dropWhile ?P xs = t # ys"
  proof -
    have xs: "sinv opt s (takeWhile ?P xs @ t # ys) []" using s d by (metis takeWhile_dropWhile_id)
    have t: "\<not> stopped s t" "has_role s r t" using d by (metis dropWhile_eq_Cons_conv)+
    have "\<forall>u \<in> set (takeWhile ?P xs). stopped s u \<or> (\<exists>r'. has_role s r' u \<and> r' \<noteq> r)"
      using ro by (auto dest!: set_takeWhileD)
    from nextRunnable_role [OF pd(3) xs self t this] show ?thesis
      using queues_tids [OF sinvD(1)] by blast
  qed
  show "next_loop n opt self ate PUTTURN_STRATEGY_CURRENT_ROLE s = Inl LoopBound"
    if "dropWhile ?P xs = []" "\<exists>u \<in> set xs. \<not> stopped s u"
    by (rule next_loop_role_diverges [OF pd(3) s self that(2)])
      (use that(1) ro in \<open>auto simp: dropWhile_eq_Nil_conv\<close>)
qed

text \<open>
  The outcome of \<open>nextRunnable\<close> when nobody on the run queue can run: the end of the program, its
  abortion, or the idle thread.
\<close>

definition no_runnable :: "options \<Rightarrow> tid \<Rightarrow> bool \<Rightarrow> nat \<Rightarrow> sched \<Rightarrow> bool" where
  "no_runnable opt self ate strategy s \<longleftrightarrow>
     (if ate \<and> (waitq s = [] \<or> self = MainThreadTid)
      then \<exists>s'. nextRunnable opt self ate strategy s = Inr (None, s')
      else if launch_idle_thread opt = 0 then nextRunnable opt self ate strategy s = Inl (ExitProcess 1)
      else \<exists>s'. nextRunnable opt self ate strategy s = Inr (Some IdleThreadTid, s') \<and>
        rq_tids (heap s') (runq s') = Inr [IdleThreadTid])"

lemma nextRunnable_none:
  assumes p: "plain opt" and s: "sinv opt s xs []" and role: "strategy \<noteq> PUTTURN_STRATEGY_CURRENT_ROLE"
    and nd: "\<not> non_det_release opt self s" and all: "\<forall>u \<in> set xs. stopped s u"
    and idle: "launch_idle_thread opt \<noteq> 0 \<Longrightarrow> \<not> idle_done s \<and> IdleThreadTid \<in> set (waitq s) \<and>
      self \<noteq> IdleThreadTid \<and> \<not> stopped s IdleThreadTid"
  shows "no_runnable opt self ate strategy s"
proof -
  note pd = plainD [OF p]
  have all': "\<forall>t \<in> set xs \<union> set []. stopped s t" using all by simp
  consider "ate \<and> (waitq s = [] \<or> self = MainThreadTid)"
    | "\<not> (ate \<and> (waitq s = [] \<or> self = MainThreadTid))" "launch_idle_thread opt = 0"
    | "\<not> (ate \<and> (waitq s = [] \<or> self = MainThreadTid))" "launch_idle_thread opt \<noteq> 0" by blast
  then show ?thesis
  proof cases
    case 1
    then show ?thesis using nextRunnable_end [OF pd(3) s role all' nd] by (auto simp: no_runnable_def)
  next
    case 2
    then show ?thesis using nextRunnable_stuck [OF pd(3) s role all' nd 2] unfolding no_runnable_def if_not_P [OF 2(1)] by simp
  next
    case 3
    have i: "\<not> idle_done s" "IdleThreadTid \<in> set (waitq s)" "IdleThreadTid \<notin> set []" "\<not> stopped s IdleThreadTid"
      "self \<noteq> IdleThreadTid" using idle [OF 3(2)] by simp_all
    have "\<exists>s'. nextRunnable opt self ate strategy s = Inr (Some IdleThreadTid, s') \<and>
        rq_tids (heap s') (runq s') = Inr [IdleThreadTid]"
      using nextRunnable_idle [OF pd(1,3) s role all' refl nd 3 i] queues_tids [OF sinvD(1)] by blast
    then show ?thesis unfolding no_runnable_def if_not_P [OF 3(1)] if_not_P [OF 3(2)] .
  qed
qed

lemma nextRunnable_none_role:
  assumes p: "plain opt" and s: "sinv opt s xs []" and self: "has_role s r self"
    and nd: "\<not> non_det_release opt self s" and all: "\<forall>u \<in> set xs. stopped s u"
    and idle: "launch_idle_thread opt \<noteq> 0 \<Longrightarrow> \<not> idle_done s \<and> IdleThreadTid \<in> set (waitq s) \<and>
      self \<noteq> IdleThreadTid \<and> \<not> stopped s IdleThreadTid"
  shows "no_runnable opt self ate PUTTURN_STRATEGY_CURRENT_ROLE s"
proof -
  note pd = plainD [OF p]
  obtain s' where s': "nextRunnable opt self ate PUTTURN_STRATEGY_CURRENT_ROLE s = nextRunnable opt self ate 0 s'"
     "sinv opt s' [] []" "lframe s s'" "status_of s' = status_of s"
    using nextRunnable_role_none [OF pd(3,2) s self all] by blast
  have "no_runnable opt self ate 0 s'"
    by (rule nextRunnable_none [OF p s'(2)])
      (use nd idle s'(3) stopped_cong [OF s'(4)] release_cong [OF s'(3)] in
        \<open>auto simp: strategy_defs lframe_def nframe_def\<close>)
  moreover have "waitq s' = waitq s" using s'(3) by (simp add: lframe_def)
  ultimately show ?thesis unfolding no_runnable_def s'(1) by (simp only:)
qed

text \<open>
  \<open>handed opt s s' t ys\<close>: in \<open>s'\<close> the turn has been handed to thread \<open>t\<close>, which heads
  the run queue before \<open>ys\<close>; the wake-up set has been consumed.
\<close>

definition handed :: "options \<Rightarrow> sched \<Rightarrow> sched \<Rightarrow> tid \<Rightarrow> tid list \<Rightarrow> bool" where
  "handed opt s s' t ys \<longleftrightarrow>
     sinv opt s' (t # ys) [] \<and> nframe s s' \<and>
     inter_pro_wakeup_tids s' = [] \<and> \<not> inter_pro_wakeup_flag s' \<and>
     status_of s' = (status_of s)(t := map_option running (status_of s t))"

lemma handed_post [simp]: "handed opt s (post opt u s') t ys = handed opt s s' t ys"
  by (simp add: handed_def nframe_def post_def)

lemma post_fields [simp]:
  "waits (post opt t s) = (waits s)(t := wt_post opt (waits s t))" "waitq (post opt t s) = waitq s"
  "tids (post opt t s) = tids s" "turnCount (post opt t s) = turnCount s"
  by (simp_all add: post_def)

text \<open>\<open>next\<close> once the run queue holds \<open>xs\<close>: the first thread that is not stopped gets the turn.\<close>

lemma rr_next_popped:
  assumes p: "plain opt" and s: "sinv opt s xs []" and w: "wset_ok s []"
    and role: "strategy \<noteq> PUTTURN_STRATEGY_CURRENT_ROLE" and nd: "\<not> non_det_release opt self s"
    and xs: "dropWhile (stopped s) (xs @ returning opt s xs) = t # ys"
  shows "\<exists>s'. rr_next opt self ate True strategy s = Inr s' \<and> handed opt s s' t ys \<and>
     waitq s' = waitq s \<and> waits s' = (waits s)(t := wt_post opt (waits s t))"
proof -
  note d = plainD [OF p]
  obtain s1 where s1: "check_wakeup opt s = Inr s1" "nframe s s1" "waitq s1 = waitq s" "waits s1 = waits s"
     "sinv opt s1 (xs @ returning opt s xs) []" "inter_pro_wakeup_tids s1 = []" "\<not> inter_pro_wakeup_flag s1"
     "status_of s1 = status_of s"
    using check_wakeup_ok [OF d(1,3,4) s w] by blast
  have nd1: "\<not> non_det_release opt self s1" using nd s1(2) by (simp add: non_det_release_def nframe_def)
  have xs1: "dropWhile (stopped s1) (xs @ returning opt s xs) = t # ys" using xs stopped_cong [OF s1(8)] by simp
  obtain s2 where s2: "nextRunnable opt self ate strategy s1 = Inr (Some t, s2)" "sinv opt s2 (t # ys) []"
      "lframe s1 s2" "status_of s2 = (status_of s1)(t := map_option running (status_of s1 t))"
    using nextRunnable_run [OF d(3) s1(5) role _ _ nd1 xs1, of "[]" ate] d(6) by auto
  have "t < nthread (tids s2)" using sinv_threads(2) [OF s2(2)] by simp
  then have "rr_next opt self ate True strategy s = Inr (post opt t s2)"
    using s1(1) s2(1) d(1) by (simp add: rr_next_def)
  moreover have "handed opt s s2 t ys"
    using s1 s2 by (simp add: handed_def lframe_def nframe_def)
  ultimately show ?thesis using s1(3,4) s2(3) by (simp add: lframe_def)
qed

text \<open>The same when every thread is stopped and the idle thread has to be woken.\<close>

lemma rr_next_popped_idle:
  assumes p: "plain opt" and s: "sinv opt s xs []" and w: "wset_ok s []"
    and role: "strategy \<noteq> PUTTURN_STRATEGY_CURRENT_ROLE" and nd: "\<not> non_det_release opt self s"
    and all: "\<forall>t \<in> set xs \<union> set (returning opt s xs). stopped s t"
    and e: "\<not> (ate \<and> (waitq s = [] \<or> self = MainThreadTid))" "launch_idle_thread opt \<noteq> 0"
    and idle: "\<not> idle_done s" "IdleThreadTid \<in> set (waitq s)" "\<not> stopped s IdleThreadTid" "self \<noteq> IdleThreadTid"
  shows "\<exists>s'. rr_next opt self ate True strategy s = Inr s' \<and> handed opt s s' IdleThreadTid [] \<and>
     waitq s' = remove1 IdleThreadTid (waitq s) \<and>
     waits s' = (waits s)(IdleThreadTid := wt_post opt (wt_reset 0 (waits s IdleThreadTid)))"
proof -
  note d = plainD [OF p]
  obtain s1 where s1: "check_wakeup opt s = Inr s1" "nframe s s1" "waitq s1 = waitq s" "waits s1 = waits s"
     "sinv opt s1 (xs @ returning opt s xs) []" "inter_pro_wakeup_tids s1 = []" "\<not> inter_pro_wakeup_flag s1"
     "status_of s1 = status_of s"
    using check_wakeup_ok [OF d(1,3,4) s w] by blast
  have nd1: "\<not> non_det_release opt self s1" using nd s1(2) by (simp add: non_det_release_def nframe_def)
  have all1: "\<forall>t \<in> set (xs @ returning opt s xs) \<union> set []. stopped s1 t"
    using all stopped_cong [OF s1(8)] by simp
  have i1: "\<not> idle_done s1" "IdleThreadTid \<in> set (waitq s1)" "IdleThreadTid \<notin> set []" "\<not> stopped s1 IdleThreadTid"
    using idle s1(2,3) stopped_cong [OF s1(8)] by (simp_all add: nframe_def)
  have e1: "\<not> (ate \<and> (waitq s1 = [] \<or> self = MainThreadTid))" using e(1) s1(3) by simp
  obtain s2 where s2: "nextRunnable opt self ate strategy s1 = Inr (Some IdleThreadTid, s2)"
      "sinv opt s2 [IdleThreadTid] []" "nframe s1 s2" "waitq s2 = remove1 IdleThreadTid (waitq s1)"
      "waits s2 = (waits s1)(IdleThreadTid := wt_reset 0 (waits s1 IdleThreadTid))"
      "inter_pro_wakeup_tids s2 = []" "\<not> inter_pro_wakeup_flag s2"
      "status_of s2 = (status_of s1)(IdleThreadTid := map_option running (status_of s1 IdleThreadTid))"
    using nextRunnable_idle [OF d(1,3) s1(5) role all1 refl nd1 e1 e(2) i1 idle(4)] d(6) s1(6,7) by auto
  have "IdleThreadTid < nthread (tids s2)" using sinv_threads(2) [OF s2(2)] by simp
  then have "rr_next opt self ate True strategy s = Inr (post opt IdleThreadTid s2)"
    using s1(1) s2(1) d(1) by (simp add: rr_next_def)
  moreover have "handed opt s s2 IdleThreadTid []"
    using s1 s2 by (simp add: handed_def nframe_def)
  ultimately show ?thesis using s1(3,4) s2(4,5) by simp
qed

text \<open>
  The beginning of \<open>next\<close> when the executing thread is still in front: it leaves the queue,
  runnable, or stopped when it is entering a blocking call.
\<close>

definition leaving :: "THD_STATUS \<Rightarrow> THD_STATUS" where
  "leaving st = (if st = RUNNING_REG then RUNNABLE else INTER_PRO_STOP)"

lemma rr_next_pop:
  assumes p: "plain opt" and s: "sinv opt s (self # xs) []"
    and fl: "\<not> woken_up_from_hp_queue_flag (waits s self)"
    and st: "status_of s self = Some st" "st = RUNNING_REG \<or> st = RUNNING_INTER_PRO"
  shows "\<exists>s1. rr_next opt self ate False strategy s = rr_next opt self ate True strategy s1 \<and>
     sinv opt s1 xs [] \<and> qframe s s1 \<and> status_of s1 = (status_of s)(self \<mapsto> leaving st)"
proof -
  have t: "self < nthread (tids s)" using sinv_threads(2) [OF s] by simp
  obtain a where a: "rq_get_my_elem self (runq s) = Inr (Some a)" "tid_map (runq s) self = Some a"
      "get_status (Some a) s = Inr st"
    using get_status_ok [OF s t] st(1) by (metis option.inject)
  obtain s1 where s1: "set_status (Some a) (leaving st) s = Inr s1" "sinv opt s1 (self # xs) []" "qframe s s1"
      "status_of s1 = (status_of s)(self \<mapsto> leaving st)"
    using set_status_ok [OF s a(2), of "leaving st"] by blast
  have "\<not> woken_up_from_hp_queue_flag (waits s1 self)" using fl s1(3) by (simp add: qframe_def)
  from pop_self_ok [OF s1(2) this]
  obtain s2 where s2: "pop_self self s1 = Inr s2" "sinv opt s2 xs []" "qframe s1 s2" "status_of s2 = status_of s1"
    by blast
  have "rr_next opt self ate False strategy s = rr_next opt self ate True strategy s2"
    using plainD(1) [OF p] a(1,3) s1(1) s2(1) st(2)
    by (cases "st = RUNNING_REG") (simp_all add: rr_next_def leaving_def)
  then show ?thesis using s1 s2 qframe_trans [OF s1(3) s2(3)] by auto
qed

end
