(* ===== verification/SchedProtocol.thy ===== *)
theory SchedProtocol
  imports SchedTurn
begin

text \<open>
  The turn protocol: an invariant of the scheduler between its operations, what the operations
  do to the run queue under it, and the transition system in which any thread may take the
  turn whenever it is enabled to. The invariant gives mutual exclusion and that the turn is
  never lost.
\<close>

section \<open>The invariant between operations\<close>

definition is_running :: "THD_STATUS \<Rightarrow> bool" where
  "is_running st \<longleftrightarrow> st = RUNNING_REG \<or> st = RUNNING_INTER_PRO"

text \<open>
  \<open>core opt s t ys\<close>: the run queue is \<open>t\<close> followed by \<open>ys\<close>; \<open>t\<close> alone has a running
  status; waiting threads are on no run queue and not stopped.
\<close>

definition core :: "options \<Rightarrow> sched \<Rightarrow> tid \<Rightarrow> tid list \<Rightarrow> bool" where
  "core opt s t ys \<longleftrightarrow>
     sinv opt s (t # ys) [] \<and> wset_ok s [] \<and> set (waitq s) \<inter> set (t # ys) = {} \<and>
     (\<forall>u. \<not> woken_up_from_hp_queue_flag (waits s u)) \<and>
     (\<forall>u \<in> set (waitq s). status_of s u = Some RUNNABLE) \<and>
     (\<exists>st. status_of s t = Some st \<and> is_running st) \<and>
     (\<forall>u st. u \<noteq> t \<and> status_of s u = Some st \<longrightarrow> \<not> is_running st)"

lemma coreD:
  assumes "core opt s t ys"
  shows "sinv opt s (t # ys) []" "wset_ok s []" "set (waitq s) \<inter> set (t # ys) = {}"
    "\<not> woken_up_from_hp_queue_flag (waits s u)"
    "u \<in> set (waitq s) \<Longrightarrow> status_of s u = Some RUNNABLE"
    "\<exists>st. status_of s t = Some st \<and> is_running st" "t < nthread (tids s)"
    "u \<noteq> t \<Longrightarrow> status_of s u = Some st \<Longrightarrow> \<not> is_running st"
proof -
  show "t < nthread (tids s)" using assms sinv_threads(2) [of opt s "t # ys" "[]"] by (simp add: core_def)
  show "u \<noteq> t \<Longrightarrow> status_of s u = Some st \<Longrightarrow> \<not> is_running st"
    using assms by (auto simp: core_def)
qed (use assms in \<open>auto simp: core_def\<close>)

lemma core_not_stopped: "core opt s t ys \<Longrightarrow> \<not> stopped s t"
  using coreD(6) by (fastforce simp: stopped_def is_running_def)

lemma flag_post [simp]:
  "woken_up_from_hp_queue_flag (wt_post opt w) = woken_up_from_hp_queue_flag w"
  "woken_up_from_hp_queue_flag (wt_reset n w) = woken_up_from_hp_queue_flag w"
  by (simp_all add: wt_post_def wt_reset_def)

lemma running_runs: "st \<noteq> INTER_PRO_STOP \<Longrightarrow> is_running (running st)"
  by (cases st) (auto simp: running_def is_running_def)

text \<open>The invariant after the turn was handed over.\<close>

lemma core_handed:
  assumes h: "handed opt s s' t ys" and ns: "\<not> stopped s t"
    and wq: "set (waitq s') \<inter> set (t # ys) = {}"
    and fl: "\<And>u. \<not> woken_up_from_hp_queue_flag (waits s' u)"
    and st: "\<And>u. u \<in> set (waitq s') \<Longrightarrow> status_of s u = Some RUNNABLE"
      "\<And>u st. u \<noteq> t \<Longrightarrow> status_of s u = Some st \<Longrightarrow> \<not> is_running st"
  shows "core opt s' t ys"
proof -
  have s': "sinv opt s' (t # ys) []" "status_of s' = (status_of s)(t := map_option running (status_of s t))"
    using h by (simp_all add: handed_def)
  have "t < nthread (tids s')" using sinv_threads(2) [OF s'(1)] by simp
  then obtain stt where "status_of s' t = Some stt" using elem_of [OF s'(1)] by metis
  then obtain st0 where "status_of s t = Some st0" "stt = running st0" using s'(2) by auto
  then have "is_running stt" using ns running_runs by (auto simp: stopped_def)
  moreover have "wset_ok s' []" using h by (simp add: handed_def wset_ok_def)
  moreover have "t \<notin> set (waitq s')" using wq by auto
  ultimately show ?thesis
    using s' wq fl st \<open>status_of s' t = Some stt\<close> by (auto simp: core_def)
qed

section \<open>putTurn\<close>

lemma checkNonDetBound_plain: "plain opt \<Longrightarrow> checkNonDetBound opt s = Inr s"
  by (simp add: checkNonDetBound_def plainD(7))

lemma self_is_front_ok: "sinv opt s (t # ys) hs \<Longrightarrow> self_is_front t s = Inr True"
  using queues_front(1) [OF sinvD(1)] by (simp add: self_is_front_def)

lemma release_running:
  assumes "core opt s self ys" and "status_of s self = Some RUNNING_REG"
  obtains a s1 where "rq_get_my_elem self (runq s) = Inr (Some a)" "get_status (Some a) s = Inr RUNNING_REG"
    "set_status (Some a) RUNNABLE s = Inr s1" "sinv opt s1 (self # ys) []" "qframe s s1"
    "status_of s1 = (status_of s)(self \<mapsto> RUNNABLE)"
proof -
  note c = coreD [OF assms(1)]
  obtain a where a: "rq_get_my_elem self (runq s) = Inr (Some a)" "tid_map (runq s) self = Some a"
      "get_status (Some a) s = Inr RUNNING_REG"
    using get_status_ok [OF c(1) c(7)] assms(2) by (metis option.inject)
  then show thesis using that set_status_ok [OF c(1) a(2), of RUNNABLE] by blast
qed

text \<open>
  The run queue \<open>putTurn\<close> leaves before the next thread is chosen, by strategy; \<open>k\<close> is the
  place of a yielding thread.
\<close>

definition requeued :: "nat \<Rightarrow> nat \<Rightarrow> tid \<Rightarrow> tid list \<Rightarrow> tid list" where
  "requeued strategy k self ys =
     (if strategy = PUTTURN_STRATEGY_CURRENT_THREAD \<or> strategy = PUTTURN_STRATEGY_CREATE then self # ys
      else if strategy = PUTTURN_STRATEGY_YIELD then take k ys @ self # drop k ys
      else ys @ [self])"

lemma set_requeued [simp]: "set (requeued strategy k self ys) = insert self (set ys)"
proof -
  have "set (take k ys) \<union> set (drop k ys) = set ys" by (metis append_take_drop_id set_append)
  then show ?thesis by (auto simp: requeued_def)
qed

lemma requeue_self_ok:
  assumes c: "core opt s self ys" and st: "status_of s self = Some RUNNING_REG"
  shows "\<exists>s' k. requeue_self opt self strategy s = Inr s' \<and> sinv opt s' (requeued strategy k self ys) [] \<and>
     qframe s s' \<and> status_of s' = (status_of s)(self \<mapsto> RUNNABLE)"
proof -
  obtain a s1 where s1: "rq_get_my_elem self (runq s) = Inr (Some a)" "get_status (Some a) s = Inr RUNNING_REG"
    "set_status (Some a) RUNNABLE s = Inr s1" "sinv opt s1 (self # ys) []" "qframe s s1"
    "status_of s1 = (status_of s)(self \<mapsto> RUNNABLE)"
    using release_running [OF c st] by blast
  show ?thesis
  proof (cases "strategy = PUTTURN_STRATEGY_CURRENT_THREAD \<or> strategy = PUTTURN_STRATEGY_CREATE")
    case True
    then show ?thesis using s1 by (auto simp: requeue_self_def requeued_def)
  next
    case False
    have fl: "\<not> woken_up_from_hp_queue_flag (waits s1 self)" using coreD(4) [OF c] s1(5) by (simp add: qframe_def)
    obtain s2 where s2: "pop_self self s1 = Inr s2" "sinv opt s2 ys []" "qframe s1 s2" "status_of s2 = status_of s1"
      using pop_self_ok [OF s1(4) fl] by blast
    have self: "self < nthread (tids s2)" "self \<notin> set ys" "self \<notin> set []"
      using coreD(7) [OF c] sinv_threads(1) [OF s1(4)] s1(5) s2(3) by (simp_all add: qframe_def)
    note fr = qframe_trans [OF s1(5) s2(3)]
    show ?thesis
    proof (cases "strategy = PUTTURN_STRATEGY_YIELD")
      case True
      then show ?thesis
        using runq_insert_yield_ok [OF s2(2) self] s1 s2 False qframe_trans [OF fr]
        by (fastforce simp: requeue_self_def requeued_def)
    next
      case F: False
      obtain s3 where "runq_push_back self s2 = Inr s3" "sinv opt s3 (ys @ [self]) []" "qframe s2 s3"
          "status_of s3 = status_of s2"
        using runq_push_back_ok [OF s2(2) self] by blast
      then show ?thesis
        using s1 s2 False F qframe_trans [OF fr] by (auto simp: requeue_self_def requeued_def)
    qed
  qed
qed

lemma returning_subset:
  "order_ok opt \<Longrightarrow> wset_ok s hs \<Longrightarrow> set (returning opt s xs) \<subseteq> set (inter_pro_wakeup_tids s)"
  by (auto simp: returning_def order_ok_def wset_ok_def)

lemma returning_disjoint:
  "order_ok opt \<Longrightarrow> wset_ok s hs \<Longrightarrow> set (returning opt s xs) \<inter> set (waitq s) = {}"
  using returning_subset by (fastforce simp: wset_ok_def)

lemma dropWhile_ne: "t \<in> set xs \<Longrightarrow> \<not> P t \<Longrightarrow> \<exists>y ys. dropWhile P xs = y # ys"
  by (metis dropWhile_eq_Nil_conv list.exhaust)

lemma dropWhile_ConsD: "dropWhile P xs = y # ys \<Longrightarrow> \<not> P y \<and> set (y # ys) \<subseteq> set xs"
  by (metis dropWhile_eq_Cons_conv set_dropWhileD subsetI)

lemma putTurn_ok:
  assumes p: "plain opt" and c: "core opt s self ys" and st: "status_of s self = Some RUNNING_REG"
    and role: "strategy \<noteq> PUTTURN_STRATEGY_CURRENT_ROLE" and nd: "\<not> non_det_release opt self s"
  shows "\<exists>s' k t zs. putTurn opt self th False strategy s = Inr s' \<and> core opt s' t zs \<and> nframe s s' \<and>
     waitq s' = waitq s \<and> waits s' = (waits s)(t := wt_post opt (waits s t)) \<and>
     t # zs = dropWhile (stopped s) (requeued strategy k self ys @ returning opt s (requeued strategy k self ys)) \<and>
     status_of s' = (status_of s)(self \<mapsto> RUNNABLE, t \<mapsto> RUNNING_REG) \<and> \<not> inter_pro_wakeup_flag s'"
proof -
  note c' = coreD [OF c]
  note pd = plainD [OF p]
  obtain s1 k where s1: "requeue_self opt self strategy s = Inr s1" "sinv opt s1 (requeued strategy k self ys) []"
     "qframe s s1" "status_of s1 = (status_of s)(self \<mapsto> RUNNABLE)"
    using requeue_self_ok [OF c st] by blast
  let ?q = "requeued strategy k self ys"
  have w1: "wset_ok s1 []" using c'(2) s1(3) by (simp add: wset_ok_def qframe_def)
  have r1: "returning opt s1 ?q = returning opt s ?q" using s1(3) by (simp add: returning_def qframe_def)
  have stp: "stopped s1 = stopped s" using s1(4) st by (auto simp: stopped_def fun_eq_iff)
  have nd1: "\<not> non_det_release opt self s1" using nd s1(3) by (simp add: non_det_release_def qframe_def)
  have "\<not> stopped s1 self" using s1(4) by (simp add: stopped_def)
  then obtain t zs where tz: "dropWhile (stopped s1) (?q @ returning opt s1 ?q) = t # zs"
    using dropWhile_ne [of self "?q @ returning opt s1 ?q" "stopped s1"] by auto
  obtain s2 where s2: "rr_next opt self False True strategy s1 = Inr s2" "handed opt s1 s2 t zs"
     "waitq s2 = waitq s1" "waits s2 = (waits s1)(t := wt_post opt (waits s1 t))"
    using rr_next_popped [OF p s1(2) w1 role nd1 tz] by blast
  have run: "putTurn opt self th False strategy s = Inr s2"
    using s1(1) s2(1) c'(1,7) pd(1) checkNonDetBound_plain [OF p] self_is_front_ok
    by (auto simp: putTurn_def assert_res_def)
  have fr: "waitq s1 = waitq s" "waits s1 = waits s" "nframe s s1" using s1(3) by (auto simp: qframe_def nframe_def)
  have tq: "\<not> stopped s1 t" "set (t # zs) \<subseteq> set (?q @ returning opt s ?q)"
    using dropWhile_ConsD [OF tz] r1 by auto
  have st1: "\<not> is_running x" if "status_of s1 u = Some x" for u x
    using that s1(4) c'(8) by (auto simp: is_running_def split: if_splits)
  have "core opt s2 t zs"
  proof (rule core_handed [OF s2(2) tq(1)])
    show "set (waitq s2) \<inter> set (t # zs) = {}"
      using s2(3) fr(1) tq(2) c'(3) returning_disjoint [OF pd(4) c'(2), of ?q] by auto
    show "\<not> woken_up_from_hp_queue_flag (waits s2 u)" for u using s2(4) fr(2) c'(4) by simp
    show "status_of s1 u = Some RUNNABLE" if "u \<in> set (waitq s2)" for u
      using that s2(3) fr(1) c'(5) s1(4) by simp
  qed (use st1 in blast)
  moreover have "status_of s2 = (status_of s)(self \<mapsto> RUNNABLE, t \<mapsto> RUNNING_REG)"
  proof -
    have "t < nthread (tids s1)" using sinv_threads(2) [of opt s2 "t # zs" "[]"] s2(2)
      by (simp add: handed_def nframe_def)
    then obtain x where x: "status_of s1 t = Some x" using elem_of [OF s1(2)] by metis
    then have "running x = RUNNING_REG" using st1 [OF x] tq(1)
      by (cases x) (auto simp: running_def is_running_def stopped_def)
    then show ?thesis using s2(2) s1(4) x by (auto simp: handed_def)
  qed
  moreover have "nframe s s2" using nframe_trans [OF fr(3)] s2(2) by (simp add: handed_def)
  moreover have "waitq s2 = waitq s" "waits s2 = (waits s)(t := wt_post opt (waits s t))"
    using s2(3,4) fr by simp_all
  moreover have "t # zs = dropWhile (stopped s) (?q @ returning opt s ?q)" using tz stp r1 by simp
  moreover have "\<not> inter_pro_wakeup_flag s2" using s2(2) by (simp add: handed_def)
  ultimately show ?thesis using run by blast
qed

section \<open>Clock ticks, signals, creation\<close>

text \<open>The run queue after \<open>incTurnCount\<close>: expired waiters, then threads back from blocking calls.\<close>

definition ticked :: "options \<Rightarrow> sched \<Rightarrow> tid list \<Rightarrow> tid list" where
  "ticked opt s xs = (let xs1 = xs @ expired (s\<lparr>turnCount := turnCount s + 1\<rparr>) in xs1 @ returning opt s xs1)"

lemma expired_subset: "set (expired s) \<subseteq> set (waitq s)"
  by (auto simp: expired_def)

lemma incTurnCount_core:
  assumes p: "plain opt" and c: "core opt s self ys" and W: "W = expired (s\<lparr>turnCount := turnCount s + 1\<rparr>)"
  shows "\<exists>s' zs. incTurnCount opt s = Inr (turnCount s, s') \<and> core opt s' self zs \<and>
     ticked opt s (self # ys) = self # zs \<and> turnCount s' = turnCount s + 1 \<and> tids s' = tids s \<and>
     nNonDetWait s' = nNonDetWait s \<and> idle_done s' = idle_done s \<and>
     waitq s' = filter (\<lambda>t. t \<notin> set W) (waitq s) \<and>
     waits s' = (\<lambda>t. if t \<in> set W then (wt_reset ETIMEDOUT (waits s t))\<lparr>wake_reason := TIMEDOUT\<rparr>
                     else waits s t) \<and>
     inter_pro_wakeup_tids s' = [] \<and> \<not> inter_pro_wakeup_flag s' \<and> status_of s' = status_of s"
proof -
  note c' = coreD [OF c]
  note pd = plainD [OF p]
  let ?xs1 = "(self # ys) @ W"
  define zs where "zs = ys @ W @ returning opt s ?xs1"
  have tk: "ticked opt s (self # ys) = self # zs" using W by (simp add: ticked_def Let_def zs_def)
  obtain s' where s': "incTurnCount opt s = Inr (turnCount s, s')" "tids s' = tids s" "turnCount s' = turnCount s + 1"
     "nNonDetWait s' = nNonDetWait s" "idle_done s' = idle_done s"
     "sinv opt s' (?xs1 @ returning opt s ?xs1) []" "waitq s' = filter (\<lambda>t. t \<notin> set W) (waitq s)"
     "waits s' = (\<lambda>t. if t \<in> set W then (wt_reset ETIMEDOUT (waits s t))\<lparr>wake_reason := TIMEDOUT\<rparr> else waits s t)"
     "inter_pro_wakeup_tids s' = []" "\<not> inter_pro_wakeup_flag s'" "status_of s' = status_of s"
    using incTurnCount_ok [OF pd(1,3,4) c'(1,2) _ W, of ?xs1] c'(3) pd(5) by auto
  have "wset_ok s' []" using s'(9,10) by (simp add: wset_ok_def)
  moreover have "set (waitq s') \<inter> set (self # zs) = {}"
    using c'(3) s'(7) returning_disjoint [OF pd(4) c'(2), of ?xs1] by (auto simp: zs_def)
  ultimately have "core opt s' self zs"
    using s' c'(4-6,8) by (auto simp: core_def zs_def)
  then show ?thesis using s' tk by blast
qed

lemma signal_core:
  assumes p: "plain opt" and c: "core opt s self ys" and ch: "ch \<noteq> 0" and W: "W = signalled ch all s"
  shows "\<exists>s'. signal opt self ch all s = Inr s' \<and> core opt s' self (ys @ W) \<and> wframe s s' \<and>
     waitq s' = filter (\<lambda>t. t \<notin> set W) (waitq s) \<and>
     waits s' = (\<lambda>t. if t \<in> set W then (wt_reset 0 (waits s t))\<lparr>wake_reason := SIGNAL\<rparr> else waits s t) \<and>
     status_of s' = status_of s"
proof -
  note c' = coreD [OF c]
  note pd = plainD [OF p]
  obtain s' where s': "signal opt self ch all s = Inr s'" "wframe s s'" "sinv opt s' ((self # ys) @ W) []"
       "waitq s' = filter (\<lambda>t. t \<notin> set W) (waitq s)"
       "waits s' = (\<lambda>t. if t \<in> set W then (wt_reset 0 (waits s t))\<lparr>wake_reason := SIGNAL\<rparr> else waits s t)"
       "status_of s' = status_of s"
    using signal_ok [OF pd(1) c'(1) _ _ W, of self] c'(3) ch pd(5) by auto
  have sub: "set W \<subseteq> set (waitq s)" using woken_subset W by (simp add: signalled_def)
  have "wset_ok s' []" using c'(2) s'(2,4) by (auto simp: wset_ok_def wframe_def)
  then have "core opt s' self (ys @ W)"
    using s' c'(3-6,8) sub by (auto simp: core_def)
  then show ?thesis using s' by blast
qed

section \<open>Leaving the run queue\<close>

text \<open>
  What \<open>wait\<close>, \<open>block\<close> and the end of a thread share: \<open>self\<close> leaves the queue
  \<open>self # zs\<close> and the turn goes to the first thread of \<open>zs\<close> that is not stopped, or, when
  there is none, to the idle thread, which is taken off the wait queue.
\<close>

definition successor :: "sched \<Rightarrow> tid list \<Rightarrow> tid \<times> tid list" where
  "successor s zs = (case dropWhile (stopped s) zs of [] \<Rightarrow> (IdleThreadTid, []) | t # ys \<Rightarrow> (t, ys))"

text \<open>The idle thread is available: started, waiting, and not the one that leaves.\<close>

definition idle_ready :: "options \<Rightarrow> tid \<Rightarrow> sched \<Rightarrow> bool" where
  "idle_ready opt self s \<longleftrightarrow> launch_idle_thread opt \<noteq> 0 \<and> \<not> idle_done s \<and>
     IdleThreadTid \<in> set (waitq s) \<and> self \<noteq> IdleThreadTid"

lemma idle_reset_wakes:
  "woken_up_from_hp_queue_flag (wt_post opt (wt_reset n w)) = woken_up_from_hp_queue_flag w"
  by simp

text \<open>The state \<open>s1\<close> in which \<open>self\<close> has just left, and what handing the turn on gives.\<close>

lemma core_leave:
  assumes s1: "sinv opt s1 zs []" and run: "\<forall>u x. status_of s1 u = Some x \<longrightarrow> \<not> is_running x"
    and h: "handed opt s1 s' t ys" and ns: "\<not> stopped s1 t" and q: "set (waitq s') \<inter> set (t # ys) = {}"
    and wt: "\<forall>u \<in> set (waitq s'). status_of s1 u = Some RUNNABLE"
    and f: "\<forall>u. \<not> woken_up_from_hp_queue_flag (waits s' u)"
  shows "core opt s' t ys" and "status_of s' = (status_of s1)(t \<mapsto> RUNNING_REG)"
proof -
  show "core opt s' t ys" by (rule core_handed [OF h ns q]) (use f wt run in auto)
  have "t < nthread (tids s1)"
    using h sinv_threads(2) [of opt s' "t # ys" "[]"] by (simp add: handed_def nframe_def)
  then obtain x where x: "status_of s1 t = Some x" using elem_of [OF s1] by metis
  then have "running x = RUNNING_REG" using run x ns
    by (cases x) (auto simp: running_def is_running_def stopped_def)
  then show "status_of s' = (status_of s1)(t \<mapsto> RUNNING_REG)"
    using h x by (simp add: handed_def)
qed

lemma leave_ok:
  assumes p: "plain opt" and s: "sinv opt s (self # zs) []" and w: "wset_ok s []" "inter_pro_wakeup_tids s = []"
    and wq: "set (waitq s) \<inter> set zs = {}" and fl: "\<And>u. \<not> woken_up_from_hp_queue_flag (waits s u)"
    and st: "status_of s self = Some st" "is_running st"
      "\<forall>u \<in> set (waitq s) - {self}. status_of s u = Some RUNNABLE"
      "\<forall>u x. u \<noteq> self \<and> status_of s u = Some x \<longrightarrow> \<not> is_running x"
    and selfq: "self \<in> set (waitq s) \<longrightarrow> st = RUNNING_REG"
    and nd: "\<not> non_det_release opt self s"
    and idle: "(\<forall>t \<in> set zs. stopped s t) \<longrightarrow> idle_ready opt self s \<and> \<not> (ate \<and> self = MainThreadTid)"
    and t: "(t, ys) = successor s zs"
  shows "\<exists>s'. rr_next opt self ate False 0 s = Inr s' \<and> core opt s' t ys \<and> nframe s s' \<and>
     waitq s' = (if \<forall>t \<in> set zs. stopped s t then remove1 IdleThreadTid (waitq s) else waitq s) \<and>
     waits s' = (waits s)(t := wt_post opt
       (if \<forall>t \<in> set zs. stopped s t then wt_reset 0 (waits s t) else waits s t)) \<and>
     inter_pro_wakeup_tids s' = [] \<and> \<not> inter_pro_wakeup_flag s' \<and>
     status_of s' = (status_of s)(self \<mapsto> leaving st, t \<mapsto> RUNNING_REG)"
proof -
  note pd = plainD [OF p]
  obtain s1 where s1: "rr_next opt self ate False 0 s = rr_next opt self ate True 0 s1" "sinv opt s1 zs []"
     "qframe s s1" "status_of s1 = (status_of s)(self \<mapsto> leaving st)"
    using rr_next_pop [OF p s fl st(1)] st(2) unfolding is_running_def by blast
  have fr: "waitq s1 = waitq s" "waits s1 = waits s" "nframe s s1" "idle_done s1 = idle_done s"
    using s1(3) by (auto simp: qframe_def nframe_def)
  have w1: "wset_ok s1 []" using w(1) s1(3) by (simp add: wset_ok_def qframe_def)
  have r1: "returning opt s1 zs = []"
    using returning_subset [OF pd(4) w1, of zs] w(2) s1(3) by (auto simp: qframe_def)
  have self: "self \<notin> set zs" using sinv_threads(1) [OF s] by simp
  have stp: "stopped s1 u = stopped s u" if "u \<noteq> self" for u using s1(4) that by (simp add: stopped_def)
  have dw: "dropWhile (stopped s1) zs = dropWhile (stopped s) zs"
    using stp self by (metis (mono_tags, lifting) dropWhile_cong)
  have nd1: "\<not> non_det_release opt self s1" using nd s1(3) by (simp add: non_det_release_def qframe_def)
  have role: "0 \<noteq> PUTTURN_STRATEGY_CURRENT_ROLE" by (simp add: PUTTURN_STRATEGY_CURRENT_ROLE_def)
  have run: "\<forall>u x. status_of s1 u = Some x \<longrightarrow> \<not> is_running x"
    using s1(4) st(4) by (auto simp: is_running_def leaving_def split: if_splits)
  have wait1: "status_of s1 u = Some RUNNABLE" if "u \<in> set (waitq s)" for u
    using that s1(4) st(3) selfq by (auto simp: leaving_def)
  show ?thesis
  proof (cases "dropWhile (stopped s) zs")
    case (Cons u us)
    then have tu: "t = u" "ys = us" using t by (simp_all add: successor_def)
    have some: "\<not> (\<forall>t \<in> set zs. stopped s t)" using dropWhile_ConsD [OF Cons] by auto
    have "dropWhile (stopped s1) (zs @ returning opt s1 zs) = t # ys" using Cons dw r1 tu by simp
    from rr_next_popped [OF p s1(2) w1 role nd1 this]
    obtain s' where s': "rr_next opt self ate True 0 s1 = Inr s'" "handed opt s1 s' t ys"
       "waitq s' = waitq s" "waits s' = (waits s)(t := wt_post opt (waits s t))"
      using fr(1,2) by auto
    have "\<not> stopped s1 t" "set (waitq s') \<inter> set (t # ys) = {}"
      using dropWhile_ConsD [OF Cons] tu stp [of u] self s'(3) wq by auto
    from core_leave [OF s1(2) run s'(2) this] wait1 fl s'(3,4)
    have "core opt s' t ys" "status_of s' = (status_of s1)(t \<mapsto> RUNNING_REG)" by simp_all
    moreover have "nframe s s'" "inter_pro_wakeup_tids s' = []" "\<not> inter_pro_wakeup_flag s'"
      using nframe_trans [OF fr(3)] s'(2) by (simp_all add: handed_def)
    ultimately show ?thesis unfolding if_not_P [OF some] using s'(1,3,4) s1(1,4) by auto
  next
    case Nil
    then have tu: "t = IdleThreadTid" "ys = []" using t unfolding successor_def Nil by simp_all
    have all: "\<forall>t \<in> set zs. stopped s t" using Nil by (simp add: dropWhile_eq_Nil_conv)
    then have ir: "idle_ready opt self s" "\<not> (ate \<and> self = MainThreadTid)" using idle by blast+
    have all1: "\<forall>t \<in> set zs \<union> set (returning opt s1 zs). stopped s1 t"
      using all stp self by (metis UnE empty_iff list.set(1) r1)
    have e: "\<not> (ate \<and> (waitq s1 = [] \<or> self = MainThreadTid))" using ir fr(1) by (auto simp: idle_ready_def)
    have i: "launch_idle_thread opt \<noteq> 0" "\<not> idle_done s1" "IdleThreadTid \<in> set (waitq s1)" "self \<noteq> IdleThreadTid"
      using ir(1) fr(1,4) by (simp_all add: idle_ready_def)
    have ns: "\<not> stopped s1 IdleThreadTid" using wait1 i(3) fr(1) by (simp add: stopped_def)
    from rr_next_popped_idle [OF p s1(2) w1 role nd1 all1 e i(1,2,3) ns i(4)]
    obtain s' where s': "rr_next opt self ate True 0 s1 = Inr s'" "handed opt s1 s' t ys"
       "waitq s' = remove1 IdleThreadTid (waitq s)"
       "waits s' = (waits s)(t := wt_post opt (wt_reset 0 (waits s t)))"
      using fr(1,2) tu by auto
    have "set (waitq s') \<inter> set (t # ys) = {}" "set (waitq s') \<subseteq> set (waitq s)" "\<not> stopped s1 t"
      using s'(3) tu sinvD(6) [OF s] ns by (auto simp: set_remove1_eq)
    with core_leave [OF s1(2) run s'(2)] wait1 fl s'(4)
    have "core opt s' t ys" "status_of s' = (status_of s1)(t \<mapsto> RUNNING_REG)" by (simp_all add: subset_iff)
    moreover have "nframe s s'" "inter_pro_wakeup_tids s' = []" "\<not> inter_pro_wakeup_flag s'"
      using nframe_trans [OF fr(3)] s'(2) by (simp_all add: handed_def)
    ultimately show ?thesis unfolding if_P [OF all] using s'(1,3,4) s1(1,4) by auto
  qed
qed

section \<open>wait and block\<close>

lemma wait_begin_ok:
  assumes p: "plain opt" and c: "core opt s self ys" and st: "status_of s self = Some RUNNING_REG"
    and nd: "\<not> non_det_release opt self s"
    and W: "W = expired (s\<lparr>turnCount := turnCount s + 1\<rparr>)" and zs: "ticked opt s (self # ys) = self # zs"
    and idle: "\<forall>t \<in> set zs. stopped s t \<Longrightarrow> idle_ready opt self s \<and> IdleThreadTid \<notin> set W"
    and t: "(t, us) = successor s zs"
  shows "\<exists>s'. wait_begin opt self ch n s = Inr s' \<and> core opt s' t us \<and> tids s' = tids s \<and>
     turnCount s' = turnCount s + 1 \<and>
     waitq s' = (let ws = filter (\<lambda>t. t \<notin> set W) (waitq s) @ [self]
                 in if \<forall>t \<in> set zs. stopped s t then remove1 IdleThreadTid ws else ws) \<and>
     waits s' = (let w1 = (\<lambda>t. if t \<in> set W then (wt_reset ETIMEDOUT (waits s t))\<lparr>wake_reason := TIMEDOUT\<rparr>
                               else waits s t);
                     w2 = w1(self := (w1 self)\<lparr>chan := ch, timeout := n\<rparr>)
                 in w2(t := wt_post opt (if \<forall>t \<in> set zs. stopped s t then wt_reset 0 (w2 t) else w2 t))) \<and>
     inter_pro_wakeup_tids s' = [] \<and> \<not> inter_pro_wakeup_flag s' \<and>
     status_of s' = (status_of s)(self \<mapsto> RUNNABLE, t \<mapsto> RUNNING_REG)"
proof -
  obtain s1 where s1: "incTurnCount opt s = Inr (turnCount s, s1)" "core opt s1 self zs"
     "turnCount s1 = turnCount s + 1" "tids s1 = tids s" "nNonDetWait s1 = nNonDetWait s" "idle_done s1 = idle_done s"
     "waitq s1 = filter (\<lambda>t. t \<notin> set W) (waitq s)"
     "waits s1 = (\<lambda>t. if t \<in> set W then (wt_reset ETIMEDOUT (waits s t))\<lparr>wake_reason := TIMEDOUT\<rparr> else waits s t)"
     "inter_pro_wakeup_tids s1 = []" "status_of s1 = status_of s"
    using incTurnCount_core [OF p c W] zs by auto
  note c1 = coreD [OF s1(2)]
  let ?s2 = "(upd_wait self (\<lambda>w. w\<lparr>chan := ch, timeout := n\<rparr>) s1)\<lparr>waitq := waitq s1 @ [self]\<rparr>"
  have nw: "self \<notin> set (waitq s1)" using c1(3) by auto
  have s2: "sinv opt ?s2 (self # zs) []"
    using c1(1,7) nw sinvD(6,7) [OF c1(1)] by (intro sinv_waitq) auto
  have w2: "wset_ok ?s2 []" "inter_pro_wakeup_tids ?s2 = []" using c1(2) s1(9) by (auto simp: wset_ok_def)
  have wq2: "set (waitq ?s2) \<inter> set zs = {}" using c1(3) sinv_threads(1) [OF s2] by auto
  have st2: "status_of ?s2 self = Some RUNNING_REG" using st s1(10) by simp
  have reg: "is_running RUNNING_REG" by (simp add: is_running_def)
  have wt2: "\<forall>u \<in> set (waitq ?s2) - {self}. status_of ?s2 u = Some RUNNABLE" using c1(5) by auto
  have run2: "\<forall>u x. u \<noteq> self \<and> status_of ?s2 u = Some x \<longrightarrow> \<not> is_running x" using c1(8) by auto
  have nd2: "\<not> non_det_release opt self ?s2" using nd s1(5) by (simp add: non_det_release_def)
  have stp2: "stopped ?s2 = stopped s" using s1(10) by (simp add: stopped_def fun_eq_iff)
  have idle2: "(\<forall>t \<in> set zs. stopped ?s2 t) \<longrightarrow> idle_ready opt self ?s2 \<and> \<not> (False \<and> self = MainThreadTid)"
    using idle stp2 s1(6,7) by (simp add: idle_ready_def)
  have t2: "(t, us) = successor ?s2 zs" using t s1(10) by (simp add: successor_def stp2)
  have fl2: "\<not> woken_up_from_hp_queue_flag (waits ?s2 u)" for u using c1(4) by simp
  obtain s' where s': "rr_next opt self False False 0 ?s2 = Inr s'" "core opt s' t us" "nframe ?s2 s'"
     "waitq s' = (if \<forall>t \<in> set zs. stopped ?s2 t then remove1 IdleThreadTid (waitq ?s2) else waitq ?s2)"
     "waits s' = (waits ?s2)(t := wt_post opt
       (if \<forall>t \<in> set zs. stopped ?s2 t then wt_reset 0 (waits ?s2 t) else waits ?s2 t))"
     "status_of s' = (status_of ?s2)(self \<mapsto> leaving RUNNING_REG, t \<mapsto> RUNNING_REG)"
     "inter_pro_wakeup_tids s' = []" "\<not> inter_pro_wakeup_flag s'"
    using leave_ok [where ate = False, OF p s2 w2 wq2 fl2 st2 reg wt2 run2 _ nd2 idle2 t2] by blast
  have "wait_begin opt self ch n s = Inr s'"
    using s1(1) s'(1) c1(1,7) plainD(1) [OF p] self_is_front_ok
    by (auto simp: wait_begin_def assert_res_def Let_def)
  then show ?thesis
    using s' s1(3,4,7,8,10) stp2 by (simp add: nframe_def leaving_def Let_def)
qed

lemma block_turn_ok:
  assumes p: "plain opt" and c: "core opt s self ys" and st: "status_of s self = Some st"
    and nd: "\<not> non_det_release opt self s"
    and W: "W = expired (s\<lparr>turnCount := turnCount s + 1\<rparr>)" and zs: "ticked opt s (self # ys) = self # zs"
    and idle: "\<forall>t \<in> set zs. stopped s t \<Longrightarrow> idle_ready opt self s \<and> IdleThreadTid \<notin> set W"
    and t: "(t, us) = successor s zs"
  shows "\<exists>s'. block_turn opt self s = Inr (turnCount s, s') \<and> core opt s' t us \<and> tids s' = tids s \<and>
     turnCount s' = turnCount s + 1 \<and> set (waitq s') \<subseteq> set (waitq s) \<and>
     waits s' = (let w1 = (\<lambda>t. if t \<in> set W then (wt_reset ETIMEDOUT (waits s t))\<lparr>wake_reason := TIMEDOUT\<rparr>
                               else waits s t)
                 in w1(t := wt_post opt (if \<forall>t \<in> set zs. stopped s t then wt_reset 0 (w1 t) else w1 t))) \<and>
     inter_pro_wakeup_tids s' = [] \<and>
     status_of s' = (status_of s)(self \<mapsto> leaving st, t \<mapsto> RUNNING_REG)"
proof -
  have run: "is_running st" using coreD(6) [OF c] st by auto
  obtain s1 where s1: "incTurnCount opt s = Inr (turnCount s, s1)" "core opt s1 self zs"
     "turnCount s1 = turnCount s + 1" "tids s1 = tids s" "nNonDetWait s1 = nNonDetWait s" "idle_done s1 = idle_done s"
     "waitq s1 = filter (\<lambda>t. t \<notin> set W) (waitq s)"
     "waits s1 = (\<lambda>t. if t \<in> set W then (wt_reset ETIMEDOUT (waits s t))\<lparr>wake_reason := TIMEDOUT\<rparr> else waits s t)"
     "inter_pro_wakeup_tids s1 = []" "status_of s1 = status_of s"
    using incTurnCount_core [OF p c W] zs by auto
  note c1 = coreD [OF s1(2)]
  have nw: "self \<notin> set (waitq s1)" "set (waitq s1) \<inter> set zs = {}" using c1(3) by auto
  have stp: "stopped s1 = stopped s" using s1(10) by (simp add: stopped_def fun_eq_iff)
  have nd1: "\<not> non_det_release opt self s1" using nd s1(5) by (simp add: non_det_release_def)
  have idle1: "(\<forall>t \<in> set zs. stopped s1 t) \<longrightarrow> idle_ready opt self s1 \<and> \<not> (False \<and> self = MainThreadTid)"
    using idle stp s1(6,7) by (simp add: idle_ready_def)
  have t1: "(t, us) = successor s1 zs" using t by (simp add: successor_def stp)
  have st1: "status_of s1 self = Some st" using st s1(10) by simp
  have run1: "\<forall>u x. u \<noteq> self \<and> status_of s1 u = Some x \<longrightarrow> \<not> is_running x" using c1(8) by auto
  have wt1: "\<forall>u \<in> set (waitq s1) - {self}. status_of s1 u = Some RUNNABLE" using c1(5) by auto
  have selfq: "self \<in> set (waitq s1) \<longrightarrow> st = RUNNING_REG" using nw(1) by blast
  obtain s' where s': "rr_next opt self False False 0 s1 = Inr s'" "core opt s' t us" "nframe s1 s'"
     "waitq s' = (if \<forall>t \<in> set zs. stopped s1 t then remove1 IdleThreadTid (waitq s1) else waitq s1)"
     "waits s' = (waits s1)(t := wt_post opt
       (if \<forall>t \<in> set zs. stopped s1 t then wt_reset 0 (waits s1 t) else waits s1 t))"
     "status_of s' = (status_of s1)(self \<mapsto> leaving st, t \<mapsto> RUNNING_REG)" "inter_pro_wakeup_tids s' = []"
    using leave_ok [where ate = False, OF p c1(1,2) s1(9) nw(2) c1(4) st1 run wt1 run1 selfq nd1 idle1 t1]
    by blast
  have "block_turn opt self s = Inr (turnCount s, s')"
    using s1(1) s'(1) coreD(1,7) [OF c] plainD(7) [OF p] self_is_front_ok
    by (auto simp: block_turn_def assert_res_def nd_block_def)
  moreover have "set (waitq s') \<subseteq> set (waitq s)"
    using s'(4) s1(7) set_remove1_subset [of IdleThreadTid "waitq s1"] by (auto split: if_splits)
  ultimately show ?thesis
    using s' s1(3,4,8,10) stp by (simp add: nframe_def Let_def)
qed

section \<open>Creating a thread\<close>

lemma sched_create_ok:
  assumes p: "plain opt" and c: "core opt s self ys" and tm: "tm_inv (tids s)"
    and new: "p_t_map (tids s) th = None" "nthread (tids s) < MAX_THREAD_NUM"
  shows "\<exists>s'. sched_create opt self th f s = Inr (nthread (tids s), s') \<and>
     core opt s' self (ys @ [nthread (tids s)]) \<and> tm_inv (tids s') \<and>
     nthread (tids s') = Suc (nthread (tids s)) \<and> waitq s' = waitq s \<and> waits s' = waits s \<and>
     tm_getTid th (tids s') = Some (nthread (tids s)) \<and>
     p_t_map (tids s') = (p_t_map (tids s))(th \<mapsto> nthread (tids s)) \<and> turnCount s' = turnCount s \<and>
     inter_pro_wakeup_flag s' = inter_pro_wakeup_flag s \<and> inter_pro_wakeup_tids s' = inter_pro_wakeup_tids s \<and>
     zombies (tids s') = zombies (tids s) \<and>
     status_of s' = (status_of s)(nthread (tids s) \<mapsto> RUNNABLE)"
proof -
  note c' = coreD [OF c]
  let ?t = "nthread (tids s)"
  obtain m where m: "tm_create opt th f (tids s) = Inr (?t, m)" "tm_inv m"
      "p_t_map m = (p_t_map (tids s))(th \<mapsto> ?t)" "nthread m = Suc ?t" "zombies m = zombies (tids s)"
    using tm_create_inv [OF tm new(1)] by blast
  have no: "tid_map (runq s) ?t = None" using sinvD(3) [OF c'(1), of ?t] by (cases "tid_map (runq s) ?t") auto
  obtain h q where r: "rq_create_thd_elem ?t (heap s) (runq s) = Inr (brk (heap s), h, q)"
     "queues (tid_map q) h q (self # ys) (hp_runq s) []" "tid_map q = (tid_map (runq s))(?t \<mapsto> brk (heap s))"
     "meta h = (meta (heap s))(brk (heap s) \<mapsto> (?t, RUNNABLE, False))" "\<forall>a. cells h a \<noteq> None \<longrightarrow> a < brk h"
    using queues_create [OF sinvD(1) [OF c'(1)] new(2) no sinvD(2) [OF c'(1)]] by blast
  let ?s = "s\<lparr>tids := m, heap := h, runq := q\<rparr>"
  have dom: "dom (tid_map q) = {..<nthread m}"
    using c'(1) r(3) m(4) by (auto simp: sinv_def lessThan_Suc)
  have s1: "sinv opt ?s (self # ys) []"
    using c'(1) r dom plainD(2) [OF p] m(4) by (auto simp: sinv_def lessThan_Suc)
  have "?t \<notin> set (self # ys)" using sinv_threads(2) [OF c'(1)] by auto
  then obtain s2 where s2: "runq_push_back ?t ?s = Inr s2" "sinv opt s2 ((self # ys) @ [?t]) []" "qframe ?s s2"
      "status_of s2 = status_of ?s"
    using runq_push_back_ok [OF s1, of ?t] m(4) by auto
  have st: "status_of ?s = (status_of s)(?t \<mapsto> RUNNABLE)"
  proof
    fix u
    have "brk (heap s) \<noteq> a" if "tid_map (runq s) u = Some a" for a
      using elems_okD [OF queuesD(1) [OF sinvD(1) [OF c'(1)]] that] by auto
    then show "status_of ?s u = ((status_of s)(?t \<mapsto> RUNNABLE)) u"
      using r(3,4) by (auto simp: status_of_def th_meta_def split: option.split)
  qed
  have "sched_create opt self th f s = Inr (?t, s2)"
    using m(1,3) r(1) s2(1) self_is_front_ok [OF c'(1)] plainD(1,2) [OF p]
    by (simp add: sched_create_def assert_res_def tm_getTid_def Let_def)
  moreover have "core opt s2 self (ys @ [?t])"
  proof -
    have "?t \<notin> set (waitq s)" using sinvD(7) [OF c'(1)] by auto
    moreover have "wset_ok s2 []" using c'(2) s2(3) m(4) by (auto simp: wset_ok_def qframe_def)
    ultimately show ?thesis
      using s2(2-4) st c'(3-8) by (auto simp: core_def qframe_def is_running_def)
  qed
  ultimately show ?thesis using s2(3,4) st m by (simp add: qframe_def tm_getTid_def)
qed

end
