(* ===== verification/TurnProtocol.thy ===== *)
theory TurnProtocol
  imports SchedProtocol
begin

text \<open>
  The scheduler as a transition system. A state is a scheduler state and the set of threads
  that are between a \<open>getTurn\<close> and the call that gives the turn up. Any thread may pass its
  \<open>getTurn\<close> whenever the code lets it; a thread that holds the turn may perform the scheduler
  operations of \<open>thread_step\<close>; threads that do not hold it may enter and leave blocking calls.
\<close>

section \<open>Tokens\<close>

text \<open>How many pending permissions to take the turn a thread has been posted.\<close>

definition tokens :: "options \<Rightarrow> wait_t \<Rightarrow> nat" where
  "tokens opt w = (if enforce_turn_type opt = 1 then sem w else if wakenUp w then 1 else 0)"

lemma tokens_simps:
  assumes "plain opt"
  shows "tokens opt w = 0 \<Longrightarrow> tokens opt (wt_post opt w) = 1"
    and "tokens opt w = 0 \<Longrightarrow> tokens opt (wt_reset n w) = 0"
    and "tokens opt (w\<lparr>chan := c, timeout := d\<rparr>) = tokens opt w"
    and "tokens opt (w\<lparr>wake_reason := r\<rparr>) = tokens opt w"
    and "wt_wait opt b w = None \<longleftrightarrow> tokens opt w = 0"
    and "wt_wait opt b w = Some (b', w') \<Longrightarrow> tokens opt w' = tokens opt w - 1 \<and> b' = b \<and>
      woken_up_from_hp_queue_flag w' = woken_up_from_hp_queue_flag w"
  using assms by (auto simp: plain_def tokens_def wt_post_def wt_reset_def wt_wait_def split: if_splits)

section \<open>The transition system\<close>

text \<open>
  A thread may leave the run queue when someone else can run: another thread of the run queue
  that is not stopped, or the idle thread, which waits for this.
\<close>

definition can_leave :: "options \<Rightarrow> tid \<Rightarrow> sched \<Rightarrow> bool" where
  "can_leave opt t s \<longleftrightarrow> (case rq_tids (heap s) (runq s) of
     Inl _ \<Rightarrow> False
   | Inr xs \<Rightarrow> list_all (stopped s) (tl (ticked opt s xs)) \<longrightarrow>
       idle_ready opt t s \<and> IdleThreadTid \<notin> set (expired (s\<lparr>turnCount := turnCount s + 1\<rparr>)))"

text \<open>
  The end of a thread (\<open>SCHED_TIMER_THREAD_END\<close>): a last turn, then \<open>putTurn\<close> with
  \<open>at_thread_end\<close>. A thread other than the main one may end when someone else can run.
\<close>

definition finish_turn :: "options \<Rightarrow> tid \<Rightarrow> pthread \<Rightarrow> sched \<Rightarrow> sched res" where
  "finish_turn opt t th s =
     res_bind (incTurnCount opt s) (\<lambda>(_, s). putTurn opt t th True 0 s)"

definition can_finish :: "options \<Rightarrow> tid \<Rightarrow> pthread \<Rightarrow> sched \<Rightarrow> bool" where
  "can_finish opt t th s \<longleftrightarrow>
     t \<noteq> MainThreadTid \<and> th \<noteq> 0 \<and> t_p_map (tids s) t = Some th \<and> can_leave opt t s"

text \<open>
  What one thread does next. The relation has the calls of an application: it leaves out the waiting of the
  idle thread (\<open>idleThreadCondWait\<close>, \<open>tryPutTurn\<close>), the return into a forked child, the end of the main
  thread and the strategy that looks for a thread of the same role, which need not end.
\<close>

inductive thread_step :: "options \<Rightarrow> tid \<Rightarrow> sched \<times> tid set \<Rightarrow> sched \<times> tid set \<Rightarrow> bool" for opt where
  acquire: "t \<notin> H \<Longrightarrow> getTurn opt t s = Some s' \<Longrightarrow> thread_step opt t (s, H) (s', insert t H)"
| put: "t \<in> H \<Longrightarrow> status_of s t = Some RUNNING_REG \<Longrightarrow> strategy \<noteq> PUTTURN_STRATEGY_CURRENT_ROLE \<Longrightarrow>
    putTurn opt t th False strategy s = Inr s' \<Longrightarrow> thread_step opt t (s, H) (s', H - {t})"
| wait: "t \<in> H \<Longrightarrow> status_of s t = Some RUNNING_REG \<Longrightarrow> can_leave opt t s \<Longrightarrow>
    wait_begin opt t ch n s = Inr s' \<Longrightarrow> thread_step opt t (s, H) (s', H - {t})"
| block: "t \<in> H \<Longrightarrow> can_leave opt t s \<Longrightarrow> block_turn opt t s = Inr (c, s') \<Longrightarrow>
    thread_step opt t (s, H) (s', H - {t})"
| tick: "t \<in> H \<Longrightarrow> incTurnCount opt s = Inr (c, s') \<Longrightarrow> thread_step opt t (s, H) (s', H)"
| signal: "t \<in> H \<Longrightarrow> ch \<noteq> 0 \<Longrightarrow> signal opt t ch all s = Inr s' \<Longrightarrow> thread_step opt t (s, H) (s', H)"
| create: "t \<in> H \<Longrightarrow> p_t_map (tids s) th = None \<Longrightarrow> nthread (tids s) < MAX_THREAD_NUM \<Longrightarrow>
    sched_create opt t th f s = Inr (u, s') \<Longrightarrow> thread_step opt t (s, H) (s', H)"
| finish: "t \<in> H \<Longrightarrow> status_of s t = Some RUNNING_REG \<Longrightarrow> can_finish opt t th s \<Longrightarrow>
    finish_turn opt t th s = Inr s' \<Longrightarrow> thread_step opt t (s, H) (s', H - {t})"
| inter_start: "u \<notin> H \<Longrightarrow> u \<notin> set (waitq s) \<Longrightarrow> status_of s u \<in> {Some RUNNABLE, Some RUNNING_REG} \<Longrightarrow>
    interProStart opt u s = Inr (b, s') \<Longrightarrow> thread_step opt u (s, H) (s', H)"
| inter_end: "u \<notin> H \<Longrightarrow> status_of s u = Some INTER_PRO_STOP \<Longrightarrow>
    interProEnd opt u s = Inr (b, s') \<Longrightarrow> thread_step opt u (s, H) (wakeup u s', H)"

text \<open>A step of the process is a step of any of its threads.\<close>

definition turn_step :: "options \<Rightarrow> sched \<times> tid set \<Rightarrow> sched \<times> tid set \<Rightarrow> bool" where
  "turn_step opt g g' \<longleftrightarrow> (\<exists>u. thread_step opt u g g')"

definition turn_inv :: "options \<Rightarrow> sched \<times> tid set \<Rightarrow> bool" where
  "turn_inv opt g \<longleftrightarrow> (\<exists>t ys. core opt (fst g) t ys \<and> tm_inv (tids (fst g)) \<and>
     (snd g = {t} \<and> (\<forall>u. tokens opt (waits (fst g) u) = 0) \<or>
      snd g = {} \<and> (\<forall>u. tokens opt (waits (fst g) u) = (if u = t then 1 else 0))))"

definition basic :: "options \<Rightarrow> bool" where
  "basic opt \<longleftrightarrow> plain opt \<and> enforce_non_det_annotations opt = 0"

lemma basic_release: "basic opt \<Longrightarrow> \<not> non_det_release opt t s"
  by (simp add: basic_def non_det_release_def)

lemma turn_inv_holder:
  assumes "turn_inv opt (s, H)" and "t \<in> H"
  obtains ys where "core opt s t ys" "H = {t}" "tm_inv (tids s)" "\<And>u. tokens opt (waits s u) = 0"
  using assms by (auto simp: turn_inv_def)

lemma turn_invI:
  assumes "core opt s t ys" and "tm_inv (tids s)" and "\<And>u. tokens opt (waits s u) = (if u = t then 1 else 0)"
  shows "turn_inv opt (s, {})"
  using assms by (auto simp: turn_inv_def)

lemma turn_inv_holdI:
  assumes "core opt s t ys" and "tm_inv (tids s)" and "\<And>u. tokens opt (waits s u) = 0"
  shows "turn_inv opt (s, {t})"
  using assms by (auto simp: turn_inv_def)

lemma core_getTurn:
  assumes "core opt s t ys" and "\<And>u. \<not> woken_up_from_hp_queue_flag (w u)"
  shows "core opt (s\<lparr>inSync := b, waits := w\<rparr>) t ys"
  using assms by (simp add: core_def sinv_def wset_ok_def status_of_def)

text \<open>Every step keeps the invariant.\<close>

lemma inv_acquire:
  assumes b: "basic opt" and i: "turn_inv opt (s, H)" and g: "getTurn opt t s = Some s'"
  shows "turn_inv opt (s', insert t H)"
proof -
  have p: "plain opt" using b by (simp add: basic_def)
  note tk = tokens_simps [OF p]
  obtain sy w where w: "wt_wait opt (inSync s) (waits s t) = Some (sy, w)"
      "s' = s\<lparr>inSync := sy, waits := (waits s)(t := w)\<rparr>"
    using g by (auto simp: getTurn_def)
  have pos: "tokens opt (waits s t) \<noteq> 0" using w(1) tk(5) by (metis option.distinct(1))
  obtain v ys where v: "core opt s v ys" "tm_inv (tids s)"
      "H = {v} \<and> (\<forall>u. tokens opt (waits s u) = 0) \<or>
       H = {} \<and> (\<forall>u. tokens opt (waits s u) = (if u = v then 1 else 0))"
    using i by (auto simp: turn_inv_def)
  then have "v = t" "H = {}" using pos by metis+
  with v have c: "core opt s t ys" "H = {}" "tm_inv (tids s)"
      "\<And>u. tokens opt (waits s u) = (if u = t then 1 else 0)" by auto
  have w': "tokens opt w = 0" "\<not> woken_up_from_hp_queue_flag w"
    using tk(6) [OF w(1)] c(4) [of t] coreD(4) [OF c(1)] by simp_all
  have "core opt s' t ys" unfolding w(2) using coreD(4) [OF c(1)] w'(2) by (intro core_getTurn [OF c(1)]) simp
  then show ?thesis
    unfolding c(2) using turn_inv_holdI [of opt s' t ys] c(3,4) w'(1) w(2) by simp
qed

lemma inv_put:
  assumes b: "basic opt" and i: "turn_inv opt (s, H)" and t: "t \<in> H" "status_of s t = Some RUNNING_REG"
    "strategy \<noteq> PUTTURN_STRATEGY_CURRENT_ROLE" and g: "putTurn opt t th False strategy s = Inr s'"
  shows "turn_inv opt (s', H - {t})"
proof -
  have p: "plain opt" using b by (simp add: basic_def)
  obtain ys where c: "core opt s t ys" "H = {t}" "tm_inv (tids s)" "\<And>u. tokens opt (waits s u) = 0"
    using turn_inv_holder [OF i t(1)] by metis
  obtain v zs where v: "core opt s' v zs" "nframe s s'" "waits s' = (waits s)(v := wt_post opt (waits s v))"
    using putTurn_ok [OF p c(1) t(2,3) basic_release [OF b], of th] g by auto
  show ?thesis
    unfolding c(2) using turn_invI [OF v(1)] v(2,3) c(3,4) tokens_simps(1) [OF p] by (simp add: nframe_def)
qed

lemma inv_tick:
  assumes b: "basic opt" and i: "turn_inv opt (s, H)" and t: "t \<in> H" and g: "incTurnCount opt s = Inr (c, s')"
  shows "turn_inv opt (s', H)"
proof -
  have p: "plain opt" using b by (simp add: basic_def)
  obtain ys where c: "core opt s t ys" "H = {t}" "tm_inv (tids s)" "\<And>u. tokens opt (waits s u) = 0"
    using turn_inv_holder [OF i t] by metis
  obtain W zs where "core opt s' t zs" "tids s' = tids s"
     "waits s' = (\<lambda>t. if t \<in> set W then (wt_reset ETIMEDOUT (waits s t))\<lparr>wake_reason := TIMEDOUT\<rparr> else waits s t)"
    using incTurnCount_core [OF p c(1) refl] g by auto
  then show ?thesis
    unfolding c(2) using turn_inv_holdI [of opt s' t zs] c(3,4) tokens_simps(2,4) [OF p] by simp
qed

lemma inv_signal:
  assumes b: "basic opt" and i: "turn_inv opt (s, H)" and t: "t \<in> H" "ch \<noteq> 0" and g: "signal opt t ch all s = Inr s'"
  shows "turn_inv opt (s', H)"
proof -
  have p: "plain opt" using b by (simp add: basic_def)
  obtain ys where c: "core opt s t ys" "H = {t}" "tm_inv (tids s)" "\<And>u. tokens opt (waits s u) = 0"
    using turn_inv_holder [OF i t(1)] by metis
  obtain W where "core opt s' t (ys @ W)" "wframe s s'"
     "waits s' = (\<lambda>t. if t \<in> set W then (wt_reset 0 (waits s t))\<lparr>wake_reason := SIGNAL\<rparr> else waits s t)"
    using signal_core [where all = all, OF p c(1) t(2) refl] g by auto
  then show ?thesis
    unfolding c(2) using turn_inv_holdI [of opt s' t "ys @ W"] c(3,4) tokens_simps(2,4) [OF p]
    by (simp add: wframe_def)
qed

lemma can_leaveD:
  assumes c: "core opt s t ys" and l: "can_leave opt t s" and zs: "ticked opt s (t # ys) = t # zs"
  shows "(\<forall>u \<in> set zs. stopped s u) \<Longrightarrow>
     idle_ready opt t s \<and> IdleThreadTid \<notin> set (expired (s\<lparr>turnCount := turnCount s + 1\<rparr>))"
  using l zs queues_tids [OF sinvD(1) [OF coreD(1) [OF c]]] by (simp add: can_leave_def list_all_iff)

lemma ticked_Cons: "\<exists>zs. ticked opt s (t # ys) = t # zs"
  by (simp add: ticked_def Let_def)

lemma ticked_subset:
  assumes p: "plain opt" and c: "core opt s t ys" and zs: "ticked opt s (t # ys) = t # zs"
  shows "set zs \<subseteq> set ys \<union> set (waitq s) \<union> set (inter_pro_wakeup_tids s)"
proof -
  let ?xs = "t # ys @ expired (s\<lparr>turnCount := turnCount s + 1\<rparr>)"
  have "zs = ys @ expired (s\<lparr>turnCount := turnCount s + 1\<rparr>) @ returning opt s ?xs"
    using zs by (simp add: ticked_def Let_def)
  moreover have "set (returning opt s ?xs) \<subseteq> set (inter_pro_wakeup_tids s)"
    using returning_subset plainD(4) [OF p] coreD(2) [OF c] by blast
  ultimately show ?thesis using expired_subset [of "s\<lparr>turnCount := turnCount s + 1\<rparr>"] by auto
qed

lemma inv_wait:
  assumes b: "basic opt" and i: "turn_inv opt (s, H)" and t: "t \<in> H" "status_of s t = Some RUNNING_REG"
    and l: "can_leave opt t s" and g: "wait_begin opt t ch n s = Inr s'"
  shows "turn_inv opt (s', H - {t})"
proof -
  have p: "plain opt" using b by (simp add: basic_def)
  obtain ys where c: "core opt s t ys" "H = {t}" "tm_inv (tids s)" "\<And>u. tokens opt (waits s u) = 0"
    using turn_inv_holder [OF i t(1)] by metis
  obtain zs where zs: "ticked opt s (t # ys) = t # zs" using ticked_Cons by blast
  obtain v us where v: "(v, us) = successor s zs" by (metis surj_pair)
  obtain s1 where s1: "wait_begin opt t ch n s = Inr s1" "core opt s1 v us" "tids s1 = tids s"
     "waits s1 = (let w1 = (\<lambda>u. if u \<in> set (expired (s\<lparr>turnCount := turnCount s + 1\<rparr>))
                       then (wt_reset ETIMEDOUT (waits s u))\<lparr>wake_reason := TIMEDOUT\<rparr> else waits s u);
                     w2 = w1(t := (w1 t)\<lparr>chan := ch, timeout := n\<rparr>)
                 in w2(v := wt_post opt (if \<forall>t \<in> set zs. stopped s t then wt_reset 0 (w2 v) else w2 v)))"
    using wait_begin_ok [OF p c(1) t(2) basic_release [OF b] refl zs can_leaveD [OF c(1) l zs] v] by blast
  have "s1 = s'" using s1(1) g by simp
  moreover have "tokens opt (waits s1 u) = (if u = v then 1 else 0)" for u
    using s1(4) c(4) tokens_simps(1-4) [OF p] by (simp add: Let_def)
  ultimately show ?thesis unfolding c(2) using turn_invI [OF s1(2)] s1(3) c(3) by simp
qed

lemma inv_block:
  assumes b: "basic opt" and i: "turn_inv opt (s, H)" and t: "t \<in> H"
    and l: "can_leave opt t s" and g: "block_turn opt t s = Inr (c, s')"
  shows "turn_inv opt (s', H - {t})"
proof -
  have p: "plain opt" using b by (simp add: basic_def)
  obtain ys where c: "core opt s t ys" "H = {t}" "tm_inv (tids s)" "\<And>u. tokens opt (waits s u) = 0"
    using turn_inv_holder [OF i t] by metis
  obtain st where st: "status_of s t = Some st" using coreD(6) [OF c(1)] by blast
  obtain zs where zs: "ticked opt s (t # ys) = t # zs" using ticked_Cons by blast
  obtain v us where v: "(v, us) = successor s zs" by (metis surj_pair)
  obtain s1 where s1: "block_turn opt t s = Inr (turnCount s, s1)" "core opt s1 v us" "tids s1 = tids s"
     "waits s1 = (let w1 = (\<lambda>u. if u \<in> set (expired (s\<lparr>turnCount := turnCount s + 1\<rparr>))
                       then (wt_reset ETIMEDOUT (waits s u))\<lparr>wake_reason := TIMEDOUT\<rparr> else waits s u)
                 in w1(v := wt_post opt (if \<forall>t \<in> set zs. stopped s t then wt_reset 0 (w1 v) else w1 v)))"
    using block_turn_ok [OF p c(1) st basic_release [OF b] refl zs can_leaveD [OF c(1) l zs] v] by blast
  have "s1 = s'" using s1(1) g by simp
  moreover have "tokens opt (waits s1 u) = (if u = v then 1 else 0)" for u
    using s1(4) c(4) tokens_simps(1-4) [OF p] by (simp add: Let_def)
  ultimately show ?thesis unfolding c(2) using turn_invI [OF s1(2)] s1(3) c(3) by simp
qed

lemma inv_create:
  assumes b: "basic opt" and i: "turn_inv opt (s, H)" and t: "t \<in> H" "p_t_map (tids s) th = None"
    "nthread (tids s) < MAX_THREAD_NUM" and g: "sched_create opt t th f s = Inr (u, s')"
  shows "turn_inv opt (s', H)"
proof -
  have p: "plain opt" using b by (simp add: basic_def)
  obtain ys where c: "core opt s t ys" "H = {t}" "tm_inv (tids s)" "\<And>u. tokens opt (waits s u) = 0"
    using turn_inv_holder [OF i t(1)] by metis
  obtain zs where "core opt s' t zs" "tm_inv (tids s')" "waits s' = waits s"
    using sched_create_ok [OF p c(1,3) t(2,3), of f] g by auto
  then show ?thesis unfolding c(2) using turn_inv_holdI c(4) by metis
qed

text \<open>A thread that ends: its joiner is woken, it becomes a zombie and leaves the run queue.\<close>

lemma successorD:
  assumes "(t, us) = successor s zs"
  shows "set us \<subseteq> set zs" and "t \<in> set zs \<or> t = IdleThreadTid \<and> (\<forall>u \<in> set zs. stopped s u)"
proof -
  have "set us \<subseteq> set zs \<and> (t \<in> set zs \<or> t = IdleThreadTid \<and> (\<forall>u \<in> set zs. stopped s u))"
  proof (cases "dropWhile (stopped s) zs")
    case Nil
    then have "\<forall>u \<in> set zs. stopped s u" by (simp add: dropWhile_eq_Nil_conv)
    then show ?thesis using assms unfolding successor_def Nil by simp
  next
    case (Cons v vs)
    then have "set (v # vs) \<subseteq> set zs" using dropWhile_ConsD by metis
    then show ?thesis using assms unfolding successor_def Cons by simp
  qed
  then show "set us \<subseteq> set zs" "t \<in> set zs \<or> t = IdleThreadTid \<and> (\<forall>u \<in> set zs. stopped s u)" by blast+
qed

lemma putTurn_end_ok:
  assumes p: "plain opt" and c: "core opt s self zs" and st: "status_of s self = Some RUNNING_REG"
    and nd: "\<not> non_det_release opt self s" and w: "inter_pro_wakeup_tids s = []"
    and tm: "tm_inv (tids s)" "t_p_map (tids s) self = Some th" and th: "th \<noteq> 0" "self \<noteq> MainThreadTid"
    and idle: "\<forall>u \<in> set zs. stopped s u \<Longrightarrow> idle_ready opt self s"
    and W: "W = signalled th False s" and t: "(t, us) = successor s (zs @ W)"
  shows "\<exists>s'. putTurn opt self th True 0 s = Inr s' \<and> core opt s' t us \<and> tm_inv (tids s') \<and>
     tm_zombie th (tids s') \<and> tm_getTid th (tids s') = None \<and> set W \<inter> set (waitq s') = {} \<and>
     set (waitq s') \<subseteq> set (waitq s) \<and> self \<notin> set us \<and> self \<noteq> t \<and>
     inter_pro_wakeup_tids s' = [] \<and> nthread (tids s') = nthread (tids s) \<and> status_of s' t = Some RUNNING_REG \<and>
     waits s' = (let w1 = (\<lambda>u. if u \<in> set W then (wt_reset 0 (waits s u))\<lparr>wake_reason := SIGNAL\<rparr> else waits s u)
                 in w1(t := wt_post opt (if \<forall>u \<in> set (zs @ W). stopped s u then wt_reset 0 (w1 t) else w1 t)))"
proof -
  obtain s1 where s1: "signal opt self th False s = Inr s1" "core opt s1 self (zs @ W)" "wframe s s1"
     "waitq s1 = filter (\<lambda>u. u \<notin> set W) (waitq s)"
     "waits s1 = (\<lambda>u. if u \<in> set W then (wt_reset 0 (waits s u))\<lparr>wake_reason := SIGNAL\<rparr> else waits s u)"
     "status_of s1 = status_of s" using signal_core [OF p c th(1) W] by blast
  obtain m where m: "tm_zombify opt self th (tids s1) = Inr m" "tm_inv m" "tm_zombie th m" "tm_getTid th m = None"
     "nthread m = nthread (tids s1)" using tm_zombify_inv [OF tm] s1(3) by (auto simp: wframe_def)
  let ?s = "s1\<lparr>tids := m\<rparr>"
  note c1 = coreD [OF s1(2)]
  have s2: "sinv opt ?s (self # zs @ W) []" using c1(1) m(5) by (simp add: sinv_def)
  have w2: "wset_ok ?s []" "inter_pro_wakeup_tids ?s = []" using c1(2) m(5) w s1(3) by (simp_all add: wset_ok_def wframe_def)
  have wq: "set (waitq ?s) \<inter> set (zs @ W) = {}" "self \<notin> set (waitq ?s)" using c1(3) by auto
  have stof: "status_of ?s = status_of s" using s1(6) by (simp add: status_of_def fun_eq_iff)
  have stp: "stopped ?s = stopped s" using stof by (simp add: stopped_def fun_eq_iff)
  have sub: "set W \<subseteq> set (waitq s)" using woken_subset W by (simp add: signalled_def)
  have live: "\<not> stopped s u" if "u \<in> set W" for u using coreD(5) [OF c, of u] sub that by (auto simp: stopped_def)
  have idle2: "(\<forall>u \<in> set (zs @ W). stopped ?s u) \<longrightarrow> idle_ready opt self ?s \<and> \<not> (True \<and> self = MainThreadTid)"
  proof
    assume a: "\<forall>u \<in> set (zs @ W). stopped ?s u"
    then have "W = []" using live stp by (cases W) auto
    then show "idle_ready opt self ?s \<and> \<not> (True \<and> self = MainThreadTid)"
      using idle a stp s1(3,4) th(2) by (simp add: idle_ready_def wframe_def)
  qed
  have nd2: "\<not> non_det_release opt self ?s" using nd s1(3) by (simp add: non_det_release_def wframe_def)
  have t2: "(t, us) = successor ?s (zs @ W)" using t by (simp add: successor_def stp)
  have st2: "status_of ?s self = Some RUNNING_REG" "is_running RUNNING_REG" using st stof by (simp_all add: is_running_def)
  have wt2: "\<forall>u \<in> set (waitq ?s) - {self}. status_of ?s u = Some RUNNABLE" using c1(5) s1(6) stof by auto
  have run2: "\<forall>u x. u \<noteq> self \<and> status_of ?s u = Some x \<longrightarrow> \<not> is_running x" using c1(8) s1(6) stof by auto
  have fl2: "\<not> woken_up_from_hp_queue_flag (waits ?s u)" for u using c1(4) by simp
  obtain s' where s': "rr_next opt self True False 0 ?s = Inr s'" "core opt s' t us" "nframe ?s s'"
     "waitq s' = (if \<forall>u \<in> set (zs @ W). stopped ?s u then remove1 IdleThreadTid (waitq ?s) else waitq ?s)"
     "waits s' = (waits ?s)(t := wt_post opt
       (if \<forall>u \<in> set (zs @ W). stopped ?s u then wt_reset 0 (waits ?s t) else waits ?s t))"
     "inter_pro_wakeup_tids s' = []" "status_of s' = (status_of ?s)(self \<mapsto> leaving RUNNING_REG, t \<mapsto> RUNNING_REG)"
    using leave_ok [where ate = True, OF p s2 w2 wq(1) fl2 st2 wt2 run2 _ nd2 idle2 t2] wq(2) by blast
  have "putTurn opt self th True 0 s = Inr s'"
    using s1(1) m(1) s'(1) checkNonDetBound_plain [OF p] coreD(1,7) [OF c] self_is_front_ok
    by (auto simp: putTurn_def assert_res_def)
  moreover have "set (waitq s') \<subseteq> set (waitq ?s)"
    using s'(4) set_remove1_subset [of IdleThreadTid "waitq ?s"] by (auto split: if_splits)
  moreover have "self \<notin> set (zs @ W)" using sinv_threads(1) [OF s2] by simp
  moreover have "self \<notin> set us" "self \<noteq> t"
    using successorD [OF t2] calculation(3) idle2 by (auto simp: idle_ready_def)
  moreover have "tids s' = m" using s'(3) by (simp add: nframe_def)
  moreover have "nthread m = nthread (tids s)" using m(5) s1(3) by (simp add: wframe_def)
  ultimately show ?thesis using s'(2,5-7) m(2-4) s1(4,5) stp by (auto simp: Let_def)
qed

lemma first_waiter:
  assumes "filter (\<lambda>u. chan (waits s u) = ch) (waitq s) = j # js" and "j \<notin> E"
    and "waitq s1 = filter (\<lambda>u. u \<notin> E) (waitq s)" and "\<And>u. u \<notin> E \<Longrightarrow> waits s1 u = waits s u"
  shows "signalled ch False s1 = [j]"
proof -
  have "filter (\<lambda>u. chan (waits s1 u) = ch) (waitq s1) = filter (\<lambda>u. chan (waits s u) = ch \<and> u \<notin> E) (waitq s)"
    using assms(3,4) by (auto intro!: filter_cong)
  also have "\<dots> = filter (\<lambda>u. u \<notin> E) (j # js)" unfolding assms(1) [symmetric] by (simp add: conj_commute)
  finally show ?thesis using assms(2) by (simp add: signalled_def woken_def)
qed

lemma finish_turn_ok:
  assumes b: "basic opt" and c: "core opt s t ys" "tm_inv (tids s)" "\<And>u. tokens opt (waits s u) = 0"
    and st: "status_of s t = Some RUNNING_REG" and f: "can_finish opt t th s"
  shows "\<exists>s' v us. finish_turn opt t th s = Inr s' \<and> core opt s' v us \<and> tm_inv (tids s') \<and>
     tm_zombie th (tids s') \<and> t \<noteq> v \<and> t \<notin> set us \<and> t \<notin> set (waitq s') \<and>
     inter_pro_wakeup_tids s' = [] \<and> nthread (tids s') = nthread (tids s) \<and>
     status_of s' v = Some RUNNING_REG \<and> set (waitq s') \<subseteq> set (waitq s) \<and>
     insert v (set us) \<subseteq> set ys \<union> set (waitq s) \<union> set (inter_pro_wakeup_tids s) \<and>
     (\<forall>u. tokens opt (waits s' u) = (if u = v then 1 else 0)) \<and>
     (\<forall>j js. filter (\<lambda>u. chan (waits s u) = th) (waitq s) = j # js \<longrightarrow> j \<notin> set (waitq s'))"
proof -
  have p: "plain opt" using b by (simp add: basic_def)
  let ?E = "set (expired (s\<lparr>turnCount := turnCount s + 1\<rparr>))"
  obtain s1 zs where s1: "incTurnCount opt s = Inr (turnCount s, s1)" "core opt s1 t zs" "tids s1 = tids s"
     "ticked opt s (t # ys) = t # zs" "idle_done s1 = idle_done s" "waitq s1 = filter (\<lambda>u. u \<notin> ?E) (waitq s)"
     "waits s1 = (\<lambda>u. if u \<in> ?E then (wt_reset ETIMEDOUT (waits s u))\<lparr>wake_reason := TIMEDOUT\<rparr> else waits s u)"
     "inter_pro_wakeup_tids s1 = []" "status_of s1 = status_of s"
    using incTurnCount_core [OF p c(1) refl] by blast
  have f': "t \<noteq> MainThreadTid" "th \<noteq> 0" "t_p_map (tids s1) t = Some th" "can_leave opt t s"
    using f s1(3) by (simp_all add: can_finish_def)
  have st1: "status_of s1 t = Some RUNNING_REG" using st s1(9) by simp
  have tm1: "tm_inv (tids s1)" using c(2) s1(3) by simp
  have idle: "idle_ready opt t s1" if "\<forall>u \<in> set zs. stopped s1 u"
    using can_leaveD [OF c(1) f'(4) s1(4)] that s1(5,6,9) by (simp add: idle_ready_def stopped_def)
  obtain v us where v: "(v, us) = successor s1 (zs @ signalled th False s1)" by (metis surj_pair)
  obtain s' where s': "putTurn opt t th True 0 s1 = Inr s'" "core opt s' v us" "tm_inv (tids s')"
     "tm_zombie th (tids s')" "set (signalled th False s1) \<inter> set (waitq s') = {}" "t \<notin> set us" "t \<noteq> v"
     "set (waitq s') \<subseteq> set (waitq s1)" "inter_pro_wakeup_tids s' = []" "nthread (tids s') = nthread (tids s1)"
     "status_of s' v = Some RUNNING_REG"
     "waits s' = (let w1 = (\<lambda>u. if u \<in> set (signalled th False s1) then (wt_reset 0 (waits s1 u))\<lparr>wake_reason := SIGNAL\<rparr> else waits s1 u)
        in w1(v := wt_post opt (if \<forall>u \<in> set (zs @ signalled th False s1). stopped s1 u then wt_reset 0 (w1 v) else w1 v)))"
    using putTurn_end_ok [OF p s1(2) st1 basic_release [OF b] s1(8) tm1 f'(3,2,1) idle refl v] by blast
  have j: "j \<notin> set (waitq s')" if "filter (\<lambda>u. chan (waits s u) = th) (waitq s) = j # js" for j js
  proof (cases "j \<in> ?E")
    case False
    then have "signalled th False s1 = [j]" using first_waiter [OF that False s1(6)] s1(7) by simp
    then show ?thesis using s'(5) by simp
  qed (use s'(8) s1(6) in auto)
  have tok: "tokens opt (waits s' u) = (if u = v then 1 else 0)" for u
    using s'(12) s1(7) c(3) tokens_simps(1,2,4) [OF p] by (simp add: Let_def)
  have wq: "set (waitq s1) \<subseteq> set (waitq s)" "t \<notin> set (waitq s1)"
    using s1(6) coreD(3) [OF c(1)] by auto
  have vus: "insert v (set us) \<subseteq> set ys \<union> set (waitq s) \<union> set (inter_pro_wakeup_tids s)"
  proof -
    have "set (signalled th False s1) \<subseteq> set (waitq s1)" using woken_subset by (simp add: signalled_def)
    then have "set (zs @ signalled th False s1) \<subseteq> set ys \<union> set (waitq s) \<union> set (inter_pro_wakeup_tids s)"
      using ticked_subset [OF p c(1) s1(4)] wq(1) by auto
    then show ?thesis using successorD [OF v] idle wq(1) by (auto simp: idle_ready_def)
  qed
  have "finish_turn opt t th s = Inr s'" using s'(1) s1(1) by (simp add: finish_turn_def)
  moreover have "t \<notin> set (waitq s')" "nthread (tids s') = nthread (tids s)" "set (waitq s') \<subseteq> set (waitq s)"
    using wq s'(8,10) s1(3) by auto
  ultimately show ?thesis using s'(2-4,6,7,9,11) j tok vus by blast
qed

lemma inv_finish:
  assumes b: "basic opt" and i: "turn_inv opt (s, H)" and t: "t \<in> H" "status_of s t = Some RUNNING_REG"
    and f: "can_finish opt t th s" and g: "finish_turn opt t th s = Inr s'"
  shows "turn_inv opt (s', H - {t})"
proof -
  obtain ys where c: "core opt s t ys" "H = {t}" "tm_inv (tids s)" "\<And>u. tokens opt (waits s u) = 0"
    using turn_inv_holder [OF i t(1)] by metis
  obtain v us where "core opt s' v us" "tm_inv (tids s')" "\<And>u. tokens opt (waits s' u) = (if u = v then 1 else 0)"
    using finish_turn_ok [OF b c(1,3,4) t(2) f] g by auto
  then show ?thesis unfolding c(2) using turn_invI by simp
qed

text \<open>Entering and leaving blocking calls changes one status, and at the end the wake-up set.\<close>

lemma core_set_status:
  assumes c: "core opt s t ys" and a: "tid_map (runq s) u = Some a" and g: "set_status (Some a) st s = Inr s'"
    and st: "u = t \<Longrightarrow> is_running st" "u \<noteq> t \<Longrightarrow> \<not> is_running st" and wq: "u \<notin> set (waitq s)"
  shows "core opt s' t ys" and "qframe s s'" and "status_of s' = (status_of s)(u \<mapsto> st)"
proof -
  note c' = coreD [OF c]
  have s': "sinv opt s' (t # ys) []" "qframe s s'" "status_of s' = (status_of s)(u \<mapsto> st)"
    using set_status_ok [OF c'(1) a, of st] g by auto
  moreover have "wset_ok s' []" using c'(2) s'(2) by (simp add: wset_ok_def qframe_def)
  ultimately show "core opt s' t ys" "qframe s s'" "status_of s' = (status_of s)(u \<mapsto> st)"
    using c'(3-6,8) st wq by (auto simp: core_def qframe_def)
qed

lemma status_thread: "sinv opt s xs hs \<Longrightarrow> status_of s u = Some st \<Longrightarrow> u < nthread (tids s)"
  using sinvD(3) [of opt s xs hs u] by (auto simp: status_of_def th_meta_def split: option.splits)

lemma inv_status:
  assumes i: "turn_inv opt (s, H)" and st: "\<And>t ys. core opt s t ys \<Longrightarrow> core opt s' t ys"
    and fr: "tids s' = tids s" "waits s' = waits s"
  shows "turn_inv opt (s', H)"
  using i st fr unfolding turn_inv_def by fastforce

lemma inv_inter_start:
  assumes i: "turn_inv opt (s, H)" and u: "u \<notin> set (waitq s)" "status_of s u \<in> {Some RUNNABLE, Some RUNNING_REG}"
    and g: "interProStart opt u s = Inr (b, s')"
  shows "turn_inv opt (s', H)"
proof -
  obtain t ys where c: "core opt s t ys" using i by (auto simp: turn_inv_def)
  note c' = coreD [OF c]
  have "u < nthread (tids s)" using u(2) status_thread [OF c'(1)] by auto
  then obtain a st where a: "rq_get_my_elem u (runq s) = Inr (Some a)" "tid_map (runq s) u = Some a"
    "get_status (Some a) s = Inr st" "status_of s u = Some st" using get_status_ok [OF c'(1)] by metis
  define st' where "st' = (if st = RUNNABLE then INTER_PRO_STOP else RUNNING_INTER_PRO)"
  have s': "set_status (Some a) st' s = Inr s'"
    using g a u(2) by (auto simp: interProStart_def st'_def res_bind_eq_Inr split: if_splits)
  have run: "is_running st' \<longleftrightarrow> is_running st" using a(4) u(2) by (auto simp: st'_def is_running_def)
  have "core opt s' v zs" if v: "core opt s v zs" for v zs
  proof (rule core_set_status(1) [OF v a(2) s' _ _ u(1)])
    show "u = v \<Longrightarrow> is_running st'" using coreD(6) [OF v] a(4) run by auto
    show "u \<noteq> v \<Longrightarrow> \<not> is_running st'" using coreD(8) [OF v _ a(4)] run by auto
  qed
  moreover have "qframe s s'" using set_status_ok [OF c'(1) a(2), of st'] s' by auto
  ultimately show ?thesis by (intro inv_status [OF i]) (auto simp: qframe_def)
qed

lemma inv_inter_end:
  assumes i: "turn_inv opt (s, H)" and u: "status_of s u = Some INTER_PRO_STOP"
    and g: "interProEnd opt u s = Inr (b, s')"
  shows "turn_inv opt (wakeup u s', H)"
proof -
  obtain t ys where c: "core opt s t ys" using i by (auto simp: turn_inv_def)
  note c' = coreD [OF c]
  have un: "u < nthread (tids s)" using u status_thread [OF c'(1)] by auto
  then obtain a where a: "rq_get_my_elem u (runq s) = Inr (Some a)" "tid_map (runq s) u = Some a"
    "get_status (Some a) s = Inr INTER_PRO_STOP" using get_status_ok [OF c'(1)] u by (metis option.inject)
  have s': "set_status (Some a) RUNNABLE s = Inr s'"
    using g a by (auto simp: interProEnd_def res_bind_eq_Inr)
  have "core opt (wakeup u s') v zs" if v: "core opt s v zs" for v zs
  proof -
    have wq: "u \<notin> set (waitq s)" using coreD(5) [OF v, of u] u by auto
    have "u \<noteq> v" using coreD(6) [OF v] u by (auto simp: is_running_def)
    then have cs: "core opt s' v zs" "qframe s s'"
      using core_set_status(1,2) [OF v a(2) s' _ _ wq] by (auto simp: is_running_def)
    moreover have "wset_ok (wakeup u s') []"
      using coreD(2) [OF cs(1)] cs(2) wq un by (auto simp: wset_ok_def wakeup_def qframe_def)
    ultimately show ?thesis by (simp add: core_def wakeup_def sinv_def status_of_def)
  qed
  moreover have "qframe s s'" using set_status_ok [OF c'(1) a(2), of RUNNABLE] s' by auto
  ultimately show ?thesis by (intro inv_status [OF i]) (auto simp: qframe_def wakeup_def)
qed

text \<open>The queues are the same before and after.\<close>

lemma set_status_frame:
  assumes c: "core opt s t ys" and a: "tid_map (runq s) u = Some a" and g: "set_status (Some a) st s = Inr s'"
  shows "qframe s s'" and "rq_tids (heap s') (runq s') = rq_tids (heap s) (runq s)"
proof -
  have s': "sinv opt s' (t # ys) []" "qframe s s'" using set_status_ok [OF coreD(1) [OF c] a, of st] g by auto
  then show "qframe s s'" "rq_tids (heap s') (runq s') = rq_tids (heap s) (runq s)"
    using queues_tids [OF sinvD(1) [OF s'(1)]] queues_tids [OF sinvD(1) [OF coreD(1) [OF c]]] by simp_all
qed

lemma inter_frame:
  assumes i: "turn_inv opt (s, H)" and st: "status_of s u = Some st0"
    and g: "interProStart opt u s = Inr (b, s') \<or> interProEnd opt u s = Inr (b, s')"
  shows "qframe s s'" and "rq_tids (heap s') (runq s') = rq_tids (heap s) (runq s)"
proof -
  obtain t ys where c: "core opt s t ys" using i by (auto simp: turn_inv_def)
  obtain a where a: "rq_get_my_elem u (runq s) = Inr (Some a)" "tid_map (runq s) u = Some a"
    using get_status_ok [OF coreD(1) [OF c] status_thread [OF coreD(1) [OF c] st]] by metis
  obtain st' where "set_status (Some a) st' s = Inr s'"
    using g a by (auto simp: interProStart_def interProEnd_def assert_then_def res_simps split: if_splits)
  then show "qframe s s'" "rq_tids (heap s') (runq s') = rq_tids (heap s) (runq s)"
    using set_status_frame [OF c a(2)] by blast+
qed

lemma thread_step_inv:
  assumes "thread_step opt w g g'" and "basic opt" and "turn_inv opt g"
  shows "turn_inv opt g'"
  using assms
proof (induction rule: thread_step.induct)
  case (acquire t H s s')
  then show ?case using inv_acquire by blast
next
  case (put t H s strategy th s')
  then show ?case using inv_put by blast
next
  case (wait t H s ch n s')
  then show ?case using inv_wait by blast
next
  case (block t H s c s')
  then show ?case using inv_block by blast
next
  case (tick t H s c s')
  then show ?case using inv_tick by blast
next
  case (signal t H ch all s s')
  then show ?case using inv_signal by blast
next
  case (create t H s th f u s')
  then show ?case using inv_create by blast
next
  case (finish t H s th s')
  then show ?case using inv_finish by blast
next
  case (inter_start u H s b s')
  then show ?case using inv_inter_start by blast
next
  case (inter_end u H s b s')
  then show ?case using inv_inter_end by blast
qed

lemma turn_step_inv: "turn_step opt g g' \<Longrightarrow> basic opt \<Longrightarrow> turn_inv opt g \<Longrightarrow> turn_inv opt g'"
  unfolding turn_step_def using thread_step_inv by blast

section \<open>Threads that have left\<close>

text \<open>
  The threads the scheduler knows to be around: on the run queue, on the wait queue, or about to
  come back from a blocking call.
\<close>

definition live :: "sched \<Rightarrow> tid set" where
  "live s = {t. \<exists>xs. rq_tids (heap s) (runq s) = Inr xs \<and> t \<in> set xs} \<union> set (waitq s) \<union>
     set (inter_pro_wakeup_tids s)"

lemma live_core: "core opt s t ys \<Longrightarrow> live s = insert t (set ys) \<union> set (waitq s) \<union> set (inter_pro_wakeup_tids s)"
  using queues_tids [OF sinvD(1) [OF coreD(1)]] by (fastforce simp: live_def)

text \<open>
  A step of thread \<open>u\<close> brings nobody in but \<open>u\<close> itself and the thread it creates, and nobody but
  \<open>u\<close> becomes the holder of the turn.
\<close>

lemma thread_step_live:
  assumes "thread_step opt u (s, H) (s', H')" and b: "basic opt" and i: "turn_inv opt (s, H)"
  shows "live s' \<subseteq> live s \<union> {u, nthread (tids s)} \<and> nthread (tids s) \<le> nthread (tids s') \<and> H' \<subseteq> insert u H"
  using assms(1)
proof cases
  case acquire
  then show ?thesis by (auto simp: live_def getTurn_def)
next
  case (put strategy th)
  obtain ys where c: "core opt s u ys" using turn_inv_holder [OF i put(2)] by metis
  have p: "plain opt" using b by (simp add: basic_def)
  obtain k v zs where v: "core opt s' v zs" "nframe s s'" "waitq s' = waitq s" "\<not> inter_pro_wakeup_flag s'"
     "v # zs = dropWhile (stopped s) (requeued strategy k u ys @ returning opt s (requeued strategy k u ys))"
    using putTurn_ok [OF p c put(3,4) basic_release [OF b], of th] put(5) by auto
  have "set (v # zs) \<subseteq> insert u (set ys) \<union> set (inter_pro_wakeup_tids s)"
    unfolding v(5) using returning_subset [OF plainD(4) [OF p] coreD(2) [OF c], of "requeued strategy k u ys"]
    by (auto dest!: set_dropWhileD)
  moreover have "inter_pro_wakeup_tids s' = []" using coreD(2) [OF v(1)] v(4) by (simp add: wset_ok_def)
  ultimately show ?thesis using live_core [OF c] live_core [OF v(1)] v(2,3) put(1) by (auto simp: nframe_def)
next
  case (wait ch n)
  obtain ys where c: "core opt s u ys" using turn_inv_holder [OF i wait(2)] by metis
  have p: "plain opt" using b by (simp add: basic_def)
  obtain zs where zs: "ticked opt s (u # ys) = u # zs" using ticked_Cons by blast
  obtain v us where v: "(v, us) = successor s zs" by (metis surj_pair)
  note idle = can_leaveD [OF c wait(4) zs]
  have s': "core opt s' v us" "tids s' = tids s" "inter_pro_wakeup_tids s' = []" "set (waitq s') \<subseteq> insert u (set (waitq s))"
    using wait_begin_ok [OF p c wait(3) basic_release [OF b] refl zs idle v, of ch n] wait(5)
    by (auto simp: Let_def split: if_splits dest: set_remove1_subset [THEN subsetD])
  have "insert v (set us) \<subseteq> live s"
    using successorD [OF v] idle ticked_subset [OF p c zs] live_core [OF c] by (auto simp: idle_ready_def)
  then show ?thesis using live_core [OF c] live_core [OF s'(1)] s'(2-4) wait(1) by auto
next
  case (block c0)
  obtain ys where c: "core opt s u ys" using turn_inv_holder [OF i block(2)] by metis
  have p: "plain opt" using b by (simp add: basic_def)
  obtain st where st: "status_of s u = Some st" using coreD(6) [OF c] by blast
  obtain zs where zs: "ticked opt s (u # ys) = u # zs" using ticked_Cons by blast
  obtain v us where v: "(v, us) = successor s zs" by (metis surj_pair)
  note idle = can_leaveD [OF c block(3) zs]
  have s': "core opt s' v us" "tids s' = tids s" "inter_pro_wakeup_tids s' = []" "set (waitq s') \<subseteq> set (waitq s)"
    using block_turn_ok [OF p c st basic_release [OF b] refl zs idle v] block(4) by auto
  have "insert v (set us) \<subseteq> live s"
    using successorD [OF v] idle ticked_subset [OF p c zs] live_core [OF c] by (auto simp: idle_ready_def)
  then show ?thesis using live_core [OF c] live_core [OF s'(1)] s'(2-4) block(1) by auto
next
  case (tick c0)
  obtain ys where c: "core opt s u ys" using turn_inv_holder [OF i tick(2)] by metis
  have p: "plain opt" using b by (simp add: basic_def)
  obtain zs where s': "core opt s' u zs" "tids s' = tids s" "ticked opt s (u # ys) = u # zs"
     "inter_pro_wakeup_tids s' = []" "set (waitq s') \<subseteq> set (waitq s)"
    using incTurnCount_core [OF p c refl] tick(3) by auto
  then show ?thesis
    using ticked_subset [OF p c s'(3)] live_core [OF c] live_core [OF s'(1)] tick(1) by auto
next
  case (signal ch all)
  obtain ys where c: "core opt s u ys" using turn_inv_holder [OF i signal(2)] by metis
  have p: "plain opt" using b by (simp add: basic_def)
  have s': "core opt s' u (ys @ signalled ch all s)" "wframe s s'" "set (waitq s') \<subseteq> set (waitq s)"
    using signal_core [OF p c signal(3) refl, of all] signal(4) by auto
  moreover have "set (signalled ch all s) \<subseteq> set (waitq s)" using woken_subset by (simp add: signalled_def)
  ultimately show ?thesis using live_core [OF c] live_core [OF s'(1)] signal(1) by (auto simp: wframe_def)
next
  case (create th f n)
  obtain ys where c: "core opt s u ys" "tm_inv (tids s)" using turn_inv_holder [OF i create(2)] by metis
  have p: "plain opt" using b by (simp add: basic_def)
  have s': "core opt s' u (ys @ [nthread (tids s)])" "nthread (tids s') = Suc (nthread (tids s))"
     "waitq s' = waitq s" "inter_pro_wakeup_tids s' = inter_pro_wakeup_tids s"
    using sched_create_ok [OF p c create(3,4), of f] create(5) by auto
  then show ?thesis using live_core [OF c(1)] live_core [OF s'(1)] create(1) by auto
next
  case (finish th)
  obtain ys where c: "core opt s u ys" "tm_inv (tids s)" "\<And>w. tokens opt (waits s w) = 0"
    using turn_inv_holder [OF i finish(2)] by metis
  obtain v us where s': "core opt s' v us" "inter_pro_wakeup_tids s' = []" "nthread (tids s') = nthread (tids s)"
     "set (waitq s') \<subseteq> set (waitq s)" "insert v (set us) \<subseteq> set ys \<union> set (waitq s) \<union> set (inter_pro_wakeup_tids s)"
    using finish_turn_ok [OF b c finish(3,4)] finish(5) by auto
  then show ?thesis using live_core [OF c(1)] live_core [OF s'(1)] finish(1) by auto
next
  case (inter_start b0)
  obtain st where st: "status_of s u = Some st" using inter_start(4) by auto
  show ?thesis
    using inter_frame [OF i st disjI1 [OF inter_start(5)]] inter_start(1) by (auto simp: live_def qframe_def)
next
  case (inter_end b0 s2)
  show ?thesis using inter_frame [OF i inter_end(4) disjI2 [OF inter_end(5)]] inter_end(1,2)
    by (auto simp: live_def wakeup_def qframe_def)
qed

text \<open>
  A thread that has left the process for good: it is not around, and its identifier is taken. No
  sequence of steps of other threads brings it back.
\<close>

definition gone :: "tid \<Rightarrow> sched \<times> tid set \<Rightarrow> bool" where
  "gone t g \<longleftrightarrow> t \<notin> live (fst g) \<and> t \<notin> snd g \<and> t < nthread (tids (fst g))"

definition others_step :: "options \<Rightarrow> tid \<Rightarrow> sched \<times> tid set \<Rightarrow> sched \<times> tid set \<Rightarrow> bool" where
  "others_step opt t g g' \<longleftrightarrow> (\<exists>u. u \<noteq> t \<and> thread_step opt u g g')"

lemma gone_step:
  assumes "others_step opt t g g'" and "basic opt" and "turn_inv opt g" and "gone t g"
  shows "turn_inv opt g' \<and> gone t g'"
proof -
  obtain u where u: "u \<noteq> t" "thread_step opt u g g'" using assms(1) by (auto simp: others_step_def)
  then have "turn_inv opt g'" using thread_step_inv assms(2,3) by blast
  then show ?thesis
    using thread_step_live [of opt u "fst g" "snd g" "fst g'" "snd g'"] u assms(2-4) by (auto simp: gone_def)
qed

lemma gone_for_good:
  assumes "(others_step opt t)\<^sup>*\<^sup>* g g'" and "basic opt" and "turn_inv opt g" and "gone t g"
  shows "turn_inv opt g' \<and> gone t g'"
  using assms(1)
proof (induction rule: rtranclp_induct)
  case base
  then show ?case using assms(3,4) by simp
next
  case (step g' g'')
  then show ?case using gone_step assms(2) by blast
qed

lemma gone_no_turn:
  assumes b: "basic opt" and i: "turn_inv opt (s, H)" and g: "gone t (s, H)"
  shows "getTurn opt t s = None" and "t \<notin> H" and "t \<notin> set (waitq s)"
    and "\<exists>xs. rq_tids (heap s) (runq s) = Inr xs \<and> t \<notin> set xs"
proof -
  obtain v ys where v: "core opt s v ys" "\<forall>u. u \<noteq> v \<longrightarrow> tokens opt (waits s u) = 0"
    using i by (auto simp: turn_inv_def)
  have "t \<noteq> v" "t \<notin> set ys" using g live_core [OF v(1)] by (auto simp: gone_def)
  then show "getTurn opt t s = None" "\<exists>xs. rq_tids (heap s) (runq s) = Inr xs \<and> t \<notin> set xs"
    using v(2) tokens_simps(5) b queues_tids [OF sinvD(1) [OF coreD(1) [OF v(1)]]] by (simp_all add: getTurn_def basic_def)
  show "t \<notin> H" "t \<notin> set (waitq s)" using g by (simp_all add: gone_def live_def)
qed

section \<open>The initial state\<close>

lemma queues_initial:
  assumes "elems_ok M m" and "unlinked M m {}" and "tid_map q \<subseteq>\<^sub>m M" and "tid_map p \<subseteq>\<^sub>m M"
    and "rq_list m q []" and "rq_list m p []"
  shows "queues M m q [] p []"
  using assms by (simp add: queues_def)

lemma rr_new_ok:
  assumes b: "basic opt"
  shows "\<exists>s. rr_new opt th = Inr s \<and> turn_inv opt (s, {}) \<and> turnCount s = 0 \<and>
     core opt s MainThreadTid [] \<and> nthread (tids s) = 1 \<and> waitq s = [] \<and>
     \<not> inter_pro_wakeup_flag s \<and> p_t_map (tids s) = [th \<mapsto> MainThreadTid] \<and> zombies (tids s) = {} \<and>
     status_of s MainThreadTid = Some RUNNING_REG"
proof -
  have p: "plain opt" using b by (simp add: basic_def)
  note pd = plainD [OF p]
  obtain tm where tm: "tm_init opt th tm_cleared = Inr tm" "tm_inv tm" "nthread tm = 1"
      "p_t_map tm = [th \<mapsto> MainThreadTid]" "zombies tm = {}"
    using tm_reset_spec [of opt th tm_cleared] by (auto simp: tm_reset_def tm_cleared_def)
  let ?m0 = "\<lparr>cells = Map.empty, brk = 1\<rparr> :: mem"
  obtain q where q: "rq_new ?m0 = Inr (?m0, q)" "tid_map q = Map.empty" "rq_list ?m0 q []"
    using rq_new_spec [of ?m0] by blast
  let ?e = "new_runq_elem MainThreadTid"
  let ?m1 = "\<lparr>cells = [1 \<mapsto> ?e], brk = 2\<rparr> :: mem"
  let ?q1 = "q\<lparr>tid_map := [MainThreadTid \<mapsto> 1]\<rparr>"
  have cr: "rq_create_thd_elem MainThreadTid ?m0 q = Inr (1, ?m1, ?q1)"
    using q(2) by (simp add: rq_create_thd_elem_def MAX_THREAD_NUM_def MainThreadTid_def Let_def)
  let ?s = "\<lparr>tids = tm, turnCount = 0, heap = ?m1, runq = ?q1, hp_runq = q, waitq = [],
     non_det_thds = nd_new, waits = (\<lambda>_. wt_new), inter_pro_wakeup_tids = [],
     inter_pro_wakeup_flag = False, idle_done = False, nNonDetWait = 0, inSync = False, idle_cond_signals = 0\<rparr>"
  have "queues (tid_map ?q1) ?m1 ?q1 [] q []"
    by (rule queues_initial)
      (use q in \<open>auto simp: elems_ok_def unlinked_def new_runq_elem_def MAX_THREAD_NUM_def MainThreadTid_def rq_list_def\<close>)
  then have s0: "sinv opt ?s [] []" using tm(3) pd(2) by (auto simp: sinv_def MainThreadTid_def)
  obtain s1 where s1: "runq_push_back MainThreadTid ?s = Inr s1" "sinv opt s1 [MainThreadTid] []" "qframe ?s s1"
    "status_of s1 = status_of ?s"
    using runq_push_back_ok [OF s0, of MainThreadTid] tm(3) by (auto simp: MainThreadTid_def)
  let ?s2 = "post opt MainThreadTid s1"
  have s2: "sinv opt ?s2 [MainThreadTid] []" using s1(2) by (simp add: post_def)
  have "tid_map (runq ?s2) MainThreadTid = Some 1" using s1(3) by (simp add: post_def qframe_def)
  from set_status_ok [OF s2 this, of RUNNING_REG]
  obtain s3 where s3: "set_status (Some 1) RUNNING_REG ?s2 = Inr s3" "sinv opt s3 [MainThreadTid] []" "qframe ?s2 s3"
    "status_of s3 = (status_of ?s2)(MainThreadTid \<mapsto> RUNNING_REG)" by blast
  have run: "rr_new opt th = Inr s3"
    using tm(1) q(1) cr s1(1) s3(1) pd(2) by (simp add: rr_new_def Let_def)
  have f3: "tids s3 = tm" "waitq s3 = []" "waits s3 = (\<lambda>_. wt_new)(MainThreadTid := wt_post opt wt_new)"
      "inter_pro_wakeup_tids s3 = []" "\<not> inter_pro_wakeup_flag s3" "turnCount s3 = 0"
    using s1(3) s3(3) by (simp_all add: qframe_def post_def)
  have only: "u = MainThreadTid" if "status_of s3 u = Some st" for u st
    using status_thread [OF s3(2) that] f3(1) tm(3) by (simp add: MainThreadTid_def)
  have w0: "\<not> woken_up_from_hp_queue_flag wt_new" "tokens opt wt_new = 0"
    by (simp_all add: wt_new_def wt_reset_def tokens_def)
  have c: "core opt s3 MainThreadTid []"
  proof -
    have "\<forall>u. \<not> woken_up_from_hp_queue_flag (waits s3 u)" using f3(3) w0(1) by simp
    moreover have "\<forall>u st. u \<noteq> MainThreadTid \<and> status_of s3 u = Some st \<longrightarrow> \<not> is_running st" using only by blast
    moreover have "\<exists>st. status_of s3 MainThreadTid = Some st \<and> is_running st" using s3(4) by (simp add: is_running_def)
    moreover have "wset_ok s3 []" using f3(4,5) by (simp add: wset_ok_def)
    ultimately show ?thesis unfolding core_def using s3(2) f3(2) by simp
  qed
  have "turn_inv opt (s3, {})"
    using turn_invI [OF c] f3(1,3) tm(2) w0(2) tokens_simps(1) [OF p] by simp
  then show ?thesis using run c f3 tm(3-5) s3(4) by simp
qed

section \<open>Consequences\<close>

lemma turn_reach_inv:
  assumes "basic opt" and "rr_new opt th = Inr s0" and "(turn_step opt)\<^sup>*\<^sup>* (s0, {}) g"
  shows "turn_inv opt g"
  using assms(3)
proof (induction rule: rtranclp_induct)
  case base
  then show ?case using rr_new_ok [OF assms(1), of th] assms(2) by auto
next
  case (step g g')
  then show ?case using turn_step_inv assms(1) by blast
qed

lemma turn_inv_getTurn:
  assumes "basic opt" and "turn_inv opt (s, H)"
  shows "H = {} \<Longrightarrow> \<exists>!t. getTurn opt t s \<noteq> None" and "H \<noteq> {} \<Longrightarrow> getTurn opt t s = None"
proof -
  have p: "plain opt" using assms(1) by (simp add: basic_def)
  have g: "getTurn opt t s = None \<longleftrightarrow> tokens opt (waits s t) = 0" for t
    using tokens_simps(5) [OF p] by (simp add: getTurn_def)
  show "\<exists>!t. getTurn opt t s \<noteq> None" if "H = {}"
  proof -
    obtain v where "\<And>u. tokens opt (waits s u) = (if u = v then 1 else 0)"
      using assms(2) \<open>H = {}\<close> by (auto simp: turn_inv_def)
    then show ?thesis unfolding g by (intro ex1I [of _ v]) (auto split: if_splits)
  qed
  show "getTurn opt t s = None" if "H \<noteq> {}"
    using assms(2) that unfolding g by (auto simp: turn_inv_def)
qed

lemma turn_inv_front:
  assumes "turn_inv opt (s, H)" and "t \<in> H"
  shows "H = {t}" and "rq_front (heap s) (runq s) = Inr t"
proof -
  obtain ys where "core opt s t ys" "H = {t}" using turn_inv_holder [OF assms] by metis
  then show "H = {t}" "rq_front (heap s) (runq s) = Inr t"
    using queues_front(1) [OF sinvD(1) [OF coreD(1)]] by auto
qed

lemma basic_default: "basic default_options"
  by (simp add: basic_def plain_def policy_def default_options_def order_ok_def)

text \<open>A reachable state in which the main thread holds the turn.\<close>

lemma main_acquires:
  assumes "basic opt"
  obtains s0 s1 where "rr_new opt th = Inr s0" "(turn_step opt)\<^sup>*\<^sup>* (s0, {}) (s1, {MainThreadTid})"
proof -
  obtain s0 where s0: "rr_new opt th = Inr s0" "turn_inv opt (s0, {})" "core opt s0 MainThreadTid []"
    using rr_new_ok [OF assms] by blast
  obtain t ys where t: "core opt s0 t ys" "\<And>u. tokens opt (waits s0 u) = (if u = t then 1 else 0)"
    using s0(2) by (auto simp: turn_inv_def)
  have "t = MainThreadTid" using coreD(6) [OF t(1)] coreD(8) [OF s0(3)] by blast
  then have "getTurn opt MainThreadTid s0 \<noteq> None"
    using t(2) tokens_simps(5) [of opt "inSync s0" "waits s0 MainThreadTid"] assms by (simp add: getTurn_def basic_def)
  then obtain s1 where "getTurn opt MainThreadTid s0 = Some s1" by blast
  then have "turn_step opt (s0, {}) (s1, {MainThreadTid})" using acquire [of MainThreadTid "{}"] by (auto simp: turn_step_def)
  then show thesis using that s0(1) by blast
qed

end
