(* ===== verification/SyncFuncs.thy ===== *)
theory SyncFuncs
  imports Prelude
begin

text \<open>
  The central table of the synchronization operations and blocking system calls the runtime
  hooks, \<open>include/tern/syncfuncs.def.h\<close>, with the accessors of
  \<open>include/tern/syncfuncs.h\<close> and \<open>lib/common/syncfuncs.cpp\<close>. The constants of the
  enumeration the table generates are represented by their names; the value of a constant is its
  position in the table, counted from \<open>1\<close>, and \<open>0\<close> is \<open>not_sync\<close>.

  The lemmas show that values, names and the names of the hooks determine each other.
\<close>

section \<open>The table\<close>

datatype sync_kind = Synchronization | BlockingSyscall | TernUser | TernAuto

type_synonym syncfunc = string

definition sync_table :: "(syncfunc \<times> sync_kind) list" where
  "sync_table = [
     (''pthread_create'', Synchronization), (''pthread_join'', Synchronization),
     (''pthread_detach'', Synchronization), (''pthread_cancel'', Synchronization),
     (''pthread_exit'', Synchronization), (''pthread_mutex_init'', Synchronization),
     (''pthread_mutex_lock'', Synchronization), (''pthread_mutex_unlock'', Synchronization),
     (''pthread_mutex_trylock'', Synchronization),
     (''pthread_mutex_timedlock'', Synchronization),
     (''pthread_mutex_destroy'', Synchronization), (''pthread_rwlock_rdlock'', Synchronization),
     (''pthread_rwlock_tryrdlock'', Synchronization),
     (''pthread_rwlock_trywrlock'', Synchronization),
     (''pthread_rwlock_wrlock'', Synchronization), (''pthread_rwlock_unlock'', Synchronization),
     (''pthread_rwlock_destroy'', Synchronization), (''pthread_rwlock_init'', Synchronization),
     (''pthread_cond_wait'', Synchronization), (''pthread_cond_timedwait'', Synchronization),
     (''pthread_cond_broadcast'', Synchronization), (''pthread_cond_signal'', Synchronization),
     (''pthread_barrier_init'', Synchronization), (''pthread_barrier_wait'', Synchronization),
     (''pthread_barrier_destroy'', Synchronization), (''sem_init'', Synchronization),
     (''sem_post'', Synchronization), (''sem_wait'', Synchronization),
     (''sem_trywait'', Synchronization), (''sem_timedwait'', Synchronization),
     (''socket'', Synchronization), (''listen'', Synchronization), (''accept'', BlockingSyscall),
     (''accept4'', BlockingSyscall), (''connect'', BlockingSyscall),
     (''gethostbyname'', Synchronization), (''gethostbyname_r'', Synchronization),
     (''getaddrinfo'', Synchronization), (''freeaddrinfo'', Synchronization),
     (''gethostbyaddr'', Synchronization), (''inet_ntoa'', Synchronization),
     (''strtok'', Synchronization), (''send'', Synchronization), (''sendto'', Synchronization),
     (''sendmsg'', Synchronization), (''recv'', BlockingSyscall),
     (''recvfrom'', BlockingSyscall), (''recvmsg'', BlockingSyscall),
     (''shutdown'', Synchronization), (''getpeername'', Synchronization),
     (''getsockopt'', Synchronization), (''setsockopt'', Synchronization),
     (''pipe'', BlockingSyscall), (''fcntl'', Synchronization), (''close'', Synchronization),
     (''read'', BlockingSyscall), (''write'', Synchronization), (''pread'', BlockingSyscall),
     (''pwrite'', Synchronization), (''select'', BlockingSyscall), (''poll'', Synchronization),
     (''bind'', Synchronization), (''kill'', Synchronization), (''fork'', Synchronization),
     (''execv'', Synchronization), (''sched_yield'', Synchronization),
     (''wait'', Synchronization), (''waitpid'', Synchronization), (''time'', Synchronization),
     (''clock_getres'', Synchronization), (''clock_gettime'', Synchronization),
     (''clock_settime'', Synchronization), (''gettimeofday'', Synchronization),
     (''settimeofday'', Synchronization), (''sleep'', BlockingSyscall),
     (''usleep'', BlockingSyscall), (''nanosleep'', BlockingSyscall),
     (''epoll_wait'', BlockingSyscall), (''epoll_create'', Synchronization),
     (''epoll_ctl'', Synchronization), (''sigwait'', BlockingSyscall),
     (''fgets'', BlockingSyscall), (''tern_symbolic'', TernUser),
     (''tern_dummy_sync'', TernUser), (''tern_ext_get_turn'', TernUser),
     (''tern_ext_put_turn'', TernUser), (''tern_set_flag'', TernUser),
     (''tern_thread_begin'', TernAuto), (''tern_thread_end'', TernAuto),
     (''tern_task_begin'', TernUser), (''tern_task_end'', TernUser),
     (''tern_lineup_init'', TernUser), (''tern_lineup_destroy'', TernUser),
     (''tern_lineup_start'', TernUser), (''tern_lineup_end'', TernUser),
     (''tern_lineup'', TernUser), (''tern_non_det_start'', TernUser),
     (''tern_non_det_end'', TernUser), (''tern_fix_up'', TernAuto),
     (''tern_fix_down'', TernAuto), (''tern_idle'', TernAuto)]"

definition num_syncs :: nat where
  "num_syncs = length sync_table + 1"

definition first_sync :: nat where
  "first_sync = 1"

section \<open>Accessors\<close>

text \<open>The arrays \<open>kind\<close>, \<open>name\<close> and \<open>nameInTern\<close>.\<close>

definition kind_of :: "nat \<Rightarrow> sync_kind" where
  "kind_of nr = snd (sync_table ! (nr - 1))"

definition name_of :: "nat \<Rightarrow> string" where
  "name_of nr = fst (sync_table ! (nr - 1))"

definition tern_name :: "syncfunc \<times> sync_kind \<Rightarrow> string" where
  "tern_name e = (case e of (f, k) \<Rightarrow> (case k of
     TernAuto \<Rightarrow> f | TernUser \<Rightarrow> f @ ''_real'' | _ \<Rightarrow> ''tern_'' @ f))"

definition valid_sync :: "nat \<Rightarrow> bool" where
  "valid_sync nr \<longleftrightarrow> first_sync \<le> nr \<and> nr < num_syncs"

text \<open>
  The accessors assert that the number is in range; outside it the arrays are read out of
  bounds when assertions are off, which is a fault here in either build.
\<close>

definition isSync :: "nat \<Rightarrow> bool res" where
  "isSync nr = check OutOfRange (valid_sync nr) (Inr (kind_of nr = Synchronization))"

definition isBlockingSyscall :: "nat \<Rightarrow> bool res" where
  "isBlockingSyscall nr = check OutOfRange (valid_sync nr) (Inr (kind_of nr = BlockingSyscall))"

definition isTern :: "nat \<Rightarrow> bool res" where
  "isTern nr = check OutOfRange (valid_sync nr) (Inr (kind_of nr = TernUser \<or> kind_of nr = TernAuto))"

definition isTernUser :: "nat \<Rightarrow> bool res" where
  "isTernUser nr = check OutOfRange (valid_sync nr) (Inr (kind_of nr = TernUser))"

definition isTernAuto :: "nat \<Rightarrow> bool res" where
  "isTernAuto nr = check OutOfRange (valid_sync nr) (Inr (kind_of nr = TernAuto))"

definition getName :: "nat \<Rightarrow> string res" where
  "getName nr = check OutOfRange (valid_sync nr) (Inr (name_of nr))"

definition getTernName :: "nat \<Rightarrow> string res" where
  "getTernName nr = check OutOfRange (valid_sync nr) (Inr (tern_name (sync_table ! (nr - 1))))"

text \<open>The linear searches; \<open>i\<close> is the number of the first entry of the rest of the table.\<close>

primrec name_search :: "('a \<Rightarrow> string) \<Rightarrow> string \<Rightarrow> nat \<Rightarrow> 'a list \<Rightarrow> nat" where
  "name_search f n i [] = 0"
| "name_search f n i (e # es) = (if n = f e then i else name_search f n (i + 1) es)"

definition getNameID :: "string \<Rightarrow> nat" where
  "getNameID n = name_search fst n first_sync sync_table"

definition getTernNameID :: "string \<Rightarrow> nat" where
  "getTernNameID n = name_search tern_name n first_sync sync_table"

section \<open>Round trips\<close>

lemma name_search_nth:
  assumes "distinct (map f es)" and "j < length es" and "0 < i"
  shows "name_search f (f (es ! j)) i es = i + j"
  using assms
proof (induction es arbitrary: i j)
  case (Cons e es)
  show ?case
  proof (cases j)
    case (Suc k)
    then have "f (es ! k) \<noteq> f e" using Cons.prems by (metis Suc_less_eq distinct.simps(2) image_eqI length_Cons list.simps(9) list.set_map nth_mem)
    then show ?thesis using Cons Suc by simp
  qed simp
qed simp

lemma name_search_none: "n \<notin> f ` set es \<Longrightarrow> name_search f n i es = 0"
  by (induction es arbitrary: i) auto

text \<open>
  A search answers the number of the one entry of that name, or \<open>not_sync\<close> (\<open>0\<close>) when there
  is none; all it needs is that the names of the table differ.
\<close>

lemma name_search_found:
  assumes "name_search f n i es = k" and "0 < k" and "0 < i"
  shows "i \<le> k \<and> k < i + length es \<and> f (es ! (k - i)) = n"
  using assms
proof (induction es arbitrary: i)
  case (Cons e es)
  show ?case
  proof (cases "n = f e")
    case False
    then have "Suc i \<le> k \<and> k < Suc i + length es \<and> f (es ! (k - Suc i)) = n"
      using Cons.IH [of "Suc i"] Cons.prems by simp
    moreover from this have "k - i = Suc (k - Suc i)" by arith
    ultimately show ?thesis by simp
  qed (use Cons.prems in auto)
qed simp

locale name_table =
  fixes table :: "'a list"
    and name :: "'a \<Rightarrow> string"
  assumes names_differ: "distinct (map name table)"
begin

lemma search_nth: "j < length table \<Longrightarrow> name_search name (name (table ! j)) first_sync table = Suc j"
  using name_search_nth [OF names_differ, of j first_sync] by (simp add: first_sync_def)

lemma search_iff:
  assumes "nr \<noteq> 0"
  shows "name_search name n first_sync table = nr \<longleftrightarrow> nr \<le> length table \<and> name (table ! (nr - 1)) = n"
proof
  assume "name_search name n first_sync table = nr"
  then show "nr \<le> length table \<and> name (table ! (nr - 1)) = n"
    using name_search_found [of name n first_sync table nr] assms by (simp add: first_sync_def)
next
  assume "nr \<le> length table \<and> name (table ! (nr - 1)) = n"
  then show "name_search name n first_sync table = nr" using search_nth [of "nr - 1"] assms by auto
qed

lemma search_none: "name_search name n first_sync table = 0 \<longleftrightarrow> n \<notin> name ` set table"
proof
  assume z: "name_search name n first_sync table = 0"
  show "n \<notin> name ` set table"
  proof
    assume "n \<in> name ` set table"
    then obtain j where "j < length table" "n = name (table ! j)" by (auto simp: in_set_conv_nth)
    then show False using z search_nth [of j] by simp
  qed
qed (rule name_search_none)

end

lemma names_distinct: "distinct (map fst sync_table)"
  by code_simp

lemma tern_names_distinct: "distinct (map tern_name sync_table)"
  by code_simp

interpretation by_name: name_table sync_table fst
  by unfold_locales (rule names_distinct)

interpretation by_tern_name: name_table sync_table tern_name
  by unfold_locales (rule tern_names_distinct)

lemma valid_sync_iff: "valid_sync nr \<longleftrightarrow> nr \<noteq> 0 \<and> nr \<le> length sync_table"
  by (auto simp: valid_sync_def first_sync_def num_syncs_def)

lemma getNameID_iff: "getNameID n = nr \<and> nr \<noteq> 0 \<longleftrightarrow> getName nr = Inr n"
  using by_name.search_iff [of nr n]
  by (auto simp: getNameID_def getName_def check_def name_of_def valid_sync_iff)

lemma getTernNameID_iff: "getTernNameID n = nr \<and> nr \<noteq> 0 \<longleftrightarrow> getTernName nr = Inr n"
  using by_tern_name.search_iff [of nr n]
  by (auto simp: getTernNameID_def getTernName_def check_def valid_sync_iff)

end
