(* ===== verification/RtBase.thy ===== *)
theory RtBase
  imports Scheduler SyncFuncs "HOL-Library.Signed_Division"
begin

text \<open>
  The base of the runtime layer, \<open>RecorderRT<RRScheduler>\<close> of
  \<open>lib/runtime/record-runtime.cpp\<close>: its global and thread-local state, the POSIX objects it
  operates on, the time conversions, and the macros that open and close every deterministic
  operation (\<open>SCHED_TIMER_START\<close>, \<open>SCHED_TIMER_END\<close> and their variants).

  An operation runs in segments. A segment starts when the thread has got the turn and runs to
  the call that gives the turn up. Its outcome is \<open>Done ret error\<close> (the operation returns
  \<open>ret\<close> and leaves \<open>error\<close> in its reference argument), \<open>Await k\<close> (it waits for the turn
  again and continues at \<open>k\<close>) or \<open>Native f args\<close> (inside a non-deterministic region the
  call is handed to the operating system and its result returned).
\<close>

section \<open>Time\<close>

record timespec =
  tv_sec :: int
  tv_nsec :: int

definition time_diff :: "timespec \<Rightarrow> timespec \<Rightarrow> timespec" where
  "time_diff start fin =
     (if tv_nsec fin - tv_nsec start < 0
      then \<lparr>tv_sec = tv_sec fin - tv_sec start - 1, tv_nsec = 1000000000 - tv_nsec start + tv_nsec fin\<rparr>
      else \<lparr>tv_sec = tv_sec fin - tv_sec start, tv_nsec = tv_nsec fin - tv_nsec start\<rparr>)"

text \<open>The result is an \<open>unsigned int\<close>; the division of the language truncates towards zero.\<close>

definition timespec_to_usec :: "timespec \<Rightarrow> u32" where
  "timespec_to_usec t = word_of_int (tv_sec t * 1000000 + tv_nsec t sdiv 1000)"

definition MAX_REL :: "64 word" where
  "MAX_REL = 1000000"

text \<open>The argument is a \<open>uint64_t\<close>; the division is unsigned, and the result fits an \<open>int\<close>.\<close>

definition time2turn :: "options \<Rightarrow> 64 word \<Rightarrow> int res" where
  "time2turn opt nsec =
     (if launch_idle_thread opt = 0 then Inl (ExitProcess 1)
      else check DivisionByZero ((word_of_int (nanosec_per_turn opt) :: 64 word) \<noteq> 0)
             (let ret64 = nsec div word_of_int (nanosec_per_turn opt)
              in Inr (if ret64 > MAX_REL then uint MAX_REL else uint ret64)))"

text \<open>\<open>reltime\<close> is null or a time; \<open>nthread\<close> is the number of threads created so far.\<close>

definition relTimeToTurn :: "options \<Rightarrow> nat \<Rightarrow> timespec option \<Rightarrow> int res" where
  "relTimeToTurn opt n reltime = (case reltime of
     None \<Rightarrow> Inr 0
   | Some t \<Rightarrow>
       res_bind (time2turn opt (word_of_int (tv_sec t * 1000000000 + tv_nsec t))) (\<lambda>ret.
       Inr (if ret < 5 * int n + 1 then 5 * int n + 1 else ret)))"

section \<open>POSIX objects\<close>

definition EPERM :: int where
  "EPERM = 1"

definition EAGAIN :: int where
  "EAGAIN = 11"

definition EBUSY :: int where
  "EBUSY = 16"

definition PTHREAD_BARRIER_SERIAL_THREAD :: int where
  "PTHREAD_BARRIER_SERIAL_THREAD = - 1"

definition SEM_VALUE_MAX :: nat where
  "SEM_VALUE_MAX = 2147483647"

definition EOVERFLOW :: int where
  "EOVERFLOW = 75"

lemmas errno_defs = EPERM_def EAGAIN_def EBUSY_def EOVERFLOW_def ETIMEDOUT_def

datatype mutex_kind = MNormal | MRecursive | MErrorcheck

record mutex =
  m_kind :: mutex_kind
  m_owner :: "tid option"
  m_count :: nat

record rwlock =
  rw_writer :: "tid option"
  rw_readers :: nat

section \<open>State of the runtime\<close>

text \<open>The variables declared \<open>__thread\<close>; \<open>th_handle\<close> is \<open>pthread_self()\<close>.\<close>

record tls =
  th_handle :: pthread
  errno :: int
  app_space :: bool
  inNonDet :: bool
  inNoWaitNonDet :: bool
  noCSWholeLocal :: bool
  inCSLevel :: int
  slock_n_turns :: int
  satisfyingCV :: vptr
  satisfyingSem :: vptr
  satisfyingRole :: "addr option"
  this_task :: u32
  task_start_time :: timespec
  yield_this :: bool
  process_proposed_role :: bool
  my_base_time :: timespec

record barrier_t =
  b_count :: int
  b_narrived :: int

datatype PHASE = ARRIVING | LEAVING

text \<open>\<open>rb_addr\<close> is the address of the object, which is the channel its threads wait on.\<close>

record ref_cnt_barrier_t =
  rb_addr :: vptr
  rb_count :: u32
  rb_nactive :: u32
  rb_timeout :: u32
  rb_phase :: PHASE
  rb_nSuccess :: int
  rb_nTimeout :: int

record Addr_n_role =
  an_addr :: int
  an_roleid :: nat

record runtime_stat =
  nDetPthreadSyncOp :: int
  nInterProcSyncOp :: int
  nLineupSucc :: int
  nLineupTimeout :: int
  nNonDetRegions :: int
  nNonDetPthreadSync :: int

record log_entry =
  l_tid :: tid
  l_ins :: u32
  l_op :: syncfunc
  l_turn :: u32
  l_after :: bool
  l_args :: "int list"

text \<open>
  A map read with \<open>operator[]\<close>, whose missing entries read as zero or null, is a total
  function; one that is searched with \<open>find\<close> or \<open>count\<close> is a partial one.
  \<open>role_cells\<close> holds the \<open>Addr_n_role\<close> objects created with \<open>new\<close>.
\<close>

record rt =
  sch :: sched
  tls_of :: "tid \<Rightarrow> tls"
  mutexes :: "vptr \<Rightarrow> mutex"
  rwlocks :: "vptr \<Rightarrow> rwlock"
  sems :: "vptr \<Rightarrow> nat"
  cond_map :: "vptr \<Rightarrow> int"
  sem_map :: "vptr \<Rightarrow> int"
  barriers :: "vptr \<Rightarrow> barrier_t option"
  refcnt_bars :: "u32 \<Rightarrow> ref_cnt_barrier_t option"
  blocked_cv_line_map :: "vptr \<Rightarrow> addr option"
  blocked_cv_count_map :: "Addr_n_role \<Rightarrow> int option"
  role_cells :: "addr \<Rightarrow> Addr_n_role option"
  rt_brk :: addr
  proposed_role :: "(pthread \<times> func) list"
  per_sync_stats :: "tid \<Rightarrow> syncfunc \<Rightarrow> int"
  stat :: runtime_stat
  slog :: "log_entry list"
  idle_th :: pthread
  idle_created :: bool
  no_child_threads_created :: bool
  thread_begin_sem :: nat
  thread_begin_done_sem :: nat
  dmt_lock_holder :: int
  app_time_table :: "int \<Rightarrow> u32 option"

datatype 'k outcome = Done int int | Native syncfunc "int list" | Await 'k

definition upd_tls :: "tid \<Rightarrow> (tls \<Rightarrow> tls) \<Rightarrow> rt \<Rightarrow> rt" where
  "upd_tls t f r = r\<lparr>tls_of := (tls_of r)(t := f (tls_of r t))\<rparr>"

text \<open>Running a scheduler operation inside the runtime.\<close>

definition on_sched :: "(sched \<Rightarrow> sched res) \<Rightarrow> rt \<Rightarrow> rt res" where
  "on_sched f r = res_bind (f (sch r)) (\<lambda>s. Inr (r\<lparr>sch := s\<rparr>))"

section \<open>POSIX calls\<close>

text \<open>\<open>errno = error\<close>, which precedes many POSIX calls.\<close>

definition set_errno :: "tid \<Rightarrow> int \<Rightarrow> rt \<Rightarrow> rt" where
  "set_errno self e r = upd_tls self (\<lambda>t. t\<lparr>errno := e\<rparr>) r"

definition posix_mutex_init :: "vptr \<Rightarrow> mutex_kind \<Rightarrow> rt \<Rightarrow> int \<times> rt" where
  "posix_mutex_init mu k r = (0, r\<lparr>mutexes := (mutexes r)(mu := \<lparr>m_kind = k, m_owner = None, m_count = 0\<rparr>)\<rparr>)"

definition posix_mutex_destroy :: "vptr \<Rightarrow> rt \<Rightarrow> int \<times> rt" where
  "posix_mutex_destroy mu r = (if m_owner (mutexes r mu) = None then (0, r) else (EBUSY, r))"

definition posix_mutex_trylock :: "tid \<Rightarrow> vptr \<Rightarrow> rt \<Rightarrow> int \<times> rt" where
  "posix_mutex_trylock self mu r =
     (let m = mutexes r mu in
      if m_owner m = None
      then (0, r\<lparr>mutexes := (mutexes r)(mu := m\<lparr>m_owner := Some self, m_count := 1\<rparr>)\<rparr>)
      else if m_kind m = MRecursive \<and> m_owner m = Some self
      then (0, r\<lparr>mutexes := (mutexes r)(mu := m\<lparr>m_count := m_count m + 1\<rparr>)\<rparr>)
      else (EBUSY, r))"

definition posix_mutex_unlock :: "tid \<Rightarrow> vptr \<Rightarrow> rt \<Rightarrow> int \<times> rt" where
  "posix_mutex_unlock self mu r =
     (let m = mutexes r mu in
      if m_kind m \<noteq> MNormal \<and> m_owner m \<noteq> Some self then (EPERM, r)
      else if m_kind m = MRecursive \<and> m_count m > 1
      then (0, r\<lparr>mutexes := (mutexes r)(mu := m\<lparr>m_count := m_count m - 1\<rparr>)\<rparr>)
      else (0, r\<lparr>mutexes := (mutexes r)(mu := m\<lparr>m_owner := None, m_count := 0\<rparr>)\<rparr>))"

definition posix_rwlock_trywrlock :: "tid \<Rightarrow> vptr \<Rightarrow> rt \<Rightarrow> int \<times> rt" where
  "posix_rwlock_trywrlock self rw r =
     (let l = rwlocks r rw in
      if rw_writer l = None \<and> rw_readers l = 0
      then (0, r\<lparr>rwlocks := (rwlocks r)(rw := l\<lparr>rw_writer := Some self\<rparr>)\<rparr>) else (EBUSY, r))"

definition posix_rwlock_tryrdlock :: "vptr \<Rightarrow> rt \<Rightarrow> int \<times> rt" where
  "posix_rwlock_tryrdlock rw r =
     (let l = rwlocks r rw in
      if rw_writer l = None
      then (0, r\<lparr>rwlocks := (rwlocks r)(rw := l\<lparr>rw_readers := rw_readers l + 1\<rparr>)\<rparr>) else (EBUSY, r))"

definition posix_rwlock_unlock :: "vptr \<Rightarrow> rt \<Rightarrow> int \<times> rt" where
  "posix_rwlock_unlock rw r =
     (let l = rwlocks r rw in
      (0, r\<lparr>rwlocks := (rwlocks r)(rw :=
         (if rw_writer l = None then l\<lparr>rw_readers := rw_readers l - 1\<rparr> else l\<lparr>rw_writer := None\<rparr>))\<rparr>))"

definition posix_rwlock_init :: "vptr \<Rightarrow> rt \<Rightarrow> int \<times> rt" where
  "posix_rwlock_init rw r = (0, r\<lparr>rwlocks := (rwlocks r)(rw := \<lparr>rw_writer = None, rw_readers = 0\<rparr>)\<rparr>)"

text \<open>A lock that is held is not destroyed: \<open>EBUSY\<close>, as for a mutex.\<close>

definition posix_rwlock_destroy :: "vptr \<Rightarrow> rt \<Rightarrow> int \<times> rt" where
  "posix_rwlock_destroy rw r =
     (let l = rwlocks r rw in if rw_writer l = None \<and> rw_readers l = 0 then (0, r) else (EBUSY, r))"

definition posix_sem_init :: "vptr \<Rightarrow> nat \<Rightarrow> rt \<Rightarrow> int \<times> rt" where
  "posix_sem_init p v r = (if v \<le> SEM_VALUE_MAX then (0, r\<lparr>sems := (sems r)(p := v)\<rparr>) else (- 1, r))"

definition posix_sem_trywait :: "tid \<Rightarrow> vptr \<Rightarrow> rt \<Rightarrow> int \<times> rt" where
  "posix_sem_trywait self p r =
     (if sems r p > 0 then (0, r\<lparr>sems := (sems r)(p := sems r p - 1)\<rparr>)
      else (- 1, upd_tls self (\<lambda>t. t\<lparr>errno := EAGAIN\<rparr>) r))"

definition posix_sem_post :: "tid \<Rightarrow> vptr \<Rightarrow> rt \<Rightarrow> int \<times> rt" where
  "posix_sem_post self p r =
     (if sems r p < SEM_VALUE_MAX then (0, r\<lparr>sems := (sems r)(p := sems r p + 1)\<rparr>)
      else (- 1, upd_tls self (\<lambda>t. t\<lparr>errno := EOVERFLOW\<rparr>) r))"

section \<open>Choosing a strategy\<close>

definition getPutTurnStrategy :: "options \<Rightarrow> tid \<Rightarrow> syncfunc \<Rightarrow> rt \<Rightarrow> nat \<times> rt" where
  "getPutTurnStrategy opt self syncop r =
     (let t = tls_of r self in
      if yield_this t
      then (if high_priority_yield opt then PUTTURN_STRATEGY_YIELD else 0,
            upd_tls self (\<lambda>t. t\<lparr>yield_this := False\<rparr>) r)
      else if slock_n_turns t > 0 \<and> syncop = ''pthread_create'' then (PUTTURN_STRATEGY_CREATE, r)
      else if inCSLevel t > 0 \<and> \<not> noCSWholeLocal t \<or> slock_n_turns t > 0 \<or>
              \<not> wakeamap_plus opt \<and> (satisfyingCV t \<noteq> 0 \<or> satisfyingSem t \<noteq> 0)
      then (PUTTURN_STRATEGY_CURRENT_THREAD, r)
      else if wakeamap_plus opt \<and> (satisfyingRole t \<noteq> None \<or> satisfyingSem t \<noteq> 0)
      then (PUTTURN_STRATEGY_CURRENT_ROLE, r)
      else (0, r))"

definition deref_role :: "rt \<Rightarrow> addr option \<Rightarrow> Addr_n_role res" where
  "deref_role r p = (case p of None \<Rightarrow> Inl NullDeref
     | Some a \<Rightarrow> (case role_cells r a of None \<Rightarrow> Inl DanglingDeref | Some x \<Rightarrow> Inr x))"

definition check_cv_wait_cnt :: "options \<Rightarrow> tid \<Rightarrow> rt \<Rightarrow> rt res" where
  "check_cv_wait_cnt opt self r =
     res_bind
       (if \<not> wakeamap_plus opt
        then Inr (if satisfyingCV (tls_of r self) \<noteq> 0 \<and> cond_map r (satisfyingCV (tls_of r self)) < 1
                  then upd_tls self (\<lambda>t. t\<lparr>satisfyingCV := 0\<rparr>) r else r)
        else if satisfyingRole (tls_of r self) \<noteq> None
        then res_bind (deref_role r (satisfyingRole (tls_of r self))) (\<lambda>x.
             Inr (if blocked_cv_count_map r x = None
                  then upd_tls self (\<lambda>t. t\<lparr>satisfyingRole := None\<rparr>) r else r))
        else Inr r) (\<lambda>r.
     Inr (if satisfyingSem (tls_of r self) \<noteq> 0 \<and> sem_map r (satisfyingSem (tls_of r self)) < 1
          then upd_tls self (\<lambda>t. t\<lparr>satisfyingSem := 0\<rparr>) r else r))"

section \<open>Opening and closing an operation\<close>

definition in_non_det :: "tid \<Rightarrow> rt \<Rightarrow> bool" where
  "in_non_det self r \<longleftrightarrow> inNonDet (tls_of r self) \<or> inNoWaitNonDet (tls_of r self)"

definition upd_stat :: "options \<Rightarrow> (runtime_stat \<Rightarrow> runtime_stat) \<Rightarrow> rt \<Rightarrow> rt" where
  "upd_stat opt f r = (if record_runtime_stat opt then r\<lparr>stat := f (stat r)\<rparr> else r)"

definition count_non_det :: "options \<Rightarrow> rt \<Rightarrow> rt" where
  "count_non_det opt = upd_stat opt (\<lambda>x. x\<lparr>nNonDetPthreadSync := nNonDetPthreadSync x + 1\<rparr>)"

text \<open>
  What precedes \<open>getTurn\<close>: the check of \<open>SCHED_TIMER_START\<close>, and, for the operations that
  have it, the branch taken inside a non-deterministic region.
\<close>

definition before_turn :: "options \<Rightarrow> tid \<Rightarrow> 'k \<Rightarrow> rt \<Rightarrow> ('k outcome \<times> rt) res" where
  "before_turn opt self k r =
     assert_then opt (enforce_non_det_annotations opt \<noteq> 0 \<longrightarrow> \<not> in_non_det self r) (Inr (Await k, r))"

definition enter_op ::
  "options \<Rightarrow> tid \<Rightarrow> syncfunc \<Rightarrow> int list \<Rightarrow> 'k \<Rightarrow> rt \<Rightarrow> ('k outcome \<times> rt) res" where
  "enter_op opt self f args k r =
     (if in_non_det self r then Inr (Native f args, count_non_det opt r)
      else before_turn opt self k r)"

definition check_and_change_role :: "options \<Rightarrow> tid \<Rightarrow> rt \<Rightarrow> rt res" where
  "check_and_change_role opt self r =
     (if process_proposed_role (tls_of r self) \<and> proposed_role r \<noteq> []
      then res_bind (res_fold (\<lambda>th s. changeRole opt th (the (map_of (proposed_role r) th)) s)
                      (set_order opt (map fst (proposed_role r))) (sch r)) (\<lambda>s.
           Inr (upd_tls self (\<lambda>t. t\<lparr>process_proposed_role := False\<rparr>) (r\<lparr>sch := s, proposed_role := []\<rparr>)))
      else Inr r)"

text \<open>\<open>SCHED_TIMER_START\<close> after its \<open>getTurn\<close>.\<close>

definition sched_start :: "options \<Rightarrow> tid \<Rightarrow> rt \<Rightarrow> rt res" where
  "sched_start opt self r =
     check_and_change_role opt self
       (if th_handle (tls_of r self) \<noteq> idle_th r
        then upd_stat opt (\<lambda>x. x\<lparr>nDetPthreadSyncOp := nDetPthreadSyncOp x + 1\<rparr>) r else r)"

definition recordSync :: "tid \<Rightarrow> syncfunc \<Rightarrow> rt \<Rightarrow> rt" where
  "recordSync t op r = (if t \<noteq> 1
     then r\<lparr>per_sync_stats := (per_sync_stats r)(t := (per_sync_stats r t)(op := per_sync_stats r t op + 1))\<rparr>
     else r)"

definition logSync :: "options \<Rightarrow> tid \<Rightarrow> u32 \<Rightarrow> syncfunc \<Rightarrow> u32 \<Rightarrow> bool \<Rightarrow> int list \<Rightarrow> rt \<Rightarrow> rt" where
  "logSync opt self ins op nturn after args r = (if log_sync opt
     then r\<lparr>slog := slog r @ [\<lparr>l_tid = self, l_ins = ins, l_op = op, l_turn = nturn, l_after = after, l_args = args\<rparr>]\<rparr>
     else r)"

definition end_common :: "options \<Rightarrow> tid \<Rightarrow> u32 \<Rightarrow> syncfunc \<Rightarrow> int list \<Rightarrow> rt \<Rightarrow> rt res" where
  "end_common opt self ins op args r =
     res_bind (incTurnCount opt (sch r)) (\<lambda>(_, s).
     let r1 = r\<lparr>sch := s\<rparr>;
         r2 = (if generate_per_sync_stats opt then recordSync self op r1 else r1)
     in Inr (logSync opt self ins op (getTurnCount s) True args r2))"

text \<open>
  \<open>SCHED_TIMER_END\<close>: the operation returns \<open>ret\<close> and \<open>error\<close>. What the macro does after \<open>putTurn\<close>, the
  countdown of \<open>slock_n_turns\<close> and \<open>check_cv_wait_cnt\<close>, is part of the segment here.
\<close>

definition sched_end ::
  "options \<Rightarrow> tid \<Rightarrow> u32 \<Rightarrow> syncfunc \<Rightarrow> int list \<Rightarrow> int \<Rightarrow> int \<Rightarrow> rt \<Rightarrow> ('k outcome \<times> rt) res" where
  "sched_end opt self ins op args ret error r =
     res_bind (end_common opt self ins op args r) (\<lambda>r.
     let (strategy, r) = getPutTurnStrategy opt self op r in
     res_bind (on_sched (putTurn opt self (th_handle (tls_of r self)) False strategy) r) (\<lambda>r.
     let r = (if slock_n_turns (tls_of r self) > 0
              then upd_tls self (\<lambda>t. t\<lparr>slock_n_turns := slock_n_turns t - 1\<rparr>) r else r) in
     res_bind (check_cv_wait_cnt opt self r) (\<lambda>r. Inr (Done ret error, r))))"

text \<open>\<open>SCHED_TIMER_THREAD_END\<close>.\<close>

definition sched_thread_end ::
  "options \<Rightarrow> tid \<Rightarrow> u32 \<Rightarrow> syncfunc \<Rightarrow> int list \<Rightarrow> rt \<Rightarrow> rt res" where
  "sched_thread_end opt self ins op args r =
     res_bind (end_common opt self ins op args r) (\<lambda>r.
     on_sched (putTurn opt self (th_handle (tls_of r self)) True 0) r)"

text \<open>\<open>SCHED_TIMER_FAKE_END\<close>, and the first half of \<open>syncWait\<close>, which gives up the turn.\<close>

definition sched_fake_end :: "options \<Rightarrow> tid \<Rightarrow> u32 \<Rightarrow> syncfunc \<Rightarrow> int list \<Rightarrow> rt \<Rightarrow> rt res" where
  "sched_fake_end opt self ins op args r =
     res_bind (incTurnCount opt (sch r)) (\<lambda>(nturn, s).
     Inr (logSync opt self ins op nturn False args (r\<lparr>sch := s\<rparr>)))"

definition syncWait :: "options \<Rightarrow> tid \<Rightarrow> vptr \<Rightarrow> u32 \<Rightarrow> rt \<Rightarrow> rt res" where
  "syncWait opt self ch limit r = on_sched (wait_begin opt self ch limit) r"

text \<open>The value \<open>syncWait\<close> returns: the numeric value of the wake reason.\<close>

definition wake_code :: "Wake_Reasons \<Rightarrow> int" where
  "wake_code w = (case w of SIGNAL \<Rightarrow> 0 | TIMEDOUT \<Rightarrow> 1)"

definition syncWait_result :: "tid \<Rightarrow> rt \<Rightarrow> int" where
  "syncWait_result self r = wake_code (wait_end self (sch r))"

definition syncSignal :: "options \<Rightarrow> tid \<Rightarrow> vptr \<Rightarrow> bool \<Rightarrow> rt \<Rightarrow> rt res" where
  "syncSignal opt self ch all r = on_sched (signal opt self ch all) r"

definition absTimeToTurn :: "rt \<Rightarrow> u32" where
  "absTimeToTurn r = getTurnCount (sch r) + 30"

text \<open>The deadline of a timed operation, from the thread's base time or the current time.\<close>

definition rel_deadline :: "tid \<Rightarrow> timespec \<Rightarrow> timespec \<Rightarrow> rt \<Rightarrow> timespec" where
  "rel_deadline self now abstime r =
     time_diff (if tv_sec (my_base_time (tls_of r self)) = 0 then now else my_base_time (tls_of r self)) abstime"

definition turn_deadline :: "options \<Rightarrow> timespec \<Rightarrow> rt \<Rightarrow> u32 res" where
  "turn_deadline opt rel r =
     res_bind (relTimeToTurn opt (nthread (tids (sch r))) (Some rel)) (\<lambda>n.
     Inr (getTurnCount (sch r) + word_of_int n))"

end
