(* ===== verification/RtLock.thy ===== *)
theory RtLock
  imports RtBase
begin

text \<open>
  Mutexes and read-write locks of the runtime (\<open>pthreadMutex*\<close> and
  \<open>__pthread_rwlock_*\<close> of \<open>lib/runtime/record-runtime.cpp\<close>). A lock operation tries the
  lock while it holds the turn; when the lock is taken it waits on the lock's address and tries
  again each time it is woken.
\<close>

section \<open>The lock helpers\<close>

datatype lockobj = LMutex vptr | LRd vptr | LWr vptr

definition lock_addr :: "lockobj \<Rightarrow> vptr" where
  "lock_addr l = (case l of LMutex a \<Rightarrow> a | LRd a \<Rightarrow> a | LWr a \<Rightarrow> a)"

definition try_acquire :: "tid \<Rightarrow> lockobj \<Rightarrow> rt \<Rightarrow> int \<times> rt" where
  "try_acquire self l r = (case l of
     LMutex a \<Rightarrow> posix_mutex_trylock self a r
   | LRd a \<Rightarrow> posix_rwlock_tryrdlock a r
   | LWr a \<Rightarrow> posix_rwlock_trywrlock self a r)"

text \<open>
  One round of \<open>pthreadMutexLockHelper\<close> and the two read-write helpers, from the try to the
  return (\<open>Some ret\<close>) or to the \<open>getTurn\<close> inside \<open>syncWait\<close> (\<open>None\<close>).
\<close>

definition lock_try :: "options \<Rightarrow> tid \<Rightarrow> lockobj \<Rightarrow> u32 \<Rightarrow> rt \<Rightarrow> (int option \<times> rt) res" where
  "lock_try opt self l limit r =
     (let (ret, r) = try_acquire self l r in
      if ret = 0 then Inr (Some 0, r)
      else assert_then opt (ret = EBUSY)
             (res_bind (syncWait opt self (lock_addr l) limit r) (\<lambda>r. Inr (None, r))))"

text \<open>The helper after \<open>syncWait\<close> has returned.\<close>

definition lock_woken :: "options \<Rightarrow> tid \<Rightarrow> lockobj \<Rightarrow> u32 \<Rightarrow> rt \<Rightarrow> (int option \<times> rt) res" where
  "lock_woken opt self l limit r =
     (if syncWait_result self r = int ETIMEDOUT then Inr (Some (int ETIMEDOUT), r)
      else lock_try opt self l limit r)"

section \<open>Continuations\<close>

datatype lock_op = OpMutexLock | OpMutexTimedLock | OpRdLock | OpWrLock

datatype lock_pc =
    PMutexInit u32 int vptr mutex_kind
  | PMutexDestroy u32 int vptr
  | PLock lock_op u32 int lockobj
  | PTimedLock u32 int vptr timespec
  | PRetry lock_op u32 int lockobj u32
  | PTryLock u32 int vptr
  | PUnlock u32 int vptr
  | PTryRdLock u32 int vptr
  | PTryWrLock u32 int vptr
  | PRwUnlock u32 int vptr
  | PRwDestroy u32 int vptr
  | PRwInit u32 int vptr int

type_synonym lock_out = "(lock_pc outcome \<times> rt) res"

section \<open>The calls, up to their first getTurn\<close>

definition pthreadMutexInit :: "options \<Rightarrow> tid \<Rightarrow> u32 \<Rightarrow> int \<Rightarrow> vptr \<Rightarrow> mutex_kind \<Rightarrow> rt \<Rightarrow> lock_out" where
  "pthreadMutexInit opt self ins error mu k =
     enter_op opt self ''pthread_mutex_init'' [int mu] (PMutexInit ins error mu k)"

definition pthreadMutexDestroy :: "options \<Rightarrow> tid \<Rightarrow> u32 \<Rightarrow> int \<Rightarrow> vptr \<Rightarrow> rt \<Rightarrow> lock_out" where
  "pthreadMutexDestroy opt self ins error mu =
     enter_op opt self ''pthread_mutex_destroy'' [int mu] (PMutexDestroy ins error mu)"

definition pthreadMutexLock :: "options \<Rightarrow> tid \<Rightarrow> u32 \<Rightarrow> int \<Rightarrow> vptr \<Rightarrow> rt \<Rightarrow> lock_out" where
  "pthreadMutexLock opt self ins error mu =
     enter_op opt self ''pthread_mutex_lock'' [int mu] (PLock OpMutexLock ins error (LMutex mu))"

definition rwlock_rdlock :: "options \<Rightarrow> tid \<Rightarrow> u32 \<Rightarrow> int \<Rightarrow> vptr \<Rightarrow> rt \<Rightarrow> lock_out" where
  "rwlock_rdlock opt self ins error rw =
     enter_op opt self ''pthread_rwlock_rdlock'' [int rw] (PLock OpRdLock ins error (LRd rw))"

definition rwlock_wrlock :: "options \<Rightarrow> tid \<Rightarrow> u32 \<Rightarrow> int \<Rightarrow> vptr \<Rightarrow> rt \<Rightarrow> lock_out" where
  "rwlock_wrlock opt self ins error rw =
     enter_op opt self ''pthread_rwlock_wrlock'' [int rw] (PLock OpWrLock ins error (LWr rw))"

definition rwlock_tryrdlock :: "options \<Rightarrow> tid \<Rightarrow> u32 \<Rightarrow> int \<Rightarrow> vptr \<Rightarrow> rt \<Rightarrow> lock_out" where
  "rwlock_tryrdlock opt self ins error rw =
     enter_op opt self ''pthread_rwlock_tryrdlock'' [int rw] (PTryRdLock ins error rw)"

definition rwlock_trywrlock :: "options \<Rightarrow> tid \<Rightarrow> u32 \<Rightarrow> int \<Rightarrow> vptr \<Rightarrow> rt \<Rightarrow> lock_out" where
  "rwlock_trywrlock opt self ins error rw =
     enter_op opt self ''pthread_rwlock_trywrlock'' [int rw] (PTryWrLock ins error rw)"

definition rwlock_unlock :: "options \<Rightarrow> tid \<Rightarrow> u32 \<Rightarrow> int \<Rightarrow> vptr \<Rightarrow> rt \<Rightarrow> lock_out" where
  "rwlock_unlock opt self ins error rw =
     enter_op opt self ''pthread_rwlock_unlock'' [int rw] (PRwUnlock ins error rw)"

definition rwlock_destroy :: "options \<Rightarrow> tid \<Rightarrow> u32 \<Rightarrow> int \<Rightarrow> vptr \<Rightarrow> rt \<Rightarrow> lock_out" where
  "rwlock_destroy opt self ins error rw =
     enter_op opt self ''pthread_rwlock_destroy'' [int rw] (PRwDestroy ins error rw)"

definition rwlock_init :: "options \<Rightarrow> tid \<Rightarrow> u32 \<Rightarrow> int \<Rightarrow> vptr \<Rightarrow> int \<Rightarrow> rt \<Rightarrow> lock_out" where
  "rwlock_init opt self ins error rw attr =
     enter_op opt self ''pthread_rwlock_init'' [int rw, attr] (PRwInit ins error rw attr)"

definition pthreadMutexTryLock :: "options \<Rightarrow> tid \<Rightarrow> u32 \<Rightarrow> int \<Rightarrow> vptr \<Rightarrow> rt \<Rightarrow> lock_out" where
  "pthreadMutexTryLock opt self ins error mu =
     enter_op opt self ''pthread_mutex_trylock'' [int mu] (PTryLock ins error mu)"

text \<open>\<open>now\<close> is what \<open>clock_gettime\<close> would return; a null \<open>abstime\<close> is \<open>None\<close>.\<close>

definition pthreadMutexTimedLock ::
  "options \<Rightarrow> tid \<Rightarrow> u32 \<Rightarrow> int \<Rightarrow> vptr \<Rightarrow> timespec option \<Rightarrow> timespec \<Rightarrow> rt \<Rightarrow> lock_out" where
  "pthreadMutexTimedLock opt self ins error mu abstime now r =
     (if in_non_det self r then Inr (Native ''pthread_mutex_timedlock'' (int mu # (case abstime of None \<Rightarrow> [] | Some t \<Rightarrow> [tv_sec t, tv_nsec t])),
        count_non_det opt r)
      else case abstime of
        None \<Rightarrow> pthreadMutexLock opt self ins error mu r
      | Some t \<Rightarrow> before_turn opt self (PTimedLock ins error mu (rel_deadline self now t r)) r)"

definition pthreadMutexUnlock :: "options \<Rightarrow> tid \<Rightarrow> u32 \<Rightarrow> int \<Rightarrow> vptr \<Rightarrow> rt \<Rightarrow> lock_out" where
  "pthreadMutexUnlock opt self ins error mu =
     enter_op opt self ''pthread_mutex_unlock'' [int mu] (PUnlock ins error mu)"

section \<open>The segments that run with the turn\<close>

definition mutex_init_turn :: "options \<Rightarrow> tid \<Rightarrow> u32 \<Rightarrow> int \<Rightarrow> vptr \<Rightarrow> mutex_kind \<Rightarrow> rt \<Rightarrow> lock_out" where
  "mutex_init_turn opt self ins error mu k r =
     res_bind (sched_start opt self r) (\<lambda>r.
     let (ret, r) = posix_mutex_init mu k (set_errno self error r) in
     sched_end opt self ins ''pthread_mutex_init'' [ret] ret (errno (tls_of r self)) r)"

definition mutex_destroy_turn :: "options \<Rightarrow> tid \<Rightarrow> u32 \<Rightarrow> int \<Rightarrow> vptr \<Rightarrow> rt \<Rightarrow> lock_out" where
  "mutex_destroy_turn opt self ins error mu r =
     res_bind (sched_start opt self r) (\<lambda>r.
     let (ret, r) = posix_mutex_destroy mu (set_errno self error r) in
     sched_end opt self ins ''pthread_mutex_destroy'' [ret] ret (errno (tls_of r self)) r)"

text \<open>What the four blocking lock operations do once their helper has returned \<open>ret\<close>.\<close>

definition lock_finish :: "options \<Rightarrow> tid \<Rightarrow> lock_op \<Rightarrow> u32 \<Rightarrow> lockobj \<Rightarrow> int \<Rightarrow> rt \<Rightarrow> lock_out" where
  "lock_finish opt self lop ins l ret r =
     (let error = errno (tls_of r self); a = int (lock_addr l) in
      case lop of
        OpMutexLock \<Rightarrow>
          sched_end opt self ins ''pthread_mutex_lock'' [a] 0 error
            (if policy opt 1 \<and> \<not> noCSWholeLocal (tls_of r self)
             then upd_tls self (\<lambda>t. t\<lparr>inCSLevel := inCSLevel t + 1\<rparr>) r else r)
      | OpMutexTimedLock \<Rightarrow> sched_end opt self ins ''pthread_mutex_timedlock'' [a, ret] ret error r
      | OpRdLock \<Rightarrow> sched_end opt self ins ''pthread_rwlock_rdlock'' [a] 0 error r
      | OpWrLock \<Rightarrow> sched_end opt self ins ''pthread_rwlock_wrlock'' [a] 0 error r)"

definition lock_round ::
  "options \<Rightarrow> tid \<Rightarrow> lock_op \<Rightarrow> u32 \<Rightarrow> int \<Rightarrow> lockobj \<Rightarrow> u32 \<Rightarrow> (int option \<times> rt) res \<Rightarrow> lock_out" where
  "lock_round opt self lop ins error l limit m =
     res_bind m (\<lambda>(ret, r). case ret of
       None \<Rightarrow> Inr (Await (PRetry lop ins error l limit), r)
     | Some v \<Rightarrow> lock_finish opt self lop ins l v r)"

definition lock_turn :: "options \<Rightarrow> tid \<Rightarrow> lock_op \<Rightarrow> u32 \<Rightarrow> int \<Rightarrow> lockobj \<Rightarrow> rt \<Rightarrow> lock_out" where
  "lock_turn opt self lop ins error l r =
     res_bind (sched_start opt self r) (\<lambda>r.
     lock_round opt self lop ins error l FOREVER (lock_try opt self l FOREVER (set_errno self error r)))"

definition mutex_timedlock_turn :: "options \<Rightarrow> tid \<Rightarrow> u32 \<Rightarrow> int \<Rightarrow> vptr \<Rightarrow> timespec \<Rightarrow> rt \<Rightarrow> lock_out" where
  "mutex_timedlock_turn opt self ins error mu rel r =
     res_bind (sched_start opt self r) (\<lambda>r.
     res_bind (turn_deadline opt rel r) (\<lambda>limit.
     lock_round opt self OpMutexTimedLock ins error (LMutex mu) limit
       (lock_try opt self (LMutex mu) limit (set_errno self error r))))"

definition lock_retry_turn :: "options \<Rightarrow> tid \<Rightarrow> lock_op \<Rightarrow> u32 \<Rightarrow> int \<Rightarrow> lockobj \<Rightarrow> u32 \<Rightarrow> rt \<Rightarrow> lock_out" where
  "lock_retry_turn opt self lop ins error l limit r =
     lock_round opt self lop ins error l limit (lock_woken opt self l limit r)"

definition mutex_trylock_turn :: "options \<Rightarrow> tid \<Rightarrow> u32 \<Rightarrow> int \<Rightarrow> vptr \<Rightarrow> rt \<Rightarrow> lock_out" where
  "mutex_trylock_turn opt self ins error mu r =
     res_bind (sched_start opt self r) (\<lambda>r.
     let (ret, r) = posix_mutex_trylock self mu (set_errno self error r) in
     assert_then opt (ret = 0 \<or> ret = EBUSY)
       (sched_end opt self ins ''pthread_mutex_trylock'' [int mu, ret] ret (errno (tls_of r self)) r))"

definition mutex_unlock_turn :: "options \<Rightarrow> tid \<Rightarrow> u32 \<Rightarrow> int \<Rightarrow> vptr \<Rightarrow> rt \<Rightarrow> lock_out" where
  "mutex_unlock_turn opt self ins error mu r =
     res_bind (sched_start opt self r) (\<lambda>r.
     let (ret, r) = posix_mutex_unlock self mu (set_errno self error r) in
     assert_then opt (ret = 0)
       (let r = (if policy opt 1 \<and> inCSLevel (tls_of r self) > 0 \<and> \<not> noCSWholeLocal (tls_of r self)
                 then upd_tls self (\<lambda>t. t\<lparr>inCSLevel := inCSLevel t - 1\<rparr>) r else r) in
        res_bind (syncSignal opt self mu False r) (\<lambda>r.
        sched_end opt self ins ''pthread_mutex_unlock'' [int mu, ret] ret (errno (tls_of r self)) r)))"

text \<open>\<open>tryrdlock\<close> takes the lock for writing.\<close>

definition rwlock_tryrdlock_turn :: "options \<Rightarrow> tid \<Rightarrow> u32 \<Rightarrow> int \<Rightarrow> vptr \<Rightarrow> rt \<Rightarrow> lock_out" where
  "rwlock_tryrdlock_turn opt self ins error rw r =
     res_bind (sched_start opt self r) (\<lambda>r.
     let (ret, r) = posix_rwlock_trywrlock self rw (set_errno self error r) in
     sched_end opt self ins ''pthread_rwlock_tryrdlock'' [int rw, ret] ret (errno (tls_of r self)) r)"

definition rwlock_trywrlock_turn :: "options \<Rightarrow> tid \<Rightarrow> u32 \<Rightarrow> int \<Rightarrow> vptr \<Rightarrow> rt \<Rightarrow> lock_out" where
  "rwlock_trywrlock_turn opt self ins error rw r =
     res_bind (sched_start opt self r) (\<lambda>r.
     let (ret, r) = posix_rwlock_trywrlock self rw (set_errno self error r) in
     sched_end opt self ins ''pthread_rwlock_trywrlock'' [int rw, ret] ret (errno (tls_of r self)) r)"

definition rwlock_unlock_turn :: "options \<Rightarrow> tid \<Rightarrow> u32 \<Rightarrow> int \<Rightarrow> vptr \<Rightarrow> rt \<Rightarrow> lock_out" where
  "rwlock_unlock_turn opt self ins error rw r =
     res_bind (sched_start opt self r) (\<lambda>r.
     let (ret, r) = posix_rwlock_unlock rw (set_errno self error r) in
     res_bind (syncSignal opt self rw False r) (\<lambda>r.
     sched_end opt self ins ''pthread_rwlock_unlock'' [int rw, ret] ret (errno (tls_of r self)) r))"

definition rwlock_destroy_turn :: "options \<Rightarrow> tid \<Rightarrow> u32 \<Rightarrow> int \<Rightarrow> vptr \<Rightarrow> rt \<Rightarrow> lock_out" where
  "rwlock_destroy_turn opt self ins error rw r =
     res_bind (sched_start opt self r) (\<lambda>r.
     let (ret, r) = posix_rwlock_destroy rw (set_errno self error r) in
     sched_end opt self ins ''pthread_rwlock_destroy'' [int rw, ret] ret (errno (tls_of r self)) r)"

definition rwlock_init_turn :: "options \<Rightarrow> tid \<Rightarrow> u32 \<Rightarrow> int \<Rightarrow> vptr \<Rightarrow> int \<Rightarrow> rt \<Rightarrow> lock_out" where
  "rwlock_init_turn opt self ins error rw attr r =
     res_bind (sched_start opt self r) (\<lambda>r.
     let (ret, r) = posix_rwlock_init rw (set_errno self error r) in
     sched_end opt self ins ''pthread_rwlock_init'' [int rw, attr, ret] ret (errno (tls_of r self)) r)"

definition resume_lock :: "options \<Rightarrow> tid \<Rightarrow> lock_pc \<Rightarrow> rt \<Rightarrow> lock_out" where
  "resume_lock opt self pc = (case pc of
     PMutexInit ins error mu k \<Rightarrow> mutex_init_turn opt self ins error mu k
   | PMutexDestroy ins error mu \<Rightarrow> mutex_destroy_turn opt self ins error mu
   | PLock lop ins error l \<Rightarrow> lock_turn opt self lop ins error l
   | PTimedLock ins error mu rel \<Rightarrow> mutex_timedlock_turn opt self ins error mu rel
   | PRetry lop ins error l limit \<Rightarrow> lock_retry_turn opt self lop ins error l limit
   | PTryLock ins error mu \<Rightarrow> mutex_trylock_turn opt self ins error mu
   | PUnlock ins error mu \<Rightarrow> mutex_unlock_turn opt self ins error mu
   | PTryRdLock ins error rw \<Rightarrow> rwlock_tryrdlock_turn opt self ins error rw
   | PTryWrLock ins error rw \<Rightarrow> rwlock_trywrlock_turn opt self ins error rw
   | PRwUnlock ins error rw \<Rightarrow> rwlock_unlock_turn opt self ins error rw
   | PRwDestroy ins error rw \<Rightarrow> rwlock_destroy_turn opt self ins error rw
   | PRwInit ins error rw attr \<Rightarrow> rwlock_init_turn opt self ins error rw attr)"

end
