(* ===== verification/RtCond.thy ===== *)
theory RtCond
  imports RtLock
begin

text \<open>
  Condition variables and semaphores of the runtime (\<open>pthreadCond*\<close> and \<open>sem*\<close> of
  \<open>lib/runtime/record-runtime.cpp\<close>). A thread that waits on a condition variable releases the
  mutex, waits on the variable's address and then takes the mutex again. \<open>cond_map\<close> and
  \<open>sem_map\<close> count waiting threads for the scheduling policy that lets a signalling thread run
  on while there are threads to satisfy; with \<open>wakeamap_plus\<close> the count is kept per calling
  address and role.
\<close>

section \<open>Continuations\<close>

datatype cond_pc =
    PCondWait u32 int vptr vptr int
  | PCondWoken u32 int vptr vptr
  | PCondRelock u32 vptr vptr
  | PCondTimedWait u32 int vptr vptr timespec int
  | PCondTimedWoken u32 int vptr vptr addr
  | PCondTimedRelock u32 vptr vptr int
  | PCondSignal u32 int vptr
  | PCondBroadcast u32 int vptr
  | PSemWait u32 int vptr
  | PSemRetry u32 int vptr
  | PSemTryWait u32 int vptr
  | PSemTimedWait u32 int vptr timespec
  | PSemTimedRetry u32 int vptr u32
  | PSemPost u32 int vptr
  | PSemInit u32 int vptr nat

type_synonym cond_out = "(cond_pc outcome \<times> rt) res"

section \<open>The calls, up to their first getTurn\<close>

text \<open>\<open>caller\<close> is the return address \<open>get_caller\<close> finds on the stack.\<close>

definition pthreadCondWait ::
  "options \<Rightarrow> tid \<Rightarrow> u32 \<Rightarrow> int \<Rightarrow> vptr \<Rightarrow> vptr \<Rightarrow> int \<Rightarrow> rt \<Rightarrow> cond_out" where
  "pthreadCondWait opt self ins error cv mu caller =
     enter_op opt self ''pthread_cond_wait'' [int cv, int mu] (PCondWait ins error cv mu caller)"

definition pthreadCondTimedWait ::
  "options \<Rightarrow> tid \<Rightarrow> u32 \<Rightarrow> int \<Rightarrow> vptr \<Rightarrow> vptr \<Rightarrow> timespec option \<Rightarrow> timespec \<Rightarrow> int \<Rightarrow> rt \<Rightarrow> cond_out" where
  "pthreadCondTimedWait opt self ins error cv mu abstime now caller r = (case abstime of
     None \<Rightarrow> pthreadCondWait opt self ins error cv mu caller r
   | Some t \<Rightarrow>
       enter_op opt self ''pthread_cond_timedwait'' [int cv, int mu, tv_sec t, tv_nsec t]
         (PCondTimedWait ins error cv mu (rel_deadline self now t r) caller) r)"

definition pthreadCondSignal :: "options \<Rightarrow> tid \<Rightarrow> u32 \<Rightarrow> int \<Rightarrow> vptr \<Rightarrow> rt \<Rightarrow> cond_out" where
  "pthreadCondSignal opt self ins error cv =
     enter_op opt self ''pthread_cond_signal'' [int cv] (PCondSignal ins error cv)"

definition pthreadCondBroadcast :: "options \<Rightarrow> tid \<Rightarrow> u32 \<Rightarrow> int \<Rightarrow> vptr \<Rightarrow> rt \<Rightarrow> cond_out" where
  "pthreadCondBroadcast opt self ins error cv =
     enter_op opt self ''pthread_cond_broadcast'' [int cv] (PCondBroadcast ins error cv)"

definition semWait :: "options \<Rightarrow> tid \<Rightarrow> u32 \<Rightarrow> int \<Rightarrow> vptr \<Rightarrow> rt \<Rightarrow> cond_out" where
  "semWait opt self ins error sp = enter_op opt self ''sem_wait'' [int sp] (PSemWait ins error sp)"

definition semTryWait :: "options \<Rightarrow> tid \<Rightarrow> u32 \<Rightarrow> int \<Rightarrow> vptr \<Rightarrow> rt \<Rightarrow> cond_out" where
  "semTryWait opt self ins error sp = enter_op opt self ''sem_trywait'' [int sp] (PSemTryWait ins error sp)"

definition semTimedWait ::
  "options \<Rightarrow> tid \<Rightarrow> u32 \<Rightarrow> int \<Rightarrow> vptr \<Rightarrow> timespec option \<Rightarrow> timespec \<Rightarrow> rt \<Rightarrow> cond_out" where
  "semTimedWait opt self ins error sp abstime now r = (case abstime of
     None \<Rightarrow> semWait opt self ins error sp r
   | Some t \<Rightarrow>
       enter_op opt self ''sem_timedwait'' [int sp, tv_sec t, tv_nsec t] (PSemTimedWait ins error sp (rel_deadline self now t r)) r)"

definition semPost :: "options \<Rightarrow> tid \<Rightarrow> u32 \<Rightarrow> int \<Rightarrow> vptr \<Rightarrow> rt \<Rightarrow> cond_out" where
  "semPost opt self ins error sp = enter_op opt self ''sem_post'' [int sp] (PSemPost ins error sp)"

definition semInit :: "options \<Rightarrow> tid \<Rightarrow> u32 \<Rightarrow> int \<Rightarrow> vptr \<Rightarrow> nat \<Rightarrow> rt \<Rightarrow> cond_out" where
  "semInit opt self ins error sp v =
     enter_op opt self ''sem_init'' [int sp, int v] (PSemInit ins error sp v)"

section \<open>Condition variables, with the turn\<close>

text \<open>Reading an entry of \<open>blocked_cv_count_map\<close> with \<open>operator[]\<close>.\<close>

definition role_count :: "rt \<Rightarrow> Addr_n_role \<Rightarrow> int" where
  "role_count r x = (case blocked_cv_count_map r x of None \<Rightarrow> 0 | Some n \<Rightarrow> n)"

definition set_role_count :: "Addr_n_role \<Rightarrow> int \<Rightarrow> rt \<Rightarrow> rt" where
  "set_role_count x n r = r\<lparr>blocked_cv_count_map := (blocked_cv_count_map r)(x \<mapsto> n)\<rparr>"

definition new_role :: "Addr_n_role \<Rightarrow> rt \<Rightarrow> addr \<times> rt" where
  "new_role x r = (rt_brk r, r\<lparr>role_cells := (role_cells r)(rt_brk r \<mapsto> x), rt_brk := rt_brk r + 1\<rparr>)"

text \<open>Recording that \<open>self\<close> waits on \<open>cv\<close> at the object \<open>x\<close> of address \<open>a\<close>.\<close>

definition record_role :: "vptr \<Rightarrow> addr \<Rightarrow> Addr_n_role \<Rightarrow> rt \<Rightarrow> rt" where
  "record_role cv a x r =
     set_role_count x (role_count r x + 1)
       (r\<lparr>blocked_cv_line_map := (blocked_cv_line_map r)(cv \<mapsto> a)\<rparr>)"

text \<open>Taking one waiter off the object at \<open>a\<close>; \<open>done\<close> says whether it was the last.\<close>

definition release_role :: "vptr \<Rightarrow> Addr_n_role \<Rightarrow> rt \<Rightarrow> bool \<times> rt" where
  "release_role cv x r =
     (let newval = role_count r x - 1 in
      if newval \<le> 0
      then (True, r\<lparr>blocked_cv_count_map := (blocked_cv_count_map r)(x := None),
                    blocked_cv_line_map := (blocked_cv_line_map r)(cv := None)\<rparr>)
      else (False, set_role_count x newval r))"

definition cond_incr :: "vptr \<Rightarrow> int \<Rightarrow> rt \<Rightarrow> rt" where
  "cond_incr cv d r = r\<lparr>cond_map := (cond_map r)(cv := cond_map r cv + d)\<rparr>"

definition cond_wait_turn ::
  "options \<Rightarrow> tid \<Rightarrow> u32 \<Rightarrow> int \<Rightarrow> vptr \<Rightarrow> vptr \<Rightarrow> int \<Rightarrow> rt \<Rightarrow> cond_out" where
  "cond_wait_turn opt self ins error cv mu caller r =
     res_bind (sched_start opt self r) (\<lambda>r.
     let r = cond_incr cv 1 r in
     res_bind
       (if wakeamap_plus opt
        then res_bind (getRoleid opt self (sch r)) (\<lambda>role.
             let x = \<lparr>an_addr = caller, an_roleid = role\<rparr>; (a, r) = new_role x r
             in Inr (record_role cv a x r))
        else Inr r) (\<lambda>r.
     let (_, r) = posix_mutex_unlock self mu r in
     res_bind (syncSignal opt self mu False r) (\<lambda>r.
     res_bind (sched_fake_end opt self ins ''pthread_cond_wait'' [int cv, int mu] r) (\<lambda>r.
     res_bind (syncWait opt self cv FOREVER r) (\<lambda>r.
     Inr (Await (PCondWoken ins error cv mu), r))))))"

text \<open>Taking the mutex again, and the end of \<open>pthreadCondWait\<close>.\<close>

definition cond_relock :: "options \<Rightarrow> tid \<Rightarrow> u32 \<Rightarrow> vptr \<Rightarrow> vptr \<Rightarrow> (int option \<times> rt) res \<Rightarrow> cond_out" where
  "cond_relock opt self ins cv mu m =
     res_bind m (\<lambda>(ret, r). case ret of
       None \<Rightarrow> Inr (Await (PCondRelock ins cv mu), r)
     | Some _ \<Rightarrow> sched_end opt self ins ''pthread_cond_wait'' [int cv, int mu] 0 (errno (tls_of r self)) r)"

definition cond_woken_turn :: "options \<Rightarrow> tid \<Rightarrow> u32 \<Rightarrow> int \<Rightarrow> vptr \<Rightarrow> vptr \<Rightarrow> rt \<Rightarrow> cond_out" where
  "cond_woken_turn opt self ins error cv mu r =
     cond_relock opt self ins cv mu (lock_try opt self (LMutex mu) FOREVER (set_errno self error r))"

definition cond_relock_turn :: "options \<Rightarrow> tid \<Rightarrow> u32 \<Rightarrow> vptr \<Rightarrow> vptr \<Rightarrow> rt \<Rightarrow> cond_out" where
  "cond_relock_turn opt self ins cv mu r =
     cond_relock opt self ins cv mu (lock_woken opt self (LMutex mu) FOREVER r)"

definition cond_timedwait_turn ::
  "options \<Rightarrow> tid \<Rightarrow> u32 \<Rightarrow> int \<Rightarrow> vptr \<Rightarrow> vptr \<Rightarrow> timespec \<Rightarrow> int \<Rightarrow> rt \<Rightarrow> cond_out" where
  "cond_timedwait_turn opt self ins error cv mu rel caller r =
     res_bind (sched_start opt self r) (\<lambda>r.
     let (_, r) = posix_mutex_unlock self mu r;
         r = cond_incr cv 1 r;
         (a, r) = new_role \<lparr>an_addr = 0, an_roleid = 0\<rparr> r in
     res_bind
       (if wakeamap_plus opt
        then res_bind (getRoleid opt self (sch r)) (\<lambda>role.
             let x = \<lparr>an_addr = caller, an_roleid = role\<rparr>
             in Inr (record_role cv a x (r\<lparr>role_cells := (role_cells r)(a \<mapsto> x)\<rparr>)))
        else Inr r) (\<lambda>r.
     res_bind (sched_fake_end opt self ins ''pthread_cond_timedwait'' [int cv, int mu, 0] r) (\<lambda>r.
     res_bind (syncSignal opt self mu False r) (\<lambda>r.
     res_bind (turn_deadline opt rel r) (\<lambda>limit.
     res_bind (syncWait opt self cv limit r) (\<lambda>r.
     Inr (Await (PCondTimedWoken ins error cv mu a), r)))))))"

definition cond_timed_relock ::
  "options \<Rightarrow> tid \<Rightarrow> u32 \<Rightarrow> vptr \<Rightarrow> vptr \<Rightarrow> int \<Rightarrow> (int option \<times> rt) res \<Rightarrow> cond_out" where
  "cond_timed_relock opt self ins cv mu saved_ret m =
     res_bind m (\<lambda>(ret, r). case ret of
       None \<Rightarrow> Inr (Await (PCondTimedRelock ins cv mu saved_ret), r)
     | Some _ \<Rightarrow> sched_end opt self ins ''pthread_cond_timedwait'' [int cv, int mu, saved_ret]
                   saved_ret (errno (tls_of r self)) r)"

definition cond_timed_woken_turn ::
  "options \<Rightarrow> tid \<Rightarrow> u32 \<Rightarrow> int \<Rightarrow> vptr \<Rightarrow> vptr \<Rightarrow> addr \<Rightarrow> rt \<Rightarrow> cond_out" where
  "cond_timed_woken_turn opt self ins error cv mu a r =
     (let ret = syncWait_result self r in
      res_bind
        (if ret = wake_code TIMEDOUT
         then let r = cond_incr cv (- 1) r in
              if wakeamap_plus opt
              then res_bind (deref_role r (Some a)) (\<lambda>x.
                   let (last, r) = release_role cv x r
                   in Inr (if last then upd_tls self (\<lambda>t. t\<lparr>satisfyingRole := None\<rparr>) r else r))
              else Inr r
         else Inr r) (\<lambda>r.
      cond_timed_relock opt self ins cv mu ret
        (lock_try opt self (LMutex mu) FOREVER (set_errno self error r))))"

definition cond_timed_relock_turn ::
  "options \<Rightarrow> tid \<Rightarrow> u32 \<Rightarrow> vptr \<Rightarrow> vptr \<Rightarrow> int \<Rightarrow> rt \<Rightarrow> cond_out" where
  "cond_timed_relock_turn opt self ins cv mu saved_ret r =
     cond_timed_relock opt self ins cv mu saved_ret (lock_woken opt self (LMutex mu) FOREVER r)"

text \<open>
  The choice of whom to satisfy next, at the end of \<open>pthreadCondSignal\<close> under the second
  scheduling policy: \<open>a\<close> is the object recorded for \<open>cv\<close>, \<open>x\<close> its value.
\<close>

definition switch_role :: "tid \<Rightarrow> addr \<Rightarrow> Addr_n_role \<Rightarrow> rt \<Rightarrow> rt res" where
  "switch_role self a x r =
     (let t = tls_of r self; old = blocked_cv_line_map r (satisfyingCV t);
          take = upd_tls self (\<lambda>t. t\<lparr>satisfyingRole := Some a\<rparr>) in
      if satisfyingRole t \<noteq> None \<and> satisfyingRole t \<noteq> Some a \<and> old \<noteq> None
      then res_bind (deref_role r old) (\<lambda>y.
           let oldval = role_count r y; newval = role_count r x; r = set_role_count y oldval r
           in Inr (if oldval < newval then take r else r))
      else Inr (take r))"

definition cond_signal_turn :: "options \<Rightarrow> tid \<Rightarrow> u32 \<Rightarrow> int \<Rightarrow> vptr \<Rightarrow> rt \<Rightarrow> cond_out" where
  "cond_signal_turn opt self ins error cv r =
     res_bind (sched_start opt self r) (\<lambda>r.
     res_bind (syncSignal opt self cv False r) (\<lambda>r.
     let r = (if cond_map r cv > 0 then cond_incr cv (- 1) r else r);
         entry = (if wakeamap_plus opt then blocked_cv_line_map r cv else None) in
     res_bind
       (case entry of
          None \<Rightarrow> Inr r
        | Some a \<Rightarrow> res_bind (deref_role r (Some a)) (\<lambda>x. Inr (snd (release_role cv x r)))) (\<lambda>r.
     res_bind
       (if policy opt 2
        then if \<not> wakeamap_plus opt \<and> cond_map r cv > 0
             then Inr (upd_tls self (\<lambda>t. t\<lparr>satisfyingCV := cv\<rparr>) r)
             else (case entry of
                     None \<Rightarrow> Inr r
                   | Some a \<Rightarrow> res_bind (deref_role r (Some a)) (\<lambda>x.
                       if blocked_cv_count_map r x \<noteq> None \<and> role_count r x > 0
                       then switch_role self a x r else Inr r))
        else Inr r) (\<lambda>r.
     sched_end opt self ins ''pthread_cond_signal'' [int cv] 0 error r))))"

definition cond_broadcast_turn :: "options \<Rightarrow> tid \<Rightarrow> u32 \<Rightarrow> int \<Rightarrow> vptr \<Rightarrow> rt \<Rightarrow> cond_out" where
  "cond_broadcast_turn opt self ins error cv r =
     res_bind (sched_start opt self r) (\<lambda>r.
     res_bind (syncSignal opt self cv True r) (\<lambda>r.
     let r = (if wakeamap_plus opt
              then r\<lparr>blocked_cv_line_map := (blocked_cv_line_map r)(cv := None)\<rparr> else r);
         r = (if cv = satisfyingCV (tls_of r self) then upd_tls self (\<lambda>t. t\<lparr>satisfyingCV := 0\<rparr>) r else r);
         r = r\<lparr>cond_map := (cond_map r)(cv := 0)\<rparr> in
     sched_end opt self ins ''pthread_cond_broadcast'' [int cv] 0 error r))"

section \<open>Semaphores, with the turn\<close>

definition sem_incr :: "vptr \<Rightarrow> int \<Rightarrow> rt \<Rightarrow> rt" where
  "sem_incr sp d r = r\<lparr>sem_map := (sem_map r)(sp := sem_map r sp + d)\<rparr>"

text \<open>
  One round of the loop of \<open>semWait\<close>. The statement \<open>satisfyingSem == NULL;\<close> of the code
  is a comparison and has no effect.
\<close>

definition sem_round :: "options \<Rightarrow> tid \<Rightarrow> vptr \<Rightarrow> u32 \<Rightarrow> rt \<Rightarrow> (bool \<times> rt) res" where
  "sem_round opt self sp limit r =
     (let (ret, r) = posix_sem_trywait self sp r in
      if ret = 0 then Inr (True, r)
      else assert_then opt (errno (tls_of r self) = EAGAIN)
             (res_bind (syncWait opt self sp limit (sem_incr sp 1 r)) (\<lambda>r. Inr (False, r))))"

definition sem_wait_loop :: "options \<Rightarrow> tid \<Rightarrow> u32 \<Rightarrow> int \<Rightarrow> vptr \<Rightarrow> rt \<Rightarrow> cond_out" where
  "sem_wait_loop opt self ins error sp r =
     res_bind (sem_round opt self sp FOREVER r) (\<lambda>(got, r).
     if got then sched_end opt self ins ''sem_wait'' [int sp] 0 error r
     else Inr (Await (PSemRetry ins error sp), r))"

definition sem_wait_turn :: "options \<Rightarrow> tid \<Rightarrow> u32 \<Rightarrow> int \<Rightarrow> vptr \<Rightarrow> rt \<Rightarrow> cond_out" where
  "sem_wait_turn opt self ins error sp r =
     res_bind (sched_start opt self r) (sem_wait_loop opt self ins error sp)"

definition sem_trywait_turn :: "options \<Rightarrow> tid \<Rightarrow> u32 \<Rightarrow> int \<Rightarrow> vptr \<Rightarrow> rt \<Rightarrow> cond_out" where
  "sem_trywait_turn opt self ins error sp r =
     res_bind (sched_start opt self r) (\<lambda>r.
     let (ret, r) = posix_sem_trywait self sp (set_errno self error r); error = errno (tls_of r self) in
     assert_then opt (ret \<noteq> 0 \<longrightarrow> errno (tls_of r self) = EAGAIN)
       (sched_end opt self ins ''sem_trywait'' [int sp, ret] ret error r))"

text \<open>The end of \<open>semTimedWait\<close>, which sets \<open>errno\<close> last.\<close>

definition sem_timed_end :: "options \<Rightarrow> tid \<Rightarrow> u32 \<Rightarrow> int \<Rightarrow> vptr \<Rightarrow> int \<Rightarrow> int \<Rightarrow> rt \<Rightarrow> cond_out" where
  "sem_timed_end opt self ins error sp ret saved_err r =
     res_bind (sched_end opt self ins ''sem_timedwait'' [int sp, ret] ret error r) (\<lambda>(out, r).
     Inr (out, set_errno self saved_err r))"

definition sem_timed_loop :: "options \<Rightarrow> tid \<Rightarrow> u32 \<Rightarrow> int \<Rightarrow> vptr \<Rightarrow> u32 \<Rightarrow> rt \<Rightarrow> cond_out" where
  "sem_timed_loop opt self ins error sp limit r =
     res_bind (sem_round opt self sp limit r) (\<lambda>(got, r).
     if got then sem_timed_end opt self ins error sp 0 0 r
     else Inr (Await (PSemTimedRetry ins error sp limit), r))"

definition sem_timedwait_turn :: "options \<Rightarrow> tid \<Rightarrow> u32 \<Rightarrow> int \<Rightarrow> vptr \<Rightarrow> timespec \<Rightarrow> rt \<Rightarrow> cond_out" where
  "sem_timedwait_turn opt self ins error sp rel r =
     res_bind (sched_start opt self r) (\<lambda>r.
     res_bind (turn_deadline opt rel r) (\<lambda>limit.
     sem_timed_loop opt self ins error sp limit r))"

definition sem_timed_retry_turn :: "options \<Rightarrow> tid \<Rightarrow> u32 \<Rightarrow> int \<Rightarrow> vptr \<Rightarrow> u32 \<Rightarrow> rt \<Rightarrow> cond_out" where
  "sem_timed_retry_turn opt self ins error sp limit r =
     (if syncWait_result self r = int ETIMEDOUT
      then sem_timed_end opt self ins (int ETIMEDOUT) sp (- 1) (int ETIMEDOUT) (sem_incr sp (- 1) r)
      else sem_timed_loop opt self ins error sp limit r)"

definition sem_post_turn :: "options \<Rightarrow> tid \<Rightarrow> u32 \<Rightarrow> int \<Rightarrow> vptr \<Rightarrow> rt \<Rightarrow> cond_out" where
  "sem_post_turn opt self ins error sp r =
     res_bind (sched_start opt self r) (\<lambda>r.
     let (ret, r) = posix_sem_post self sp r in
     assert_then opt (ret = 0)
       (res_bind (syncSignal opt self sp False r) (\<lambda>r.
        let r = (if sem_map r sp > 0 then sem_incr sp (- 1) r else r);
            r = (if policy opt 2 \<and> sem_map r sp > 0
                 then upd_tls self (\<lambda>t. t\<lparr>satisfyingSem := sp\<rparr>) r else r) in
        sched_end opt self ins ''sem_post'' [int sp, ret] 0 error r)))"

definition sem_init_turn :: "options \<Rightarrow> tid \<Rightarrow> u32 \<Rightarrow> int \<Rightarrow> vptr \<Rightarrow> nat \<Rightarrow> rt \<Rightarrow> cond_out" where
  "sem_init_turn opt self ins error sp v r =
     res_bind (sched_start opt self r) (\<lambda>r.
     let (ret, r) = posix_sem_init sp v r in
     assert_then opt (ret = 0) (sched_end opt self ins ''sem_init'' [int sp, ret] 0 error r))"

definition resume_cond :: "options \<Rightarrow> tid \<Rightarrow> cond_pc \<Rightarrow> rt \<Rightarrow> cond_out" where
  "resume_cond opt self pc = (case pc of
     PCondWait ins error cv mu caller \<Rightarrow> cond_wait_turn opt self ins error cv mu caller
   | PCondWoken ins error cv mu \<Rightarrow> cond_woken_turn opt self ins error cv mu
   | PCondRelock ins cv mu \<Rightarrow> cond_relock_turn opt self ins cv mu
   | PCondTimedWait ins error cv mu rel caller \<Rightarrow> cond_timedwait_turn opt self ins error cv mu rel caller
   | PCondTimedWoken ins error cv mu a \<Rightarrow> cond_timed_woken_turn opt self ins error cv mu a
   | PCondTimedRelock ins cv mu saved_ret \<Rightarrow> cond_timed_relock_turn opt self ins cv mu saved_ret
   | PCondSignal ins error cv \<Rightarrow> cond_signal_turn opt self ins error cv
   | PCondBroadcast ins error cv \<Rightarrow> cond_broadcast_turn opt self ins error cv
   | PSemWait ins error sp \<Rightarrow> sem_wait_turn opt self ins error sp
   | PSemRetry ins error sp \<Rightarrow> sem_wait_loop opt self ins error sp
   | PSemTryWait ins error sp \<Rightarrow> sem_trywait_turn opt self ins error sp
   | PSemTimedWait ins error sp rel \<Rightarrow> sem_timedwait_turn opt self ins error sp rel
   | PSemTimedRetry ins error sp limit \<Rightarrow> sem_timed_retry_turn opt self ins error sp limit
   | PSemPost ins error sp \<Rightarrow> sem_post_turn opt self ins error sp
   | PSemInit ins error sp v \<Rightarrow> sem_init_turn opt self ins error sp v)"

end
