(* ===== verification/RtBarrier.thy ===== *)
theory RtBarrier
  imports RtBase
begin

text \<open>
  Barriers and the reference-counted barriers of soft line-ups (\<open>pthreadBarrier*\<close> and
  \<open>lineup*\<close> of \<open>lib/runtime/record-runtime.cpp\<close>). The runtime counts arrivals itself and
  never blocks in a POSIX barrier: the last thread to arrive wakes the others.
\<close>

section \<open>Continuations\<close>

datatype bar_pc =
    PBarInit u32 int vptr u32 int
  | PBarWait u32 int vptr
  | PBarLeave u32 int vptr int
  | PBarDestroy u32 int vptr int
  | PLineupInit int u32 u32
  | PLineupDestroy int
  | PLineupStart int
  | PLineupWoken int vptr
  | PLineupEnd int

type_synonym bar_out = "(bar_pc outcome \<times> rt) res"

section \<open>Barriers\<close>

text \<open>Recording a new barrier; \<open>unsigned count\<close> is stored in an \<open>int\<close>.\<close>

definition add_barrier :: "options \<Rightarrow> vptr \<Rightarrow> u32 \<Rightarrow> int \<Rightarrow> rt \<Rightarrow> rt res" where
  "add_barrier opt ba n ret r =
     assert_then opt (ret = 0)
       (assert_then opt (barriers r ba = None)
         (Inr (r\<lparr>barriers := (barriers r)(ba \<mapsto> \<lparr>b_count = sint n, b_narrived = 0\<rparr>)\<rparr>)))"

text \<open>
  \<open>ret\<close> is the result of the POSIX call. Inside a non-deterministic region the barrier is
  initialized and recorded without the turn.
\<close>

definition pthreadBarrierInit ::
  "options \<Rightarrow> tid \<Rightarrow> u32 \<Rightarrow> int \<Rightarrow> vptr \<Rightarrow> u32 \<Rightarrow> int \<Rightarrow> rt \<Rightarrow> bar_out" where
  "pthreadBarrierInit opt self ins error ba n ret r =
     (if in_non_det self r
      then res_bind (add_barrier opt ba n ret (set_errno self error (count_non_det opt r))) (\<lambda>r.
           Inr (Done ret (errno (tls_of r self)), r))
      else before_turn opt self (PBarInit ins error ba n ret) r)"

definition barrier_init_turn ::
  "options \<Rightarrow> tid \<Rightarrow> u32 \<Rightarrow> int \<Rightarrow> vptr \<Rightarrow> u32 \<Rightarrow> int \<Rightarrow> rt \<Rightarrow> bar_out" where
  "barrier_init_turn opt self ins error ba n ret r =
     res_bind (sched_start opt self r) (\<lambda>r.
     res_bind (add_barrier opt ba n ret (set_errno self error r)) (\<lambda>r.
     sched_end opt self ins ''pthread_barrier_init'' [int ba, uint n] ret (errno (tls_of r self)) r))"

definition pthreadBarrierWait :: "options \<Rightarrow> tid \<Rightarrow> u32 \<Rightarrow> int \<Rightarrow> vptr \<Rightarrow> rt \<Rightarrow> bar_out" where
  "pthreadBarrierWait opt self ins error ba =
     enter_op opt self ''pthread_barrier_wait'' [int ba] (PBarWait ins error ba)"

definition set_barrier :: "vptr \<Rightarrow> barrier_t \<Rightarrow> rt \<Rightarrow> rt" where
  "set_barrier ba b r = r\<lparr>barriers := (barriers r)(ba \<mapsto> b)\<rparr>"

definition barrier_wait_turn :: "options \<Rightarrow> tid \<Rightarrow> u32 \<Rightarrow> int \<Rightarrow> vptr \<Rightarrow> rt \<Rightarrow> bar_out" where
  "barrier_wait_turn opt self ins error ba r =
     res_bind (sched_start opt self r) (\<lambda>r.
     res_bind (sched_fake_end opt self ins ''pthread_barrier_wait'' [int ba] r) (\<lambda>r.
     use_found opt (barriers r ba) (\<lambda>b.
     let b = b\<lparr>b_narrived := b_narrived b + 1\<rparr> in
     assert_then opt (b_narrived b \<le> b_count b)
       (if b_count b = b_narrived b
        then res_bind (syncSignal opt self ba True (set_barrier ba (b\<lparr>b_narrived := 0\<rparr>) r)) (\<lambda>r.
             res_bind (on_sched (putTurn opt self (th_handle (tls_of r self)) False 0) r) (\<lambda>r.
             Inr (Await (PBarLeave ins error ba PTHREAD_BARRIER_SERIAL_THREAD), r)))
        else res_bind (syncWait opt self ba FOREVER (set_barrier ba b r)) (\<lambda>r.
             Inr (Await (PBarLeave ins error ba 0), r))))))"

definition barrier_leave_turn :: "options \<Rightarrow> tid \<Rightarrow> u32 \<Rightarrow> int \<Rightarrow> vptr \<Rightarrow> int \<Rightarrow> rt \<Rightarrow> bar_out" where
  "barrier_leave_turn opt self ins error ba ret r =
     sched_end opt self ins ''pthread_barrier_wait'' [int ba] ret error r"

text \<open>\<open>ret\<close> is the result of the POSIX call.\<close>

definition pthreadBarrierDestroy :: "options \<Rightarrow> tid \<Rightarrow> u32 \<Rightarrow> int \<Rightarrow> vptr \<Rightarrow> int \<Rightarrow> rt \<Rightarrow> bar_out" where
  "pthreadBarrierDestroy opt self ins error ba ret =
     enter_op opt self ''pthread_barrier_destroy'' [int ba] (PBarDestroy ins error ba ret)"

definition barrier_destroy_turn :: "options \<Rightarrow> tid \<Rightarrow> u32 \<Rightarrow> int \<Rightarrow> vptr \<Rightarrow> int \<Rightarrow> rt \<Rightarrow> bar_out" where
  "barrier_destroy_turn opt self ins error ba ret r =
     res_bind (sched_start opt self r) (\<lambda>r.
     let r = set_errno self error r in
     assert_then opt (ret = 0 \<or> ret = EBUSY)
       (res_bind
          (if ret = 0
           then use_found opt (barriers r ba) (\<lambda>_. Inr (r\<lparr>barriers := (barriers r)(ba := None)\<rparr>))
           else Inr r) (\<lambda>r.
        sched_end opt self ins ''pthread_barrier_destroy'' [int ba, ret] ret (errno (tls_of r self)) r)))"

section \<open>Line-ups\<close>

text \<open>
  Line-ups are identified by a \<open>long\<close>, which the table \<open>refcnt_bars\<close> converts to its key
  type \<open>unsigned\<close>; the same conversion gives the instruction identifier of the log.
\<close>

definition bar_key :: "int \<Rightarrow> u32" where
  "bar_key opaque_type = word_of_int opaque_type"

definition set_bar :: "int \<Rightarrow> ref_cnt_barrier_t \<Rightarrow> rt \<Rightarrow> rt" where
  "set_bar opaque_type b r = r\<lparr>refcnt_bars := (refcnt_bars r)(bar_key opaque_type \<mapsto> b)\<rparr>"

text \<open>Inside a non-deterministic region the calls return at once.\<close>

definition enter_lineup :: "options \<Rightarrow> tid \<Rightarrow> bar_pc \<Rightarrow> rt \<Rightarrow> bar_out" where
  "enter_lineup opt self k r =
     (if in_non_det self r then Inr (Done 0 0, count_non_det opt r) else before_turn opt self k r)"

definition lineupInit :: "options \<Rightarrow> tid \<Rightarrow> int \<Rightarrow> u32 \<Rightarrow> u32 \<Rightarrow> rt \<Rightarrow> bar_out" where
  "lineupInit opt self opaque_type n timeout_turns =
     enter_lineup opt self (PLineupInit opaque_type n timeout_turns)"

definition lineupDestroy :: "options \<Rightarrow> tid \<Rightarrow> int \<Rightarrow> rt \<Rightarrow> bar_out" where
  "lineupDestroy opt self opaque_type = enter_lineup opt self (PLineupDestroy opaque_type)"

definition lineupStart :: "options \<Rightarrow> tid \<Rightarrow> int \<Rightarrow> rt \<Rightarrow> bar_out" where
  "lineupStart opt self opaque_type = enter_lineup opt self (PLineupStart opaque_type)"

definition lineupEnd :: "options \<Rightarrow> tid \<Rightarrow> int \<Rightarrow> rt \<Rightarrow> bar_out" where
  "lineupEnd opt self opaque_type = enter_lineup opt self (PLineupEnd opaque_type)"

definition lineup_init_turn :: "options \<Rightarrow> tid \<Rightarrow> int \<Rightarrow> u32 \<Rightarrow> u32 \<Rightarrow> rt \<Rightarrow> bar_out" where
  "lineup_init_turn opt self opaque_type n timeout_turns r =
     res_bind (sched_start opt self r) (\<lambda>r.
     assert_then opt (refcnt_bars r (bar_key opaque_type) = None)
       (let (b, r) = (case refcnt_bars r (bar_key opaque_type) of
              Some b \<Rightarrow> (b, r)
            | None \<Rightarrow> (\<lparr>rb_addr = rt_brk r, rb_count = 0, rb_nactive = 0, rb_timeout = 0,
                        rb_phase = ARRIVING, rb_nSuccess = 0, rb_nTimeout = 0\<rparr>, r\<lparr>rt_brk := rt_brk r + 1\<rparr>));
            b = b\<lparr>rb_count := n, rb_nactive := 0, rb_timeout := timeout_turns, rb_phase := ARRIVING\<rparr> in
        sched_end opt self (bar_key opaque_type) ''tern_lineup_init''
          [opaque_type, uint n, uint timeout_turns] 0 0 (set_bar opaque_type b r)))"

definition lineup_destroy_turn :: "options \<Rightarrow> tid \<Rightarrow> int \<Rightarrow> rt \<Rightarrow> bar_out" where
  "lineup_destroy_turn opt self opaque_type r =
     res_bind (sched_start opt self r) (\<lambda>r.
     assert_then opt (refcnt_bars r (bar_key opaque_type) \<noteq> None)
       (sched_end opt self (bar_key opaque_type) ''tern_lineup_destroy'' [opaque_type] 0 0
          (r\<lparr>refcnt_bars := (refcnt_bars r)(bar_key opaque_type := None)\<rparr>)))"

definition lineup_finish :: "options \<Rightarrow> tid \<Rightarrow> int \<Rightarrow> rt \<Rightarrow> bar_out" where
  "lineup_finish opt self opaque_type r =
     sched_end opt self (bar_key opaque_type) ''tern_lineup_start'' [opaque_type] 0 0 r"

text \<open>Opening the line-up: all waiting threads are woken.\<close>

definition lineup_open :: "options \<Rightarrow> tid \<Rightarrow> int \<Rightarrow> ref_cnt_barrier_t \<Rightarrow> rt \<Rightarrow> rt res" where
  "lineup_open opt self opaque_type b r =
     syncSignal opt self (rb_addr b) True (set_bar opaque_type (b\<lparr>rb_phase := LEAVING\<rparr>) r)"

definition lineup_start_turn :: "options \<Rightarrow> tid \<Rightarrow> int \<Rightarrow> rt \<Rightarrow> bar_out" where
  "lineup_start_turn opt self opaque_type r =
     res_bind (sched_start opt self r) (\<lambda>r.
     use_found opt (refcnt_bars r (bar_key opaque_type)) (\<lambda>b.
     let b = b\<lparr>rb_nactive := rb_nactive b + 1\<rparr>; r = set_bar opaque_type b r in
     if rb_nactive b = rb_count b
     then if rb_phase b = ARRIVING
          then res_bind (lineup_open opt self opaque_type b
                 (upd_stat opt (\<lambda>x. x\<lparr>nLineupSucc := nLineupSucc x + 1\<rparr>) r)) (lineup_finish opt self opaque_type)
          else lineup_finish opt self opaque_type r
     else if rb_phase b = ARRIVING
     then res_bind (syncWait opt self (rb_addr b) (getTurnCount (sch r) + rb_timeout b) r) (\<lambda>r.
          Inr (Await (PLineupWoken opaque_type (rb_addr b)), r))
     else lineup_finish opt self opaque_type r))"

text \<open>After the wait the reference obtained before it is used again.\<close>

definition lineup_woken_turn :: "options \<Rightarrow> tid \<Rightarrow> int \<Rightarrow> vptr \<Rightarrow> rt \<Rightarrow> bar_out" where
  "lineup_woken_turn opt self opaque_type a r =
     (case refcnt_bars r (bar_key opaque_type) of
        None \<Rightarrow> Inl DanglingDeref
      | Some b \<Rightarrow>
          check DanglingDeref (rb_addr b = a)
            (res_bind
               (if rb_nactive b < rb_count b \<and> rb_phase b = ARRIVING
                then lineup_open opt self opaque_type b
                       (upd_stat opt (\<lambda>x. x\<lparr>nLineupTimeout := nLineupTimeout x + 1\<rparr>) r)
                else Inr r) (lineup_finish opt self opaque_type)))"

definition lineup_end_turn :: "options \<Rightarrow> tid \<Rightarrow> int \<Rightarrow> rt \<Rightarrow> bar_out" where
  "lineup_end_turn opt self opaque_type r =
     res_bind (sched_start opt self r) (\<lambda>r.
     use_found opt (refcnt_bars r (bar_key opaque_type)) (\<lambda>b.
     let b = b\<lparr>rb_nactive := rb_nactive b - 1\<rparr>;
         b = (if rb_nactive b = 0 \<and> rb_phase b = LEAVING then b\<lparr>rb_phase := ARRIVING\<rparr> else b) in
     sched_end opt self (bar_key opaque_type) ''tern_lineup_end'' [opaque_type] 0 0 (set_bar opaque_type b r)))"

definition resume_bar :: "options \<Rightarrow> tid \<Rightarrow> bar_pc \<Rightarrow> rt \<Rightarrow> bar_out" where
  "resume_bar opt self pc = (case pc of
     PBarInit ins error ba n ret \<Rightarrow> barrier_init_turn opt self ins error ba n ret
   | PBarWait ins error ba \<Rightarrow> barrier_wait_turn opt self ins error ba
   | PBarLeave ins error ba ret \<Rightarrow> barrier_leave_turn opt self ins error ba ret
   | PBarDestroy ins error ba ret \<Rightarrow> barrier_destroy_turn opt self ins error ba ret
   | PLineupInit ot n tm \<Rightarrow> lineup_init_turn opt self ot n tm
   | PLineupDestroy ot \<Rightarrow> lineup_destroy_turn opt self ot
   | PLineupStart ot \<Rightarrow> lineup_start_turn opt self ot
   | PLineupWoken ot a \<Rightarrow> lineup_woken_turn opt self ot a
   | PLineupEnd ot \<Rightarrow> lineup_end_turn opt self ot)"

end
