(* ===== verification/RtThread.thy ===== *)
theory RtThread
  imports RtBase
begin

text \<open>
  Threads (\<open>threadBegin\<close>, \<open>threadEnd\<close>, \<open>pthreadCreate\<close>, \<open>pthreadJoin\<close>), the idle
  thread's operations and the annotations of \<open>lib/runtime/record-runtime.cpp\<close>:
  non-deterministic regions, tasks, external turns, role proposals, base times.
\<close>

section \<open>Continuations\<close>

text \<open>
  \<open>PCreate ins error th f outer\<close>: \<open>outer\<close> is the creation that is interrupted to create
  the idle thread first. \<open>PCreated ret error outer\<close> waits for \<open>thread_begin_done_sem\<close>, not
  for the turn; \<open>ret\<close> is what the library's \<open>pthread_create\<close> returned.
\<close>

datatype thread_pc =
    PThreadBegin
  | PThreadEnd u32
  | PCreate u32 int pthread func "(u32 \<times> int \<times> pthread \<times> func) option"
  | PCreated int int "(u32 \<times> int \<times> pthread \<times> func) option"
  | PJoin u32 int pthread
  | PJoinWoken u32 int pthread
  | PIdleSleep
  | PIdleCondWait
  | PPrintStat
  | PNonDetStart
  | PNonDetWoken
  | PNonDetBlock
  | PExtGetTurn
  | PExtPutTurn
  | PDummySync
  | PSymbolic u32 int int int

type_synonym thread_out = "(thread_pc outcome \<times> rt) res"

definition INVALID_INSID :: u32 where
  "INVALID_INSID = - 1"

section \<open>Creation\<close>

text \<open>
  The part of \<open>threadBegin\<close> before the turn. A new thread, of handle \<open>th\<close>, waits until
  its creator has registered it (\<open>None\<close>) and then learns its identifier.
\<close>

definition thread_begin_wait :: "options \<Rightarrow> pthread \<Rightarrow> rt \<Rightarrow> (tid \<times> rt) res option" where
  "thread_begin_wait opt th r =
     (if thread_begin_sem r = 0 then None
      else Some (res_bind (tm_self opt th (tids (sch r))) (\<lambda>(t, _).
             Inr (t, r\<lparr>thread_begin_sem := thread_begin_sem r - 1,
                       thread_begin_done_sem := thread_begin_done_sem r + 1\<rparr>))))"

definition threadBegin :: "options \<Rightarrow> tid \<Rightarrow> rt \<Rightarrow> thread_out" where
  "threadBegin opt self = before_turn opt self PThreadBegin"

definition thread_begin_turn :: "options \<Rightarrow> tid \<Rightarrow> rt \<Rightarrow> thread_out" where
  "thread_begin_turn opt self r =
     res_bind (sched_start opt self r) (\<lambda>r.
     sched_end opt self INVALID_INSID ''tern_thread_begin'' [int (th_handle (tls_of r self))] 0 0 r)"

definition threadEnd :: "options \<Rightarrow> tid \<Rightarrow> u32 \<Rightarrow> rt \<Rightarrow> thread_out" where
  "threadEnd opt self ins = before_turn opt self (PThreadEnd ins)"

definition thread_end_turn :: "options \<Rightarrow> tid \<Rightarrow> u32 \<Rightarrow> rt \<Rightarrow> thread_out" where
  "thread_end_turn opt self ins r =
     res_bind (sched_start opt self r) (\<lambda>r.
     res_bind (sched_thread_end opt self ins ''tern_thread_end'' [int (th_handle (tls_of r self))] r) (\<lambda>r.
     Inr (Done 0 0, r)))"

text \<open>
  \<open>pthreadCreate\<close> up to its turn. When the idle thread is created on demand it is created
  first, by a nested call (\<open>__tern_sys_create_idle_thread\<close> of \<open>helper.cpp\<close>): \<open>idle\<close>
  is the handle the operating system gives it, \<open>idle_func\<close> its start function and
  \<open>idle_mutex\<close> the address of its mutex.
\<close>

definition IDLE_INS :: u32 where
  "IDLE_INS = 0xdead0000"

definition create_idle ::
  "options \<Rightarrow> tid \<Rightarrow> pthread \<Rightarrow> func \<Rightarrow> vptr \<Rightarrow> (u32 \<times> int \<times> pthread \<times> func) option \<Rightarrow> rt \<Rightarrow> thread_out" where
  "create_idle opt self idle idle_func idle_mutex outer r =
     (let (_, r) = posix_mutex_init idle_mutex MNormal (r\<lparr>idle_created := True, idle_th := idle\<rparr>) in
      before_turn opt self (PCreate IDLE_INS (errno (tls_of r self)) idle idle_func outer)
        (r\<lparr>no_child_threads_created := False\<rparr>))"

definition pthreadCreate ::
  "options \<Rightarrow> tid \<Rightarrow> u32 \<Rightarrow> int \<Rightarrow> pthread \<Rightarrow> func \<Rightarrow> pthread \<Rightarrow> func \<Rightarrow> vptr \<Rightarrow> rt \<Rightarrow> thread_out" where
  "pthreadCreate opt self ins error th f idle idle_func idle_mutex r =
     (if launch_idle_thread opt = 2 \<and> \<not> idle_created r
      then create_idle opt self idle idle_func idle_mutex (Some (ins, error, th, f)) r
      else before_turn opt self (PCreate ins error th f None)
             (if idle_created r \<or> launch_idle_thread opt = 0
              then r\<lparr>no_child_threads_created := False\<rparr> else r))"

text \<open>
  With the turn: create the thread, register it, then let it start. \<open>ret\<close> is the result of the
  library's \<open>pthread_create\<close>, which the code asserts to be \<open>0\<close>.
\<close>

definition create_turn ::
  "options \<Rightarrow> tid \<Rightarrow> int \<Rightarrow> u32 \<Rightarrow> int \<Rightarrow> pthread \<Rightarrow> func \<Rightarrow> (u32 \<times> int \<times> pthread \<times> func) option \<Rightarrow> rt \<Rightarrow> thread_out" where
  "create_turn opt self ret ins error th f outer r =
     res_bind (sched_start opt self r) (\<lambda>r.
     assert_then opt (ret = 0)
      (res_bind (sched_create opt self th f (sch r)) (\<lambda>(_, s).
       res_bind (sched_end opt self ins ''pthread_create'' [int th, ret] ret error (r\<lparr>sch := s\<rparr>) :: thread_out) (\<lambda>(_, r).
       Inr (Await (PCreated ret error outer), r\<lparr>thread_begin_sem := thread_begin_sem r + 1\<rparr>)))))"

text \<open>
  After \<open>sem_wait(&thread_begin_done_sem)\<close>, which blocks (\<open>None\<close>) until the child has started. The
  creation of the idle thread is asserted to have succeeded, and the outer creation goes on.
\<close>

definition create_done ::
  "options \<Rightarrow> tid \<Rightarrow> int \<Rightarrow> int \<Rightarrow> (u32 \<times> int \<times> pthread \<times> func) option \<Rightarrow> rt \<Rightarrow> thread_out option" where
  "create_done opt self ret error outer r =
     (if thread_begin_done_sem r = 0 then None
      else let r = r\<lparr>thread_begin_done_sem := thread_begin_done_sem r - 1\<rparr> in
           Some (case outer of
             None \<Rightarrow> Inr (Done ret error, r)
           | Some (ins, err, th, f) \<Rightarrow> assert_then opt (ret = 0)
              (before_turn opt self (PCreate ins err th f None)
                 (upd_tls self (\<lambda>t. t\<lparr>errno := error, slock_n_turns := slock_n_turns t + 2\<rparr>) r))))"

section \<open>Joining\<close>

definition pthreadJoin :: "options \<Rightarrow> tid \<Rightarrow> u32 \<Rightarrow> int \<Rightarrow> pthread \<Rightarrow> rt \<Rightarrow> thread_out" where
  "pthreadJoin opt self ins error th = before_turn opt self (PJoin ins error th)"

text \<open>
  One round of the loop: wait until the thread is a zombie, then join and reap it. The library's
  \<open>pthread_join\<close> is the pair \<open>lib\<close> of its result, which the code asserts to be \<open>0\<close>, and the
  \<open>errno\<close> after it, which becomes the caller's.
\<close>

definition join_round :: "options \<Rightarrow> tid \<Rightarrow> int \<times> int \<Rightarrow> u32 \<Rightarrow> int \<Rightarrow> pthread \<Rightarrow> rt \<Rightarrow> thread_out" where
  "join_round opt self lib ins error th r =
     (if \<not> tm_zombie th (tids (sch r))
      then res_bind (on_sched (wait_begin opt self th FOREVER) r) (\<lambda>r.
           Inr (Await (PJoinWoken ins error th), r))
      else let (ret, e) = lib; r = set_errno self e (set_errno self error r) in
           assert_then opt (ret = 0)
            (sched_end opt self ins ''pthread_join'' [int th] ret (errno (tls_of r self))
              (r\<lparr>sch := sched_join th (sch r)\<rparr>)))"

definition join_turn :: "options \<Rightarrow> tid \<Rightarrow> int \<times> int \<Rightarrow> u32 \<Rightarrow> int \<Rightarrow> pthread \<Rightarrow> rt \<Rightarrow> thread_out" where
  "join_turn opt self lib ins error th r =
     res_bind (sched_start opt self r) (join_round opt self lib ins error th)"

section \<open>The idle thread\<close>

text \<open>The turn number is asserted to be non-negative as a signed integer.\<close>

definition idle_sleep :: "tid \<Rightarrow> rt \<Rightarrow> thread_out" where
  "idle_sleep self r = Inr (Await PIdleSleep, r)"

definition idle_sleep_turn :: "options \<Rightarrow> tid \<Rightarrow> rt \<Rightarrow> thread_out" where
  "idle_sleep_turn opt self r =
     res_bind (incTurnCount opt (sch r)) (\<lambda>(turn, s).
     assert_then opt (0 \<le> sint turn)
       (let r = logSync opt 0 0 ''tern_idle'' turn True [] (r\<lparr>sch := s\<rparr>) in
        res_bind (on_sched (putTurn opt self (th_handle (tls_of r self)) False 0) r) (\<lambda>r.
        Inr (Done 0 0, r))))"

text \<open>The result says whether the thread then waits on \<open>idle_cond\<close> (\<open>1\<close>) or not (\<open>0\<close>).\<close>

definition idle_cond_wait_turn :: "options \<Rightarrow> tid \<Rightarrow> rt \<Rightarrow> thread_out" where
  "idle_cond_wait_turn opt self r =
     res_bind (incTurnCount opt (sch r)) (\<lambda>(turn, s).
     assert_then opt (0 \<le> sint turn)
       (if rq_size (runq s) \<ge> 2
        then res_bind (idleThreadCondWait opt self (th_handle (tls_of r self)) s) (\<lambda>(b, s).
             Inr (Done (if b then 1 else 0) 0, r\<lparr>sch := s\<rparr>))
        else res_bind (putTurn opt self (th_handle (tls_of r self)) False 0 s) (\<lambda>s.
             Inr (Done 0 0, r\<lparr>sch := s\<rparr>))))"

definition print_stat_turn :: "options \<Rightarrow> tid \<Rightarrow> rt \<Rightarrow> thread_out" where
  "print_stat_turn opt self r =
     res_bind (incTurnCount opt (sch r)) (\<lambda>(_, s).
     let (strategy, r) = getPutTurnStrategy opt self [] (r\<lparr>sch := s\<rparr>) in
     res_bind (on_sched (putTurn opt self (th_handle (tls_of r self)) False strategy) r) (\<lambda>r.
     Inr (Done 0 0, r)))"

section \<open>Non-deterministic regions\<close>

definition set_nNonDetWait :: "(nat \<Rightarrow> nat) \<Rightarrow> rt \<Rightarrow> rt" where
  "set_nNonDetWait f r = r\<lparr>sch := (sch r)\<lparr>nNonDetWait := f (nNonDetWait (sch r))\<rparr>\<rparr>"

definition nonDetStart :: "options \<Rightarrow> tid \<Rightarrow> rt \<Rightarrow> thread_out" where
  "nonDetStart opt self = before_turn opt self PNonDetStart"

definition non_det_start_turn :: "options \<Rightarrow> tid \<Rightarrow> rt \<Rightarrow> thread_out" where
  "non_det_start_turn opt self r =
     res_bind (sched_start opt self r) (\<lambda>r.
     let r = set_nNonDetWait Suc (upd_stat opt (\<lambda>x. x\<lparr>nNonDetRegions := nNonDetRegions x + 1\<rparr>) r) in
     res_bind (on_sched (wait_begin opt self nonDetCV FOREVER) r) (\<lambda>r.
     Inr (Await PNonDetWoken, r)))"

definition non_det_woken_turn :: "options \<Rightarrow> tid \<Rightarrow> rt \<Rightarrow> thread_out" where
  "non_det_woken_turn opt self r =
     res_bind (sched_end opt self 0 ''tern_non_det_start'' [0] 0 0 (set_nNonDetWait (\<lambda>n. n - 1) r) :: thread_out) (\<lambda>(_, r).
     Inr (Await PNonDetBlock, r))"

definition non_det_block_turn :: "options \<Rightarrow> tid \<Rightarrow> rt \<Rightarrow> thread_out" where
  "non_det_block_turn opt self r =
     res_bind (block_turn opt self (sch r)) (\<lambda>(_, s).
     let r = r\<lparr>sch := s\<rparr> in
     assert_then opt (\<not> inNonDet (tls_of r self))
       (Inr (Done 0 0, upd_tls self (\<lambda>t. t\<lparr>inNonDet := True\<rparr>) r)))"

definition nonDetEnd :: "options \<Rightarrow> tid \<Rightarrow> rt \<Rightarrow> rt res" where
  "nonDetEnd opt self r =
     assert_then opt (enforce_non_det_annotations opt = 1)
       (assert_then opt (inNonDet (tls_of r self))
         (let r = upd_tls self (\<lambda>t. t\<lparr>inNonDet := False\<rparr>) r
          in Inr (r\<lparr>sch := wakeup self (sch r)\<rparr>)))"

definition nonDetBarrierEnd :: "options \<Rightarrow> tid \<Rightarrow> rt \<Rightarrow> rt res" where
  "nonDetBarrierEnd opt self r =
     assert_then opt (enforce_non_det_annotations opt = 1)
       (assert_then opt (inNonDet (tls_of r self))
         (let r = upd_tls self (\<lambda>t. t\<lparr>inNonDet := False\<rparr>) r
          in Inr (r\<lparr>sch := wakeup self (sch r)\<rparr>)))"

definition noWaitNonDetStart :: "options \<Rightarrow> tid \<Rightarrow> rt \<Rightarrow> rt res" where
  "noWaitNonDetStart opt self r =
     assert_then opt (\<not> inNonDet (tls_of r self) \<and> \<not> inNoWaitNonDet (tls_of r self))
       (Inr (if enforce_no_wait_non_det_annotations opt = 1
             then upd_tls self (\<lambda>t. t\<lparr>inNoWaitNonDet := True\<rparr>) r
             else if enforce_no_wait_non_det_annotations opt = 2
             then upd_tls self (\<lambda>t. t\<lparr>noCSWholeLocal := True\<rparr>) r
             else r))"

definition noWaitNonDetEnd :: "options \<Rightarrow> tid \<Rightarrow> rt \<Rightarrow> rt res" where
  "noWaitNonDetEnd opt self r =
     assert_then opt (inNoWaitNonDet (tls_of r self))
       (Inr (if enforce_no_wait_non_det_annotations opt = 1
             then upd_tls self (\<lambda>t. t\<lparr>inNoWaitNonDet := False\<rparr>) r
             else if enforce_no_wait_non_det_annotations opt = 2
             then upd_tls self (\<lambda>t. t\<lparr>noCSWholeLocal := False\<rparr>) r
             else r))"

section \<open>Other annotations\<close>

definition set_slock_next_n :: "options \<Rightarrow> tid \<Rightarrow> int \<Rightarrow> rt \<Rightarrow> rt" where
  "set_slock_next_n opt self n r = (if enforce_next_n_annotations opt
     then upd_tls self (\<lambda>t. t\<lparr>slock_n_turns := n - 1\<rparr>) r else r)"

definition mark_task_start :: "tid \<Rightarrow> int \<Rightarrow> timespec \<Rightarrow> rt \<Rightarrow> rt" where
  "mark_task_start self task_id now r =
     upd_tls self (\<lambda>t. t\<lparr>this_task := word_of_int task_id, task_start_time := now\<rparr>) r"

definition MAX_TIME_K :: u32 where
  "MAX_TIME_K = 50"

definition DELAY_TASK_NOT_FOUND :: nat where
  "DELAY_TASK_NOT_FOUND = 32"

text \<open>
  \<open>mark_task_end\<close>: the result is how many microseconds \<open>busy_wait\<close> is called for, if it
  is. A null pointer in the table is an absent entry or one of value \<open>0\<close>.
\<close>

definition mark_task_end :: "options \<Rightarrow> tid \<Rightarrow> int \<Rightarrow> timespec \<Rightarrow> rt \<Rightarrow> (u32 option \<times> rt) res" where
  "mark_task_end opt self task_id now r =
     (let t = tls_of r self; r' = upd_tls self (\<lambda>t. t\<lparr>this_task := 0\<rparr>) r in
      assert_then opt (this_task t = word_of_int task_id)
        (if this_task t \<noteq> word_of_int task_id then Inr (None, r')
         else
           let elapsed_time = timespec_to_usec (time_diff (task_start_time t) now);
               max_time = (case app_time_table r task_id of None \<Rightarrow> 0 | Some n \<Rightarrow> n) in
           if log_task_time opt \<noteq> 1 \<and> (log_task_time opt = 2 \<or> enforce_delays opt) \<and>
              \<not> (log_task_time opt = 2 \<and> max_time = 0) \<and> enforce_delays opt
           then if max_time = 0 then Inl (ExitProcess DELAY_TASK_NOT_FOUND)
                else Inr (if max_time > MAX_TIME_K \<and> max_time > elapsed_time
                          then Some (max_time - elapsed_time) else None, r')
           else Inr (None, r')))"

definition unmark_task :: "options \<Rightarrow> tid \<Rightarrow> int \<Rightarrow> rt \<Rightarrow> rt res" where
  "unmark_task opt self task_id r =
     assert_then opt (this_task (tls_of r self) = word_of_int task_id)
       (Inr (upd_tls self (\<lambda>t. t\<lparr>this_task := 0\<rparr>) r))"

text \<open>External turns; \<open>None\<close> when the annotation is not enforced and the call does nothing.\<close>

definition ext_turn_on :: "options \<Rightarrow> tid \<Rightarrow> rt \<Rightarrow> bool" where
  "ext_turn_on opt self r \<longleftrightarrow> enforce_ext_turn opt \<and> \<not> in_non_det self r \<and> enforce_turn_type opt \<ge> 0"

definition ext_get_turn :: "options \<Rightarrow> tid \<Rightarrow> rt \<Rightarrow> thread_out" where
  "ext_get_turn opt self r =
     (if ext_turn_on opt self r then before_turn opt self PExtGetTurn r else Inr (Done 0 0, r))"

definition ext_put_turn :: "options \<Rightarrow> tid \<Rightarrow> rt \<Rightarrow> thread_out" where
  "ext_put_turn opt self r =
     (if ext_turn_on opt self r then before_turn opt self PExtPutTurn r else Inr (Done 0 0, r))"

text \<open>\<open>(unsigned)pthread_self()\<close> stored in an \<open>int\<close>, and read back as \<open>unsigned\<close>.\<close>

definition self_handle32 :: "tid \<Rightarrow> rt \<Rightarrow> u32" where
  "self_handle32 self r = word_of_nat (th_handle (tls_of r self))"

definition ext_get_turn_turn :: "options \<Rightarrow> tid \<Rightarrow> rt \<Rightarrow> thread_out" where
  "ext_get_turn_turn opt self r =
     res_bind (sched_start opt self r) (\<lambda>r.
     assert_then opt (dmt_lock_holder r = - 1)
       (let r = upd_tls self (\<lambda>t. t\<lparr>inCSLevel := inCSLevel t + 1\<rparr>)
                  (r\<lparr>dmt_lock_holder := sint (self_handle32 self r)\<rparr>)
        in sched_end opt self 0 ''tern_ext_get_turn'' [0] 0 0 r))"

definition ext_put_turn_turn :: "options \<Rightarrow> tid \<Rightarrow> rt \<Rightarrow> thread_out" where
  "ext_put_turn_turn opt self r =
     res_bind (sched_start opt self r) (\<lambda>r.
     assert_then opt (word_of_int (dmt_lock_holder r) = self_handle32 self r)
       (let r = r\<lparr>dmt_lock_holder := - 1\<rparr>;
            r = (if inCSLevel (tls_of r self) > 0
                 then upd_tls self (\<lambda>t. t\<lparr>inCSLevel := inCSLevel t - 1\<rparr>) r else r)
        in sched_end opt self 0 ''tern_ext_put_turn'' [0] 0 0 r))"

definition propose_thread_role :: "tid \<Rightarrow> pthread \<Rightarrow> func \<Rightarrow> rt \<Rightarrow> rt" where
  "propose_thread_role self th f r =
     upd_tls self (\<lambda>t. t\<lparr>process_proposed_role := True\<rparr>)
       (r\<lparr>proposed_role := (th, f) # filter (\<lambda>e. fst e \<noteq> th) (proposed_role r)\<rparr>)"

text \<open>A null \<open>ts\<close> is dereferenced when assertions are off.\<close>

definition setBaseTime :: "options \<Rightarrow> tid \<Rightarrow> timespec option \<Rightarrow> rt \<Rightarrow> rt res" where
  "setBaseTime opt self ts r = (case ts of
     None \<Rightarrow> Inl (if ndebug opt then NullDeref else AssertFailed)
   | Some b \<Rightarrow> Inr (upd_tls self (\<lambda>t. t\<lparr>my_base_time := b\<rparr>) r))"

definition dummySync :: "options \<Rightarrow> tid \<Rightarrow> rt \<Rightarrow> thread_out" where
  "dummySync opt self r = assert_then opt (enforce_dummy_sync opt) (before_turn opt self PDummySync r)"

definition dummy_sync_turn :: "options \<Rightarrow> tid \<Rightarrow> rt \<Rightarrow> thread_out" where
  "dummy_sync_turn opt self r =
     res_bind (sched_start opt self r) (\<lambda>r. sched_end opt self 0 ''tern_dummy_sync'' [0] 0 0 r)"

definition symbolic :: "options \<Rightarrow> tid \<Rightarrow> u32 \<Rightarrow> int \<Rightarrow> int \<Rightarrow> int \<Rightarrow> rt \<Rightarrow> thread_out" where
  "symbolic opt self ins error p nbyte = before_turn opt self (PSymbolic ins error p nbyte)"

definition symbolic_turn :: "options \<Rightarrow> tid \<Rightarrow> u32 \<Rightarrow> int \<Rightarrow> int \<Rightarrow> int \<Rightarrow> rt \<Rightarrow> thread_out" where
  "symbolic_turn opt self ins error p nbyte r =
     res_bind (sched_start opt self r) (\<lambda>r. sched_end opt self ins ''tern_symbolic'' [p, nbyte] 0 error r)"

section \<open>Dispatch\<close>

text \<open>
  \<open>None\<close> while a creator waits for its child to start. \<open>lib\<close> is the answer of the thread library,
  a result and the \<open>errno\<close> after it, to the call the segment makes, if it makes one.
\<close>

definition resume_thread :: "options \<Rightarrow> tid \<Rightarrow> int \<times> int \<Rightarrow> thread_pc \<Rightarrow> rt \<Rightarrow> thread_out option" where
  "resume_thread opt self lib pc r = (case pc of
     PThreadBegin \<Rightarrow> Some (thread_begin_turn opt self r)
   | PThreadEnd ins \<Rightarrow> Some (thread_end_turn opt self ins r)
   | PCreate ins error th f outer \<Rightarrow> Some (create_turn opt self (fst lib) ins error th f outer r)
   | PCreated ret error outer \<Rightarrow> create_done opt self ret error outer r
   | PJoin ins error th \<Rightarrow> Some (join_turn opt self lib ins error th r)
   | PJoinWoken ins error th \<Rightarrow> Some (join_round opt self lib ins error th r)
   | PIdleSleep \<Rightarrow> Some (idle_sleep_turn opt self r)
   | PIdleCondWait \<Rightarrow> Some (idle_cond_wait_turn opt self r)
   | PPrintStat \<Rightarrow> Some (print_stat_turn opt self r)
   | PNonDetStart \<Rightarrow> Some (non_det_start_turn opt self r)
   | PNonDetWoken \<Rightarrow> Some (non_det_woken_turn opt self r)
   | PNonDetBlock \<Rightarrow> Some (non_det_block_turn opt self r)
   | PExtGetTurn \<Rightarrow> Some (ext_get_turn_turn opt self r)
   | PExtPutTurn \<Rightarrow> Some (ext_put_turn_turn opt self r)
   | PDummySync \<Rightarrow> Some (dummy_sync_turn opt self r)
   | PSymbolic ins error p n \<Rightarrow> Some (symbolic_turn opt self ins error p n r))"

end
