(* ===== verification/RtIO.thy ===== *)
theory RtIO
  imports RtThread
begin

text \<open>
  Inter-process operations of \<open>lib/runtime/record-runtime.cpp\<close>: sockets, files, name
  lookups, child processes, sleeping and forking. Most are bracketed by \<open>BLOCK_TIMER_START\<close>
  and \<open>BLOCK_TIMER_END\<close>, which take the thread off the run queue while the system call is
  under way and announce its return without taking the turn.
\<close>

section \<open>Blocking calls\<close>

text \<open>
  How a call proceeds: it is handed to the operating system without involving the scheduler
  (\<open>IoNative\<close>, through the base class; \<open>IoDirect\<close>, straight to the C library), the
  thread, which has been passed the turn, first takes it to leave the run queue (\<open>IoTurn\<close>), or
  the system call is under way (\<open>IoCall\<close>).
\<close>

datatype io_step =
    IoNative syncfunc "int list"
  | IoDirect syncfunc "int list"
  | IoTurn syncfunc "int list"
  | IoCall syncfunc "int list"

type_synonym io_out = "(io_step \<times> rt) res"

definition io_start :: "options \<Rightarrow> tid \<Rightarrow> syncfunc \<Rightarrow> int list \<Rightarrow> rt \<Rightarrow> io_out" where
  "io_start opt self f args r =
     (let r = upd_stat opt (\<lambda>x. x\<lparr>nInterProcSyncOp := nInterProcSyncOp x + 1\<rparr>) r in
      if in_non_det self r then Inr (IoNative f args, r)
      else res_bind (interProStart opt self (sch r)) (\<lambda>(head, s).
           Inr (if head then IoTurn f args else IoCall f args, r\<lparr>sch := s\<rparr>)))"

text \<open>\<open>block()\<close> after its \<open>getTurn\<close>.\<close>

definition io_turn :: "options \<Rightarrow> tid \<Rightarrow> syncfunc \<Rightarrow> int list \<Rightarrow> rt \<Rightarrow> io_out" where
  "io_turn opt self f args r =
     res_bind (block_turn opt self (sch r)) (\<lambda>(_, s). Inr (IoCall f args, r\<lparr>sch := s\<rparr>))"

text \<open>\<open>BLOCK_TIMER_END\<close> after a system call with result \<open>ret\<close> that left \<open>err\<close> in \<open>errno\<close>.\<close>

definition io_end :: "options \<Rightarrow> tid \<Rightarrow> int \<Rightarrow> int \<Rightarrow> rt \<Rightarrow> ((int \<times> int) \<times> rt) res" where
  "io_end opt self ret err r =
     (let r = set_errno self err r; backup_errno = errno (tls_of r self) in
      res_bind (interProEnd opt self (sch r)) (\<lambda>(b, s).
      Inr ((ret, err), set_errno self backup_errno (r\<lparr>sch := (if b then wakeup self s else s)\<rparr>))))"

text \<open>
  \<open>accept\<close> and \<open>connect\<close> read the peer's address for the log before their
  \<open>BLOCK_TIMER_END\<close>.
\<close>

definition io_end_address :: "options \<Rightarrow> tid \<Rightarrow> int \<Rightarrow> int \<Rightarrow> int \<Rightarrow> rt \<Rightarrow> ((int \<times> int) \<times> rt) res" where
  "io_end_address opt self address ret err r =
     check NullDeref (log_sync opt \<longrightarrow> address \<noteq> 0) (io_end opt self ret err r)"

text \<open>Neither a socket nor a FIFO; \<open>st_mode\<close> is what \<open>fstat\<close> reports.\<close>

definition regularFile :: "32 word \<Rightarrow> bool" where
  "regularFile st_mode \<longleftrightarrow> 0xC000 \<noteq> st_mode AND 0xF000 \<and> 0x1000 \<noteq> st_mode AND 0xF000"

definition io_file :: "options \<Rightarrow> tid \<Rightarrow> 32 word \<Rightarrow> syncfunc \<Rightarrow> int list \<Rightarrow> rt \<Rightarrow> io_out" where
  "io_file opt self st_mode f args r =
     (if RR_ignore_rw_regular_file opt \<and> regularFile st_mode then Inr (IoDirect f args, r)
      else io_start opt self f args r)"

section \<open>The calls\<close>

definition io_pthread_detach :: "options \<Rightarrow> tid \<Rightarrow> int \<Rightarrow> rt \<Rightarrow> io_out" where
  "io_pthread_detach opt self th = io_start opt self ''pthread_detach'' [th]"

definition io_accept :: "options \<Rightarrow> tid \<Rightarrow> int \<Rightarrow> int \<Rightarrow> int \<Rightarrow> rt \<Rightarrow> io_out" where
  "io_accept opt self sockfd cliaddr addrlen = io_start opt self ''accept'' [sockfd, cliaddr, addrlen]"

definition io_accept4 :: "options \<Rightarrow> tid \<Rightarrow> int \<Rightarrow> int \<Rightarrow> int \<Rightarrow> int \<Rightarrow> rt \<Rightarrow> io_out" where
  "io_accept4 opt self sockfd cliaddr addrlen flags = io_start opt self ''accept4'' [sockfd, cliaddr, addrlen, flags]"

definition io_connect :: "options \<Rightarrow> tid \<Rightarrow> int \<Rightarrow> int \<Rightarrow> int \<Rightarrow> rt \<Rightarrow> io_out" where
  "io_connect opt self sockfd serv_addr addrlen = io_start opt self ''connect'' [sockfd, serv_addr, addrlen]"

definition io_send :: "options \<Rightarrow> tid \<Rightarrow> int \<Rightarrow> int \<Rightarrow> int \<Rightarrow> int \<Rightarrow> rt \<Rightarrow> io_out" where
  "io_send opt self sockfd buf len flags = io_start opt self ''send'' [sockfd, buf, len, flags]"

definition io_sendto :: "options \<Rightarrow> tid \<Rightarrow> int \<Rightarrow> int \<Rightarrow> int \<Rightarrow> int \<Rightarrow> int \<Rightarrow> int \<Rightarrow> rt \<Rightarrow> io_out" where
  "io_sendto opt self sockfd buf len flags dest_addr addrlen = io_start opt self ''sendto'' [sockfd, buf, len, flags, dest_addr, addrlen]"

definition io_sendmsg :: "options \<Rightarrow> tid \<Rightarrow> int \<Rightarrow> int \<Rightarrow> int \<Rightarrow> rt \<Rightarrow> io_out" where
  "io_sendmsg opt self sockfd msg flags = io_start opt self ''sendmsg'' [sockfd, msg, flags]"

definition io_recv :: "options \<Rightarrow> tid \<Rightarrow> int \<Rightarrow> int \<Rightarrow> int \<Rightarrow> int \<Rightarrow> rt \<Rightarrow> io_out" where
  "io_recv opt self sockfd buf len flags = io_start opt self ''recv'' [sockfd, buf, len, flags]"

definition io_recvfrom :: "options \<Rightarrow> tid \<Rightarrow> int \<Rightarrow> int \<Rightarrow> int \<Rightarrow> int \<Rightarrow> int \<Rightarrow> int \<Rightarrow> rt \<Rightarrow> io_out" where
  "io_recvfrom opt self sockfd buf len flags src_addr addrlen = io_start opt self ''recvfrom'' [sockfd, buf, len, flags, src_addr, addrlen]"

definition io_recvmsg :: "options \<Rightarrow> tid \<Rightarrow> int \<Rightarrow> int \<Rightarrow> int \<Rightarrow> rt \<Rightarrow> io_out" where
  "io_recvmsg opt self sockfd msg flags = io_start opt self ''recvmsg'' [sockfd, msg, flags]"

definition io_read :: "options \<Rightarrow> tid \<Rightarrow> 32 word \<Rightarrow> int \<Rightarrow> int \<Rightarrow> int \<Rightarrow> rt \<Rightarrow> io_out" where
  "io_read opt self st_mode fd buf n = io_file opt self st_mode ''read'' [fd, buf, n]"

definition io_write :: "options \<Rightarrow> tid \<Rightarrow> 32 word \<Rightarrow> int \<Rightarrow> int \<Rightarrow> int \<Rightarrow> rt \<Rightarrow> io_out" where
  "io_write opt self st_mode fd buf n = io_file opt self st_mode ''write'' [fd, buf, n]"

definition io_pread :: "options \<Rightarrow> tid \<Rightarrow> 32 word \<Rightarrow> int \<Rightarrow> int \<Rightarrow> int \<Rightarrow> int \<Rightarrow> rt \<Rightarrow> io_out" where
  "io_pread opt self st_mode fd buf n offset = io_file opt self st_mode ''pread'' [fd, buf, n, offset]"

definition io_pwrite :: "options \<Rightarrow> tid \<Rightarrow> 32 word \<Rightarrow> int \<Rightarrow> int \<Rightarrow> int \<Rightarrow> int \<Rightarrow> rt \<Rightarrow> io_out" where
  "io_pwrite opt self st_mode fd buf n offset = io_file opt self st_mode ''pwrite'' [fd, buf, n, offset]"

definition io_select :: "options \<Rightarrow> tid \<Rightarrow> int \<Rightarrow> int \<Rightarrow> int \<Rightarrow> int \<Rightarrow> int \<Rightarrow> rt \<Rightarrow> io_out" where
  "io_select opt self nfds readfds writefds exceptfds limit = io_start opt self ''select'' [nfds, readfds, writefds, exceptfds, limit]"

definition io_epoll_wait :: "options \<Rightarrow> tid \<Rightarrow> int \<Rightarrow> int \<Rightarrow> int \<Rightarrow> int \<Rightarrow> rt \<Rightarrow> io_out" where
  "io_epoll_wait opt self epfd events maxevents limit = io_start opt self ''epoll_wait'' [epfd, events, maxevents, limit]"

definition io_epoll_create :: "options \<Rightarrow> tid \<Rightarrow> int \<Rightarrow> rt \<Rightarrow> io_out" where
  "io_epoll_create opt self sz = io_start opt self ''epoll_create'' [sz]"

definition io_epoll_ctl :: "options \<Rightarrow> tid \<Rightarrow> int \<Rightarrow> int \<Rightarrow> int \<Rightarrow> int \<Rightarrow> rt \<Rightarrow> io_out" where
  "io_epoll_ctl opt self epfd cmd fd event = io_start opt self ''epoll_ctl'' [epfd, cmd, fd, event]"

definition io_poll :: "options \<Rightarrow> tid \<Rightarrow> int \<Rightarrow> int \<Rightarrow> int \<Rightarrow> rt \<Rightarrow> io_out" where
  "io_poll opt self fds nfds limit = io_start opt self ''poll'' [fds, nfds, limit]"

definition io_bind :: "options \<Rightarrow> tid \<Rightarrow> int \<Rightarrow> int \<Rightarrow> int \<Rightarrow> rt \<Rightarrow> io_out" where
  "io_bind opt self socket address address_len = io_start opt self ''bind'' [socket, address, address_len]"

definition io_sigwait :: "options \<Rightarrow> tid \<Rightarrow> int \<Rightarrow> int \<Rightarrow> rt \<Rightarrow> io_out" where
  "io_sigwait opt self sigset sig = io_start opt self ''sigwait'' [sigset, sig]"

definition io_fgets :: "options \<Rightarrow> tid \<Rightarrow> 32 word \<Rightarrow> int \<Rightarrow> int \<Rightarrow> int \<Rightarrow> rt \<Rightarrow> io_out" where
  "io_fgets opt self st_mode buf sz file = io_file opt self st_mode ''fgets'' [buf, sz, file]"

definition io_kill :: "options \<Rightarrow> tid \<Rightarrow> int \<Rightarrow> int \<Rightarrow> rt \<Rightarrow> io_out" where
  "io_kill opt self pid sig = io_start opt self ''kill'' [pid, sig]"

definition io_wait :: "options \<Rightarrow> tid \<Rightarrow> int \<Rightarrow> rt \<Rightarrow> io_out" where
  "io_wait opt self status = io_start opt self ''wait'' [status]"

definition io_waitpid :: "options \<Rightarrow> tid \<Rightarrow> int \<Rightarrow> int \<Rightarrow> int \<Rightarrow> rt \<Rightarrow> io_out" where
  "io_waitpid opt self pid status flags = io_start opt self ''waitpid'' [pid, status, flags]"

definition io_socket :: "options \<Rightarrow> tid \<Rightarrow> int \<Rightarrow> int \<Rightarrow> int \<Rightarrow> rt \<Rightarrow> io_out" where
  "io_socket opt self domain ty protocol = io_start opt self ''socket'' [domain, ty, protocol]"

definition io_listen :: "options \<Rightarrow> tid \<Rightarrow> int \<Rightarrow> int \<Rightarrow> rt \<Rightarrow> io_out" where
  "io_listen opt self sockfd backlog = io_start opt self ''listen'' [sockfd, backlog]"

definition io_shutdown :: "options \<Rightarrow> tid \<Rightarrow> int \<Rightarrow> int \<Rightarrow> rt \<Rightarrow> io_out" where
  "io_shutdown opt self sockfd how = io_start opt self ''shutdown'' [sockfd, how]"

definition io_getsockopt :: "options \<Rightarrow> tid \<Rightarrow> int \<Rightarrow> int \<Rightarrow> int \<Rightarrow> int \<Rightarrow> int \<Rightarrow> rt \<Rightarrow> io_out" where
  "io_getsockopt opt self sockfd level optname optval optlen = io_start opt self ''getsockopt'' [sockfd, level, optname, optval, optlen]"

definition io_setsockopt :: "options \<Rightarrow> tid \<Rightarrow> int \<Rightarrow> int \<Rightarrow> int \<Rightarrow> int \<Rightarrow> int \<Rightarrow> rt \<Rightarrow> io_out" where
  "io_setsockopt opt self sockfd level optname optval optlen = io_start opt self ''setsockopt'' [sockfd, level, optname, optval, optlen]"

definition io_pipe :: "options \<Rightarrow> tid \<Rightarrow> int \<Rightarrow> rt \<Rightarrow> io_out" where
  "io_pipe opt self pipefd = io_start opt self ''pipe'' [pipefd]"

definition io_fcntl :: "options \<Rightarrow> tid \<Rightarrow> int \<Rightarrow> int \<Rightarrow> int \<Rightarrow> rt \<Rightarrow> io_out" where
  "io_fcntl opt self fd cmd arg = io_start opt self ''fcntl'' [fd, cmd, arg]"

definition io_close :: "options \<Rightarrow> tid \<Rightarrow> 32 word \<Rightarrow> int \<Rightarrow> rt \<Rightarrow> io_out" where
  "io_close opt self st_mode fd = io_file opt self st_mode ''close'' [fd]"

definition io_gethostbyname :: "options \<Rightarrow> tid \<Rightarrow> int \<Rightarrow> rt \<Rightarrow> io_out" where
  "io_gethostbyname opt self name = io_start opt self ''gethostbyname'' [name]"

definition io_gethostbyname_r :: "options \<Rightarrow> tid \<Rightarrow> int \<Rightarrow> int \<Rightarrow> int \<Rightarrow> int \<Rightarrow> int \<Rightarrow> int \<Rightarrow> rt \<Rightarrow> io_out" where
  "io_gethostbyname_r opt self name hostent buf buflen result h_errnop = io_start opt self ''gethostbyname_r'' [name, hostent, buf, buflen, result, h_errnop]"

definition io_getaddrinfo :: "options \<Rightarrow> tid \<Rightarrow> int \<Rightarrow> int \<Rightarrow> int \<Rightarrow> int \<Rightarrow> rt \<Rightarrow> io_out" where
  "io_getaddrinfo opt self node service hints res = io_start opt self ''getaddrinfo'' [node, service, hints, res]"

definition io_freeaddrinfo :: "options \<Rightarrow> tid \<Rightarrow> int \<Rightarrow> rt \<Rightarrow> io_out" where
  "io_freeaddrinfo opt self res = io_start opt self ''freeaddrinfo'' [res]"

definition io_gethostbyaddr :: "options \<Rightarrow> tid \<Rightarrow> int \<Rightarrow> int \<Rightarrow> int \<Rightarrow> rt \<Rightarrow> io_out" where
  "io_gethostbyaddr opt self address len ty = io_start opt self ''gethostbyaddr'' [address, len, ty]"

definition io_inet_ntoa :: "options \<Rightarrow> tid \<Rightarrow> int \<Rightarrow> rt \<Rightarrow> io_out" where
  "io_inet_ntoa opt self in_addr = io_start opt self ''inet_ntoa'' [in_addr]"

definition io_strtok :: "options \<Rightarrow> tid \<Rightarrow> int \<Rightarrow> int \<Rightarrow> rt \<Rightarrow> io_out" where
  "io_strtok opt self str delimiters = io_start opt self ''strtok'' [str, delimiters]"

section \<open>Calls that never involve the scheduler\<close>

definition io_getpeername :: "int \<Rightarrow> int \<Rightarrow> int \<Rightarrow> rt \<Rightarrow> io_out" where
  "io_getpeername sockfd address addrlen r = Inr (IoNative ''getpeername'' [sockfd, address, addrlen], r)"

definition io_time :: "int \<Rightarrow> rt \<Rightarrow> io_out" where
  "io_time t r = Inr (IoNative ''time'' [t], r)"

definition io_clock_getres :: "int \<Rightarrow> int \<Rightarrow> rt \<Rightarrow> io_out" where
  "io_clock_getres clk_id tp r = Inr (IoNative ''clock_getres'' [clk_id, tp], r)"

definition io_clock_gettime :: "int \<Rightarrow> int \<Rightarrow> rt \<Rightarrow> io_out" where
  "io_clock_gettime clk_id tp r = Inr (IoNative ''clock_gettime'' [clk_id, tp], r)"

definition io_clock_settime :: "int \<Rightarrow> int \<Rightarrow> rt \<Rightarrow> io_out" where
  "io_clock_settime clk_id tp r = Inr (IoNative ''clock_settime'' [clk_id, tp], r)"

definition io_gettimeofday :: "int \<Rightarrow> int \<Rightarrow> rt \<Rightarrow> io_out" where
  "io_gettimeofday tv tz r = Inr (IoNative ''gettimeofday'' [tv, tz], r)"

definition io_settimeofday :: "int \<Rightarrow> int \<Rightarrow> rt \<Rightarrow> io_out" where
  "io_settimeofday tv tz r = Inr (IoNative ''settimeofday'' [tv, tz], r)"

section \<open>Sleeping, yielding, forking\<close>

datatype sleep_pc =
    PSleep syncfunc u32 int "timespec option" int
  | PSleepWoken syncfunc u32 int int
  | PYield u32 int int
  | PFork u32 int int
  | PForkIdle int int thread_pc

type_synonym sleep_out = "(sleep_pc outcome \<times> rt) res"

text \<open>
  The three sleeping calls differ in the interval: \<open>usleep\<close> multiplies its \<open>useconds_t\<close>
  argument by \<open>1000\<close> in 32 bits; \<open>nanosleep\<close> may be given a null pointer. The last argument
  of \<open>PSleep\<close> is what is logged.
\<close>

definition rt_sleep :: "options \<Rightarrow> tid \<Rightarrow> u32 \<Rightarrow> int \<Rightarrow> u32 \<Rightarrow> rt \<Rightarrow> sleep_out" where
  "rt_sleep opt self ins error seconds =
     before_turn opt self (PSleep ''sleep'' ins error (Some \<lparr>tv_sec = uint seconds, tv_nsec = 0\<rparr>) (uint seconds * 1000000000))"

definition rt_usleep :: "options \<Rightarrow> tid \<Rightarrow> u32 \<Rightarrow> int \<Rightarrow> u32 \<Rightarrow> rt \<Rightarrow> sleep_out" where
  "rt_usleep opt self ins error usec =
     before_turn opt self (PSleep ''usleep'' ins error (Some \<lparr>tv_sec = 0, tv_nsec = uint (1000 * usec)\<rparr>) (uint usec * 1000))"

definition rt_nanosleep :: "options \<Rightarrow> tid \<Rightarrow> u32 \<Rightarrow> int \<Rightarrow> timespec option \<Rightarrow> rt \<Rightarrow> sleep_out" where
  "rt_nanosleep opt self ins error req =
     before_turn opt self (PSleep ''nanosleep'' ins error req
       (case req of None \<Rightarrow> 0 | Some t \<Rightarrow> tv_sec t * 1000000000 + tv_nsec t))"

text \<open>With the turn: wait on no channel until the deadline, if turns are enforced.\<close>

definition sleep_turn :: "options \<Rightarrow> tid \<Rightarrow> syncfunc \<Rightarrow> u32 \<Rightarrow> int \<Rightarrow> timespec option \<Rightarrow> int \<Rightarrow> rt \<Rightarrow> sleep_out" where
  "sleep_turn opt self f ins error rel nsec r =
     res_bind (sched_start opt self r) (\<lambda>r.
     if enforce_turn_type opt > 0
     then res_bind (relTimeToTurn opt (nthread (tids (sch r))) rel) (\<lambda>n.
          res_bind (on_sched (wait_begin opt self 0 (getTurnCount (sch r) + word_of_int n)) r) (\<lambda>r.
          Inr (Await (PSleepWoken f ins error nsec), r)))
     else sched_end opt self ins f [nsec] 0 error r)"

definition sleep_woken_turn :: "options \<Rightarrow> tid \<Rightarrow> syncfunc \<Rightarrow> u32 \<Rightarrow> int \<Rightarrow> int \<Rightarrow> rt \<Rightarrow> sleep_out" where
  "sleep_woken_turn opt self f ins error nsec r = sched_end opt self ins f [nsec] 0 error r"

text \<open>\<open>ret\<close> is the result of \<open>sched_yield()\<close>.\<close>

definition schedYield :: "options \<Rightarrow> tid \<Rightarrow> u32 \<Rightarrow> int \<Rightarrow> int \<Rightarrow> rt \<Rightarrow> sleep_out" where
  "schedYield opt self ins error ret r =
     (if in_non_det self r then Inr (Native ''sched_yield'' [], r)
      else before_turn opt self (PYield ins error ret) r)"

definition yield_turn :: "options \<Rightarrow> tid \<Rightarrow> u32 \<Rightarrow> int \<Rightarrow> int \<Rightarrow> rt \<Rightarrow> sleep_out" where
  "yield_turn opt self ins error ret r =
     res_bind (sched_start opt self r) (\<lambda>r.
     sched_end opt self ins ''sched_yield'' [ret] ret error (upd_tls self (\<lambda>t. t\<lparr>yield_this := True\<rparr>) r))"

text \<open>
  \<open>fork\<close>: \<open>ret\<close> is the process identifier, \<open>0\<close> in the child, whose scheduler is set
  up again. The two semaphores are reset inside an \<open>assert\<close>, so only in builds with
  assertions.
\<close>

definition rt_fork :: "options \<Rightarrow> tid \<Rightarrow> u32 \<Rightarrow> int \<Rightarrow> int \<Rightarrow> rt \<Rightarrow> sleep_out" where
  "rt_fork opt self ins error ret = before_turn opt self (PFork ins error ret)"

definition fork_child :: "options \<Rightarrow> tid \<Rightarrow> rt \<Rightarrow> rt res" where
  "fork_child opt self r =
     (let r = (if ndebug opt then r else r\<lparr>thread_begin_sem := 0, thread_begin_done_sem := 0\<rparr>) in
      on_sched (childForkReturn opt (th_handle (tls_of r self))) r)"

definition fork_turn ::
  "options \<Rightarrow> tid \<Rightarrow> u32 \<Rightarrow> int \<Rightarrow> int \<Rightarrow> pthread \<Rightarrow> func \<Rightarrow> vptr \<Rightarrow> rt \<Rightarrow> sleep_out" where
  "fork_turn opt self ins error ret idle idle_func idle_mutex r =
     res_bind (sched_start opt self r) (\<lambda>r.
     res_bind (if ret = 0 then fork_child opt self r else assert_then opt (ret > 0) (Inr r)) (\<lambda>r.
     res_bind (sched_end opt self ins ''fork'' [ret] ret error r :: sleep_out) (\<lambda>(out, r).
     if ret = 0 \<and> launch_idle_thread opt \<noteq> 0
     then res_bind (create_idle opt self idle idle_func idle_mutex None r) (\<lambda>(o', r). case o' of
            Await k \<Rightarrow> Inr (Await (PForkIdle ret error k), r)
          | _ \<Rightarrow> Inr (out, r))
     else Inr (out, r))))"

text \<open>\<open>execv\<close>, once it has the turn: it does not return, and asserts that it does not.\<close>

definition execv_turn :: "options \<Rightarrow> tid \<Rightarrow> int \<Rightarrow> rt \<Rightarrow> (int \<times> rt) res" where
  "execv_turn opt self ret r =
     res_bind (sched_start opt self r) (\<lambda>r. assert_then opt False (Inr (ret, r)))"

end
