(* ===== verification/RtProtocol.thy ===== *)
theory RtProtocol
  imports TurnProtocol RtCond RtBarrier RtThread RtIO
begin

text \<open>
  The runtime on top of the scheduler. \<open>holding opt t s\<close> is the state of the scheduler while
  thread \<open>t\<close> runs a segment of an operation, \<open>released opt s\<close> the state when no thread does.
  The lemmas show that every segment that starts by holding the turn gives it up exactly once,
  and what it does to the object it operates on.
\<close>

section \<open>Holding and releasing the turn\<close>

definition holding :: "options \<Rightarrow> tid \<Rightarrow> sched \<Rightarrow> bool" where
  "holding opt t s \<longleftrightarrow> turn_inv opt (s, {t}) \<and> status_of s t = Some RUNNING_REG"

definition released :: "options \<Rightarrow> sched \<Rightarrow> bool" where
  "released opt s \<longleftrightarrow> turn_inv opt (s, {})"

lemma holdingD:
  assumes "holding opt t s"
  obtains ys where "core opt s t ys" "tm_inv (tids s)" "\<And>u. tokens opt (waits s u) = 0"
    "status_of s t = Some RUNNING_REG" "turn_inv opt (s, {t})"
  using assms turn_inv_holder [of opt s "{t}" t] by (auto simp: holding_def)

lemma holding_tick:
  assumes b: "basic opt" and h: "holding opt t s"
  shows "\<exists>s'. incTurnCount opt s = Inr (turnCount s, s') \<and> holding opt t s' \<and>
     turnCount s' = turnCount s + 1 \<and> tids s' = tids s \<and>
     waitq s' = filter (\<lambda>u. u \<notin> set (expired (s\<lparr>turnCount := turnCount s + 1\<rparr>))) (waitq s)"
proof -
  have p: "plain opt" using b by (simp add: basic_def)
  obtain ys where c: "core opt s t ys" "tm_inv (tids s)" "\<And>u. tokens opt (waits s u) = 0"
    "status_of s t = Some RUNNING_REG" "turn_inv opt (s, {t})" using holdingD [OF h] by metis
  obtain s' zs where s': "incTurnCount opt s = Inr (turnCount s, s')" "core opt s' t zs"
     "turnCount s' = turnCount s + 1" "tids s' = tids s" "status_of s' = status_of s"
     "waitq s' = filter (\<lambda>u. u \<notin> set (expired (s\<lparr>turnCount := turnCount s + 1\<rparr>))) (waitq s)"
    using incTurnCount_core [OF p c(1) refl] by blast
  have "turn_inv opt (s', {t})" using inv_tick [OF b c(5) _ s'(1)] by simp
  then show ?thesis using s' c(4) by (simp add: holding_def)
qed

lemma holding_signal:
  assumes b: "basic opt" and h: "holding opt t s" and ch: "ch \<noteq> 0"
  shows "\<exists>s'. signal opt t ch all s = Inr s' \<and> holding opt t s' \<and> turnCount s' = turnCount s \<and> tids s' = tids s \<and>
     waitq s' = filter (\<lambda>u. u \<notin> set (signalled ch all s)) (waitq s) \<and>
     waits s' = (\<lambda>u. if u \<in> set (signalled ch all s) then (wt_reset 0 (waits s u))\<lparr>wake_reason := SIGNAL\<rparr>
                      else waits s u) \<and>
     (\<forall>xs. rq_tids (heap s) (runq s) = Inr xs \<longrightarrow> rq_tids (heap s') (runq s') = Inr (xs @ signalled ch all s))"
proof -
  have p: "plain opt" using b by (simp add: basic_def)
  obtain ys where c: "core opt s t ys" "tm_inv (tids s)" "\<And>u. tokens opt (waits s u) = 0"
    "status_of s t = Some RUNNING_REG" "turn_inv opt (s, {t})" using holdingD [OF h] by metis
  obtain s' where s': "signal opt t ch all s = Inr s'" "core opt s' t (ys @ signalled ch all s)" "wframe s s'"
     "waitq s' = filter (\<lambda>u. u \<notin> set (signalled ch all s)) (waitq s)"
     "waits s' = (\<lambda>u. if u \<in> set (signalled ch all s) then (wt_reset 0 (waits s u))\<lparr>wake_reason := SIGNAL\<rparr>
                      else waits s u)" "status_of s' = status_of s"
    using signal_core [OF p c(1) ch refl] by blast
  have "rq_tids (heap s) (runq s) = Inr (t # ys)" "rq_tids (heap s') (runq s') = Inr (t # ys @ signalled ch all s)"
    using queues_tids [OF sinvD(1) [OF coreD(1) [OF c(1)]]] queues_tids [OF sinvD(1) [OF coreD(1) [OF s'(2)]]] by simp_all
  moreover have "turn_inv opt (s', {t})" using inv_signal [OF b c(5) _ ch s'(1)] by simp
  ultimately show ?thesis using s' c(4) by (simp add: holding_def wframe_def)
qed

lemma holding_put:
  assumes b: "basic opt" and h: "holding opt t s" and role: "strategy \<noteq> PUTTURN_STRATEGY_CURRENT_ROLE"
  shows "\<exists>s'. putTurn opt t th False strategy s = Inr s' \<and> released opt s' \<and> tids s' = tids s \<and>
     turnCount s' = turnCount s \<and> waitq s' = waitq s"
proof -
  have p: "plain opt" using b by (simp add: basic_def)
  obtain ys where c: "core opt s t ys" "tm_inv (tids s)" "\<And>u. tokens opt (waits s u) = 0"
    "status_of s t = Some RUNNING_REG" "turn_inv opt (s, {t})" using holdingD [OF h] by metis
  obtain s' where s': "putTurn opt t th False strategy s = Inr s'" "nframe s s'" "waitq s' = waitq s"
    using putTurn_ok [OF p c(1,4) role basic_release [OF b]] by blast
  have "turn_inv opt (s', {t} - {t})" using inv_put [OF b c(5) _ c(4) role s'(1)] by simp
  then show ?thesis using s' by (simp add: released_def nframe_def)
qed

text \<open>
  A thread that keeps the turn (strategies \<open>PUTTURN_STRATEGY_CURRENT_THREAD\<close> and
  \<open>PUTTURN_STRATEGY_CREATE\<close>) is the next to get it.
\<close>

lemma holding_put_keeps:
  assumes b: "basic opt" and h: "holding opt t s"
    and st: "strategy = PUTTURN_STRATEGY_CURRENT_THREAD \<or> strategy = PUTTURN_STRATEGY_CREATE"
  shows "\<exists>s'. putTurn opt t th False strategy s = Inr s' \<and> released opt s' \<and> getTurn opt t s' \<noteq> None"
proof -
  have p: "plain opt" using b by (simp add: basic_def)
  obtain ys where c: "core opt s t ys" "tm_inv (tids s)" "\<And>u. tokens opt (waits s u) = 0"
    "status_of s t = Some RUNNING_REG" "turn_inv opt (s, {t})" using holdingD [OF h] by metis
  have role: "strategy \<noteq> PUTTURN_STRATEGY_CURRENT_ROLE" using st by (auto simp: strategy_defs)
  obtain s' k u zs where s': "putTurn opt t th False strategy s = Inr s'"
     "waits s' = (waits s)(u := wt_post opt (waits s u))"
     "u # zs = dropWhile (stopped s) (requeued strategy k t ys @ returning opt s (requeued strategy k t ys))"
    using putTurn_ok [OF p c(1,4) role basic_release [OF b]] by blast
  have "u = t" using s'(3) st core_not_stopped [OF c(1)] by (auto simp: requeued_def)
  then have "tokens opt (waits s' t) = 1" using s'(2) c(3) tokens_simps(1) [OF p] by simp
  then have "getTurn opt t s' \<noteq> None" using tokens_simps(5) [OF p] by (simp add: getTurn_def)
  moreover have "released opt s'" using holding_put [OF b h role, of th] s'(1) by auto
  ultimately show ?thesis using s'(1) by blast
qed

lemma holding_wait:
  assumes b: "basic opt" and h: "holding opt t s" and l: "can_leave opt t s"
  shows "\<exists>s'. wait_begin opt t ch n s = Inr s' \<and> released opt s' \<and> tids s' = tids s \<and>
     turnCount s' = turnCount s + 1 \<and> t \<in> set (waitq s') \<and> chan (waits s' t) = ch \<and> timeout (waits s' t) = n"
proof -
  have p: "plain opt" using b by (simp add: basic_def)
  obtain ys where c: "core opt s t ys" "tm_inv (tids s)" "\<And>u. tokens opt (waits s u) = 0"
    "status_of s t = Some RUNNING_REG" "turn_inv opt (s, {t})" using holdingD [OF h] by metis
  obtain zs where zs: "ticked opt s (t # ys) = t # zs" using ticked_Cons by blast
  obtain v us where v: "(v, us) = successor s zs" by (metis surj_pair)
  let ?W = "expired (s\<lparr>turnCount := turnCount s + 1\<rparr>)"
  note idle = can_leaveD [OF c(1) l zs]
  obtain s' where s': "wait_begin opt t ch n s = Inr s'" "core opt s' v us" "tids s' = tids s"
     "turnCount s' = turnCount s + 1"
     "waitq s' = (let ws = filter (\<lambda>t. t \<notin> set ?W) (waitq s) @ [t]
                 in if \<forall>t \<in> set zs. stopped s t then remove1 IdleThreadTid ws else ws)"
     "waits s' = (let w1 = (\<lambda>u. if u \<in> set ?W
                       then (wt_reset ETIMEDOUT (waits s u))\<lparr>wake_reason := TIMEDOUT\<rparr> else waits s u);
                     w2 = w1(t := (w1 t)\<lparr>chan := ch, timeout := n\<rparr>)
                 in w2(v := wt_post opt (if \<forall>t \<in> set zs. stopped s t then wt_reset 0 (w2 v) else w2 v)))"
    using wait_begin_ok [OF p c(1,4) basic_release [OF b] refl zs idle v] by blast
  have "t \<noteq> IdleThreadTid" if "\<forall>u \<in> set zs. stopped s u" using idle [OF that] by (simp add: idle_ready_def)
  then have wq: "t \<in> set (waitq s')" unfolding s'(5) by (simp add: Let_def in_set_remove1)
  have "t \<noteq> v" using wq coreD(3) [OF s'(2)] by auto
  then have "chan (waits s' t) = ch" "timeout (waits s' t) = n" unfolding s'(6) by (simp_all add: Let_def)
  moreover have "turn_inv opt (s', {t} - {t})" using inv_wait [OF b c(5) _ c(4) l s'(1)] by simp
  ultimately show ?thesis using s' wq by (simp add: released_def)
qed

lemma holding_create:
  assumes b: "basic opt" and h: "holding opt t s" and new: "p_t_map (tids s) th = None" "nthread (tids s) < MAX_THREAD_NUM"
  shows "\<exists>s'. sched_create opt t th f s = Inr (nthread (tids s), s') \<and> holding opt t s' \<and>
     tm_getTid th (tids s') = Some (nthread (tids s)) \<and> nthread (tids s') = Suc (nthread (tids s))"
proof -
  have p: "plain opt" using b by (simp add: basic_def)
  obtain ys where c: "core opt s t ys" "tm_inv (tids s)" "\<And>u. tokens opt (waits s u) = 0"
    "status_of s t = Some RUNNING_REG" "turn_inv opt (s, {t})" using holdingD [OF h] by metis
  obtain s' where s': "sched_create opt t th f s = Inr (nthread (tids s), s')"
     "tm_getTid th (tids s') = Some (nthread (tids s))" "nthread (tids s') = Suc (nthread (tids s))"
     "status_of s' = (status_of s)(nthread (tids s) \<mapsto> RUNNABLE)"
    using sched_create_ok [OF p c(1,2) new] by blast
  have "t \<noteq> nthread (tids s)" using coreD(7) [OF c(1)] by simp
  moreover have "turn_inv opt (s', {t})" using inv_create [OF b c(5) _ new s'(1)] by simp
  ultimately show ?thesis using s' c(4) by (simp add: holding_def)
qed

text \<open>A thread that ends gives the turn up for good and wakes the first thread that joins it.\<close>

lemma holding_finish:
  assumes b: "basic opt" and h: "holding opt t s" and f: "can_finish opt t th s"
  shows "\<exists>s'. finish_turn opt t th s = Inr s' \<and> released opt s' \<and> tm_zombie th (tids s') \<and>
     getTurn opt t s' = None \<and> gone t (s', {}) \<and> (\<forall>xs. rq_tids (heap s') (runq s') = Inr xs \<longrightarrow> t \<notin> set xs) \<and>
     (\<forall>j js. filter (\<lambda>u. chan (waits s u) = th) (waitq s) = j # js \<longrightarrow> j \<notin> set (waitq s'))"
proof -
  have p: "plain opt" using b by (simp add: basic_def)
  obtain ys where c: "core opt s t ys" "tm_inv (tids s)" "\<And>u. tokens opt (waits s u) = 0"
    "status_of s t = Some RUNNING_REG" "turn_inv opt (s, {t})" using holdingD [OF h] by metis
  obtain s' v us where s': "finish_turn opt t th s = Inr s'" "core opt s' v us" "tm_zombie th (tids s')" "t \<noteq> v"
     "t \<notin> set us" "t \<notin> set (waitq s')" "inter_pro_wakeup_tids s' = []" "nthread (tids s') = nthread (tids s)"
     "\<forall>u. tokens opt (waits s' u) = (if u = v then 1 else 0)"
     "\<forall>j js. filter (\<lambda>u. chan (waits s u) = th) (waitq s) = j # js \<longrightarrow> j \<notin> set (waitq s')"
    using finish_turn_ok [OF b c(1-4) f] by blast
  have "turn_inv opt (s', {t} - {t})" using inv_finish [OF b c(5) _ c(4) f s'(1)] by simp
  moreover have "gone t (s', {})"
    using live_core [OF s'(2)] s'(4-8) coreD(7) [OF c(1)] by (simp add: gone_def)
  moreover have "getTurn opt t s' = None" using s'(4,9) tokens_simps(5) [OF p] by (simp add: getTurn_def)
  moreover have "rq_tids (heap s') (runq s') = Inr (v # us)"
    using queues_tids [OF sinvD(1) [OF coreD(1) [OF s'(2)]]] .
  ultimately show ?thesis using s' by (simp add: released_def)
qed

section \<open>Whether a thread may leave the run queue\<close>

lemma expired_not_stopped:
  assumes "core opt s t ys" and "u \<in> set (expired (s\<lparr>turnCount := n\<rparr>))"
  shows "\<not> stopped s u"
  using coreD(5) [OF assms(1), of u] assms(2) by (auto simp: expired_def stopped_def)

lemma ticked_set:
  assumes "ticked opt s (t # ys) = t # zs"
  shows "set (expired (s\<lparr>turnCount := turnCount s + 1\<rparr>)) \<subseteq> set zs" and "set ys \<subseteq> set zs"
  using assms by (auto simp: ticked_def Let_def)

lemma can_leave_iff:
  assumes c: "core opt s t ys" and zs: "ticked opt s (t # ys) = t # zs"
  shows "can_leave opt t s \<longleftrightarrow> ((\<forall>u \<in> set zs. stopped s u) \<longrightarrow> idle_ready opt t s)"
proof -
  have "IdleThreadTid \<notin> set (expired (s\<lparr>turnCount := turnCount s + 1\<rparr>))" if "\<forall>u \<in> set zs. stopped s u"
    using that ticked_set(1) [OF zs] expired_not_stopped [OF c] by blast
  then show ?thesis
    using queues_tids [OF sinvD(1) [OF coreD(1) [OF c]]] zs by (auto simp: can_leave_def list_all_iff)
qed

lemma can_leave_tick:
  assumes b: "basic opt" and h: "holding opt t s" and l: "can_leave opt t s"
    and i: "incTurnCount opt s = Inr (n, s')"
  shows "can_leave opt t s'"
proof -
  have p: "plain opt" using b by (simp add: basic_def)
  obtain ys where c: "core opt s t ys" using holdingD [OF h] by metis
  let ?W = "expired (s\<lparr>turnCount := turnCount s + 1\<rparr>)"
  obtain zs where s': "core opt s' t zs" "ticked opt s (t # ys) = t # zs" "idle_done s' = idle_done s"
     "waitq s' = filter (\<lambda>u. u \<notin> set ?W) (waitq s)" "status_of s' = status_of s"
    using incTurnCount_core [OF p c refl] i by auto
  obtain us where us: "ticked opt s' (t # zs) = t # us" using ticked_Cons by blast
  have "idle_ready opt t s'" if a: "\<forall>u \<in> set us. stopped s' u"
  proof -
    have st: "\<forall>u \<in> set zs. stopped s u" using a ticked_set(2) [OF us] s'(5) by (auto simp: stopped_def)
    then have "idle_ready opt t s" using can_leave_iff [OF c s'(2)] l by simp
    moreover have "IdleThreadTid \<notin> set ?W" using st ticked_set(1) [OF s'(2)] expired_not_stopped [OF c] by blast
    ultimately show ?thesis using s'(3,4) by (simp add: idle_ready_def)
  qed
  then show ?thesis using can_leave_iff [OF s'(1) us] by blast
qed

lemma can_leave_signal:
  assumes b: "basic opt" and h: "holding opt t s" and l: "can_leave opt t s" and ch: "ch \<noteq> 0"
    and i: "signal opt t ch all s = Inr s'"
  shows "can_leave opt t s'"
proof -
  have p: "plain opt" using b by (simp add: basic_def)
  obtain ys where c: "core opt s t ys" using holdingD [OF h] by metis
  let ?W = "signalled ch all s"
  have s': "core opt s' t (ys @ ?W)" "wframe s s'" "waitq s' = filter (\<lambda>u. u \<notin> set ?W) (waitq s)"
     "waits s' = (\<lambda>u. if u \<in> set ?W then (wt_reset 0 (waits s u))\<lparr>wake_reason := SIGNAL\<rparr> else waits s u)"
     "status_of s' = status_of s"
    using signal_core [where all = all, OF p c ch refl] i by auto
  obtain zs where zs: "ticked opt s (t # ys) = t # zs" using ticked_Cons by blast
  obtain us where us: "ticked opt s' (t # ys @ ?W) = t # us" using ticked_Cons by blast
  show ?thesis
  proof (cases "?W")
    case Nil
    have eq: "waitq s' = waitq s" "waits s' = waits s" using s'(3,4) Nil by simp_all
    have "expired (s'\<lparr>turnCount := turnCount s' + 1\<rparr>) = expired (s\<lparr>turnCount := turnCount s + 1\<rparr>)"
      using eq s'(2) by (simp add: expired_def wframe_def)
    moreover have "returning opt s' xs = returning opt s xs" for xs using s'(2) by (simp add: returning_def wframe_def)
    ultimately have "us = zs" using us zs Nil by (simp add: ticked_def Let_def)
    then show ?thesis
      using can_leave_iff [OF s'(1) us] can_leave_iff [OF c zs] l eq s'(2,5)
      by (simp add: idle_ready_def stopped_def wframe_def)
  next
    case (Cons u W)
    have "u \<in> set (waitq s)" using woken_subset [of "\<lambda>w. chan w = ch" all "waitq s" s] Cons by (simp add: signalled_def)
    then have "\<not> stopped s' u" using coreD(5) [OF c] s'(5) by (simp add: stopped_def)
    moreover have "u \<in> set us" using ticked_set(2) [OF us] Cons by simp
    ultimately show ?thesis using can_leave_iff [OF s'(1) us] by blast
  qed
qed

section \<open>Opening and closing an operation\<close>

text \<open>The synchronization objects, which opening and closing an operation leave alone.\<close>

definition objects where
  "objects r = (mutexes r, rwlocks r, sems r, cond_map r, sem_map r, barriers r, refcnt_bars r,
     thread_begin_sem r, thread_begin_done_sem r)"

definition settled :: "tid \<Rightarrow> rt \<Rightarrow> bool" where
  "settled t r \<longleftrightarrow> \<not> (process_proposed_role (tls_of r t) \<and> proposed_role r \<noteq> [])"

lemma objects_simps [simp]:
  "objects (r\<lparr>sch := s\<rparr>) = objects r" "objects (upd_tls t f r) = objects r" "objects (r\<lparr>stat := x\<rparr>) = objects r"
  "objects (set_errno t e r) = objects r"
  "objects (logSync opt t ins op n b args r) = objects r" "objects (recordSync t op r) = objects r"
  by (simp_all add: objects_def upd_tls_def set_errno_def logSync_def recordSync_def)

lemma sch_simps [simp]:
  "sch (upd_tls t f r) = sch r" "sch (set_errno t e r) = sch r"
  "sch (logSync opt t ins op n b args r) = sch r" "sch (recordSync t op r) = sch r"
  by (simp_all add: upd_tls_def set_errno_def logSync_def recordSync_def)

lemma tls_simps [simp]:
  "tls_of (upd_tls t f r) t = f (tls_of r t)" "errno (tls_of (set_errno t e r) t) = e"
  "tls_of (logSync opt t' ins op n b args r) = tls_of r" "tls_of (recordSync t' op r) = tls_of r"
  by (simp_all add: upd_tls_def set_errno_def logSync_def recordSync_def)

lemma upd_stat_eq: "upd_stat opt f r = r\<lparr>stat := (if record_runtime_stat opt then f (stat r) else stat r)\<rparr>"
  by (simp add: upd_stat_def)

lemma sched_start_ok:
  assumes "settled t r"
  shows "\<exists>x. sched_start opt t r = Inr (r\<lparr>stat := x\<rparr>)"
proof -
  have c: "check_and_change_role opt t (r\<lparr>stat := x\<rparr>) = Inr (r\<lparr>stat := x\<rparr>)" for x
    unfolding check_and_change_role_def by (rule if_not_P) (use assms in \<open>simp add: settled_def\<close>)
  define r1 where "r1 = (if th_handle (tls_of r t) \<noteq> idle_th r
     then upd_stat opt (\<lambda>x. x\<lparr>nDetPthreadSyncOp := nDetPthreadSyncOp x + 1\<rparr>) r else r)"
  have "r1 = r\<lparr>stat := stat r1\<rparr>" by (simp add: r1_def upd_stat_eq)
  then have "sched_start opt t r = Inr (r\<lparr>stat := stat r1\<rparr>)" unfolding sched_start_def r1_def [symmetric] using c by metis
  then show ?thesis by blast
qed

lemma strategy_ok:
  assumes "\<not> wakeamap_plus opt"
  shows "fst (getPutTurnStrategy opt t op r) \<noteq> PUTTURN_STRATEGY_CURRENT_ROLE"
    and "objects (snd (getPutTurnStrategy opt t op r)) = objects r"
    and "sch (snd (getPutTurnStrategy opt t op r)) = sch r"
  using assms by (auto simp: getPutTurnStrategy_def Let_def strategy_defs)

lemma check_cv_ok:
  "\<not> wakeamap_plus opt \<Longrightarrow> \<exists>r'. check_cv_wait_cnt opt t r = Inr r' \<and> objects r' = objects r \<and> sch r' = sch r"
  by (simp add: check_cv_wait_cnt_def)

lemma sched_end_ok:
  assumes b: "basic opt" and w: "\<not> wakeamap_plus opt" and h: "holding opt t (sch r)"
  shows "\<exists>r'. sched_end opt t ins op args ret error r = Inr (Done ret error, r') \<and> released opt (sch r') \<and>
     objects r' = objects r \<and> tids (sch r') = tids (sch r) \<and> turnCount (sch r') = turnCount (sch r) + 1 \<and>
     waitq (sch r') = filter (\<lambda>u. u \<notin> set (expired ((sch r)\<lparr>turnCount := turnCount (sch r) + 1\<rparr>))) (waitq (sch r))"
proof -
  obtain s1 where s1: "incTurnCount opt (sch r) = Inr (turnCount (sch r), s1)" "holding opt t s1"
     "turnCount s1 = turnCount (sch r) + 1" "tids s1 = tids (sch r)"
     "waitq s1 = filter (\<lambda>u. u \<notin> set (expired ((sch r)\<lparr>turnCount := turnCount (sch r) + 1\<rparr>))) (waitq (sch r))"
    using holding_tick [OF b h] by blast
  define r1 where "r1 = logSync opt t ins op (getTurnCount s1) True args
     (if generate_per_sync_stats opt then recordSync t op (r\<lparr>sch := s1\<rparr>) else r\<lparr>sch := s1\<rparr>)"
  have r1: "end_common opt t ins op args r = Inr r1" "sch r1 = s1" "objects r1 = objects r"
    using s1(1) by (auto simp: end_common_def r1_def Let_def)
  obtain st r2 where r2: "getPutTurnStrategy opt t op r1 = (st, r2)" by (metis surj_pair)
  then have st: "st \<noteq> PUTTURN_STRATEGY_CURRENT_ROLE" "objects r2 = objects r1" "sch r2 = s1"
    using strategy_ok [OF w, of t op r1] r1(2) by simp_all
  obtain s3 where s3: "putTurn opt t (th_handle (tls_of r2 t)) False st s1 = Inr s3" "released opt s3"
     "tids s3 = tids s1" "turnCount s3 = turnCount s1" "waitq s3 = waitq s1"
    using holding_put [OF b s1(2) st(1)] by blast
  define r3 where "r3 = (if slock_n_turns (tls_of (r2\<lparr>sch := s3\<rparr>) t) > 0
     then upd_tls t (\<lambda>t. t\<lparr>slock_n_turns := slock_n_turns t - 1\<rparr>) (r2\<lparr>sch := s3\<rparr>) else r2\<lparr>sch := s3\<rparr>)"
  obtain r4 where r4: "check_cv_wait_cnt opt t r3 = Inr r4" "objects r4 = objects r3" "sch r4 = sch r3"
    using check_cv_ok [OF w] by blast
  have "sched_end opt t ins op args ret error r = Inr (Done ret error, r4)"
    using r1(1) r2 st(3) s3(1) r4(1) by (simp add: sched_end_def on_sched_def r3_def Let_def)
  then show ?thesis using r4(2,3) s3 s1 st(2) r1(3) by (auto simp: r3_def)
qed

end
