(* ===== verification/LockProofs.thy ===== *)
theory LockProofs
  imports RtProtocol
begin

text \<open>
  Mutexes and read-write locks: a lock operation takes a free lock and returns, or waits for it
  without giving up its place to a timeout; unlocking frees the lock and wakes the thread that
  has waited longest.
\<close>

section \<open>Locks\<close>

text \<open>A lock helper that is woken either takes the lock or waits again: it never reports a timeout.\<close>

lemma wake_code_not_ETIMEDOUT: "syncWait_result t r \<noteq> int ETIMEDOUT"
  by (simp add: syncWait_result_def wake_code_def ETIMEDOUT_def split: Wake_Reasons.splits)

lemma lock_woken_eq: "lock_woken opt t l n r = lock_try opt t l n r"
  by (simp add: lock_woken_def wake_code_not_ETIMEDOUT)

lemma lock_try_result: "lock_try opt t l n r = Inr (ret, r') \<Longrightarrow> ret = None \<or> ret = Some 0"
  by (auto simp: lock_try_def assert_then_def res_simps split: prod.splits if_splits)

lemma sched_end_result: "sched_end opt t ins op args ret error r = Inr (out, r') \<Longrightarrow> out = Done ret error"
  by (auto simp: sched_end_def res_simps Let_def case_prod_beta)

lemma try_acquire_sch [simp]: "sch (snd (try_acquire t l r)) = sch r"
  by (simp add: try_acquire_def posix_mutex_trylock_def posix_rwlock_tryrdlock_def posix_rwlock_trywrlock_def
      Let_def split: lockobj.splits)

lemma try_acquire_tls [simp]: "tls_of (snd (try_acquire t l r)) = tls_of r"
  by (simp add: try_acquire_def posix_mutex_trylock_def posix_rwlock_tryrdlock_def posix_rwlock_trywrlock_def
      Let_def split: lockobj.splits)

lemma try_acquire_ret: "fst (try_acquire t l r) = 0 \<or> fst (try_acquire t l r) = EBUSY"
  by (simp add: try_acquire_def posix_mutex_trylock_def posix_rwlock_tryrdlock_def posix_rwlock_trywrlock_def
      Let_def split: lockobj.splits)

lemma try_acquire_busy: "fst (try_acquire t l r) \<noteq> 0 \<Longrightarrow> snd (try_acquire t l r) = r"
  by (auto simp: try_acquire_def posix_mutex_trylock_def posix_rwlock_tryrdlock_def posix_rwlock_trywrlock_def
      Let_def split: lockobj.splits)

lemma lock_try_got:
  "fst (try_acquire t l r) = 0 \<Longrightarrow> lock_try opt t l n r = Inr (Some 0, snd (try_acquire t l r))"
  by (cases "try_acquire t l r") (simp add: lock_try_def)

lemma try_acquire_cong:
  assumes "objects r' = objects r"
  shows "fst (try_acquire t l r') = fst (try_acquire t l r)"
    and "objects (snd (try_acquire t l r')) = objects (snd (try_acquire t l r))"
  using assms by (cases l; simp add: objects_def try_acquire_def posix_mutex_trylock_def
      posix_rwlock_tryrdlock_def posix_rwlock_trywrlock_def Let_def)+

lemma lock_try_busy:
  assumes b: "basic opt" and h: "holding opt t (sch r)" and l: "can_leave opt t (sch r)"
    and f: "fst (try_acquire t l r) \<noteq> 0"
  shows "\<exists>s'. lock_try opt t l n r = Inr (None, r\<lparr>sch := s'\<rparr>) \<and> released opt s' \<and>
     t \<in> set (waitq s') \<and> chan (waits s' t) = lock_addr l \<and> timeout (waits s' t) = n"
proof -
  obtain s' where s': "wait_begin opt t (lock_addr l) n (sch r) = Inr s'" "released opt s'"
     "t \<in> set (waitq s')" "chan (waits s' t) = lock_addr l" "timeout (waits s' t) = n"
    using holding_wait [OF b h l] by blast
  obtain ret r1 where e: "try_acquire t l r = (ret, r1)" by (metis surj_pair)
  then have "ret = EBUSY" "ret \<noteq> 0" "r1 = r" using try_acquire_ret [of t l r] try_acquire_busy [OF f] f by auto
  then have "lock_try opt t l n r = Inr (None, r\<lparr>sch := s'\<rparr>)"
    using e s'(1) by (simp add: lock_try_def syncWait_def on_sched_def)
  then show ?thesis using s' by blast
qed

lemma lock_finish_ok:
  assumes b: "basic opt" and w: "\<not> wakeamap_plus opt" and h: "holding opt t (sch r)"
  shows "\<exists>r'. lock_finish opt t lop ins l 0 r = Inr (Done 0 (errno (tls_of r t)), r') \<and> released opt (sch r') \<and>
     objects r' = objects r \<and> tids (sch r') = tids (sch r)"
proof (cases lop)
  case OpMutexLock
  define r1 where "r1 = (if policy opt 1 \<and> \<not> noCSWholeLocal (tls_of r t)
     then upd_tls t (\<lambda>t. t\<lparr>inCSLevel := inCSLevel t + 1\<rparr>) r else r)"
  have r1: "holding opt t (sch r1)" "objects r1 = objects r" "sch r1 = sch r" using h by (simp_all add: r1_def)
  have "lock_finish opt t lop ins l 0 r =
     sched_end opt t ins ''pthread_mutex_lock'' [int (lock_addr l)] 0 (errno (tls_of r t)) r1"
    by (simp add: lock_finish_def OpMutexLock r1_def Let_def)
  then show ?thesis using sched_end_ok [OF b w r1(1)] r1(2,3) by metis
qed (use sched_end_ok [OF b w h] in \<open>simp_all add: lock_finish_def Let_def, blast+\<close>)

lemma lock_turn_got:
  assumes b: "basic opt" and w: "\<not> wakeamap_plus opt" and h: "holding opt t (sch r)" and s: "settled t r"
    and f: "fst (try_acquire t l r) = 0"
  shows "\<exists>r'. lock_turn opt t lop ins error l r = Inr (Done 0 error, r') \<and> released opt (sch r') \<and>
     objects r' = objects (snd (try_acquire t l r))"
proof -
  obtain x where x: "sched_start opt t r = Inr (r\<lparr>stat := x\<rparr>)" using sched_start_ok [OF s] by blast
  let ?r = "set_errno t error (r\<lparr>stat := x\<rparr>)"
  have ob: "objects ?r = objects r" by simp
  have f': "fst (try_acquire t l ?r) = 0" using f try_acquire_cong(1) [OF ob] by simp
  have o': "objects (snd (try_acquire t l ?r)) = objects (snd (try_acquire t l r))" by (rule try_acquire_cong(2) [OF ob])
  have h': "holding opt t (sch (snd (try_acquire t l ?r)))" using h by simp
  show ?thesis
    using lock_finish_ok [OF b w h', of lop ins l] lock_try_got [OF f', of opt FOREVER] x o'
    by (auto simp: lock_turn_def lock_round_def)
qed

lemma lock_turn_busy:
  assumes b: "basic opt" and h: "holding opt t (sch r)" and s: "settled t r" and l: "can_leave opt t (sch r)"
    and f: "fst (try_acquire t l r) \<noteq> 0"
  shows "\<exists>r'. lock_turn opt t lop ins error l r = Inr (Await (PRetry lop ins error l FOREVER), r') \<and>
     released opt (sch r') \<and> objects r' = objects r \<and> t \<in> set (waitq (sch r')) \<and>
     chan (waits (sch r') t) = lock_addr l \<and> timeout (waits (sch r') t) = FOREVER"
proof -
  obtain x where x: "sched_start opt t r = Inr (r\<lparr>stat := x\<rparr>)" using sched_start_ok [OF s] by blast
  let ?r = "set_errno t error (r\<lparr>stat := x\<rparr>)"
  have f': "fst (try_acquire t l ?r) \<noteq> 0" using f try_acquire_cong(1) [of ?r r t l] by simp
  have "holding opt t (sch ?r)" "can_leave opt t (sch ?r)" using h l by simp_all
  from lock_try_busy [OF b this f', of FOREVER] show ?thesis
    using x by (auto simp: lock_turn_def lock_round_def)
qed

text \<open>A thread that is woken, for whatever reason and however late, tries again.\<close>

lemma lock_retry_got:
  assumes b: "basic opt" and w: "\<not> wakeamap_plus opt" and h: "holding opt t (sch r)" and f: "fst (try_acquire t l r) = 0"
  shows "\<exists>r'. lock_retry_turn opt t lop ins error l limit r = Inr (Done 0 (errno (tls_of r t)), r') \<and>
     released opt (sch r') \<and> objects r' = objects (snd (try_acquire t l r))"
proof -
  have h': "holding opt t (sch (snd (try_acquire t l r)))" using h by simp
  then show ?thesis using lock_finish_ok [OF b w h', of lop ins l] lock_try_got [OF f, of opt limit]
    by (auto simp: lock_retry_turn_def lock_round_def lock_woken_eq)
qed

lemma lock_retry_busy:
  assumes b: "basic opt" and h: "holding opt t (sch r)" and l: "can_leave opt t (sch r)"
    and f: "fst (try_acquire t l r) \<noteq> 0"
  shows "\<exists>r'. lock_retry_turn opt t lop ins error l limit r = Inr (Await (PRetry lop ins error l limit), r') \<and>
     released opt (sch r') \<and> objects r' = objects r \<and> t \<in> set (waitq (sch r')) \<and>
     chan (waits (sch r') t) = lock_addr l \<and> timeout (waits (sch r') t) = limit"
  using lock_try_busy [OF b h l f, of limit] by (auto simp: lock_retry_turn_def lock_round_def lock_woken_eq)

lemma lock_retry_result:
  assumes "lock_retry_turn opt t lop ins error l limit r = Inr (Done ret e, r')"
  shows "ret = 0"
proof -
  obtain v r1 where r1: "lock_try opt t l limit r = Inr (v, r1)"
     "(case v of None \<Rightarrow> Inr (Await (PRetry lop ins error l limit), r1)
       | Some v \<Rightarrow> lock_finish opt t lop ins l v r1) = Inr (Done ret e, r')"
    using assms by (auto simp: lock_retry_turn_def lock_round_def lock_woken_eq res_simps)
  then have "lock_finish opt t lop ins l 0 r1 = Inr (Done ret e, r')"
    using lock_try_result [OF r1(1)] by (auto split: option.splits)
  then show ?thesis by (auto simp: lock_finish_def Let_def split: lock_op.splits if_splits dest: sched_end_result)
qed

section \<open>Unlocking\<close>

lemma signalled_first:
  "signalled ch False s = take 1 (filter (\<lambda>u. chan (waits s u) = ch) (waitq s))"
  by (simp add: signalled_def woken_def)

lemma syncSignal_ok:
  assumes b: "basic opt" and h: "holding opt t (sch r)" and ch: "ch \<noteq> 0"
  shows "\<exists>s'. syncSignal opt t ch all r = Inr (r\<lparr>sch := s'\<rparr>) \<and> holding opt t s' \<and>
     waitq s' = filter (\<lambda>u. u \<notin> set (signalled ch all (sch r))) (waitq (sch r)) \<and>
     turnCount s' = turnCount (sch r) \<and> tids s' = tids (sch r)"
proof -
  obtain s' where "signal opt t ch all (sch r) = Inr s'" "holding opt t s'"
     "waitq s' = filter (\<lambda>u. u \<notin> set (signalled ch all (sch r))) (waitq (sch r))"
     "turnCount s' = turnCount (sch r)" "tids s' = tids (sch r)"
    using holding_signal [OF b h ch, of all] by blast
  then show ?thesis by (auto simp: syncSignal_def on_sched_def)
qed

text \<open>Signalling a channel and then closing the operation: the woken threads have left the wait queue.\<close>

lemma signal_end_ok:
  assumes b: "basic opt" and w: "\<not> wakeamap_plus opt" and h: "holding opt t (sch r)" and ch: "ch \<noteq> 0"
    and g: "\<And>r1. sch (g r1) = sch r1"
  shows "\<exists>s1 r'. syncSignal opt t ch all r = Inr (r\<lparr>sch := s1\<rparr>) \<and>
     sched_end opt t ins op args ret error (g (r\<lparr>sch := s1\<rparr>)) = (Inr (Done ret error, r') :: ('k outcome \<times> rt) res) \<and>
     released opt (sch r') \<and> objects r' = objects (g (r\<lparr>sch := s1\<rparr>)) \<and> tids (sch r') = tids (sch r) \<and>
     set (waitq (sch r')) \<inter> set (signalled ch all (sch r)) = {}"
proof -
  obtain s1 where s1: "syncSignal opt t ch all r = Inr (r\<lparr>sch := s1\<rparr>)" "holding opt t s1"
     "waitq s1 = filter (\<lambda>u. u \<notin> set (signalled ch all (sch r))) (waitq (sch r))" "tids s1 = tids (sch r)"
    using syncSignal_ok [OF b h ch] by blast
  let ?g = "g (r\<lparr>sch := s1\<rparr>)"
  have gs: "sch ?g = s1" using g [of "r\<lparr>sch := s1\<rparr>"] by simp
  then have "holding opt t (sch ?g)" using s1(2) by simp
  from sched_end_ok [OF b w this, of ins op args ret error]
  obtain r' where r': "sched_end opt t ins op args ret error ?g = (Inr (Done ret error, r') :: ('k outcome \<times> rt) res)" "released opt (sch r')"
     "objects r' = objects ?g" "tids (sch r') = tids s1"
     "waitq (sch r') = filter (\<lambda>u. u \<notin> set (expired (s1\<lparr>turnCount := turnCount s1 + 1\<rparr>))) (waitq s1)"
    using gs by auto
  moreover have "set (waitq (sch r')) \<inter> set (signalled ch all (sch r)) = {}" using r'(5) s1(3) by auto
  ultimately show ?thesis using s1(1,4) by (intro exI [of _ s1] exI [of _ r']) simp
qed

lemma posix_mutex_unlock_owner:
  assumes "m_owner (mutexes r mu) = Some t" and "m_count (mutexes r mu) \<le> 1"
  shows "posix_mutex_unlock t mu r =
     (0, r\<lparr>mutexes := (mutexes r)(mu := (mutexes r mu)\<lparr>m_owner := None, m_count := 0\<rparr>)\<rparr>)"
  using assms by (auto simp: posix_mutex_unlock_def Let_def)

lemma mutex_unlock_turn_ok:
  assumes b: "basic opt" and w: "\<not> wakeamap_plus opt" and h: "holding opt t (sch r)" and s: "settled t r"
    and o: "m_owner (mutexes r mu) = Some t" "m_count (mutexes r mu) \<le> 1" and mu: "mu \<noteq> 0"
  shows "\<exists>r'. mutex_unlock_turn opt t ins error mu r = Inr (Done 0 error, r') \<and> released opt (sch r') \<and>
     mutexes r' = (mutexes r)(mu := (mutexes r mu)\<lparr>m_owner := None, m_count := 0\<rparr>) \<and>
     set (waitq (sch r')) \<inter> set (signalled mu False (sch r)) = {}"
proof -
  obtain x where x: "sched_start opt t r = Inr (r\<lparr>stat := x\<rparr>)" using sched_start_ok [OF s] by blast
  let ?r = "set_errno t error (r\<lparr>stat := x\<rparr>)"
  have "mutexes ?r = mutexes r" by (simp add: set_errno_def upd_tls_def)
  then have u: "posix_mutex_unlock t mu ?r =
     (0, ?r\<lparr>mutexes := (mutexes r)(mu := (mutexes r mu)\<lparr>m_owner := None, m_count := 0\<rparr>)\<rparr>)"
    using posix_mutex_unlock_owner [of ?r mu t] o by simp
  define r1 where "r1 = ?r\<lparr>mutexes := (mutexes r)(mu := (mutexes r mu)\<lparr>m_owner := None, m_count := 0\<rparr>)\<rparr>"
  define r2 where "r2 = (if policy opt 1 \<and> inCSLevel (tls_of r1 t) > 0 \<and> \<not> noCSWholeLocal (tls_of r1 t)
     then upd_tls t (\<lambda>t. t\<lparr>inCSLevel := inCSLevel t - 1\<rparr>) r1 else r1)"
  have r2: "sch r2 = sch r" "errno (tls_of r2 t) = error" "objects r2 = objects r1"
    by (simp_all add: r2_def r1_def set_errno_def upd_tls_def objects_def)
  have "holding opt t (sch r2)" using h r2(1) by simp
  from signal_end_ok [OF b w this mu, of "\<lambda>r. r" False ins "''pthread_mutex_unlock''" "[int mu, 0]" 0 error]
  obtain s1 r' where r': "syncSignal opt t mu False r2 = Inr (r2\<lparr>sch := s1\<rparr>)"
     "sched_end opt t ins ''pthread_mutex_unlock'' [int mu, 0] 0 error (r2\<lparr>sch := s1\<rparr>) = (Inr (Done 0 error, r') :: lock_out)"
     "released opt (sch r')" "objects r' = objects r1" "set (waitq (sch r')) \<inter> set (signalled mu False (sch r)) = {}"
    using r2 by auto
  have "mutex_unlock_turn opt t ins error mu r = Inr (Done 0 error, r')"
    using x u r'(1,2) r2(2) by (simp add: mutex_unlock_turn_def r1_def [symmetric] r2_def [symmetric] Let_def)
  moreover have "mutexes r' = mutexes r1" using r'(4) by (simp add: objects_def)
  ultimately show ?thesis using r' by (simp add: r1_def)
qed

end
