(* ===== verification/CondProofs.thy ===== *)
theory CondProofs
  imports LockProofs
begin

text \<open>
  Condition variables and semaphores. Waiting on a condition variable releases the mutex and
  joins the waiters in one segment, so no signal can fall in between; a signal wakes the thread
  that has waited longest; a semaphore never goes below zero and is taken only when positive.
\<close>

section \<open>Waiting on a condition variable\<close>

lemma syncWait_ok:
  assumes b: "basic opt" and h: "holding opt t (sch r)" and l: "can_leave opt t (sch r)"
  shows "\<exists>s'. syncWait opt t ch n r = Inr (r\<lparr>sch := s'\<rparr>) \<and> released opt s' \<and>
     t \<in> set (waitq s') \<and> chan (waits s' t) = ch \<and> timeout (waits s' t) = n \<and> tids s' = tids (sch r)"
proof -
  obtain s' where "wait_begin opt t ch n (sch r) = Inr s'" "released opt s'"
     "t \<in> set (waitq s')" "chan (waits s' t) = ch" "timeout (waits s' t) = n" "tids s' = tids (sch r)"
    using holding_wait [OF b h l] by blast
  then show ?thesis by (auto simp: syncWait_def on_sched_def)
qed

lemma fake_end_ok:
  assumes b: "basic opt" and h: "holding opt t (sch r)" and l: "can_leave opt t (sch r)"
  shows "\<exists>r'. sched_fake_end opt t ins op args r = Inr r' \<and> holding opt t (sch r') \<and> can_leave opt t (sch r') \<and>
     objects r' = objects r \<and> tids (sch r') = tids (sch r) \<and> tls_of r' = tls_of r \<and>
     turnCount (sch r') = turnCount (sch r) + 1"
proof -
  obtain s' where s': "incTurnCount opt (sch r) = Inr (turnCount (sch r), s')" "holding opt t s'"
     "tids s' = tids (sch r)" "turnCount s' = turnCount (sch r) + 1" using holding_tick [OF b h] by blast
  then show ?thesis using can_leave_tick [OF b h l s'(1)] by (simp add: sched_fake_end_def)
qed

lemma cond_wait_turn_ok:
  assumes b: "basic opt" and w: "\<not> wakeamap_plus opt" and h: "holding opt t (sch r)" and s: "settled t r"
    and l: "can_leave opt t (sch r)" and mu: "mu \<noteq> 0"
    and own: "m_owner (mutexes r mu) = Some t" "m_count (mutexes r mu) \<le> 1"
  shows "\<exists>r'. cond_wait_turn opt t ins error cv mu caller r = Inr (Await (PCondWoken ins error cv mu), r') \<and>
     released opt (sch r') \<and> t \<in> set (waitq (sch r')) \<and> chan (waits (sch r') t) = cv \<and>
     timeout (waits (sch r') t) = FOREVER \<and> cond_map r' cv = cond_map r cv + 1 \<and>
     m_owner (mutexes r' mu) = None"
proof -
  obtain x where x: "sched_start opt t r = Inr (r\<lparr>stat := x\<rparr>)" using sched_start_ok [OF s] by blast
  define r1 where "r1 = cond_incr cv 1 (r\<lparr>stat := x\<rparr>)"
  have r1: "sch r1 = sch r" "mutexes r1 = mutexes r" "cond_map r1 cv = cond_map r cv + 1"
    by (simp_all add: r1_def cond_incr_def)
  define r2 where "r2 = r1\<lparr>mutexes := (mutexes r)(mu := (mutexes r mu)\<lparr>m_owner := None, m_count := 0\<rparr>)\<rparr>"
  have u: "posix_mutex_unlock t mu r1 = (0, r2)"
    using posix_mutex_unlock_owner [of r1 mu t] own r1(2) by (simp add: r2_def)
  have r2: "sch r2 = sch r" "m_owner (mutexes r2 mu) = None" "cond_map r2 cv = cond_map r cv + 1"
    using r1 by (simp_all add: r2_def)
  have h2: "holding opt t (sch r2)" "can_leave opt t (sch r2)" using h l r2(1) by simp_all
  obtain s3 where s3: "signal opt t mu False (sch r2) = Inr s3" "holding opt t s3"
    using holding_signal [OF b h2(1) mu, of False] by blast
  let ?r3 = "r2\<lparr>sch := s3\<rparr>"
  have h3: "holding opt t (sch ?r3)" "can_leave opt t (sch ?r3)"
    using s3(2) can_leave_signal [OF b h2 mu s3(1)] by simp_all
  obtain r4 where r4: "sched_fake_end opt t ins ''pthread_cond_wait'' [int cv, int mu] ?r3 = Inr r4"
     "holding opt t (sch r4)" "can_leave opt t (sch r4)" "objects r4 = objects ?r3"
    using fake_end_ok [OF b h3] by blast
  obtain s5 where s5: "syncWait opt t cv FOREVER r4 = Inr (r4\<lparr>sch := s5\<rparr>)" "released opt s5"
     "t \<in> set (waitq s5)" "chan (waits s5 t) = cv" "timeout (waits s5 t) = FOREVER"
    using syncWait_ok [OF b r4(2,3)] by blast
  have "cond_wait_turn opt t ins error cv mu caller r = Inr (Await (PCondWoken ins error cv mu), r4\<lparr>sch := s5\<rparr>)"
    using x w u s3(1) r4(1) s5(1)
    by (simp add: cond_wait_turn_def r1_def [symmetric] syncSignal_def on_sched_def Let_def)
  moreover have "cond_map r4 = cond_map r2" "mutexes r4 = mutexes r2" using r4(4) by (simp_all add: objects_def)
  ultimately show ?thesis using s5 r2 by simp
qed

text \<open>After the wake-up the thread returns only once it owns the mutex again.\<close>

lemma cond_woken_got:
  assumes b: "basic opt" and w: "\<not> wakeamap_plus opt" and h: "holding opt t (sch r)"
    and free: "m_owner (mutexes r mu) = None"
  shows "\<exists>r'. cond_woken_turn opt t ins error cv mu r = Inr (Done 0 error, r') \<and> released opt (sch r') \<and>
     m_owner (mutexes r' mu) = Some t"
proof -
  let ?r = "set_errno t error r"
  define r1 where "r1 = snd (try_acquire t (LMutex mu) ?r)"
  have mx: "mutexes ?r = mutexes r" by (simp add: set_errno_def upd_tls_def)
  then have got: "fst (try_acquire t (LMutex mu) ?r) = 0" "m_owner (mutexes r1 mu) = Some t"
    using free by (simp_all add: r1_def try_acquire_def posix_mutex_trylock_def Let_def)
  have "holding opt t (sch r1)" using h by (simp add: r1_def)
  from sched_end_ok [OF b w this, of ins "''pthread_cond_wait''" "[int cv, int mu]" 0 error]
  obtain r' where r': "sched_end opt t ins ''pthread_cond_wait'' [int cv, int mu] 0 error r1 =
      (Inr (Done 0 error, r') :: cond_out)" "released opt (sch r')" "objects r' = objects r1" by blast
  have "errno (tls_of r1 t) = error" by (simp add: r1_def)
  then have "cond_woken_turn opt t ins error cv mu r = Inr (Done 0 error, r')"
    using lock_try_got [OF got(1), of opt FOREVER] r'(1) by (simp add: cond_woken_turn_def cond_relock_def r1_def)
  moreover have "mutexes r' = mutexes r1" using r'(3) by (simp add: objects_def)
  ultimately show ?thesis using r'(2) got(2) by auto
qed

section \<open>Signalling\<close>

lemma cond_signal_turn_ok:
  assumes b: "basic opt" and w: "\<not> wakeamap_plus opt" and h: "holding opt t (sch r)" and s: "settled t r"
    and cv: "cv \<noteq> 0"
  shows "\<exists>r'. cond_signal_turn opt t ins error cv r = Inr (Done 0 error, r') \<and> released opt (sch r') \<and>
     set (waitq (sch r')) \<inter> set (signalled cv False (sch r)) = {} \<and>
     cond_map r' cv = (if cond_map r cv > 0 then cond_map r cv - 1 else cond_map r cv)"
proof -
  obtain x where x: "sched_start opt t r = Inr (r\<lparr>stat := x\<rparr>)" using sched_start_ok [OF s] by blast
  define g where "g = (\<lambda>r1. let r2 = (if cond_map r1 cv > 0 then cond_incr cv (- 1) r1 else r1) in
     if policy opt 2 \<and> cond_map r2 cv > 0 then upd_tls t (\<lambda>t. t\<lparr>satisfyingCV := cv\<rparr>) r2 else r2)"
  have g: "sch (g r1) = sch r1" "cond_map (g r1) cv = (if cond_map r1 cv > 0 then cond_map r1 cv - 1 else cond_map r1 cv)" for r1
    by (simp_all add: g_def cond_incr_def Let_def upd_tls_def)
  have h': "holding opt t (sch (r\<lparr>stat := x\<rparr>))" using h by simp
  from signal_end_ok [where g = g, OF b w h' cv g(1), of False ins "''pthread_cond_signal''" "[int cv]" 0 error]
  obtain s1 r' where r': "syncSignal opt t cv False (r\<lparr>stat := x\<rparr>) = Inr (r\<lparr>stat := x, sch := s1\<rparr>)"
     "sched_end opt t ins ''pthread_cond_signal'' [int cv] 0 error (g (r\<lparr>stat := x, sch := s1\<rparr>)) =
        (Inr (Done 0 error, r') :: cond_out)"
     "released opt (sch r')" "objects r' = objects (g (r\<lparr>stat := x, sch := s1\<rparr>))"
     "set (waitq (sch r')) \<inter> set (signalled cv False (sch r)) = {}" by auto
  have "cond_signal_turn opt t ins error cv r =
     sched_end opt t ins ''pthread_cond_signal'' [int cv] 0 error (g (r\<lparr>stat := x, sch := s1\<rparr>))"
    using x r'(1) w by (simp add: cond_signal_turn_def g_def Let_def)
  moreover have "cond_map r' = cond_map (g (r\<lparr>stat := x, sch := s1\<rparr>))" using r'(4) by (simp add: objects_def)
  ultimately show ?thesis using r' g(2) by simp
qed

text \<open>
  A thread whose timed wait expired is no longer among the waiters but still counted until it
  runs. A signal in between finds no waiter and takes it off the count, and so does the thread
  itself: the count becomes negative.
\<close>

lemma cond_timed_woken_count:
  assumes "\<not> wakeamap_plus opt" and "wake_reason (waits (sch r) t) = TIMEDOUT"
    and "lock_try opt t (LMutex mu) FOREVER (set_errno t error (cond_incr cv (- 1) r)) = Inr (None, r')"
  shows "cond_timed_woken_turn opt t ins error cv mu a r = Inr (Await (PCondTimedRelock ins cv mu 1), r')"
  using assms by (simp add: cond_timed_woken_turn_def syncWait_result_def wait_end_def wake_code_def
      cond_timed_relock_def Let_def)

section \<open>Semaphores\<close>

lemma sem_wait_got:
  assumes b: "basic opt" and w: "\<not> wakeamap_plus opt" and h: "holding opt t (sch r)" and v: "sems r sp > 0"
  shows "\<exists>r'. sem_wait_loop opt t ins error sp r = Inr (Done 0 error, r') \<and> released opt (sch r') \<and>
     sems r' = (sems r)(sp := sems r sp - 1) \<and> sem_map r' = sem_map r"
proof -
  define r1 where "r1 = r\<lparr>sems := (sems r)(sp := sems r sp - 1)\<rparr>"
  have rd: "sem_round opt t sp FOREVER r = Inr (True, r1)"
    using v by (simp add: sem_round_def posix_sem_trywait_def r1_def)
  have "holding opt t (sch r1)" using h by (simp add: r1_def)
  from sched_end_ok [OF b w this, of ins "''sem_wait''" "[int sp]" 0 error]
  obtain r' where r': "sched_end opt t ins ''sem_wait'' [int sp] 0 error r1 = (Inr (Done 0 error, r') :: cond_out)"
     "released opt (sch r')" "objects r' = objects r1" by blast
  then show ?thesis using rd by (simp add: sem_wait_loop_def objects_def r1_def)
qed

lemma sem_wait_blocked:
  assumes b: "basic opt" and h: "holding opt t (sch r)" and l: "can_leave opt t (sch r)" and v: "sems r sp = 0"
  shows "\<exists>r'. sem_wait_loop opt t ins error sp r = Inr (Await (PSemRetry ins error sp), r') \<and> released opt (sch r') \<and>
     sems r' = sems r \<and> sem_map r' = (sem_map r)(sp := sem_map r sp + 1) \<and>
     t \<in> set (waitq (sch r')) \<and> chan (waits (sch r') t) = sp"
proof -
  define r1 where "r1 = sem_incr sp 1 (upd_tls t (\<lambda>t. t\<lparr>errno := EAGAIN\<rparr>) r)"
  have r1: "sch r1 = sch r" "sems r1 = sems r" "sem_map r1 = (sem_map r)(sp := sem_map r sp + 1)"
    by (simp_all add: r1_def sem_incr_def upd_tls_def)
  have h1: "holding opt t (sch r1)" "can_leave opt t (sch r1)" using h l r1(1) by simp_all
  obtain s2 where s2: "syncWait opt t sp FOREVER r1 = Inr (r1\<lparr>sch := s2\<rparr>)" "released opt s2"
     "t \<in> set (waitq s2)" "chan (waits s2 t) = sp" using syncWait_ok [OF b h1] by blast
  have "sem_round opt t sp FOREVER r = Inr (False, r1\<lparr>sch := s2\<rparr>)"
    using v s2(1) by (simp add: sem_round_def posix_sem_trywait_def r1_def)
  then show ?thesis using s2 r1 by (simp add: sem_wait_loop_def)
qed

lemma sem_post_turn_ok:
  assumes b: "basic opt" and w: "\<not> wakeamap_plus opt" and h: "holding opt t (sch r)" and s: "settled t r"
    and sp: "sp \<noteq> 0" and v: "sems r sp < SEM_VALUE_MAX"
  shows "\<exists>r'. sem_post_turn opt t ins error sp r = Inr (Done 0 error, r') \<and> released opt (sch r') \<and>
     sems r' = (sems r)(sp := sems r sp + 1) \<and> set (waitq (sch r')) \<inter> set (signalled sp False (sch r)) = {} \<and>
     sem_map r' sp = (if sem_map r sp > 0 then sem_map r sp - 1 else sem_map r sp)"
proof -
  obtain x where x: "sched_start opt t r = Inr (r\<lparr>stat := x\<rparr>)" using sched_start_ok [OF s] by blast
  define r1 where "r1 = r\<lparr>stat := x, sems := (sems r)(sp := sems r sp + 1)\<rparr>"
  have p: "posix_sem_post t sp (r\<lparr>stat := x\<rparr>) = (0, r1)" using v by (simp add: posix_sem_post_def r1_def)
  define g where "g = (\<lambda>r1. let r2 = (if sem_map r1 sp > 0 then sem_incr sp (- 1) r1 else r1) in
     if policy opt 2 \<and> sem_map r2 sp > 0 then upd_tls t (\<lambda>t. t\<lparr>satisfyingSem := sp\<rparr>) r2 else r2)"
  have g: "sch (g r1) = sch r1" "sems (g r1) = sems r1"
      "sem_map (g r1) sp = (if sem_map r1 sp > 0 then sem_map r1 sp - 1 else sem_map r1 sp)" for r1
    by (simp_all add: g_def sem_incr_def Let_def upd_tls_def)
  have h1: "holding opt t (sch r1)" "sch r1 = sch r" using h by (simp_all add: r1_def)
  from signal_end_ok [where g = g, OF b w h1(1) sp g(1), of False ins "''sem_post''" "[int sp, 0]" 0 error]
  obtain s1 r' where r': "syncSignal opt t sp False r1 = Inr (r1\<lparr>sch := s1\<rparr>)"
     "sched_end opt t ins ''sem_post'' [int sp, 0] 0 error (g (r1\<lparr>sch := s1\<rparr>)) = (Inr (Done 0 error, r') :: cond_out)"
     "released opt (sch r')" "objects r' = objects (g (r1\<lparr>sch := s1\<rparr>))"
     "set (waitq (sch r')) \<inter> set (signalled sp False (sch r)) = {}" using h1(2) by auto
  have "sem_post_turn opt t ins error sp r = Inr (Done 0 error, r')"
    using x p r'(1,2) by (simp add: sem_post_turn_def g_def Let_def)
  moreover have "sems r' = sems (g (r1\<lparr>sch := s1\<rparr>))" "sem_map r' = sem_map (g (r1\<lparr>sch := s1\<rparr>))"
    using r'(4) by (simp_all add: objects_def)
  ultimately show ?thesis using r'(3,5) g(2,3) by (simp add: r1_def)
qed

end
