(* ===== verification/BarProofs.thy ===== *)
theory BarProofs
  imports CondProofs
begin

text \<open>
  Barriers and line-ups: threads before the last wait and return \<open>0\<close>; the last one wakes them
  all, resets the count for the next round and returns \<open>PTHREAD_BARRIER_SERIAL_THREAD\<close>.
\<close>

section \<open>Barriers\<close>

definition barrier_ok :: "barrier_t \<Rightarrow> bool" where
  "barrier_ok b \<longleftrightarrow> 0 \<le> b_narrived b \<and> b_narrived b < b_count b"

lemma add_barrier_ok:
  assumes "add_barrier opt ba n ret r = Inr r'" and "0 < sint n"
  shows "\<exists>b. barriers r' ba = Some b \<and> barrier_ok b"
  using assms by (auto simp: add_barrier_def assert_then_def res_simps barrier_ok_def)

lemma barrier_wait_early:
  assumes b: "basic opt" and h: "holding opt t (sch r)" and s: "settled t r" and l: "can_leave opt t (sch r)"
    and ba: "barriers r ba = Some x" "barrier_ok x" and early: "b_narrived x + 1 < b_count x"
  shows "\<exists>r' x'. barrier_wait_turn opt t ins error ba r = Inr (Await (PBarLeave ins error ba 0), r') \<and>
     released opt (sch r') \<and> t \<in> set (waitq (sch r')) \<and> chan (waits (sch r') t) = ba \<and>
     barriers r' ba = Some x' \<and> barrier_ok x' \<and> b_narrived x' = b_narrived x + 1 \<and> b_count x' = b_count x"
proof -
  obtain y where y: "sched_start opt t r = Inr (r\<lparr>stat := y\<rparr>)" using sched_start_ok [OF s] by blast
  have h0: "holding opt t (sch (r\<lparr>stat := y\<rparr>))" "can_leave opt t (sch (r\<lparr>stat := y\<rparr>))" using h l by simp_all
  obtain r1 where r1: "sched_fake_end opt t ins ''pthread_barrier_wait'' [int ba] (r\<lparr>stat := y\<rparr>) = Inr r1"
     "holding opt t (sch r1)" "can_leave opt t (sch r1)" "objects r1 = objects r"
    using fake_end_ok [OF b h0, of ins "''pthread_barrier_wait''" "[int ba]"] by auto
  let ?x = "x\<lparr>b_narrived := b_narrived x + 1\<rparr>"
  define r2 where "r2 = set_barrier ba ?x r1"
  have b1: "barriers r1 ba = Some x" using r1(4) ba(1) by (simp add: objects_def)
  have h2: "holding opt t (sch r2)" "can_leave opt t (sch r2)" using r1(2,3) by (simp_all add: r2_def set_barrier_def)
  obtain s3 where s3: "syncWait opt t ba FOREVER r2 = Inr (r2\<lparr>sch := s3\<rparr>)" "released opt s3"
     "t \<in> set (waitq s3)" "chan (waits s3 t) = ba" using syncWait_ok [OF b h2] by blast
  have "barrier_wait_turn opt t ins error ba r = Inr (Await (PBarLeave ins error ba 0), r2\<lparr>sch := s3\<rparr>)"
    using y r1(1) b1 early s3(1) by (simp add: barrier_wait_turn_def r2_def Let_def)
  then show ?thesis using s3 ba(2) early by (simp add: r2_def set_barrier_def barrier_ok_def)
qed

lemma barrier_wait_last:
  assumes b: "basic opt" and h: "holding opt t (sch r)" and s: "settled t r" and l: "can_leave opt t (sch r)"
    and ba: "barriers r ba = Some x" "barrier_ok x" and last: "b_narrived x + 1 = b_count x" and nz: "ba \<noteq> 0"
  shows "\<exists>r' x'. barrier_wait_turn opt t ins error ba r =
       Inr (Await (PBarLeave ins error ba PTHREAD_BARRIER_SERIAL_THREAD), r') \<and>
     released opt (sch r') \<and> (\<forall>u \<in> set (waitq (sch r')). chan (waits (sch r') u) \<noteq> ba) \<and>
     barriers r' ba = Some x' \<and> barrier_ok x' \<and> b_narrived x' = 0 \<and> b_count x' = b_count x"
proof -
  obtain y where y: "sched_start opt t r = Inr (r\<lparr>stat := y\<rparr>)" using sched_start_ok [OF s] by blast
  have h0: "holding opt t (sch (r\<lparr>stat := y\<rparr>))" "can_leave opt t (sch (r\<lparr>stat := y\<rparr>))" using h l by simp_all
  obtain r1 where r1: "sched_fake_end opt t ins ''pthread_barrier_wait'' [int ba] (r\<lparr>stat := y\<rparr>) = Inr r1"
     "holding opt t (sch r1)" "objects r1 = objects r"
    using fake_end_ok [OF b h0, of ins "''pthread_barrier_wait''" "[int ba]"] by auto
  define r2 where "r2 = set_barrier ba (x\<lparr>b_narrived := 0\<rparr>) r1"
  have b1: "barriers r1 ba = Some x" using r1(3) ba(1) by (simp add: objects_def)
  have h2: "holding opt t (sch r2)" using r1(2) by (simp add: r2_def set_barrier_def)
  obtain s3 where s3: "signal opt t ba True (sch r2) = Inr s3" "holding opt t s3"
     "waitq s3 = filter (\<lambda>u. u \<notin> set (signalled ba True (sch r2))) (waitq (sch r2))"
     "waits s3 = (\<lambda>u. if u \<in> set (signalled ba True (sch r2)) then (wt_reset 0 (waits (sch r2) u))\<lparr>wake_reason := SIGNAL\<rparr>
                      else waits (sch r2) u)"
    using holding_signal [OF b h2 nz, of True] by blast
  have none: "\<forall>u \<in> set (waitq s3). chan (waits s3 u) \<noteq> ba"
    using s3(3,4) by (auto simp: signalled_def woken_def)
  have p: "plain opt" using b by (simp add: basic_def)
  obtain ys where c: "core opt s3 t ys" "status_of s3 t = Some RUNNING_REG" using holdingD [OF s3(2)] by metis
  have nr: "(0 :: nat) \<noteq> PUTTURN_STRATEGY_CURRENT_ROLE" by (simp add: strategy_defs)
  obtain s4 v where s4: "putTurn opt t (th_handle (tls_of r2 t)) False 0 s3 = Inr s4" "waitq s4 = waitq s3"
     "waits s4 = (waits s3)(v := wt_post opt (waits s3 v))"
    using putTurn_ok [OF p c nr basic_release [OF b], of "th_handle (tls_of r2 t)"] by blast
  have rel: "released opt s4" using holding_put [OF b s3(2), of 0 "th_handle (tls_of r2 t)"] s4(1) by (auto simp: strategy_defs)
  have "chan (wt_post opt w) = chan w" for w by (simp add: wt_post_def)
  then have none4: "\<forall>u \<in> set (waitq s4). chan (waits s4 u) \<noteq> ba" using none s4(2,3) by simp
  have "barrier_wait_turn opt t ins error ba r =
     Inr (Await (PBarLeave ins error ba PTHREAD_BARRIER_SERIAL_THREAD), r2\<lparr>sch := s4\<rparr>)"
    using y r1(1) b1 last s3(1) s4(1)
    by (simp add: barrier_wait_turn_def r2_def Let_def syncSignal_def on_sched_def)
  then show ?thesis using rel none4 ba(2) by (simp add: r2_def set_barrier_def barrier_ok_def)
qed

section \<open>Line-ups\<close>

text \<open>The last of the awaited threads opens the line-up and wakes all the others.\<close>

lemma lineup_start_opens:
  assumes b: "basic opt" and w: "\<not> wakeamap_plus opt" and h: "holding opt t (sch r)" and s: "settled t r"
    and ba: "refcnt_bars r (bar_key ot) = Some x" "rb_phase x = ARRIVING" "rb_nactive x + 1 = rb_count x"
    and nz: "rb_addr x \<noteq> 0"
  shows "\<exists>r' x'. lineup_start_turn opt t ot r = Inr (Done 0 0, r') \<and> released opt (sch r') \<and>
     refcnt_bars r' (bar_key ot) = Some x' \<and> rb_phase x' = LEAVING \<and> rb_nactive x' = rb_count x \<and>
     set (waitq (sch r')) \<inter> set (signalled (rb_addr x) True (sch r)) = {}"
proof -
  obtain y where y: "sched_start opt t r = Inr (r\<lparr>stat := y\<rparr>)" using sched_start_ok [OF s] by blast
  define x1 where "x1 = x\<lparr>rb_nactive := rb_nactive x + 1\<rparr>"
  define r1 where "r1 = upd_stat opt (\<lambda>x. x\<lparr>nLineupSucc := nLineupSucc x + 1\<rparr>) (set_bar ot x1 (r\<lparr>stat := y\<rparr>))"
  define r2 where "r2 = set_bar ot (x1\<lparr>rb_phase := LEAVING\<rparr>) r1"
  have r2: "sch r2 = sch r" "refcnt_bars r2 (bar_key ot) = Some (x1\<lparr>rb_phase := LEAVING\<rparr>)"
    by (simp_all add: r2_def r1_def upd_stat_eq set_bar_def)
  have h2: "holding opt t (sch r2)" using h r2(1) by simp
  have nz1: "rb_addr x1 \<noteq> 0" using nz by (simp add: x1_def)
  from signal_end_ok [where g = "\<lambda>r. r", OF b w h2 nz1 refl, of True "bar_key ot" "''tern_lineup_start''" "[ot]" 0 0]
  obtain s3 r' where r': "syncSignal opt t (rb_addr x1) True r2 = Inr (r2\<lparr>sch := s3\<rparr>)"
     "sched_end opt t (bar_key ot) ''tern_lineup_start'' [ot] 0 0 (r2\<lparr>sch := s3\<rparr>) = (Inr (Done 0 0, r') :: bar_out)"
     "released opt (sch r')" "objects r' = objects r2"
     "set (waitq (sch r')) \<inter> set (signalled (rb_addr x) True (sch r)) = {}"
    using r2(1) by (auto simp: x1_def)
  have "lineup_start_turn opt t ot r = Inr (Done 0 0, r')"
    using y ba r'(1,2)
    by (simp add: lineup_start_turn_def lineup_open_def lineup_finish_def Let_def x1_def r1_def r2_def)
  moreover have "refcnt_bars r' = refcnt_bars r2" using r'(4) by (simp add: objects_def)
  ultimately show ?thesis using r' r2(2) ba(3) by (simp add: x1_def)
qed

text \<open>An earlier thread waits, at most for the number of turns the line-up was given.\<close>

lemma lineup_start_waits:
  assumes b: "basic opt" and h: "holding opt t (sch r)" and s: "settled t r" and l: "can_leave opt t (sch r)"
    and ba: "refcnt_bars r (bar_key ot) = Some x" "rb_phase x = ARRIVING" "rb_nactive x + 1 \<noteq> rb_count x"
  shows "\<exists>r'. lineup_start_turn opt t ot r = Inr (Await (PLineupWoken ot (rb_addr x)), r') \<and> released opt (sch r') \<and>
     t \<in> set (waitq (sch r')) \<and> chan (waits (sch r') t) = rb_addr x \<and>
     timeout (waits (sch r') t) = getTurnCount (sch r) + rb_timeout x"
proof -
  obtain y where y: "sched_start opt t r = Inr (r\<lparr>stat := y\<rparr>)" using sched_start_ok [OF s] by blast
  define r1 where "r1 = set_bar ot (x\<lparr>rb_nactive := rb_nactive x + 1\<rparr>) (r\<lparr>stat := y\<rparr>)"
  have r1: "sch r1 = sch r" by (simp add: r1_def set_bar_def)
  have h1: "holding opt t (sch r1)" "can_leave opt t (sch r1)" using h l r1 by simp_all
  obtain s2 where s2: "syncWait opt t (rb_addr x) (getTurnCount (sch r) + rb_timeout x) r1 = Inr (r1\<lparr>sch := s2\<rparr>)"
     "released opt s2" "t \<in> set (waitq s2)" "chan (waits s2 t) = rb_addr x"
     "timeout (waits s2 t) = getTurnCount (sch r) + rb_timeout x" using syncWait_ok [OF b h1] by blast
  have "lineup_start_turn opt t ot r = Inr (Await (PLineupWoken ot (rb_addr x)), r1\<lparr>sch := s2\<rparr>)"
    using y ba s2(1) r1 by (simp add: lineup_start_turn_def Let_def r1_def)
  then show ?thesis using s2 by simp
qed

text \<open>A line-up whose wait timed out with threads missing opens for the threads that came.\<close>

lemma lineup_woken_opens:
  assumes b: "basic opt" and w: "\<not> wakeamap_plus opt" and h: "holding opt t (sch r)"
    and ba: "refcnt_bars r (bar_key ot) = Some x" "rb_phase x = ARRIVING" "rb_nactive x < rb_count x"
    and nz: "rb_addr x \<noteq> 0"
  shows "\<exists>r' x'. lineup_woken_turn opt t ot (rb_addr x) r = Inr (Done 0 0, r') \<and> released opt (sch r') \<and>
     refcnt_bars r' (bar_key ot) = Some x' \<and> rb_phase x' = LEAVING \<and> rb_nactive x' = rb_nactive x \<and>
     set (waitq (sch r')) \<inter> set (signalled (rb_addr x) True (sch r)) = {}"
proof -
  define r1 where "r1 = upd_stat opt (\<lambda>x. x\<lparr>nLineupTimeout := nLineupTimeout x + 1\<rparr>) r"
  define r2 where "r2 = set_bar ot (x\<lparr>rb_phase := LEAVING\<rparr>) r1"
  have r2: "sch r2 = sch r" "refcnt_bars r2 (bar_key ot) = Some (x\<lparr>rb_phase := LEAVING\<rparr>)"
    by (simp_all add: r2_def r1_def upd_stat_eq set_bar_def)
  have h2: "holding opt t (sch r2)" using h r2(1) by simp
  from signal_end_ok [where g = "\<lambda>r. r", OF b w h2 nz refl, of True "bar_key ot" "''tern_lineup_start''" "[ot]" 0 0]
  obtain s3 r' where r': "syncSignal opt t (rb_addr x) True r2 = Inr (r2\<lparr>sch := s3\<rparr>)"
     "sched_end opt t (bar_key ot) ''tern_lineup_start'' [ot] 0 0 (r2\<lparr>sch := s3\<rparr>) = (Inr (Done 0 0, r') :: bar_out)"
     "released opt (sch r')" "objects r' = objects r2"
     "set (waitq (sch r')) \<inter> set (signalled (rb_addr x) True (sch r)) = {}"
    using r2(1) by auto
  have "lineup_woken_turn opt t ot (rb_addr x) r = Inr (Done 0 0, r')"
    using ba r'(1,2) by (simp add: lineup_woken_turn_def lineup_open_def lineup_finish_def r1_def r2_def)
  moreover have "refcnt_bars r' = refcnt_bars r2" using r'(4) by (simp add: objects_def)
  ultimately show ?thesis using r' r2(2) by simp
qed

text \<open>
  Identifiers that agree in their low 32 bits name the same line-up: initializing the second
  takes over the barrier of the first.
\<close>

lemma lineup_key_collision: "bar_key ot = bar_key (ot + 2 ^ 32)"
  by (simp add: bar_key_def)

end
