(* ===== verification/ThreadProofs.thy ===== *)
theory ThreadProofs
  imports CondProofs
begin

text \<open>
  Threads: the handshake by which a new thread learns the identifier its creator registered,
  joining and ending, and the operations after which the thread keeps the turn.
\<close>

section \<open>Creation\<close>

text \<open>
  The creator registers the thread under the next identifier and gives up the turn. The new
  thread then finds exactly that identifier, and the creator returns once it has: while nothing
  has been posted to \<open>thread_begin_done_sem\<close> it stays blocked.
\<close>

lemma create_handshake:
  assumes b: "basic opt" and w: "\<not> wakeamap_plus opt" and h: "holding opt t (sch r)" and s: "settled t r"
    and new: "p_t_map (tids (sch r)) th = None" "nthread (tids (sch r)) < MAX_THREAD_NUM"
  shows "\<exists>r1 r2 r3. create_turn opt t 0 ins error th f None r = Inr (Await (PCreated 0 error None), r1) \<and>
     released opt (sch r1) \<and>
     (thread_begin_done_sem r = 0 \<longrightarrow> create_done opt t 0 error None r1 = None) \<and>
     thread_begin_wait opt th r1 = Some (Inr (nthread (tids (sch r)), r2)) \<and>
     create_done opt t 0 error None r2 = Some (Inr (Done 0 error, r3)) \<and>
     thread_begin_sem r3 = thread_begin_sem r \<and> thread_begin_done_sem r3 = thread_begin_done_sem r"
proof -
  obtain x where x: "sched_start opt t r = Inr (r\<lparr>stat := x\<rparr>)" using sched_start_ok [OF s] by blast
  obtain s1 where s1: "sched_create opt t th f (sch r) = Inr (nthread (tids (sch r)), s1)" "holding opt t s1"
     "tm_getTid th (tids s1) = Some (nthread (tids (sch r)))" using holding_create [OF b h new] by blast
  define q where "q = r\<lparr>stat := x, sch := s1\<rparr>"
  have q: "holding opt t (sch q)" "thread_begin_sem q = thread_begin_sem r"
     "thread_begin_done_sem q = thread_begin_done_sem r" using s1(2) by (simp_all add: q_def)
  from sched_end_ok [OF b w q(1), of ins "''pthread_create''" "[int th, 0]" 0 error]
  obtain r0 where r0: "sched_end opt t ins ''pthread_create'' [int th, 0] 0 error q = (Inr (Done 0 error, r0) :: thread_out)"
     "released opt (sch r0)" "objects r0 = objects q" "tids (sch r0) = tids (sch q)" by blast
  let ?r1 = "r0\<lparr>thread_begin_sem := thread_begin_sem r0 + 1\<rparr>"
  have "create_turn opt t 0 ins error th f None r = Inr (Await (PCreated 0 error None), ?r1)"
    using x s1(1) r0(1) by (simp add: create_turn_def q_def)
  moreover have "p_t_map (tids (sch ?r1)) th = Some (nthread (tids (sch r)))"
    using r0(4) s1(3) by (simp add: q_def tm_getTid_def)
  then have "thread_begin_wait opt th ?r1 = Some (Inr (nthread (tids (sch r)),
      ?r1\<lparr>thread_begin_sem := thread_begin_sem r0, thread_begin_done_sem := thread_begin_done_sem r0 + 1\<rparr>))"
    using w by (simp add: thread_begin_wait_def tm_self_def)
  moreover have "thread_begin_sem r0 = thread_begin_sem r" "thread_begin_done_sem r0 = thread_begin_done_sem r"
    using r0(3) q(2,3) by (simp_all add: objects_def)
  ultimately show ?thesis using r0(2) by (simp add: create_done_def Let_def)
qed

section \<open>Joining and ending\<close>

lemma join_round_waits:
  assumes b: "basic opt" and h: "holding opt t (sch r)" and l: "can_leave opt t (sch r)"
    and z: "\<not> tm_zombie th (tids (sch r))"
  shows "\<exists>s'. join_round opt t lib ins error th r = Inr (Await (PJoinWoken ins error th), r\<lparr>sch := s'\<rparr>) \<and>
     released opt s' \<and> t \<in> set (waitq s') \<and> chan (waits s' t) = th \<and> timeout (waits s' t) = FOREVER"
proof -
  obtain s' where "wait_begin opt t th FOREVER (sch r) = Inr s'" "released opt s'" "t \<in> set (waitq s')"
     "chan (waits s' t) = th" "timeout (waits s' t) = FOREVER" using holding_wait [OF b h l] by blast
  then show ?thesis using z by (auto simp: join_round_def on_sched_def)
qed

lemma holding_tids:
  assumes "holding opt t s" and "tm_inv m" and "nthread m = nthread (tids s)"
  shows "holding opt t (s\<lparr>tids := m\<rparr>)"
proof -
  have st: "status_of (s\<lparr>tids := m\<rparr>) = status_of s" by (simp add: status_of_def fun_eq_iff)
  have "core opt (s\<lparr>tids := m\<rparr>) v us" if "core opt s v us" for v us
    using that assms(3) st by (simp add: core_def sinv_def wset_ok_def)
  then show ?thesis using assms st unfolding holding_def turn_inv_def by fastforce
qed

lemma join_round_reaps:
  assumes b: "basic opt" and w: "\<not> wakeamap_plus opt" and h: "holding opt t (sch r)"
    and z: "tm_zombie th (tids (sch r))" and ret: "ret = 0 \<or> ndebug opt"
  shows "\<exists>r'. join_round opt t (ret, e) ins error th r = Inr (Done ret e, r') \<and> released opt (sch r') \<and>
     \<not> tm_zombie th (tids (sch r'))"
proof -
  let ?r = "(set_errno t e (set_errno t error r))\<lparr>sch := sched_join th (sch r)\<rparr>"
  have tm: "tm_inv (tids (sch r))" using h by (auto simp: holding_def turn_inv_def)
  then have "tm_inv (tm_reap th (tids (sch r)))" by (simp add: tm_inv_def ids_ok_def roles_ok_def tm_reap_def)
  then have h': "holding opt t (sch ?r)"
    using holding_tids [OF h] by (simp add: sched_join_def tm_reap_def)
  from sched_end_ok [OF b w h', of ins "''pthread_join''" "[int th]" ret e]
  obtain r' where r': "sched_end opt t ins ''pthread_join'' [int th] ret e ?r = (Inr (Done ret e, r') :: thread_out)"
     "released opt (sch r')" "tids (sch r') = tids (sch ?r)" by blast
  have e: "errno (tls_of (set_errno t e (set_errno t error r)) t) = e"
     "sch (set_errno t e (set_errno t error r)) = sch r" by simp_all
  have "join_round opt t (ret, e) ins error th r = Inr (Done ret e, r')"
    using z ret r'(1) e by (auto simp: join_round_def assert_then_def Let_def)
  then show ?thesis using r' by (simp add: sched_join_def tm_reap_def tm_zombie_def)
qed

lemma join_round_fails:
  assumes "tm_zombie th (tids (sch r))" and "ret \<noteq> 0" and "\<not> ndebug opt"
  shows "join_round opt t (ret, e) ins error th r = Inl AssertFailed"
  using assms by (simp add: join_round_def assert_then_def Let_def)

text \<open>The end of a thread is the scheduler's \<open>finish_turn\<close>, plus bookkeeping.\<close>

lemma thread_end_turn_ok:
  assumes b: "basic opt" and h: "holding opt t (sch r)" and s: "settled t r"
    and f: "can_finish opt t (th_handle (tls_of r t)) (sch r)"
  shows "\<exists>r'. thread_end_turn opt t ins r = Inr (Done 0 0, r') \<and> released opt (sch r') \<and>
     finish_turn opt t (th_handle (tls_of r t)) (sch r) = Inr (sch r') \<and>
     tm_zombie (th_handle (tls_of r t)) (tids (sch r')) \<and> gone t (sch r', {}) \<and>
     (\<forall>j js. filter (\<lambda>u. chan (waits (sch r) u) = th_handle (tls_of r t)) (waitq (sch r)) = j # js \<longrightarrow>
        j \<notin> set (waitq (sch r')))"
proof -
  obtain x where x: "sched_start opt t r = Inr (r\<lparr>stat := x\<rparr>)" using sched_start_ok [OF s] by blast
  let ?th = "th_handle (tls_of r t)"
  obtain s' where s': "finish_turn opt t ?th (sch r) = Inr s'" "released opt s'" "tm_zombie ?th (tids s')"
     "gone t (s', {})" "\<forall>j js. filter (\<lambda>u. chan (waits (sch r) u) = ?th) (waitq (sch r)) = j # js \<longrightarrow> j \<notin> set (waitq s')"
    using holding_finish [OF b h f] by blast
  obtain n s1 where s1: "incTurnCount opt (sch r) = Inr (n, s1)" "putTurn opt t ?th True 0 s1 = Inr s'"
    using s'(1) by (auto simp: finish_turn_def res_simps)
  define r1 where "r1 = logSync opt t ins ''tern_thread_end'' (getTurnCount s1) True [int ?th]
     (if generate_per_sync_stats opt then recordSync t ''tern_thread_end'' (r\<lparr>stat := x, sch := s1\<rparr>)
      else r\<lparr>stat := x, sch := s1\<rparr>)"
  have r1: "end_common opt t ins ''tern_thread_end'' [int ?th] (r\<lparr>stat := x\<rparr>) = Inr r1" "sch r1 = s1"
     "th_handle (tls_of r1 t) = ?th"
    using s1(1) by (auto simp: end_common_def r1_def Let_def)
  have "thread_end_turn opt t ins r = Inr (Done 0 0, r1\<lparr>sch := s'\<rparr>)"
    using x r1 s1(2) by (simp add: thread_end_turn_def sched_thread_end_def on_sched_def)
  then show ?thesis using s' by simp
qed

section \<open>Keeping the turn\<close>

text \<open>
  What makes a thread the next to get the turn again: being in a critical section it entered
  under the first policy, having announced more turns, or having waiters left to satisfy.
\<close>

definition keeps_turn :: "options \<Rightarrow> tls \<Rightarrow> bool" where
  "keeps_turn opt x \<longleftrightarrow> \<not> yield_this x \<and>
     (inCSLevel x > 0 \<and> \<not> noCSWholeLocal x \<or> slock_n_turns x > 0 \<or> satisfyingCV x \<noteq> 0 \<or> satisfyingSem x \<noteq> 0)"

lemma strategy_keeps:
  assumes "\<not> wakeamap_plus opt" and "keeps_turn opt (tls_of r t)"
  shows "getPutTurnStrategy opt t op r =
     (if slock_n_turns (tls_of r t) > 0 \<and> op = ''pthread_create'' then PUTTURN_STRATEGY_CREATE
      else PUTTURN_STRATEGY_CURRENT_THREAD, r)"
  using assms by (auto simp: getPutTurnStrategy_def keeps_turn_def Let_def)

lemma sched_end_keeps:
  assumes b: "basic opt" and w: "\<not> wakeamap_plus opt" and h: "holding opt t (sch r)" and k: "keeps_turn opt (tls_of r t)"
  shows "\<exists>r'. sched_end opt t ins op args ret error r = Inr (Done ret error, r') \<and> released opt (sch r') \<and>
     objects r' = objects r \<and> getTurn opt t (sch r') \<noteq> None"
proof -
  obtain s1 where s1: "incTurnCount opt (sch r) = Inr (turnCount (sch r), s1)" "holding opt t s1"
    using holding_tick [OF b h] by blast
  define r1 where "r1 = logSync opt t ins op (getTurnCount s1) True args
     (if generate_per_sync_stats opt then recordSync t op (r\<lparr>sch := s1\<rparr>) else r\<lparr>sch := s1\<rparr>)"
  have r1: "end_common opt t ins op args r = Inr r1" "sch r1 = s1" "objects r1 = objects r" "tls_of r1 = tls_of r"
    using s1(1) by (auto simp: end_common_def r1_def Let_def)
  let ?st = "if slock_n_turns (tls_of r1 t) > 0 \<and> op = ''pthread_create'' then PUTTURN_STRATEGY_CREATE
     else PUTTURN_STRATEGY_CURRENT_THREAD"
  have st: "getPutTurnStrategy opt t op r1 = (?st, r1)" using strategy_keeps [OF w, of r1 t op] k r1(4) by simp
  have "?st = PUTTURN_STRATEGY_CURRENT_THREAD \<or> ?st = PUTTURN_STRATEGY_CREATE" by simp
  then obtain s3 where s3: "putTurn opt t (th_handle (tls_of r1 t)) False ?st s1 = Inr s3" "released opt s3"
     "getTurn opt t s3 \<noteq> None" using holding_put_keeps [OF b s1(2)] by blast
  define r3 where "r3 = (if slock_n_turns (tls_of (r1\<lparr>sch := s3\<rparr>) t) > 0
     then upd_tls t (\<lambda>t. t\<lparr>slock_n_turns := slock_n_turns t - 1\<rparr>) (r1\<lparr>sch := s3\<rparr>) else r1\<lparr>sch := s3\<rparr>)"
  obtain r4 where r4: "check_cv_wait_cnt opt t r3 = Inr r4" "objects r4 = objects r3" "sch r4 = sch r3"
    using check_cv_ok [OF w] by blast
  have "sched_end opt t ins op args ret error r = Inr (Done ret error, r4)"
    using r1(1,2) st s3(1) r4(1) by (simp add: sched_end_def on_sched_def r3_def Let_def)
  then show ?thesis using r4(2,3) s3 r1(3) by (auto simp: r3_def)
qed

text \<open>
  Under the first policy a thread that has taken a mutex keeps the turn until it has released
  it: nobody is scheduled between its lock and its next operation.
\<close>

lemma lock_keeps_turn:
  assumes b: "basic opt" and w: "\<not> wakeamap_plus opt" and h: "holding opt t (sch r)" and s: "settled t r"
    and f: "m_owner (mutexes r mu) = None" and pol: "policy opt 1"
    and tl: "\<not> noCSWholeLocal (tls_of r t)" "inCSLevel (tls_of r t) \<ge> 0" "\<not> yield_this (tls_of r t)"
  shows "\<exists>r'. lock_turn opt t OpMutexLock ins error (LMutex mu) r = Inr (Done 0 error, r') \<and>
     m_owner (mutexes r' mu) = Some t \<and> getTurn opt t (sch r') \<noteq> None"
proof -
  obtain x where x: "sched_start opt t r = Inr (r\<lparr>stat := x\<rparr>)" using sched_start_ok [OF s] by blast
  let ?r = "set_errno t error (r\<lparr>stat := x\<rparr>)"
  define r1 where "r1 = snd (try_acquire t (LMutex mu) ?r)"
  have mx: "mutexes ?r = mutexes r" by (simp add: set_errno_def upd_tls_def)
  then have got: "fst (try_acquire t (LMutex mu) ?r) = 0" "m_owner (mutexes r1 mu) = Some t"
    using f by (simp_all add: r1_def try_acquire_def posix_mutex_trylock_def Let_def)
  have tl1: "tls_of r1 t = (tls_of r t)\<lparr>errno := error\<rparr>" by (simp add: r1_def set_errno_def)
  define r2 where "r2 = upd_tls t (\<lambda>t. t\<lparr>inCSLevel := inCSLevel t + 1\<rparr>) r1"
  have r2: "holding opt t (sch r2)" "keeps_turn opt (tls_of r2 t)" "mutexes r2 = mutexes r1"
    using h tl tl1 by (simp_all add: r2_def r1_def keeps_turn_def upd_tls_def)
  from sched_end_keeps [OF b w r2(1,2), of ins "''pthread_mutex_lock''" "[int mu]" 0 error]
  obtain r' where r': "sched_end opt t ins ''pthread_mutex_lock'' [int mu] 0 error r2 = (Inr (Done 0 error, r') :: lock_out)"
     "objects r' = objects r2" "getTurn opt t (sch r') \<noteq> None" by blast
  have "lock_turn opt t OpMutexLock ins error (LMutex mu) r = Inr (Done 0 error, r')"
    using x lock_try_got [OF got(1), of opt FOREVER] r'(1) tl(1) tl1 pol
    by (simp add: lock_turn_def lock_round_def lock_finish_def r1_def [symmetric] r2_def lock_addr_def Let_def)
  moreover have "mutexes r' = mutexes r2" using r'(2) by (simp add: objects_def)
  ultimately show ?thesis using r'(3) r2(3) got(2) by simp
qed

end
