(* ===== verification/IoProofs.thy ===== *)
theory IoProofs
  imports ThreadProofs
begin

text \<open>
  Blocking system calls. A thread that enters one without having the turn is only marked, so
  that the scheduler passes over it; a thread that has been passed the turn takes it and leaves
  the run queue. On the way back it announces itself and is queued again at the next turn.
\<close>

section \<open>Entering\<close>

lemma inter_start_ok:
  assumes i: "turn_inv opt (s, H)" and u: "u \<notin> set (waitq s)" and st: "status_of s u \<in> {Some RUNNABLE, Some RUNNING_REG}"
  shows "\<exists>s'. interProStart opt u s = Inr (status_of s u = Some RUNNING_REG, s') \<and> turn_inv opt (s', H) \<and>
     waitq s' = waitq s \<and> waits s' = waits s \<and> rq_tids (heap s') (runq s') = rq_tids (heap s) (runq s) \<and>
     status_of s' = (status_of s)(u \<mapsto> (if status_of s u = Some RUNNABLE then INTER_PRO_STOP else RUNNING_INTER_PRO))"
proof -
  obtain t ys where c: "core opt s t ys" using i by (auto simp: turn_inv_def)
  note c' = coreD [OF c]
  have "u < nthread (tids s)" using st status_thread [OF c'(1)] by auto
  then obtain a x where a: "rq_get_my_elem u (runq s) = Inr (Some a)" "tid_map (runq s) u = Some a"
    "get_status (Some a) s = Inr x" "status_of s u = Some x" using get_status_ok [OF c'(1)] by metis
  define y where "y = (if x = RUNNABLE then INTER_PRO_STOP else RUNNING_INTER_PRO)"
  obtain s' where s': "set_status (Some a) y s = Inr s'" "sinv opt s' (t # ys) []" "qframe s s'"
     "status_of s' = (status_of s)(u \<mapsto> y)" using set_status_ok [OF c'(1) a(2), of y] by blast
  have e: "interProStart opt u s = Inr (x = RUNNING_REG, s')"
    using a st s'(1) by (auto simp: interProStart_def y_def)
  have "rq_tids (heap s') (runq s') = rq_tids (heap s) (runq s)"
    using queues_tids [OF sinvD(1) [OF s'(2)]] queues_tids [OF sinvD(1) [OF c'(1)]] by simp
  moreover have "turn_inv opt (s', H)" using inv_inter_start [OF i u st e] .
  ultimately show ?thesis using e s'(3,4) a(4) by (simp add: y_def qframe_def)
qed

lemma io_start_ok:
  assumes i: "turn_inv opt (sch r, H)" and u: "u \<notin> set (waitq (sch r))"
    and st: "status_of (sch r) u \<in> {Some RUNNABLE, Some RUNNING_REG}" and nd: "\<not> in_non_det u r"
  shows "\<exists>r'. io_start opt u f args r =
       Inr (if status_of (sch r) u = Some RUNNING_REG then IoTurn f args else IoCall f args, r') \<and>
     turn_inv opt (sch r', H) \<and> waits (sch r') = waits (sch r) \<and>
     rq_tids (heap (sch r')) (runq (sch r')) = rq_tids (heap (sch r)) (runq (sch r)) \<and>
     status_of (sch r') u =
       Some (if status_of (sch r) u = Some RUNNABLE then INTER_PRO_STOP else RUNNING_INTER_PRO)"
proof -
  define q where "q = upd_stat opt (\<lambda>x. x\<lparr>nInterProcSyncOp := nInterProcSyncOp x + 1\<rparr>) r"
  have q: "sch q = sch r" "\<not> in_non_det u q" using nd by (simp_all add: q_def upd_stat_eq in_non_det_def)
  obtain s' where s': "interProStart opt u (sch r) = Inr (status_of (sch r) u = Some RUNNING_REG, s')"
     "turn_inv opt (s', H)" "waits s' = waits (sch r)" "rq_tids (heap s') (runq s') = rq_tids (heap (sch r)) (runq (sch r))"
     "status_of s' u = Some (if status_of (sch r) u = Some RUNNABLE then INTER_PRO_STOP else RUNNING_INTER_PRO)"
    using inter_start_ok [OF i u st] by auto
  have "io_start opt u f args r =
     Inr (if status_of (sch r) u = Some RUNNING_REG then IoTurn f args else IoCall f args, q\<lparr>sch := s'\<rparr>)"
    unfolding io_start_def q_def [symmetric] Let_def using q s'(1) by simp
  then show ?thesis using s' by auto
qed

text \<open>The thread that has the turn leaves the run queue and passes the turn on.\<close>

lemma io_turn_ok:
  assumes b: "basic opt" and i: "turn_inv opt (sch r, {t})" and st: "status_of (sch r) t = Some RUNNING_INTER_PRO"
    and l: "can_leave opt t (sch r)"
  shows "\<exists>r'. io_turn opt t f args r = Inr (IoCall f args, r') \<and> released opt (sch r') \<and>
     stopped (sch r') t \<and> (\<forall>xs. rq_tids (heap (sch r')) (runq (sch r')) = Inr xs \<longrightarrow> t \<notin> set xs)"
proof -
  have p: "plain opt" using b by (simp add: basic_def)
  obtain ys where c: "core opt (sch r) t ys" using turn_inv_holder [OF i] by blast
  obtain zs where zs: "ticked opt (sch r) (t # ys) = t # zs" using ticked_Cons by blast
  obtain v us where v: "(v, us) = successor (sch r) zs" by (metis surj_pair)
  let ?E = "set (expired ((sch r)\<lparr>turnCount := turnCount (sch r) + 1\<rparr>))"
  note idle = can_leaveD [OF c l zs]
  obtain s' where s': "block_turn opt t (sch r) = Inr (turnCount (sch r), s')" "core opt s' v us"
     "status_of s' = (status_of (sch r))(t \<mapsto> leaving RUNNING_INTER_PRO, v \<mapsto> RUNNING_REG)"
    using block_turn_ok [OF p c st basic_release [OF b] refl zs idle v] by blast
  have "t \<notin> set zs"
    using sinv_threads(1) [OF coreD(1)] incTurnCount_core [OF p c refl] zs by fastforce
  then have "t \<noteq> v" "t \<notin> set us" using successorD [OF v] idle by (auto simp: idle_ready_def)
  moreover have "rq_tids (heap s') (runq s') = Inr (v # us)" using queues_tids [OF sinvD(1) [OF coreD(1) [OF s'(2)]]] .
  moreover have "turn_inv opt (s', {t} - {t})" using inv_block [OF b i _ l s'(1)] by simp
  ultimately show ?thesis using s'(1,3) by (simp add: io_turn_def released_def stopped_def leaving_def)
qed

section \<open>Returning\<close>

lemma io_end_ok:
  assumes i: "turn_inv opt (sch r, H)" and st: "stopped (sch r) u"
  shows "\<exists>r'. io_end opt u ret err r = Inr ((ret, err), r') \<and> turn_inv opt (sch r', H) \<and>
     errno (tls_of r' u) = err \<and> status_of (sch r') = (status_of (sch r))(u \<mapsto> RUNNABLE) \<and>
     waits (sch r') = waits (sch r) \<and> u \<in> set (inter_pro_wakeup_tids (sch r')) \<and> inter_pro_wakeup_flag (sch r')"
proof -
  obtain t ys where c: "core opt (sch r) t ys" using i by (auto simp: turn_inv_def)
  note c' = coreD [OF c]
  have st': "status_of (sch r) u = Some INTER_PRO_STOP" using st by (simp add: stopped_def)
  have "u < nthread (tids (sch r))" using st' status_thread [OF c'(1)] by auto
  then obtain a where a: "rq_get_my_elem u (runq (sch r)) = Inr (Some a)" "tid_map (runq (sch r)) u = Some a"
    "get_status (Some a) (sch r) = Inr INTER_PRO_STOP" using get_status_ok [OF c'(1)] st' by (metis option.inject)
  obtain s' where s': "set_status (Some a) RUNNABLE (sch r) = Inr s'" "qframe (sch r) s'"
     "status_of s' = (status_of (sch r))(u \<mapsto> RUNNABLE)" using set_status_ok [OF c'(1) a(2), of RUNNABLE] by blast
  have e: "interProEnd opt u (sch r) = Inr (True, s')" using a s'(1) by (simp add: interProEnd_def)
  have t': "turn_inv opt (wakeup u s', H)" using inv_inter_end [OF i st' e] .
  let ?r = "set_errno u err ((set_errno u err r)\<lparr>sch := wakeup u s'\<rparr>)"
  have "io_end opt u ret err r = Inr ((ret, err), ?r)" using e by (simp add: io_end_def Let_def)
  moreover have "status_of (wakeup u s') = status_of s'" by (simp add: wakeup_def status_of_def fun_eq_iff)
  ultimately show ?thesis using t' s'(2,3) by (auto simp: wakeup_def qframe_def)
qed

text \<open>The next turn of any other thread puts it back on the run queue.\<close>

lemma io_returns:
  assumes b: "basic opt" and h: "holding opt t (sch r)" and st: "stopped (sch r) u"
  shows "\<exists>r' s' xs. io_end opt u ret err r = Inr ((ret, err), r') \<and>
     incTurnCount opt (sch r') = Inr (turnCount (sch r'), s') \<and> holding opt t s' \<and>
     rq_tids (heap s') (runq s') = Inr xs \<and> u \<in> set xs"
proof -
  have p: "plain opt" using b by (simp add: basic_def)
  have i: "turn_inv opt (sch r, {t})" using h by (simp add: holding_def)
  obtain r' where r': "io_end opt u ret err r = Inr ((ret, err), r')" "turn_inv opt (sch r', {t})"
     "status_of (sch r') = (status_of (sch r))(u \<mapsto> RUNNABLE)" "u \<in> set (inter_pro_wakeup_tids (sch r'))"
     "inter_pro_wakeup_flag (sch r')" using io_end_ok [OF i st] by blast
  have "u \<noteq> t" using h st by (auto simp: holding_def stopped_def)
  then have h': "holding opt t (sch r')" using r'(2,3) h by (simp add: holding_def)
  obtain s' where s': "incTurnCount opt (sch r') = Inr (turnCount (sch r'), s')" "holding opt t s'"
    using holding_tick [OF b h'] by blast
  obtain ys where c: "core opt (sch r') t ys" using holdingD [OF h'] by metis
  obtain zs where zs: "core opt s' t zs" "ticked opt (sch r') (t # ys) = t # zs"
    using incTurnCount_core [OF p c refl] s'(1) by auto
  have "u \<in> set (t # zs)" unfolding zs(2) [symmetric]
    using r'(4,5) coreD(2) [OF c] plainD(4) [OF p]
    by (auto simp: ticked_def returning_def Let_def wset_ok_def order_ok_def)
  moreover have "rq_tids (heap s') (runq s') = Inr (t # zs)" using queues_tids [OF sinvD(1) [OF coreD(1) [OF zs(1)]]] .
  ultimately show ?thesis using r'(1) s' by blast
qed

end
