(* ===== verification/Segments.thy ===== *)
theory Segments
  imports BarProofs TimeProofs IoProofs
begin

text \<open>
  Segments of the scheduler and of the runtime: any sequence of the calls a thread may make while
  it holds the turn, closed by a call that gives the turn up, runs without a fault and leaves
  the scheduler without a holder.
\<close>

section \<open>Scheduler calls\<close>

datatype held_call = CallTick | CallSignal vptr bool

datatype leave_call = CallPut pthread nat | CallWait vptr u32

definition run_held :: "options \<Rightarrow> tid \<Rightarrow> held_call \<Rightarrow> sched \<Rightarrow> sched res" where
  "run_held opt t c s = (case c of
     CallTick \<Rightarrow> res_bind (incTurnCount opt s) (\<lambda>(_, s). Inr s)
   | CallSignal ch all \<Rightarrow> signal opt t ch all s)"

definition run_leave :: "options \<Rightarrow> tid \<Rightarrow> leave_call \<Rightarrow> sched \<Rightarrow> sched res" where
  "run_leave opt t c s = (case c of
     CallPut th strategy \<Rightarrow> putTurn opt t th False strategy s
   | CallWait ch n \<Rightarrow> wait_begin opt t ch n s)"

definition held_ok :: "held_call \<Rightarrow> bool" where
  "held_ok c = (case c of CallTick \<Rightarrow> True | CallSignal ch _ \<Rightarrow> ch \<noteq> 0)"

definition may_leave :: "options \<Rightarrow> tid \<Rightarrow> leave_call \<Rightarrow> sched \<Rightarrow> bool" where
  "may_leave opt t c s = (case c of
     CallPut _ strategy \<Rightarrow> strategy \<noteq> PUTTURN_STRATEGY_CURRENT_ROLE
   | CallWait _ _ \<Rightarrow> can_leave opt t s)"

lemma run_held_ok:
  assumes b: "basic opt" and h: "holding opt t s" and c: "held_ok c"
  shows "\<exists>s'. run_held opt t c s = Inr s' \<and> holding opt t s'"
proof (cases c)
  case CallTick
  then show ?thesis using holding_tick [OF b h] by (auto simp: run_held_def)
next
  case (CallSignal ch all)
  then show ?thesis using holding_signal [OF b h, of ch all] c by (auto simp: run_held_def held_ok_def)
qed

lemma run_held_leaves:
  assumes b: "basic opt" and h: "holding opt t s" and c: "held_ok c" and l: "may_leave opt t l s"
    and r: "run_held opt t c s = Inr s'"
  shows "may_leave opt t l s'"
proof (cases l)
  case (CallWait ch n)
  then have l': "can_leave opt t s" using l by (simp add: may_leave_def)
  have "can_leave opt t s'"
  proof (cases c)
    case CallTick
    then obtain n where "incTurnCount opt s = Inr (n, s')" using r by (auto simp: run_held_def res_simps)
    then show ?thesis by (rule can_leave_tick [OF b h l'])
  next
    case (CallSignal ch all)
    then show ?thesis using can_leave_signal [OF b h l', of ch all] r c by (simp add: run_held_def held_ok_def)
  qed
  then show ?thesis using CallWait by (simp add: may_leave_def)
qed (use l in \<open>simp add: may_leave_def\<close>)

lemma run_leave_ok:
  assumes b: "basic opt" and h: "holding opt t s" and l: "may_leave opt t l s"
  shows "\<exists>s'. run_leave opt t l s = Inr s' \<and> released opt s'"
  using l holding_put [OF b h] holding_wait [OF b h]
  by (cases l) (auto simp: run_leave_def may_leave_def, blast+)

interpretation sched_seg: turn_segment
  "\<lambda>s. basic opt \<and> holding opt t s" "released opt" "run_held opt t" held_ok "run_leave opt t" "may_leave opt t"
  for opt t
proof (unfold_locales, goal_cases)
  case (1 s c) then show ?case using run_held_ok by blast
next
  case (2 s c l s') then show ?case using run_held_leaves by blast
next
  case (3 s l) then show ?case using run_leave_ok by blast
qed

section \<open>Runtime calls\<close>

text \<open>
  The same for the runtime's building blocks: \<open>SCHED_TIMER_FAKE_END\<close> and \<open>syncSignal\<close> keep
  the turn, \<open>SCHED_TIMER_END\<close> and \<open>syncWait\<close> give it up.
\<close>

datatype rt_call = RtFakeEnd u32 syncfunc "int list" | RtSignal vptr bool

datatype rt_leave = RtEnd u32 syncfunc "int list" int int | RtWait vptr u32

definition run_rt :: "options \<Rightarrow> tid \<Rightarrow> rt_call \<Rightarrow> rt \<Rightarrow> rt res" where
  "run_rt opt t c r = (case c of
     RtFakeEnd ins op args \<Rightarrow> sched_fake_end opt t ins op args r
   | RtSignal ch all \<Rightarrow> syncSignal opt t ch all r)"

definition run_rt_leave :: "options \<Rightarrow> tid \<Rightarrow> rt_leave \<Rightarrow> rt \<Rightarrow> rt res" where
  "run_rt_leave opt t c r = (case c of
     RtEnd ins op args ret error \<Rightarrow>
       res_bind (sched_end opt t ins op args ret error r :: lock_out) (\<lambda>(_, r). Inr r)
   | RtWait ch n \<Rightarrow> syncWait opt t ch n r)"

definition rt_ok :: "rt_call \<Rightarrow> bool" where
  "rt_ok c = (case c of RtFakeEnd _ _ _ \<Rightarrow> True | RtSignal ch _ \<Rightarrow> ch \<noteq> 0)"

definition rt_may :: "options \<Rightarrow> tid \<Rightarrow> rt_leave \<Rightarrow> rt \<Rightarrow> bool" where
  "rt_may opt t c r = (case c of
     RtEnd _ _ _ _ _ \<Rightarrow> \<not> wakeamap_plus opt
   | RtWait _ _ \<Rightarrow> can_leave opt t (sch r))"

lemma run_rt_sched:
  assumes b: "basic opt" and h: "holding opt t (sch r)" and c: "rt_ok c"
  shows "\<exists>r' k. run_rt opt t c r = Inr r' \<and> run_held opt t k (sch r) = Inr (sch r') \<and> held_ok k"
proof (cases c)
  case (RtFakeEnd ins op args)
  obtain s' where "incTurnCount opt (sch r) = Inr (turnCount (sch r), s')" using holding_tick [OF b h] by blast
  then have "run_held opt t CallTick (sch r) = Inr s'"
    "run_rt opt t c r = Inr (logSync opt t ins op (turnCount (sch r)) False args (r\<lparr>sch := s'\<rparr>))"
    using RtFakeEnd by (simp_all add: run_held_def run_rt_def sched_fake_end_def)
  then show ?thesis
    by (intro exI [of _ "logSync opt t ins op (turnCount (sch r)) False args (r\<lparr>sch := s'\<rparr>)"] exI [of _ CallTick])
      (simp add: held_ok_def)
next
  case (RtSignal ch all)
  obtain s' where "signal opt t ch all (sch r) = Inr s'"
    using holding_signal [OF b h, of ch all] c RtSignal by (auto simp: rt_ok_def)
  then show ?thesis using c RtSignal
    by (intro exI [of _ "r\<lparr>sch := s'\<rparr>"] exI [of _ "CallSignal ch all"])
      (simp add: run_rt_def run_held_def syncSignal_def on_sched_def held_ok_def rt_ok_def)
qed

lemma run_rt_keeps:
  assumes b: "basic opt" and h: "holding opt t (sch r)" and c: "rt_ok c" and r: "run_rt opt t c r = Inr r'"
  shows "holding opt t (sch r')" and "can_leave opt t (sch r) \<Longrightarrow> can_leave opt t (sch r')"
proof -
  obtain k where k: "run_held opt t k (sch r) = Inr (sch r')" "held_ok k"
    using run_rt_sched [OF b h c] r by auto
  show "holding opt t (sch r')" using run_held_ok [OF b h k(2)] k(1) by simp
  show "can_leave opt t (sch r')" if "can_leave opt t (sch r)"
    using run_held_leaves [OF b h k(2) _ k(1), of "CallWait 0 0"] that by (simp add: may_leave_def)
qed

lemma run_rt_leave_ok:
  assumes b: "basic opt" and h: "holding opt t (sch r)" and l: "rt_may opt t l r"
  shows "\<exists>r'. run_rt_leave opt t l r = Inr r' \<and> released opt (sch r')"
proof (cases l)
  case (RtEnd ins op args ret error)
  then have w: "\<not> wakeamap_plus opt" using l by (simp add: rt_may_def)
  obtain r' where "(sched_end opt t ins op args ret error r :: lock_out) = Inr (Done ret error, r')"
     "released opt (sch r')" using sched_end_ok [OF b w h] by blast
  then show ?thesis using RtEnd by (simp add: run_rt_leave_def)
next
  case (RtWait ch n)
  then show ?thesis using syncWait_ok [OF b h, of ch n] l by (auto simp: run_rt_leave_def rt_may_def)
qed

interpretation rt_seg: turn_segment
  "\<lambda>r. basic opt \<and> holding opt t (sch r)" "\<lambda>r. released opt (sch r)" "run_rt opt t" rt_ok "run_rt_leave opt t"
  "rt_may opt t"
  for opt t
proof (unfold_locales, goal_cases)
  case (1 r c) then show ?case using run_rt_sched run_rt_keeps(1) by blast
next
  case (2 r c l r') then show ?case using run_rt_keeps(2) [of opt t r c r'] by (cases l) (auto simp: rt_may_def)
next
  case (3 r l) then show ?case using run_rt_leave_ok by blast
qed

end
