(* ===== verification/Fairness.thy ===== *)
theory Fairness
  imports RtProtocol
begin

text \<open>
  Round robin: when no thread is stopped in a blocking call, handing the turn on again and
  again gives it to every thread of the run queue, in the order of the queue.
\<close>

section \<open>One hand-over\<close>

text \<open>The thread at the head takes the turn and gives it up at once.\<close>

definition pass_turn :: "options \<Rightarrow> pthread \<Rightarrow> sched \<Rightarrow> sched res" where
  "pass_turn opt th s = res_bind (rq_front (heap s) (runq s)) (\<lambda>t. case getTurn opt t s of
     None \<Rightarrow> Inl AssertFailed | Some s1 \<Rightarrow> putTurn opt t th False 0 s1)"

text \<open>
  \<open>ready opt s xs\<close>: the turn is free, the run queue is \<open>xs\<close>, nobody on it is stopped and
  nobody is coming back.
\<close>

definition ready :: "options \<Rightarrow> sched \<Rightarrow> tid list \<Rightarrow> bool" where
  "ready opt s xs \<longleftrightarrow> released opt s \<and> rq_tids (heap s) (runq s) = Inr xs \<and>
     (\<forall>u \<in> set xs. \<not> stopped s u) \<and> \<not> inter_pro_wakeup_flag s \<and>
     status_of s (hd xs) = Some RUNNING_REG"

lemma putTurn_round_robin:
  assumes b: "basic opt" and h: "holding opt t s" and q: "rq_tids (heap s) (runq s) = Inr (t # ys)"
    and f: "\<not> inter_pro_wakeup_flag s"
  shows "\<exists>s'. putTurn opt t th False 0 s = Inr s' \<and> released opt s' \<and> \<not> inter_pro_wakeup_flag s' \<and>
     rq_tids (heap s') (runq s') = Inr (dropWhile (stopped s) (ys @ [t])) \<and>
     getTurn opt (hd (dropWhile (stopped s) (ys @ [t]))) s' \<noteq> None \<and>
     status_of s' = (status_of s)(t \<mapsto> RUNNABLE, hd (dropWhile (stopped s) (ys @ [t])) \<mapsto> RUNNING_REG)"
proof -
  have p: "plain opt" using b by (simp add: basic_def)
  obtain us where c: "core opt s t us" "\<And>u. tokens opt (waits s u) = 0" "status_of s t = Some RUNNING_REG"
    using holdingD [OF h] by metis
  have us: "us = ys" using queues_tids [OF sinvD(1) [OF coreD(1) [OF c(1)]]] q by simp
  have role: "0 \<noteq> PUTTURN_STRATEGY_CURRENT_ROLE" by (simp add: strategy_defs)
  have rq: "requeued 0 k t us @ returning opt s (requeued 0 k t us) = ys @ [t]" for k
    using us f by (simp add: requeued_def strategy_defs returning_def)
  obtain s' v zs where s': "putTurn opt t th False 0 s = Inr s'" "core opt s' v zs" 
     "waits s' = (waits s)(v := wt_post opt (waits s v))" "v # zs = dropWhile (stopped s) (ys @ [t])"
     "status_of s' = (status_of s)(t \<mapsto> RUNNABLE, v \<mapsto> RUNNING_REG)" 
     "\<not> inter_pro_wakeup_flag s'"
    using putTurn_ok [OF p c(1,3) role basic_release [OF b], of th] unfolding rq by blast
  have "rq_tids (heap s') (runq s') = Inr (v # zs)" using queues_tids [OF sinvD(1) [OF coreD(1) [OF s'(2)]]] .
  moreover have "tokens opt (waits s' v) = 1" using s'(3) c(2) tokens_simps(1) [OF p] by simp
  then have "getTurn opt v s' \<noteq> None" using tokens_simps(5) [OF p] by (simp add: getTurn_def)
  moreover have "released opt s'" using holding_put [OF b h role, of th] s'(1) by auto
  ultimately show ?thesis unfolding s'(4) [symmetric] using s'(1,5,6) by simp
qed

section \<open>Many hand-overs\<close>

lemma pass_turn_ready:
  assumes b: "basic opt" and r: "ready opt s (x # xs)"
  shows "\<exists>s'. pass_turn opt th s = Inr s' \<and> ready opt s' (xs @ [x])"
proof -
  have p: "plain opt" using b by (simp add: basic_def)
  have q: "rq_tids (heap s) (runq s) = Inr (x # xs)" "\<forall>u \<in> set (x # xs). \<not> stopped s u"
     "\<not> inter_pro_wakeup_flag s" "turn_inv opt (s, {})" "status_of s x = Some RUNNING_REG"
    using r by (auto simp: ready_def released_def)
  obtain v ys where v: "core opt s v ys" "\<And>u. tokens opt (waits s u) = (if u = v then 1 else 0)"
    using q(4) by (auto simp: turn_inv_def)
  have vx: "v = x" "ys = xs" using queues_tids [OF sinvD(1) [OF coreD(1) [OF v(1)]]] q(1) by simp_all
  obtain s1 where s1: "getTurn opt x s = Some s1"
    using v(2) vx tokens_simps(5) [OF p, of "inSync s" "waits s x"] by (auto simp: getTurn_def)
  then have eq: "heap s1 = heap s" "runq s1 = runq s" "inter_pro_wakeup_flag s1 = inter_pro_wakeup_flag s"
    by (auto simp: getTurn_def)
  then have st: "status_of s1 = status_of s" by (simp add: status_of_def fun_eq_iff)
  have h: "holding opt x s1" using inv_acquire [OF b q(4) s1] st q(5) by (simp add: holding_def)
  have dw: "dropWhile (stopped s1) (xs @ [x]) = xs @ [x]"
    using q(2) st by (cases xs) (auto simp: stopped_def)
  obtain s' where s': "putTurn opt x th False 0 s1 = Inr s'" "released opt s'" "\<not> inter_pro_wakeup_flag s'"
     "rq_tids (heap s') (runq s') = Inr (xs @ [x])"
     "status_of s' = (status_of s1)(x \<mapsto> RUNNABLE, hd (xs @ [x]) \<mapsto> RUNNING_REG)"
    using putTurn_round_robin [OF b h, of xs th] q(1,3) eq dw by auto
  have "rq_front (heap s) (runq s) = Inr x" using queues_front(1) [OF sinvD(1) [OF coreD(1) [OF v(1)]]] vx by simp
  then have "pass_turn opt th s = Inr s'" using s1 s'(1) by (simp add: pass_turn_def)
  moreover have "\<forall>u \<in> set (xs @ [x]). \<not> stopped s' u" using q(2) st s'(5) by (auto simp: stopped_def)
  ultimately show ?thesis using s' by (simp add: ready_def)
qed

lemma passes_ready:
  assumes b: "basic opt" and r: "ready opt s xs" and ne: "xs \<noteq> []"
  shows "\<exists>s'. iterate n (pass_turn opt th) s = Inr s' \<and> ready opt s' (rotate n xs)"
  using r ne
proof (induction n arbitrary: s xs)
  case (Suc n)
  obtain y ys where xs: "xs = y # ys" using Suc.prems(2) by (cases xs) auto
  obtain s1 where s1: "pass_turn opt th s = Inr s1" "ready opt s1 (ys @ [y])"
    using pass_turn_ready [OF b] Suc.prems(1) xs by blast
  obtain s2 where s2: "iterate n (pass_turn opt th) s1 = Inr s2" "ready opt s2 (rotate n (ys @ [y]))"
    using Suc.IH [OF s1(2)] by auto
  moreover have "rotate (Suc n) xs = rotate n (ys @ [y])" using xs by (simp add: rotate1_rotate_swap)
  ultimately show ?case using s1 by simp
qed simp

lemma ready_getTurn:
  assumes b: "basic opt" and r: "ready opt s (x # xs)"
  shows "getTurn opt u s \<noteq> None \<longleftrightarrow> u = x"
proof -
  have p: "plain opt" using b by (simp add: basic_def)
  obtain v ys where v: "core opt s v ys" "\<And>u. tokens opt (waits s u) = (if u = v then 1 else 0)"
    using r by (auto simp: ready_def released_def turn_inv_def)
  have "v = x" using queues_tids [OF sinvD(1) [OF coreD(1) [OF v(1)]]] r by (simp add: ready_def)
  then show ?thesis using v(2) tokens_simps(5) [OF p] by (auto simp: getTurn_def split: if_splits)
qed

lemma fair:
  assumes b: "basic opt" and r: "ready opt s xs" and i: "i < length xs"
  shows "\<exists>s'. iterate i (pass_turn opt th) s = Inr s' \<and> (\<forall>u. getTurn opt u s' \<noteq> None \<longleftrightarrow> u = xs ! i)"
proof -
  have ne: "xs \<noteq> []" using i by auto
  obtain s' where s': "iterate i (pass_turn opt th) s = Inr s'" "ready opt s' (rotate i xs)"
    using passes_ready [OF b r ne] by blast
  have "rotate i xs = xs ! i # drop (Suc i) xs @ take i xs"
    using i by (simp add: rotate_drop_take Cons_nth_drop_Suc)
  then show ?thesis using s' ready_getTurn [OF b] by metis
qed

end
