(* ===== verification/Scenario.thy ===== *)
theory Scenario
  imports Segments Fairness
begin

text \<open>
  Concrete reachable states with the default options, on which the witnesses of the properties
  rest: the main thread (handle \<open>7\<close>) alone; the main thread holding the turn with a second
  thread (handle \<open>8\<close>) behind it; the second thread holding the turn. \<open>rt_new s\<close> is the
  runtime at program start around a scheduler state: every global zero-initialized.
\<close>

definition tls_new :: "pthread \<Rightarrow> tls" where
  "tls_new th = \<lparr>th_handle = th, errno = 0, app_space = False, inNonDet = False, inNoWaitNonDet = False,
     noCSWholeLocal = False, inCSLevel = 0, slock_n_turns = 0, satisfyingCV = 0, satisfyingSem = 0,
     satisfyingRole = None, this_task = 0, task_start_time = \<lparr>tv_sec = 0, tv_nsec = 0\<rparr>, yield_this = False,
     process_proposed_role = False, my_base_time = \<lparr>tv_sec = 0, tv_nsec = 0\<rparr>\<rparr>"

definition rt_new :: "sched \<Rightarrow> rt" where
  "rt_new s = \<lparr>sch = s, tls_of = (\<lambda>t. tls_new (7 + t)),
     mutexes = (\<lambda>_. \<lparr>m_kind = MNormal, m_owner = None, m_count = 0\<rparr>),
     rwlocks = (\<lambda>_. \<lparr>rw_writer = None, rw_readers = 0\<rparr>), sems = (\<lambda>_. 0), cond_map = (\<lambda>_. 0), sem_map = (\<lambda>_. 0),
     barriers = Map.empty, refcnt_bars = Map.empty, blocked_cv_line_map = Map.empty,
     blocked_cv_count_map = Map.empty, role_cells = Map.empty, rt_brk = 3, proposed_role = [],
     per_sync_stats = (\<lambda>_ _. 0),
     stat = \<lparr>nDetPthreadSyncOp = 0, nInterProcSyncOp = 0, nLineupSucc = 0, nLineupTimeout = 0,
       nNonDetRegions = 0, nNonDetPthreadSync = 0\<rparr>,
     slog = [], idle_th = 0, idle_created = False, no_child_threads_created = True,
     thread_begin_sem = 0, thread_begin_done_sem = 0, dmt_lock_holder = - 1, app_time_table = Map.empty\<rparr>"

lemma rt_new_simps [simp]:
  "sch (rt_new s) = s" "tls_of (rt_new s) t = tls_new (7 + t)"
  "mutexes (rt_new s) mu = \<lparr>m_kind = MNormal, m_owner = None, m_count = 0\<rparr>" "sems (rt_new s) = (\<lambda>_. 0)"
  "thread_begin_done_sem (rt_new s) = 0" "settled t (rt_new s)" "th_handle (tls_new th) = th"
  by (simp_all add: rt_new_def tls_new_def settled_def)

lemma default_simps [simp]:
  "\<not> wakeamap_plus default_options" "launch_idle_thread default_options = 2" "nanosec_per_turn default_options = 3000"
  by (simp_all add: default_options_def)

section \<open>States\<close>

text \<open>The main thread alone, the turn passed to it.\<close>

lemma some_scene_start:
  assumes b: "basic opt"
  obtains s where "rr_new opt 7 = Inr s" "ready opt s [MainThreadTid]" "turnCount s = 0"
    "waitq s = []" "nthread (tids s) = 1" "p_t_map (tids s) = [7 \<mapsto> MainThreadTid]" "zombies (tids s) = {}"
proof -
  obtain s where s: "rr_new opt 7 = Inr s" "turn_inv opt (s, {})" "turnCount s = 0"
    "core opt s MainThreadTid []" "nthread (tids s) = 1" "waitq s = []" "\<not> inter_pro_wakeup_flag s"
    "p_t_map (tids s) = [7 \<mapsto> MainThreadTid]" "zombies (tids s) = {}"
    "status_of s MainThreadTid = Some RUNNING_REG" using rr_new_ok [OF b] by blast
  have "rq_tids (heap s) (runq s) = Inr [MainThreadTid]" using queues_tids [OF sinvD(1) [OF coreD(1) [OF s(4)]]] .
  then have "ready opt s [MainThreadTid]" using s by (simp add: ready_def released_def stopped_def)
  then show thesis using that s by blast
qed

text \<open>The main thread holds the turn and thread \<open>1\<close> has been created.\<close>

lemma some_scene_two:
  assumes b: "basic opt"
  obtains s where "holding opt MainThreadTid s" "rq_tids (heap s) (runq s) = Inr [MainThreadTid, 1]"
    "can_leave opt MainThreadTid s" "waitq s = []" "nthread (tids s) = 2"
    "p_t_map (tids s) = [7 \<mapsto> MainThreadTid, 8 \<mapsto> 1]" "\<not> inter_pro_wakeup_flag s" "turnCount s = 0"
    "status_of s 1 = Some RUNNABLE" "\<not> tm_zombie 8 (tids s)"
proof -
  have p: "plain opt" using b by (simp add: basic_def)
  obtain s0 where s0: "rr_new opt 7 = Inr s0" "ready opt s0 [MainThreadTid]" "turnCount s0 = 0"
    "waitq s0 = []" "nthread (tids s0) = 1" "p_t_map (tids s0) = [7 \<mapsto> MainThreadTid]"
    "zombies (tids s0) = {}" using some_scene_start [OF b] .
  obtain s1 where s1: "getTurn opt MainThreadTid s0 = Some s1" using ready_getTurn [OF b s0(2)] by auto
  have inv0: "turn_inv opt (s0, {})" "\<not> inter_pro_wakeup_flag s0" "status_of s0 MainThreadTid = Some RUNNING_REG"
    using s0(2) by (simp_all add: ready_def released_def)
  have eq: "heap s1 = heap s0" "runq s1 = runq s0" "tids s1 = tids s0" "waitq s1 = waitq s0" "turnCount s1 = turnCount s0"
    "inter_pro_wakeup_flag s1 = inter_pro_wakeup_flag s0" using s1 by (auto simp: getTurn_def)
  then have st: "status_of s1 = status_of s0" by (simp add: status_of_def fun_eq_iff)
  have h1: "holding opt MainThreadTid s1"
    using inv_acquire [OF b inv0(1) s1] st inv0(3) by (simp add: holding_def)
  obtain ys where c: "core opt s1 MainThreadTid ys" "tm_inv (tids s1)" using holdingD [OF h1] by metis
  have ys: "ys = []" using queues_tids [OF sinvD(1) [OF coreD(1) [OF c(1)]]] s0(2) eq by (simp add: ready_def)
  have new: "p_t_map (tids s1) 8 = None" "nthread (tids s1) < MAX_THREAD_NUM"
    using s0(5,6) eq(3) by (simp_all add: MAX_THREAD_NUM_def)
  obtain s2 where s2: "sched_create opt MainThreadTid 8 0 s1 = Inr (1, s2)"
     "core opt s2 MainThreadTid [1]" "nthread (tids s2) = 2" "waitq s2 = []"
     "p_t_map (tids s2) = [7 \<mapsto> MainThreadTid, 8 \<mapsto> 1]" "turnCount s2 = 0" "\<not> inter_pro_wakeup_flag s2"
     "status_of s2 = (status_of s1)(1 \<mapsto> RUNNABLE)" "\<not> tm_zombie 8 (tids s2)"
    using sched_create_ok [OF p c new, of 0] ys s0 eq inv0(2) by (auto simp: tm_zombie_def)
  have h2: "holding opt MainThreadTid s2" using holding_create [OF b h1 new, of 0] s2(1) by auto
  have q2: "rq_tids (heap s2) (runq s2) = Inr [MainThreadTid, 1]" using queues_tids [OF sinvD(1) [OF coreD(1) [OF s2(2)]]] .
  have "\<not> stopped s2 1" using s2(8) by (simp add: stopped_def)
  then have "can_leave opt MainThreadTid s2"
    using q2 by (simp add: can_leave_def ticked_def Let_def)
  then show thesis using that h2 q2 s2 by auto
qed

text \<open>Thread \<open>1\<close> holds the turn, with the main thread behind it.\<close>

lemma some_scene_second:
  assumes b: "basic opt"
  obtains s where "holding opt 1 s" "rq_tids (heap s) (runq s) = Inr [1, MainThreadTid]"
    "can_finish opt 1 8 s" "waitq s = []" "\<not> inter_pro_wakeup_flag s" "status_of s MainThreadTid = Some RUNNABLE"
proof -
  obtain s where s: "holding opt MainThreadTid s" "rq_tids (heap s) (runq s) = Inr [MainThreadTid, 1]"
    "waitq s = []" "p_t_map (tids s) = [7 \<mapsto> MainThreadTid, 8 \<mapsto> 1]" "\<not> inter_pro_wakeup_flag s"
    "status_of s 1 = Some RUNNABLE" using some_scene_two [OF b] by blast
  have dw: "dropWhile (stopped s) ([1] @ [MainThreadTid]) = [1, MainThreadTid]" using s(6) by (simp add: stopped_def)
  obtain s1 where s1: "putTurn opt MainThreadTid 7 False 0 s = Inr s1" "released opt s1"
     "\<not> inter_pro_wakeup_flag s1" "rq_tids (heap s1) (runq s1) = Inr [1, MainThreadTid]"
     "getTurn opt 1 s1 \<noteq> None" "status_of s1 = (status_of s)(MainThreadTid \<mapsto> RUNNABLE, 1 \<mapsto> RUNNING_REG)"
    using putTurn_round_robin [OF b s(1,2,5), of 7] unfolding dw by auto
  have w1: "waitq s1 = []" "tids s1 = tids s"
    using holding_put [OF b s(1), of 0 7] s1(1) s(3) by (auto simp: strategy_defs)
  obtain s2 where s2: "getTurn opt 1 s1 = Some s2" using s1(5) by blast
  have eq: "heap s2 = heap s1" "runq s2 = runq s1" "tids s2 = tids s1" "waitq s2 = waitq s1"
    "inter_pro_wakeup_flag s2 = inter_pro_wakeup_flag s1" using s2 by (auto simp: getTurn_def)
  then have st: "status_of s2 = status_of s1" by (simp add: status_of_def fun_eq_iff)
  have m: "(1 :: tid) \<noteq> MainThreadTid" by (simp add: MainThreadTid_def)
  have h2: "holding opt 1 s2"
    using inv_acquire [OF b _ s2, of "{}"] s1(2,6) st by (simp add: holding_def released_def)
  have "\<not> stopped s2 MainThreadTid" using st s1(6) m by (simp add: stopped_def)
  then have "can_leave opt 1 s2" using s1(4) eq by (simp add: can_leave_def ticked_def Let_def)
  moreover have "t_p_map (tids s2) 1 = Some 8"
    using h2 s(4) w1(2) eq(3) unfolding holding_def turn_inv_def tm_inv_def ids_ok_def
    by (metis fst_conv map_upd_Some_unfold)
  ultimately have "can_finish opt 1 8 s2" using m by (simp add: can_finish_def)
  then show thesis using that h2 s1 w1 eq st m by auto
qed

text \<open>The turn is free and passed to thread \<open>1\<close>, with the main thread behind it.\<close>

lemma some_scene_ready:
  assumes b: "basic opt"
  obtains s where "ready opt s [1, MainThreadTid]"
proof -
  obtain s where s: "holding opt MainThreadTid s" "rq_tids (heap s) (runq s) = Inr [MainThreadTid, 1]"
    "\<not> inter_pro_wakeup_flag s" "status_of s 1 = Some RUNNABLE" using some_scene_two [OF b] by blast
  have dw: "dropWhile (stopped s) ([1] @ [MainThreadTid]) = [1, MainThreadTid]" using s(4) by (simp add: stopped_def)
  obtain s1 where s1: "released opt s1" "\<not> inter_pro_wakeup_flag s1"
     "rq_tids (heap s1) (runq s1) = Inr [1, MainThreadTid]"
     "status_of s1 = (status_of s)(MainThreadTid \<mapsto> RUNNABLE, 1 \<mapsto> RUNNING_REG)"
    using putTurn_round_robin [OF b s(1-3), of 7] unfolding dw by auto
  then have "ready opt s1 [1, MainThreadTid]" by (auto simp: ready_def stopped_def MainThreadTid_def)
  then show thesis by (rule that)
qed

text \<open>Taking the turn changes nothing but who may take it.\<close>

lemma getTurn_frame:
  assumes b: "basic opt" and r: "released opt s" and g: "getTurn opt t s = Some s'"
    and st: "status_of s t = Some RUNNING_REG"
  shows "holding opt t s'" and "heap s' = heap s" and "runq s' = runq s" and "tids s' = tids s"
    and "waitq s' = waitq s" and "status_of s' = status_of s" and "turnCount s' = turnCount s"
    and "inter_pro_wakeup_flag s' = inter_pro_wakeup_flag s"
proof -
  show eq: "heap s' = heap s" "runq s' = runq s" "tids s' = tids s" "waitq s' = waitq s" "turnCount s' = turnCount s"
    "inter_pro_wakeup_flag s' = inter_pro_wakeup_flag s" using g by (auto simp: getTurn_def)
  then show "status_of s' = status_of s" by (simp add: status_of_def fun_eq_iff)
  then show "holding opt t s'" using inv_acquire [OF b _ g, of "{}"] r st by (simp add: holding_def released_def)
qed

text \<open>Thread \<open>1\<close> has ended: the main thread alone takes the turn, and thread \<open>1\<close> is a zombie.\<close>

lemma some_scene_ended:
  assumes b: "basic opt"
  obtains s s1 z where "holding opt 1 s" "can_finish opt 1 8 s" "finish_turn opt 1 8 s = Inr s1" "released opt s1"
    "getTurn opt MainThreadTid s1 = Some z" "holding opt MainThreadTid z" "tm_zombie 8 (tids z)"
    "rq_tids (heap z) (runq z) = Inr [MainThreadTid]"
proof -
  have p: "plain opt" using b by (simp add: basic_def)
  obtain s where s: "holding opt 1 s" "rq_tids (heap s) (runq s) = Inr [1, MainThreadTid]"
    "can_finish opt 1 8 s" "waitq s = []" "\<not> inter_pro_wakeup_flag s" using some_scene_second [OF b] by blast
  obtain ys where c: "core opt s 1 ys" "tm_inv (tids s)" "\<And>u. tokens opt (waits s u) = 0"
    "status_of s 1 = Some RUNNING_REG" using holdingD [OF s(1)] by metis
  have ys: "ys = [MainThreadTid]" using queues_tids [OF sinvD(1) [OF coreD(1) [OF c(1)]]] s(2) by simp
  have "inter_pro_wakeup_tids s = []" using coreD(2) [OF c(1)] s(5) by (simp add: wset_ok_def)
  then obtain s1 v us where s1: "finish_turn opt 1 8 s = Inr s1" "core opt s1 v us" "tm_zombie 8 (tids s1)"
     "insert v (set us) \<subseteq> {MainThreadTid}" "\<forall>u. tokens opt (waits s1 u) = (if u = v then 1 else 0)"
     "status_of s1 v = Some RUNNING_REG"
    using finish_turn_ok [OF b c s(3)] ys s(4) by auto
  have "distinct (v # us)" using sinv_threads(1) [OF coreD(1) [OF s1(2)]] by simp
  then have v: "v = MainThreadTid" "us = []" using s1(4) by (cases us; auto)+
  have r: "released opt s1" using holding_finish [OF b s(1,3)] s1(1) by auto
  have "getTurn opt MainThreadTid s1 \<noteq> None"
    using s1(5) v(1) tokens_simps(5) [OF p, of "inSync s1" "waits s1 MainThreadTid"] by (simp add: getTurn_def)
  then obtain z where z: "getTurn opt MainThreadTid s1 = Some z" by blast
  have "rq_tids (heap s1) (runq s1) = Inr [MainThreadTid]"
    using queues_tids [OF sinvD(1) [OF coreD(1) [OF s1(2)]]] v by simp
  then show thesis using that [OF s(1,3) s1(1) r z] getTurn_frame [OF b r z] s1(3,6) v(1) by simp
qed

text \<open>
  The main thread waits on channel \<open>ch\<close> with deadline \<open>n\<close>, and thread \<open>1\<close> has taken the turn, the
  first of the program.
\<close>

lemma some_scene_waiter:
  assumes b: "basic opt"
  obtains s where "holding opt 1 s" "rq_tids (heap s) (runq s) = Inr [1]" "waitq s = [MainThreadTid]"
    "chan (waits s MainThreadTid) = ch" "timeout (waits s MainThreadTid) = n" "turnCount s = 1"
    "\<not> inter_pro_wakeup_flag s" "status_of s MainThreadTid = Some RUNNABLE"
proof -
  have p: "plain opt" using b by (simp add: basic_def)
  have m: "MainThreadTid \<noteq> 1" by (simp add: MainThreadTid_def)
  obtain s where s: "holding opt MainThreadTid s" "rq_tids (heap s) (runq s) = Inr [MainThreadTid, 1]"
    "can_leave opt MainThreadTid s" "waitq s = []" "\<not> inter_pro_wakeup_flag s" "turnCount s = 0"
    "status_of s 1 = Some RUNNABLE" using some_scene_two [OF b] by blast
  obtain ys where c: "core opt s MainThreadTid ys" "status_of s MainThreadTid = Some RUNNING_REG"
    "\<And>u. tokens opt (waits s u) = 0" using holdingD [OF s(1)] by metis
  have ys: "ys = [1]" using queues_tids [OF sinvD(1) [OF coreD(1) [OF c(1)]]] s(2) by simp
  have e: "expired (s\<lparr>turnCount := turnCount s + 1\<rparr>) = []" using s(4) by (simp add: expired_def)
  have zs: "ticked opt s (MainThreadTid # ys) = MainThreadTid # [1]"
    using e ys s(5) by (simp add: ticked_def returning_def Let_def)
  have ns: "\<not> stopped s 1" using s(7) by (simp add: stopped_def)
  then have v: "(1, []) = successor s [1]" by (simp add: successor_def)
  obtain s1 where s1: "wait_begin opt MainThreadTid ch n s = Inr s1" "core opt s1 1 []" "turnCount s1 = 1"
     "waitq s1 = [MainThreadTid]" "waits s1 = ((waits s)(MainThreadTid := (waits s MainThreadTid)\<lparr>chan := ch, timeout := n\<rparr>))
        (1 := wt_post opt (waits s 1))" "\<not> inter_pro_wakeup_flag s1"
     "status_of s1 = (status_of s)(MainThreadTid \<mapsto> RUNNABLE, 1 \<mapsto> RUNNING_REG)"
    using wait_begin_ok [OF p c(1,2) basic_release [OF b] refl zs can_leaveD [OF c(1) s(3) zs] v, of ch n] e s(4,6) ns m
    by (auto simp: Let_def)
  have r: "released opt s1" using holding_wait [OF b s(1,3), of ch n] s1(1) by auto
  have "tokens opt (waits s1 1) = 1" using s1(5) c(3) tokens_simps(1) [OF p] by simp
  then obtain s2 where s2: "getTurn opt 1 s1 = Some s2"
    using tokens_simps(5) [OF p, of "inSync s1" "waits s1 1"] by (auto simp: getTurn_def split: option.splits)
  have w2: "waits s2 MainThreadTid = waits s1 MainThreadTid" using s2 m by (auto simp: getTurn_def)
  have "rq_tids (heap s1) (runq s1) = Inr [1]" using queues_tids [OF sinvD(1) [OF coreD(1) [OF s1(2)]]] .
  then show thesis using that [of s2] getTurn_frame [OF b r s2] s1 w2 m by simp
qed

text \<open>
  The same once the deadline, turn \<open>0\<close>, has passed: thread \<open>1\<close> has finished its turn, and the main
  thread is back with the turn and the news that its wait has timed out.
\<close>

lemma some_scene_timed_out:
  assumes b: "basic opt"
  obtains s where "holding opt MainThreadTid s" "rq_tids (heap s) (runq s) = Inr [MainThreadTid, 1]"
    "wait_end MainThreadTid s = TIMEDOUT" "can_leave opt MainThreadTid s" "waitq s = []" "turnCount s = 2"
proof -
  have p: "plain opt" using b by (simp add: basic_def)
  have m: "MainThreadTid \<noteq> 1" by (simp add: MainThreadTid_def)
  obtain s where s: "holding opt 1 s" "rq_tids (heap s) (runq s) = Inr [1]" "waitq s = [MainThreadTid]"
    "timeout (waits s MainThreadTid) = 0" "turnCount s = 1" "\<not> inter_pro_wakeup_flag s"
    "status_of s MainThreadTid = Some RUNNABLE" using some_scene_waiter [OF b] by blast
  obtain ys where c: "core opt s 1 ys" "status_of s 1 = Some RUNNING_REG" using holdingD [OF s(1)] by metis
  have ys: "ys = []" using queues_tids [OF sinvD(1) [OF coreD(1) [OF c(1)]]] s(2) by simp
  have e: "expired (s\<lparr>turnCount := turnCount s + 1\<rparr>) = [MainThreadTid]" using s(3-5) by (simp add: expired_def)
  have zs: "ticked opt s (1 # ys) = 1 # [MainThreadTid]"
    using e ys s(6) by (simp add: ticked_def returning_def Let_def)
  obtain s1 where s1: "incTurnCount opt s = Inr (1, s1)" "core opt s1 1 [MainThreadTid]" "turnCount s1 = 2" "waitq s1 = []"
     "wake_reason (waits s1 MainThreadTid) = TIMEDOUT" "\<not> inter_pro_wakeup_flag s1" "status_of s1 = status_of s"
    using incTurnCount_core [OF p c(1) refl] e zs s(3,5) by auto
  have h1: "holding opt 1 s1" using holding_tick [OF b s(1)] s1(1) by auto
  have q1: "rq_tids (heap s1) (runq s1) = Inr (1 # [MainThreadTid])"
    using queues_tids [OF sinvD(1) [OF coreD(1) [OF s1(2)]]] .
  have dw: "dropWhile (stopped s1) ([MainThreadTid] @ [1]) = [MainThreadTid, 1]"
    using s1(7) s(7) by (simp add: stopped_def)
  obtain s2 where s2: "putTurn opt 1 8 False 0 s1 = Inr s2" "released opt s2"
     "rq_tids (heap s2) (runq s2) = Inr [MainThreadTid, 1]" "getTurn opt MainThreadTid s2 \<noteq> None"
     "status_of s2 = (status_of s1)(1 \<mapsto> RUNNABLE, MainThreadTid \<mapsto> RUNNING_REG)"
    using putTurn_round_robin [OF b h1 q1 s1(6), of 8] unfolding dw by auto
  have "wake_reason (waits s2 u) = wake_reason (waits s1 u)" for u
  proof -
    obtain v where "waits s2 = (waits s1)(v := wt_post opt (waits s1 v))"
      using putTurn_ok [OF p s1(2) _ _ basic_release [OF b], of 0 8] s2(1) c(2) s1(7) by (auto simp: strategy_defs)
    then show ?thesis by (simp add: wt_post_def)
  qed
  moreover have "waitq s2 = []" "turnCount s2 = 2"
    using holding_put [OF b h1, of 0 8] s2(1) s1(3,4) by (auto simp: strategy_defs)
  moreover obtain z where z: "getTurn opt MainThreadTid s2 = Some z" using s2(4) by blast
  moreover have "wake_reason (waits z u) = wake_reason (waits s2 u)" for u
    using z by (auto simp: getTurn_def wt_wait_def split: if_splits)
  moreover have "status_of s2 MainThreadTid = Some RUNNING_REG" "\<not> stopped s2 1"
    using s2(5) m by (simp_all add: stopped_def)
  moreover from this have "can_leave opt MainThreadTid z"
    using getTurn_frame [OF b s2(2) z] s2(3) by (auto simp: can_leave_def ticked_def stopped_def Let_def)
  ultimately show thesis using that [of z] getTurn_frame [OF b s2(2) z] s2(3) s1(5) by (simp add: wait_end_def)
qed

text \<open>The same with the options as the program ships them.\<close>

lemmas scene_start = some_scene_start [OF basic_default]
  and scene_two = some_scene_two [OF basic_default]
  and scene_second = some_scene_second [OF basic_default]
  and scene_ready = some_scene_ready [OF basic_default]
  and scene_ended = some_scene_ended [OF basic_default]
  and scene_waiter = some_scene_waiter [OF basic_default]
  and scene_timed_out = some_scene_timed_out [OF basic_default]

end
