(* ===== verification/ObjectProperties.thy ===== *)
theory ObjectProperties
  imports Scenario
begin

text \<open>
  The properties of the synchronization objects of \<open>record-runtime.cpp\<close>: locks, condition
  variables, semaphores, barriers and line-ups. Each is stated for a thread that holds the turn,
  on the segment of the operation that runs under it.
\<close>

lemma settled_objects [simp]:
  "settled t (r\<lparr>mutexes := a\<rparr>) = settled t r" "settled t (r\<lparr>sems := b\<rparr>) = settled t r"
  "settled t (r\<lparr>barriers := c\<rparr>) = settled t r" "settled t (r\<lparr>refcnt_bars := d\<rparr>) = settled t r"
  by (simp_all add: settled_def)

text \<open>A runtime state in which a thread, or the main thread, owns the mutex at address \<open>5\<close>.\<close>

abbreviation owned_rt :: "tid \<Rightarrow> sched \<Rightarrow> rt" where
  "owned_rt t s \<equiv> (rt_new s)\<lparr>mutexes := (mutexes (rt_new s))(5 := \<lparr>m_kind = MNormal, m_owner = Some t, m_count = 1\<rparr>)\<rparr>"

abbreviation locked_rt :: "sched \<Rightarrow> rt" where
  "locked_rt s \<equiv> owned_rt MainThreadTid s"

section \<open>Locks\<close>

text \<open>
  C9. A mutex or read-write lock operation that gets the turn either finds the lock free, takes
  it and returns \<open>0\<close> with the caller's \<open>errno\<close>, or changes no object and waits for
  the lock without a deadline. In both cases the turn is passed on.
\<close>

theorem lock_takes_or_waits:
  assumes "basic opt" and "\<not> wakeamap_plus opt" and "holding opt t (sch r)" and "settled t r"
    and "can_leave opt t (sch r)"
  shows "if fst (try_acquire t l r) = 0
     then \<exists>r'. lock_turn opt t lop ins error l r = Inr (Done 0 error, r') \<and> released opt (sch r') \<and>
       objects r' = objects (snd (try_acquire t l r))
     else \<exists>r'. lock_turn opt t lop ins error l r = Inr (Await (PRetry lop ins error l FOREVER), r') \<and>
       released opt (sch r') \<and> objects r' = objects r \<and> t \<in> set (waitq (sch r')) \<and>
       chan (waits (sch r') t) = lock_addr l \<and> timeout (waits (sch r') t) = FOREVER"
proof (cases "fst (try_acquire t l r) = 0")
  case True
  then show ?thesis using lock_turn_got [OF assms(1-4) True, of lop ins error] by simp
next
  case False
  then show ?thesis using lock_turn_busy [OF assms(1,3-5) False, of lop ins error] by simp
qed

theorem lock_takes_or_waits_witness:
  "\<exists>r r'. holding default_options MainThreadTid (sch r) \<and>
     lock_turn default_options MainThreadTid OpMutexLock 0 3 (LMutex 5) r = Inr (Done 0 3, r') \<and>
     m_owner (mutexes r' 5) = Some MainThreadTid"
proof -
  obtain s where s: "holding default_options MainThreadTid s" "can_leave default_options MainThreadTid s"
    using scene_two by blast
  have f: "try_acquire MainThreadTid (LMutex 5) (rt_new s) =
     (0, locked_rt s)"
    by (simp add: try_acquire_def posix_mutex_trylock_def Let_def)
  obtain r' where "lock_turn default_options MainThreadTid OpMutexLock 0 3 (LMutex 5) (rt_new s) = Inr (Done 0 3, r')"
     "objects r' = objects (snd (try_acquire MainThreadTid (LMutex 5) (rt_new s)))"
    using lock_takes_or_waits [OF basic_default, of MainThreadTid "rt_new s" "LMutex 5" OpMutexLock 0 3] s f by auto
  then show ?thesis using s f by (intro exI [of _ "rt_new s"] exI [of _ r']) (simp add: objects_def)
qed

text \<open>
  C10. Unlocking a mutex frees it, returns \<open>0\<close>, and takes the thread that has waited longest
  for it off the wait queue; no other mutex changes and the turn is passed on.
\<close>

theorem unlock_frees_and_wakes:
  assumes "basic opt" and "\<not> wakeamap_plus opt" and "holding opt t (sch r)" and "settled t r"
    and "m_owner (mutexes r mu) = Some t" and "m_count (mutexes r mu) \<le> 1" and "mu \<noteq> 0"
  shows "\<exists>r'. mutex_unlock_turn opt t ins error mu r = Inr (Done 0 error, r') \<and> released opt (sch r') \<and>
     mutexes r' = (mutexes r)(mu := (mutexes r mu)\<lparr>m_owner := None, m_count := 0\<rparr>) \<and>
     (\<forall>u us. filter (\<lambda>u. chan (waits (sch r) u) = mu) (waitq (sch r)) = u # us \<longrightarrow> u \<notin> set (waitq (sch r')))"
proof -
  obtain r' where r': "mutex_unlock_turn opt t ins error mu r = Inr (Done 0 error, r')" "released opt (sch r')"
     "mutexes r' = (mutexes r)(mu := (mutexes r mu)\<lparr>m_owner := None, m_count := 0\<rparr>)"
     "set (waitq (sch r')) \<inter> set (signalled mu False (sch r)) = {}"
    using mutex_unlock_turn_ok [OF assms, of ins error] by blast
  then show ?thesis by (auto simp: signalled_first)
qed

theorem unlock_frees_and_wakes_witness:
  "\<exists>r r'. holding default_options 1 (sch r) \<and> m_owner (mutexes r 5) = Some 1 \<and> waitq (sch r) = [MainThreadTid] \<and>
     mutex_unlock_turn default_options 1 0 3 5 r = Inr (Done 0 3, r') \<and> m_owner (mutexes r' 5) = None \<and>
     MainThreadTid \<notin> set (waitq (sch r'))"
proof -
  obtain s where s: "holding default_options 1 s" "waitq s = [MainThreadTid]" "chan (waits s MainThreadTid) = 5"
    using scene_waiter by blast
  let ?r = "owned_rt 1 s"
  obtain r' where "mutex_unlock_turn default_options 1 0 3 5 ?r = Inr (Done 0 3, r')"
     "m_owner (mutexes r' 5) = None" "MainThreadTid \<notin> set (waitq (sch r'))"
    using unlock_frees_and_wakes [OF basic_default, of 1 ?r 5 0 3] s by auto
  then show ?thesis using s by (intro exI [of _ ?r] exI [of _ r']) simp
qed

text \<open>
  C11. A timed lock never times out. Whenever a thread waiting in \<open>pthread_mutex_timedlock\<close> (or in
  one of the other blocking lock operations) runs again, its deadline passed or not and whether it
  was signalled or timed out: if the lock is free it takes it and returns \<open>0\<close>; if not, it changes
  no object and is back on the wait queue for the lock with the same deadline. No run of it
  returns \<open>ETIMEDOUT\<close>, or anything else than \<open>0\<close>. The library promises \<open>ETIMEDOUT\<close>, and
  \<open>test/runtime/timeout-test.cpp\<close> asserts it; the helpers do compare with \<open>ETIMEDOUT\<close>, but what
  they compare is the scheduler's wake reason, \<open>0\<close> or \<open>1\<close>.
\<close>

theorem timed_lock_never_times_out:
  assumes "basic opt" and "\<not> wakeamap_plus opt" and "holding opt t (sch r)" and "can_leave opt t (sch r)"
  shows "(if fst (try_acquire t l r) = 0
     then \<exists>r'. lock_retry_turn opt t lop ins error l limit r = Inr (Done 0 (errno (tls_of r t)), r') \<and>
       released opt (sch r') \<and> objects r' = objects (snd (try_acquire t l r))
     else \<exists>r'. lock_retry_turn opt t lop ins error l limit r = Inr (Await (PRetry lop ins error l limit), r') \<and>
       released opt (sch r') \<and> objects r' = objects r \<and> t \<in> set (waitq (sch r')) \<and>
       chan (waits (sch r') t) = lock_addr l \<and> timeout (waits (sch r') t) = limit) \<and>
     (\<forall>r ret e r'. lock_retry_turn opt t lop ins error l limit r = Inr (Done ret e, r') \<longrightarrow> ret = 0)"
proof (rule conjI)
  show "\<forall>r ret e r'. lock_retry_turn opt t lop ins error l limit r = Inr (Done ret e, r') \<longrightarrow> ret = 0"
    using lock_retry_result by blast
qed (use lock_retry_got [OF assms(1-3), of l lop ins error limit] lock_retry_busy [OF assms(1,3,4), of l lop ins error limit] in simp)

theorem timed_lock_never_times_out_witness:
  "\<exists>r r'. wait_end MainThreadTid (sch r) = TIMEDOUT \<and> 1 < turnCount (sch r) \<and> m_owner (mutexes r 5) = Some 1 \<and>
     lock_retry_turn default_options MainThreadTid OpMutexTimedLock 0 3 (LMutex 5) 1 r =
       Inr (Await (PRetry OpMutexTimedLock 0 3 (LMutex 5) 1), r') \<and>
     MainThreadTid \<in> set (waitq (sch r')) \<and> timeout (waits (sch r') MainThreadTid) = 1"
proof -
  obtain s where s: "holding default_options MainThreadTid s" "can_leave default_options MainThreadTid s"
    "wait_end MainThreadTid s = TIMEDOUT" "turnCount s = 2" using scene_timed_out by blast
  let ?r = "owned_rt 1 s"
  have f: "fst (try_acquire MainThreadTid (LMutex 5) ?r) \<noteq> 0"
    by (simp add: try_acquire_def posix_mutex_trylock_def EBUSY_def Let_def)
  obtain r' where "lock_retry_turn default_options MainThreadTid OpMutexTimedLock 0 3 (LMutex 5) 1 ?r =
       Inr (Await (PRetry OpMutexTimedLock 0 3 (LMutex 5) 1), r')"
     "MainThreadTid \<in> set (waitq (sch r'))" "timeout (waits (sch r') MainThreadTid) = 1"
    using timed_lock_never_times_out [OF basic_default, of MainThreadTid ?r "LMutex 5" OpMutexTimedLock 0 3 1] s f by auto
  then show ?thesis using s by (intro exI [of _ ?r] exI [of _ r']) simp
qed

section \<open>Condition variables\<close>

text \<open>
  C12. Waiting on a condition variable is atomic: in one turn the thread releases the mutex,
  is counted as a waiter and joins the wait queue on the variable, so that no signal can fall
  between the two.
\<close>

theorem cond_wait_atomic:
  assumes "basic opt" and "\<not> wakeamap_plus opt" and "holding opt t (sch r)" and "settled t r"
    and "can_leave opt t (sch r)" and "mu \<noteq> 0"
    and "m_owner (mutexes r mu) = Some t" and "m_count (mutexes r mu) \<le> 1"
  shows "\<exists>r'. cond_wait_turn opt t ins error cv mu caller r = Inr (Await (PCondWoken ins error cv mu), r') \<and>
     released opt (sch r') \<and> m_owner (mutexes r' mu) = None \<and> cond_map r' cv = cond_map r cv + 1 \<and>
     t \<in> set (waitq (sch r')) \<and> chan (waits (sch r') t) = cv \<and> timeout (waits (sch r') t) = FOREVER"
  using cond_wait_turn_ok [OF assms, of ins error cv caller] by blast

theorem cond_wait_atomic_witness:
  "\<exists>r r'. holding default_options MainThreadTid (sch r) \<and> m_owner (mutexes r 5) = Some MainThreadTid \<and>
     cond_wait_turn default_options MainThreadTid 0 3 6 5 0 r = Inr (Await (PCondWoken 0 3 6 5), r') \<and>
     m_owner (mutexes r' 5) = None \<and> MainThreadTid \<in> set (waitq (sch r')) \<and> chan (waits (sch r') MainThreadTid) = 6"
proof -
  obtain s where s: "holding default_options MainThreadTid s" "can_leave default_options MainThreadTid s"
    using scene_two by blast
  obtain r' where "cond_wait_turn default_options MainThreadTid 0 3 6 5 0 (locked_rt s) = Inr (Await (PCondWoken 0 3 6 5), r')"
     "m_owner (mutexes r' 5) = None" "MainThreadTid \<in> set (waitq (sch r'))" "chan (waits (sch r') MainThreadTid) = 6"
    using cond_wait_atomic [OF basic_default, of MainThreadTid "locked_rt s" 5 0 3 6 0] s by auto
  then show ?thesis using s by (intro exI [of _ "locked_rt s"] exI [of _ r']) simp
qed

text \<open>
  C13. A thread woken from a condition variable returns only when it owns the mutex again: if the
  mutex is free it takes it and returns \<open>0\<close>, otherwise it waits for the mutex.
\<close>

theorem cond_woken_owns_mutex:
  assumes "basic opt" and "\<not> wakeamap_plus opt" and "holding opt t (sch r)" and "can_leave opt t (sch r)"
    and "m_kind (mutexes r mu) \<noteq> MRecursive"
  shows "if m_owner (mutexes r mu) = None
     then \<exists>r'. cond_woken_turn opt t ins error cv mu r = Inr (Done 0 error, r') \<and> released opt (sch r') \<and>
       m_owner (mutexes r' mu) = Some t
     else \<exists>r'. cond_woken_turn opt t ins error cv mu r = Inr (Await (PCondRelock ins cv mu), r') \<and>
       released opt (sch r') \<and> t \<in> set (waitq (sch r')) \<and> chan (waits (sch r') t) = mu"
proof (cases "m_owner (mutexes r mu) = None")
  case True
  then show ?thesis using cond_woken_got [OF assms(1-3) True, of ins error cv] by simp
next
  case False
  let ?r = "set_errno t error r"
  have mx: "mutexes ?r = mutexes r" by (simp add: set_errno_def upd_tls_def)
  have f: "fst (try_acquire t (LMutex mu) ?r) \<noteq> 0"
    using False assms(5) mx by (simp add: try_acquire_def posix_mutex_trylock_def EBUSY_def Let_def)
  have h: "holding opt t (sch ?r)" "can_leave opt t (sch ?r)" using assms(3,4) by simp_all
  show ?thesis using lock_try_busy [OF assms(1) h f, of FOREVER] False
    by (auto simp: cond_woken_turn_def cond_relock_def lock_addr_def)
qed

theorem cond_woken_owns_mutex_witness:
  "\<exists>r r'. holding default_options MainThreadTid (sch r) \<and>
     cond_woken_turn default_options MainThreadTid 0 3 6 5 r = Inr (Done 0 3, r') \<and>
     m_owner (mutexes r' 5) = Some MainThreadTid"
proof -
  obtain s where s: "holding default_options MainThreadTid s" "can_leave default_options MainThreadTid s"
    using scene_two by blast
  then obtain r' where "cond_woken_turn default_options MainThreadTid 0 3 6 5 (rt_new s) = Inr (Done 0 3, r')"
     "m_owner (mutexes r' 5) = Some MainThreadTid"
    using cond_woken_owns_mutex [OF basic_default, of MainThreadTid "rt_new s" 5 0 3 6] by auto
  then show ?thesis using s by (intro exI [of _ "rt_new s"] exI [of _ r']) simp
qed

text \<open>
  C14. Signalling a condition variable takes the thread that has waited longest on it off the
  wait queue and lowers the count of its waiters, but never below zero; the turn is passed on.
\<close>

theorem cond_signal_wakes_first:
  assumes "basic opt" and "\<not> wakeamap_plus opt" and "holding opt t (sch r)" and "settled t r" and "cv \<noteq> 0"
  shows "\<exists>r'. cond_signal_turn opt t ins error cv r = Inr (Done 0 error, r') \<and> released opt (sch r') \<and>
     (\<forall>u us. filter (\<lambda>u. chan (waits (sch r) u) = cv) (waitq (sch r)) = u # us \<longrightarrow> u \<notin> set (waitq (sch r'))) \<and>
     cond_map r' cv = (if cond_map r cv > 0 then cond_map r cv - 1 else cond_map r cv)"
proof -
  obtain r' where r': "cond_signal_turn opt t ins error cv r = Inr (Done 0 error, r')" "released opt (sch r')"
     "set (waitq (sch r')) \<inter> set (signalled cv False (sch r)) = {}"
     "cond_map r' cv = (if cond_map r cv > 0 then cond_map r cv - 1 else cond_map r cv)"
    using cond_signal_turn_ok [OF assms, of ins error] by blast
  then show ?thesis by (auto simp: signalled_first)
qed

theorem cond_signal_wakes_first_witness:
  "\<exists>r r'. holding default_options 1 (sch r) \<and> waitq (sch r) = [MainThreadTid] \<and>
     cond_signal_turn default_options 1 0 3 6 r = Inr (Done 0 3, r') \<and> released default_options (sch r') \<and>
     MainThreadTid \<notin> set (waitq (sch r'))"
proof -
  obtain s where s: "holding default_options 1 s" "waitq s = [MainThreadTid]" "chan (waits s MainThreadTid) = 6"
    using scene_waiter by blast
  then obtain r' where "cond_signal_turn default_options 1 0 3 6 (rt_new s) = Inr (Done 0 3, r')"
     "released default_options (sch r')" "MainThreadTid \<notin> set (waitq (sch r'))"
    using cond_signal_wakes_first [OF basic_default, of 1 "rt_new s" 6 0 3] by auto
  then show ?thesis using s by (intro exI [of _ "rt_new s"] exI [of _ r']) simp
qed

section \<open>Semaphores\<close>

text \<open>
  C15. Waiting on a semaphore takes one unit of a positive semaphore and returns \<open>0\<close>; on a
  semaphore that is zero it leaves the value alone, is counted as a waiter and waits on it.
\<close>

theorem sem_wait_takes_or_waits:
  assumes "basic opt" and "\<not> wakeamap_plus opt" and "holding opt t (sch r)" and "can_leave opt t (sch r)"
  shows "if sems r sp > 0
     then \<exists>r'. sem_wait_loop opt t ins error sp r = Inr (Done 0 error, r') \<and> released opt (sch r') \<and>
       sems r' = (sems r)(sp := sems r sp - 1) \<and> sem_map r' = sem_map r
     else \<exists>r'. sem_wait_loop opt t ins error sp r = Inr (Await (PSemRetry ins error sp), r') \<and> released opt (sch r') \<and>
       sems r' = sems r \<and> sem_map r' = (sem_map r)(sp := sem_map r sp + 1) \<and>
       t \<in> set (waitq (sch r')) \<and> chan (waits (sch r') t) = sp"
  using sem_wait_got [OF assms(1-3), of sp ins error] sem_wait_blocked [OF assms(1,3,4), of sp ins error] by simp

theorem sem_wait_takes_or_waits_witness:
  "\<exists>r r'. holding default_options MainThreadTid (sch r) \<and> sems r 4 = 0 \<and>
     sem_wait_loop default_options MainThreadTid 0 3 4 r = Inr (Await (PSemRetry 0 3 4), r') \<and>
     MainThreadTid \<in> set (waitq (sch r'))"
proof -
  obtain s where s: "holding default_options MainThreadTid s" "can_leave default_options MainThreadTid s"
    using scene_two by blast
  then obtain r' where "sem_wait_loop default_options MainThreadTid 0 3 4 (rt_new s) = Inr (Await (PSemRetry 0 3 4), r')"
     "MainThreadTid \<in> set (waitq (sch r'))"
    using sem_wait_takes_or_waits [OF basic_default, of MainThreadTid "rt_new s" 4 0 3] by auto
  then show ?thesis using s by (intro exI [of _ "rt_new s"] exI [of _ r']) simp
qed

text \<open>
  Posting a semaphore adds one unit, takes the thread that has waited longest on it off the
  wait queue, and lowers the count of waiters, but never below zero.
\<close>

lemma sem_post_wakes_first:
  assumes "basic opt" and "\<not> wakeamap_plus opt" and "holding opt t (sch r)" and "settled t r"
    and "sp \<noteq> 0" and "sems r sp < SEM_VALUE_MAX"
  shows "\<exists>r'. sem_post_turn opt t ins error sp r = Inr (Done 0 error, r') \<and> released opt (sch r') \<and>
     sems r' = (sems r)(sp := sems r sp + 1) \<and>
     (\<forall>u us. filter (\<lambda>u. chan (waits (sch r) u) = sp) (waitq (sch r)) = u # us \<longrightarrow> u \<notin> set (waitq (sch r'))) \<and>
     sem_map r' sp = (if sem_map r sp > 0 then sem_map r sp - 1 else sem_map r sp)"
proof -
  obtain r' where r': "sem_post_turn opt t ins error sp r = Inr (Done 0 error, r')" "released opt (sch r')"
     "sems r' = (sems r)(sp := sems r sp + 1)" "set (waitq (sch r')) \<inter> set (signalled sp False (sch r)) = {}"
     "sem_map r' sp = (if sem_map r sp > 0 then sem_map r sp - 1 else sem_map r sp)"
    using sem_post_turn_ok [OF assms, of ins error] by blast
  then show ?thesis by (auto simp: signalled_first)
qed

lemma sem_post_wakes_first_witness:
  "\<exists>r r'. holding default_options MainThreadTid (sch r) \<and>
     sem_post_turn default_options MainThreadTid 0 3 4 r = Inr (Done 0 3, r') \<and> sems r' 4 = 1"
proof -
  obtain s where s: "holding default_options MainThreadTid s" using scene_two by blast
  then obtain r' where "sem_post_turn default_options MainThreadTid 0 3 4 (rt_new s) = Inr (Done 0 3, r')" "sems r' 4 = 1"
    using sem_post_wakes_first [OF basic_default, of MainThreadTid "rt_new s" 4 0 3] by (auto simp: SEM_VALUE_MAX_def)
  then show ?thesis using s by (intro exI [of _ "rt_new s"] exI [of _ r']) simp
qed

section \<open>Barriers and line-ups\<close>

text \<open>
  C17. A barrier. A thread that arrives before the last one is counted and waits on the barrier,
  to return \<open>0\<close>. The last one wakes everybody who waits on it, resets the count for the next
  round, and is to return \<open>PTHREAD_BARRIER_SERIAL_THREAD\<close>. The count stays between zero and
  the number of awaited threads.
\<close>

theorem barrier_round:
  assumes "basic opt" and "holding opt t (sch r)" and "settled t r" and "can_leave opt t (sch r)"
    and "barriers r ba = Some x" and "0 \<le> b_narrived x" and "b_narrived x < b_count x" and "ba \<noteq> 0"
  shows "\<exists>ret r' x'. barrier_wait_turn opt t ins error ba r = Inr (Await (PBarLeave ins error ba ret), r') \<and>
     released opt (sch r') \<and> barriers r' ba = Some x' \<and> 0 \<le> b_narrived x' \<and> b_narrived x' < b_count x' \<and>
     b_count x' = b_count x \<and>
     (if b_narrived x + 1 = b_count x
      then ret = PTHREAD_BARRIER_SERIAL_THREAD \<and> b_narrived x' = 0 \<and>
        (\<forall>u \<in> set (waitq (sch r')). chan (waits (sch r') u) \<noteq> ba)
      else ret = 0 \<and> b_narrived x' = b_narrived x + 1 \<and> t \<in> set (waitq (sch r')) \<and> chan (waits (sch r') t) = ba)"
proof -
  have ok: "barrier_ok x" using assms(6,7) by (simp add: barrier_ok_def)
  show ?thesis
  proof (cases "b_narrived x + 1 = b_count x")
    case True
    then show ?thesis
      using barrier_wait_last [OF assms(1-5) ok True assms(8), of ins error] by (auto simp: barrier_ok_def)
  next
    case False
    then have "b_narrived x + 1 < b_count x" using assms(7) by simp
    from barrier_wait_early [OF assms(1-5) ok this, of ins error] show ?thesis
      using False by (auto simp: barrier_ok_def)
  qed
qed

theorem barrier_round_witness:
  "\<exists>r r' x'. barriers r 6 = Some \<lparr>b_count = 2, b_narrived = 1\<rparr> \<and>
     barrier_wait_turn default_options MainThreadTid 0 3 6 r =
       Inr (Await (PBarLeave 0 3 6 PTHREAD_BARRIER_SERIAL_THREAD), r') \<and>
     barriers r' 6 = Some x' \<and> b_narrived x' = 0"
proof -
  obtain s where s: "holding default_options MainThreadTid s" "can_leave default_options MainThreadTid s"
    using scene_two by blast
  let ?r = "(rt_new s)\<lparr>barriers := [6 \<mapsto> \<lparr>b_count = 2, b_narrived = 1\<rparr>]\<rparr>"
  obtain r' x' where "barrier_wait_turn default_options MainThreadTid 0 3 6 ?r =
       Inr (Await (PBarLeave 0 3 6 PTHREAD_BARRIER_SERIAL_THREAD), r')" "barriers r' 6 = Some x'" "b_narrived x' = 0"
    using barrier_round [OF basic_default, of MainThreadTid ?r 6 "\<lparr>b_count = 2, b_narrived = 1\<rparr>" 0 3] s by auto
  then show ?thesis by (intro exI [of _ ?r] exI [of _ r'] exI [of _ x']) simp
qed

text \<open>
  C18. A line-up. The last of the awaited threads opens it, wakes everybody who waits, and goes
  on at once; an earlier one waits, at most for the number of turns the line-up was given.
\<close>

theorem lineup_start_cases:
  assumes "basic opt" and "\<not> wakeamap_plus opt" and "holding opt t (sch r)" and "settled t r"
    and "can_leave opt t (sch r)" and "refcnt_bars r (bar_key ot) = Some x" and "rb_phase x = ARRIVING" and "rb_addr x \<noteq> 0"
  shows "if rb_nactive x + 1 = rb_count x
     then \<exists>r' x'. lineup_start_turn opt t ot r = Inr (Done 0 0, r') \<and> released opt (sch r') \<and>
       refcnt_bars r' (bar_key ot) = Some x' \<and> rb_phase x' = LEAVING \<and> rb_nactive x' = rb_count x \<and>
       (\<forall>u \<in> set (waitq (sch r)). chan (waits (sch r) u) = rb_addr x \<longrightarrow> u \<notin> set (waitq (sch r')))
     else \<exists>r'. lineup_start_turn opt t ot r = Inr (Await (PLineupWoken ot (rb_addr x)), r') \<and> released opt (sch r') \<and>
       t \<in> set (waitq (sch r')) \<and> chan (waits (sch r') t) = rb_addr x \<and>
       timeout (waits (sch r') t) = getTurnCount (sch r) + rb_timeout x"
proof (cases "rb_nactive x + 1 = rb_count x")
  case True
  from lineup_start_opens [OF assms(1-4,6,7) True assms(8)] show ?thesis
    using True by (simp add: signalled_def woken_def) blast
next
  case False
  from lineup_start_waits [OF assms(1,3-7) False] show ?thesis
    using False by simp
qed

theorem lineup_start_cases_witness:
  "\<exists>r r' x'. lineup_start_turn default_options MainThreadTid 9 r = Inr (Done 0 0, r') \<and>
     refcnt_bars r (bar_key 9) = Some \<lparr>rb_addr = 6, rb_count = 2, rb_nactive = 1, rb_timeout = 20, rb_phase = ARRIVING,
       rb_nSuccess = 0, rb_nTimeout = 0\<rparr> \<and> refcnt_bars r' (bar_key 9) = Some x' \<and> rb_phase x' = LEAVING"
proof -
  obtain s where s: "holding default_options MainThreadTid s" "can_leave default_options MainThreadTid s"
    using scene_two by blast
  let ?x = "\<lparr>rb_addr = 6, rb_count = 2, rb_nactive = 1, rb_timeout = 20, rb_phase = ARRIVING, rb_nSuccess = 0, rb_nTimeout = 0\<rparr>"
  let ?r = "(rt_new s)\<lparr>refcnt_bars := [bar_key 9 \<mapsto> ?x]\<rparr>"
  obtain r' x' where "lineup_start_turn default_options MainThreadTid 9 ?r = Inr (Done 0 0, r')"
     "refcnt_bars r' (bar_key 9) = Some x'" "rb_phase x' = LEAVING"
    using lineup_start_cases [OF basic_default, of MainThreadTid ?r 9 ?x] s by auto
  then show ?thesis by (intro exI [of _ ?r] exI [of _ r'] exI [of _ x']) simp
qed

text \<open>
  A line-up that timed out with threads missing opens for the threads that came: the first
  of them to run wakes the others and all go on.
\<close>

lemma lineup_timeout_opens:
  assumes "basic opt" and "\<not> wakeamap_plus opt" and "holding opt t (sch r)"
    and "refcnt_bars r (bar_key ot) = Some x" and "rb_phase x = ARRIVING" and "rb_nactive x < rb_count x"
    and "rb_addr x \<noteq> 0"
  shows "\<exists>r' x'. lineup_woken_turn opt t ot (rb_addr x) r = Inr (Done 0 0, r') \<and> released opt (sch r') \<and>
     refcnt_bars r' (bar_key ot) = Some x' \<and> rb_phase x' = LEAVING \<and> rb_nactive x' = rb_nactive x \<and>
     (\<forall>u \<in> set (waitq (sch r)). chan (waits (sch r) u) = rb_addr x \<longrightarrow> u \<notin> set (waitq (sch r')))"
  using lineup_woken_opens [OF assms] by (simp add: signalled_def woken_def) blast

lemma lineup_timeout_opens_witness:
  "\<exists>r r' x'. lineup_woken_turn default_options MainThreadTid 9 6 r = Inr (Done 0 0, r') \<and>
     refcnt_bars r (bar_key 9) = Some \<lparr>rb_addr = 6, rb_count = 3, rb_nactive = 1, rb_timeout = 20, rb_phase = ARRIVING,
       rb_nSuccess = 0, rb_nTimeout = 0\<rparr> \<and> refcnt_bars r' (bar_key 9) = Some x' \<and> rb_phase x' = LEAVING"
proof -
  obtain s where s: "holding default_options MainThreadTid s" using scene_two by blast
  let ?x = "\<lparr>rb_addr = 6, rb_count = 3, rb_nactive = 1, rb_timeout = 20, rb_phase = ARRIVING, rb_nSuccess = 0, rb_nTimeout = 0\<rparr>"
  let ?r = "(rt_new s)\<lparr>refcnt_bars := [bar_key 9 \<mapsto> ?x]\<rparr>"
  obtain r' x' where "lineup_woken_turn default_options MainThreadTid 9 6 ?r = Inr (Done 0 0, r')"
     "refcnt_bars r' (bar_key 9) = Some x'" "rb_phase x' = LEAVING"
    using lineup_timeout_opens [OF basic_default, of MainThreadTid ?r 9 ?x] s by auto
  then show ?thesis by (intro exI [of _ ?r] exI [of _ r'] exI [of _ x']) simp
qed

end
