(* ===== verification/ThreadProperties.thy ===== *)
theory ThreadProperties
  imports Scenario
begin

text \<open>
  The properties of threads and of blocking calls: creation, end and join, the policy under which
  a thread keeps the turn, and the way out of the schedule and back around a system call.
\<close>

section \<open>Threads\<close>

text \<open>
  C20. The creation handshake. The creator registers the new thread under the next free
  identifier and passes the turn on, provided the library's \<open>pthread_create\<close> succeeded; the new
  thread finds exactly that identifier for its handle; then, and not before (with no other post to
  \<open>thread_begin_done_sem\<close> it is blocked until then), the creator returns \<open>0\<close>, and the two
  semaphores of the handshake are back at their values.
\<close>

theorem create_hands_over_tid:
  assumes "basic opt" and "\<not> wakeamap_plus opt" and "holding opt t (sch r)" and "settled t r"
    and "p_t_map (tids (sch r)) th = None" and "nthread (tids (sch r)) < MAX_THREAD_NUM"
  shows "\<exists>r1 r2 r3. create_turn opt t 0 ins error th f None r = Inr (Await (PCreated 0 error None), r1) \<and>
     released opt (sch r1) \<and> (thread_begin_done_sem r = 0 \<longrightarrow> create_done opt t 0 error None r1 = None) \<and>
     thread_begin_wait opt th r1 = Some (Inr (nthread (tids (sch r)), r2)) \<and>
     create_done opt t 0 error None r2 = Some (Inr (Done 0 error, r3)) \<and>
     thread_begin_sem r3 = thread_begin_sem r \<and> thread_begin_done_sem r3 = thread_begin_done_sem r"
  by (rule create_handshake [OF assms])

theorem create_hands_over_tid_witness:
  "\<exists>r r1 r2. create_turn default_options MainThreadTid 0 0 3 9 0 None r = Inr (Await (PCreated 0 3 None), r1) \<and>
     create_done default_options MainThreadTid 0 3 None r1 = None \<and>
     thread_begin_wait default_options 9 r1 = Some (Inr (2, r2))"
proof -
  obtain s where s: "holding default_options MainThreadTid s" "nthread (tids s) = 2"
    "p_t_map (tids s) = [7 \<mapsto> MainThreadTid, 8 \<mapsto> 1]" using scene_two by blast
  then show ?thesis
    using create_hands_over_tid [OF basic_default, of MainThreadTid "rt_new s" 9 0 3 0] by (auto simp: MAX_THREAD_NUM_def)
qed

text \<open>
  C21. The end of a thread. It becomes a zombie that can be joined, the first thread that joins it
  leaves the wait queue, and the turn is passed on. The thread itself is gone: it is neither on the
  run queue nor waiting, and whatever the other threads do from there on, in any number of steps
  and any order, it never again has the turn, can take it, or gets back on a queue.
\<close>

theorem thread_end_leaves:
  assumes "basic opt" and "holding opt t (sch r)" and "settled t r"
    and "can_finish opt t (th_handle (tls_of r t)) (sch r)"
  shows "\<exists>r'. thread_end_turn opt t ins r = Inr (Done 0 0, r') \<and> released opt (sch r') \<and>
     tm_zombie (th_handle (tls_of r t)) (tids (sch r')) \<and>
     (\<forall>j js. filter (\<lambda>u. chan (waits (sch r) u) = th_handle (tls_of r t)) (waitq (sch r)) = j # js \<longrightarrow>
        j \<notin> set (waitq (sch r'))) \<and>
     (\<forall>s H. (others_step opt t)\<^sup>*\<^sup>* (sch r', {}) (s, H) \<longrightarrow>
        t \<notin> H \<and> getTurn opt t s = None \<and> t \<notin> set (waitq s) \<and>
        (\<exists>xs. rq_tids (heap s) (runq s) = Inr xs \<and> t \<notin> set xs))"
proof -
  obtain r' where r': "thread_end_turn opt t ins r = Inr (Done 0 0, r')" "released opt (sch r')"
     "tm_zombie (th_handle (tls_of r t)) (tids (sch r'))" "gone t (sch r', {})"
     "\<forall>j js. filter (\<lambda>u. chan (waits (sch r) u) = th_handle (tls_of r t)) (waitq (sch r)) = j # js \<longrightarrow>
        j \<notin> set (waitq (sch r'))" using thread_end_turn_ok [OF assms] by blast
  have "turn_inv opt (s, H) \<and> gone t (s, H)" if "(others_step opt t)\<^sup>*\<^sup>* (sch r', {}) (s, H)" for s H
    using gone_for_good [OF that assms(1)] r'(2,4) by (simp add: released_def)
  then show ?thesis using r' gone_no_turn [OF assms(1)] by blast
qed

theorem thread_end_leaves_witness:
  "\<exists>r r'. holding default_options 1 (sch r) \<and> thread_end_turn default_options 1 0 r = Inr (Done 0 0, r') \<and>
     tm_zombie 8 (tids (sch r')) \<and>
     (\<exists>s. others_step default_options 1 (sch r', {}) (s, {MainThreadTid}) \<and> getTurn default_options 1 s = None \<and>
       rq_tids (heap s) (runq s) = Inr [MainThreadTid])"
proof -
  obtain s s1 z where s: "holding default_options 1 s" "can_finish default_options 1 8 s"
    "finish_turn default_options 1 8 s = Inr s1" "getTurn default_options MainThreadTid s1 = Some z"
    "rq_tids (heap z) (runq z) = Inr [MainThreadTid]" using scene_ended by blast
  obtain r' where r': "thread_end_turn default_options 1 0 (rt_new s) = Inr (Done 0 0, r')"
     "tm_zombie 8 (tids (sch r'))"
     "\<And>s H. (others_step default_options 1)\<^sup>*\<^sup>* (sch r', {}) (s, H) \<Longrightarrow> getTurn default_options 1 s = None"
    using thread_end_leaves [OF basic_default, of 1 "rt_new s" 0] s(1,2) by auto
  have "sch r' = s1" using thread_end_turn_ok [OF basic_default, of 1 "rt_new s" 0] s(1-3) r'(1) by auto
  then have "others_step default_options 1 (sch r', {}) (z, {MainThreadTid})"
    using acquire [of MainThreadTid "{}"] s(4) by (auto simp: others_step_def MainThreadTid_def)
  then show ?thesis
    using s(1,5) r' by (intro exI [of _ "rt_new s"] exI [of _ r'] conjI exI [of _ z]) auto
qed

text \<open>
  C22. Joining waits for the end of the thread. As long as it has not ended the caller waits on
  its handle, for ever, and nothing is joined; once it has, the caller reports the result and the
  \<open>errno\<close> of the library's \<open>pthread_join\<close> and the zombie is gone, unless that call failed, which
  the assertion stops when assertions are compiled in.
\<close>

theorem join_waits_then_reaps:
  assumes "basic opt" and "\<not> wakeamap_plus opt" and "holding opt t (sch r)"
    and "tm_zombie th (tids (sch r)) \<or> can_leave opt t (sch r)"
  shows "if \<not> tm_zombie th (tids (sch r))
     then \<exists>r'. join_round opt t (ret, e) ins error th r = Inr (Await (PJoinWoken ins error th), r') \<and>
       released opt (sch r') \<and> objects r' = objects r \<and>
       t \<in> set (waitq (sch r')) \<and> chan (waits (sch r') t) = th \<and> timeout (waits (sch r') t) = FOREVER
     else if ret = 0 \<or> ndebug opt
     then \<exists>r'. join_round opt t (ret, e) ins error th r = Inr (Done ret e, r') \<and> released opt (sch r') \<and>
       \<not> tm_zombie th (tids (sch r'))
     else join_round opt t (ret, e) ins error th r = Inl AssertFailed"
proof (cases "tm_zombie th (tids (sch r))")
  case True
  then show ?thesis using join_round_reaps [OF assms(1-3) True, of ret e ins error] join_round_fails by auto
next
  case False
  then have "can_leave opt t (sch r)" using assms(4) by blast
  from join_round_waits [OF assms(1,3) this False, of "(ret, e)" ins error]
  obtain s' where s': "join_round opt t (ret, e) ins error th r = Inr (Await (PJoinWoken ins error th), r\<lparr>sch := s'\<rparr>)"
     "released opt s'" "t \<in> set (waitq s')" "chan (waits s' t) = th" "timeout (waits s' t) = FOREVER" by blast
  then show ?thesis using False by (simp add: exI [of _ "r\<lparr>sch := s'\<rparr>"] objects_def)
qed

theorem join_waits_then_reaps_witness:
  "(\<exists>r r'. join_round default_options MainThreadTid (0, 5) 0 3 8 r = Inr (Await (PJoinWoken 0 3 8), r') \<and>
     MainThreadTid \<in> set (waitq (sch r'))) \<and>
   (\<exists>r r'. join_round default_options MainThreadTid (0, 5) 0 3 8 r = Inr (Done 0 5, r') \<and>
     \<not> tm_zombie 8 (tids (sch r')))"
proof (rule conjI)
  obtain s where s: "holding default_options MainThreadTid s" "can_leave default_options MainThreadTid s"
    "\<not> tm_zombie 8 (tids s)" using scene_two by blast
  then show "\<exists>r r'. join_round default_options MainThreadTid (0, 5) 0 3 8 r = Inr (Await (PJoinWoken 0 3 8), r') \<and>
     MainThreadTid \<in> set (waitq (sch r'))"
    using join_waits_then_reaps [OF basic_default, of MainThreadTid "rt_new s" 8 0 5 0 3] by auto
  obtain z where z: "holding default_options MainThreadTid z" "tm_zombie 8 (tids z)" using scene_ended by blast
  then show "\<exists>r r'. join_round default_options MainThreadTid (0, 5) 0 3 8 r = Inr (Done 0 5, r') \<and>
     \<not> tm_zombie 8 (tids (sch r'))"
    using join_waits_then_reaps [OF basic_default, of MainThreadTid "rt_new z" 8 0 5 0 3] by auto
qed

text \<open>
  C23. Critical sections. Under the first policy a thread that has taken a mutex is the next to
  get the turn: nobody is scheduled between its lock and its next operation.
\<close>

theorem critical_section_keeps_turn:
  assumes "basic opt" and "\<not> wakeamap_plus opt" and "holding opt t (sch r)" and "settled t r"
    and "m_owner (mutexes r mu) = None" and "policy opt 1"
    and "\<not> noCSWholeLocal (tls_of r t)" and "inCSLevel (tls_of r t) \<ge> 0" and "\<not> yield_this (tls_of r t)"
  shows "\<exists>r'. lock_turn opt t OpMutexLock ins error (LMutex mu) r = Inr (Done 0 error, r') \<and>
     m_owner (mutexes r' mu) = Some t \<and> getTurn opt t (sch r') \<noteq> None"
  by (rule lock_keeps_turn [OF assms])

theorem critical_section_keeps_turn_witness:
  "\<exists>r r'. lock_turn (default_options\<lparr>scheduling_policy := 1\<rparr>) MainThreadTid OpMutexLock 0 3 (LMutex 5) r = Inr (Done 0 3, r') \<and>
     getTurn (default_options\<lparr>scheduling_policy := 1\<rparr>) MainThreadTid (sch r') \<noteq> None"
proof -
  let ?opt = "default_options\<lparr>scheduling_policy := 1\<rparr>"
  have b: "basic ?opt" using basic_default by (simp add: basic_def plain_def policy_def order_ok_def)
  have p: "policy ?opt 1" "\<not> wakeamap_plus ?opt" by (simp_all add: policy_def default_options_def)
  obtain s where "holding ?opt MainThreadTid s" using some_scene_two [OF b] by blast
  then show ?thesis using p critical_section_keeps_turn [OF b p(2), of MainThreadTid "rt_new s" 5 0 3]
    by (auto simp: tls_new_def)
qed

section \<open>Blocking calls\<close>

text \<open>
  Entering a blocking call. A thread that does not have the turn is only marked, so that
  the scheduler passes over it, and calls at once; a thread that has been passed the turn goes on
  to take it first. The queues, the channels and the holder of the turn do not change.
\<close>

lemma io_enters:
  assumes "turn_inv opt (sch r, H)" and "u \<notin> set (waitq (sch r))"
    and "status_of (sch r) u \<in> {Some RUNNABLE, Some RUNNING_REG}" and "\<not> in_non_det u r"
  shows "\<exists>r'. io_start opt u f args r =
       Inr (if status_of (sch r) u = Some RUNNING_REG then IoTurn f args else IoCall f args, r') \<and>
     turn_inv opt (sch r', H) \<and> waits (sch r') = waits (sch r) \<and>
     rq_tids (heap (sch r')) (runq (sch r')) = rq_tids (heap (sch r)) (runq (sch r)) \<and>
     status_of (sch r') u =
       Some (if status_of (sch r) u = Some RUNNABLE then INTER_PRO_STOP else RUNNING_INTER_PRO)"
  by (rule io_start_ok [OF assms])

lemma io_enters_witness:
  "\<exists>r r'. turn_inv default_options (sch r, {MainThreadTid}) \<and>
     io_start default_options 1 ''read'' [] r = Inr (IoCall ''read'' [], r') \<and>
     status_of (sch r') 1 = Some INTER_PRO_STOP"
proof -
  obtain s where s: "holding default_options MainThreadTid s" "waitq s = []" "status_of s 1 = Some RUNNABLE"
    using scene_two by blast
  have i: "turn_inv default_options (s, {MainThreadTid})" "\<not> in_non_det 1 (rt_new s)"
    using s(1) by (simp_all add: holding_def in_non_det_def tls_new_def)
  then obtain r' where "io_start default_options 1 ''read'' [] (rt_new s) = Inr (IoCall ''read'' [], r')"
     "status_of (sch r') 1 = Some INTER_PRO_STOP"
    using io_enters [of default_options "rt_new s" "{MainThreadTid}" 1 "''read''" "[]"] s by auto
  then show ?thesis using i by (intro exI [of _ "rt_new s"] exI [of _ r']) simp
qed

text \<open>
  A thread that takes the turn to enter a blocking call leaves the run queue and passes the
  turn on.
\<close>

lemma io_leaves_queue:
  assumes "basic opt" and "turn_inv opt (sch r, {t})" and "status_of (sch r) t = Some RUNNING_INTER_PRO"
    and "can_leave opt t (sch r)"
  shows "\<exists>r'. io_turn opt t f args r = Inr (IoCall f args, r') \<and> released opt (sch r') \<and>
     stopped (sch r') t \<and> (\<forall>xs. rq_tids (heap (sch r')) (runq (sch r')) = Inr xs \<longrightarrow> t \<notin> set xs)"
  by (rule io_turn_ok [OF assms])

lemma io_leaves_queue_witness:
  "\<exists>r r'. io_turn default_options MainThreadTid ''read'' [] r = Inr (IoCall ''read'' [], r') \<and>
     released default_options (sch r') \<and> stopped (sch r') MainThreadTid"
proof -
  obtain s where s: "holding default_options MainThreadTid s" "waitq s = []" "can_leave default_options MainThreadTid s"
    "rq_tids (heap s) (runq s) = Inr [MainThreadTid, 1]" "status_of s 1 = Some RUNNABLE" "\<not> inter_pro_wakeup_flag s"
    using scene_two by blast
  have i: "turn_inv default_options (s, {MainThreadTid})" "status_of s MainThreadTid = Some RUNNING_REG"
    using s(1) by (simp_all add: holding_def)
  obtain s' where s': "turn_inv default_options (s', {MainThreadTid})" "waitq s' = waitq s" "waits s' = waits s"
     "rq_tids (heap s') (runq s') = rq_tids (heap s) (runq s)"
     "status_of s' = (status_of s)(MainThreadTid \<mapsto> RUNNING_INTER_PRO)"
    using inter_start_ok [OF i(1), of MainThreadTid] i(2) s(2) by auto
  have "\<not> stopped s' 1" using s'(5) s(5) by (simp add: stopped_def MainThreadTid_def)
  then have "can_leave default_options MainThreadTid s'"
    using s'(4) s(4) by (simp add: can_leave_def ticked_def Let_def)
  then show ?thesis using s'(1,5) io_leaves_queue [OF basic_default, of "rt_new s'" MainThreadTid "''read''" "[]"]
    by auto
qed

text \<open>
  C26. Coming back. When a thread returns from a blocking call while another thread has the
  turn, it reports the result and \<open>errno\<close> of the call, and the next tick puts it back on the
  run queue.
\<close>

theorem io_comes_back:
  assumes "basic opt" and "holding opt t (sch r)" and "stopped (sch r) u"
  shows "\<exists>r' s' xs. io_end opt u ret err r = Inr ((ret, err), r') \<and>
     incTurnCount opt (sch r') = Inr (turnCount (sch r'), s') \<and> holding opt t s' \<and>
     rq_tids (heap s') (runq s') = Inr xs \<and> u \<in> set xs"
  by (rule io_returns [OF assms])

theorem io_comes_back_witness:
  "\<exists>r r'. holding default_options MainThreadTid (sch r) \<and> stopped (sch r) 1 \<and>
     io_end default_options 1 12 0 r = Inr ((12, 0), r')"
proof -
  obtain s where s: "holding default_options MainThreadTid s" "waitq s = []" "status_of s 1 = Some RUNNABLE"
    using scene_two by blast
  have i: "turn_inv default_options (s, {MainThreadTid})" using s(1) by (simp add: holding_def)
  obtain s' where s': "turn_inv default_options (s', {MainThreadTid})" "status_of s' = (status_of s)(1 \<mapsto> INTER_PRO_STOP)"
    using inter_start_ok [OF i, of 1] s by auto
  then have h: "holding default_options MainThreadTid (sch (rt_new s'))" "stopped (sch (rt_new s')) 1"
    using s(1) by (simp_all add: holding_def stopped_def MainThreadTid_def)
  then show ?thesis using io_comes_back [OF basic_default h, of 12 0] by blast
qed

end
