(* ===== verification/RunQueueDebug.thy ===== *)
theory RunQueueDebug
  imports RunQueue
begin

text \<open>
  The run queue compiled with \<open>DEBUG_RUN_QUEUE\<close> (and with assertions): beside the links it keeps the
  set \<open>elements\<close> of the queued elements, which every operation checks and updates. Each operation
  is the one of the other build (\<open>RunQueue\<close>) between its checks. The lemmas show that the checks
  pass and the results agree as long as the queue is used as a queue, and that they catch the two
  misuses that corrupt it.
\<close>

section \<open>Checks\<close>

type_synonym dbg_queue = "mem \<times> run_queue \<times> addr set"

text \<open>The loop that prints the queue before the assertion; it stops when more than \<open>MAX_THREAD_NUM\<close> elements have passed.\<close>

primrec dbg_print :: "nat \<Rightarrow> mem \<Rightarrow> addr option \<Rightarrow> unit res" where
  "dbg_print 0 m p = (if p = rq_end then Inr () else Inl AssertFailed)"
| "dbg_print (Suc n) m p = (if p = rq_end then Inr () else res_bind (iter_next m p) (dbg_print n m))"

definition in_elements :: "addr option \<Rightarrow> addr set \<Rightarrow> bool" where
  "in_elements p E \<longleftrightarrow> (case p of None \<Rightarrow> False | Some a \<Rightarrow> a \<in> E)"

definition dbg_assert_elem_in :: "addr option \<Rightarrow> dbg_queue \<Rightarrow> 'a res \<Rightarrow> 'a res" where
  "dbg_assert_elem_in p = (\<lambda>(m, q, E) k.
     if \<not> in_elements p E
     then res_bind (dbg_print (Suc MAX_THREAD_NUM) m (rq_begin q)) (\<lambda>_. Inl AssertFailed) else k)"

definition dbg_assert_elem_not_in :: "addr option \<Rightarrow> dbg_queue \<Rightarrow> 'a res \<Rightarrow> 'a res" where
  "dbg_assert_elem_not_in p = (\<lambda>(m, q, E) k. if in_elements p E then Inl AssertFailed else k)"

definition dbg_insert_elem :: "addr option \<Rightarrow> addr set \<Rightarrow> addr set" where
  "dbg_insert_elem p E = (case p of None \<Rightarrow> E | Some a \<Rightarrow> insert a E)"

definition dbg_erase_elem :: "addr option \<Rightarrow> addr set \<Rightarrow> addr set" where
  "dbg_erase_elem p E = (case p of None \<Rightarrow> E | Some a \<Rightarrow> E - {a})"

definition dbg_assert_elem_size :: "size_t \<Rightarrow> dbg_queue \<Rightarrow> 'a res \<Rightarrow> 'a res" where
  "dbg_assert_elem_size sz = (\<lambda>(m, q, E) k. check AssertFailed (of_nat (card E) = sz) k)"

text \<open>\<open>ASSERT\<close>\<close>

definition dbg_assert :: "bool \<Rightarrow> 'a res \<Rightarrow> 'a res" where
  "dbg_assert b k = check AssertFailed b k"

section \<open>Operations\<close>

definition dq_get_my_elem :: "tid \<Rightarrow> dbg_queue \<Rightarrow> addr option res" where
  "dq_get_my_elem t = (\<lambda>(m, q, E). res_bind (rq_get_my_elem t q) (\<lambda>elem.
     dbg_assert (elem \<noteq> None) (res_bind (iter_tid m elem) (\<lambda>u. dbg_assert (t = u) (Inr elem)))))"

definition dq_create_thd_elem :: "tid \<Rightarrow> dbg_queue \<Rightarrow> (addr \<times> dbg_queue) res" where
  "dq_create_thd_elem t = (\<lambda>(m, q, E).
     dbg_assert (t < MAX_THREAD_NUM) (dbg_assert (tid_map q t = None)
       (res_bind (rq_create_thd_elem t m q) (\<lambda>(a, m, q). Inr (a, m, q, E)))))"

definition dq_del_thd_elem :: "tid \<Rightarrow> dbg_queue \<Rightarrow> dbg_queue res" where
  "dq_del_thd_elem t = (\<lambda>(m, q, E). res_bind (rq_get_my_elem t q) (\<lambda>elem.
     dbg_assert (elem \<noteq> None) (res_bind (rq_del_thd_elem t m q) (\<lambda>(m, q). Inr (m, q, E)))))"

definition dq_in :: "tid \<Rightarrow> dbg_queue \<Rightarrow> bool res" where
  "dq_in t = (\<lambda>(m, q, E). res_bind (rq_get_my_elem t q) (\<lambda>elem.
     dbg_assert (elem \<noteq> None) (res_bind (rq_in t m q) (\<lambda>b.
     (if b then dbg_assert_elem_in else dbg_assert_elem_not_in) elem (m, q, E) (Inr b)))))"

text \<open>The elements of \<open>deep_clear\<close> are those the table has, so the check of \<open>del_thd_elem\<close> is about the element's own number.\<close>

definition dq_clear_slot :: "nat \<Rightarrow> dbg_queue \<Rightarrow> dbg_queue res" where
  "dq_clear_slot i = (\<lambda>(m, q, E). case tid_map q i of
     None \<Rightarrow> Inr (m, q, E)
   | Some a \<Rightarrow>
       res_bind (iter_tid m (Some a)) (\<lambda>t.
       res_bind (store m (Some a) (\<lambda>e. e\<lparr>e_prev := None, e_next := None\<rparr>)) (\<lambda>m.
       dq_del_thd_elem t (m, q, E))))"

definition dq_deep_clear :: "dbg_queue \<Rightarrow> dbg_queue res" where
  "dq_deep_clear = (\<lambda>(m, q, E). res_fold dq_clear_slot [0..<MAX_THREAD_NUM]
     (m, q\<lparr>q_head := None, q_tail := None, num_elements := 0, num_yield_elem := 0\<rparr>, {}))"

definition dq_size :: "dbg_queue \<Rightarrow> size_t res" where
  "dq_size = (\<lambda>(m, q, E). dbg_assert_elem_size (num_elements q) (m, q, E) (Inr (num_elements q)))"

definition dq_empty :: "dbg_queue \<Rightarrow> bool res" where
  "dq_empty s = res_bind (dq_size s) (\<lambda>n. Inr (n = 0))"

definition dq_erase :: "addr option \<Rightarrow> dbg_queue \<Rightarrow> (addr option \<times> dbg_queue) res" where
  "dq_erase position = (\<lambda>(m, q, E).
     if position = rq_end then Inr (rq_end, m, q, E)
     else res_bind (iter_next m position) (\<lambda>_.
          dbg_assert_elem_in position (m, q, E)
            (res_bind (rq_erase position m q) (\<lambda>(ret, m, q). Inr (ret, m, q, dbg_erase_elem position E)))))"

text \<open>The checks the insertions share: \<open>head\<close> and \<open>tail\<close> are both null or both not.\<close>

definition dq_insert :: "(tid \<Rightarrow> mem \<Rightarrow> run_queue \<Rightarrow> (mem \<times> run_queue) res) \<Rightarrow> tid \<Rightarrow> dbg_queue \<Rightarrow> dbg_queue res" where
  "dq_insert insertion t = (\<lambda>(m, q, E). res_bind (rq_get_my_elem t q) (\<lambda>elem.
     dbg_assert (elem \<noteq> None) (dbg_assert_elem_not_in elem (m, q, E)
       (dbg_assert ((q_head q = None) = (q_tail q = None))
         (res_bind (insertion t m q) (\<lambda>(m, q). Inr (m, q, dbg_insert_elem elem E)))))))"

definition dq_push_back :: "tid \<Rightarrow> dbg_queue \<Rightarrow> dbg_queue res" where
  "dq_push_back = dq_insert rq_push_back"

definition dq_insert_yield :: "tid \<Rightarrow> dbg_queue \<Rightarrow> dbg_queue res" where
  "dq_insert_yield = dq_insert rq_insert_yield"

definition dq_push_front :: "tid \<Rightarrow> dbg_queue \<Rightarrow> dbg_queue res" where
  "dq_push_front = dq_insert rq_push_front"

definition dq_front :: "dbg_queue \<Rightarrow> tid res" where
  "dq_front = (\<lambda>(m, q, E). dbg_assert (q_head q \<noteq> None) (dbg_assert_elem_in (q_head q) (m, q, E) (rq_front m q)))"

definition dq_front_elem :: "dbg_queue \<Rightarrow> addr option res" where
  "dq_front_elem = (\<lambda>(m, q, E).
     dbg_assert (q_head q \<noteq> None) (dbg_assert_elem_in (q_head q) (m, q, E) (Inr (rq_front_elem q))))"

definition dq_pop_front :: "dbg_queue \<Rightarrow> dbg_queue res" where
  "dq_pop_front = (\<lambda>(m, q, E). dbg_assert_elem_in (q_head q) (m, q, E)
     (res_bind (rq_pop_front m q) (\<lambda>(m, q'). Inr (m, q', dbg_erase_elem (q_head q) E))))"

section \<open>Sequences of operations, in both builds\<close>

datatype rq_op = OpPushBack tid | OpInsertYield tid | OpPopFront | OpFront | OpIn tid | OpSize

datatype rq_result = NoResult | TidResult tid | BoolResult bool | SizeResult size_t

definition rq_do :: "rq_op \<Rightarrow> mem \<times> run_queue \<Rightarrow> (rq_result \<times> mem \<times> run_queue) res" where
  "rq_do x = (\<lambda>(m, q). case x of
     OpPushBack t \<Rightarrow> res_bind (rq_push_back t m q) (\<lambda>s. Inr (NoResult, s))
   | OpInsertYield t \<Rightarrow> res_bind (rq_insert_yield t m q) (\<lambda>s. Inr (NoResult, s))
   | OpPopFront \<Rightarrow> res_bind (rq_pop_front m q) (\<lambda>s. Inr (NoResult, s))
   | OpFront \<Rightarrow> res_bind (rq_front m q) (\<lambda>t. Inr (TidResult t, m, q))
   | OpIn t \<Rightarrow> res_bind (rq_in t m q) (\<lambda>b. Inr (BoolResult b, m, q))
   | OpSize \<Rightarrow> Inr (SizeResult (rq_size q), m, q))"

definition dq_do :: "rq_op \<Rightarrow> dbg_queue \<Rightarrow> (rq_result \<times> dbg_queue) res" where
  "dq_do x s = (case x of
     OpPushBack t \<Rightarrow> res_bind (dq_push_back t s) (\<lambda>s. Inr (NoResult, s))
   | OpInsertYield t \<Rightarrow> res_bind (dq_insert_yield t s) (\<lambda>s. Inr (NoResult, s))
   | OpPopFront \<Rightarrow> res_bind (dq_pop_front s) (\<lambda>s. Inr (NoResult, s))
   | OpFront \<Rightarrow> res_bind (dq_front s) (\<lambda>t. Inr (TidResult t, s))
   | OpIn t \<Rightarrow> res_bind (dq_in t s) (\<lambda>b. Inr (BoolResult b, s))
   | OpSize \<Rightarrow> res_bind (dq_size s) (\<lambda>n. Inr (SizeResult n, s)))"

fun run_ops :: "('o \<Rightarrow> 's \<Rightarrow> ('a \<times> 's) res) \<Rightarrow> 'o list \<Rightarrow> 's \<Rightarrow> ('a list \<times> 's) res" where
  "run_ops f [] s = Inr ([], s)"
| "run_ops f (x # xs) s = res_bind (f x s) (\<lambda>(a, s). res_bind (run_ops f xs s) (\<lambda>(as, s). Inr (a # as, s)))"

text \<open>
  Used as a queue: only threads with an element that are neither on it nor (\<open>Y\<close>) on the other queue
  are inserted, nothing is taken from the empty queue, nobody on the other queue is looked for.
\<close>

definition op_legal :: "tid set \<Rightarrow> run_queue \<Rightarrow> tid list \<Rightarrow> rq_op \<Rightarrow> bool" where
  "op_legal Y q xs x = (case x of
     OpPushBack t \<Rightarrow> tid_map q t \<noteq> None \<and> t \<notin> set xs \<and> t \<notin> Y
   | OpInsertYield t \<Rightarrow> tid_map q t \<noteq> None \<and> t \<notin> set xs \<and> t \<notin> Y
   | OpPopFront \<Rightarrow> xs \<noteq> []
   | OpFront \<Rightarrow> xs \<noteq> []
   | OpIn t \<Rightarrow> tid_map q t \<noteq> None \<and> t \<notin> Y
   | OpSize \<Rightarrow> True)"

fun legal_run :: "tid set \<Rightarrow> rq_op list \<Rightarrow> mem \<times> run_queue \<Rightarrow> bool" where
  "legal_run Y [] s = True"
| "legal_run Y (x # xs) s =
     ((case rq_tids (fst s) (snd s) of Inl _ \<Rightarrow> False | Inr ts \<Rightarrow> op_legal Y (snd s) ts x) \<and>
      (case rq_do x s of Inl _ \<Rightarrow> True | Inr (_, s') \<Rightarrow> legal_run Y xs s'))"

section \<open>The checks pass\<close>

lemma queue_elem:
  assumes "queues M m q xs p ys" and "tid_map q t = Some a"
  shows "M t = Some a" and "t < MAX_THREAD_NUM" and "a \<in> set (addrs M xs) \<longleftrightarrow> t \<in> set xs"
proof -
  note d = queuesD [OF assms(1)]
  show M: "M t = Some a" using d(3) assms(2) by (force simp: map_le_def)
  show "t < MAX_THREAD_NUM" using elems_okD [OF d(1) M] by blast
  show "a \<in> set (addrs M xs) \<longleftrightarrow> t \<in> set xs" by (rule in_addrs [OF d(1,7) M])
qed

lemma queue_ends: "queues M m q xs p ys \<Longrightarrow> (q_head q = None) = (q_tail q = None)"
  by (drule queuesD(4), frule rq_listD(1), drule rq_listD(2)) simp

lemma dq_insert_ok:
  assumes q: "queues M m q xs p ys" and t: "tid_map q t = Some a" "t \<notin> set xs"
    and run: "insertion t m q = Inr (m', q')" and xs': "set xs' = insert t (set xs)"
  shows "dq_insert insertion t (m, q, set (addrs M xs)) = Inr (m', q', set (addrs M xs'))"
proof -
  note e = queue_elem [OF q t(1)]
  have "set (addrs M xs') = insert a (set (addrs M xs))" using e(1) xs' by (auto simp: addrs_def)
  then show ?thesis
    using e t run queue_ends [OF q]
    by (simp add: dq_insert_def rq_get_my_elem_def dbg_assert_def dbg_assert_elem_not_in_def in_elements_def dbg_insert_elem_def)
qed

lemma dq_pop_ok:
  assumes q: "queues M m q (t # xs) p ys" and run: "rq_pop_front m q = Inr (m', q')"
  shows "dq_pop_front (m, q, set (addrs M (t # xs))) = Inr (m', q', set (addrs M xs))"
proof -
  obtain a where a: "M t = Some a" using queuesD(7) [OF q] by auto
  have "distinct (addrs M (t # xs))" using rq_listD(4) [OF queuesD(4) [OF q]] .
  then show ?thesis
    using queues_front(3) [OF q] a run by (simp add: dq_pop_front_def dbg_assert_elem_in_def in_elements_def dbg_erase_elem_def)
qed

lemma dq_front_ok:
  assumes q: "queues M m q (t # xs) p ys"
  shows "dq_front (m, q, set (addrs M (t # xs))) = Inr t"
proof -
  obtain a where a: "M t = Some a" using queuesD(7) [OF q] by auto
  then show ?thesis
    using queues_front(1,3) [OF q] by (simp add: dq_front_def dbg_assert_def dbg_assert_elem_in_def in_elements_def)
qed

lemma dq_in_ok:
  assumes q: "queues M m q xs p ys" and t: "tid_map q t = Some a" "t \<notin> set ys"
  shows "dq_in t (m, q, set (addrs M xs)) = Inr (t \<in> set xs)"
  using queue_elem [OF q t(1)] queues_in [OF q t] t
  by (simp add: dq_in_def rq_get_my_elem_def dbg_assert_def dbg_assert_elem_in_def dbg_assert_elem_not_in_def in_elements_def)

lemma dq_size_ok:
  assumes q: "queues M m q xs p ys"
  shows "dq_size (m, q, set (addrs M xs)) = Inr (rq_size q)"
proof -
  note l = rq_listD [OF queuesD(4) [OF q]]
  then show ?thesis by (simp add: dq_size_def dbg_assert_elem_size_def distinct_card rq_size_def)
qed

text \<open>One operation.\<close>

lemma debug_step:
  assumes q: "queues M m q xs p ys" and legal: "op_legal (set ys) q xs x"
  obtains a m' q' xs' where "rq_do x (m, q) = Inr (a, m', q')" "queues M m' q' xs' p ys" "tid_map q' = tid_map q"
    "dq_do x (m, q, set (addrs M xs)) = Inr (a, m', q', set (addrs M xs'))"
proof (cases x)
  case (OpPushBack t)
  then obtain a where t: "tid_map q t = Some a" "t \<notin> set xs" "t \<notin> set ys" using legal by (auto simp: op_legal_def)
  obtain m' q' where r: "rq_push_back t m q = Inr (m', q')" "queues M m' q' (xs @ [t]) p ys" "tid_map q' = tid_map q"
    using queues_push_back [OF q t] by blast
  have "dq_push_back t (m, q, set (addrs M xs)) = Inr (m', q', set (addrs M (xs @ [t])))"
    unfolding dq_push_back_def by (rule dq_insert_ok [where insertion = rq_push_back, OF q t(1,2) r(1)]) simp
  then show thesis using r OpPushBack by (intro that [of NoResult m' q' "xs @ [t]"]) (simp_all add: rq_do_def dq_do_def)
next
  case (OpInsertYield t)
  then obtain a where t: "tid_map q t = Some a" "t \<notin> set xs" "t \<notin> set ys" using legal by (auto simp: op_legal_def)
  define k where "k = yield_pos m q (addrs M xs)"
  let ?xs = "take k xs @ t # drop k xs"
  obtain m' q' where r: "rq_insert_yield t m q = Inr (m', q')" "queues M m' q' ?xs p ys" "tid_map q' = tid_map q"
    using queues_insert_yield [OF q t k_def] by blast
  have "set (take k xs) \<union> set (drop k xs) = set xs" by (metis append_take_drop_id set_append)
  then have "set ?xs = insert t (set xs)" by auto
  then have "dq_insert_yield t (m, q, set (addrs M xs)) = Inr (m', q', set (addrs M ?xs))"
    unfolding dq_insert_yield_def by (intro dq_insert_ok [where insertion = rq_insert_yield, OF q t(1,2) r(1)]) simp
  then show thesis using r OpInsertYield by (intro that [of NoResult m' q' ?xs]) (simp_all add: rq_do_def dq_do_def)
next
  case OpPopFront
  then obtain t us where xs: "xs = t # us" using legal by (cases xs) (simp_all add: op_legal_def)
  obtain a where a: "M t = Some a" using queuesD(7) [OF q] xs by auto
  obtain m' q' where r: "rq_pop_front m q = Inr (m', q')" "queues M m' q' us p ys" "tid_map q' = tid_map q"
    using queues_pop_front [OF q [unfolded xs] a] by blast
  from dq_pop_ok [OF q [unfolded xs] r(1)] show thesis
    using r OpPopFront xs by (intro that [of NoResult m' q' us]) (simp_all add: rq_do_def dq_do_def)
next
  case OpFront
  then obtain t us where xs: "xs = t # us" using legal by (cases xs) (simp_all add: op_legal_def)
  from dq_front_ok [OF q [unfolded xs]] queues_front(1) [OF q [unfolded xs]] show thesis
    using OpFront xs q by (intro that [of "TidResult t" m q xs]) (simp_all add: rq_do_def dq_do_def)
next
  case (OpIn t)
  then obtain a where t: "tid_map q t = Some a" "t \<notin> set ys" using legal by (auto simp: op_legal_def)
  from dq_in_ok [OF q t] queues_in [OF q t] show thesis
    using OpIn q by (intro that [of "BoolResult (t \<in> set xs)" m q xs]) (simp_all add: rq_do_def dq_do_def)
next
  case OpSize
  with dq_size_ok [OF q] q show thesis by (intro that [of "SizeResult (rq_size q)" m q xs]) (simp_all add: rq_do_def dq_do_def)
qed

lemma debug_run:
  assumes "queues M m q xs p ys" and "legal_run (set ys) ops (m, q)"
  shows "\<exists>as m' q' xs'. run_ops rq_do ops (m, q) = Inr (as, m', q') \<and> queues M m' q' xs' p ys \<and>
    run_ops dq_do ops (m, q, set (addrs M xs)) = Inr (as, m', q', set (addrs M xs'))"
  using assms
proof (induction ops arbitrary: m q xs)
  case Nil
  then show ?case by auto
next
  case (Cons x ops)
  have "op_legal (set ys) q xs x" using Cons.prems queues_tids [OF Cons.prems(1)] by simp
  from debug_step [OF Cons.prems(1) this] obtain a m1 q1 xs1 where
    s: "rq_do x (m, q) = Inr (a, m1, q1)" "queues M m1 q1 xs1 p ys" "dq_do x (m, q, set (addrs M xs)) = Inr (a, m1, q1, set (addrs M xs1))" .
  have "legal_run (set ys) ops (m1, q1)" using Cons.prems(2) s(1) by simp
  from Cons.IH [OF s(2) this] show ?case using s by auto
qed

section \<open>What the checks catch\<close>

text \<open>Queueing a thread twice, and taking from the empty queue.\<close>

lemma debug_catches:
  assumes q: "queues M m q xs p ys"
  shows "t \<in> set xs \<Longrightarrow> tid_map q t \<noteq> None \<Longrightarrow> dq_push_back t (m, q, set (addrs M xs)) = Inl AssertFailed"
    and "xs = [] \<Longrightarrow> dq_pop_front (m, q, set (addrs M xs)) = Inl AssertFailed"
    and "xs = [] \<Longrightarrow> dq_front (m, q, set (addrs M xs)) = Inl AssertFailed"
proof -
  assume "t \<in> set xs" "tid_map q t \<noteq> None"
  then obtain a where t: "tid_map q t = Some a" "t \<in> set xs" by auto
  then show "dq_push_back t (m, q, set (addrs M xs)) = Inl AssertFailed"
    using queue_elem [OF q t(1)]
    by (simp add: dq_push_back_def dq_insert_def rq_get_my_elem_def dbg_assert_def dbg_assert_elem_not_in_def in_elements_def)
next
  assume "xs = []"
  then have "q_head q = None" using rq_listD(1) [OF queuesD(4) [OF q]] by simp
  then show "dq_pop_front (m, q, set (addrs M xs)) = Inl AssertFailed" "dq_front (m, q, set (addrs M xs)) = Inl AssertFailed"
    by (simp_all add: dq_pop_front_def dq_front_def dbg_assert_def dbg_assert_elem_in_def in_elements_def rq_begin_def rq_end_def)
qed

end
