(* ===== verification/DataProperties.thy ===== *)
theory DataProperties
  imports RunQueueDebug Scenario SyncFuncs
begin

text \<open>
  The properties of the data structures under the scheduler (run queue, thread identifiers), of
  the choice of the next thread, of the table of synchronization functions, and of the
  conversion of time to turns.
\<close>

section \<open>The run queue\<close>

text \<open>
  C27. The intrusive run queue is a queue: moving the front thread to the end \<open>i\<close> times brings
  the \<open>i\<close>-th thread to the front, and a full round serves every thread once and restores the
  order. No step faults, whatever the links of the elements outside the queue.
\<close>

theorem run_queue_round:
  assumes "sinv opt s xs hs" and "i < length xs"
  shows "(\<exists>s'. iterate i (requeue_front (\<lambda>s. rq_front (heap s) (runq s)) runq_push_back runq_pop_front) s = Inr s' \<and>
        rq_front (heap s') (runq s') = Inr (xs ! i)) \<and>
     (\<exists>s'. iterate (length xs) (requeue_front (\<lambda>s. rq_front (heap s) (runq s)) runq_push_back runq_pop_front) s = Inr s' \<and>
        rq_tids (heap s') (runq s') = Inr xs)"
  using runq.round_serves [OF assms] runq.full_round [OF assms(1)] queues_tids [OF sinvD(1)] by blast

theorem run_queue_round_witness:
  "\<exists>s s'. rq_tids (heap s) (runq s) = Inr [MainThreadTid, 1] \<and>
     iterate 1 (requeue_front (\<lambda>s. rq_front (heap s) (runq s)) runq_push_back runq_pop_front) s = Inr s' \<and>
     rq_front (heap s') (runq s') = Inr 1"
proof -
  obtain s where s: "holding default_options MainThreadTid s" "rq_tids (heap s) (runq s) = Inr [MainThreadTid, 1]"
    using scene_two by blast
  obtain ys where c: "core default_options s MainThreadTid ys" using holdingD [OF s(1)] by metis
  note i = coreD(1) [OF c]
  have "ys = [1]" using queues_tids [OF sinvD(1) [OF i]] s(2) by simp
  then show ?thesis using run_queue_round [OF i, of 1] s(2) by auto
qed

text \<open>
  C33. The build of the run queue that checks itself computes what the other one computes. Over any
  sequence of operations that uses the queue as a queue, none of its checks fails, every operation
  returns the same, the two end in the same state, and the set of elements it keeps is that of the
  elements linked. It stops at an assertion when a thread is queued that is on the queue already.
\<close>

theorem debug_queue_agrees:
  assumes "queues M m q xs p ys" and "legal_run (set ys) ops (m, q)"
  shows "\<exists>as m' q' xs'. run_ops rq_do ops (m, q) = Inr (as, m', q') \<and> rq_tids m' q' = Inr xs' \<and>
    run_ops dq_do ops (m, q, set (addrs M xs)) = Inr (as, m', q', set (addrs M xs')) \<and>
    (\<forall>t. t \<in> set xs' \<and> tid_map q' t \<noteq> None \<longrightarrow> dq_push_back t (m', q', set (addrs M xs')) = Inl AssertFailed)"
  using debug_run [OF assms] queues_tids debug_catches(1) by metis

theorem debug_queue_agrees_witness:
  "\<exists>m q E as m' q' E'. legal_run {} [OpFront, OpSize, OpPopFront] (m, q) \<and>
     run_ops rq_do [OpFront, OpSize, OpPopFront] (m, q) = Inr (TidResult MainThreadTid # as, m', q') \<and>
     run_ops dq_do [OpFront, OpSize, OpPopFront] (m, q, E) = Inr (TidResult MainThreadTid # as, m', q', E') \<and>
     rq_tids m' q' = Inr [1]"
proof -
  obtain s where s: "holding default_options MainThreadTid s" "rq_tids (heap s) (runq s) = Inr [MainThreadTid, 1]"
    using scene_two by blast
  obtain ys where c: "core default_options s MainThreadTid ys" using holdingD [OF s(1)] by metis
  have "ys = [1]" using queues_tids [OF sinvD(1) [OF coreD(1) [OF c]]] s(2) by simp
  then have q: "queues (tid_map (runq s)) (heap s) (runq s) [MainThreadTid, 1] (hp_runq s) []" using sinvD(1) [OF coreD(1) [OF c]] by simp
  obtain a where "tid_map (runq s) MainThreadTid = Some a" using queuesD(7) [OF q] by auto
  then obtain m' q' where pop: "rq_pop_front (heap s) (runq s) = Inr (m', q')" "queues (tid_map (runq s)) m' q' [1] (hp_runq s) []"
    using queues_pop_front [OF q] by blast
  let ?ops = "[OpFront, OpSize, OpPopFront]"
  have l: "legal_run {} ?ops (heap s, runq s)"
    using s(2) queues_front(1) [OF q] pop(1) by (simp add: rq_do_def op_legal_def)
  have r: "run_ops rq_do ?ops (heap s, runq s) = Inr ([TidResult MainThreadTid, SizeResult (rq_size (runq s)), NoResult], m', q')"
    using queues_front(1) [OF q] pop(1) by (simp add: rq_do_def)
  have l0: "legal_run (set []) ?ops (heap s, runq s)" using l by simp
  from debug_queue_agrees [OF q l0] r obtain E' where
    "run_ops dq_do ?ops (heap s, runq s, set (addrs (tid_map (runq s)) [MainThreadTid, 1])) =
       Inr ([TidResult MainThreadTid, SizeResult (rq_size (runq s)), NoResult], m', q', E')" by auto
  then show ?thesis using l r queues_tids [OF pop(2)] by blast
qed

text \<open>
  Waking a set of threads appends each of them once: threads that are on the run queue stay
  where they are, the others follow in the given order.
\<close>

lemma wake_once:
  assumes "sinv opt s xs hs" and "distinct ts" and "\<forall>t \<in> set ts. t < nthread (tids s) \<and> t \<notin> set hs"
  shows "\<exists>s'. res_fold (push_absent (\<lambda>t s. rq_in t (heap s) (runq s)) runq_push_back) ts s = Inr s' \<and>
     rq_tids (heap s') (runq s') = Inr (xs @ filter (\<lambda>t. t \<notin> set xs) ts)"
  using runq.push_absent_all [OF assms(1), of ts] assms(2,3) queues_tids [OF sinvD(1)] by blast

lemma wake_once_witness:
  "\<exists>s s'. rq_tids (heap s) (runq s) = Inr [MainThreadTid, 1] \<and>
     res_fold (push_absent (\<lambda>t s. rq_in t (heap s) (runq s)) runq_push_back) [1, MainThreadTid] s = Inr s' \<and>
     rq_tids (heap s') (runq s') = Inr [MainThreadTid, 1]"
proof -
  obtain s where s: "holding default_options MainThreadTid s" "rq_tids (heap s) (runq s) = Inr [MainThreadTid, 1]"
     "nthread (tids s) = 2" using scene_two by blast
  obtain ys where c: "core default_options s MainThreadTid ys" using holdingD [OF s(1)] by metis
  note i = coreD(1) [OF c]
  have "ys = [1]" using queues_tids [OF sinvD(1) [OF i]] s(2) by simp
  then show ?thesis using wake_once [OF i, of "[1, MainThreadTid]"] s(2,3) by (auto simp: MainThreadTid_def)
qed

text \<open>
  A thread that yields is put somewhere behind the head of the run queue without disturbing
  the order of the others, and its element is marked.
\<close>

lemma yield_keeps_order:
  assumes "queues M m q xs p ys" and "tid_map q t = Some a" and "t \<notin> set xs" and "t \<notin> set ys"
  shows "\<exists>m' q' us vs. rq_insert_yield t m q = Inr (m', q') \<and> xs = us @ vs \<and> (us = [] \<longrightarrow> xs = []) \<and>
     rq_tids m' q' = Inr (us @ t # vs) \<and> rq_tids m' p = Inr ys \<and> (\<exists>e. cells m' a = Some e \<and> e_last_yield e)"
proof -
  define k where "k = yield_pos m q (addrs M xs)"
  obtain m' q' where r: "rq_insert_yield t m q = Inr (m', q')" "queues M m' q' (take k xs @ t # drop k xs) p ys"
     "meta m' = (meta m)(a := map_option (\<lambda>(u, s, y). (u, s, True)) (meta m a))"
    using queues_insert_yield [OF assms k_def] by blast
  note d = queuesD [OF assms(1)]
  have "M t = Some a" using d(3) assms(2) by (force simp: map_le_def)
  then obtain e where "cells m a = Some e" using elems_okD [OF d(1)] by blast
  then have "meta m' a = Some (e_tid e, e_status e, True)" using r(3) by (simp add: meta_def)
  then have "\<exists>e. cells m' a = Some e \<and> e_last_yield e" by (auto simp: meta_Some)
  moreover have "take k xs = [] \<longrightarrow> xs = []" by (cases xs) (auto simp: k_def yield_pos_def)
  moreover have "rq_tids m' p = Inr ys" using queues_tids r(2) queues_swap by blast
  ultimately show ?thesis
    using r(1) queues_tids [OF r(2)] append_take_drop_id [of k xs] by metis
qed

lemma yield_keeps_order_witness:
  "\<exists>m q m' q'. rq_tids m q = Inr [1] \<and> rq_insert_yield MainThreadTid m q = Inr (m', q') \<and>
     rq_tids m' q' = Inr [1, MainThreadTid]"
proof -
  obtain s where s: "holding default_options MainThreadTid s" "rq_tids (heap s) (runq s) = Inr [MainThreadTid, 1]"
    using scene_two by blast
  obtain ys where c: "core default_options s MainThreadTid ys" using holdingD [OF s(1)] by metis
  note i = coreD(1) [OF c]
  have ys: "ys = [1]" using queues_tids [OF sinvD(1) [OF i]] s(2) by simp
  then obtain a where a: "tid_map (runq s) MainThreadTid = Some a" using queuesD(7) [OF sinvD(1) [OF i]] by auto
  obtain m q where q: "queues (tid_map (runq s)) m q [1] (hp_runq s) []" "tid_map q = tid_map (runq s)"
    using queues_pop_front [OF sinvD(1) [OF i] a] ys by blast
  have "MainThreadTid \<noteq> 1" by (simp add: MainThreadTid_def)
  then obtain m' q' us vs where r: "rq_insert_yield MainThreadTid m q = Inr (m', q')" "[1] = us @ vs" "us = [] \<longrightarrow> [1] = []"
     "rq_tids m' q' = Inr (us @ MainThreadTid # vs)"
    using yield_keeps_order [OF q(1), of MainThreadTid a] a q(2) by auto
  then have "us = [1]" "vs = []" by (auto simp: Cons_eq_append_conv)
  then show ?thesis using r queues_tids [OF q(1)] by auto
qed

text \<open>
  Clearing a run queue frees exactly the elements its table names, leaves an empty queue and
  an empty table, and touches no other cell.
\<close>

lemma deep_clear_frees:
  assumes "elems_ok (tid_map q) m"
  shows "\<exists>m' q'. rq_deep_clear m q = Inr (m', q') \<and> tid_map q' = Map.empty \<and> rq_empty q' \<and>
     rq_tids m' q' = Inr [] \<and> (\<forall>a. cells m' a = (if a \<in> ran (tid_map q) then None else cells m a))"
proof -
  obtain m' q' where r: "rq_deep_clear m q = Inr (m', q')" "tid_map q' = Map.empty" "rq_list m' q' []"
     "\<forall>a. cells m' a = (if a \<in> ran (tid_map q) then None else cells m a)"
    using rq_deep_clear_spec [OF assms] by blast
  moreover have "queues Map.empty m' q' [] q' []" using r by (auto simp: queues_def elems_ok_def unlinked_def)
  ultimately show ?thesis using queues_tids rq_empty_list by blast
qed

lemma deep_clear_frees_witness:
  "\<exists>(s :: sched) m' q'. rq_tids (heap s) (runq s) = Inr [MainThreadTid, 1] \<and> rq_deep_clear (heap s) (runq s) = Inr (m', q') \<and>
     rq_empty q' \<and> tid_map q' = Map.empty"
proof -
  obtain s where s: "holding default_options MainThreadTid s" "rq_tids (heap s) (runq s) = Inr [MainThreadTid, 1]"
    using scene_two by blast
  obtain ys where c: "core default_options s MainThreadTid ys" using holdingD [OF s(1)] by metis
  have "elems_ok (tid_map (runq s)) (heap s)" using queuesD(1) [OF sinvD(1) [OF coreD(1) [OF c]]] .
  from deep_clear_frees [OF this] obtain m' q' where "rq_deep_clear (heap s) (runq s) = Inr (m', q')" "rq_empty q'"
     "tid_map q' = Map.empty" by auto
  then show ?thesis using s(2) by (intro exI [of _ s] exI [of _ m'] exI [of _ q']) simp
qed

section \<open>The next thread\<close>




section \<open>Thread identifiers\<close>

text \<open>
  C32. Round trip of thread identifiers. Registering a new handle gives the next identifier, and
  handle and identifier then name each other; ending the thread forgets both and leaves a zombie
  that joining removes; every other handle keeps its identifier throughout.
\<close>

theorem tid_round_trip:
  assumes "tm_inv m" and "p_t_map m th = None"
  shows "\<exists>m1 m2. tm_create opt th f m = Inr (nthread m, m1) \<and> tm_inv m1 \<and>
     tm_getTid th m1 = Some (nthread m) \<and> tm_getPthreadTid (nthread m) m1 = Some th \<and>
     tm_zombify opt (nthread m) th m1 = Inr m2 \<and> tm_inv m2 \<and> tm_zombie th m2 \<and> tm_getTid th m2 = None \<and>
     \<not> tm_zombie th (tm_reap th m2) \<and> (\<forall>th'. th' \<noteq> th \<longrightarrow> tm_getTid th' m2 = tm_getTid th' m)"
proof -
  obtain m1 where m1: "tm_create opt th f m = Inr (nthread m, m1)" "tm_inv m1"
     "p_t_map m1 = (p_t_map m)(th \<mapsto> nthread m)" using tm_create_inv [OF assms] by blast
  have "p_t_map m1 th = Some (nthread m)" using m1(3) by simp
  then have t: "t_p_map m1 (nthread m) = Some th" using m1(2) unfolding tm_inv_def ids_ok_def by blast
  obtain m2 where "tm_zombify opt (nthread m) th m1 = Inr m2" "tm_inv m2" "tm_zombie th m2" "tm_getTid th m2 = None"
     "\<forall>th'. th' \<noteq> th \<longrightarrow> tm_getTid th' m2 = tm_getTid th' m1" using tm_zombify_inv [OF m1(2) t] by blast
  then show ?thesis using m1 t
    by (intro exI [of _ m1] exI [of _ m2]) (auto simp: tm_getTid_def tm_getPthreadTid_def tm_zombie_def tm_reap_def)
qed

theorem tid_round_trip_witness:
  "\<exists>m m1. tm_inv m \<and> p_t_map m = [7 \<mapsto> MainThreadTid] \<and> tm_create default_options 8 0 m = Inr (1, m1) \<and>
     tm_getPthreadTid 1 m1 = Some 8"
proof -
  obtain m where m: "tm_inv m" "nthread m = 1" "p_t_map m = [7 \<mapsto> MainThreadTid]"
    using tm_reset_spec [of default_options 7 tm_cleared] by blast
  then have "p_t_map m 8 = None" by simp
  from tid_round_trip [OF m(1) this, of default_options 0] show ?thesis using m by auto
qed

section \<open>Names of synchronization functions\<close>

text \<open>
  Numbers, names and hook names of the synchronization functions determine each other: a
  non-zero number is found for a name exactly when the number has that name.
\<close>

lemma sync_names_round_trip:
  "(getNameID n = nr \<and> nr \<noteq> 0 \<longleftrightarrow> getName nr = Inr n) \<and> (getTernNameID n = nr \<and> nr \<noteq> 0 \<longleftrightarrow> getTernName nr = Inr n)"
  using getNameID_iff [of n nr] getTernNameID_iff [of n nr] by blast

section \<open>Time\<close>

text \<open>
  The difference of two normalized times is the normalized time that lies exactly as far
  from zero as the two lie apart, also when the second is earlier.
\<close>

lemma time_diff_correct:
  assumes "0 \<le> tv_nsec a" and "tv_nsec a < 1000000000" and "0 \<le> tv_nsec b" and "tv_nsec b < 1000000000"
    and "0 \<le> tv_nsec d" and "tv_nsec d < 1000000000"
  shows "time_diff a b = d \<longleftrightarrow>
     tv_sec d * 1000000000 + tv_nsec d = (tv_sec b * 1000000000 + tv_nsec b) - (tv_sec a * 1000000000 + tv_nsec a)"
proof -
  have n: "normal a" "normal b" "normal d" using assms by (simp_all add: normal_def)
  have eq: "nanos (time_diff a b) = nanos b - nanos a" by (rule time_diff_exact)
  show ?thesis using time_diff_unique [OF n] eq by (auto simp: nanos_def)
qed

lemma time_diff_correct_witness:
  "time_diff \<lparr>tv_sec = 1, tv_nsec = 900000000\<rparr> \<lparr>tv_sec = 3, tv_nsec = 100000000\<rparr> = \<lparr>tv_sec = 1, tv_nsec = 200000000\<rparr>"
  using time_diff_correct [of "\<lparr>tv_sec = 1, tv_nsec = 900000000\<rparr>" "\<lparr>tv_sec = 3, tv_nsec = 100000000\<rparr>" "\<lparr>tv_sec = 1, tv_nsec = 200000000\<rparr>"]
  by simp

text \<open>
  C35. Bounds of the conversion of an interval to turns. The result lies between five turns per
  thread plus one and one million, whichever of the two is larger; and an interval that is
  already over counts as one million turns, because its negative length wraps around.
\<close>

theorem rel_time_bounds:
  assumes "launch_idle_thread opt \<noteq> 0" and "0 < nanosec_per_turn opt" and "nanosec_per_turn opt < 1000000000000"
    and "5 * int n + 1 \<le> 1000000"
  shows "\<exists>k. relTimeToTurn opt n (Some t) = Inr k \<and> 5 * int n + 1 \<le> k \<and> k \<le> 1000000 \<and>
     (tv_sec t < 0 \<and> - 1000000 \<le> tv_sec t \<and> 0 \<le> tv_nsec t \<and> tv_nsec t < 1000000000 \<longrightarrow> k = 1000000)"
proof -
  let ?d = "nanos t mod 2 ^ 64 div nanosec_per_turn opt"
  have e: "relTimeToTurn opt n (Some t) = Inr (max (5 * int n + 1) (min 1000000 ?d))"
    using relTimeToTurn_eq [OF assms(1,2), of n t] assms(3) by simp
  have "1000000 \<le> ?d" if "tv_sec t < 0" "- 1000000 \<le> tv_sec t" "0 \<le> tv_nsec t" "tv_nsec t < 1000000000"
  proof -
    have r: "nanos t < 0" "- 1000000000000000 \<le> nanos t" using that by (simp_all add: nanos_def)
    then have "nanos t mod 2 ^ 64 = nanos t + 2 ^ 64" by (subst mod_pos_pos_trivial [symmetric, of _ "2 ^ 64"]) auto
    then have "1000000 * nanosec_per_turn opt \<le> nanos t mod 2 ^ 64" using r assms(3) by simp
    then show ?thesis using assms(2) by (simp add: zdiv_mono1 [of "1000000 * nanosec_per_turn opt" _ "nanosec_per_turn opt", simplified])
  qed
  then show ?thesis using e assms(4) by auto
qed

theorem rel_time_bounds_witness:
  "relTimeToTurn default_options 2 (Some \<lparr>tv_sec = - 1, tv_nsec = 0\<rparr>) = Inr 1000000"
  using rel_time_bounds [of default_options 2 "\<lparr>tv_sec = - 1, tv_nsec = 0\<rparr>"] by auto

end
