(* ===== verification/BaseRuntime.thy ===== *)
theory BaseRuntime
  imports RtBase
begin

text \<open>
  The base class \<open>Runtime\<close> of \<open>lib/runtime/runtime.cpp\<close>: each operation installs the
  caller's \<open>errno\<close>, calls the function of the C library of that name, and reports its result
  and the \<open>errno\<close> it left. The variants compiled with \<open>XTERN_PLUS_DBUG\<close>, which call the
  library of another tool, are not modelled. The operating system is the parameter \<open>os\<close>: from
  the name of a function, its arguments (pointers as addresses), \<open>errno\<close> and the state of the
  world to the result, the new \<open>errno\<close> and the new state of the world.
\<close>

section \<open>Frames\<close>

type_synonym 'w os = "syncfunc \<Rightarrow> int list \<Rightarrow> int \<Rightarrow> 'w \<Rightarrow> (int \<times> int) \<times> 'w"

type_synonym 'w base_op = "rt \<times> 'w \<Rightarrow> ((int \<times> int) \<times> rt \<times> 'w) res"

definition os_call :: "'w os \<Rightarrow> tid \<Rightarrow> syncfunc \<Rightarrow> int list \<Rightarrow> rt \<times> 'w \<Rightarrow> int \<times> rt \<times> 'w" where
  "os_call os self f args = (\<lambda>(r, w).
     let ((ret, e), w) = os f args (errno (tls_of r self)) w in (ret, set_errno self e r, w))"

definition base_call :: "'w os \<Rightarrow> tid \<Rightarrow> syncfunc \<Rightarrow> int list \<Rightarrow> int \<Rightarrow> 'w base_op" where
  "base_call os self f args error = (\<lambda>(r, w).
     let (ret, r, w) = os_call os self f args (set_errno self error r, w)
     in Inr ((ret, errno (tls_of r self)), r, w))"

text \<open>
  The read-write locks have the two assignments the other way round: they report the \<open>errno\<close>
  from before the call and restore it.
\<close>

definition base_call_swapped :: "'w os \<Rightarrow> tid \<Rightarrow> syncfunc \<Rightarrow> int list \<Rightarrow> int \<Rightarrow> 'w base_op" where
  "base_call_swapped os self f args error = (\<lambda>(r, w).
     let error = errno (tls_of r self); (ret, r, w) = os_call os self f args (r, w)
     in Inr ((ret, error), set_errno self error r, w))"

section \<open>Operations\<close>

definition base_pthread_create ::
  "'w os \<Rightarrow> tid \<Rightarrow> int \<Rightarrow> int \<Rightarrow> int \<Rightarrow> int \<Rightarrow> rt \<times> 'w \<Rightarrow> int \<times> rt \<times> 'w" where
  "base_pthread_create os self th a func arg = os_call os self ''pthread_create'' [th, a, func, arg]"

definition base_pthread_join :: "'w os \<Rightarrow> tid \<Rightarrow> int \<Rightarrow> int \<Rightarrow> rt \<times> 'w \<Rightarrow> int \<times> rt \<times> 'w" where
  "base_pthread_join os self th retval = os_call os self ''pthread_join'' [th, retval]"

definition base_pthread_exit :: "'a res" where
  "base_pthread_exit = Inl ThreadExit"

definition base_exit :: "nat \<Rightarrow> 'a res" where
  "base_exit status = Inl (ExitProcess status)"

definition base_pthreadCancel :: "'w os \<Rightarrow> tid \<Rightarrow> int \<Rightarrow> int \<Rightarrow> 'w base_op" where
  "base_pthreadCancel os self th = base_call os self ''pthread_cancel'' [th]"

definition base_pthreadMutexInit :: "'w os \<Rightarrow> tid \<Rightarrow> int \<Rightarrow> int \<Rightarrow> int \<Rightarrow> 'w base_op" where
  "base_pthreadMutexInit os self mu attr = base_call os self ''pthread_mutex_init'' [mu, attr]"

definition base_pthreadMutexDestroy :: "'w os \<Rightarrow> tid \<Rightarrow> int \<Rightarrow> int \<Rightarrow> 'w base_op" where
  "base_pthreadMutexDestroy os self mu = base_call os self ''pthread_mutex_destroy'' [mu]"

subsection \<open>Threads, sockets and names\<close>

definition base_pthread_detach :: "'w os \<Rightarrow> tid \<Rightarrow> int \<Rightarrow> int \<Rightarrow> 'w base_op" where
  "base_pthread_detach os self th = base_call os self ''pthread_detach'' [th]"

definition base_socket :: "'w os \<Rightarrow> tid \<Rightarrow> int \<Rightarrow> int \<Rightarrow> int \<Rightarrow> int \<Rightarrow> 'w base_op" where
  "base_socket os self domain ty protocol = base_call os self ''socket'' [domain, ty, protocol]"

definition base_getsockopt :: "'w os \<Rightarrow> tid \<Rightarrow> int \<Rightarrow> int \<Rightarrow> int \<Rightarrow> int \<Rightarrow> int \<Rightarrow> int \<Rightarrow> 'w base_op" where
  "base_getsockopt os self sockfd level optname optval optlen = base_call os self ''getsockopt'' [sockfd, level, optname, optval, optlen]"

definition base_setsockopt :: "'w os \<Rightarrow> tid \<Rightarrow> int \<Rightarrow> int \<Rightarrow> int \<Rightarrow> int \<Rightarrow> int \<Rightarrow> int \<Rightarrow> 'w base_op" where
  "base_setsockopt os self sockfd level optname optval optlen = base_call os self ''setsockopt'' [sockfd, level, optname, optval, optlen]"

definition base_pipe :: "'w os \<Rightarrow> tid \<Rightarrow> int \<Rightarrow> int \<Rightarrow> 'w base_op" where
  "base_pipe os self pipefd = base_call os self ''pipe'' [pipefd]"

definition base_fcntl :: "'w os \<Rightarrow> tid \<Rightarrow> int \<Rightarrow> int \<Rightarrow> int \<Rightarrow> int \<Rightarrow> 'w base_op" where
  "base_fcntl os self fd cmd arg = base_call os self ''fcntl'' [fd, cmd, arg]"

definition base_listen :: "'w os \<Rightarrow> tid \<Rightarrow> int \<Rightarrow> int \<Rightarrow> int \<Rightarrow> 'w base_op" where
  "base_listen os self sockfd backlog = base_call os self ''listen'' [sockfd, backlog]"

definition base_accept4 :: "'w os \<Rightarrow> tid \<Rightarrow> int \<Rightarrow> int \<Rightarrow> int \<Rightarrow> int \<Rightarrow> int \<Rightarrow> 'w base_op" where
  "base_accept4 os self sockfd cliaddr addrlen flags = base_call os self ''accept4'' [sockfd, cliaddr, addrlen, flags]"

definition base_gethostbyname :: "'w os \<Rightarrow> tid \<Rightarrow> int \<Rightarrow> int \<Rightarrow> 'w base_op" where
  "base_gethostbyname os self name = base_call os self ''gethostbyname'' [name]"

definition base_gethostbyname_r :: "'w os \<Rightarrow> tid \<Rightarrow> int \<Rightarrow> int \<Rightarrow> int \<Rightarrow> int \<Rightarrow> int \<Rightarrow> int \<Rightarrow> int \<Rightarrow> 'w base_op" where
  "base_gethostbyname_r os self name hostent buf buflen result h_errnop = base_call os self ''gethostbyname_r'' [name, hostent, buf, buflen, result, h_errnop]"

definition base_getaddrinfo :: "'w os \<Rightarrow> tid \<Rightarrow> int \<Rightarrow> int \<Rightarrow> int \<Rightarrow> int \<Rightarrow> int \<Rightarrow> 'w base_op" where
  "base_getaddrinfo os self node service hints result = base_call os self ''getaddrinfo'' [node, service, hints, result]"

definition base_freeaddrinfo :: "'w os \<Rightarrow> tid \<Rightarrow> int \<Rightarrow> int \<Rightarrow> 'w base_op" where
  "base_freeaddrinfo os self result = base_call os self ''freeaddrinfo'' [result]"

definition base_gethostbyaddr :: "'w os \<Rightarrow> tid \<Rightarrow> int \<Rightarrow> int \<Rightarrow> int \<Rightarrow> int \<Rightarrow> 'w base_op" where
  "base_gethostbyaddr os self address len ty = base_call os self ''gethostbyaddr'' [address, len, ty]"

definition base_inet_ntoa :: "'w os \<Rightarrow> tid \<Rightarrow> int \<Rightarrow> int \<Rightarrow> 'w base_op" where
  "base_inet_ntoa os self in_addr = base_call os self ''inet_ntoa'' [in_addr]"

definition base_strtok :: "'w os \<Rightarrow> tid \<Rightarrow> int \<Rightarrow> int \<Rightarrow> int \<Rightarrow> 'w base_op" where
  "base_strtok os self str delimiters = base_call os self ''strtok'' [str, delimiters]"

subsection \<open>Sending and receiving\<close>

definition base_send :: "'w os \<Rightarrow> tid \<Rightarrow> int \<Rightarrow> int \<Rightarrow> int \<Rightarrow> int \<Rightarrow> int \<Rightarrow> 'w base_op" where
  "base_send os self sockfd buf len flags = base_call os self ''send'' [sockfd, buf, len, flags]"

definition base_sendto :: "'w os \<Rightarrow> tid \<Rightarrow> int \<Rightarrow> int \<Rightarrow> int \<Rightarrow> int \<Rightarrow> int \<Rightarrow> int \<Rightarrow> int \<Rightarrow> 'w base_op" where
  "base_sendto os self sockfd buf len flags dest_addr addrlen = base_call os self ''sendto'' [sockfd, buf, len, flags, dest_addr, addrlen]"

definition base_sendmsg :: "'w os \<Rightarrow> tid \<Rightarrow> int \<Rightarrow> int \<Rightarrow> int \<Rightarrow> int \<Rightarrow> 'w base_op" where
  "base_sendmsg os self sockfd msg flags = base_call os self ''sendmsg'' [sockfd, msg, flags]"

definition base_recvfrom :: "'w os \<Rightarrow> tid \<Rightarrow> int \<Rightarrow> int \<Rightarrow> int \<Rightarrow> int \<Rightarrow> int \<Rightarrow> int \<Rightarrow> int \<Rightarrow> 'w base_op" where
  "base_recvfrom os self sockfd buf len flags src_addr addrlen = base_call os self ''recvfrom'' [sockfd, buf, len, flags, src_addr, addrlen]"

definition base_recvmsg :: "'w os \<Rightarrow> tid \<Rightarrow> int \<Rightarrow> int \<Rightarrow> int \<Rightarrow> int \<Rightarrow> 'w base_op" where
  "base_recvmsg os self sockfd msg flags = base_call os self ''recvmsg'' [sockfd, msg, flags]"

definition base_shutdown :: "'w os \<Rightarrow> tid \<Rightarrow> int \<Rightarrow> int \<Rightarrow> int \<Rightarrow> 'w base_op" where
  "base_shutdown os self sockfd how = base_call os self ''shutdown'' [sockfd, how]"

definition base_getpeername :: "'w os \<Rightarrow> tid \<Rightarrow> int \<Rightarrow> int \<Rightarrow> int \<Rightarrow> int \<Rightarrow> 'w base_op" where
  "base_getpeername os self sockfd address addrlen = base_call os self ''getpeername'' [sockfd, address, addrlen]"

subsection \<open>Files\<close>

definition base_close :: "'w os \<Rightarrow> tid \<Rightarrow> int \<Rightarrow> int \<Rightarrow> 'w base_op" where
  "base_close os self fd = base_call os self ''close'' [fd]"

definition base_read :: "'w os \<Rightarrow> tid \<Rightarrow> int \<Rightarrow> int \<Rightarrow> int \<Rightarrow> int \<Rightarrow> 'w base_op" where
  "base_read os self fd buf n = base_call os self ''read'' [fd, buf, n]"

definition base_write :: "'w os \<Rightarrow> tid \<Rightarrow> int \<Rightarrow> int \<Rightarrow> int \<Rightarrow> int \<Rightarrow> 'w base_op" where
  "base_write os self fd buf n = base_call os self ''write'' [fd, buf, n]"

definition base_pread :: "'w os \<Rightarrow> tid \<Rightarrow> int \<Rightarrow> int \<Rightarrow> int \<Rightarrow> int \<Rightarrow> int \<Rightarrow> 'w base_op" where
  "base_pread os self fd buf n offset = base_call os self ''pread'' [fd, buf, n, offset]"

definition base_pwrite :: "'w os \<Rightarrow> tid \<Rightarrow> int \<Rightarrow> int \<Rightarrow> int \<Rightarrow> int \<Rightarrow> int \<Rightarrow> 'w base_op" where
  "base_pwrite os self fd buf n offset = base_call os self ''pwrite'' [fd, buf, n, offset]"

subsection \<open>Waiting for events\<close>

definition base_select :: "'w os \<Rightarrow> tid \<Rightarrow> int \<Rightarrow> int \<Rightarrow> int \<Rightarrow> int \<Rightarrow> int \<Rightarrow> int \<Rightarrow> 'w base_op" where
  "base_select os self nfds readfds writefds exceptfds limit = base_call os self ''select'' [nfds, readfds, writefds, exceptfds, limit]"

definition base_poll :: "'w os \<Rightarrow> tid \<Rightarrow> int \<Rightarrow> int \<Rightarrow> int \<Rightarrow> int \<Rightarrow> 'w base_op" where
  "base_poll os self fds nfds limit = base_call os self ''poll'' [fds, nfds, limit]"

definition base_bind :: "'w os \<Rightarrow> tid \<Rightarrow> int \<Rightarrow> int \<Rightarrow> int \<Rightarrow> int \<Rightarrow> 'w base_op" where
  "base_bind os self socket address address_len = base_call os self ''bind'' [socket, address, address_len]"

definition base_sigwait :: "'w os \<Rightarrow> tid \<Rightarrow> int \<Rightarrow> int \<Rightarrow> int \<Rightarrow> 'w base_op" where
  "base_sigwait os self sigset sig = base_call os self ''sigwait'' [sigset, sig]"

definition base_epoll_wait :: "'w os \<Rightarrow> tid \<Rightarrow> int \<Rightarrow> int \<Rightarrow> int \<Rightarrow> int \<Rightarrow> int \<Rightarrow> 'w base_op" where
  "base_epoll_wait os self epfd events maxevents limit = base_call os self ''epoll_wait'' [epfd, events, maxevents, limit]"

definition base_epoll_create :: "'w os \<Rightarrow> tid \<Rightarrow> int \<Rightarrow> int \<Rightarrow> 'w base_op" where
  "base_epoll_create os self sz = base_call os self ''epoll_create'' [sz]"

definition base_epoll_ctl :: "'w os \<Rightarrow> tid \<Rightarrow> int \<Rightarrow> int \<Rightarrow> int \<Rightarrow> int \<Rightarrow> int \<Rightarrow> 'w base_op" where
  "base_epoll_ctl os self epfd cmd fd event = base_call os self ''epoll_ctl'' [epfd, cmd, fd, event]"

subsection \<open>Sleeping, processes\<close>

definition base_sleep :: "'w os \<Rightarrow> tid \<Rightarrow> int \<Rightarrow> int \<Rightarrow> 'w base_op" where
  "base_sleep os self seconds = base_call os self ''sleep'' [seconds]"

definition base_usleep :: "'w os \<Rightarrow> tid \<Rightarrow> int \<Rightarrow> int \<Rightarrow> 'w base_op" where
  "base_usleep os self usec = base_call os self ''usleep'' [usec]"

definition base_fgets :: "'w os \<Rightarrow> tid \<Rightarrow> int \<Rightarrow> int \<Rightarrow> int \<Rightarrow> int \<Rightarrow> 'w base_op" where
  "base_fgets os self buf sz file = base_call os self ''fgets'' [buf, sz, file]"

definition base_kill :: "'w os \<Rightarrow> tid \<Rightarrow> int \<Rightarrow> int \<Rightarrow> int \<Rightarrow> 'w base_op" where
  "base_kill os self pid sig = base_call os self ''kill'' [pid, sig]"

definition base_fork :: "'w os \<Rightarrow> tid \<Rightarrow> int \<Rightarrow> 'w base_op" where
  "base_fork os self = base_call os self ''fork'' []"

definition base_execv :: "'w os \<Rightarrow> tid \<Rightarrow> int \<Rightarrow> int \<Rightarrow> int \<Rightarrow> 'w base_op" where
  "base_execv os self path argv = base_call os self ''execv'' [path, argv]"

definition base_wait :: "'w os \<Rightarrow> tid \<Rightarrow> int \<Rightarrow> int \<Rightarrow> 'w base_op" where
  "base_wait os self status = base_call os self ''wait'' [status]"

definition base_waitpid :: "'w os \<Rightarrow> tid \<Rightarrow> int \<Rightarrow> int \<Rightarrow> int \<Rightarrow> int \<Rightarrow> 'w base_op" where
  "base_waitpid os self pid status flags = base_call os self ''waitpid'' [pid, status, flags]"

definition base_sched_yield :: "'w os \<Rightarrow> tid \<Rightarrow> int \<Rightarrow> 'w base_op" where
  "base_sched_yield os self = base_call os self ''sched_yield'' []"

definition base_nanosleep :: "'w os \<Rightarrow> tid \<Rightarrow> int \<Rightarrow> int \<Rightarrow> int \<Rightarrow> 'w base_op" where
  "base_nanosleep os self req rem = base_call os self ''nanosleep'' [req, rem]"

subsection \<open>Time\<close>

definition base_time :: "'w os \<Rightarrow> tid \<Rightarrow> int \<Rightarrow> int \<Rightarrow> 'w base_op" where
  "base_time os self t = base_call os self ''time'' [t]"

definition base_clock_getres :: "'w os \<Rightarrow> tid \<Rightarrow> int \<Rightarrow> int \<Rightarrow> int \<Rightarrow> 'w base_op" where
  "base_clock_getres os self clk_id result = base_call os self ''clock_getres'' [clk_id, result]"

definition base_clock_gettime :: "'w os \<Rightarrow> tid \<Rightarrow> int \<Rightarrow> int \<Rightarrow> int \<Rightarrow> 'w base_op" where
  "base_clock_gettime os self clk_id tp = base_call os self ''clock_gettime'' [clk_id, tp]"

definition base_clock_settime :: "'w os \<Rightarrow> tid \<Rightarrow> int \<Rightarrow> int \<Rightarrow> int \<Rightarrow> 'w base_op" where
  "base_clock_settime os self clk_id tp = base_call os self ''clock_settime'' [clk_id, tp]"

definition base_gettimeofday :: "'w os \<Rightarrow> tid \<Rightarrow> int \<Rightarrow> int \<Rightarrow> int \<Rightarrow> 'w base_op" where
  "base_gettimeofday os self tv tz = base_call os self ''gettimeofday'' [tv, tz]"

definition base_settimeofday :: "'w os \<Rightarrow> tid \<Rightarrow> int \<Rightarrow> int \<Rightarrow> int \<Rightarrow> 'w base_op" where
  "base_settimeofday os self tv tz = base_call os self ''settimeofday'' [tv, tz]"

subsection \<open>Semaphores and mutexes\<close>

definition base_sem_init :: "'w os \<Rightarrow> tid \<Rightarrow> int \<Rightarrow> int \<Rightarrow> int \<Rightarrow> int \<Rightarrow> 'w base_op" where
  "base_sem_init os self sp pshared v = base_call os self ''sem_init'' [sp, pshared, v]"

definition base_sem_wait :: "'w os \<Rightarrow> tid \<Rightarrow> int \<Rightarrow> int \<Rightarrow> 'w base_op" where
  "base_sem_wait os self sp = base_call os self ''sem_wait'' [sp]"

definition base_sem_post :: "'w os \<Rightarrow> tid \<Rightarrow> int \<Rightarrow> int \<Rightarrow> 'w base_op" where
  "base_sem_post os self sp = base_call os self ''sem_post'' [sp]"

definition base_pthread_mutex_init :: "'w os \<Rightarrow> tid \<Rightarrow> int \<Rightarrow> int \<Rightarrow> int \<Rightarrow> 'w base_op" where
  "base_pthread_mutex_init os self mu attr = base_call os self ''pthread_mutex_init'' [mu, attr]"

definition base_pthread_mutex_destroy :: "'w os \<Rightarrow> tid \<Rightarrow> int \<Rightarrow> int \<Rightarrow> 'w base_op" where
  "base_pthread_mutex_destroy os self mu = base_call os self ''pthread_mutex_destroy'' [mu]"

definition base_pthread_mutex_lock :: "'w os \<Rightarrow> tid \<Rightarrow> int \<Rightarrow> int \<Rightarrow> 'w base_op" where
  "base_pthread_mutex_lock os self mu = base_call os self ''pthread_mutex_lock'' [mu]"

definition base_pthread_mutex_unlock :: "'w os \<Rightarrow> tid \<Rightarrow> int \<Rightarrow> int \<Rightarrow> 'w base_op" where
  "base_pthread_mutex_unlock os self mu = base_call os self ''pthread_mutex_unlock'' [mu]"

subsection \<open>Read-write locks\<close>

definition base_pthread_rwlock_rdlock :: "'w os \<Rightarrow> tid \<Rightarrow> int \<Rightarrow> int \<Rightarrow> 'w base_op" where
  "base_pthread_rwlock_rdlock os self rw = base_call_swapped os self ''pthread_rwlock_rdlock'' [rw]"

definition base_pthread_rwlock_tryrdlock :: "'w os \<Rightarrow> tid \<Rightarrow> int \<Rightarrow> int \<Rightarrow> 'w base_op" where
  "base_pthread_rwlock_tryrdlock os self rw = base_call_swapped os self ''pthread_rwlock_tryrdlock'' [rw]"

definition base_pthread_rwlock_wrlock :: "'w os \<Rightarrow> tid \<Rightarrow> int \<Rightarrow> int \<Rightarrow> 'w base_op" where
  "base_pthread_rwlock_wrlock os self rw = base_call_swapped os self ''pthread_rwlock_wrlock'' [rw]"

definition base_pthread_rwlock_trywrlock :: "'w os \<Rightarrow> tid \<Rightarrow> int \<Rightarrow> int \<Rightarrow> 'w base_op" where
  "base_pthread_rwlock_trywrlock os self rw = base_call_swapped os self ''pthread_rwlock_trywrlock'' [rw]"

definition base_pthread_rwlock_unlock :: "'w os \<Rightarrow> tid \<Rightarrow> int \<Rightarrow> int \<Rightarrow> 'w base_op" where
  "base_pthread_rwlock_unlock os self rw = base_call_swapped os self ''pthread_rwlock_unlock'' [rw]"

definition base_pthread_rwlock_destroy :: "'w os \<Rightarrow> tid \<Rightarrow> int \<Rightarrow> int \<Rightarrow> 'w base_op" where
  "base_pthread_rwlock_destroy os self rw = base_call_swapped os self ''pthread_rwlock_destroy'' [rw]"

definition base_pthread_rwlock_init :: "'w os \<Rightarrow> tid \<Rightarrow> int \<Rightarrow> int \<Rightarrow> int \<Rightarrow> 'w base_op" where
  "base_pthread_rwlock_init os self rw attr = base_call_swapped os self ''pthread_rwlock_init'' [rw, attr]"

section \<open>Connections that are made non-blocking\<close>

definition F_SETFL :: int where
  "F_SETFL = 4"

definition O_NONBLOCK :: int where
  "O_NONBLOCK = 2048"

definition sock_nonblock :: "'w os \<Rightarrow> tid \<Rightarrow> int \<Rightarrow> rt \<times> 'w \<Rightarrow> bool \<times> rt \<times> 'w" where
  "sock_nonblock os self fd s =
     (let (ret, s) = os_call os self ''fcntl'' [fd, F_SETFL, O_NONBLOCK] s in (ret \<ge> 0, s))"

text \<open>
  \<open>accept\<close> and \<open>connect\<close> set the flag inside an \<open>assert\<close>: without assertions the socket
  stays blocking. \<open>accept\<close> sets it on the listening socket.
\<close>

definition assert_nonblock :: "options \<Rightarrow> 'w os \<Rightarrow> tid \<Rightarrow> int \<Rightarrow> rt \<times> 'w \<Rightarrow> (rt \<times> 'w) res" where
  "assert_nonblock opt os self fd s =
     (if non_block_recv opt \<and> \<not> ndebug opt
      then let (ok, s) = sock_nonblock os self fd s in check AssertFailed ok (Inr s) else Inr s)"

definition base_accept :: "options \<Rightarrow> 'w os \<Rightarrow> tid \<Rightarrow> int \<Rightarrow> int \<Rightarrow> int \<Rightarrow> int \<Rightarrow> 'w base_op" where
  "base_accept opt os self sockfd cliaddr addrlen error = (\<lambda>(r, w).
     let (ret, s) = os_call os self ''accept'' [sockfd, cliaddr, addrlen] (set_errno self error r, w) in
     res_bind (assert_nonblock opt os self sockfd s) (\<lambda>(r, w). Inr ((ret, errno (tls_of r self)), r, w)))"

definition base_connect :: "options \<Rightarrow> 'w os \<Rightarrow> tid \<Rightarrow> int \<Rightarrow> int \<Rightarrow> int \<Rightarrow> int \<Rightarrow> 'w base_op" where
  "base_connect opt os self sockfd serv_addr addrlen error = (\<lambda>(r, w).
     let (ret, s) = os_call os self ''connect'' [sockfd, serv_addr, addrlen] (set_errno self error r, w) in
     res_bind (assert_nonblock opt os self sockfd s) (\<lambda>(r, w). Inr ((ret, errno (tls_of r self)), r, w)))"

section \<open>Receiving\<close>

text \<open>
  \<open>recv\<close> asks again until the buffer is full, ten times nothing came, or a call failed. The
  lengths are compared as \<open>int\<close>s. \<open>nanosleep\<close> is given the interval it sleeps. The bound
  \<open>recv_bound\<close> of the loop suffices when a call returns at most what it was asked for.
\<close>

definition to_int32 :: "int \<Rightarrow> int" where
  "to_int32 x = sint (word_of_int x :: 32 word)"

fun recv_loop ::
  "nat \<Rightarrow> options \<Rightarrow> 'w os \<Rightarrow> tid \<Rightarrow> int \<Rightarrow> int \<Rightarrow> int \<Rightarrow> int \<Rightarrow> int \<Rightarrow> nat \<Rightarrow> rt \<times> 'w \<Rightarrow> (int \<times> rt \<times> 'w) res" where
  "recv_loop 0 opt os self sockfd buf len flags ret try_count s = Inl LoopBound"
| "recv_loop (Suc n) opt os self sockfd buf len flags ret try_count s =
     (if to_int32 ret < to_int32 len \<and> try_count < 10
      then let (sr, s) = os_call os self ''recv'' [sockfd, buf + ret, len - ret, flags] s;
               ret = (if sr \<ge> 0 then ret + sr else if ret = 0 then - 1 else ret) in
           if sr < 0 \<or> \<not> non_block_recv opt then Inr (ret, s)
           else if sr = 0
           then recv_loop n opt os self sockfd buf len flags ret (try_count + 1)
                  (snd (os_call os self ''nanosleep'' [0, 100000000] s))
           else recv_loop n opt os self sockfd buf len flags ret try_count s
      else Inr (ret, s))"

definition recv_bound :: "int \<Rightarrow> nat" where
  "recv_bound len = nat len + 11"

definition base_recv :: "options \<Rightarrow> 'w os \<Rightarrow> tid \<Rightarrow> int \<Rightarrow> int \<Rightarrow> int \<Rightarrow> int \<Rightarrow> int \<Rightarrow> 'w base_op" where
  "base_recv opt os self sockfd buf len flags error = (\<lambda>(r, w).
     res_bind (recv_loop (recv_bound len) opt os self sockfd buf len flags 0 0 (set_errno self error r, w)) (\<lambda>(ret, r, w).
     Inr ((ret, errno (tls_of r self)), r, w)))"

section \<open>Facts\<close>

lemma to_int32_small: "- (2 ^ 31) \<le> x \<Longrightarrow> x < 2 ^ 31 \<Longrightarrow> to_int32 x = x"
  by (simp add: to_int32_def sint_sbintrunc' signed_take_bit_int_eq_self)

lemma to_int32_large: "2 ^ 31 \<le> x \<Longrightarrow> x < 2 ^ 32 \<Longrightarrow> to_int32 x = x - 2 ^ 32"
proof -
  assume x: "2 ^ 31 \<le> x" "x < 2 ^ 32"
  have "(word_of_int x :: 32 word) = word_of_int (x - 2 ^ 32)" by (simp add: word_of_int_eq_iff take_bit_int_def mod_diff_right_eq)
  then have "to_int32 x = to_int32 (x - 2 ^ 32)" by (simp only: to_int32_def)
  also have "\<dots> = x - 2 ^ 32" using x by (intro to_int32_small) simp_all
  finally show ?thesis .
qed

text \<open>
  What the loop relies on: without \<open>MSG_TRUNC\<close> among the flags, which makes \<open>recv\<close> return the real
  length of a datagram, a call to \<open>recv\<close> delivers at most the length it was asked for.
\<close>

definition MSG_TRUNC_BIT :: nat where
  "MSG_TRUNC_BIT = 5"

definition recv_within :: "'w os \<Rightarrow> bool" where
  "recv_within os \<longleftrightarrow> (\<forall>fd buf n flags e w. 0 \<le> n \<and> \<not> bit flags MSG_TRUNC_BIT \<longrightarrow> fst (fst (os ''recv'' [fd, buf, n, flags] e w)) \<le> n)"

lemma os_call_recv:
  assumes "recv_within os" and "os_call os self ''recv'' [fd, buf, n, flags] s = (sr, s')" and "0 \<le> n" and "\<not> bit flags MSG_TRUNC_BIT"
  shows "sr \<le> n"
proof -
  obtain r w where s: "s = (r, w)" by (metis surj_pair)
  have "fst (fst (os ''recv'' [fd, buf, n, flags] (errno (tls_of r self)) w)) = sr"
    using assms(2) s by (auto simp: os_call_def Let_def split: prod.splits)
  then show ?thesis using assms(1,3,4) unfolding recv_within_def by metis
qed

lemma recv_loop_ok:
  assumes os: "recv_within os" and fl: "\<not> bit flags MSG_TRUNC_BIT"
  shows "0 \<le> ret \<Longrightarrow> ret \<le> len \<Longrightarrow> nat (len - ret) + (10 - tries) < n \<Longrightarrow>
     \<exists>ret' s'. recv_loop n opt os self sockfd buf len flags ret tries s = Inr (ret', s') \<and> - 1 \<le> ret' \<and> ret' \<le> len"
proof (induction n arbitrary: ret tries s)
  case (Suc n)
  have less: "ret < len" if "to_int32 ret < to_int32 len" using that Suc.prems(2) by (cases "ret = len") auto
  obtain sr s1 where c: "os_call os self ''recv'' [sockfd, buf + ret, len - ret, flags] s = (sr, s1)" by (metis surj_pair)
  have sr: "sr \<le> len - ret" using os_call_recv [OF os c _ fl] Suc.prems by simp
  let ?s2 = "snd (os_call os self ''nanosleep'' [0, 100000000] s1)"
  show ?case
  proof (cases "to_int32 ret < to_int32 len \<and> tries < 10 \<and> 0 \<le> sr \<and> non_block_recv opt")
    case True
    then show ?thesis
    proof (cases "sr = 0")
      case zero: True
      have "nat (len - ret) + (10 - (tries + 1)) < n" using Suc.prems True by arith
      from Suc.IH [OF Suc.prems(1,2) this, of ?s2] show ?thesis using True zero c by simp
    next
      case False
      then have "nat (len - (ret + sr)) + (10 - tries) < n" "0 \<le> ret + sr" "ret + sr \<le> len"
        using Suc.prems True sr less by auto
      from Suc.IH [OF this(2,3,1), of s1] show ?thesis using True False c by simp
    qed
  next
    case False
    then show ?thesis using Suc.prems sr c by auto
  qed
qed simp

end
