(* ===== verification/Hooks.thy ===== *)
theory Hooks
  imports RtIO RtCond RtBarrier BaseRuntime
begin

text \<open>
  The hooks of \<open>lib/runtime/hooks.cpp\<close>, which the program calls in place of the functions of
  the C library, and the spaces of \<open>lib/common/space.cpp\<close>. A hook saves \<open>errno\<close>, enters
  the system space, lets the runtime do the operation, goes back to the application space and
  installs the \<open>errno\<close> the operation reports. An operation that waits for the turn leaves its
  hook open: the rest of the hook (\<open>hook_exit\<close>, \<open>hook_io_end\<close>) runs when the operation is
  done.
\<close>

section \<open>Spaces\<close>

text \<open>\<open>app_space\<close> is \<open>current_space\<close>, with \<open>App\<close> as \<open>True\<close>.\<close>

definition isApp :: "tid \<Rightarrow> rt \<Rightarrow> bool" where
  "isApp self r \<longleftrightarrow> app_space (tls_of r self)"

definition isSys :: "tid \<Rightarrow> rt \<Rightarrow> bool" where
  "isSys self r \<longleftrightarrow> \<not> app_space (tls_of r self)"

definition cross :: "tid \<Rightarrow> rt \<Rightarrow> rt" where
  "cross self = upd_tls self (\<lambda>t. t\<lparr>app_space := \<not> app_space t\<rparr>)"

definition setSpace :: "tid \<Rightarrow> bool \<Rightarrow> rt \<Rightarrow> bool \<times> rt" where
  "setSpace self s r = (app_space (tls_of r self), upd_tls self (\<lambda>t. t\<lparr>app_space := s\<rparr>) r)"

definition getSpace :: "tid \<Rightarrow> rt \<Rightarrow> bool" where
  "getSpace self r = app_space (tls_of r self)"

definition enterSys :: "options \<Rightarrow> tid \<Rightarrow> rt \<Rightarrow> rt res" where
  "enterSys opt self r = assert_then opt (isApp self r) (Inr (cross self r))"

definition exitSys :: "options \<Rightarrow> tid \<Rightarrow> rt \<Rightarrow> rt res" where
  "exitSys opt self r = assert_then opt (isSys self r) (Inr (cross self r))"

section \<open>Frames\<close>

text \<open>
  What a hook does to \<open>errno\<close> at its end: it installs what the operation reports through its
  reference argument, restores the saved value, or leaves \<open>errno\<close> alone.
\<close>

datatype hook_errno = Reported | Saved int | Untouched

definition hook_exit :: "options \<Rightarrow> tid \<Rightarrow> hook_errno \<Rightarrow> 'k outcome \<times> rt \<Rightarrow> ('k outcome \<times> rt) res" where
  "hook_exit opt self he = (\<lambda>(out, r). case out of
     Done ret error \<Rightarrow> res_bind (exitSys opt self r) (\<lambda>r. Inr (case he of
       Reported \<Rightarrow> (Done ret error, set_errno self error r)
     | Saved e \<Rightarrow> (Done ret e, set_errno self e r)
     | Untouched \<Rightarrow> (Done ret error, r)))
   | _ \<Rightarrow> Inr (out, r))"

definition hook_op :: "options \<Rightarrow> tid \<Rightarrow> (int \<Rightarrow> rt \<Rightarrow> ('k outcome \<times> rt) res) \<Rightarrow> rt \<Rightarrow> ('k outcome \<times> rt) res" where
  "hook_op opt self op r =
     res_bind (enterSys opt self r) (\<lambda>r'. res_bind (op (errno (tls_of r self)) r') (hook_exit opt self Reported))"

definition hook_void :: "options \<Rightarrow> tid \<Rightarrow> (rt \<Rightarrow> ('k outcome \<times> rt) res) \<Rightarrow> rt \<Rightarrow> ('k outcome \<times> rt) res" where
  "hook_void opt self op r =
     res_bind (enterSys opt self r) (\<lambda>r'. res_bind (op r') (hook_exit opt self (Saved (errno (tls_of r self)))))"

definition hook_plain :: "options \<Rightarrow> tid \<Rightarrow> (rt \<Rightarrow> ('k outcome \<times> rt) res) \<Rightarrow> rt \<Rightarrow> ('k outcome \<times> rt) res" where
  "hook_plain opt self op r =
     res_bind (enterSys opt self r) (\<lambda>r. res_bind (op r) (hook_exit opt self Untouched))"

definition hook_rt :: "options \<Rightarrow> tid \<Rightarrow> (rt \<Rightarrow> rt res) \<Rightarrow> rt \<Rightarrow> rt res" where
  "hook_rt opt self op r =
     res_bind (enterSys opt self r) (\<lambda>r'. res_bind (op r') (\<lambda>r'. res_bind (exitSys opt self r') (\<lambda>r'.
     Inr (set_errno self (errno (tls_of r self)) r'))))"

text \<open>A thread begins in the system space and ends there.\<close>

definition thread_begin_exit :: "options \<Rightarrow> tid \<Rightarrow> int \<Rightarrow> 'k outcome \<times> rt \<Rightarrow> ('k outcome \<times> rt) res" where
  "thread_begin_exit opt self error = (\<lambda>(out, r). case out of
     Done ret _ \<Rightarrow> res_bind (exitSys opt self r) (\<lambda>r.
       assert_then opt (isApp self r) (Inr (Done ret error, set_errno self error r)))
   | _ \<Rightarrow> Inr (out, r))"

definition thread_end_exit :: "options \<Rightarrow> tid \<Rightarrow> int \<Rightarrow> 'k outcome \<times> rt \<Rightarrow> ('k outcome \<times> rt) res" where
  "thread_end_exit opt self error = (\<lambda>(out, r). case out of
     Done ret _ \<Rightarrow> assert_then opt (isSys self r) (Inr (Done ret error, set_errno self error r))
   | _ \<Rightarrow> Inr (out, r))"

text \<open>
  Inside a non-deterministic region an operation goes to the base class, or, as most do, straight
  to the C library: then the reference argument keeps the saved \<open>errno\<close>.
\<close>

definition through_base :: "syncfunc list" where
  "through_base = [''pthread_mutex_init'', ''pthread_mutex_destroy'', ''pthread_mutex_lock'', ''pthread_mutex_unlock'',
     ''sem_init'', ''sem_wait'', ''sem_post'']"

definition native_call :: "'w os \<Rightarrow> tid \<Rightarrow> syncfunc \<Rightarrow> int list \<Rightarrow> int \<Rightarrow> 'w base_op" where
  "native_call os self f args error s =
     (if f \<in> set through_base then base_call os self f args error s
      else let (ret, s) = os_call os self f args s in Inr ((ret, error), s))"

definition hook_native :: "options \<Rightarrow> 'w os \<Rightarrow> tid \<Rightarrow> syncfunc \<Rightarrow> int list \<Rightarrow> int \<Rightarrow> rt \<times> 'w \<Rightarrow> (int \<times> rt \<times> 'w) res" where
  "hook_native opt os self f args error s =
     res_bind (native_call os self f args error s) (\<lambda>((ret, e), r, w).
     res_bind (exitSys opt self r) (\<lambda>r. Inr (ret, set_errno self e r, w)))"

text \<open>
  A call of the hook \<open>h\<close>, with what it hands to the C library: the hook has saved \<open>errno\<close> when it
  was entered. An operation that has to wait for the turn leaves it open (\<open>Await\<close>).
\<close>

definition hook_call ::
  "options \<Rightarrow> 'w os \<Rightarrow> tid \<Rightarrow> (rt \<Rightarrow> ('k outcome \<times> rt) res) \<Rightarrow> rt \<times> 'w \<Rightarrow> ('k outcome \<times> rt \<times> 'w) res" where
  "hook_call opt os self h = (\<lambda>(r, w).
     res_bind (h r) (\<lambda>(out, r'). case out of
       Native f args \<Rightarrow> res_bind (hook_native opt os self f args (errno (tls_of r self)) (r', w)) (\<lambda>(ret, r', w').
         Inr (Done ret (errno (tls_of r' self)), r', w'))
     | _ \<Rightarrow> Inr (out, r', w)))"

text \<open>A blocking call: the saved \<open>errno\<close> and how the call proceeds.\<close>

type_synonym hook_io_out = "((int \<times> io_step) \<times> rt) res"

definition hook_io :: "options \<Rightarrow> tid \<Rightarrow> (rt \<Rightarrow> io_out) \<Rightarrow> rt \<Rightarrow> hook_io_out" where
  "hook_io opt self op r =
     res_bind (enterSys opt self r) (\<lambda>r'. res_bind (op r') (\<lambda>(st, r'). Inr ((errno (tls_of r self), st), r')))"

text \<open>The member of the base class of that name.\<close>

definition base_dispatch :: "options \<Rightarrow> 'w os \<Rightarrow> tid \<Rightarrow> syncfunc \<Rightarrow> int list \<Rightarrow> int \<Rightarrow> 'w base_op" where
  "base_dispatch opt os self f args error =
     (if f = ''accept'' then base_accept opt os self (args ! 0) (args ! 1) (args ! 2) error
      else if f = ''connect'' then base_connect opt os self (args ! 0) (args ! 1) (args ! 2) error
      else if f = ''recv'' then base_recv opt os self (args ! 0) (args ! 1) (args ! 2) (args ! 3) error
      else base_call os self f args error)"

text \<open>The rest of the operation: \<open>None\<close> while the thread has yet to take the turn.\<close>

definition io_finish :: "options \<Rightarrow> 'w os \<Rightarrow> tid \<Rightarrow> io_step \<Rightarrow> int \<Rightarrow> rt \<times> 'w \<Rightarrow> ((int \<times> int) \<times> rt \<times> 'w) res option" where
  "io_finish opt os self st error s = (case st of
     IoTurn _ _ \<Rightarrow> None
   | IoNative f args \<Rightarrow> Some (base_dispatch opt os self f args error s)
   | IoDirect f args \<Rightarrow> Some (let (ret, s) = os_call os self f args s in Inr ((ret, error), s))
   | IoCall f args \<Rightarrow> Some (res_bind (base_dispatch opt os self f args error s) (\<lambda>((ret, e), r, w).
       res_bind (if f = ''accept'' \<or> f = ''connect'' then io_end_address opt self (args ! 1) ret e r
                 else io_end opt self ret e r) (\<lambda>(re, r). Inr (re, r, w)))))"

text \<open>
  The hooks keep the result in an \<open>int\<close> (\<open>pid_t\<close> for the time), also those of functions that
  return an \<open>ssize_t\<close> or \<open>time_t\<close>.
\<close>

definition narrowed :: "syncfunc list" where
  "narrowed = [''send'', ''sendto'', ''sendmsg'', ''recv'', ''recvfrom'', ''recvmsg'', ''read'', ''write'', ''pread'', ''pwrite'', ''time'']"

definition hook_ret :: "syncfunc \<Rightarrow> int \<Rightarrow> int" where
  "hook_ret f ret = (if f \<in> set narrowed then to_int32 ret else ret)"

primrec step_name :: "io_step \<Rightarrow> syncfunc" where
  "step_name (IoNative f args) = f"
| "step_name (IoDirect f args) = f"
| "step_name (IoTurn f args) = f"
| "step_name (IoCall f args) = f"

definition hook_io_end :: "options \<Rightarrow> 'w os \<Rightarrow> tid \<Rightarrow> io_step \<Rightarrow> int \<Rightarrow> rt \<times> 'w \<Rightarrow> (int \<times> rt \<times> 'w) res option" where
  "hook_io_end opt os self st error s = map_option (\<lambda>m.
     res_bind m (\<lambda>((ret, e), r, w). res_bind (exitSys opt self r) (\<lambda>r.
     Inr (hook_ret (step_name st) ret, set_errno self e r, w)))) (io_finish opt os self st error s)"

section \<open>The program\<close>

definition tern_prog_begin :: "options \<Rightarrow> tid \<Rightarrow> rt \<Rightarrow> rt res" where
  "tern_prog_begin opt self r = assert_then opt (isSys self r) (Inr r)"

definition tern_prog_end :: "options \<Rightarrow> tid \<Rightarrow> rt \<Rightarrow> rt res" where
  "tern_prog_end opt self r = assert_then opt (isSys self r) (Inr r)"

section \<open>Threads\<close>

definition tern_thread_begin :: "options \<Rightarrow> tid \<Rightarrow> rt \<Rightarrow> thread_out" where
  "tern_thread_begin opt self r =
     assert_then opt (isSys self r)
       (res_bind (threadBegin opt self r) (thread_begin_exit opt self (errno (tls_of r self))))"

definition tern_thread_end :: "options \<Rightarrow> tid \<Rightarrow> u32 \<Rightarrow> rt \<Rightarrow> thread_out" where
  "tern_thread_end opt self ins r =
     assert_then opt (isApp self r)
       (res_bind (enterSys opt self r) (\<lambda>r'. res_bind (threadEnd opt self ins r') (thread_end_exit opt self (errno (tls_of r self)))))"

definition tern_pthread_create :: "options \<Rightarrow> tid \<Rightarrow> u32 \<Rightarrow> pthread \<Rightarrow> func \<Rightarrow> pthread \<Rightarrow> func \<Rightarrow> vptr \<Rightarrow> rt \<Rightarrow> thread_out" where
  "tern_pthread_create opt self ins th f idle idle_func idle_mutex =
     hook_op opt self (\<lambda>error. pthreadCreate opt self ins error th f idle idle_func idle_mutex)"

definition tern_pthread_join :: "options \<Rightarrow> tid \<Rightarrow> u32 \<Rightarrow> pthread \<Rightarrow> rt \<Rightarrow> thread_out" where
  "tern_pthread_join opt self ins th = hook_op opt self (\<lambda>error. pthreadJoin opt self ins error th)"

section \<open>Locks\<close>

definition tern_pthread_mutex_init :: "options \<Rightarrow> tid \<Rightarrow> u32 \<Rightarrow> vptr \<Rightarrow> mutex_kind option \<Rightarrow> rt \<Rightarrow> lock_out" where
  "tern_pthread_mutex_init opt self ins mu mutexattr =
     hook_op opt self (\<lambda>error. pthreadMutexInit opt self ins error mu
       (case mutexattr of Some k \<Rightarrow> k | None \<Rightarrow> if set_mutex_errorcheck opt then MErrorcheck else MNormal))"

definition tern_pthread_mutex_destroy :: "options \<Rightarrow> tid \<Rightarrow> u32 \<Rightarrow> vptr \<Rightarrow> rt \<Rightarrow> lock_out" where
  "tern_pthread_mutex_destroy opt self ins mu = hook_op opt self (\<lambda>error. pthreadMutexDestroy opt self ins error mu)"

definition tern_pthread_mutex_lock :: "options \<Rightarrow> tid \<Rightarrow> u32 \<Rightarrow> vptr \<Rightarrow> rt \<Rightarrow> lock_out" where
  "tern_pthread_mutex_lock opt self ins mu = hook_op opt self (\<lambda>error. pthreadMutexLock opt self ins error mu)"

definition tern_pthread_mutex_trylock :: "options \<Rightarrow> tid \<Rightarrow> u32 \<Rightarrow> vptr \<Rightarrow> rt \<Rightarrow> lock_out" where
  "tern_pthread_mutex_trylock opt self ins mu = hook_op opt self (\<lambda>error. pthreadMutexTryLock opt self ins error mu)"

definition tern_pthread_mutex_timedlock :: "options \<Rightarrow> tid \<Rightarrow> u32 \<Rightarrow> vptr \<Rightarrow> timespec option \<Rightarrow> timespec \<Rightarrow> rt \<Rightarrow> lock_out" where
  "tern_pthread_mutex_timedlock opt self ins mu abstime now = hook_op opt self (\<lambda>error. pthreadMutexTimedLock opt self ins error mu abstime now)"

definition tern_pthread_mutex_unlock :: "options \<Rightarrow> tid \<Rightarrow> u32 \<Rightarrow> vptr \<Rightarrow> rt \<Rightarrow> lock_out" where
  "tern_pthread_mutex_unlock opt self ins mu = hook_op opt self (\<lambda>error. pthreadMutexUnlock opt self ins error mu)"

definition tern_pthread_rwlock_rdlock :: "options \<Rightarrow> tid \<Rightarrow> u32 \<Rightarrow> vptr \<Rightarrow> rt \<Rightarrow> lock_out" where
  "tern_pthread_rwlock_rdlock opt self ins rw = hook_op opt self (\<lambda>error. rwlock_rdlock opt self ins error rw)"

definition tern_pthread_rwlock_tryrdlock :: "options \<Rightarrow> tid \<Rightarrow> u32 \<Rightarrow> vptr \<Rightarrow> rt \<Rightarrow> lock_out" where
  "tern_pthread_rwlock_tryrdlock opt self ins rw = hook_op opt self (\<lambda>error. rwlock_tryrdlock opt self ins error rw)"

definition tern_pthread_rwlock_wrlock :: "options \<Rightarrow> tid \<Rightarrow> u32 \<Rightarrow> vptr \<Rightarrow> rt \<Rightarrow> lock_out" where
  "tern_pthread_rwlock_wrlock opt self ins rw = hook_op opt self (\<lambda>error. rwlock_wrlock opt self ins error rw)"

definition tern_pthread_rwlock_trywrlock :: "options \<Rightarrow> tid \<Rightarrow> u32 \<Rightarrow> vptr \<Rightarrow> rt \<Rightarrow> lock_out" where
  "tern_pthread_rwlock_trywrlock opt self ins rw = hook_op opt self (\<lambda>error. rwlock_trywrlock opt self ins error rw)"

definition tern_pthread_rwlock_unlock :: "options \<Rightarrow> tid \<Rightarrow> u32 \<Rightarrow> vptr \<Rightarrow> rt \<Rightarrow> lock_out" where
  "tern_pthread_rwlock_unlock opt self ins rw = hook_op opt self (\<lambda>error. rwlock_unlock opt self ins error rw)"

definition tern_pthread_rwlock_destroy :: "options \<Rightarrow> tid \<Rightarrow> u32 \<Rightarrow> vptr \<Rightarrow> rt \<Rightarrow> lock_out" where
  "tern_pthread_rwlock_destroy opt self ins rw = hook_op opt self (\<lambda>error. rwlock_destroy opt self ins error rw)"

definition tern_pthread_rwlock_init :: "options \<Rightarrow> tid \<Rightarrow> u32 \<Rightarrow> vptr \<Rightarrow> int \<Rightarrow> rt \<Rightarrow> lock_out" where
  "tern_pthread_rwlock_init opt self ins rw attr = hook_op opt self (\<lambda>error. rwlock_init opt self ins error rw attr)"

section \<open>Condition variables and semaphores\<close>

definition tern_pthread_cond_wait :: "options \<Rightarrow> tid \<Rightarrow> u32 \<Rightarrow> vptr \<Rightarrow> vptr \<Rightarrow> int \<Rightarrow> rt \<Rightarrow> cond_out" where
  "tern_pthread_cond_wait opt self ins cv mu caller = hook_op opt self (\<lambda>error. pthreadCondWait opt self ins error cv mu caller)"

definition tern_pthread_cond_timedwait :: "options \<Rightarrow> tid \<Rightarrow> u32 \<Rightarrow> vptr \<Rightarrow> vptr \<Rightarrow> timespec option \<Rightarrow> timespec \<Rightarrow> int \<Rightarrow> rt \<Rightarrow> cond_out" where
  "tern_pthread_cond_timedwait opt self ins cv mu abstime now caller = hook_op opt self (\<lambda>error. pthreadCondTimedWait opt self ins error cv mu abstime now caller)"

definition tern_pthread_cond_signal :: "options \<Rightarrow> tid \<Rightarrow> u32 \<Rightarrow> vptr \<Rightarrow> rt \<Rightarrow> cond_out" where
  "tern_pthread_cond_signal opt self ins cv = hook_op opt self (\<lambda>error. pthreadCondSignal opt self ins error cv)"

definition tern_pthread_cond_broadcast :: "options \<Rightarrow> tid \<Rightarrow> u32 \<Rightarrow> vptr \<Rightarrow> rt \<Rightarrow> cond_out" where
  "tern_pthread_cond_broadcast opt self ins cv = hook_op opt self (\<lambda>error. pthreadCondBroadcast opt self ins error cv)"

definition tern_sem_init :: "options \<Rightarrow> tid \<Rightarrow> u32 \<Rightarrow> vptr \<Rightarrow> nat \<Rightarrow> rt \<Rightarrow> cond_out" where
  "tern_sem_init opt self ins sp v = hook_op opt self (\<lambda>error. semInit opt self ins error sp v)"

definition tern_sem_wait :: "options \<Rightarrow> tid \<Rightarrow> u32 \<Rightarrow> vptr \<Rightarrow> rt \<Rightarrow> cond_out" where
  "tern_sem_wait opt self ins sp = hook_op opt self (\<lambda>error. semWait opt self ins error sp)"

definition tern_sem_trywait :: "options \<Rightarrow> tid \<Rightarrow> u32 \<Rightarrow> vptr \<Rightarrow> rt \<Rightarrow> cond_out" where
  "tern_sem_trywait opt self ins sp = hook_op opt self (\<lambda>error. semTryWait opt self ins error sp)"

definition tern_sem_timedwait :: "options \<Rightarrow> tid \<Rightarrow> u32 \<Rightarrow> vptr \<Rightarrow> timespec option \<Rightarrow> timespec \<Rightarrow> rt \<Rightarrow> cond_out" where
  "tern_sem_timedwait opt self ins sp abstime now = hook_op opt self (\<lambda>error. semTimedWait opt self ins error sp abstime now)"

definition tern_sem_post :: "options \<Rightarrow> tid \<Rightarrow> u32 \<Rightarrow> vptr \<Rightarrow> rt \<Rightarrow> cond_out" where
  "tern_sem_post opt self ins sp = hook_op opt self (\<lambda>error. semPost opt self ins error sp)"

section \<open>Barriers and line-ups\<close>

definition tern_pthread_barrier_init :: "options \<Rightarrow> tid \<Rightarrow> u32 \<Rightarrow> vptr \<Rightarrow> u32 \<Rightarrow> int \<Rightarrow> rt \<Rightarrow> bar_out" where
  "tern_pthread_barrier_init opt self ins ba n ret = hook_op opt self (\<lambda>error. pthreadBarrierInit opt self ins error ba n ret)"

definition tern_pthread_barrier_wait :: "options \<Rightarrow> tid \<Rightarrow> u32 \<Rightarrow> vptr \<Rightarrow> rt \<Rightarrow> bar_out" where
  "tern_pthread_barrier_wait opt self ins ba = hook_op opt self (\<lambda>error. pthreadBarrierWait opt self ins error ba)"

definition tern_pthread_barrier_destroy :: "options \<Rightarrow> tid \<Rightarrow> u32 \<Rightarrow> vptr \<Rightarrow> int \<Rightarrow> rt \<Rightarrow> bar_out" where
  "tern_pthread_barrier_destroy opt self ins ba ret = hook_op opt self (\<lambda>error. pthreadBarrierDestroy opt self ins error ba ret)"

definition tern_lineup_init_real :: "options \<Rightarrow> tid \<Rightarrow> int \<Rightarrow> u32 \<Rightarrow> u32 \<Rightarrow> rt \<Rightarrow> bar_out" where
  "tern_lineup_init_real opt self opaque_type n timeout_turns = hook_void opt self (lineupInit opt self opaque_type n timeout_turns)"

definition tern_lineup_destroy_real :: "options \<Rightarrow> tid \<Rightarrow> int \<Rightarrow> rt \<Rightarrow> bar_out" where
  "tern_lineup_destroy_real opt self opaque_type = hook_void opt self (lineupDestroy opt self opaque_type)"

definition tern_lineup_start_real :: "options \<Rightarrow> tid \<Rightarrow> int \<Rightarrow> rt \<Rightarrow> bar_out" where
  "tern_lineup_start_real opt self opaque_type = hook_void opt self (lineupStart opt self opaque_type)"

definition tern_lineup_end_real :: "options \<Rightarrow> tid \<Rightarrow> int \<Rightarrow> rt \<Rightarrow> bar_out" where
  "tern_lineup_end_real opt self opaque_type = hook_void opt self (lineupEnd opt self opaque_type)"

section \<open>Annotations\<close>

definition tern_non_det_start_real :: "options \<Rightarrow> tid \<Rightarrow> rt \<Rightarrow> thread_out" where
  "tern_non_det_start_real opt self = hook_void opt self (nonDetStart opt self)"

definition tern_ext_get_turn :: "options \<Rightarrow> tid \<Rightarrow> rt \<Rightarrow> thread_out" where
  "tern_ext_get_turn opt self = hook_void opt self (ext_get_turn opt self)"

definition tern_ext_put_turn :: "options \<Rightarrow> tid \<Rightarrow> rt \<Rightarrow> thread_out" where
  "tern_ext_put_turn opt self = hook_void opt self (ext_put_turn opt self)"

definition tern_non_det_end_real :: "options \<Rightarrow> tid \<Rightarrow> rt \<Rightarrow> rt res" where
  "tern_non_det_end_real opt self = hook_rt opt self (nonDetEnd opt self)"

definition tern_non_det_barrier_end_real :: "options \<Rightarrow> tid \<Rightarrow> int \<Rightarrow> int \<Rightarrow> rt \<Rightarrow> rt res" where
  "tern_non_det_barrier_end_real opt self bar_id cnt = hook_rt opt self (nonDetBarrierEnd opt self)"

definition tern_set_slock_next_n :: "options \<Rightarrow> tid \<Rightarrow> int \<Rightarrow> rt \<Rightarrow> rt res" where
  "tern_set_slock_next_n opt self n = hook_rt opt self (\<lambda>r. Inr (set_slock_next_n opt self n r))"

definition tern_propose_thread_role :: "options \<Rightarrow> tid \<Rightarrow> pthread \<Rightarrow> func \<Rightarrow> rt \<Rightarrow> rt res" where
  "tern_propose_thread_role opt self th role_func = hook_rt opt self (\<lambda>r. Inr (propose_thread_role self th role_func r))"

definition tern_set_base_time_real :: "options \<Rightarrow> tid \<Rightarrow> timespec option \<Rightarrow> rt \<Rightarrow> rt res" where
  "tern_set_base_time_real opt self ts = hook_rt opt self (setBaseTime opt self ts)"

definition tern_detach_real :: "options \<Rightarrow> tid \<Rightarrow> rt \<Rightarrow> rt res" where
  "tern_detach_real opt self = hook_rt opt self (Inr)"

definition tern_no_wait_non_det_start_real :: "options \<Rightarrow> tid \<Rightarrow> rt \<Rightarrow> rt res" where
  "tern_no_wait_non_det_start_real opt self = noWaitNonDetStart opt self"

definition tern_no_wait_non_det_end_real :: "options \<Rightarrow> tid \<Rightarrow> rt \<Rightarrow> rt res" where
  "tern_no_wait_non_det_end_real opt self = noWaitNonDetEnd opt self"

definition tern_mark_task_start :: "options \<Rightarrow> tid \<Rightarrow> int \<Rightarrow> timespec \<Rightarrow> rt \<Rightarrow> rt" where
  "tern_mark_task_start opt self task_id now r =
     set_errno self (errno (tls_of r self)) (mark_task_start self task_id now r)"

definition tern_mark_task_end :: "options \<Rightarrow> tid \<Rightarrow> int \<Rightarrow> timespec \<Rightarrow> rt \<Rightarrow> (u32 option \<times> rt) res" where
  "tern_mark_task_end opt self task_id now r =
     res_bind (mark_task_end opt self task_id now r) (\<lambda>(delay, r'). Inr (delay, set_errno self (errno (tls_of r self)) r'))"

definition tern_unmark_task :: "options \<Rightarrow> tid \<Rightarrow> int \<Rightarrow> rt \<Rightarrow> rt res" where
  "tern_unmark_task opt self task_id r =
     res_bind (unmark_task opt self task_id r) (\<lambda>r'. Inr (set_errno self (errno (tls_of r self)) r'))"

definition tern_symbolic_real :: "options \<Rightarrow> tid \<Rightarrow> u32 \<Rightarrow> int \<Rightarrow> int \<Rightarrow> rt \<Rightarrow> thread_out" where
  "tern_symbolic_real opt self ins p nbytes r = symbolic opt self ins (errno (tls_of r self)) p nbytes r"

definition tern_dummy_sync_real :: "options \<Rightarrow> tid \<Rightarrow> rt \<Rightarrow> thread_out" where
  "tern_dummy_sync_real opt self r =
     (if enforce_dummy_sync opt then hook_plain opt self (dummySync opt self) r else Inr (Done 0 0, r))"

definition tern_idle_sleep :: "options \<Rightarrow> tid \<Rightarrow> rt \<Rightarrow> thread_out" where
  "tern_idle_sleep opt self = hook_plain opt self (idle_sleep self)"

definition tern_idle_cond_wait :: "options \<Rightarrow> tid \<Rightarrow> rt \<Rightarrow> thread_out" where
  "tern_idle_cond_wait opt self = hook_plain opt self (\<lambda>r. Inr (Await PIdleCondWait, r))"

definition tern_print_runtime_stat :: "options \<Rightarrow> tid \<Rightarrow> rt \<Rightarrow> thread_out" where
  "tern_print_runtime_stat opt self = hook_plain opt self (\<lambda>r. Inr (Await PPrintStat, r))"

section \<open>Sleeping, yielding, forking\<close>

definition tern_sched_yield :: "options \<Rightarrow> tid \<Rightarrow> u32 \<Rightarrow> int \<Rightarrow> rt \<Rightarrow> sleep_out" where
  "tern_sched_yield opt self ins ret = hook_op opt self (\<lambda>error. schedYield opt self ins error ret)"

definition tern_sleep :: "options \<Rightarrow> tid \<Rightarrow> u32 \<Rightarrow> u32 \<Rightarrow> rt \<Rightarrow> sleep_out" where
  "tern_sleep opt self ins seconds = hook_op opt self (\<lambda>error. rt_sleep opt self ins error seconds)"

definition tern_usleep :: "options \<Rightarrow> tid \<Rightarrow> u32 \<Rightarrow> u32 \<Rightarrow> rt \<Rightarrow> sleep_out" where
  "tern_usleep opt self ins usec = hook_op opt self (\<lambda>error. rt_usleep opt self ins error usec)"

definition tern_nanosleep :: "options \<Rightarrow> tid \<Rightarrow> u32 \<Rightarrow> timespec option \<Rightarrow> rt \<Rightarrow> sleep_out" where
  "tern_nanosleep opt self ins req = hook_op opt self (\<lambda>error. rt_nanosleep opt self ins error req)"

definition tern_fork :: "options \<Rightarrow> tid \<Rightarrow> u32 \<Rightarrow> int \<Rightarrow> rt \<Rightarrow> sleep_out" where
  "tern_fork opt self ins ret = hook_op opt self (\<lambda>error. rt_fork opt self ins error ret)"

text \<open>
  \<open>execv\<close> up to its turn, and after a call that failed with \<open>ret\<close> and \<open>e\<close>; a call that succeeds
  does not come back.
\<close>

definition tern_execv :: "options \<Rightarrow> tid \<Rightarrow> rt \<Rightarrow> rt res" where
  "tern_execv opt self r = enterSys opt self r"

definition tern_execv_failed :: "options \<Rightarrow> tid \<Rightarrow> int \<Rightarrow> int \<Rightarrow> rt \<Rightarrow> (int \<times> rt) res" where
  "tern_execv_failed opt self ret e r =
     res_bind (execv_turn opt self ret r) (\<lambda>(ret, r). res_bind (exitSys opt self r) (\<lambda>r. Inr (ret, set_errno self e r)))"

section \<open>Blocking calls\<close>

definition tern_sigwait :: "options \<Rightarrow> tid \<Rightarrow> int \<Rightarrow> int \<Rightarrow> rt \<Rightarrow> hook_io_out" where
  "tern_sigwait opt self sigset sig = hook_io opt self (io_sigwait opt self sigset sig)"

definition tern_socket :: "options \<Rightarrow> tid \<Rightarrow> int \<Rightarrow> int \<Rightarrow> int \<Rightarrow> rt \<Rightarrow> hook_io_out" where
  "tern_socket opt self domain ty protocol = hook_io opt self (io_socket opt self domain ty protocol)"

definition tern_listen :: "options \<Rightarrow> tid \<Rightarrow> int \<Rightarrow> int \<Rightarrow> rt \<Rightarrow> hook_io_out" where
  "tern_listen opt self sockfd backlog = hook_io opt self (io_listen opt self sockfd backlog)"

definition tern_accept :: "options \<Rightarrow> tid \<Rightarrow> int \<Rightarrow> int \<Rightarrow> int \<Rightarrow> rt \<Rightarrow> hook_io_out" where
  "tern_accept opt self sockfd cliaddr addrlen = hook_io opt self (io_accept opt self sockfd cliaddr addrlen)"

definition tern_accept4 :: "options \<Rightarrow> tid \<Rightarrow> int \<Rightarrow> int \<Rightarrow> int \<Rightarrow> int \<Rightarrow> rt \<Rightarrow> hook_io_out" where
  "tern_accept4 opt self sockfd cliaddr addrlen flags = hook_io opt self (io_accept4 opt self sockfd cliaddr addrlen flags)"

definition tern_connect :: "options \<Rightarrow> tid \<Rightarrow> int \<Rightarrow> int \<Rightarrow> int \<Rightarrow> rt \<Rightarrow> hook_io_out" where
  "tern_connect opt self sockfd serv_addr addrlen = hook_io opt self (io_connect opt self sockfd serv_addr addrlen)"

definition tern_gethostbyname :: "options \<Rightarrow> tid \<Rightarrow> int \<Rightarrow> rt \<Rightarrow> hook_io_out" where
  "tern_gethostbyname opt self name = hook_io opt self (io_gethostbyname opt self name)"

definition tern_gethostbyname_r :: "options \<Rightarrow> tid \<Rightarrow> int \<Rightarrow> int \<Rightarrow> int \<Rightarrow> int \<Rightarrow> int \<Rightarrow> int \<Rightarrow> rt \<Rightarrow> hook_io_out" where
  "tern_gethostbyname_r opt self name hostent buf buflen result h_errnop = hook_io opt self (io_gethostbyname_r opt self name hostent buf buflen result h_errnop)"

definition tern_getaddrinfo :: "options \<Rightarrow> tid \<Rightarrow> int \<Rightarrow> int \<Rightarrow> int \<Rightarrow> int \<Rightarrow> rt \<Rightarrow> hook_io_out" where
  "tern_getaddrinfo opt self node service hints res = hook_io opt self (io_getaddrinfo opt self node service hints res)"

definition tern_freeaddrinfo :: "options \<Rightarrow> tid \<Rightarrow> int \<Rightarrow> rt \<Rightarrow> hook_io_out" where
  "tern_freeaddrinfo opt self res = hook_io opt self (io_freeaddrinfo opt self res)"

definition tern_gethostbyaddr :: "options \<Rightarrow> tid \<Rightarrow> int \<Rightarrow> int \<Rightarrow> int \<Rightarrow> rt \<Rightarrow> hook_io_out" where
  "tern_gethostbyaddr opt self address len ty = hook_io opt self (io_gethostbyaddr opt self address len ty)"

definition tern_inet_ntoa :: "options \<Rightarrow> tid \<Rightarrow> int \<Rightarrow> rt \<Rightarrow> hook_io_out" where
  "tern_inet_ntoa opt self in_addr = hook_io opt self (io_inet_ntoa opt self in_addr)"

definition tern_strtok :: "options \<Rightarrow> tid \<Rightarrow> int \<Rightarrow> int \<Rightarrow> rt \<Rightarrow> hook_io_out" where
  "tern_strtok opt self str delimiters = hook_io opt self (io_strtok opt self str delimiters)"

definition tern_send :: "options \<Rightarrow> tid \<Rightarrow> int \<Rightarrow> int \<Rightarrow> int \<Rightarrow> int \<Rightarrow> rt \<Rightarrow> hook_io_out" where
  "tern_send opt self sockfd buf len flags = hook_io opt self (io_send opt self sockfd buf len flags)"

definition tern_sendto :: "options \<Rightarrow> tid \<Rightarrow> int \<Rightarrow> int \<Rightarrow> int \<Rightarrow> int \<Rightarrow> int \<Rightarrow> int \<Rightarrow> rt \<Rightarrow> hook_io_out" where
  "tern_sendto opt self sockfd buf len flags dest_addr addrlen = hook_io opt self (io_sendto opt self sockfd buf len flags dest_addr addrlen)"

definition tern_sendmsg :: "options \<Rightarrow> tid \<Rightarrow> int \<Rightarrow> int \<Rightarrow> int \<Rightarrow> rt \<Rightarrow> hook_io_out" where
  "tern_sendmsg opt self sockfd msg flags = hook_io opt self (io_sendmsg opt self sockfd msg flags)"

definition tern_recv :: "options \<Rightarrow> tid \<Rightarrow> int \<Rightarrow> int \<Rightarrow> int \<Rightarrow> int \<Rightarrow> rt \<Rightarrow> hook_io_out" where
  "tern_recv opt self sockfd buf len flags = hook_io opt self (io_recv opt self sockfd buf len flags)"

definition tern_recvfrom :: "options \<Rightarrow> tid \<Rightarrow> int \<Rightarrow> int \<Rightarrow> int \<Rightarrow> int \<Rightarrow> int \<Rightarrow> int \<Rightarrow> rt \<Rightarrow> hook_io_out" where
  "tern_recvfrom opt self sockfd buf len flags src_addr addrlen = hook_io opt self (io_recvfrom opt self sockfd buf len flags src_addr addrlen)"

definition tern_recvmsg :: "options \<Rightarrow> tid \<Rightarrow> int \<Rightarrow> int \<Rightarrow> int \<Rightarrow> rt \<Rightarrow> hook_io_out" where
  "tern_recvmsg opt self sockfd msg flags = hook_io opt self (io_recvmsg opt self sockfd msg flags)"

definition tern_shutdown :: "options \<Rightarrow> tid \<Rightarrow> int \<Rightarrow> int \<Rightarrow> rt \<Rightarrow> hook_io_out" where
  "tern_shutdown opt self sockfd how = hook_io opt self (io_shutdown opt self sockfd how)"

definition tern_getsockopt :: "options \<Rightarrow> tid \<Rightarrow> int \<Rightarrow> int \<Rightarrow> int \<Rightarrow> int \<Rightarrow> int \<Rightarrow> rt \<Rightarrow> hook_io_out" where
  "tern_getsockopt opt self sockfd level optname optval optlen = hook_io opt self (io_getsockopt opt self sockfd level optname optval optlen)"

definition tern_setsockopt :: "options \<Rightarrow> tid \<Rightarrow> int \<Rightarrow> int \<Rightarrow> int \<Rightarrow> int \<Rightarrow> int \<Rightarrow> rt \<Rightarrow> hook_io_out" where
  "tern_setsockopt opt self sockfd level optname optval optlen = hook_io opt self (io_setsockopt opt self sockfd level optname optval optlen)"

definition tern_pipe :: "options \<Rightarrow> tid \<Rightarrow> int \<Rightarrow> rt \<Rightarrow> hook_io_out" where
  "tern_pipe opt self pipefd = hook_io opt self (io_pipe opt self pipefd)"

definition tern_fcntl :: "options \<Rightarrow> tid \<Rightarrow> int \<Rightarrow> int \<Rightarrow> int \<Rightarrow> rt \<Rightarrow> hook_io_out" where
  "tern_fcntl opt self fd cmd arg = hook_io opt self (io_fcntl opt self fd cmd arg)"

definition tern_close :: "options \<Rightarrow> tid \<Rightarrow> 32 word \<Rightarrow> int \<Rightarrow> rt \<Rightarrow> hook_io_out" where
  "tern_close opt self st_mode fd = hook_io opt self (io_close opt self st_mode fd)"

definition tern_read :: "options \<Rightarrow> tid \<Rightarrow> 32 word \<Rightarrow> int \<Rightarrow> int \<Rightarrow> int \<Rightarrow> rt \<Rightarrow> hook_io_out" where
  "tern_read opt self st_mode fd buf n = hook_io opt self (io_read opt self st_mode fd buf n)"

definition tern_write :: "options \<Rightarrow> tid \<Rightarrow> 32 word \<Rightarrow> int \<Rightarrow> int \<Rightarrow> int \<Rightarrow> rt \<Rightarrow> hook_io_out" where
  "tern_write opt self st_mode fd buf n = hook_io opt self (io_write opt self st_mode fd buf n)"

definition tern_pread :: "options \<Rightarrow> tid \<Rightarrow> 32 word \<Rightarrow> int \<Rightarrow> int \<Rightarrow> int \<Rightarrow> int \<Rightarrow> rt \<Rightarrow> hook_io_out" where
  "tern_pread opt self st_mode fd buf n offset = hook_io opt self (io_pread opt self st_mode fd buf n offset)"

definition tern_pwrite :: "options \<Rightarrow> tid \<Rightarrow> 32 word \<Rightarrow> int \<Rightarrow> int \<Rightarrow> int \<Rightarrow> int \<Rightarrow> rt \<Rightarrow> hook_io_out" where
  "tern_pwrite opt self st_mode fd buf n offset = hook_io opt self (io_pwrite opt self st_mode fd buf n offset)"

definition tern_epoll_wait :: "options \<Rightarrow> tid \<Rightarrow> int \<Rightarrow> int \<Rightarrow> int \<Rightarrow> int \<Rightarrow> rt \<Rightarrow> hook_io_out" where
  "tern_epoll_wait opt self epfd events maxevents limit = hook_io opt self (io_epoll_wait opt self epfd events maxevents limit)"

definition tern_epoll_create :: "options \<Rightarrow> tid \<Rightarrow> int \<Rightarrow> rt \<Rightarrow> hook_io_out" where
  "tern_epoll_create opt self sz = hook_io opt self (io_epoll_create opt self sz)"

definition tern_epoll_ctl :: "options \<Rightarrow> tid \<Rightarrow> int \<Rightarrow> int \<Rightarrow> int \<Rightarrow> int \<Rightarrow> rt \<Rightarrow> hook_io_out" where
  "tern_epoll_ctl opt self epfd cmd fd event = hook_io opt self (io_epoll_ctl opt self epfd cmd fd event)"

definition tern_select :: "options \<Rightarrow> tid \<Rightarrow> int \<Rightarrow> int \<Rightarrow> int \<Rightarrow> int \<Rightarrow> int \<Rightarrow> rt \<Rightarrow> hook_io_out" where
  "tern_select opt self nfds readfds writefds exceptfds limit = hook_io opt self (io_select opt self nfds readfds writefds exceptfds limit)"

definition tern_poll :: "options \<Rightarrow> tid \<Rightarrow> int \<Rightarrow> int \<Rightarrow> int \<Rightarrow> rt \<Rightarrow> hook_io_out" where
  "tern_poll opt self fds nfds limit = hook_io opt self (io_poll opt self fds nfds limit)"

definition tern_bind :: "options \<Rightarrow> tid \<Rightarrow> int \<Rightarrow> int \<Rightarrow> int \<Rightarrow> rt \<Rightarrow> hook_io_out" where
  "tern_bind opt self socket address address_len = hook_io opt self (io_bind opt self socket address address_len)"

definition tern_fgets :: "options \<Rightarrow> tid \<Rightarrow> 32 word \<Rightarrow> int \<Rightarrow> int \<Rightarrow> int \<Rightarrow> rt \<Rightarrow> hook_io_out" where
  "tern_fgets opt self st_mode buf sz file = hook_io opt self (io_fgets opt self st_mode buf sz file)"

definition tern_kill :: "options \<Rightarrow> tid \<Rightarrow> int \<Rightarrow> int \<Rightarrow> rt \<Rightarrow> hook_io_out" where
  "tern_kill opt self pid sig = hook_io opt self (io_kill opt self pid sig)"

definition tern_wait :: "options \<Rightarrow> tid \<Rightarrow> int \<Rightarrow> rt \<Rightarrow> hook_io_out" where
  "tern_wait opt self status = hook_io opt self (io_wait opt self status)"

definition tern_waitpid :: "options \<Rightarrow> tid \<Rightarrow> int \<Rightarrow> int \<Rightarrow> int \<Rightarrow> rt \<Rightarrow> hook_io_out" where
  "tern_waitpid opt self pid status flags = hook_io opt self (io_waitpid opt self pid status flags)"

definition tern_pthread_detach :: "options \<Rightarrow> tid \<Rightarrow> int \<Rightarrow> rt \<Rightarrow> hook_io_out" where
  "tern_pthread_detach opt self th = hook_io opt self (io_pthread_detach opt self th)"

section \<open>Calls that never involve the scheduler\<close>

definition tern_getpeername :: "options \<Rightarrow> tid \<Rightarrow> int \<Rightarrow> int \<Rightarrow> int \<Rightarrow> rt \<Rightarrow> hook_io_out" where
  "tern_getpeername opt self sockfd address addrlen = hook_io opt self (io_getpeername sockfd address addrlen)"

definition tern_time :: "options \<Rightarrow> tid \<Rightarrow> int \<Rightarrow> rt \<Rightarrow> hook_io_out" where
  "tern_time opt self t = hook_io opt self (io_time t)"

definition tern_clock_getres :: "options \<Rightarrow> tid \<Rightarrow> int \<Rightarrow> int \<Rightarrow> rt \<Rightarrow> hook_io_out" where
  "tern_clock_getres opt self clk_id tp = hook_io opt self (io_clock_getres clk_id tp)"

definition tern_clock_gettime :: "options \<Rightarrow> tid \<Rightarrow> int \<Rightarrow> int \<Rightarrow> rt \<Rightarrow> hook_io_out" where
  "tern_clock_gettime opt self clk_id tp = hook_io opt self (io_clock_gettime clk_id tp)"

definition tern_clock_settime :: "options \<Rightarrow> tid \<Rightarrow> int \<Rightarrow> int \<Rightarrow> rt \<Rightarrow> hook_io_out" where
  "tern_clock_settime opt self clk_id tp = hook_io opt self (io_clock_settime clk_id tp)"

definition tern_gettimeofday :: "options \<Rightarrow> tid \<Rightarrow> int \<Rightarrow> int \<Rightarrow> rt \<Rightarrow> hook_io_out" where
  "tern_gettimeofday opt self tv tz = hook_io opt self (io_gettimeofday tv tz)"

definition tern_settimeofday :: "options \<Rightarrow> tid \<Rightarrow> int \<Rightarrow> int \<Rightarrow> rt \<Rightarrow> hook_io_out" where
  "tern_settimeofday opt self tv tz = hook_io opt self (io_settimeofday tv tz)"

section \<open>Ending\<close>

text \<open>
  \<open>pthread_exit\<close>: the main thread ends the process; any other ends in the scheduler first and
  then leaves (\<open>None\<close> while it waits for the turn).
\<close>

definition tern_pthread_exit :: "options \<Rightarrow> tid \<Rightarrow> u32 \<Rightarrow> rt \<Rightarrow> thread_out" where
  "tern_pthread_exit opt self ins r =
     (if self \<noteq> MainThreadTid then tern_thread_end opt self ins r else Inl (ExitProcess 0))"

definition tern_pthread_exit_end :: "options \<Rightarrow> tid \<Rightarrow> thread_pc outcome \<times> rt \<Rightarrow> thread_out" where
  "tern_pthread_exit_end opt self = (\<lambda>(out, r). case out of
     Done _ _ \<Rightarrow> assert_then opt (isSys self r) (Inl ThreadExit) | _ \<Rightarrow> Inr (out, r))"

definition tern_pthread_cancel :: "options \<Rightarrow> 'w os \<Rightarrow> tid \<Rightarrow> int \<Rightarrow> rt \<times> 'w \<Rightarrow> (int \<times> rt \<times> 'w) res" where
  "tern_pthread_cancel opt os self th = (\<lambda>(r, w).
     res_bind (enterSys opt self r) (\<lambda>r'.
     res_bind (base_pthreadCancel os self th (errno (tls_of r self)) (r', w)) (\<lambda>((ret, e), r, w).
     res_bind (exitSys opt self r) (\<lambda>r. Inr (ret, set_errno self e r, w)))))"

end
