(* ===== verification/SegmentViews.thy ===== *)
theory SegmentViews
  imports RtCond RtBarrier RtIO
begin

text \<open>
  Views of the runtime state that no segment changes. A segment of thread \<open>u\<close> assigns to its own
  thread-local variables, but not to its space; it changes the tables of the runtime and the
  scheduler, and it appends entries to the log, each for one of the operations of
  \<open>logged_ops\<close>. So whatever depends on nothing else is the same before and after: this is proved
  once, for every view \<open>V\<close> of the state, over all segments of the runtime.
\<close>

text \<open>The operations the segments log, with the number of arguments they pass.\<close>

definition logged_ops :: "(syncfunc \<times> nat) list" where
  "logged_ops = [
     (''pthread_barrier_init'', 2), (''pthread_barrier_wait'', 1), (''pthread_barrier_destroy'', 2),
     (''tern_lineup_init'', 3), (''tern_lineup_destroy'', 1), (''tern_lineup_start'', 1), (''tern_lineup_end'', 1),
     (''pthread_cond_wait'', 2), (''pthread_cond_timedwait'', 3), (''pthread_cond_signal'', 1), (''pthread_cond_broadcast'', 1),
     (''sem_wait'', 1), (''sem_trywait'', 2), (''sem_timedwait'', 2), (''sem_post'', 2), (''sem_init'', 2),
     (''sched_yield'', 1), (''pthread_mutex_init'', 1), (''pthread_mutex_destroy'', 1), (''pthread_mutex_lock'', 1),
     (''pthread_mutex_timedlock'', 2), (''pthread_rwlock_rdlock'', 1), (''pthread_rwlock_wrlock'', 1),
     (''pthread_mutex_trylock'', 2), (''pthread_mutex_unlock'', 2), (''pthread_rwlock_tryrdlock'', 2),
     (''pthread_rwlock_trywrlock'', 2), (''pthread_rwlock_unlock'', 2), (''pthread_rwlock_destroy'', 2),
     (''pthread_rwlock_init'', 3), (''tern_thread_begin'', 1), (''tern_thread_end'', 1), (''pthread_create'', 2),
     (''pthread_join'', 1), (''tern_idle'', 0), (''tern_non_det_start'', 1), (''tern_ext_get_turn'', 1),
     (''tern_ext_put_turn'', 1), (''tern_dummy_sync'', 1), (''tern_symbolic'', 2)]"

locale segment_view =
  fixes opt :: options and u :: tid and V :: "rt \<Rightarrow> 'v" and ok :: "syncfunc \<Rightarrow> nat \<Rightarrow> bool"
  assumes same: "tls_of r' = tls_of r \<Longrightarrow> slog r' = slog r \<Longrightarrow> V r' = V r"
    and upd [simp]: "(\<And>t. app_space (f t) = app_space t) \<Longrightarrow> V (upd_tls u f r) = V r"
    and entry [simp]: "ok op (length args) \<Longrightarrow> V (logSync opt v ins op n b args r) = V r"
    and all_ok: "list_all (\<lambda>(f, n). ok f n) logged_ops"
begin

lemma ok_ops [simp]:
  "ok ''pthread_barrier_init'' (Suc (Suc 0))" "ok ''pthread_barrier_wait'' (Suc 0)"
  "ok ''pthread_barrier_destroy'' (Suc (Suc 0))" "ok ''tern_lineup_init'' (Suc (Suc (Suc 0)))"
  "ok ''tern_lineup_destroy'' (Suc 0)" "ok ''tern_lineup_start'' (Suc 0)" "ok ''tern_lineup_end'' (Suc 0)"
  "ok ''pthread_cond_wait'' (Suc (Suc 0))" "ok ''pthread_cond_timedwait'' (Suc (Suc (Suc 0)))"
  "ok ''pthread_cond_signal'' (Suc 0)" "ok ''pthread_cond_broadcast'' (Suc 0)" "ok ''sem_wait'' (Suc 0)"
  "ok ''sem_trywait'' (Suc (Suc 0))" "ok ''sem_timedwait'' (Suc (Suc 0))" "ok ''sem_post'' (Suc (Suc 0))"
  "ok ''sem_init'' (Suc (Suc 0))" "ok ''sched_yield'' (Suc 0)" "ok ''pthread_mutex_init'' (Suc 0)"
  "ok ''pthread_mutex_destroy'' (Suc 0)" "ok ''pthread_mutex_lock'' (Suc 0)" "ok ''pthread_mutex_timedlock'' (Suc (Suc 0))"
  "ok ''pthread_rwlock_rdlock'' (Suc 0)" "ok ''pthread_rwlock_wrlock'' (Suc 0)" "ok ''pthread_mutex_trylock'' (Suc (Suc 0))"
  "ok ''pthread_mutex_unlock'' (Suc (Suc 0))" "ok ''pthread_rwlock_tryrdlock'' (Suc (Suc 0))"
  "ok ''pthread_rwlock_trywrlock'' (Suc (Suc 0))" "ok ''pthread_rwlock_unlock'' (Suc (Suc 0))"
  "ok ''pthread_rwlock_destroy'' (Suc (Suc 0))" "ok ''pthread_rwlock_init'' (Suc (Suc (Suc 0)))"
  "ok ''tern_thread_begin'' (Suc 0)" "ok ''tern_thread_end'' (Suc 0)" "ok ''pthread_create'' (Suc (Suc 0))"
  "ok ''pthread_join'' (Suc 0)" "ok ''tern_idle'' 0" "ok ''tern_non_det_start'' (Suc 0)" "ok ''tern_ext_get_turn'' (Suc 0)"
  "ok ''tern_ext_put_turn'' (Suc 0)" "ok ''tern_dummy_sync'' (Suc 0)" "ok ''tern_symbolic'' (Suc (Suc 0))"
  using all_ok by (simp_all add: logged_ops_def eval_nat_numeral)

lemma view_errno [simp]: "V (set_errno u e r) = V r"
  by (simp add: set_errno_def)

lemma view_simps [simp]:
  "V (upd_stat opt g r) = V r" "V (count_non_det opt r) = V r"
  "V (recordSync v op r) = V r"
  "V (cond_incr cv d r) = V r" "V (sem_incr sp d r) = V r" "V (record_role cv a x r) = V r"
  "V (set_role_count x m r) = V r" "V (set_barrier ba bt r) = V r" "V (set_bar ot rb r) = V r"
  "V (set_nNonDetWait h r) = V r"
  by (rule same; simp add: recordSync_def upd_stat_def count_non_det_def cond_incr_def sem_incr_def record_role_def
    set_role_count_def set_barrier_def set_bar_def set_nNonDetWait_def)+

lemma view_fields [simp]:
  "V (r\<lparr>sch := s\<rparr>) = V r" "V (r\<lparr>barriers := b\<rparr>) = V r" "V (r\<lparr>refcnt_bars := c\<rparr>) = V r"
  "V (r\<lparr>cond_map := m\<rparr>) = V r" "V (r\<lparr>blocked_cv_line_map := d\<rparr>) = V r"
  "V (r\<lparr>rt_brk := n\<rparr>) = V r" "V (r\<lparr>role_cells := w\<rparr>) = V r" "V (r\<lparr>dmt_lock_holder := h\<rparr>) = V r"
  "V (r\<lparr>thread_begin_sem := p\<rparr>) = V r" "V (r\<lparr>thread_begin_done_sem := p\<rparr>) = V r"
  "V (r\<lparr>sch := s, proposed_role := y\<rparr>) = V r" "V (r\<lparr>no_child_threads_created := b1\<rparr>) = V r"
  "V (r\<lparr>blocked_cv_count_map := z\<rparr>) = V r"
  "V (r\<lparr>blocked_cv_count_map := z, blocked_cv_line_map := d\<rparr>) = V r"
  "V (r\<lparr>role_cells := w, rt_brk := n\<rparr>) = V r" "V (r\<lparr>mutexes := x1\<rparr>) = V r"
  "V (r\<lparr>rwlocks := x2\<rparr>) = V r" "V (r\<lparr>sems := x3\<rparr>) = V r"
  by (rule same; simp)+

text \<open>Building blocks.\<close>

lemma view_on_sched: "on_sched f r = Inr r' \<Longrightarrow> V r' = V r"
  by (auto simp: on_sched_def res_simps)

lemma view_sched_start: "sched_start opt u r = Inr r' \<Longrightarrow> V r' = V r"
  by (auto simp: sched_start_def check_and_change_role_def res_simps split: if_splits)

lemma view_end_common: "end_common opt u ins op args r = Inr r' \<Longrightarrow> ok op (length args) \<longrightarrow> V r' = V r"
  by (auto simp: end_common_def res_simps Let_def)

lemma view_strategy [simp]: "V (snd (getPutTurnStrategy opt u op r)) = V r"
  by (auto simp: getPutTurnStrategy_def Let_def)

lemma view_check_cv: "check_cv_wait_cnt opt u r = Inr r' \<Longrightarrow> V r' = V r"
  by (auto simp: check_cv_wait_cnt_def res_simps split: if_splits)

lemma view_sched_end: "sched_end opt u ins op args ret err r = Inr (out, r') \<Longrightarrow> ok op (length args) \<longrightarrow> V r' = V r"
  by (auto simp: sched_end_def res_simps Let_def case_prod_beta split: if_splits
    dest!: view_end_common view_on_sched view_check_cv)

lemma view_fake_end: "sched_fake_end opt u ins op args r = Inr r' \<Longrightarrow> ok op (length args) \<longrightarrow> V r' = V r"
  by (auto simp: sched_fake_end_def res_simps)

lemma view_wait: "syncWait opt u ch n r = Inr r' \<Longrightarrow> V r' = V r"
  by (auto simp: syncWait_def dest: view_on_sched)

lemma view_signal: "syncSignal opt u ch b r = Inr r' \<Longrightarrow> V r' = V r"
  by (auto simp: syncSignal_def dest: view_on_sched)

lemma view_posix [simp]:
  "V (snd (posix_mutex_init mu k r)) = V r" "V (snd (posix_mutex_destroy mu r)) = V r"
  "V (snd (posix_mutex_trylock u mu r)) = V r" "V (snd (posix_mutex_unlock u mu r)) = V r"
  "V (snd (posix_rwlock_trywrlock u rw r)) = V r" "V (snd (posix_rwlock_tryrdlock rw r)) = V r"
  "V (snd (posix_rwlock_unlock rw r)) = V r" "V (snd (posix_rwlock_init rw r)) = V r"
  "V (snd (posix_rwlock_destroy rw r)) = V r"
  "V (snd (posix_sem_init sp n r)) = V r" "V (snd (posix_sem_trywait u sp r)) = V r"
  "V (snd (posix_sem_post u sp r)) = V r" "V (snd (try_acquire u l r)) = V r"
  by (auto simp: posix_mutex_init_def posix_mutex_destroy_def posix_mutex_trylock_def posix_mutex_unlock_def
    posix_rwlock_trywrlock_def posix_rwlock_tryrdlock_def posix_rwlock_unlock_def posix_rwlock_init_def posix_rwlock_destroy_def
    posix_sem_init_def posix_sem_trywait_def posix_sem_post_def try_acquire_def Let_def split: lockobj.splits)

lemma view_roles [simp]: "V (snd (new_role x r)) = V r" "V (snd (release_role cv x r)) = V r"
  by (simp_all add: new_role_def release_role_def Let_def)

lemma view_before_turn: "before_turn opt u k r = Inr (out, r') \<Longrightarrow> r' = r"
  by (auto simp: before_turn_def assert_then_def res_simps)

lemma view_lock_try: "lock_try opt u l n r = Inr (ret, r') \<Longrightarrow> V r' = V r"
  by (auto simp: lock_try_def Let_def case_prod_beta assert_then_def res_simps split: if_splits dest!: view_wait)

lemma view_lock_woken: "lock_woken opt u l n r = Inr (ret, r') \<Longrightarrow> V r' = V r"
  by (auto simp: lock_woken_def split: if_splits dest: view_lock_try)

lemma view_sem_round: "sem_round opt u sp n r = Inr (b, r') \<Longrightarrow> V r' = V r"
  by (auto simp: sem_round_def Let_def case_prod_beta assert_then_def res_simps split: if_splits dest!: view_wait)

lemma view_add_barrier: "add_barrier opt ba n ret r = Inr r' \<Longrightarrow> V r' = V r"
  by (auto simp: add_barrier_def assert_then_def res_simps)

lemma view_lineup_open: "lineup_open opt u ot b r = Inr r' \<Longrightarrow> V r' = V r"
  by (auto simp: lineup_open_def dest!: view_signal)

lemma view_switch_role: "switch_role u a x r = Inr r' \<Longrightarrow> V r' = V r"
  by (auto simp: switch_role_def Let_def res_simps split: if_splits)

lemmas view_blocks = view_sched_start view_sched_end view_fake_end view_wait view_signal view_before_turn
  view_on_sched view_lock_try view_lock_woken view_sem_round view_lineup_open view_switch_role

text \<open>Segments.\<close>

lemmas lock_turn_defs = mutex_init_turn_def mutex_destroy_turn_def lock_turn_def mutex_timedlock_turn_def
  lock_retry_turn_def mutex_trylock_turn_def mutex_unlock_turn_def rwlock_tryrdlock_turn_def
  rwlock_trywrlock_turn_def rwlock_unlock_turn_def rwlock_destroy_turn_def rwlock_init_turn_def

lemma view_lock_finish: "lock_finish opt u lop ins l ret r = Inr (out, r') \<Longrightarrow> V r' = V r"
  by (cases lop) (auto simp: lock_finish_def Let_def split: if_splits dest!: view_sched_end)

lemma view_lock_round:
  assumes "lock_round opt u lop ins err l n m = Inr (out, r')" and "\<And>ret r1. m = Inr (ret, r1) \<Longrightarrow> V r1 = V r"
  shows "V r' = V r"
  using assms by (auto simp: lock_round_def res_simps split: option.split_asm dest!: view_lock_finish)

lemma view_lock:
  assumes "resume_lock opt u pc r = Inr (out, r')"
  shows "V r' = V r"
  using assms by (cases pc) (auto simp: resume_lock_def lock_turn_defs Let_def case_prod_beta assert_then_def res_simps
    split: if_splits elim!: view_lock_round dest!: view_blocks)

lemma view_cond_signal: "cond_signal_turn opt u ins err cv r = Inr (out, r') \<Longrightarrow> V r' = V r"
  by (auto simp: cond_signal_turn_def Let_def res_simps split: if_split_asm option.split_asm
    dest!: view_blocks)

lemma view_cond_wait: "cond_wait_turn opt u ins err cv mu caller r = Inr (out, r') \<Longrightarrow> V r' = V r"
  by (auto simp: cond_wait_turn_def Let_def case_prod_beta res_simps split: if_split_asm
    dest!: view_sched_start view_signal view_fake_end view_wait)

lemma view_cond_timedwait:
  "cond_timedwait_turn opt u ins err cv mu rel caller r = Inr (out, r') \<Longrightarrow> V r' = V r"
  by (auto simp: cond_timedwait_turn_def Let_def case_prod_beta res_simps split: if_split_asm
    dest!: view_sched_start view_signal view_fake_end view_wait)

lemma view_cond_relock:
  assumes "cond_relock opt u ins cv mu m = Inr (out, r')" and "\<And>ret r1. m = Inr (ret, r1) \<Longrightarrow> V r1 = V r"
  shows "V r' = V r"
  using assms by (auto simp: cond_relock_def res_simps split: option.split_asm dest!: view_sched_end)

lemma view_cond_timed_relock:
  assumes "cond_timed_relock opt u ins cv mu ret0 m = Inr (out, r')" and "\<And>ret r1. m = Inr (ret, r1) \<Longrightarrow> V r1 = V r"
  shows "V r' = V r"
  using assms by (auto simp: cond_timed_relock_def res_simps split: option.split_asm dest!: view_sched_end)

lemma view_cond_timed_woken: "cond_timed_woken_turn opt u ins err cv mu a r = Inr (out, r') \<Longrightarrow> V r' = V r"
  by (auto simp: cond_timed_woken_turn_def Let_def case_prod_beta res_simps split: if_split_asm
    elim!: view_cond_timed_relock dest!: view_lock_try)

lemma view_broadcast: "cond_broadcast_turn opt u ins err cv r = Inr (out, r') \<Longrightarrow> V r' = V r"
  by (auto simp: cond_broadcast_turn_def Let_def res_simps split: if_split_asm
    dest!: view_sched_start view_signal view_sched_end)

lemma view_relock_turns:
  "cond_woken_turn opt u ins err cv mu r = Inr (out, r') \<Longrightarrow> V r' = V r"
  "cond_relock_turn opt u ins cv mu r = Inr (out, r') \<Longrightarrow> V r' = V r"
  "cond_timed_relock_turn opt u ins cv mu ret r = Inr (out, r') \<Longrightarrow> V r' = V r"
  by (auto simp: cond_woken_turn_def cond_relock_turn_def cond_timed_relock_turn_def
    elim!: view_cond_relock view_cond_timed_relock dest!: view_lock_try view_lock_woken)

lemma view_sem_timed_end: "sem_timed_end opt u ins err sp ret e r = Inr (out, r') \<Longrightarrow> V r' = V r"
  by (auto simp: sem_timed_end_def res_simps dest!: view_sched_end)

lemma view_sem_wait_loop: "sem_wait_loop opt u ins err sp r = Inr (out, r') \<Longrightarrow> V r' = V r"
  by (auto simp: sem_wait_loop_def res_simps split: if_split_asm dest!: view_sem_round view_sched_end)

lemma view_sem_timed_loop: "sem_timed_loop opt u ins err sp n r = Inr (out, r') \<Longrightarrow> V r' = V r"
  by (auto simp: sem_timed_loop_def res_simps split: if_split_asm dest!: view_sem_round view_sem_timed_end)

lemma view_sem_waits:
  "sem_wait_turn opt u ins err sp r = Inr (out, r') \<Longrightarrow> V r' = V r"
  "sem_timedwait_turn opt u ins err sp rel r = Inr (out, r') \<Longrightarrow> V r' = V r"
  "sem_timed_retry_turn opt u ins err sp n r = Inr (out, r') \<Longrightarrow> V r' = V r"
  by (auto simp: sem_wait_turn_def sem_timedwait_turn_def sem_timed_retry_turn_def res_simps split: if_split_asm
    dest!: view_sched_start view_sem_wait_loop view_sem_timed_loop view_sem_timed_end)

lemma view_sem_trywait: "sem_trywait_turn opt u ins err sp r = Inr (out, r') \<Longrightarrow> V r' = V r"
  by (auto simp: sem_trywait_turn_def Let_def case_prod_beta assert_then_def res_simps dest!: view_sched_start view_sched_end)

lemma view_sem_post: "sem_post_turn opt u ins err sp r = Inr (out, r') \<Longrightarrow> V r' = V r"
  by (auto simp: sem_post_turn_def Let_def case_prod_beta assert_then_def res_simps split: if_split_asm
    dest!: view_sched_start view_signal view_sched_end)

lemma view_sem_init: "sem_init_turn opt u ins err sp v r = Inr (out, r') \<Longrightarrow> V r' = V r"
  by (auto simp: sem_init_turn_def Let_def case_prod_beta assert_then_def res_simps dest!: view_sched_start view_sched_end)

lemmas view_cond_turns = view_cond_signal view_cond_wait view_cond_timedwait view_cond_timed_woken view_broadcast
  view_relock_turns view_sem_wait_loop view_sem_waits view_sem_trywait view_sem_post view_sem_init

lemma view_cond:
  assumes "resume_cond opt u pc r = Inr (out, r')"
  shows "V r' = V r"
  using assms by (cases pc) (simp_all add: resume_cond_def view_cond_turns)

lemmas bar_turn_defs = barrier_init_turn_def barrier_wait_turn_def barrier_leave_turn_def barrier_destroy_turn_def
  lineup_init_turn_def lineup_destroy_turn_def lineup_start_turn_def lineup_woken_turn_def lineup_end_turn_def lineup_finish_def

lemma view_bar:
  assumes "resume_bar opt u pc r = Inr (out, r')"
  shows "V r' = V r"
  using assms by (cases pc) (auto simp: resume_bar_def bar_turn_defs use_found_def Let_def case_prod_beta assert_then_def
    res_simps split: if_split_asm option.split_asm dest!: view_add_barrier view_blocks)

lemmas thread_turn_defs = thread_begin_turn_def thread_end_turn_def sched_thread_end_def create_turn_def create_done_def
  join_turn_def join_round_def idle_sleep_turn_def idle_cond_wait_turn_def print_stat_turn_def non_det_start_turn_def
  non_det_woken_turn_def non_det_block_turn_def ext_get_turn_turn_def ext_put_turn_turn_def dummy_sync_turn_def symbolic_turn_def

lemma view_thread:
  assumes "resume_thread opt u lib pc r = Some (Inr (out, r'))"
  shows "V r' = V r"
  using assms by (cases pc) (auto simp: resume_thread_def thread_turn_defs Let_def case_prod_beta assert_then_def
    res_simps split: if_split_asm option.split_asm dest!: view_end_common view_blocks)

text \<open>Blocking calls.\<close>

lemma view_io_start: "io_start opt u f args r = Inr (st, r') \<Longrightarrow> V r' = V r"
  by (auto simp: io_start_def Let_def res_simps split: if_split_asm)

lemma view_io_turn: "io_turn opt u f args r = Inr (st, r') \<Longrightarrow> V r' = V r"
  by (auto simp: io_turn_def res_simps)

lemma view_io_end: "io_end opt u ret err r = Inr (x, r') \<Longrightarrow> V r' = V r"
  by (auto simp: io_end_def Let_def res_simps)

lemma view_sleep:
  "sleep_turn opt u f ins err rel nsec r = Inr (out, r') \<Longrightarrow> ok f 1 \<Longrightarrow> V r' = V r"
  "sleep_woken_turn opt u f ins err nsec r = Inr (out, r') \<Longrightarrow> ok f 1 \<Longrightarrow> V r' = V r"
  "yield_turn opt u ins err ret r = Inr (out, r') \<Longrightarrow> V r' = V r"
  by (auto simp: sleep_turn_def sleep_woken_turn_def yield_turn_def res_simps split: if_split_asm
    dest!: view_sched_start view_on_sched view_sched_end)

end

end
