(* ===== verification/HookProofs.thy ===== *)
theory HookProofs
  imports IoProofs Hooks SegmentViews
begin

text \<open>
  Thread-local state across the hooks. A segment of the runtime changes the thread-local
  variables of the thread that runs it only, and never that thread's space. So a thread that has
  entered the system space is still there when its operation is done, whatever the other threads
  have done meanwhile, and its hook takes it back to the application.
\<close>

section \<open>What a segment leaves alone\<close>

text \<open>Thread \<open>u\<close> may change everything but its own space and the variables of the others.\<close>

definition kept :: "tid \<Rightarrow> rt \<Rightarrow> bool \<times> (tid \<Rightarrow> tls option)" where
  "kept u r = (app_space (tls_of r u), \<lambda>v. if v = u then None else Some (tls_of r v))"

lemma kept_eqD: "kept u r' = kept u r \<Longrightarrow> app_space (tls_of r' u) = app_space (tls_of r u)"
  "kept u r' = kept u r \<Longrightarrow> v \<noteq> u \<Longrightarrow> tls_of r' v = tls_of r v"
  by (auto simp: kept_def fun_eq_iff split: if_splits)

lemma kept_tls: "tls_of r' = tls_of r \<Longrightarrow> kept u r' = kept u r"
  unfolding kept_def by (erule ssubst) (rule refl)

lemma kept_upd: "(\<And>t. app_space (f t) = app_space t) \<Longrightarrow> kept u (upd_tls u f r) = kept u r"
  by (auto simp: kept_def upd_tls_def fun_eq_iff)

interpretation kept_view: segment_view opt u "kept u" "\<lambda>_ _. True" for opt u
  by unfold_locales (auto intro: kept_tls kept_upd simp: logged_ops_def)

section \<open>Steps of the threads\<close>

text \<open>
  A step of thread \<open>u\<close> inside the runtime is one segment of an operation; a step across is the
  way in or out of a hook, or its assignment to \<open>errno\<close>.
\<close>

inductive rt_step :: "options \<Rightarrow> tid \<Rightarrow> rt \<Rightarrow> rt \<Rightarrow> bool" for opt u where
  lock: "resume_lock opt u lpc r = Inr (lout, r') \<Longrightarrow> rt_step opt u r r'"
| cond: "resume_cond opt u cpc r = Inr (cout, r') \<Longrightarrow> rt_step opt u r r'"
| bar: "resume_bar opt u bpc r = Inr (bout, r') \<Longrightarrow> rt_step opt u r r'"
| thread: "resume_thread opt u lib tpc r = Some (Inr (tout, r')) \<Longrightarrow> rt_step opt u r r'"
| sleep: "sleep_turn opt u f ins err rel nsec r = Inr (sout, r') \<Longrightarrow> f \<in> {''sleep'', ''usleep'', ''nanosleep''} \<Longrightarrow>
    rt_step opt u r r'"
| sleep_woken: "sleep_woken_turn opt u f ins err nsec r = Inr (sout, r') \<Longrightarrow> f \<in> {''sleep'', ''usleep'', ''nanosleep''} \<Longrightarrow>
    rt_step opt u r r'"
| yielding: "yield_turn opt u ins err ret r = Inr (sout, r') \<Longrightarrow> rt_step opt u r r'"
| io_start: "io_start opt u f args r = Inr (st, r') \<Longrightarrow> rt_step opt u r r'"
| io_turn: "io_turn opt u f args r = Inr (st, r') \<Longrightarrow> rt_step opt u r r'"
| io_end: "io_end opt u ret err r = Inr (x, r') \<Longrightarrow> rt_step opt u r r'"

inductive hook_step :: "options \<Rightarrow> tid \<Rightarrow> rt \<Rightarrow> rt \<Rightarrow> bool" for opt u where
  enter: "enterSys opt u r = Inr r' \<Longrightarrow> hook_step opt u r r'"
| leave: "exitSys opt u r = Inr r' \<Longrightarrow> hook_step opt u r r'"
| assign: "hook_step opt u r (set_errno u e r)"

lemma rt_step_kept: "rt_step opt u r r' \<Longrightarrow> kept u r' = kept u r"
  by (induction rule: rt_step.induct)
    (erule kept_view.view_lock kept_view.view_cond kept_view.view_bar kept_view.view_thread kept_view.view_sleep(1,2) [OF _ TrueI]
      kept_view.view_sleep(3) kept_view.view_io_start kept_view.view_io_turn kept_view.view_io_end)+

lemma hook_step_other: "hook_step opt u r r' \<Longrightarrow> v \<noteq> u \<Longrightarrow> tls_of r' v = tls_of r v"
  by (induction rule: hook_step.induct)
    (auto simp: enterSys_def exitSys_def cross_def set_errno_def upd_tls_def assert_then_def res_simps)

interpretation rt_private: private_state "rt_step opt" "hook_step opt" tls_of app_space for opt
  by unfold_locales (auto dest: rt_step_kept kept_eqD hook_step_other)

text \<open>While thread \<open>u\<close> is inside a hook: its own segments, and anything of the other threads.\<close>

definition open_step :: "options \<Rightarrow> tid \<Rightarrow> rt \<Rightarrow> rt \<Rightarrow> bool" where
  "open_step opt u r r' \<longleftrightarrow> rt_step opt u r r' \<or> (\<exists>v. v \<noteq> u \<and> (rt_step opt v r r' \<or> hook_step opt v r r'))"

lemma open_run: "(open_step opt u)\<^sup>*\<^sup>* r r' \<Longrightarrow> app_space (tls_of r' u) = app_space (tls_of r u)"
  by (rule rt_private.space_run [of opt u]) (simp add: open_step_def [abs_def])

section \<open>The way in and out\<close>

lemma enterSys_ok:
  assumes "isApp u r"
  shows "enterSys opt u r = Inr (cross u r)" and "isSys u (cross u r)"
  using assms by (simp_all add: enterSys_def isApp_def isSys_def cross_def)

lemma exitSys_ok:
  assumes "isSys u r"
  shows "exitSys opt u r = Inr (cross u r)" and "isApp u (cross u r)"
  using assms by (simp_all add: exitSys_def isApp_def isSys_def cross_def)

lemma cross_simps [simp]:
  "sch (cross u r) = sch r" "errno (tls_of (cross u r) u) = errno (tls_of r u)" "objects (cross u r) = objects r"
  "in_non_det u (cross u r) = in_non_det u r" "v \<noteq> u \<Longrightarrow> tls_of (cross u r) v = tls_of r v"
  by (simp_all add: cross_def in_non_det_def upd_tls_def objects_def)

lemma space_errno [simp]: "isApp u (set_errno v e r) = isApp u r" "isSys u (set_errno v e r) = isSys u r"
  by (simp_all add: isApp_def isSys_def set_errno_def upd_tls_def)

lemma isSys_kept: "kept u r' = kept u r \<Longrightarrow> isSys u r' = isSys u r"
  by (simp add: isSys_def kept_def)

lemma set_errno_other [simp]: "v \<noteq> u \<Longrightarrow> tls_of (set_errno u e r) v = tls_of r v"
  by (simp add: set_errno_def upd_tls_def)

lemma hook_exit_ok:
  assumes "isSys u r"
  shows "\<exists>r'. hook_exit opt u Reported (Done ret e, r) = Inr (Done ret e, r') \<and> isApp u r' \<and> errno (tls_of r' u) = e \<and>
     sch r' = sch r \<and> objects r' = objects r \<and> (\<forall>v. v \<noteq> u \<longrightarrow> tls_of r' v = tls_of r v)"
  using exitSys_ok [OF assms] by (simp add: hook_exit_def)

end
