(* ===== verification/HookProperties.thy ===== *)
theory HookProperties
  imports Scenario HookProofs
begin

text \<open>
  Properties of the hooks and of the base class of the runtime: what the program sees when it
  calls a hooked function.
\<close>

section \<open>The hooks\<close>

text \<open>
  C36. A hook comes back. A thread that enters a hook from the application space finds, when its
  operation is done, the system space as it left it, whatever segments it has run and whatever
  the other threads have done meanwhile, hooks of their own included: the assertion at the end of
  the hook holds, the thread is back in the application space, \<open>errno\<close> is what the operation
  reports, and the variables of the other threads are untouched.
\<close>

theorem hook_comes_back:
  assumes "isApp u r" and "enterSys opt u r = Inr r1" and "(open_step opt u)\<^sup>*\<^sup>* r1 r2"
  shows "\<exists>r3. hook_exit opt u Reported (Done ret e, r2) = Inr (Done ret e, r3) \<and> isApp u r3 \<and>
     errno (tls_of r3 u) = e \<and> sch r3 = sch r2 \<and> (\<forall>v. v \<noteq> u \<longrightarrow> tls_of r3 v = tls_of r2 v)"
proof -
  have "isSys u r1" using enterSys_ok(1) [OF assms(1), of opt] enterSys_ok(2) [OF assms(1)] assms(2) by simp
  then have "isSys u r2" using open_run [OF assms(3)] by (simp add: isSys_def)
  then show ?thesis using hook_exit_ok by metis
qed

theorem hook_comes_back_witness:
  "\<exists>r r1 r2 r3. enterSys default_options MainThreadTid r = Inr r1 \<and>
     resume_lock default_options MainThreadTid (PLock OpMutexLock 0 3 (LMutex 5)) r1 = Inr (Done 0 3, r2) \<and>
     hook_exit default_options MainThreadTid Reported (Done 0 3, r2) = Inr (Done 0 3 :: lock_pc outcome, r3) \<and>
     isApp MainThreadTid r3 \<and> errno (tls_of r3 MainThreadTid) = 3"
proof -
  obtain s where s: "holding default_options MainThreadTid s" using scene_two by blast
  define r where "r = cross MainThreadTid (rt_new s)"
  have a: "isApp MainThreadTid r" by (simp add: r_def cross_def isApp_def tls_new_def)
  define r1 where "r1 = cross MainThreadTid r"
  have e: "enterSys default_options MainThreadTid r = Inr r1" using enterSys_ok(1) [OF a] by (simp add: r1_def)
  have r1: "sch r1 = s" "settled MainThreadTid r1" "mutexes r1 5 = \<lparr>m_kind = MNormal, m_owner = None, m_count = 0\<rparr>"
    by (simp_all add: r1_def r_def cross_def upd_tls_def settled_def rt_new_def)
  then have f: "fst (try_acquire MainThreadTid (LMutex 5) r1) = 0"
    by (simp add: try_acquire_def posix_mutex_trylock_def Let_def)
  obtain r2 where r2: "resume_lock default_options MainThreadTid (PLock OpMutexLock 0 3 (LMutex 5)) r1 = Inr (Done 0 3, r2)"
    using lock_turn_got [OF basic_default _ _ r1(2) f, of OpMutexLock 0 3] s r1(1) by (auto simp: resume_lock_def)
  then have "(open_step default_options MainThreadTid)\<^sup>*\<^sup>* r1 r2"
    by (intro r_into_rtranclp) (auto simp: open_step_def intro: rt_step.lock)
  from hook_comes_back [OF a e this, of 0 3] show ?thesis using e r2 by blast
qed

text \<open>
  C37. \<open>send\<close> from the program's side. A thread that is on the run queue without the turn enters
  the hook and is marked as being in a system call; when the system call returns, with other
  threads having run meanwhile, the hook gives the program the result, narrowed to an \<open>int\<close>, and
  the \<open>errno\<close> the call left; the thread is back in the application space, may be scheduled
  again and has announced itself to the next turn.
\<close>

theorem send_returns:
  assumes "isApp u r" and "turn_inv opt (sch r, H)" and "u \<notin> set (waitq (sch r))"
    and "status_of (sch r) u = Some RUNNABLE" and "\<not> in_non_det u r"
  shows "\<exists>r1. tern_send opt u fd buf len flags r =
       Inr ((errno (tls_of r u), IoCall ''send'' [fd, buf, len, flags]), r1) \<and> stopped (sch r1) u \<and>
     turn_inv opt (sch r1, H) \<and>
     (\<forall>r2 os w n e w' H'. (open_step opt u)\<^sup>*\<^sup>* r1 r2 \<and> turn_inv opt (sch r2, H') \<and> stopped (sch r2) u \<and>
        os ''send'' [fd, buf, len, flags] (errno (tls_of r u)) w = ((n, e), w') \<longrightarrow>
        (\<exists>r3. hook_io_end opt os u (IoCall ''send'' [fd, buf, len, flags]) (errno (tls_of r u)) (r2, w) =
             Some (Inr (to_int32 n, r3, w')) \<and> isApp u r3 \<and> errno (tls_of r3 u) = e \<and>
           status_of (sch r3) u = Some RUNNABLE \<and> u \<in> set (inter_pro_wakeup_tids (sch r3))))"
proof -
  let ?st = "IoCall ''send'' [fd, buf, len, flags]"
  obtain r1 where r1: "io_send opt u fd buf len flags (cross u r) = Inr (?st, r1)" "turn_inv opt (sch r1, H)"
     "status_of (sch r1) u = Some INTER_PRO_STOP"
    using io_start_ok [of opt "cross u r" H u "''send''" "[fd, buf, len, flags]"] assms(2-5) by (auto simp: io_send_def)
  have "isSys u r1" using enterSys_ok(2) [OF assms(1)] isSys_kept [OF kept_view.view_io_start] r1(1) by (simp add: io_send_def)
  then have sys: "isSys u r2" if "(open_step opt u)\<^sup>*\<^sup>* r1 r2" for r2 using open_run [OF that] by (simp add: isSys_def)
  have returns: "\<exists>r3. hook_io_end opt os u ?st (errno (tls_of r u)) (r2, w) = Some (Inr (to_int32 n, r3, w')) \<and>
       isApp u r3 \<and> errno (tls_of r3 u) = e \<and> status_of (sch r3) u = Some RUNNABLE \<and>
       u \<in> set (inter_pro_wakeup_tids (sch r3))"
    if p: "(open_step opt u)\<^sup>*\<^sup>* r1 r2" "turn_inv opt (sch r2, H')" "stopped (sch r2) u"
      "os ''send'' [fd, buf, len, flags] (errno (tls_of r u)) w = ((n, e), w')" for r2 os w n e w' H'
  proof -
    define q where "q = set_errno u e (set_errno u (errno (tls_of r u)) r2)"
    have q: "base_dispatch opt os u ''send'' [fd, buf, len, flags] (errno (tls_of r u)) (r2, w) = Inr ((n, e), q, w')"
      using p(4) by (simp add: base_dispatch_def base_call_def os_call_def q_def)
    have sq: "sch q = sch r2" "isSys u q" using sys [OF p(1)] by (simp_all add: q_def)
    obtain r3 where r3: "io_end opt u n e q = Inr ((n, e), r3)" "errno (tls_of r3 u) = e"
       "status_of (sch r3) u = Some RUNNABLE" "u \<in> set (inter_pro_wakeup_tids (sch r3))"
      using io_end_ok [of opt q H' u n e] p(2,3) sq(1) by auto
    have x: "isSys u r3" using isSys_kept [OF kept_view.view_io_end [OF r3(1)]] sq(2) by simp
    have "hook_io_end opt os u ?st (errno (tls_of r u)) (r2, w) = Some (Inr (to_int32 n, set_errno u e (cross u r3), w'))"
      using q r3(1) exitSys_ok(1) [OF x, of opt] by (simp add: hook_io_end_def io_finish_def hook_ret_def narrowed_def)
    then show ?thesis using exitSys_ok(2) [OF x] r3(3,4) by simp
  qed
  have "tern_send opt u fd buf len flags r = Inr ((errno (tls_of r u), ?st), r1)"
    using r1(1) enterSys_ok(1) [OF assms(1), of opt] by (simp add: tern_send_def hook_io_def)
  then show ?thesis using r1(2,3) returns by (auto simp: stopped_def)
qed

text \<open>A socket that takes at most three bytes at a time, and reports \<open>11\<close> in \<open>errno\<close>.\<close>

definition slow_socket :: "nat os" where
  "slow_socket f args e w = ((if f = ''send'' \<or> f = ''recv'' then min 3 (args ! 2) else 0, 11), w + 1)"

theorem send_returns_witness:
  "\<exists>r r1 r3. tern_send default_options 1 4 100 5 0 r = Inr ((0, IoCall ''send'' [4, 100, 5, 0]), r1) \<and>
     hook_io_end default_options slow_socket 1 (IoCall ''send'' [4, 100, 5, 0]) 0 (r1, 0) = Some (Inr (3, r3, 1)) \<and>
     isApp 1 r3 \<and> errno (tls_of r3 1) = 11"
proof -
  obtain s where s: "holding default_options MainThreadTid s" "waitq s = []" "status_of s 1 = Some RUNNABLE"
    using scene_two by blast
  define r where "r = cross 1 (rt_new s)"
  have r: "isApp 1 r" "turn_inv default_options (sch r, {MainThreadTid})" "1 \<notin> set (waitq (sch r))"
     "status_of (sch r) 1 = Some RUNNABLE" "\<not> in_non_det 1 r" "errno (tls_of r 1) = 0"
    using s by (simp_all add: r_def holding_def isApp_def cross_def in_non_det_def tls_new_def)
  have o: "slow_socket ''send'' [4, 100, 5, 0] 0 0 = ((3, 11), 1)" by (simp add: slow_socket_def)
  obtain r1 where r1: "tern_send default_options 1 4 100 5 0 r = Inr ((0, IoCall ''send'' [4, 100, 5, 0]), r1)"
     "stopped (sch r1) 1" "turn_inv default_options (sch r1, {MainThreadTid})"
     "\<exists>r3. hook_io_end default_options slow_socket 1 (IoCall ''send'' [4, 100, 5, 0]) 0 (r1, 0) =
        Some (Inr (to_int32 3, r3, 1)) \<and> isApp 1 r3 \<and> errno (tls_of r3 1) = 11"
    using send_returns [OF r(1-5), of 4 100 5 0] r(6) o by (metis rtranclp.rtrancl_refl)
  moreover have "to_int32 3 = 3" by (simp add: to_int32_small)
  ultimately show ?thesis by metis
qed

text \<open>
  What the program gets from hook \<open>h\<close>: the result of the C library's function \<open>f\<close>, \<open>errno\<close> equal to
  \<open>e\<close>, and itself back in the application space.
\<close>

definition hook_gives ::
  "options \<Rightarrow> 'w os \<Rightarrow> tid \<Rightarrow> rt \<times> 'w \<Rightarrow> (rt \<Rightarrow> ('k outcome \<times> rt) res) \<Rightarrow> syncfunc \<Rightarrow> int list \<Rightarrow> int \<Rightarrow> bool" where
  "hook_gives opt os u s h f args e \<longleftrightarrow>
     (\<exists>r'. hook_call opt os u h s =
         Inr (Done (fst (fst (os f args (errno (tls_of (fst s) u)) (snd s)))) e, r', snd (os f args (errno (tls_of (fst s) u)) (snd s))) \<and>
       isApp u r' \<and> errno (tls_of r' u) = e)"

lemma hook_gives_native:
  assumes a: "isApp u r" and op: "op (errno (tls_of r u)) (cross u r) = Inr (Native f args, r1)" "tls_of r1 = tls_of (cross u r)"
  shows "hook_gives opt os u (r, w) (hook_op opt u op) f args
     (if f \<in> set through_base then snd (fst (os f args (errno (tls_of r u)) w)) else errno (tls_of r u))"
proof -
  obtain ret e w' where o: "os f args (errno (tls_of r u)) w = ((ret, e), w')" by (metis surj_pair)
  have sys: "isSys u r1" "errno (tls_of r1 u) = errno (tls_of r u)"
    using op(2) enterSys_ok(2) [OF a] by (simp_all add: isSys_def)
  have h: "hook_op opt u op r = Inr (Native f args, r1)"
    using op(1) enterSys_ok(1) [OF a, of opt] by (simp add: hook_op_def hook_exit_def)
  show ?thesis
  proof (cases "f \<in> set through_base")
    case True
    let ?r = "set_errno u e (set_errno u (errno (tls_of r u)) r1)"
    have "exitSys opt u ?r = Inr (cross u ?r)" "isApp u (cross u ?r)" using exitSys_ok sys(1) by simp_all
    then show ?thesis using True h o
      by (simp add: hook_gives_def hook_call_def hook_native_def native_call_def base_call_def os_call_def)
  next
    case False
    let ?r = "set_errno u e r1"
    have "exitSys opt u ?r = Inr (cross u ?r)" "isApp u (cross u ?r)" using exitSys_ok sys(1) by simp_all
    then show ?thesis using False h o sys(2)
      by (simp add: hook_gives_def hook_call_def hook_native_def native_call_def os_call_def)
  qed
qed

lemma region_op:
  assumes "isApp u r" and "in_non_det u r" and "\<And>e q. in_non_det u q \<Longrightarrow> op e q = Inr (Native f args, count_non_det opt q)"
  shows "f \<notin> set through_base \<Longrightarrow> hook_gives opt os u (r, w) (hook_op opt u op) f args (errno (tls_of r u))"
    and "f \<in> set through_base \<Longrightarrow>
      hook_gives opt os u (r, w) (hook_op opt u op) f args (snd (fst (os f args (errno (tls_of r u)) w)))"
proof -
  have "op (errno (tls_of r u)) (cross u r) = Inr (Native f args, count_non_det opt (cross u r))" using assms(2,3) by simp
  moreover have "tls_of (count_non_det opt (cross u r)) = tls_of (cross u r)" by (simp add: count_non_det_def upd_stat_def)
  ultimately show "f \<notin> set through_base \<Longrightarrow> hook_gives opt os u (r, w) (hook_op opt u op) f args (errno (tls_of r u))"
    "f \<in> set through_base \<Longrightarrow>
      hook_gives opt os u (r, w) (hook_op opt u op) f args (snd (fst (os f args (errno (tls_of r u)) w)))"
    using hook_gives_native [OF assms(1), of op f args _ opt os w] by simp_all
qed

lemmas sync_op_defs = semTryWait_def semTimedWait_def semWait_def semPost_def pthreadCondWait_def pthreadCondTimedWait_def
  pthreadCondSignal_def pthreadCondBroadcast_def pthreadMutexTryLock_def pthreadMutexTimedLock_def pthreadMutexLock_def
  pthreadMutexUnlock_def rwlock_rdlock_def rwlock_wrlock_def rwlock_tryrdlock_def rwlock_trywrlock_def rwlock_unlock_def
  pthreadBarrierWait_def enter_op_def

lemmas sync_hook_defs = tern_sem_trywait_def tern_sem_timedwait_def tern_sem_wait_def tern_sem_post_def
  tern_pthread_cond_wait_def tern_pthread_cond_timedwait_def tern_pthread_cond_signal_def tern_pthread_cond_broadcast_def
  tern_pthread_mutex_trylock_def tern_pthread_mutex_timedlock_def tern_pthread_mutex_lock_def tern_pthread_mutex_unlock_def
  tern_pthread_rwlock_rdlock_def tern_pthread_rwlock_wrlock_def tern_pthread_rwlock_tryrdlock_def
  tern_pthread_rwlock_trywrlock_def tern_pthread_rwlock_unlock_def tern_pthread_barrier_wait_def

text \<open>
  C38. Errors of the calls that go straight to the C library are lost. A program that calls, inside
  a non-deterministic region, one of \<open>sem_trywait\<close>, \<open>sem_timedwait\<close>, \<open>pthread_mutex_trylock\<close>,
  \<open>pthread_mutex_timedlock\<close>, or a read-write lock, condition variable or barrier operation, gets the
  result of the C library's function, but \<open>errno\<close> is what it was before the call: the runtime calls
  the function without telling the hook the new \<open>errno\<close>, and the hook restores the one it saved.
  After \<open>sem_wait\<close>, \<open>sem_post\<close>, \<open>pthread_mutex_lock\<close> and \<open>pthread_mutex_unlock\<close>, which go through the
  base class, \<open>errno\<close> is what the function left.
\<close>

theorem native_errno_lost:
  assumes "isApp u r" and "in_non_det u r"
  shows "list_all (\<lambda>(h, f, args). hook_gives opt os u (r, w) h f args (errno (tls_of r u)))
       [(tern_sem_trywait opt u ins x, ''sem_trywait'', [int x]),
        (tern_sem_timedwait opt u ins x (Some ts) now, ''sem_timedwait'', [int x, tv_sec ts, tv_nsec ts]),
        (tern_pthread_cond_wait opt u ins x y caller, ''pthread_cond_wait'', [int x, int y]),
        (tern_pthread_cond_timedwait opt u ins x y (Some ts) now caller, ''pthread_cond_timedwait'', [int x, int y, tv_sec ts, tv_nsec ts]),
        (tern_pthread_cond_signal opt u ins x, ''pthread_cond_signal'', [int x]),
        (tern_pthread_cond_broadcast opt u ins x, ''pthread_cond_broadcast'', [int x])] \<and>
     list_all (\<lambda>(h, f, args). hook_gives opt os u (r, w) h f args (errno (tls_of r u)))
       [(tern_pthread_mutex_trylock opt u ins x, ''pthread_mutex_trylock'', [int x]),
        (tern_pthread_mutex_timedlock opt u ins x (Some ts) now, ''pthread_mutex_timedlock'', [int x, tv_sec ts, tv_nsec ts]),
        (tern_pthread_rwlock_rdlock opt u ins x, ''pthread_rwlock_rdlock'', [int x]),
        (tern_pthread_rwlock_wrlock opt u ins x, ''pthread_rwlock_wrlock'', [int x]),
        (tern_pthread_rwlock_tryrdlock opt u ins x, ''pthread_rwlock_tryrdlock'', [int x]),
        (tern_pthread_rwlock_trywrlock opt u ins x, ''pthread_rwlock_trywrlock'', [int x]),
        (tern_pthread_rwlock_unlock opt u ins x, ''pthread_rwlock_unlock'', [int x])] \<and>
     hook_gives opt os u (r, w) (tern_pthread_barrier_wait opt u ins x) ''pthread_barrier_wait'' [int x] (errno (tls_of r u)) \<and>
     list_all (\<lambda>(h, f, args). hook_gives opt os u (r, w) h f args (snd (fst (os f args (errno (tls_of r u)) w))))
       [(tern_sem_wait opt u ins x, ''sem_wait'', [int x]), (tern_sem_post opt u ins x, ''sem_post'', [int x])] \<and>
     list_all (\<lambda>(h, f, args). hook_gives opt os u (r, w) h f args (snd (fst (os f args (errno (tls_of r u)) w))))
       [(tern_pthread_mutex_lock opt u ins x, ''pthread_mutex_lock'', [int x]),
        (tern_pthread_mutex_unlock opt u ins x, ''pthread_mutex_unlock'', [int x])]"
  unfolding sync_hook_defs list.pred_inject prod.case
  by (intro conjI TrueI region_op [OF assms]) (simp_all add: sync_op_defs through_base_def)

theorem native_errno_lost_witness:
  "\<exists>r r'. isApp MainThreadTid r \<and> in_non_det MainThreadTid r \<and> errno (tls_of r MainThreadTid) = 0 \<and>
     hook_call default_options (\<lambda>f args e w. ((- 1, EAGAIN), w)) MainThreadTid (tern_sem_trywait default_options MainThreadTid 0 5) (r, ()) =
       Inr (Done (- 1) 0, r', ()) \<and>
     errno (tls_of r' MainThreadTid) = 0 \<and>
     (\<exists>r''. hook_call default_options (\<lambda>f args e w. ((- 1, EAGAIN), w)) MainThreadTid (tern_sem_wait default_options MainThreadTid 0 5) (r, ()) =
       Inr (Done (- 1) EAGAIN, r'', ()))"
proof -
  obtain s where "holding default_options MainThreadTid s" using scene_two by blast
  define r where "r = upd_tls MainThreadTid (\<lambda>t. t\<lparr>app_space := True, inNonDet := True\<rparr>) (rt_new s)"
  have r: "isApp MainThreadTid r" "in_non_det MainThreadTid r" "errno (tls_of r MainThreadTid) = 0"
    by (simp_all add: r_def isApp_def in_non_det_def upd_tls_def tls_new_def)
  let ?os = "\<lambda>f args e w. ((- 1, EAGAIN), w)"
  have "hook_gives default_options ?os MainThreadTid (r, ()) (tern_sem_trywait default_options MainThreadTid 0 5) ''sem_trywait'' [5] 0"
    "hook_gives default_options ?os MainThreadTid (r, ()) (tern_sem_wait default_options MainThreadTid 0 5) ''sem_wait'' [5] EAGAIN"
    using native_errno_lost [OF r(1,2), of default_options ?os "()" 0 5] r(3) by simp_all
  then obtain r' r'' where "hook_call default_options ?os MainThreadTid (tern_sem_trywait default_options MainThreadTid 0 5) (r, ()) =
       Inr (Done (- 1) 0, r', ())" "errno (tls_of r' MainThreadTid) = 0"
     "hook_call default_options ?os MainThreadTid (tern_sem_wait default_options MainThreadTid 0 5) (r, ()) = Inr (Done (- 1) EAGAIN, r'', ())"
    by (auto simp: hook_gives_def)
  then show ?thesis using r by blast
qed

section \<open>The base class\<close>

text \<open>
  C39. The loop of \<open>recv\<close> ends, for a buffer of any length: on a system whose \<open>recv\<close> delivers at most
  the length it is asked for, and without \<open>MSG_TRUNC\<close>, it returns \<open>-1\<close> or a number of bytes within
  the buffer. The length is compared as an \<open>int\<close>: where that is not positive, as it is from two
  up to four gigabytes, the call returns \<open>0\<close> without receiving anything. Without the option
  \<open>non_block_recv\<close> there is just one call of the C library, whose result is returned.
\<close>

theorem recv_ends:
  assumes "recv_within os" and "0 \<le> len" and "\<not> bit flags MSG_TRUNC_BIT"
  shows "\<exists>ret e s'. base_recv opt os u fd buf len flags error (r, w) = Inr ((ret, e), s') \<and> - 1 \<le> ret \<and> ret \<le> len \<and>
     (to_int32 len \<le> 0 \<longrightarrow> ret = 0 \<and> s' = (set_errno u error r, w)) \<and>
     (2 ^ 31 \<le> len \<and> len < 2 ^ 32 \<longrightarrow> to_int32 len < 0) \<and>
     (0 < to_int32 len \<and> \<not> non_block_recv opt \<longrightarrow> ret = max (- 1) (fst (fst (os ''recv'' [fd, buf, len, flags] error w))))"
proof -
  have "nat (len - 0) + (10 - 0) < recv_bound len" by (simp add: recv_bound_def)
  from recv_loop_ok [OF assms(1,3) order_refl assms(2) this]
  obtain ret s' where l: "recv_loop (recv_bound len) opt os u fd buf len flags 0 0 (set_errno u error r, w) = Inr (ret, s')"
    "- 1 \<le> ret" "ret \<le> len" by blast
  have z: "to_int32 0 = 0" by (simp add: to_int32_small)
  obtain n where n: "recv_bound len = Suc n" by (simp add: recv_bound_def eval_nat_numeral)
  have "ret = 0 \<and> s' = (set_errno u error r, w)" if "to_int32 len \<le> 0" using l(1) that n z by simp
  moreover have "ret = max (- 1) (fst (fst (os ''recv'' [fd, buf, len, flags] error w)))"
    if "0 < to_int32 len" "\<not> non_block_recv opt"
    using l(1) that n z by (auto simp: os_call_def Let_def split: prod.splits if_splits)
  moreover have "to_int32 len < 0" if "2 ^ 31 \<le> len" "len < 2 ^ 32" using to_int32_large [OF that] that by simp
  ultimately show ?thesis using l by (cases s') (simp add: base_recv_def)
qed

theorem recv_ends_witness:
  "recv_within slow_socket \<and> (\<exists>r ret e s'.
     base_recv (default_options\<lparr>non_block_recv := True\<rparr>) slow_socket 0 4 100 5 0 0 (r, 0) = Inr ((ret, e), s') \<and> ret \<le> 5) \<and>
   (\<exists>r e s'. base_recv default_options slow_socket 0 4 100 3000000000 0 0 (r, 0) = Inr ((0, e), s'))"
proof (intro conjI)
  show w: "recv_within slow_socket" by (simp add: recv_within_def slow_socket_def)
  show "\<exists>r ret e s'. base_recv (default_options\<lparr>non_block_recv := True\<rparr>) slow_socket 0 4 100 5 0 0 (r, 0) = Inr ((ret, e), s') \<and> ret \<le> 5"
    using recv_ends [OF w, of 5 0] by fastforce
  show "\<exists>r e s'. base_recv default_options slow_socket 0 4 100 3000000000 0 0 (r, 0) = Inr ((0, e), s')"
    using recv_ends [OF w, of 3000000000 0 default_options 0 4 100 0 _ 0] by fastforce
qed

end
