(* ===== verification/RecordLog.thy ===== *)
theory RecordLog
  imports RtThread
begin

text \<open>
  The loggers of \<open>lib/runtime/record-log.cpp\<close> with the record formats of
  \<open>include/tern/logdefs.h\<close>: the text logger and the logger for tests, which write one line per
  operation, and the binary logger, which writes records of 32 bytes into a mapped file. Each
  thread has a logger of its own; the contents of its file are part of the logger's state.
\<close>

unbundle bit_operations_syntax

section \<open>Numbers\<close>

text \<open>The formatted output of the C++ streams: \<open>hex\<close>, \<open>dec\<close>, and \<open>setw\<close> with fill character \<open>0\<close>.\<close>

definition digit :: "nat \<Rightarrow> char" where
  "digit k = ''0123456789abcdef'' ! k"

fun digits :: "nat \<Rightarrow> nat \<Rightarrow> string" where
  "digits b n = (if n < b \<or> b < 2 then [digit n] else digits b (n div b) @ [digit (n mod b)])"

declare digits.simps [simp del]

definition dec :: "int \<Rightarrow> string" where
  "dec i = (if i < 0 then ''-'' @ digits 10 (nat (- i)) else digits 10 (nat i))"

definition hex :: "nat \<Rightarrow> string" where
  "hex n = digits 16 n"

definition setw :: "nat \<Rightarrow> string \<Rightarrow> string" where
  "setw w s = replicate (w - length s) (CHR ''0'') @ s"

definition endl :: string where
  "endl = [CHR 0x0A]"

section \<open>Files\<close>

text \<open>The name of a thread's file, cut to the \<open>sz - 1\<close> characters that fit into the buffer.\<close>

definition getLogFilename :: "options \<Rightarrow> nat \<Rightarrow> nat \<Rightarrow> tid \<Rightarrow> string \<Rightarrow> string" where
  "getLogFilename opt sz pid t ext = take (sz - 1)
     (if pid_in_logfilename opt
      then output_dir opt @ ''/tid-'' @ dec (int pid) @ ''-'' @ dec (int t) @ ext
      else output_dir opt @ ''/tid-'' @ dec (int t) @ ext)"

section \<open>Operations that are logged twice\<close>

definition two_records :: "syncfunc list" where
  "two_records = [''accept'', ''accept4'', ''connect'', ''recv'', ''recvfrom'', ''recvmsg'', ''read'', ''select'',
     ''epoll_wait'', ''epoll_create'', ''epoll_ctl'', ''sigwait'', ''fgets'', ''wait'', ''pthread_cond_wait'',
     ''pthread_barrier_wait'', ''pthread_cond_timedwait'']"

definition NumRecordsForSync :: "nat \<Rightarrow> int" where
  "NumRecordsForSync sync = (if sync \<in> set (map getNameID two_records) then 2 else 1)"

definition NumSyncArgs :: "nat \<Rightarrow> nat" where
  "NumSyncArgs sync = (if sync = getNameID ''pthread_cond_wait'' then 2 else 1)"

section \<open>Text\<close>

text \<open>\<open>tl_good\<close> is the state of the stream: nothing is written to a file that could not be opened.\<close>

record txt_logger =
  tl_tid :: tid
  iter_num :: int
  tl_ouf :: string
  tl_good :: bool

definition emit :: "string \<Rightarrow> txt_logger \<Rightarrow> txt_logger" where
  "emit s l = (if tl_good l then l\<lparr>tl_ouf := tl_ouf l @ s\<rparr> else l)"

definition print_header :: "txt_logger \<Rightarrow> txt_logger" where
  "print_header = emit (''itr_num op insid turn app_time syscall_time sched_time tid wait_type args'' @ endl)"

definition set_iter_num :: "int \<Rightarrow> txt_logger \<Rightarrow> txt_logger" where
  "set_iter_num i l = l\<lparr>iter_num := i\<rparr>"

text \<open>\<open>opened\<close>: whether the file could be opened for writing.\<close>

definition TxtLogger :: "options \<Rightarrow> bool \<Rightarrow> tid \<Rightarrow> txt_logger res" where
  "TxtLogger opt opened t = assert_then opt opened
     (Inr (print_header \<lparr>tl_tid = t, iter_num = - 1, tl_ouf = [], tl_good = opened\<rparr>))"

definition TestLogger :: "options \<Rightarrow> bool \<Rightarrow> tid \<Rightarrow> txt_logger res" where
  "TestLogger opt opened t = assert_then opt opened
     (Inr \<lparr>tl_tid = t, iter_num = - 1, tl_ouf = [], tl_good = opened\<rparr>)"

text \<open>How many arguments the text logger prints for an operation; \<open>None\<close> is the \<open>default\<close> case.\<close>

definition sched_points :: "syncfunc list" where
  "sched_points = [''accept4'', ''recv'', ''recvfrom'', ''recvmsg'', ''select'', ''poll'', ''bind'', ''listen'',
     ''getsockopt'', ''setsockopt'', ''pipe'', ''fcntl'', ''shutdown'', ''gethostbyname'', ''gethostbyname_r'',
     ''getaddrinfo'', ''freeaddrinfo'', ''gethostbyaddr'', ''inet_ntoa'', ''strtok'', ''epoll_wait'', ''epoll_create'',
     ''epoll_ctl'', ''sigwait'', ''fgets'', ''kill'', ''fork'', ''execv'', ''sched_yield'', ''wait'', ''waitpid'',
     ''tern_idle'', ''tern_non_det_start'', ''tern_non_det_end'']"

definition one_var :: "syncfunc list" where
  "one_var = [''pthread_mutex_init'', ''pthread_mutex_destroy'', ''pthread_mutex_lock'', ''pthread_mutex_unlock'',
     ''pthread_barrier_wait'', ''pthread_barrier_destroy'', ''pthread_cond_signal'', ''pthread_cond_broadcast'',
     ''sem_wait'', ''sem_init'', ''sem_post'', ''pthread_join'', ''pthread_detach'', ''sleep'', ''usleep'', ''nanosleep'',
     ''pthread_rwlock_rdlock'', ''pthread_rwlock_wrlock'', ''tern_lineup_start'', ''tern_lineup_end'', ''tern_lineup_destroy'']"

definition two_vars :: "syncfunc list" where
  "two_vars = [''pthread_mutex_timedlock'', ''pthread_cond_wait'', ''pthread_barrier_init'', ''pthread_create'',
     ''pthread_mutex_trylock'', ''sem_trywait'', ''sem_timedwait'', ''pthread_rwlock_tryrdlock'',
     ''pthread_rwlock_trywrlock'', ''pthread_rwlock_unlock'']"

definition three_vars :: "syncfunc list" where
  "three_vars = [''pthread_cond_timedwait'', ''read'', ''pread'', ''accept'', ''write'', ''pwrite'', ''tern_lineup_init'']"

definition test_args :: "syncfunc \<Rightarrow> nat option" where
  "test_args f = (if f \<in> set sched_points then Some 0 else if f \<in> set one_var then Some 1
     else if f \<in> set two_vars then Some 2 else if f \<in> set three_vars then Some 3
     else if f = ''connect'' then Some 4 else None)"

definition txt_args :: "syncfunc \<Rightarrow> nat option" where
  "txt_args f = (if f \<in> {''tern_dummy_sync'', ''tern_set_flag'', ''tern_ext_get_turn'', ''tern_ext_put_turn''} then Some 0
     else test_args f)"

text \<open>Reading \<open>n\<close> of the arguments that were passed, as unsigned 64-bit numbers.\<close>

definition va_args :: "nat \<Rightarrow> int list \<Rightarrow> string res" where
  "va_args n args = check OutOfRange (n \<le> length args)
     (Inr (concat (map (\<lambda>a. '' 0x'' @ hex (unat (word_of_int a :: 64 word))) (take n args))))"

definition time_field :: "timespec \<Rightarrow> string" where
  "time_field t = '' '' @ dec (tv_sec t) @ '':'' @ setw 9 (dec (tv_nsec t))"

text \<open>The last field: all but the beginning and the end of a thread go through the \<open>switch\<close>.\<close>

definition log_args :: "options \<Rightarrow> (syncfunc \<Rightarrow> nat option) \<Rightarrow> syncfunc \<Rightarrow> int list \<Rightarrow> string res" where
  "log_args opt table f args = (case table f of
     Some n \<Rightarrow> va_args n args | None \<Rightarrow> assert_then opt False (Inr []))"

definition thread_mark :: "syncfunc \<Rightarrow> bool" where
  "thread_mark f \<longleftrightarrow> f = ''tern_thread_begin'' \<or> f = ''tern_thread_end''"

definition suffix_of :: "nat \<Rightarrow> bool \<Rightarrow> string" where
  "suffix_of sync after = (if NumRecordsForSync sync = 2 then if after then ''_second'' else ''_first'' else '''')"

text \<open>\<open>wt\<close> is the thread's \<open>getTurnWaitType\<close>.\<close>

definition txt_logSync ::
  "options \<Rightarrow> int \<Rightarrow> u32 \<Rightarrow> nat \<Rightarrow> u32 \<Rightarrow> timespec \<Rightarrow> timespec \<Rightarrow> timespec \<Rightarrow> bool \<Rightarrow> int list \<Rightarrow> txt_logger \<Rightarrow> txt_logger res" where
  "txt_logSync opt wt insid sync turn time1 time2 sched_time after args l =
     assert_then opt (valid_sync sync) (res_bind (getName sync) (\<lambda>f.
     let times = time_field time1 @ time_field time2 @ time_field sched_time;
         tail = '' '' @ dec (int (tl_tid l)) @ '' '' @ dec wt in
     if thread_mark f
     then res_bind (va_args 1 args) (\<lambda>a.
          Inr (emit (dec (iter_num l) @ '' '' @ f @ '' 0x'' @ hex (unat insid) @ '' '' @ dec (uint turn) @ times @ tail @ a @ endl) l))
     else res_bind (log_args opt txt_args f args) (\<lambda>a.
          Inr (emit (dec (iter_num l) @ '' '' @ f @ suffix_of sync after @ '' 0x'' @ setw 8 (hex (unat insid)) @ '' '' @
                 dec (uint turn) @ times @ tail @ a @ endl) l))))"

text \<open>The logger for tests hides instruction identifiers and times.\<close>

definition no_time :: timespec where
  "no_time = \<lparr>tv_sec = 0, tv_nsec = 0\<rparr>"

definition test_logSync ::
  "options \<Rightarrow> u32 \<Rightarrow> nat \<Rightarrow> u32 \<Rightarrow> timespec \<Rightarrow> timespec \<Rightarrow> timespec \<Rightarrow> bool \<Rightarrow> int list \<Rightarrow> txt_logger \<Rightarrow> txt_logger res" where
  "test_logSync opt insid sync turn time1 time2 sched_time after args l =
     assert_then opt (valid_sync sync) (res_bind (getName sync) (\<lambda>f.
     let times = time_field no_time @ time_field no_time @ time_field no_time; tail = '' '' @ dec (int (tl_tid l)) in
     if thread_mark f
     then res_bind (va_args 1 args) (\<lambda>a.
          Inr (emit (f @ '' 0x'' @ hex 0 @ '' '' @ dec (uint turn) @ times @ tail @ a @ endl) l))
     else res_bind (log_args opt test_args f args) (\<lambda>a.
          Inr (emit (f @ suffix_of sync after @ '' 0x'' @ setw 8 (hex 0) @ '' '' @ dec (uint turn) @ times @ tail @ a @ endl) l))))"

section \<open>Records\<close>

definition RECORD_SIZE :: u32 where
  "RECORD_SIZE = 32"

definition TRUNK_SIZE :: u32 where
  "TRUNK_SIZE = 1024 * 1024 * 1024"

definition LOG_SIZE :: u32 where
  "LOG_SIZE = 1 * TRUNK_SIZE"

definition MAX_INLINE_ARGS :: u32 where
  "MAX_INLINE_ARGS = 2"

definition MAX_EXTRA_ARGS :: u32 where
  "MAX_EXTRA_ARGS = 3"

definition CallIndirect :: "8 word" where
  "CallIndirect = 1"

definition CallNoReturn :: "8 word" where
  "CallNoReturn = 2"

text \<open>
  The first field of every record is the instruction identifier, of 29 bits; a \<open>short\<close> is an
  \<open>int\<close> here. Fields that the code does not assign are left out: they keep what the file held at
  that place (\<open>flags\<close> of \<open>ExtraArgsRec\<close>, \<open>seq\<close> of \<open>LoadRec\<close> and
  \<open>StoreRec\<close>, \<open>timedout\<close> of \<open>SyncRec\<close>, the arguments beyond the last one).
\<close>

datatype log_rec =
    InsidRec "29 word"
  | LoadRec "29 word" "64 word" "64 word"
  | StoreRec "29 word" "64 word" "64 word"
  | CallRec "29 word" "8 word" "8 word" int u32 "int list"
  | ExtraArgsRec "29 word" "8 word" int "int list"
  | ReturnRec "29 word" "8 word" "8 word" int u32 "64 word"
  | SyncRec "29 word" nat bool u32 "int list"

definition INVALID_INSID_IN_REC :: u32 where
  "INVALID_INSID_IN_REC = INVALID_INSID AND (2 ^ 29 - 1)"

definition validInsid :: "29 word \<Rightarrow> bool" where
  "validInsid i \<longleftrightarrow> ucast i \<noteq> INVALID_INSID_IN_REC"

definition getInsid :: "29 word \<Rightarrow> u32" where
  "getInsid i = (if validInsid i then ucast i else INVALID_INSID)"

definition setInsid :: "options \<Rightarrow> u32 \<Rightarrow> (29 word) res" where
  "setInsid opt i =
     (let i = (if i = INVALID_INSID then INVALID_INSID_IN_REC else i) in
      assert_then opt (unat i < 2 ^ 29) (Inr (ucast i)))"

text \<open>The constants are \<open>unsigned\<close>, so the computation is modulo \<open>2 ^ 32\<close>.\<close>

definition NumExtraArgsRecords :: "int \<Rightarrow> int" where
  "NumExtraArgsRecords narg = sint ((word_of_int narg - MAX_INLINE_ARGS + MAX_EXTRA_ARGS - 1) div MAX_EXTRA_ARGS)"

definition to_short :: "int \<Rightarrow> int" where
  "to_short x = sint (word_of_int x :: 16 word)"

text \<open>\<open>stale\<close> is what the file holds in the \<open>flags\<close> of a record that does not assign them.\<close>

definition numRecForInst :: "8 word \<Rightarrow> log_rec \<Rightarrow> int" where
  "numRecForInst stale r =
     (let calls = (\<lambda>narg flags. 1 + NumExtraArgsRecords narg + (if flags AND CallNoReturn = 0 then 1 else 0)) in
      case r of
        CallRec _ flags _ narg _ _ \<Rightarrow> calls narg flags
      | ExtraArgsRec _ _ narg _ \<Rightarrow> calls narg stale
      | ReturnRec _ flags _ narg _ _ \<Rightarrow> calls narg flags
      | SyncRec _ sync _ _ _ \<Rightarrow> NumRecordsForSync sync
      | _ \<Rightarrow> 1)"

definition numArgsInRec :: "log_rec \<Rightarrow> int" where
  "numArgsInRec r = (case r of
     CallRec _ _ _ narg _ _ \<Rightarrow> min narg (uint MAX_INLINE_ARGS)
   | ExtraArgsRec _ seq narg _ \<Rightarrow>
       min (to_short (narg - uint MAX_INLINE_ARGS - (uint seq - 1) * uint MAX_EXTRA_ARGS)) (uint MAX_EXTRA_ARGS)
   | _ \<Rightarrow> 0)"

section \<open>The binary logger\<close>

text \<open>
  \<open>bl_recs\<close> are the records in the mapped part of the file, \<open>bl_off\<close> is \<open>off\<close>, \<open>bl_size\<close> the size of
  the file. The table \<open>funcs\<close> is shared by all loggers.
\<close>

record bin_logger =
  bl_recs :: "log_rec list"
  bl_off :: u32
  bl_foff :: int
  bl_size :: nat
  funcs :: "vptr \<Rightarrow> u32 option"

definition mapFuncToID :: "vptr \<Rightarrow> u32 \<Rightarrow> bin_logger \<Rightarrow> bin_logger" where
  "mapFuncToID func funcid b = b\<lparr>funcs := (funcs b)(func \<mapsto> funcid)\<rparr>"

definition funcHasID :: "vptr \<Rightarrow> bin_logger \<Rightarrow> bool" where
  "funcHasID func b \<longleftrightarrow> funcs b func \<noteq> None"

text \<open>\<open>funcs[func]\<close>, which enters \<open>0\<close> for a function that is not in the table.\<close>

definition func_id :: "vptr \<Rightarrow> bin_logger \<Rightarrow> u32 \<times> bin_logger" where
  "func_id func b = (case funcs b func of Some i \<Rightarrow> (i, b) | None \<Rightarrow> (0, mapFuncToID func 0 b))"

definition mapLogTrunk :: "bin_logger \<Rightarrow> bin_logger" where
  "mapLogTrunk b = b\<lparr>bl_off := 0, bl_foff := bl_foff b + uint TRUNK_SIZE, bl_recs := []\<rparr>"

text \<open>
  The file is given its size inside an \<open>assert\<close>: without assertions it keeps the size
  \<open>old_size\<close> it had.
\<close>

definition BinLogger :: "options \<Rightarrow> bool \<Rightarrow> nat \<Rightarrow> (vptr \<Rightarrow> u32 option) \<Rightarrow> bin_logger res" where
  "BinLogger opt opened old_size fs = assert_then opt opened
     (Inr (mapLogTrunk \<lparr>bl_recs = [], bl_off = 0, bl_foff = 0,
        bl_size = (if ndebug opt then old_size else unat LOG_SIZE), funcs = fs\<rparr>))"

text \<open>The destructor, which cuts the file to the part in use, also inside an \<open>assert\<close>.\<close>

definition bin_close :: "options \<Rightarrow> bin_logger \<Rightarrow> bin_logger" where
  "bin_close opt b = b\<lparr>bl_size := (if ndebug opt then bl_size b else nat (bl_foff b - uint TRUNK_SIZE + uint (bl_off b)))\<rparr>"

definition checkAndGrowLogSize :: "options \<Rightarrow> bin_logger \<Rightarrow> 'a res \<Rightarrow> 'a res" where
  "checkAndGrowLogSize opt b m = assert_then opt (bl_off b + RECORD_SIZE \<le> TRUNK_SIZE) m"

text \<open>Writing a record: beyond the mapping, or beyond the last page of the file, the process is killed.\<close>

definition page_up :: "nat \<Rightarrow> nat" where
  "page_up n = (n + 4095) div 4096 * 4096"

definition put_rec :: "log_rec \<Rightarrow> bin_logger \<Rightarrow> bin_logger res" where
  "put_rec r b = check OutOfRange (unat (bl_off b) + unat RECORD_SIZE \<le> min (unat TRUNK_SIZE) (page_up (bl_size b)))
     (Inr (b\<lparr>bl_recs := bl_recs b @ [r], bl_off := bl_off b + RECORD_SIZE\<rparr>))"

definition bin_logInsid :: "options \<Rightarrow> u32 \<Rightarrow> bin_logger \<Rightarrow> bin_logger res" where
  "bin_logInsid opt insid b = checkAndGrowLogSize opt b
     (res_bind (setInsid opt insid) (\<lambda>i. put_rec (InsidRec i) b))"

definition bin_logLoad :: "options \<Rightarrow> u32 \<Rightarrow> 64 word \<Rightarrow> 64 word \<Rightarrow> bin_logger \<Rightarrow> bin_logger res" where
  "bin_logLoad opt insid a data b = checkAndGrowLogSize opt b
     (res_bind (setInsid opt insid) (\<lambda>i. put_rec (LoadRec i a data) b))"

definition bin_logStore :: "options \<Rightarrow> u32 \<Rightarrow> 64 word \<Rightarrow> 64 word \<Rightarrow> bin_logger \<Rightarrow> bin_logger res" where
  "bin_logStore opt insid a data b = checkAndGrowLogSize opt b
     (res_bind (setInsid opt insid) (\<lambda>i. put_rec (StoreRec i a data) b))"

text \<open>\<open>noret\<close> are the addresses of \<open>exit\<close> and \<open>pthread_exit\<close>.\<close>

definition call_flags :: "vptr set \<Rightarrow> vptr \<Rightarrow> 8 word \<Rightarrow> 8 word" where
  "call_flags noret func flags =
     (if flags AND CallIndirect \<noteq> 0 \<and> func \<in> noret then flags OR CallNoReturn else flags)"

text \<open>
  The loop over the extra records: \<open>seq\<close> counts them, \<open>i\<close> the arguments already written, \<open>vl\<close> are
  the arguments not yet read.
\<close>

function extra_loop ::
  "options \<Rightarrow> u32 \<Rightarrow> int \<Rightarrow> int \<Rightarrow> int \<Rightarrow> int \<Rightarrow> int list \<Rightarrow> bin_logger \<Rightarrow> bin_logger res" where
  "extra_loop opt insid narg nextra i seq vl b =
     (if seq \<le> nextra
      then checkAndGrowLogSize opt b (res_bind (setInsid opt insid) (\<lambda>id.
           let rec_narg = min narg (to_short (uint MAX_INLINE_ARGS + uint MAX_EXTRA_ARGS * seq)); n = nat (rec_narg - i) in
           check OutOfRange (n \<le> length vl)
             (res_bind (put_rec (ExtraArgsRec id (word_of_int seq) narg (take n vl)) b) (\<lambda>b.
              extra_loop opt insid narg nextra (i + int n) (seq + 1) (drop n vl) b))))
      else Inr b)"
  by pat_completeness auto
termination
  by (relation "measure (\<lambda>(opt, insid, narg, nextra, i, seq, vl, b). nat (nextra - seq + 1))") auto

declare extra_loop.simps [simp del]

definition bin_logCall ::
  "options \<Rightarrow> vptr set \<Rightarrow> 8 word \<Rightarrow> u32 \<Rightarrow> int \<Rightarrow> vptr \<Rightarrow> int list \<Rightarrow> bin_logger \<Rightarrow> bin_logger res" where
  "bin_logCall opt noret flags insid narg func vl b =
     (let flags = call_flags noret func flags; nextra = to_short (NumExtraArgsRecords narg);
          rec_narg = min narg (uint MAX_INLINE_ARGS); n = nat rec_narg in
      assert_then opt (funcHasID func b) (checkAndGrowLogSize opt b
        (res_bind (setInsid opt insid) (\<lambda>id.
         let (fid, b) = func_id func b in
         check OutOfRange (n \<le> length vl)
           (res_bind (put_rec (CallRec id flags 0 narg fid (take n vl)) b) (\<lambda>b.
            extra_loop opt insid narg nextra (int n) 1 (drop n vl) b))))))"

definition bin_logRet ::
  "options \<Rightarrow> vptr set \<Rightarrow> 8 word \<Rightarrow> u32 \<Rightarrow> int \<Rightarrow> vptr \<Rightarrow> 64 word \<Rightarrow> bin_logger \<Rightarrow> bin_logger res" where
  "bin_logRet opt noret flags insid narg func data b =
     (let flags = call_flags noret func flags in
      assert_then opt (funcHasID func b) (assert_then opt (flags AND CallNoReturn = 0) (checkAndGrowLogSize opt b
        (res_bind (setInsid opt insid) (\<lambda>id.
         let (fid, b) = func_id func b in
         put_rec (ReturnRec id flags (word_of_int (NumExtraArgsRecords narg + 1)) narg fid data) b)))))"

definition bin_logSync ::
  "options \<Rightarrow> u32 \<Rightarrow> nat \<Rightarrow> u32 \<Rightarrow> bool \<Rightarrow> int list \<Rightarrow> bin_logger \<Rightarrow> bin_logger res" where
  "bin_logSync opt insid sync turn after args b = checkAndGrowLogSize opt b
     (assert_then opt (valid_sync sync) (res_bind (setInsid opt insid) (\<lambda>id.
      let n = NumSyncArgs sync in
      check OutOfRange (n \<le> length args) (put_rec (SyncRec id sync after turn (take n args)) b))))"

section \<open>The logger of a thread\<close>

datatype logger = TxtLog txt_logger | BinLog bin_logger | TestLog txt_logger

definition txt_or_test :: "(txt_logger \<Rightarrow> logger) \<Rightarrow> txt_logger res \<Rightarrow> logger option res" where
  "txt_or_test c m = res_bind m (\<lambda>l. Inr (Some (c l)))"

text \<open>\<open>Logger::threadBegin\<close>: \<open>None\<close> is a null pointer in \<open>the\<close>.\<close>

definition log_threadBegin :: "options \<Rightarrow> bool \<Rightarrow> nat \<Rightarrow> (vptr \<Rightarrow> u32 option) \<Rightarrow> tid \<Rightarrow> logger option \<Rightarrow> logger option res" where
  "log_threadBegin opt opened old_size fs t the_log =
     (if \<not> log_sync opt then Inr the_log
      else if log_type opt = ''txt'' then txt_or_test TxtLog (TxtLogger opt opened t)
      else if log_type opt = ''bin'' then res_bind (BinLogger opt opened old_size fs) (\<lambda>b. Inr (Some (BinLog b)))
      else if log_type opt = ''test'' then txt_or_test TestLog (TestLogger opt opened t)
      else assert_then opt False (Inr the_log))"

text \<open>The logger is deleted when its thread ends. The second: the directories made at the start of the program.\<close>

definition log_threadEnd :: "options \<Rightarrow> logger option \<Rightarrow> logger option" where
  "log_threadEnd opt the_log = (if log_sync opt then None else the_log)"

definition log_progBegin :: "options \<Rightarrow> string list" where
  "log_progBegin opt = (if log_sync opt then [output_dir opt] else [])"

text \<open>A call through \<open>Logger::the\<close>: only the binary logger overrides all the functions.\<close>

definition on_bin :: "(bin_logger \<Rightarrow> bin_logger res) \<Rightarrow> logger option \<Rightarrow> logger option res" where
  "on_bin f the_log = (case the_log of
     None \<Rightarrow> Inl NullDeref
   | Some (BinLog b) \<Rightarrow> res_bind (f b) (\<lambda>b. Inr (Some (BinLog b)))
   | Some l \<Rightarrow> Inr (Some l))"

definition tern_log_insid :: "options \<Rightarrow> u32 \<Rightarrow> logger option \<Rightarrow> logger option res" where
  "tern_log_insid opt insid = on_bin (bin_logInsid opt insid)"

definition tern_log_load :: "options \<Rightarrow> u32 \<Rightarrow> 64 word \<Rightarrow> 64 word \<Rightarrow> logger option \<Rightarrow> logger option res" where
  "tern_log_load opt insid a data = on_bin (bin_logLoad opt insid a data)"

definition tern_log_store :: "options \<Rightarrow> u32 \<Rightarrow> 64 word \<Rightarrow> 64 word \<Rightarrow> logger option \<Rightarrow> logger option res" where
  "tern_log_store opt insid a data = on_bin (bin_logStore opt insid a data)"

definition tern_log_call ::
  "options \<Rightarrow> vptr set \<Rightarrow> 8 word \<Rightarrow> u32 \<Rightarrow> int \<Rightarrow> vptr \<Rightarrow> int list \<Rightarrow> logger option \<Rightarrow> logger option res" where
  "tern_log_call opt noret flags insid narg func args = on_bin (bin_logCall opt noret flags insid narg func args)"

definition tern_log_ret ::
  "options \<Rightarrow> vptr set \<Rightarrow> 8 word \<Rightarrow> u32 \<Rightarrow> int \<Rightarrow> vptr \<Rightarrow> 64 word \<Rightarrow> logger option \<Rightarrow> logger option res" where
  "tern_log_ret opt noret flags insid narg func data = on_bin (bin_logRet opt noret flags insid narg func data)"

definition logger_logSync ::
  "options \<Rightarrow> int \<Rightarrow> u32 \<Rightarrow> nat \<Rightarrow> u32 \<Rightarrow> timespec \<Rightarrow> timespec \<Rightarrow> timespec \<Rightarrow> bool \<Rightarrow> int list \<Rightarrow> logger option \<Rightarrow> logger option res" where
  "logger_logSync opt wt insid sync turn time1 time2 sched_time after args the_log = (case the_log of
     None \<Rightarrow> Inl NullDeref
   | Some (TxtLog l) \<Rightarrow> txt_or_test TxtLog (txt_logSync opt wt insid sync turn time1 time2 sched_time after args l)
   | Some (BinLog b) \<Rightarrow> res_bind (bin_logSync opt insid sync turn after args b) (\<lambda>b. Inr (Some (BinLog b)))
   | Some (TestLog l) \<Rightarrow> txt_or_test TestLog (test_logSync opt insid sync turn time1 time2 sched_time after args l))"

end
