(* ===== verification/LogProofs.thy ===== *)
theory LogProofs
  imports RecordLog HookProofs "HOL-Library.Sublist"
begin

text \<open>
  The logs. What the binary logger writes for a call reads back as the identifier and the arguments
  it was given; every entry the runtime makes is one the text logger can print, except those of
  three operations it does not know.
\<close>

section \<open>Instruction identifiers\<close>

lemma invalid_in_rec: "INVALID_INSID_IN_REC = 2 ^ 29 - 1"
  by (simp add: INVALID_INSID_IN_REC_def INVALID_INSID_def)

lemma ucast_29: "unat (i :: u32) < 2 ^ 29 \<Longrightarrow> (ucast (ucast i :: 29 word) :: u32) = i"
  by (simp only: word_unat_eq_iff unsigned_ucast_eq) (simp add: unsigned_take_bit_eq take_bit_nat_eq_self)

lemma getInsid_setInsid:
  assumes "insid = INVALID_INSID \<or> unat insid < 2 ^ 29 - 1"
  shows "\<exists>id. setInsid opt insid = Inr id \<and> getInsid id = insid"
proof (cases "insid = INVALID_INSID")
  case True
  then show ?thesis by (simp add: setInsid_def getInsid_def validInsid_def invalid_in_rec)
next
  case False
  then have i: "unat insid < 2 ^ 29 - 1" using assms by simp
  then have "insid \<noteq> INVALID_INSID_IN_REC" by (auto simp: invalid_in_rec)
  then show ?thesis using i False ucast_29 [of insid] by (simp add: setInsid_def getInsid_def validInsid_def)
qed

section \<open>Writing records\<close>

definition room :: "bin_logger \<Rightarrow> nat" where
  "room b = min (unat TRUNK_SIZE) (page_up (bl_size b))"

lemma put_rec_ok:
  assumes "unat (bl_off b) + 32 \<le> room b"
  shows "put_rec r b = Inr (b\<lparr>bl_recs := bl_recs b @ [r], bl_off := bl_off b + 32\<rparr>)"
    and "checkAndGrowLogSize opt b m = m" and "unat (bl_off b + 32) = unat (bl_off b) + 32"
proof -
  show u: "unat (bl_off b + 32) = unat (bl_off b) + 32"
    using assms unat_add_lem [of "bl_off b" 32] by (simp add: room_def TRUNK_SIZE_def)
  show "put_rec r b = Inr (b\<lparr>bl_recs := bl_recs b @ [r], bl_off := bl_off b + 32\<rparr>)"
    using assms by (simp add: put_rec_def room_def RECORD_SIZE_def)
  show "checkAndGrowLogSize opt b m = m"
    using assms u by (simp add: checkAndGrowLogSize_def word_le_nat_alt room_def RECORD_SIZE_def)
qed

text \<open>What a reader finds in a record.\<close>

primrec rec_args :: "log_rec \<Rightarrow> int list" where
  "rec_args (InsidRec i) = []"
| "rec_args (LoadRec i a d) = []"
| "rec_args (StoreRec i a d) = []"
| "rec_args (CallRec i fl sq n fid as) = as"
| "rec_args (ExtraArgsRec i sq n as) = as"
| "rec_args (ReturnRec i fl sq n fid d) = []"
| "rec_args (SyncRec i sy af tn as) = as"

primrec rec_insid :: "log_rec \<Rightarrow> u32" where
  "rec_insid (InsidRec i) = getInsid i"
| "rec_insid (LoadRec i a d) = getInsid i"
| "rec_insid (StoreRec i a d) = getInsid i"
| "rec_insid (CallRec i fl sq n fid as) = getInsid i"
| "rec_insid (ExtraArgsRec i sq n as) = getInsid i"
| "rec_insid (ReturnRec i fl sq n fid d) = getInsid i"
| "rec_insid (SyncRec i sy af tn as) = getInsid i"

definition reads_as :: "u32 \<Rightarrow> log_rec \<Rightarrow> bool" where
  "reads_as insid r \<longleftrightarrow> rec_insid r = insid \<and> numArgsInRec r = int (length (rec_args r))"

lemma to_short_small: "- (2 ^ 15) \<le> x \<Longrightarrow> x < 2 ^ 15 \<Longrightarrow> to_short x = x"
  by (simp add: to_short_def sint_sbintrunc' signed_take_bit_int_eq_self)

lemma num_extra: "0 \<le> narg \<Longrightarrow> narg < 2 ^ 15 \<Longrightarrow> NumExtraArgsRecords narg = narg div 3"
proof -
  assume n: "0 \<le> narg" "narg < 2 ^ 15"
  then have u: "uint (word_of_int narg :: u32) = narg" by (simp add: unsigned_of_int take_bit_int_eq_self)
  have "NumExtraArgsRecords narg = sint ((word_of_int narg :: u32) div 3)"
    by (simp add: NumExtraArgsRecords_def MAX_INLINE_ARGS_def MAX_EXTRA_ARGS_def)
  also have "(word_of_int narg :: u32) div 3 = word_of_int (narg div 3)" unfolding word_div_def u by simp
  also have "sint (word_of_int (narg div 3) :: u32) = narg div 3"
    by (simp only: sint_sbintrunc') (use n in \<open>simp add: signed_take_bit_int_eq_self\<close>)
  finally show ?thesis .
qed

lemma extra_rec_reads:
  assumes "0 \<le> narg" and "narg < 768" and "1 \<le> seq" and "seq \<le> narg div 3" and "getInsid ri = insid"
    and "int (length as) = min narg (2 + 3 * seq) - (2 + 3 * (seq - 1))"
  shows "reads_as insid (ExtraArgsRec ri (word_of_int seq) narg as)"
proof -
  have "seq < 256" using assms(2,4) by simp
  then have "uint (word_of_int seq :: 8 word) = seq" using assms(3) by (simp add: unsigned_of_int take_bit_int_eq_self)
  moreover have "to_short (narg - 2 - (seq - 1) * 3) = narg - 2 - (seq - 1) * 3"
    using assms(1-4) by (intro to_short_small) simp_all
  ultimately show ?thesis
    using assms(5,6) by (simp add: reads_as_def numArgsInRec_def MAX_INLINE_ARGS_def MAX_EXTRA_ARGS_def)
qed

lemma extra_loop_ok:
  assumes id: "setInsid opt insid = Inr ri" "getInsid ri = insid" and n: "0 \<le> narg" "narg < 768"
  shows "1 \<le> seq \<Longrightarrow> seq \<le> narg div 3 + 1 \<Longrightarrow> k = nat (narg div 3 - seq + 1) \<Longrightarrow>
     i = min narg (2 + 3 * (seq - 1)) \<Longrightarrow> int (length vl) = narg - i \<Longrightarrow> unat (bl_off b) + 32 * k \<le> room b \<Longrightarrow>
     \<exists>rs. extra_loop opt insid narg (narg div 3) i seq vl b =
         Inr (b\<lparr>bl_recs := bl_recs b @ rs, bl_off := bl_off b + 32 * of_nat k\<rparr>) \<and>
       length rs = k \<and> concat (map rec_args rs) = vl \<and> list_all (reads_as insid) rs"
proof (induction k arbitrary: seq i vl b)
  case 0
  then have "vl = []" "\<not> seq \<le> narg div 3" by auto
  then show ?case by (simp add: extra_loop.simps)
next
  case (Suc k)
  have seq: "seq \<le> narg div 3" using Suc.prems(3) by simp
  then have sl: "3 * seq \<le> narg" by simp
  define m where "m = nat (min narg (2 + 3 * seq) - i)"
  define r where "r = ExtraArgsRec ri (word_of_int seq) narg (take m vl)"
  define b1 where "b1 = b\<lparr>bl_recs := bl_recs b @ [r], bl_off := bl_off b + 32\<rparr>"
  have i: "i = 2 + 3 * (seq - 1)" using Suc.prems(4) sl by simp
  have m: "int m = min narg (2 + 3 * seq) - i" "m \<le> length vl" using i sl Suc.prems(5) by (auto simp: m_def)
  have rm: "unat (bl_off b) + 32 \<le> room b" using Suc.prems(6) by simp
  note put = put_rec_ok [OF rm]
  have "to_short (2 + 3 * seq) = 2 + 3 * seq" using sl n Suc.prems(1) by (intro to_short_small) simp_all
  then have e: "extra_loop opt insid narg (narg div 3) i seq vl b =
     extra_loop opt insid narg (narg div 3) (i + int m) (seq + 1) (drop m vl) b1"
    using seq id(1) m(2) by (subst extra_loop.simps)
      (simp add: put MAX_INLINE_ARGS_def MAX_EXTRA_ARGS_def m_def [symmetric] r_def [symmetric] b1_def del: int_nat_eq)
  have "unat (bl_off b1) + 32 * k \<le> room b1" using Suc.prems(6) put(3) by (simp add: b1_def room_def)
  moreover have "i + int m = min narg (2 + 3 * (seq + 1 - 1))" "int (length (drop m vl)) = narg - (i + int m)"
     "k = nat (narg div 3 - (seq + 1) + 1)" "seq + 1 \<le> narg div 3 + 1" "1 \<le> seq + 1"
    using m Suc.prems seq by auto
  ultimately obtain rs where rs: "extra_loop opt insid narg (narg div 3) (i + int m) (seq + 1) (drop m vl) b1 =
       Inr (b1\<lparr>bl_recs := bl_recs b1 @ rs, bl_off := bl_off b1 + 32 * of_nat k\<rparr>)" "length rs = k"
     "concat (map rec_args rs) = drop m vl" "list_all (reads_as insid) rs"
    using Suc.IH [of "seq + 1" "i + int m" "drop m vl" b1] by blast
  have "reads_as insid r" unfolding r_def
    by (rule extra_rec_reads [OF n Suc.prems(1) seq id(2)]) (use m i in simp)
  then show ?case using e rs by (intro exI [of _ "r # rs"]) (simp add: b1_def r_def algebra_simps)
qed

lemma log_call_ok:
  assumes i: "insid = INVALID_INSID \<or> unat insid < 2 ^ 29 - 1" and n: "narg < 768" "narg = int (length vl)"
    and f: "funcs b func = Some fid" and rm: "unat (bl_off b) + 32 * (1 + nat (narg div 3)) \<le> room b"
  shows "\<exists>ri rs. bin_logCall opt noret flags insid narg func vl b =
       Inr (b\<lparr>bl_recs := bl_recs b @ CallRec ri (call_flags noret func flags) 0 narg fid (take 2 vl) # rs,
              bl_off := bl_off b + 32 * (1 + of_nat (length rs))\<rparr>) \<and>
     length rs = nat (narg div 3) \<and> take 2 vl @ concat (map rec_args rs) = vl \<and>
     list_all (reads_as insid) (CallRec ri (call_flags noret func flags) 0 narg fid (take 2 vl) # rs)"
proof -
  obtain ri where ri: "setInsid opt insid = Inr ri" "getInsid ri = insid" using getInsid_setInsid [OF i] by blast
  have n': "0 \<le> narg" using n by simp
  define m where "m = nat (min narg 2)"
  define r where "r = CallRec ri (call_flags noret func flags) 0 narg fid (take m vl)"
  define b1 where "b1 = b\<lparr>bl_recs := bl_recs b @ [r], bl_off := bl_off b + 32\<rparr>"
  have m: "int m = min narg 2" "m \<le> length vl" "take m vl = take 2 vl" "drop m vl = drop 2 vl"
    using n(2) by (auto simp: m_def min_def)
  have rm1: "unat (bl_off b) + 32 \<le> room b" using rm by simp
  note put = put_rec_ok [OF rm1]
  have p: "1 \<le> narg div 3 + 1" "nat (narg div 3) = nat (narg div 3 - 1 + 1)" "int m = min narg (2 + 3 * (1 - 1))"
     "int (length (drop m vl)) = narg - int m" "unat (bl_off b1) + 32 * nat (narg div 3) \<le> room b1"
    using rm put(3) n(2) m(1,2) by (simp_all add: b1_def room_def)
  obtain rs where rs: "extra_loop opt insid narg (narg div 3) (int m) 1 (drop m vl) b1 =
       Inr (b1\<lparr>bl_recs := bl_recs b1 @ rs, bl_off := bl_off b1 + 32 * of_nat (nat (narg div 3))\<rparr>)"
     "length rs = nat (narg div 3)" "concat (map rec_args rs) = drop m vl" "list_all (reads_as insid) rs"
    using extra_loop_ok [OF ri n' n(1) order_refl p] by blast
  have ne: "to_short (NumExtraArgsRecords narg) = narg div 3"
    using num_extra [OF n'] n(1) n' by (simp add: to_short_small)
  have "bin_logCall opt noret flags insid narg func vl b =
     extra_loop opt insid narg (narg div 3) (int m) 1 (drop m vl) b1"
    unfolding bin_logCall_def Let_def ne using f ri(1) m(2)
    by (simp add: funcHasID_def func_id_def put MAX_INLINE_ARGS_def m_def [symmetric] r_def [symmetric] b1_def del: int_nat_eq)
  moreover have "reads_as insid r"
    using ri(2) n(2) by (simp add: r_def reads_as_def numArgsInRec_def MAX_INLINE_ARGS_def m_def min_def)
  ultimately show ?thesis
    using rs m(3,4) by (intro exI [of _ ri] exI [of _ rs]) (simp add: b1_def r_def algebra_simps)
qed

section \<open>Text\<close>

text \<open>
  The operations the text logger does not know, and what it can print otherwise: at least as many
  arguments as it reads are passed.
\<close>

definition unknown_ops :: "syncfunc set" where
  "unknown_ops = {''pthread_rwlock_init'', ''pthread_rwlock_destroy'', ''tern_symbolic''}"

definition printable :: "syncfunc \<Rightarrow> nat \<Rightarrow> bool" where
  "printable f n \<longleftrightarrow> f \<in> set (map fst sync_table) \<and>
     (if thread_mark f then 1 \<le> n else case txt_args f of None \<Rightarrow> False | Some m \<Rightarrow> m \<le> n)"

definition unprintable :: "rt \<Rightarrow> log_entry list" where
  "unprintable r = filter (\<lambda>e. \<not> (l_op e \<in> unknown_ops \<or> printable (l_op e) (length (l_args e)))) (slog r)"

lemma logged_printable:
  "list_all (\<lambda>(f, n). f \<in> unknown_ops \<or> printable f n) logged_ops"
  by code_simp

interpretation print_view: segment_view opt u unprintable "\<lambda>f n. f \<in> unknown_ops \<or> printable f n" for opt u
proof (unfold_locales, goal_cases)
  case (2 f r)
  then show ?case by (simp add: unprintable_def upd_tls_def)
next
  case (4)
  then show ?case by (rule logged_printable)
qed (auto simp: unprintable_def logSync_def)

lemma sleep_printable: "f \<in> {''sleep'', ''usleep'', ''nanosleep''} \<Longrightarrow> printable f 1"
proof -
  have "list_all (\<lambda>f. printable f 1) [''sleep'', ''usleep'', ''nanosleep'']" by code_simp
  then show "f \<in> {''sleep'', ''usleep'', ''nanosleep''} \<Longrightarrow> printable f 1" by auto
qed

lemma rt_step_print: "rt_step opt u r r' \<Longrightarrow> unprintable r' = unprintable r"
proof (induction rule: rt_step.induct)
  case (sleep f ins err rel nsec r sout r')
  then show ?case using print_view.view_sleep(1) sleep_printable by blast
next
  case (sleep_woken f ins err nsec r sout r')
  then show ?case using print_view.view_sleep(2) sleep_printable by blast
qed (erule print_view.view_lock print_view.view_cond print_view.view_bar print_view.view_thread
  print_view.view_sleep(3) print_view.view_io_start print_view.view_io_turn print_view.view_io_end)+

lemma known_name: "f \<in> set (map fst sync_table) \<Longrightarrow> getName (getNameID f) = Inr f \<and> valid_sync (getNameID f)"
  using getNameID_iff [of f "getNameID f"] by_name.search_none [of f]
  by (auto simp: getNameID_def getName_def res_simps)

lemma va_args_ok: "n \<le> length args \<Longrightarrow> \<exists>a. va_args n args = Inr a"
  by (simp add: va_args_def)

lemma printable_prints:
  assumes "printable f (length args)"
  shows "\<exists>line. txt_logSync opt wt insid (getNameID f) turn t1 t2 t3 after args l = Inr (emit line l) \<and> suffix endl line"
proof -
  have f: "getName (getNameID f) = Inr f" "valid_sync (getNameID f)"
    using known_name assms unfolding printable_def by blast+
  show ?thesis
  proof (cases "thread_mark f")
    case True
    then obtain a where "va_args 1 args = Inr a" using assms va_args_ok [of 1 args] by (auto simp: printable_def)
    then show ?thesis using True f by (auto simp: txt_logSync_def Let_def intro!: suffix_appendI suffix_ConsI)
  next
    case False
    then obtain n where n: "txt_args f = Some n" "n \<le> length args" using assms by (auto simp: printable_def split: option.splits)
    then obtain a where "va_args n args = Inr a" using va_args_ok by blast
    then show ?thesis using False f n by (auto simp: txt_logSync_def log_args_def Let_def intro!: suffix_appendI suffix_ConsI)
  qed
qed

lemma unknown_fails:
  assumes "f \<in> unknown_ops" and "\<not> ndebug opt"
  shows "txt_logSync opt wt insid (getNameID f) turn t1 t2 t3 after args l = Inl AssertFailed"
proof -
  have "list_all (\<lambda>f. f \<in> set (map fst sync_table) \<and> \<not> thread_mark f \<and> txt_args f = None)
     [''pthread_rwlock_init'', ''pthread_rwlock_destroy'', ''tern_symbolic'']" by code_simp
  then have f: "f \<in> set (map fst sync_table)" "\<not> thread_mark f" "txt_args f = None"
    using assms(1) by (auto simp: unknown_ops_def simp del: set_map)
  then show ?thesis using known_name [OF f(1)] assms(2)
    by (simp add: txt_logSync_def log_args_def Let_def assert_then_def check_def)
qed

text \<open>An operation that ends leaves its entry in the log.\<close>

lemma slog_check_cv: "check_cv_wait_cnt opt u r = Inr r' \<Longrightarrow> slog r' = slog r"
  by (auto simp: check_cv_wait_cnt_def upd_tls_def res_simps split: if_splits)

lemma slog_strategy [simp]: "slog (snd (getPutTurnStrategy opt u op r)) = slog r"
  by (auto simp: getPutTurnStrategy_def upd_tls_def Let_def)

lemma sched_end_logs:
  assumes "sched_end opt u ins op args ret err r = Inr (out, r')" and "log_sync opt"
  shows "\<exists>e \<in> set (slog r'). l_op e = op"
proof -
  obtain r1 where r1: "end_common opt u ins op args r = Inr r1" "slog r' = slog r1"
    using assms(1) by (auto simp: sched_end_def on_sched_def upd_tls_def Let_def case_prod_beta res_simps
      split: if_splits dest!: slog_check_cv)
  then show ?thesis using assms(2) by (auto simp: end_common_def logSync_def Let_def res_simps)
qed

end
