(* ===== verification/LogProperties.thy ===== *)
theory LogProperties
  imports Scenario LogProofs
begin

text \<open>Properties of the logs the runtime writes.\<close>

text \<open>
  C28. The text log. Whatever entry a step of the runtime adds to the log, the text logger writes a
  line for it, which ends the line, whether assertions are on or off; it never reads more arguments
  than the runtime passes. The exceptions are the initialization and destruction of a read-write
  lock and \<open>tern_symbolic\<close>, which the runtime logs but the logger does not know: there the program
  stops at an assertion.
\<close>

theorem text_log_prints:
  assumes "rt_step opt u r r'" and "e \<in> set (slog r')" and "e \<notin> set (slog r)"
  shows "if l_op e \<in> unknown_ops
     then \<not> ndebug opt' \<longrightarrow> txt_logSync opt' wt (l_ins e) (getNameID (l_op e)) (l_turn e) t1 t2 t3 (l_after e) (l_args e) l =
       Inl AssertFailed
     else \<exists>line. txt_logSync opt' wt (l_ins e) (getNameID (l_op e)) (l_turn e) t1 t2 t3 (l_after e) (l_args e) l =
       Inr (emit line l) \<and> suffix endl line"
proof (cases "l_op e \<in> unknown_ops")
  case True
  then show ?thesis using unknown_fails by simp
next
  case False
  have "e \<notin> set (unprintable r')" using rt_step_print [OF assms(1)] assms(3) by (simp add: unprintable_def)
  then have "printable (l_op e) (length (l_args e))" using assms(2) False by (simp add: unprintable_def)
  then show ?thesis using printable_prints False by simp
qed

theorem text_log_prints_witness:
  "\<exists>r r' e line. rt_step (default_options\<lparr>log_sync := True\<rparr>) MainThreadTid r r' \<and> e \<in> set (slog r') \<and>
     l_op e = ''tern_dummy_sync'' \<and>
     txt_logSync default_options 0 (l_ins e) (getNameID (l_op e)) (l_turn e) no_time no_time no_time (l_after e) (l_args e)
       \<lparr>tl_tid = 0, iter_num = - 1, tl_ouf = [], tl_good = True\<rparr> =
     Inr (emit line \<lparr>tl_tid = 0, iter_num = - 1, tl_ouf = [], tl_good = True\<rparr>)"
proof -
  let ?opt = "default_options\<lparr>log_sync := True\<rparr>"
  have b: "basic ?opt" "\<not> wakeamap_plus ?opt" "log_sync ?opt"
    using basic_default by (simp_all add: basic_def plain_def policy_def order_ok_def)
  obtain s where s: "holding ?opt MainThreadTid s" using some_scene_two [OF b(1)] by blast
  let ?r = "rt_new s"
  obtain x where x: "sched_start ?opt MainThreadTid ?r = Inr (?r\<lparr>stat := x\<rparr>)" using sched_start_ok [OF rt_new_simps(6)] by blast
  obtain r' where r': "sched_end ?opt MainThreadTid 0 ''tern_dummy_sync'' [0] 0 0 (?r\<lparr>stat := x\<rparr>) = (Inr (Done 0 0, r') :: thread_out)"
    using sched_end_ok [OF b(1,2), of MainThreadTid "?r\<lparr>stat := x\<rparr>" 0 "''tern_dummy_sync''" "[0]" 0 0] s by auto
  obtain e where e: "e \<in> set (slog r')" "l_op e = ''tern_dummy_sync''" using sched_end_logs [OF r' b(3)] by blast
  have st: "rt_step ?opt MainThreadTid ?r r'"
    by (rule rt_step.thread [of _ _ "(0, 0)" PDummySync]) (simp add: resume_thread_def dummy_sync_turn_def x r')
  have "e \<notin> set (slog ?r)" by (simp add: rt_new_def)
  moreover have "l_op e \<notin> unknown_ops" using e(2) by (simp add: unknown_ops_def)
  ultimately obtain line where "txt_logSync default_options 0 (l_ins e) (getNameID (l_op e)) (l_turn e) no_time no_time no_time
       (l_after e) (l_args e) \<lparr>tl_tid = 0, iter_num = - 1, tl_ouf = [], tl_good = True\<rparr> =
     Inr (emit line \<lparr>tl_tid = 0, iter_num = - 1, tl_ouf = [], tl_good = True\<rparr>)"
    using text_log_prints [OF st e(1), of default_options 0 no_time no_time no_time
      "\<lparr>tl_tid = 0, iter_num = - 1, tl_ouf = [], tl_good = True\<rparr>"] by auto
  then show ?thesis using e st by blast
qed

text \<open>
  C40. The binary log of a call. A call with at most 767 arguments, of an instruction whose
  identifier fits into 29 bits, is written as one record and one more for every three arguments after
  the second, in 32 bytes each; the records read back as the identifier, and as the arguments in
  their order, each record holding as many as it says.
\<close>

theorem call_log_round_trip:
  assumes "insid = INVALID_INSID \<or> unat insid < 2 ^ 29 - 1" and "length args < 768" and "funcs b func = Some fid"
    and "unat (bl_off b) + 32 * (1 + length args div 3) \<le> min (unat TRUNK_SIZE) (page_up (bl_size b))"
  shows "\<exists>rs. bin_logCall opt noret flags insid (int (length args)) func args b =
       Inr (b\<lparr>bl_recs := bl_recs b @ rs, bl_off := bl_off b + 32 * of_nat (length rs)\<rparr>) \<and>
     length rs = 1 + length args div 3 \<and> concat (map rec_args rs) = args \<and>
     list_all (\<lambda>r. rec_insid r = insid \<and> numArgsInRec r = int (length (rec_args r))) rs"
proof -
  have n: "nat (int (length args) div 3) = length args div 3" by (simp add: nat_div_distrib)
  have rm: "unat (bl_off b) + 32 * (1 + nat (int (length args) div 3)) \<le> room b"
    using assms(4) by (simp add: n room_def)
  obtain ri rs where "bin_logCall opt noret flags insid (int (length args)) func args b =
       Inr (b\<lparr>bl_recs := bl_recs b @ CallRec ri (call_flags noret func flags) 0 (int (length args)) fid (take 2 args) # rs,
              bl_off := bl_off b + 32 * (1 + of_nat (length rs))\<rparr>)" "length rs = length args div 3"
     "take 2 args @ concat (map rec_args rs) = args"
     "list_all (reads_as insid) (CallRec ri (call_flags noret func flags) 0 (int (length args)) fid (take 2 args) # rs)"
    using log_call_ok [OF assms(1) _ refl assms(3) rm, of opt noret flags] assms(2) n by auto
  then show ?thesis
    by (intro exI [of _ "CallRec ri (call_flags noret func flags) 0 (int (length args)) fid (take 2 args) # rs"])
      (simp add: reads_as_def list_all_iff)
qed

theorem call_log_round_trip_witness:
  "\<exists>b' rs. bin_logCall (default_options\<lparr>ndebug := False\<rparr>) {} 0 7 6 99 [10, 20, 30, 40, 50, 60]
       \<lparr>bl_recs = [], bl_off = 0, bl_foff = 0, bl_size = 4096, funcs = [99 \<mapsto> 5]\<rparr> = Inr b' \<and>
     bl_recs b' = rs \<and> length rs = 3 \<and> bl_off b' = 96 \<and> concat (map rec_args rs) = [10, 20, 30, 40, 50, 60]"
  using call_log_round_trip [of 7 "[10, 20, 30, 40, 50, 60]" "\<lparr>bl_recs = [], bl_off = 0, bl_foff = 0, bl_size = 4096, funcs = [99 \<mapsto> 5]\<rparr>"
      99 5 "default_options\<lparr>ndebug := False\<rparr>" "{}" 0]
  by (auto simp: TRUNK_SIZE_def page_up_def)

end
