(* ===== verification/Helper.thy ===== *)
theory Helper
  imports Hooks
begin

text \<open>
  Start and end of the process, of a thread and of the idle thread: \<open>lib/runtime/helper.cpp\<close>. These
  functions are sequences of calls of hooks; each is modelled as the list of what it does, and the
  lemmas follow the space of the thread through it. Every
  assertion about spaces holds.
\<close>

section \<open>Scripts\<close>

text \<open>
  A call of the hook of a function with its instruction identifier, a call of the C library, the
  two crossings, and an assertion about the space (\<open>True\<close> is the application's).
\<close>

datatype action =
    CallHook syncfunc u32 "int list"
  | CallPosix syncfunc "int list"
  | ExitSys
  | EnterSys
  | AssertSpace bool

record helper =
  idle_done :: bool
  h_idle_created :: bool
  prog_began :: bool
  main_thread_th :: pthread

text \<open>\<open>idle_th\<close> is where the handle is stored, \<open>idle_mutex\<close> and \<open>idle_cv\<close> are the addresses of the objects.\<close>

record idle_objects =
  o_idle_th :: pthread
  o_idle_mutex :: vptr
  o_idle_cond :: vptr
  o_idle_thread :: func

definition IDLE_MUTEX_INS :: u32 where
  "IDLE_MUTEX_INS = 0xdeadbeaf"

definition h_thread_begin :: action where
  "h_thread_begin = CallHook ''tern_thread_begin'' 0 []"

text \<open>\<open>__tern_thread_func\<close>: the program's function \<open>body\<close> runs between the two.\<close>

definition tern_thread_func :: "action list \<Rightarrow> action list" where
  "tern_thread_func body = h_thread_begin # body @ [CallHook ''pthread_exit'' (- 1) []]"

definition create_idle_thread :: "idle_objects \<Rightarrow> helper \<Rightarrow> action list \<times> helper" where
  "create_idle_thread ob h =
     ([CallHook ''pthread_mutex_init'' IDLE_MUTEX_INS [int (o_idle_mutex ob)],
       CallHook ''pthread_create'' IDLE_INS [int (o_idle_th ob), int (o_idle_thread ob)]],
      h\<lparr>h_idle_created := True\<rparr>)"

definition sys_create_idle_thread :: "idle_objects \<Rightarrow> helper \<Rightarrow> action list \<times> helper" where
  "sys_create_idle_thread ob h =
     ([ExitSys, CallPosix ''pthread_cond_init'' [int (o_idle_cond ob)], CallPosix ''pthread_mutex_init'' [int (o_idle_mutex ob)],
       CallHook ''pthread_create'' IDLE_INS [int (o_idle_th ob), int (o_idle_thread ob)], EnterSys],
      h\<lparr>h_idle_created := True\<rparr>)"

text \<open>One round of the loop of \<open>idle_thread\<close>, and whether there is another; \<open>d\<close> is what it reads from \<open>idle_done\<close>.\<close>

definition idle_round :: "idle_objects \<Rightarrow> bool \<Rightarrow> action list \<times> bool" where
  "idle_round ob d =
     (let mu = [int (o_idle_mutex ob)]; lock = CallHook ''pthread_mutex_lock'' IDLE_MUTEX_INS mu;
          unlock = CallHook ''pthread_mutex_unlock'' IDLE_MUTEX_INS mu in
      if \<not> d then ([lock, CallHook ''tern_idle_cond_wait'' 0 [], unlock, CallHook ''tern_idle_sleep'' 0 []], True)
      else ([lock, unlock], False))"

fun idle_rounds :: "idle_objects \<Rightarrow> bool list \<Rightarrow> action list" where
  "idle_rounds ob [] = []"
| "idle_rounds ob (d # ds) = (case idle_round ob d of (as, again) \<Rightarrow> if again then as @ idle_rounds ob ds else as)"

text \<open>Reading the options and installing the runtime do not involve spaces or turns and are left out.\<close>

definition prog_begin :: "options \<Rightarrow> pthread \<Rightarrow> idle_objects \<Rightarrow> helper \<Rightarrow> (action list \<times> helper) res" where
  "prog_begin opt self_th ob h = assert_then opt (\<not> prog_began h)
     (let h = h\<lparr>prog_began := True, main_thread_th := self_th\<rparr>;
          (idle, h) = (if launch_idle_thread opt = 1 \<or> launch_idle_thread opt \<noteq> 0 \<and> \<not> non_det_for_single_thread opt
                       then create_idle_thread ob h else ([], h)) in
      Inr ([AssertSpace False, CallHook ''tern_prog_begin'' 0 [], AssertSpace False, h_thread_begin, AssertSpace True] @
           idle @ [AssertSpace True], h))"

definition prog_end :: "options \<Rightarrow> pthread \<Rightarrow> idle_objects \<Rightarrow> helper \<Rightarrow> (action list \<times> helper) res" where
  "prog_end opt self_th ob h = assert_then opt (prog_began h)
     (let h = h\<lparr>prog_began := False, idle_done := True\<rparr>; mu = [int (o_idle_mutex ob)]; cv = [int (o_idle_cond ob)];
          joins = launch_idle_thread opt \<noteq> 0 \<and> h_idle_created h in
      assert_then opt (joins \<longrightarrow> self_th \<noteq> o_idle_th ob)
        (Inr ([AssertSpace True, CallHook ''tern_print_runtime_stat'' 0 [],
           CallHook ''pthread_mutex_lock'' IDLE_MUTEX_INS mu, CallHook ''pthread_mutex_unlock'' IDLE_MUTEX_INS mu,
           CallHook ''pthread_cond_signal'' IDLE_MUTEX_INS cv,
           EnterSys, CallPosix ''pthread_mutex_lock'' mu, CallPosix ''pthread_cond_signal'' cv,
           CallPosix ''pthread_mutex_unlock'' mu, ExitSys] @
          (if joins then [CallHook ''pthread_join'' 0xdeadffff [int (o_idle_th ob)]] else []) @
          [CallHook ''tern_thread_end'' (- 1) [], AssertSpace False, CallHook ''tern_prog_end'' 0 [], AssertSpace False], h)))"

text \<open>\<open>__tern_symbolic\<close> and \<open>__tern_symbolic_argv\<close>: \<open>argv\<close> as addresses and lengths.\<close>

definition tern_symbolic :: "u32 \<Rightarrow> int \<Rightarrow> int \<Rightarrow> action list" where
  "tern_symbolic insid address nbytes =
     (if nbytes \<le> 0 \<or> address = 0 then [] else [CallHook ''tern_symbolic'' insid [address, nbytes]])"

definition tern_symbolic_argv :: "u32 \<Rightarrow> (int \<times> int) list \<Rightarrow> action list" where
  "tern_symbolic_argv insid argv = map (\<lambda>(a, len). CallHook ''tern_symbolic'' insid [a, len + 1]) argv"

section \<open>Spaces\<close>

text \<open>
  The space of the thread after an action: \<open>thread_begin\<close> starts in the system space and ends in the application's,
  \<open>thread_end\<close> and \<open>pthread_exit\<close> the other way round, the hooks of the program's start and end stay in the
  system space, \<open>tern_symbolic\<close> does not cross, and all others start and end in the application.
\<close>

definition hook_space :: "options \<Rightarrow> syncfunc \<Rightarrow> bool \<Rightarrow> bool res" where
  "hook_space opt f app =
     (if f = ''tern_thread_begin'' then assert_then opt (\<not> app) (Inr (\<not> app))
      else if f = ''tern_thread_end'' \<or> f = ''pthread_exit'' then assert_then opt app (Inr (\<not> app))
      else if f = ''tern_prog_begin'' \<or> f = ''tern_prog_end'' then assert_then opt (\<not> app) (Inr app)
      else if f = ''tern_symbolic'' then Inr app
      else assert_then opt app (Inr app))"

definition act :: "options \<Rightarrow> action \<Rightarrow> bool \<Rightarrow> bool res" where
  "act opt a app = (case a of
     CallHook f _ _ \<Rightarrow> hook_space opt f app
   | CallPosix _ _ \<Rightarrow> Inr app
   | ExitSys \<Rightarrow> assert_then opt (\<not> app) (Inr (\<not> app))
   | EnterSys \<Rightarrow> assert_then opt app (Inr (\<not> app))
   | AssertSpace b \<Rightarrow> assert_then opt (app = b) (Inr app))"

definition spaces :: "options \<Rightarrow> action list \<Rightarrow> bool \<Rightarrow> bool res" where
  "spaces opt = res_fold (act opt)"

text \<open>The actions follow the crossings of the hooks: the space after a crossing is what \<open>act\<close> computes from the space before.\<close>

definition space_of :: "tid \<Rightarrow> rt res \<Rightarrow> bool res" where
  "space_of u m = res_bind m (\<lambda>r. Inr (app_space (tls_of r u)))"

lemma act_refines:
  "space_of u (exitSys opt u r) = act opt ExitSys (app_space (tls_of r u))"
  "space_of u (enterSys opt u r) = act opt EnterSys (app_space (tls_of r u))"
  "space_of u (tern_prog_begin opt u r) = act opt (CallHook ''tern_prog_begin'' ins args) (app_space (tls_of r u))"
  "space_of u (tern_prog_end opt u r) = act opt (CallHook ''tern_prog_end'' ins args) (app_space (tls_of r u))"
  by (simp_all add: space_of_def exitSys_def enterSys_def tern_prog_begin_def tern_prog_end_def act_def hook_space_def
    isApp_def isSys_def cross_def upd_tls_def assert_then_def check_def)

lemma spaces_append: "spaces opt (as @ bs) app = res_bind (spaces opt as app) (spaces opt bs)"
  by (simp add: spaces_def res_fold_append)

lemmas act_defs = spaces_def act_def hook_space_def h_thread_begin_def

text \<open>The process starts in the system space and leaves the start in the application's, every assertion holding.\<close>

lemma prog_begin_spaces:
  assumes "\<not> prog_began h"
  shows "\<exists>as h'. prog_begin opt th ob h = Inr (as, h') \<and> prog_began h' \<and> spaces opt as False = Inr True"
  using assms by (simp add: prog_begin_def create_idle_thread_def Let_def act_defs)

text \<open>It ends the other way round, provided the thread that ends it is not the idle thread.\<close>

lemma prog_end_spaces:
  assumes "prog_began h" and "th \<noteq> o_idle_th ob"
  shows "\<exists>as h'. prog_end opt th ob h = Inr (as, h') \<and> \<not> prog_began h' \<and> idle_done h' \<and> spaces opt as True = Inr False"
  using assms by (simp add: prog_end_def Let_def act_defs)

text \<open>A thread is in the application space while its function runs, and in the system space at its end.\<close>

lemma thread_func_spaces:
  assumes "spaces opt body True = Inr True"
  shows "spaces opt (tern_thread_func body) False = Inr False"
proof -
  have "spaces opt (h_thread_begin # xs) False = spaces opt xs True" for xs by (simp add: act_defs)
  moreover have "spaces opt [CallHook ''pthread_exit'' (- 1) []] True = Inr False" by (simp add: act_defs)
  ultimately show ?thesis using assms by (simp add: tern_thread_func_def spaces_append)
qed

lemma idle_rounds_spaces: "spaces opt (idle_rounds ob ds) True = Inr True"
  by (induction ds) (simp_all add: idle_round_def spaces_append act_defs Let_def)

text \<open>Creating the idle thread out of a hook leaves the spaces as they were: \<open>create_idle\<close> has no crossing.\<close>

lemma sys_create_idle_spaces: "spaces opt (fst (sys_create_idle_thread ob h)) False = Inr False"
  by (simp add: sys_create_idle_thread_def act_defs)

text \<open>The idle thread stops in the round in which it finds \<open>idle_done\<close> set, and not before.\<close>

lemma idle_rounds_stop:
  assumes "True \<notin> set ds"
  shows "idle_rounds ob (ds @ True # rest) = idle_rounds ob ds @ fst (idle_round ob True)"
  using assms by (induction ds) (auto simp: idle_round_def Let_def)

end
