(* ===== verification/Setup.thy ===== *)
theory Setup
  imports RecordLog BaseRuntime TimeProofs "HOL-Library.AList"
begin

text \<open>
  Setting up and reporting: the free functions of \<open>lib/runtime/record-runtime.cpp\<close> that install the
  runtime (\<open>check_options\<close>, \<open>read_delay_file\<close>, \<open>InstallRuntime\<close>), measure a thread's time
  (\<open>update_time\<close>) and print the statistics at the end (\<open>printPerSyncStats\<close>, \<open>progEnd\<close>). The
  file of delays is its text; what uninitialized variables hold, the clock and the iteration
  order of the hash maps are arguments.

  The lemmas show that a file of delays is read back as the table it was written from, that
  reading does not end when the file contains something that is not a number, and that the
  totals printed at the end are the sums of the counts.
\<close>

section \<open>Time\<close>

definition update_time :: "options \<Rightarrow> timespec \<Rightarrow> timespec \<Rightarrow> timespec \<Rightarrow> timespec \<times> timespec" where
  "update_time opt now junk my_time =
     (if log_sync opt \<or> enforce_delays opt then (time_diff my_time now, now) else (junk, my_time))"

section \<open>Reading numbers\<close>

text \<open>\<open>isspace\<close>, and the conversions \<open>%d\<close> and \<open>%u\<close> of \<open>fscanf\<close>: a sign that no digit follows is consumed.\<close>

definition is_space :: "char \<Rightarrow> bool" where
  "is_space c \<longleftrightarrow> c \<in> {CHR '' '', CHR 0x09, CHR 0x0A, CHR 0x0B, CHR 0x0C, CHR 0x0D}"

definition is_digit :: "char \<Rightarrow> bool" where
  "is_digit c \<longleftrightarrow> 48 \<le> (of_char c :: nat) \<and> (of_char c :: nat) \<le> 57"

definition skip_ws :: "string \<Rightarrow> string" where
  "skip_ws = dropWhile is_space"

definition num_value :: "string \<Rightarrow> int" where
  "num_value ds = foldl (\<lambda>n c. 10 * n + (of_char c - 48)) 0 ds"

definition scan_digits :: "string \<Rightarrow> int option \<times> string" where
  "scan_digits s = (let ds = takeWhile is_digit s in
     (if ds = [] then None else Some (num_value ds), dropWhile is_digit s))"

definition scan_num :: "string \<Rightarrow> int option \<times> string" where
  "scan_num s = (case s of
     [] \<Rightarrow> (None, [])
   | c # s' \<Rightarrow> if c = CHR ''-'' then (case scan_digits s' of (v, rest) \<Rightarrow> (map_option uminus v, rest))
              else if c = CHR ''+'' then scan_digits s' else scan_digits s)"

text \<open>The values are read as \<open>long\<close> and \<open>unsigned long\<close>, which saturate, and cut to 32 bits.\<close>

definition conv_d :: "int \<Rightarrow> int" where
  "conv_d v = to_int32 (max (- (2 ^ 63)) (min (2 ^ 63 - 1) v))"

definition conv_u :: "int \<Rightarrow> u32" where
  "conv_u v = (if \<bar>v\<bar> < 2 ^ 64 then word_of_int v else - 1)"

text \<open>\<open>fscanf(fptr, "%d %u\n", &task_id, &max_time, &count)\<close>: the result (\<open>None\<close> is \<open>EOF\<close>), the variables, the rest of the file.\<close>

definition scan_delay :: "int \<Rightarrow> u32 \<Rightarrow> string \<Rightarrow> nat option \<times> int \<times> u32 \<times> string" where
  "scan_delay task_id max_time s = (case skip_ws s of
     [] \<Rightarrow> (None, task_id, max_time, [])
   | s1 \<Rightarrow> (case scan_num s1 of
       (None, s2) \<Rightarrow> (Some 0, task_id, max_time, s2)
     | (Some v, s2) \<Rightarrow> (case scan_num (skip_ws s2) of
         (None, s3) \<Rightarrow> (Some 1, conv_d v, max_time, s3)
       | (Some n, s3) \<Rightarrow> (Some 2, conv_d v, conv_u n, skip_ws s3))))"

section \<open>Installing the runtime\<close>

definition check_options :: "options \<Rightarrow> string list" where
  "check_options opt =
     (if \<not> DMT opt then [''WARNING: DMT mode is off. The system won't enter scheduler in LD_PRELOAD mode!!'' @ endl] else []) @
     (if \<not> RR_ignore_rw_regular_file opt
      then [''WARNING: RR_ignore_rw_regular_file is off, and so we can have non-determinism on regular file I/O!!'' @ endl] else [])"

type_synonym delay_table = "(int \<times> u32) list"

text \<open>The loop of \<open>read_delay_file\<close>, whatever \<open>fscanf\<close> could read; it ends at \<open>EOF\<close> only. The number bounds its rounds.\<close>

primrec read_loop :: "nat \<Rightarrow> int \<Rightarrow> u32 \<Rightarrow> delay_table \<Rightarrow> string \<Rightarrow> delay_table res" where
  "read_loop 0 task_id max_time tab s = Inl LoopBound"
| "read_loop (Suc n) task_id max_time tab s = (case scan_delay task_id max_time s of
     (None, _) \<Rightarrow> Inr tab
   | (Some _, task_id, max_time, rest) \<Rightarrow> read_loop n task_id max_time (AList.update task_id max_time tab) rest)"

text \<open>The text of the file (\<open>None\<close>: it does not open) and what \<open>task_id\<close> and \<open>max_time\<close> hold at first.\<close>

definition read_delay_file :: "nat \<Rightarrow> int \<Rightarrow> u32 \<Rightarrow> string option \<Rightarrow> (int \<times> delay_table) res" where
  "read_delay_file fuel task_id max_time file = (case file of
     None \<Rightarrow> Inr (0, [])
   | Some s \<Rightarrow> res_bind (read_loop fuel task_id max_time [] s) (\<lambda>tab. Inr (int (length tab), tab)))"

definition InstallRuntime ::
  "nat \<Rightarrow> int \<Rightarrow> u32 \<Rightarrow> string option \<Rightarrow> options \<Rightarrow> (int \<Rightarrow> u32 option) \<Rightarrow> (options \<times> (int \<Rightarrow> u32 option) \<times> string list) res" where
  "InstallRuntime fuel task_id max_time file opt table =
     (if enforce_delays opt
      then res_bind (read_delay_file fuel task_id max_time file) (\<lambda>(n, tab).
           Inr (if n = 0 then opt\<lparr>enforce_delays := False\<rparr> else opt, map_of tab, check_options opt))
      else Inr (opt, table, check_options opt))"

section \<open>Statistics\<close>

text \<open>
  The counts, in the order in which the hash maps are iterated. The loops print a line per thread
  and function, add up the counts of the thread, of the function and of the program.
\<close>

type_synonym sync_counts = "(syncfunc \<times> int) list"

definition add_count :: "syncfunc \<Rightarrow> int \<Rightarrow> sync_counts \<Rightarrow> sync_counts" where
  "add_count f n tot = AList.update f ((case map_of tot f of None \<Rightarrow> 0 | Some k \<Rightarrow> k) + n) tot"

fun thread_rows :: "tid \<Rightarrow> sync_counts \<Rightarrow> int \<Rightarrow> sync_counts \<Rightarrow> string \<Rightarrow> int \<times> sync_counts \<times> string" where
  "thread_rows t [] n tot out = (n, tot, out)"
| "thread_rows t ((f, k) # rows) n tot out =
     thread_rows t rows (n + k) (add_count f k tot)
       (out @ ''>> Thread '' @ dec (int t) @ [CHR 0x09, CHR 0x09] @ f @ '': '' @ [CHR 0x09] @ dec k @ endl)"

fun all_rows :: "(tid \<times> sync_counts) list \<Rightarrow> int \<Rightarrow> sync_counts \<Rightarrow> string \<Rightarrow> int \<times> sync_counts \<times> string" where
  "all_rows [] sum_all tot out = (sum_all, tot, out)"
| "all_rows ((t, rows) # rest) sum_all tot out =
     (case thread_rows t rows 0 tot out of (n, tot, out) \<Rightarrow>
        all_rows rest (sum_all + n) tot
          (out @ ''>> ======'' @ endl @ ''>> Thread '' @ dec (int t) @ [CHR 0x09, CHR 0x09] @ ''total syncs: '' @ [CHR 0x09] @ dec n @ endl @ endl))"

definition total_rows :: "sync_counts \<Rightarrow> string" where
  "total_rows tot = concat (map (\<lambda>(f, k). ''>> Total'' @ [CHR 0x09, CHR 0x09] @ f @ '': '' @ [CHR 0x09] @ dec k @ endl) tot)"

text \<open>\<open>order\<close> is the order in which the map of the totals is iterated.\<close>

definition printPerSyncStats :: "(sync_counts \<Rightarrow> sync_counts) \<Rightarrow> (tid \<times> sync_counts) list \<Rightarrow> string" where
  "printPerSyncStats order stats =
     (case all_rows stats 0 [] (''Per thread sync stats:'' @ endl) of (sum_all, tot, out) \<Rightarrow>
        out @ ''>> Total count per sync:'' @ endl @ total_rows (order tot) @
        ''>> Program total syncs:'' @ [CHR 0x09] @ dec sum_all @ endl @ endl)"

definition progEnd :: "options \<Rightarrow> nat \<Rightarrow> (sync_counts \<Rightarrow> sync_counts) \<Rightarrow> (tid \<times> sync_counts) list \<Rightarrow> string" where
  "progEnd opt nullPolicyWaitCount order stats =
     ''Total null policy waits: '' @ dec (int nullPolicyWaitCount) @ endl @
     (if generate_per_sync_stats opt then printPerSyncStats order stats else [])"

section \<open>Reading back\<close>

definition delay_line :: "int \<times> u32 \<Rightarrow> string" where
  "delay_line = (\<lambda>(k, v). dec k @ '' '' @ dec (uint v) @ endl)"

lemma digit_char:
  assumes "k < 10"
  shows "is_digit (digit k)" "(of_char (digit k) :: int) = int k + 48" "digit k \<notin> {CHR ''-'', CHR ''+''}" "\<not> is_space (digit k)"
proof -
  have "k \<in> {0, 1, 2, 3, 4, 5, 6, 7, 8, 9}" using assms by auto
  then show "is_digit (digit k)" "(of_char (digit k) :: int) = int k + 48" "digit k \<notin> {CHR ''-'', CHR ''+''}" "\<not> is_space (digit k)"
    by (auto simp: digit_def is_digit_def is_space_def)
qed

lemma num_value_snoc: "num_value (ds @ [c]) = 10 * num_value ds + (of_char c - 48)"
  by (simp add: num_value_def)

lemma digits_dec:
  "num_value (digits 10 n) = int n \<and> list_all is_digit (digits 10 n) \<and> digits 10 n \<noteq> []"
proof (induction n rule: less_induct)
  case (less n)
  show ?case
  proof (cases "n < 10")
    case True
    then show ?thesis using digit_char [of n] by (simp add: digits.simps [of 10 n] num_value_def)
  next
    case False
    have "n div 10 < n" using False by simp
    then show ?thesis
      using less.IH [of "n div 10"] digit_char [of "n mod 10"] False
      by (simp add: digits.simps [of 10 n] num_value_snoc) presburger
  qed
qed

lemma scan_digits_dec:
  assumes "rest = [] \<or> \<not> is_digit (hd rest)"
  shows "scan_digits (digits 10 n @ rest) = (Some (int n), rest)"
proof -
  note d = digits_dec [of n]
  have "takeWhile is_digit (digits 10 n @ rest) = digits 10 n" "dropWhile is_digit (digits 10 n @ rest) = rest"
    using d assms by (cases rest; auto simp: list_all_iff takeWhile_append2 dropWhile_append2)+
  then show ?thesis using d by (simp add: scan_digits_def)
qed

lemma digits_start: "\<exists>c cs. digits 10 n = c # cs \<and> is_digit c"
  using digits_dec [of n] by (cases "digits 10 n") auto

lemma is_digit_not: "is_digit c \<Longrightarrow> c \<noteq> CHR ''-'' \<and> c \<noteq> CHR ''+'' \<and> \<not> is_space c"
  by (auto simp: is_digit_def is_space_def)

lemma scan_num_dec:
  assumes "rest = [] \<or> \<not> is_digit (hd rest)"
  shows "scan_num (dec v @ rest) = (Some v, rest)"
proof (cases "v < 0")
  case True
  then show ?thesis using scan_digits_dec [OF assms, of "nat (- v)"] by (simp add: scan_num_def dec_def)
next
  case False
  obtain c cs where c: "digits 10 (nat v) = c # cs" "is_digit c" using digits_start by blast
  then show ?thesis
    using False scan_digits_dec [OF assms, of "nat v"] is_digit_not [of c] by (simp add: scan_num_def dec_def)
qed

lemma skip_ws_dec: "skip_ws (dec v @ rest) = dec v @ rest"
proof -
  obtain c cs where "digits 10 (nat v) = c # cs" "is_digit c" using digits_start by blast
  then show ?thesis using is_digit_not [of c] by (auto simp: skip_ws_def dec_def is_space_def)
qed

lemma dec_Cons: "\<exists>c cs. dec v = c # cs"
  using digits_start [of "nat v"] by (auto simp: dec_def)

text \<open>A line of the file gives its two numbers and leaves what follows.\<close>

lemma scan_delay_line:
  assumes k: "- (2 ^ 31) \<le> k" "k < 2 ^ 31" and rest: "skip_ws rest = rest"
  shows "scan_delay i j (delay_line (k, v) @ rest) = (Some 2, k, v, rest)"
proof -
  let ?tail = "'' '' @ dec (uint v) @ endl @ rest"
  have a: "skip_ws (delay_line (k, v) @ rest) = dec k @ ?tail" by (simp add: delay_line_def skip_ws_dec)
  have b: "scan_num (dec k @ ?tail) = (Some k, ?tail)" by (rule scan_num_dec) (simp add: is_digit_def)
  have c: "skip_ws ?tail = dec (uint v) @ endl @ rest" using skip_ws_dec [of "uint v" "endl @ rest"] by (simp add: skip_ws_def is_space_def)
  have d: "scan_num (dec (uint v) @ endl @ rest) = (Some (uint v), endl @ rest)" by (rule scan_num_dec) (simp add: is_digit_def endl_def)
  have e: "skip_ws (endl @ rest) = rest" using rest by (simp add: skip_ws_def is_space_def endl_def)
  have f: "conv_d k = k" using k by (simp add: conv_d_def max_def min_def to_int32_small)
  have "uint v < 2 ^ 32" using uint_lt2p [of v] by simp
  then have g: "conv_u (uint v) = v" by (simp add: conv_u_def)
  obtain x xs where "dec k = x # xs" using dec_Cons by blast
  then show ?thesis using a b c d e f g by (simp add: scan_delay_def)
qed


lemma delay_line_no_space: "skip_ws (delay_line p @ rest) = delay_line p @ rest"
  by (cases p) (simp add: delay_line_def skip_ws_dec)

lemma delay_file_no_space: "skip_ws (concat (map delay_line ps)) = concat (map delay_line ps)"
proof (cases ps)
  case Nil
  then show ?thesis by (simp add: skip_ws_def)
next
  case (Cons p qs)
  then show ?thesis using delay_line_no_space [of p "concat (map delay_line qs)"] by simp
qed

lemma read_loop_lines:
  assumes "\<forall>(k, v) \<in> set ps. - (2 ^ 31) \<le> k \<and> k < 2 ^ 31" and "length ps < fuel"
  shows "read_loop fuel i j tab (concat (map delay_line ps)) = Inr (fold (\<lambda>(k, v). AList.update k v) ps tab)"
  using assms
proof (induction ps arbitrary: fuel i j tab)
  case Nil
  then show ?case by (cases fuel) (simp_all add: scan_delay_def skip_ws_def)
next
  case (Cons p ps)
  obtain k v where p: "p = (k, v)" by fastforce
  obtain n where n: "fuel = Suc n" "length ps < n" using Cons.prems(2) by (cases fuel) auto
  have "scan_delay i j (concat (map delay_line (p # ps))) = (Some 2, k, v, concat (map delay_line ps))"
    using Cons.prems(1) scan_delay_line [of k "concat (map delay_line ps)" i j v] delay_file_no_space [of ps] by (simp add: p)
  then show ?case using Cons.IH [of n k v "AList.update k v tab"] Cons.prems(1) n by (simp add: p)
qed

lemma length_update_new: "k \<notin> fst ` set tab \<Longrightarrow> AList.update k v tab = tab @ [(k, v)]"
  by (induction tab) auto

lemma fold_update_distinct:
  assumes "distinct (map fst (tab @ ps))"
  shows "fold (\<lambda>(k, v). AList.update k v) ps tab = tab @ ps"
  using assms
proof (induction ps arbitrary: tab)
  case (Cons p ps)
  obtain k v where p: "p = (k, v)" by fastforce
  have "AList.update k v tab = tab @ [p]" using Cons.prems by (auto simp: p intro!: length_update_new)
  then show ?case using Cons.IH [of "tab @ [p]"] Cons.prems by (simp add: p)
qed simp

lemma read_back:
  assumes "distinct (map fst ps)" and "\<forall>(k, v) \<in> set ps. - (2 ^ 31) \<le> k \<and> k < 2 ^ 31" and "length ps < fuel"
  shows "read_delay_file fuel i j (Some (concat (map delay_line ps))) = Inr (int (length ps), ps)"
  using assms read_loop_lines [OF assms(2,3), of i j "[]"] fold_update_distinct [of "[]" ps] by (simp add: read_delay_file_def)

text \<open>A file that goes on with something else than a number is read for ever.\<close>

definition stuck_at :: "string \<Rightarrow> bool" where
  "stuck_at s \<longleftrightarrow> (case skip_ws s of [] \<Rightarrow> False | c # _ \<Rightarrow> \<not> is_digit c \<and> c \<noteq> CHR ''-'' \<and> c \<noteq> CHR ''+'')"

lemma read_loop_stuck:
  assumes "stuck_at s"
  shows "read_loop fuel i j tab s = Inl LoopBound"
  using assms
proof (induction fuel arbitrary: i j tab s)
  case (Suc n)
  obtain c cs where c: "skip_ws s = c # cs" "\<not> is_digit c" "c \<noteq> CHR ''-''" "c \<noteq> CHR ''+''"
    using Suc.prems by (auto simp: stuck_at_def split: list.splits)
  have ns: "\<not> is_space c" using c(1) hd_dropWhile [of is_space s] by (simp add: skip_ws_def)
  have "scan_num (c # cs) = (None, c # cs)" using c by (simp add: scan_num_def scan_digits_def)
  then have "scan_delay i j s = (Some 0, i, j, c # cs)" using c(1) by (simp add: scan_delay_def)
  moreover have "stuck_at (c # cs)" using c ns by (simp add: stuck_at_def skip_ws_def)
  ultimately show ?case using Suc.IH by simp
qed simp

text \<open>Also when it starts with lines that can be read.\<close>

lemma stuck_skip: "stuck_at s \<Longrightarrow> skip_ws s = s \<Longrightarrow> skip_ws (concat (map delay_line ps) @ s) = concat (map delay_line ps) @ s"
  using delay_line_no_space by (cases ps) simp_all

lemma read_loop_lines_stuck:
  assumes "\<forall>(k, v) \<in> set ps. - (2 ^ 31) \<le> k \<and> k < 2 ^ 31" and s: "stuck_at s" "skip_ws s = s"
  shows "read_loop fuel i j tab (concat (map delay_line ps) @ s) = Inl LoopBound"
  using assms(1)
proof (induction ps arbitrary: fuel i j tab)
  case Nil
  then show ?case using read_loop_stuck [OF s(1)] by simp
next
  case (Cons p ps)
  obtain k v where p: "p = (k, v)" by fastforce
  have "scan_delay i j (concat (map delay_line (p # ps)) @ s) = (Some 2, k, v, concat (map delay_line ps) @ s)"
    using Cons.prems scan_delay_line [of k "concat (map delay_line ps) @ s" i j v] stuck_skip [OF s, of ps] by (simp add: p)
  then show ?case using Cons.IH [of _ k v "AList.update k v tab"] Cons.prems by (cases fuel) (simp_all add: p)
qed

section \<open>Totals\<close>

lemma map_of_add_count:
  "map_of (add_count f n tot) = (map_of tot)(f \<mapsto> (case map_of tot f of None \<Rightarrow> 0 | Some k \<Rightarrow> k) + n)"
  by (simp add: add_count_def update_conv')

definition count_of :: "sync_counts \<Rightarrow> syncfunc \<Rightarrow> int" where
  "count_of tot f = (case map_of tot f of None \<Rightarrow> 0 | Some k \<Rightarrow> k)"

definition row_sum :: "sync_counts \<Rightarrow> syncfunc \<Rightarrow> int" where
  "row_sum rows f = (\<Sum>(g, k) \<leftarrow> rows. if g = f then k else 0)"

lemma thread_rows_sums:
  assumes "thread_rows t rows n tot out = (n', tot', out')"
  shows "n' = n + sum_list (map snd rows) \<and> count_of tot' f = count_of tot f + row_sum rows f"
  using assms
proof (induction t rows n tot out rule: thread_rows.induct)
  case (2 t g k rows n tot out)
  have "count_of (add_count g k tot) f = count_of tot f + (if g = f then k else 0)"
    by (simp add: count_of_def map_of_add_count)
  then show ?case using 2 by (simp add: row_sum_def)
qed (simp add: row_sum_def)

lemma all_rows_sums:
  assumes "all_rows stats n tot out = (n', tot', out')"
  shows "n' = n + (\<Sum>(t, rows) \<leftarrow> stats. sum_list (map snd rows))
    \<and> count_of tot' f = count_of tot f + (\<Sum>(t, rows) \<leftarrow> stats. row_sum rows f)"
  using assms
proof (induction stats n tot out rule: all_rows.induct)
  case (2 t rows rest n tot out)
  obtain n1 tot1 out1 where row: "thread_rows t rows 0 tot out = (n1, tot1, out1)" by (metis surj_pair)
  show ?case using 2(1) [OF row [symmetric] refl] 2(2) thread_rows_sums [OF row, of f] by (simp add: row)
qed simp

text \<open>The times a thread measures one after the other add up to the time between the first and the last clock reading.\<close>

fun update_times :: "options \<Rightarrow> timespec \<Rightarrow> timespec list \<Rightarrow> timespec \<Rightarrow> timespec list \<times> timespec" where
  "update_times opt junk [] my = ([], my)"
| "update_times opt junk (now # ns) my =
     (case update_time opt now junk my of (d, my) \<Rightarrow> case update_times opt junk ns my of (ds, my) \<Rightarrow> (d # ds, my))"

lemma update_times_add_up:
  assumes "log_sync opt \<or> enforce_delays opt" and "update_times opt junk ns my = (ds, my')"
  shows "sum_list (map nanos ds) = nanos my' - nanos my \<and> my' = last (my # ns)"
  using assms(2)
proof (induction ns arbitrary: my ds my')
  case (Cons now ns)
  obtain ds1 my1 where rest: "update_times opt junk ns now = (ds1, my1)" by fastforce
  show ?case
    using Cons.prems Cons.IH [OF rest] rest assms(1) by (auto simp: update_time_def time_diff_exact)
qed simp

end
