(* ===== verification/Rdtsc.thy ===== *)
theory Rdtsc
  imports RecordLog
begin

text \<open>
  The time stamp recorder, \<open>lib/runtime/rdtsc.cpp\<close>: every intercepted call leaves an entry
  with the value of the time stamp counter when it starts and when it ends; the entries are kept
  in reserved storage and written to a file when it is full or the process exits. The time stamp
  counter, the process and thread identifiers and whether the file opens are arguments. What
  creating and opening the file does to \<open>errno\<close> is not modelled.

  The lemmas show that no entry is lost, duplicated or reordered between the storage and the
  file, that the storage is never written beyond what was reserved, and that the recorder does
  nothing when it is switched off.
\<close>

section \<open>Definitions\<close>

record sync_op_entry =
  en_tid :: u32
  en_op :: string
  en_op_suffix :: string
  en_print_depth :: u32
  en_clock :: "64 word"
  en_eip :: "64 word"

definition max_v_size :: nat where
  "max_v_size = 300000000"

text \<open>
  \<open>rdtsc_log\<close> is the storage behind the vector, which is reserved but stays empty as a vector:
  the entries are stored through \<open>operator[]\<close> beyond its size. \<open>rdtsc_index\<close> is \<open>(size_t)-1\<close>
  until the first entry. \<open>rdtsc_file\<close> is the text appended to the file.
\<close>

record rdtsc_state =
  rdtsc_log :: "nat \<Rightarrow> sync_op_entry option"
  rdtsc_reserved :: nat
  rdtsc_index :: size_t
  rdtsc_file :: string

definition rdtsc_initial :: rdtsc_state where
  "rdtsc_initial = \<lparr>rdtsc_log = (\<lambda>_. None), rdtsc_reserved = 0, rdtsc_index = - 1, rdtsc_file = []\<rparr>"

definition rdtsc_path :: "options \<Rightarrow> nat \<Rightarrow> string" where
  "rdtsc_path opt pid = take 1023 (rdtsc_output_dir opt @ ''/pself-pid-'' @ dec (int pid) @ ''.txt'')"

definition opdeps :: "string list" where
  "opdeps = [[], ''----'', ''--------'']"

text \<open>\<open>%p\<close> of the C library.\<close>

definition show_ptr :: "64 word \<Rightarrow> string" where
  "show_ptr p = (if p = 0 then ''(nil)'' else ''0x'' @ hex (unat p))"

definition entry_line :: "sync_op_entry \<Rightarrow> string" where
  "entry_line e = dec (uint (en_tid e)) @ '' '' @ opdeps ! unat (en_print_depth e) @ en_op e @ '' '' @
     en_op_suffix e @ '' '' @ dec (uint (en_clock e)) @ '' '' @ show_ptr (en_eip e) @ endl"

text \<open>The loop of \<open>process_rdtsc_log\<close> over the entries from \<open>i\<close> on.\<close>

primrec write_entries :: "options \<Rightarrow> nat \<Rightarrow> nat \<Rightarrow> rdtsc_state \<Rightarrow> rdtsc_state res" where
  "write_entries opt 0 i s = Inr s"
| "write_entries opt (Suc n) i s = (case rdtsc_log s i of
     None \<Rightarrow> Inl DanglingDeref
   | Some e \<Rightarrow> assert_then opt (en_print_depth e < 3)
       (check OutOfRange (unat (en_print_depth e) < length opdeps)
         (write_entries opt n (i + 1) (s\<lparr>rdtsc_file := rdtsc_file s @ entry_line e, rdtsc_log := (rdtsc_log s)(i := None)\<rparr>))))"

definition process_rdtsc_log :: "options \<Rightarrow> bool \<Rightarrow> rdtsc_state \<Rightarrow> rdtsc_state res" where
  "process_rdtsc_log opt opens s =
     assert_then opt opens (check NullDeref opens
       (res_bind (write_entries opt (unat (rdtsc_index s)) 0 s) (\<lambda>s. Inr (s\<lparr>rdtsc_index := 0\<rparr>))))"

definition record_rdtsc_op ::
  "options \<Rightarrow> bool \<Rightarrow> 64 word \<Rightarrow> pthread \<Rightarrow> string \<Rightarrow> string \<Rightarrow> int \<Rightarrow> 64 word \<Rightarrow> rdtsc_state \<Rightarrow> rdtsc_state res" where
  "record_rdtsc_op opt opens tsc th op_name op_suffix print_depth eip s =
     (if \<not> record_rdtsc opt then Inr s
      else let s = (if rdtsc_index s = - 1 then s\<lparr>rdtsc_reserved := max_v_size, rdtsc_index := 0\<rparr> else s) in
        res_bind (if unat (rdtsc_index s) \<ge> max_v_size then process_rdtsc_log opt opens s else Inr s) (\<lambda>s.
        check OutOfRange (unat (rdtsc_index s) < rdtsc_reserved s)
          (Inr (s\<lparr>rdtsc_log := (rdtsc_log s)(unat (rdtsc_index s) \<mapsto>
                   \<lparr>en_tid = of_nat th, en_op = op_name, en_op_suffix = op_suffix,
                    en_print_depth = word_of_int print_depth, en_clock = tsc, en_eip = eip\<rparr>),
                  rdtsc_index := rdtsc_index s + 1\<rparr>))))"

section \<open>No entry is lost\<close>

text \<open>The entries that wait in the storage, and the invariant of the storage.\<close>

definition pending :: "rdtsc_state \<Rightarrow> sync_op_entry list" where
  "pending s = (if rdtsc_index s = - 1 then [] else map (\<lambda>i. the (rdtsc_log s i)) [0..<unat (rdtsc_index s)])"

definition rdtsc_ok :: "rdtsc_state \<Rightarrow> bool" where
  "rdtsc_ok s \<longleftrightarrow> rdtsc_index s = - 1 \<or>
     (rdtsc_reserved s = max_v_size \<and> unat (rdtsc_index s) \<le> max_v_size \<and>
      (\<forall>i < unat (rdtsc_index s). \<exists>e. rdtsc_log s i = Some e \<and> en_print_depth e < 3))"

definition printed :: "rdtsc_state \<Rightarrow> string" where
  "printed s = rdtsc_file s @ concat (map entry_line (pending s))"

lemma depth_in_range: "d < (3 :: u32) \<Longrightarrow> unat d < length opdeps"
  using unat_mono [of d 3] by (simp add: opdeps_def)

text \<open>The storage holds the entries \<open>es\<close> from index \<open>i\<close> on.\<close>

definition holds_from :: "nat \<Rightarrow> sync_op_entry list \<Rightarrow> rdtsc_state \<Rightarrow> bool" where
  "holds_from i es s \<longleftrightarrow> (\<forall>j < length es. rdtsc_log s (i + j) = Some (es ! j))"

lemma holds_from_Cons:
  "holds_from i (e # es) s \<longleftrightarrow> rdtsc_log s i = Some e \<and> holds_from (i + 1) es s"
  by (auto simp: holds_from_def nth_Cons less_Suc_eq_0_disj split: nat.split)

lemma write_entries_ok:
  assumes "holds_from i es s" and "\<forall>e \<in> set es. en_print_depth e < 3"
  shows "\<exists>l. write_entries opt (length es) i s =
    Inr (s\<lparr>rdtsc_file := rdtsc_file s @ concat (map entry_line es), rdtsc_log := l\<rparr>)"
  using assms
proof (induction es arbitrary: i s)
  case Nil
  show ?case by (rule exI [of _ "rdtsc_log s"]) simp
next
  case (Cons e es)
  let ?s = "s\<lparr>rdtsc_file := rdtsc_file s @ entry_line e, rdtsc_log := (rdtsc_log s)(i := None)\<rparr>"
  have "holds_from (i + 1) es ?s" using Cons.prems(1) by (auto simp: holds_from_Cons holds_from_def)
  from Cons.IH [OF this] Cons.prems obtain l where "write_entries opt (length es) (i + 1) ?s =
    Inr (?s\<lparr>rdtsc_file := rdtsc_file ?s @ concat (map entry_line es), rdtsc_log := l\<rparr>)" by auto
  then show ?case using Cons.prems by (auto simp: holds_from_Cons depth_in_range)
qed

lemma process_rdtsc_log_ok:
  assumes ok: "rdtsc_ok s" and ix: "rdtsc_index s \<noteq> - 1" and f: opens
  obtains l where "process_rdtsc_log opt opens s = Inr (s\<lparr>rdtsc_file := printed s, rdtsc_log := l, rdtsc_index := 0\<rparr>)"
proof -
  have n: "length (pending s) = unat (rdtsc_index s)" using ix by (simp add: pending_def)
  have "holds_from 0 (pending s) s" "\<forall>e \<in> set (pending s). en_print_depth e < 3"
    using ok ix by (fastforce simp: rdtsc_ok_def pending_def holds_from_def)+
  from write_entries_ok [OF this, of opt, unfolded n] obtain l where
    "write_entries opt (unat (rdtsc_index s)) 0 s = Inr (s\<lparr>rdtsc_file := printed s, rdtsc_log := l\<rparr>)"
    by (auto simp: printed_def)
  then have "process_rdtsc_log opt opens s = Inr (s\<lparr>rdtsc_file := printed s, rdtsc_log := l, rdtsc_index := 0\<rparr>)"
    using f by (simp add: process_rdtsc_log_def)
  then show thesis by (rule that)
qed

lemma rdtsc_off: "\<not> record_rdtsc opt \<Longrightarrow> record_rdtsc_op opt opens tsc th f x d eip s = Inr s"
  by (simp add: record_rdtsc_op_def)

definition new_entry :: "pthread \<Rightarrow> string \<Rightarrow> string \<Rightarrow> int \<Rightarrow> 64 word \<Rightarrow> 64 word \<Rightarrow> sync_op_entry" where
  "new_entry th f x d tsc eip = \<lparr>en_tid = of_nat th, en_op = f, en_op_suffix = x,
     en_print_depth = word_of_int d, en_clock = tsc, en_eip = eip\<rparr>"

lemma unat_Suc_index: "unat i \<le> n \<Longrightarrow> n < 2 ^ 63 \<Longrightarrow> unat (i + 1 :: size_t) = unat i + 1"
  by (simp add: unat_word_ariths)

lemma unat_index_not_max: "unat (i :: size_t) \<le> max_v_size \<Longrightarrow> i \<noteq> - 1"
  by (auto simp: max_v_size_def unsigned_minus_1_eq_mask mask_eq_exp_minus_1)

text \<open>Storing an entry in a storage that has room.\<close>

lemma store_entry:
  assumes ok: "rdtsc_ok s" and room: "unat (rdtsc_index s) < max_v_size" and depth: "en_print_depth e < 3"
  defines "t \<equiv> s\<lparr>rdtsc_log := (rdtsc_log s)(unat (rdtsc_index s) \<mapsto> e), rdtsc_index := rdtsc_index s + 1\<rparr>"
  shows "rdtsc_ok t" "printed t = printed s @ entry_line e" "rdtsc_index t \<noteq> - 1"
proof -
  have i: "unat (rdtsc_index t) = unat (rdtsc_index s) + 1"
    using room unat_Suc_index [of "rdtsc_index s" max_v_size] by (simp add: t_def max_v_size_def)
  have ix: "rdtsc_index s \<noteq> - 1" using room unat_index_not_max [of "rdtsc_index s"] by simp
  show it: "rdtsc_index t \<noteq> - 1" using i room by (intro unat_index_not_max) simp
  show "rdtsc_ok t" using ok ix it i room depth by (auto simp: rdtsc_ok_def t_def less_Suc_eq)
  have "map (\<lambda>j. the (rdtsc_log t j)) [0..<unat (rdtsc_index s)] = map (\<lambda>j. the (rdtsc_log s j)) [0..<unat (rdtsc_index s)]"
    by (rule map_cong) (auto simp: t_def)
  moreover have "the (rdtsc_log t (unat (rdtsc_index s))) = e" by (simp add: t_def)
  ultimately have "pending t = pending s @ [e]" using ix it by (simp add: pending_def i)
  then show "printed t = printed s @ entry_line e" by (simp add: printed_def t_def)
qed

lemma record_rdtsc_op_keeps:
  assumes ok: "rdtsc_ok s" and f: opens and on: "record_rdtsc opt" and d: "0 \<le> d" "d < 3"
  obtains t where "record_rdtsc_op opt opens tsc th f x d eip s = Inr t" "rdtsc_ok t"
    "printed t = printed s @ entry_line (new_entry th f x d tsc eip)"
proof -
  let ?e = "new_entry th f x d tsc eip"
  let ?s0 = "if rdtsc_index s = - 1 then s\<lparr>rdtsc_reserved := max_v_size, rdtsc_index := 0\<rparr> else s"
  have depth: "en_print_depth ?e < 3"
    using d by (auto simp: new_entry_def word_less_def uint_word_of_int)
  have s0: "rdtsc_ok ?s0" "printed ?s0 = printed s" "rdtsc_index ?s0 \<noteq> - 1" "rdtsc_reserved ?s0 = max_v_size"
    using ok by (auto simp: rdtsc_ok_def printed_def pending_def)
  obtain s1 where s1: "(if unat (rdtsc_index ?s0) \<ge> max_v_size then process_rdtsc_log opt opens ?s0 else Inr ?s0) = Inr s1"
    "rdtsc_ok s1" "printed s1 = printed s" "unat (rdtsc_index s1) < max_v_size" "rdtsc_reserved s1 = max_v_size"
  proof (cases "unat (rdtsc_index ?s0) \<ge> max_v_size")
    case True
    obtain l where l: "process_rdtsc_log opt opens ?s0 = Inr (?s0\<lparr>rdtsc_file := printed ?s0, rdtsc_log := l, rdtsc_index := 0\<rparr>)"
      using process_rdtsc_log_ok [OF s0(1) s0(3) f] by blast
    show thesis
      by (rule that [of "?s0\<lparr>rdtsc_file := printed ?s0, rdtsc_log := l, rdtsc_index := 0\<rparr>"])
         (use True l s0 in \<open>simp_all add: rdtsc_ok_def printed_def pending_def max_v_size_def\<close>)
  next
    case False
    show thesis by (rule that [of ?s0]) (use False s0 in simp_all)
  qed
  note st = store_entry [OF s1(2) s1(4) depth]
  have "record_rdtsc_op opt opens tsc th f x d eip s =
    Inr (s1\<lparr>rdtsc_log := (rdtsc_log s1)(unat (rdtsc_index s1) \<mapsto> ?e), rdtsc_index := rdtsc_index s1 + 1\<rparr>)"
    unfolding record_rdtsc_op_def Let_def s1(1) using on s1(4,5) by (simp add: new_entry_def)
  then show thesis using st(1,2) s1(3) that by simp
qed

end
