(* ===== verification/CodeGen.thy ===== *)
theory CodeGen
  imports Prelude "HOL-Library.Sublist"
begin

text \<open>
  The generator of the wrappers, \<open>dync_hook/code_gen.cpp\<close>: it reads the list of functions
  \<open>hook_func.def\<close>, splits the parameters of a function into types and names, and fills the template
  of the kind of function. Files are their texts; the prefix of the library path is an argument.

  The lemmas show that a list of typed parameters is split into the list of names and the list of
  types, that replacing ends when the new text lacks a character of the pattern and then leaves no
  occurrence, that it does not end when the new text contains the pattern, and that reading the
  list of functions ends.
\<close>

section \<open>Names\<close>

text \<open>The words that are not names: \<open>init_filter\<close>.\<close>

definition type_words :: "string list" where
  "type_words = [''const'', ''void'', ''int'', ''unsigned'', ''pthread_mutex_t'', ''restrict'', ''pthread_mutexattr_t'',
     ''struct'', ''timespec'', ''time_t'', ''clockid_t'', ''timeval'', ''timezone'', ''pthread_cond_t'', ''sem_t'',
     ''pthread_barrier_t'', ''pthread_barrierattr_t'', ''useconds_t'', ''__useconds_t'', ''sockaddr'', ''size_t'', ''ssize_t'',
     ''pid_t'', ''msghdr'', ''socklen_t'', ''epoll_event'', ''pthread_rwlock_t'']"

definition char_between :: "char \<Rightarrow> char \<Rightarrow> char \<Rightarrow> bool" where
  "char_between lo hi c \<longleftrightarrow> (of_char lo :: nat) \<le> of_char c \<and> (of_char c :: nat) \<le> of_char hi"

definition goodchar :: "char \<Rightarrow> bool" where
  "goodchar c \<longleftrightarrow> char_between CHR ''A'' CHR ''Z'' c \<or> char_between CHR ''a'' CHR ''z'' c \<or>
     char_between CHR ''0'' CHR ''9'' c \<or> c = CHR ''_''"

section \<open>Replacing\<close>

fun find_pat :: "string \<Rightarrow> string \<Rightarrow> nat option" where
  "find_pat pat [] = (if pat = [] then Some 0 else None)"
| "find_pat pat (c # cs) = (if prefix pat (c # cs) then Some 0 else map_option Suc (find_pat pat cs))"

text \<open>\<open>replace\<close> searches from the start again after every replacement; \<open>None\<close> is a loop that does not end.\<close>

partial_function (option) replace_all :: "string \<Rightarrow> string \<Rightarrow> string \<Rightarrow> string option" where
  "replace_all pat tobe st = (case find_pat pat st of
     None \<Rightarrow> Some st
   | Some i \<Rightarrow> replace_all pat tobe (take i st @ tobe @ drop (i + length pat) st))"

section \<open>Filling a template\<close>

record patterns =
  func_pattern :: string
  void_func_pattern :: string
  always_check_func_pattern :: string
  libPathPrefix :: string

record func_def =
  fd_ret_type :: string
  fd_name :: string
  fd_args_with_name :: string
  fd_args_without_name :: string
  fd_args_only_name :: string
  fd_lib_path :: string

definition pick_pattern :: "patterns \<Rightarrow> func_def \<Rightarrow> string" where
  "pick_pattern ps d =
     (if fd_name d = ''pthread_create'' \<or> fd_name d = ''pthread_barrier_init'' then always_check_func_pattern ps
      else if fd_ret_type d = ''void'' then void_func_pattern ps else func_pattern ps)"

definition print_func :: "patterns \<Rightarrow> func_def \<Rightarrow> string option" where
  "print_func ps d =
     Option.bind (replace_all ''FUNC_RET_TYPE'' (fd_ret_type d) (pick_pattern ps d)) (\<lambda>s.
     Option.bind (replace_all ''FUNC_NAME'' (fd_name d) s) (\<lambda>s.
     Option.bind (replace_all ''ARGS_WITH_NAME'' (fd_args_with_name d) s) (\<lambda>s.
     Option.bind (replace_all ''ARGS_WITHOUT_NAME'' (fd_args_without_name d) s) (\<lambda>s.
     Option.bind (if fd_args_only_name d = []
       then Option.bind (replace_all '', ARGS_ONLY_NAME'' (fd_args_only_name d) s) (replace_all ''ARGS_ONLY_NAME'' (fd_args_only_name d))
       else replace_all ''ARGS_ONLY_NAME'' (fd_args_only_name d) s) (\<lambda>s.
     replace_all ''LIB_PATH'' (libPathPrefix ps @ fd_lib_path d) s)))))"

section \<open>Reading\<close>

text \<open>\<open>fgets(buffer, 1024, fin)\<close>: a line with its end, or the next 1023 characters; \<open>None\<close> at the end of the file.\<close>

definition fgets_1024 :: "string \<Rightarrow> (string \<times> string) option" where
  "fgets_1024 s = (if s = [] then None
     else let n = min 1023 (case find_pat [CHR 0x0A] s of None \<Rightarrow> length s | Some i \<Rightarrow> i + 1) in Some (take n s, drop n s))"

definition white :: "char \<Rightarrow> bool" where
  "white c \<longleftrightarrow> c \<in> {CHR '' '', CHR 0x09, CHR 0x0A, CHR 0x0D, CHR 0x0C, CHR 0x0B}"

definition trim_end :: "string \<Rightarrow> string" where
  "trim_end s = rev (dropWhile white (rev s))"

lemma fgets_shorter: "fgets_1024 s = Some (l, rest) \<Longrightarrow> length rest < length s"
  by (auto simp: fgets_1024_def Let_def split: if_split_asm option.split_asm)

text \<open>Whether there was a line, the string the line is read into, and the rest of the file.\<close>

function read_line :: "string \<Rightarrow> string \<Rightarrow> bool \<times> string \<times> string" where
  "read_line ret s = (case fgets_1024 s of
     None \<Rightarrow> (False, ret, s)
   | Some (l, rest) \<Rightarrow> if trim_end l \<noteq> [] then (True, trim_end l, rest) else read_line [] rest)"
  by pat_completeness auto

termination
  by (relation "measure (\<lambda>(ret, s). length s)") (auto dest: fgets_shorter)

declare read_line.simps [simp del]

definition next_line :: "string \<Rightarrow> (string \<times> string) option" where
  "next_line s = (case read_line [] s of (True, l, rest) \<Rightarrow> Some (l, rest) | (False, _) \<Rightarrow> None)"

lemma read_line_shorter: "read_line ret s = (True, l, rest) \<Longrightarrow> length rest < length s"
proof (induction ret s rule: read_line.induct)
  case (1 ret s)
  show ?case
  proof (cases "fgets_1024 s")
    case None
    then show ?thesis using 1(2) by (simp add: read_line.simps [of ret s])
  next
    case (Some x)
    obtain l' r where x: "x = (l', r)" by fastforce
    have "length r < length s" using Some x by (auto dest: fgets_shorter)
    moreover have "trim_end l' \<noteq> [] \<Longrightarrow> rest = r" using 1(2) Some x by (simp add: read_line.simps [of ret s])
    moreover have "trim_end l' = [] \<Longrightarrow> length rest < length r"
      using 1(1) [OF Some x [symmetric]] 1(2) Some x by (simp add: read_line.simps [of ret s])
    ultimately show ?thesis by (cases "trim_end l' = []") simp_all
  qed
qed

text \<open>The loop that looks for the start of a definition: the flag it stops with.\<close>

function find_start :: "string \<Rightarrow> string \<Rightarrow> string \<times> string" where
  "find_start flag s = (if flag = ''STARTDEF'' \<or> flag = ''START_SHORT_DEFINE'' then (flag, s)
     else case read_line flag s of (ok, flag, rest) \<Rightarrow> if ok then find_start flag rest else (flag, rest))"
  by pat_completeness auto

termination
  by (relation "measure (\<lambda>(flag, s). length s)") (auto dest!: sym [of "(True, _)"] read_line_shorter)

declare find_start.simps [simp del]

text \<open>The lines up to \<open>SECTION\<close> (or the end of the file), joined.\<close>

function read_section :: "string \<Rightarrow> string \<Rightarrow> string \<times> string" where
  "read_section acc s = (case next_line s of
     None \<Rightarrow> (acc, [])
   | Some (l, rest) \<Rightarrow> if l = ''SECTION'' then (acc, rest) else read_section (acc @ l) rest)"
  by pat_completeness auto

termination
  by (relation "measure (\<lambda>(acc, s). length s)")
    (auto simp: next_line_def dest!: read_line_shorter split: prod.split_asm bool.split_asm)

declare read_section.simps [simp del]


section \<open>Parameters\<close>

text \<open>The text between the first opening and the last closing parenthesis; without one a substring is taken out of range.\<close>

definition inside_parens :: "string \<Rightarrow> string res" where
  "inside_parens st =
     (let st = dropWhile (\<lambda>c. c \<noteq> CHR ''('') st in
      check OutOfRange (st \<noteq> [])
        (let st = rev (dropWhile (\<lambda>c. c \<noteq> CHR '')'') (rev st)) in
         check OutOfRange (st \<noteq> []) (Inr (butlast (tl st)))))"

text \<open>The loop over the tokens: what is not a type goes to the names, everything else but names to the types.\<close>

function split_args :: "string \<Rightarrow> string \<Rightarrow> string \<Rightarrow> string \<times> string" where
  "split_args [] only without = (only, without)"
| "split_args (c # cs) only without =
     (if goodchar c
      then let token = c # takeWhile goodchar cs; rest = dropWhile goodchar cs in
        if token \<notin> set type_words then split_args rest (only @ token) without else split_args rest only (without @ token)
      else if c = CHR '','' then split_args cs (only @ [c]) (without @ [c])
      else split_args cs only (without @ [c]))"
  by pat_completeness auto

termination
  by (relation "measure (\<lambda>(st, only, without). length st)") (auto simp: le_imp_less_Suc length_dropWhile_le)

declare split_args.simps [simp del]

section \<open>Converting\<close>

text \<open>A definition in the long or the short form; \<open>None\<close>: the file ends before it is complete.\<close>

definition long_def :: "string \<Rightarrow> (func_def \<times> string) option" where
  "long_def s =
     Option.bind (next_line s) (\<lambda>(ret_type, s).
     Option.bind (next_line s) (\<lambda>(name, s).
     Option.bind (next_line s) (\<lambda>(lib, s).
     case read_section [] s of (without, s) \<Rightarrow> case read_section [] s of (with_name, s) \<Rightarrow> case read_section [] s of (only, s) \<Rightarrow>
       Some (\<lparr>fd_ret_type = ret_type, fd_name = name, fd_args_with_name = with_name, fd_args_without_name = without,
              fd_args_only_name = only, fd_lib_path = lib\<rparr>, s))))"

definition short_def :: "string \<Rightarrow> (func_def \<times> string) option res" where
  "short_def s =
     (case Option.bind (next_line s) (\<lambda>(lib, s). Option.bind (next_line s) (\<lambda>(ret_type, s). Option.bind (next_line s) (\<lambda>(name, s).
           Option.bind (next_line s) (\<lambda>(st, s). Some (lib, ret_type, name, st, s))))) of
        None \<Rightarrow> Inr None
      | Some (lib, ret_type, name, st, s) \<Rightarrow> res_bind (inside_parens st) (\<lambda>st.
          case split_args st [] [] of (only, without) \<Rightarrow>
            Inr (Some (\<lparr>fd_ret_type = ret_type, fd_name = name, fd_args_with_name = st, fd_args_without_name = without,
                       fd_args_only_name = only, fd_lib_path = lib\<rparr>, s))))"

definition type_line :: "func_def \<Rightarrow> string" where
  "type_line d = ''typedef '' @ fd_ret_type d @ '' (*__'' @ fd_name d @ ''_funcdef)('' @ fd_args_with_name d @ '');'' @ [CHR 0x0A]"

text \<open>The main loop, with the two files it writes; the number bounds its rounds.\<close>

primrec convert_loop :: "patterns \<Rightarrow> nat \<Rightarrow> string \<Rightarrow> string \<Rightarrow> string \<Rightarrow> (string \<times> string) res" where
  "convert_loop ps 0 s hook_cpp types = Inl LoopBound"
| "convert_loop ps (Suc n) s hook_cpp types =
     (case find_start [] s of (flag, s) \<Rightarrow>
        if flag \<noteq> ''STARTDEF'' \<and> flag \<noteq> ''START_SHORT_DEFINE'' then Inr (hook_cpp, types)
        else res_bind (if flag = ''STARTDEF'' then Inr (long_def s) else short_def s) (\<lambda>d. case d of
          None \<Rightarrow> Inr (hook_cpp, types)
        | Some (d, s) \<Rightarrow> (case print_func ps d of
            None \<Rightarrow> Inl LoopBound
          | Some code \<Rightarrow> convert_loop ps n s (hook_cpp @ code) (types @ type_line d))))"

definition convert :: "patterns \<Rightarrow> string \<Rightarrow> (string \<times> string) res" where
  "convert ps s = convert_loop ps (Suc (length s)) s [] []"

text \<open>\<open>read_file\<close> and \<open>main\<close>; \<open>fname\<close> is the file the C library was loaded from.\<close>

function read_file :: "string \<Rightarrow> string" where
  "read_file s = (case fgets_1024 s of None \<Rightarrow> [] | Some (l, rest) \<Rightarrow> l @ read_file rest)"
  by pat_completeness auto

termination
  by (relation "measure length") (auto dest: fgets_shorter)

declare read_file.simps [simp del]

definition dir_of :: "string \<Rightarrow> string" where
  "dir_of f = (if CHR ''/'' \<in> set f then rev (tl (dropWhile (\<lambda>c. c \<noteq> CHR ''/'') (rev f))) else f)"

definition code_gen_main :: "nat \<Rightarrow> string \<Rightarrow> string \<Rightarrow> string \<Rightarrow> string \<Rightarrow> string \<Rightarrow> (string \<times> string) res" where
  "code_gen_main argc fname func_file void_file always_file input = check AssertFailed (argc = 4)
     (convert \<lparr>func_pattern = read_file func_file, void_func_pattern = read_file void_file,
       always_check_func_pattern = read_file always_file, libPathPrefix = dir_of fname\<rparr> input)"

section \<open>Splitting parameters\<close>

lemma split_args_sep:
  assumes "\<not> goodchar c"
  shows "split_args (c # cs) only w = split_args cs (only @ (if c = CHR '','' then [c] else [])) (w @ [c])"
  using assms by (simp add: split_args.simps)

lemma split_args_token:
  assumes "tok \<noteq> []" and "list_all goodchar tok" and "rest = [] \<or> \<not> goodchar (hd rest)"
  shows "split_args (tok @ rest) only w =
    (if tok \<in> set type_words then split_args rest only (w @ tok) else split_args rest (only @ tok) w)"
proof -
  obtain c cs where tok: "tok = c # cs" "goodchar c" "list_all goodchar cs" using assms(1,2) by (cases tok) auto
  have "takeWhile goodchar (cs @ rest) = cs" "dropWhile goodchar (cs @ rest) = rest"
    using tok(3) assms(3) by (cases rest; auto simp: list_all_iff takeWhile_append2 dropWhile_append2)+
  then show ?thesis using tok by (simp add: split_args.simps(2))
qed

text \<open>A type: words of the list and other characters, no comma, and something between it and the name.\<close>

definition type_text :: "string \<Rightarrow> bool" where
  "type_text ty \<longleftrightarrow> split_args ty [] [] = ([], ty) \<and> CHR '','' \<notin> set ty \<and> ty \<noteq> [] \<and> \<not> goodchar (last ty)"

definition name_text :: "string \<Rightarrow> bool" where
  "name_text nm \<longleftrightarrow> nm \<noteq> [] \<and> list_all goodchar nm \<and> nm \<notin> set type_words"

lemma split_args_acc:
  "split_args st only w = (only @ fst (split_args st [] []), w @ snd (split_args st [] []))"
proof (induction st arbitrary: only w rule: length_induct)
  case (1 st)
  show ?case
  proof (cases st)
    case Nil
    then show ?thesis by (simp add: split_args.simps)
  next
    case (Cons c cs)
    have ih: "length ys \<le> length cs \<Longrightarrow> split_args ys a b = (a @ fst (split_args ys [] []), b @ snd (split_args ys [] []))" for ys a b
      using 1 Cons by (metis le_imp_less_Suc length_Cons)
    let ?tok = "c # takeWhile goodchar cs" and ?rest = "dropWhile goodchar cs"
    note r = ih [of ?rest, OF length_dropWhile_le] and t = ih [of cs, OF order_refl]
    show ?thesis
      unfolding Cons
      using r [of "only @ ?tok" w] r [of only "w @ ?tok"] r [of ?tok "[]"] r [of "[]" ?tok]
        t [of "only @ [c]" "w @ [c]"] t [of only "w @ [c]"] t [of "[c]" "[c]"] t [of "[]" "[c]"]
      by (cases "goodchar c"; cases "c = CHR '',''") (simp_all add: split_args.simps(2) Let_def)
  qed
qed

text \<open>Text that ends in a separator is split on its own.\<close>

lemma dropWhile_last_bad:
  assumes "xs \<noteq> []" and "\<not> P (last xs)"
  shows "takeWhile P (xs @ ys) = takeWhile P xs \<and> dropWhile P (xs @ ys) = dropWhile P xs @ ys \<and>
    dropWhile P xs \<noteq> [] \<and> last (dropWhile P xs) = last xs"
  using assms by (induction xs) (auto split: if_split_asm)

lemma split_args_append:
  assumes "ty = [] \<or> \<not> goodchar (last ty)"
  shows "split_args (ty @ rest) only w = (case split_args ty only w of (a, b) \<Rightarrow> split_args rest a b)"
  using assms
proof (induction ty only w rule: split_args.induct)
  case (2 c cs only w)
  show ?case
  proof (cases "goodchar c")
    case True
    then have ne: "cs \<noteq> []" "\<not> goodchar (last cs)" using 2(5) by (auto split: if_split_asm)
    note d = dropWhile_last_bad [of cs goodchar rest, OF ne]
    show ?thesis using 2(1,2) [OF True refl refl] d ne True by (auto simp: split_args.simps(2) Let_def)
  next
    case False
    have "cs = [] \<or> \<not> goodchar (last cs)" using 2(5) by (auto split: if_split_asm)
    then show ?thesis using 2(3,4) False by (auto simp: split_args.simps(2))
  qed
qed (simp add: split_args.simps)

lemma split_param:
  assumes "type_text ty" and "name_text nm" and "rest = [] \<or> \<not> goodchar (hd rest)"
  shows "split_args (ty @ nm @ rest) only w = split_args rest (only @ nm) (w @ ty)"
proof -
  have "split_args (ty @ nm @ rest) only w = split_args (nm @ rest) only (w @ ty)"
    using assms(1) split_args_append [of ty "nm @ rest" only w] split_args_acc [of ty only w] by (simp add: type_text_def)
  then show ?thesis using assms(2,3) split_args_token [of nm rest only "w @ ty"] by (simp add: name_text_def)
qed

fun join_args :: "string list \<Rightarrow> string" where
  "join_args [] = []"
| "join_args [x] = x"
| "join_args (x # y # xs) = x @ CHR '','' # join_args (y # xs)"

lemma split_params:
  assumes "list_all (\<lambda>(ty, nm). type_text ty \<and> name_text nm) ps"
  shows "split_args (join_args (map (\<lambda>(ty, nm). ty @ nm) ps)) only w =
    (only @ join_args (map snd ps), w @ join_args (map fst ps))"
  using assms
proof (induction ps arbitrary: only w)
  case Nil
  then show ?case by (simp add: split_args.simps)
next
  case (Cons p ps)
  obtain ty nm where p: "p = (ty, nm)" by fastforce
  have ok: "type_text ty" "name_text nm" using Cons.prems by (simp_all add: p)
  have comma: "\<not> goodchar (CHR '','')" by (simp add: goodchar_def char_between_def)
  show ?case
  proof (cases ps)
    case Nil
    then show ?thesis using split_param [OF ok, of "[]" only w] by (simp add: p split_args.simps)
  next
    case (Cons q qs)
    let ?rest = "join_args (map (\<lambda>(ty, nm). ty @ nm) ps)"
    have "split_args (ty @ nm @ CHR '','' # ?rest) only w = split_args ?rest (only @ nm @ '','') (w @ ty @ '','')"
      using split_param [OF ok, of "CHR '','' # ?rest" only w] comma by (simp add: split_args_sep)
    then show ?thesis using Cons.IH [of "only @ nm @ '',''" "w @ ty @ '',''"] Cons.prems Cons by (simp add: p)
  qed
qed


section \<open>Replacing ends\<close>

lemma find_pat_Some:
  assumes "find_pat pat st = Some i"
  shows "st = take i st @ pat @ drop (i + length pat) st"
  using assms
proof (induction pat st arbitrary: i rule: find_pat.induct)
  case (2 pat c cs)
  show ?case
  proof (cases "prefix pat (c # cs)")
    case True
    then have "i = 0" using 2(2) by simp
    then show ?thesis using True by (metis append_eq_conv_conj append_self_conv2 plus_nat.add_0 prefix_def take0)
  next
    case False
    then obtain j where "i = Suc j" "find_pat pat cs = Some j" using 2(2) by auto
    then show ?thesis using 2(1) [OF False] by simp
  qed
qed (simp split: if_split_asm)

lemma find_pat_None: "find_pat pat st = None \<longleftrightarrow> \<not> sublist pat st"
proof (induction pat st rule: find_pat.induct)
  case (2 pat c cs)
  then show ?case by (auto simp: sublist_Cons_right split: if_split_asm)
qed auto

text \<open>Every replacement removes an occurrence of a character of the pattern that the new text does not have.\<close>

lemma replace_step_count:
  assumes "find_pat pat st = Some i" and "c \<in> set pat" and "c \<notin> set tobe"
  shows "count_list (take i st @ tobe @ drop (i + length pat) st) c < count_list st c"
proof -
  have "count_list st c = count_list (take i st) c + count_list pat c + count_list (drop (i + length pat) st) c"
    using arg_cong [OF find_pat_Some [OF assms(1)], of "\<lambda>x. count_list x c"] by simp
  moreover have "count_list pat c > 0" using assms(2) by (metis count_list_0_iff gr0I)
  moreover have "count_list tobe c = 0" using assms(3) by (simp add: count_list_0_iff)
  ultimately show ?thesis by simp
qed

lemma replace_all_ends:
  assumes "c \<in> set pat" and "c \<notin> set tobe"
  shows "\<exists>st'. replace_all pat tobe st = Some st' \<and> \<not> sublist pat st'"
proof (induction "count_list st c" arbitrary: st rule: less_induct)
  case less
  show ?case
  proof (cases "find_pat pat st")
    case None
    then show ?thesis using find_pat_None [of pat st] by (simp add: replace_all.simps [of pat tobe st])
  next
    case (Some i)
    from less.hyps [OF replace_step_count [OF Some assms]] Some show ?thesis by (simp add: replace_all.simps [of pat tobe st])
  qed
qed

text \<open>When the new text contains the pattern, replacing does not end once there is an occurrence.\<close>

lemma replace_all_needs:
  assumes "replace_all pat tobe st = Some st'"
  shows "sublist pat tobe \<longrightarrow> \<not> sublist pat st"
proof (rule replace_all.raw_induct [OF _ assms, where P = "\<lambda>p t x _. sublist p t \<longrightarrow> \<not> sublist p x"])
  fix rep and p t x y :: string
  assume ih: "\<And>p t x y. rep p t x = Some y \<Longrightarrow> sublist p t \<longrightarrow> \<not> sublist p x"
    and step: "(case find_pat p x of None \<Rightarrow> Some x | Some i \<Rightarrow> rep p t (take i x @ t @ drop (i + length p) x)) = Some y"
  show "sublist p t \<longrightarrow> \<not> sublist p x"
  proof (cases "find_pat p x")
    case None
    then show ?thesis using find_pat_None [of p x] by simp
  next
    case (Some i)
    let ?new = "take i x @ t @ drop (i + length p) x"
    have "sublist p t \<longrightarrow> \<not> sublist p ?new" using ih [of p t ?new y] step Some by simp
    moreover have "sublist t ?new" by (metis sublist_appendI)
    ultimately show ?thesis using sublist_order.order_trans by blast
  qed
qed

lemma replace_all_loops:
  assumes "sublist pat tobe" and "sublist pat st"
  shows "replace_all pat tobe st = None"
  using assms replace_all_needs [of pat tobe st] by (cases "replace_all pat tobe st") auto

text \<open>Filling a template ends when every text lacks a character of its placeholder.\<close>

definition fills :: "string \<Rightarrow> string \<Rightarrow> bool" where
  "fills pat tobe \<longleftrightarrow> \<not> set pat \<subseteq> set tobe"

lemma replace_all_fills: "fills pat tobe \<Longrightarrow> \<exists>st'. replace_all pat tobe st = Some st'"
  using replace_all_ends [of _ pat tobe st] by (auto simp: fills_def)

definition fillable :: "string \<Rightarrow> func_def \<Rightarrow> bool" where
  "fillable libprefix d \<longleftrightarrow> fills ''FUNC_RET_TYPE'' (fd_ret_type d) \<and> fills ''FUNC_NAME'' (fd_name d) \<and>
     fills ''ARGS_WITH_NAME'' (fd_args_with_name d) \<and> fills ''ARGS_WITHOUT_NAME'' (fd_args_without_name d) \<and>
     fills ''ARGS_ONLY_NAME'' (fd_args_only_name d) \<and> fills ''LIB_PATH'' (libprefix @ fd_lib_path d)"

lemma print_func_ends:
  assumes "fillable (libPathPrefix ps) d"
  shows "\<exists>code. print_func ps d = Some code"
proof -
  have r: "\<exists>st'. replace_all pat tobe st = Some st'" if "fills pat tobe" for pat tobe st
    using that by (rule replace_all_fills)
  note f = assms [unfolded fillable_def]
  have n: "fills '', ARGS_ONLY_NAME'' []" by (simp add: fills_def)
  obtain s1 where s1: "replace_all ''FUNC_RET_TYPE'' (fd_ret_type d) (pick_pattern ps d) = Some s1" using r f by blast
  obtain s2 where s2: "replace_all ''FUNC_NAME'' (fd_name d) s1 = Some s2" using r f by blast
  obtain s3 where s3: "replace_all ''ARGS_WITH_NAME'' (fd_args_with_name d) s2 = Some s3" using r f by blast
  obtain s4 where s4: "replace_all ''ARGS_WITHOUT_NAME'' (fd_args_without_name d) s3 = Some s4" using r f by blast
  obtain s5 where s5: "(if fd_args_only_name d = []
      then Option.bind (replace_all '', ARGS_ONLY_NAME'' (fd_args_only_name d) s4) (replace_all ''ARGS_ONLY_NAME'' (fd_args_only_name d))
      else replace_all ''ARGS_ONLY_NAME'' (fd_args_only_name d) s4) = Some s5"
  proof (cases "fd_args_only_name d = []")
    case True
    obtain x where "replace_all '', ARGS_ONLY_NAME'' [] s4 = Some x" using r [OF n] by blast
    moreover obtain y where "replace_all ''ARGS_ONLY_NAME'' [] x = Some y" using r f True by metis
    ultimately show thesis using that True by simp
  next
    case False
    obtain y where "replace_all ''ARGS_ONLY_NAME'' (fd_args_only_name d) s4 = Some y" using r f by blast
    then show thesis using that False by simp
  qed
  obtain s6 where "replace_all ''LIB_PATH'' (libPathPrefix ps @ fd_lib_path d) s5 = Some s6" using r f by blast
  then show ?thesis unfolding print_func_def s1 s2 s3 s4 bind.bind_lunit s5 by simp
qed

section \<open>Reading ends\<close>

lemma next_line_shorter: "next_line s = Some (l, rest) \<Longrightarrow> length rest < length s"
  by (auto simp: next_line_def dest!: read_line_shorter split: prod.split_asm bool.split_asm)

lemma read_line_fails: "read_line ret s = (False, l, r) \<Longrightarrow> l = ret \<or> l = []"
proof (induction ret s rule: read_line.induct)
  case (1 ret s)
  show ?case
  proof (cases "fgets_1024 s")
    case None
    then show ?thesis using 1(2) by (simp add: read_line.simps [of ret s])
  next
    case (Some x)
    obtain l' r' where x: "x = (l', r')" by fastforce
    show ?thesis using 1(1) [OF Some x [symmetric]] 1(2) Some x by (auto simp: read_line.simps [of ret s] split: if_split_asm)
  qed
qed

lemma find_start_shorter:
  assumes "find_start flag s = (flag', rest)" and "flag' = ''STARTDEF'' \<or> flag' = ''START_SHORT_DEFINE''"
    and "flag \<noteq> ''STARTDEF''" and "flag \<noteq> ''START_SHORT_DEFINE''"
  shows "length rest < length s"
  using assms
proof (induction flag s rule: find_start.induct)
  case (1 flag s)
  obtain ok l r where rl: "read_line flag s = (ok, l, r)" by (metis surj_pair)
  show ?case
  proof (cases ok)
    case True
    then have "length r < length s" using rl read_line_shorter [of flag s l r] by simp
    moreover have "find_start l r = (flag', rest)" using 1(2,4,5) rl True by (simp add: find_start.simps [of flag s])
    ultimately show ?thesis
      using 1(1) [OF _ rl [symmetric] refl True] 1(3,4,5)
      by (cases "l = ''STARTDEF'' \<or> l = ''START_SHORT_DEFINE''") (auto simp: find_start.simps [of l r])
  next
    case False
    have "flag' = l" using 1(2,4,5) rl False by (simp add: find_start.simps [of flag s])
    moreover have "l = flag \<or> l = []" using rl False read_line_fails [of flag s l r] by simp
    ultimately show ?thesis using 1(3,4,5) by auto
  qed
qed

lemma read_section_not_longer: "length (snd (read_section acc s)) \<le> length s"
proof (induction acc s rule: read_section.induct)
  case (1 acc s)
  show ?case
  proof (cases "next_line s")
    case None
    then show ?thesis by (simp add: read_section.simps [of acc s])
  next
    case (Some x)
    obtain l r where x: "x = (l, r)" by fastforce
    have "length r < length s" using next_line_shorter Some x by blast
    then show ?thesis using 1 [OF Some x [symmetric]] Some x by (auto simp: read_section.simps [of acc s])
  qed
qed

lemma long_def_shorter:
  assumes "long_def s = Some (d, rest)"
  shows "length rest \<le> length s"
proof -
  obtain a s1 b s2 c s3 where n: "next_line s = Some (a, s1)" "next_line s1 = Some (b, s2)" "next_line s2 = Some (c, s3)"
    using assms by (auto simp: long_def_def bind_eq_Some_conv)
  let ?s4 = "snd (read_section [] s3)"
  have "rest = snd (read_section [] (snd (read_section [] ?s4)))"
    using assms n by (auto simp: long_def_def case_prod_beta)
  then have "length rest \<le> length s3"
    using read_section_not_longer [of "[]" s3] read_section_not_longer [of "[]" ?s4]
      read_section_not_longer [of "[]" "snd (read_section [] ?s4)"] by simp
  then show ?thesis using next_line_shorter [OF n(1)] next_line_shorter [OF n(2)] next_line_shorter [OF n(3)] by simp
qed

lemma short_def_shorter: "short_def s = Inr (Some (d, rest)) \<Longrightarrow> length rest \<le> length s"
  by (auto simp: short_def_def bind_eq_Some_conv res_simps case_prod_beta dest!: next_line_shorter split: option.split_asm)

lemma short_def_fault: "short_def s = Inl e \<Longrightarrow> e = OutOfRange"
  by (auto simp: short_def_def inside_parens_def check_def Let_def res_bind_def split: option.split_asm prod.split_asm if_split_asm sum.split_asm)


text \<open>The definitions of a file.\<close>

primrec read_defs :: "nat \<Rightarrow> string \<Rightarrow> func_def list res" where
  "read_defs 0 s = Inl LoopBound"
| "read_defs (Suc n) s =
     (case find_start [] s of (flag, s) \<Rightarrow>
        if flag \<noteq> ''STARTDEF'' \<and> flag \<noteq> ''START_SHORT_DEFINE'' then Inr []
        else res_bind (if flag = ''STARTDEF'' then Inr (long_def s) else short_def s) (\<lambda>d. case d of
          None \<Rightarrow> Inr []
        | Some (d, s) \<Rightarrow> res_bind (read_defs n s) (\<lambda>ds. Inr (d # ds))))"

text \<open>Every round of the main loop consumes a line: the bound is not used up.\<close>

lemma read_defs_ends:
  assumes "length s < n"
  shows "read_defs n s \<noteq> Inl LoopBound"
  using assms
proof (induction n arbitrary: s)
  case (Suc n)
  obtain flag r where fs: "find_start [] s = (flag, r)" by fastforce
  show ?case
  proof (cases "flag = ''STARTDEF'' \<or> flag = ''START_SHORT_DEFINE''")
    case False
    then show ?thesis using fs by simp
  next
    case True
    then have r: "length r < n" using find_start_shorter [OF fs] Suc.prems by simp
    let ?m = "if flag = ''STARTDEF'' then Inr (long_def r) else short_def r"
    have "?m = Inl e \<Longrightarrow> e = OutOfRange" for e using short_def_fault by (auto split: if_split_asm)
    moreover have "read_defs n r' \<noteq> Inl LoopBound" if "?m = Inr (Some (d, r'))" for d r'
      using that long_def_shorter short_def_shorter r by (intro Suc.IH) (fastforce split: if_split_asm)
    ultimately show ?thesis using fs True
      by (cases ?m) (auto simp: res_bind_def split: option.split prod.split sum.split)
  qed
qed simp

text \<open>What is written is the filled template and the type of every definition, in order.\<close>

lemma convert_loop_writes:
  assumes "read_defs n s = Inr ds" and "\<forall>d \<in> set ds. print_func ps d = Some (code d)"
  shows "convert_loop ps n s a b = Inr (a @ concat (map code ds), b @ concat (map type_line ds))"
  using assms
proof (induction n arbitrary: s ds a b)
  case (Suc n)
  obtain flag r where fs: "find_start [] s = (flag, r)" by fastforce
  let ?m = "if flag = ''STARTDEF'' then Inr (long_def r) else short_def r"
  show ?case
  proof (cases "flag = ''STARTDEF'' \<or> flag = ''START_SHORT_DEFINE''")
    case False
    then show ?thesis using fs Suc.prems(1) by auto
  next
    case True
    then obtain x where x: "?m = Inr x" using fs Suc.prems(1) by (cases ?m) (auto split: if_split_asm)
    show ?thesis
    proof (cases x)
      case None
      then show ?thesis using fs True x Suc.prems(1) by auto
    next
      case (Some y)
      obtain d r' where y: "y = (d, r')" by fastforce
      obtain ds' where ds: "read_defs n r' = Inr ds'" "ds = d # ds'"
        using fs True x Some y Suc.prems(1) by (auto simp: res_simps split: if_split_asm)
      have "convert_loop ps n r' (a @ code d) (b @ type_line d) =
          Inr ((a @ code d) @ concat (map code ds'), (b @ type_line d) @ concat (map type_line ds'))"
        using Suc.IH [OF ds(1)] Suc.prems(2) ds(2) by simp
      then show ?thesis using fs True x Some y ds Suc.prems(2) by (auto split: if_split_asm)
    qed
  qed
qed simp


text \<open>The templates are read whole, however long their lines are.\<close>

lemma fgets_splits: "fgets_1024 s = Some (l, rest) \<Longrightarrow> l @ rest = s"
  by (auto simp: fgets_1024_def Let_def split: if_split_asm)

lemma read_file_whole: "read_file s = s"
proof (induction s rule: read_file.induct)
  case (1 s)
  show ?case
  proof (cases "fgets_1024 s")
    case None
    then show ?thesis by (auto simp: read_file.simps [of s] fgets_1024_def Let_def split: if_split_asm)
  next
    case (Some x)
    obtain l r where x: "x = (l, r)" by fastforce
    then show ?thesis using 1 [OF Some x [symmetric]] Some fgets_splits [of s l r] by (simp add: read_file.simps [of s])
  qed
qed

section \<open>Reading definitions back\<close>

text \<open>A line the reader returns as it is.\<close>

definition clean_line :: "string \<Rightarrow> bool" where
  "clean_line l \<longleftrightarrow> l \<noteq> [] \<and> CHR 0x0A \<notin> set l \<and> \<not> white (last l) \<and> length l < 1023"

lemma find_newline: "CHR 0x0A \<notin> set l \<Longrightarrow> find_pat [CHR 0x0A] (l @ CHR 0x0A # rest) = Some (length l)"
  by (induction l) auto

lemma trim_clean: "l \<noteq> [] \<Longrightarrow> \<not> white (last l) \<Longrightarrow> trim_end (l @ [CHR 0x0A]) = l"
  by (cases l rule: rev_cases) (simp_all add: trim_end_def white_def)

lemma read_line_clean:
  assumes "clean_line l"
  shows "read_line ret (l @ CHR 0x0A # rest) = (True, l, rest)"
proof -
  have "min 1023 (length l + 1) = Suc (length l)" using assms by (simp add: clean_line_def)
  then have "fgets_1024 (l @ CHR 0x0A # rest) = Some (l @ [CHR 0x0A], rest)"
    using assms find_newline [of l rest] by (simp add: fgets_1024_def clean_line_def Let_def)
  then show ?thesis using assms trim_clean [of l] by (simp add: read_line.simps [of ret] clean_line_def)
qed

lemma next_line_clean: "clean_line l \<Longrightarrow> next_line (l @ CHR 0x0A # rest) = Some (l, rest)"
  by (simp add: next_line_def read_line_clean)

lemma inside_parens_args: "inside_parens (CHR ''('' # st @ '')'') = Inr st"
  by (simp add: inside_parens_def Let_def)

text \<open>A function in the short form, as the list of functions has it, and the definition it stands for.\<close>

record proto =
  pr_lib :: string
  pr_ret :: string
  pr_name :: string
  pr_params :: "(string \<times> string) list"

definition pr_args :: "proto \<Rightarrow> string" where
  "pr_args p = join_args (map (\<lambda>(ty, nm). ty @ nm) (pr_params p))"

definition short_text :: "proto \<Rightarrow> string" where
  "short_text p = ''START_SHORT_DEFINE'' @ CHR 0x0A # pr_lib p @ CHR 0x0A # pr_ret p @ CHR 0x0A # pr_name p @ CHR 0x0A #
     (CHR ''('' # pr_args p @ '')'') @ CHR 0x0A # ''END_SHORT_DEFINE'' @ [CHR 0x0A]"

definition proto_def :: "proto \<Rightarrow> func_def" where
  "proto_def p = \<lparr>fd_ret_type = pr_ret p, fd_name = pr_name p, fd_args_with_name = pr_args p,
     fd_args_without_name = join_args (map fst (pr_params p)), fd_args_only_name = join_args (map snd (pr_params p)),
     fd_lib_path = pr_lib p\<rparr>"

definition proto_ok :: "proto \<Rightarrow> bool" where
  "proto_ok p \<longleftrightarrow> clean_line (pr_lib p) \<and> clean_line (pr_ret p) \<and> clean_line (pr_name p) \<and>
     clean_line (CHR ''('' # pr_args p @ '')'') \<and> list_all (\<lambda>(ty, nm). type_text ty \<and> name_text nm) (pr_params p)"

lemma short_def_text:
  assumes "proto_ok p"
  shows "short_def (pr_lib p @ CHR 0x0A # pr_ret p @ CHR 0x0A # pr_name p @ CHR 0x0A # (CHR ''('' # pr_args p @ '')'') @ CHR 0x0A # rest) =
    Inr (Some (proto_def p, rest))"
proof -
  have c: "clean_line (pr_lib p)" "clean_line (pr_ret p)" "clean_line (pr_name p)" "clean_line (CHR ''('' # pr_args p @ '')'')"
    and l: "list_all (\<lambda>(ty, nm). type_text ty \<and> name_text nm) (pr_params p)" using assms by (simp_all add: proto_ok_def)
  have "inside_parens (CHR ''('' # pr_args p @ '')'') = Inr (pr_args p)" by (rule inside_parens_args)
  moreover have "split_args (pr_args p) [] [] = (join_args (map snd (pr_params p)), join_args (map fst (pr_params p)))"
    using split_params [OF l, of "[]" "[]"] by (simp add: pr_args_def)
  ultimately show ?thesis
    unfolding short_def_def next_line_clean [OF c(1)] next_line_clean [OF c(2)] next_line_clean [OF c(3)] next_line_clean [OF c(4)]
      bind.bind_lunit prod.case option.case by (simp add: proto_def_def)
qed

text \<open>A line that does not start a definition, such as the end of the one before, is passed over.\<close>

lemma find_start_line:
  assumes "clean_line l" and "flag \<noteq> ''STARTDEF''" and "flag \<noteq> ''START_SHORT_DEFINE''"
  shows "find_start flag (l @ CHR 0x0A # rest) = find_start l rest"
  using assms read_line_clean [OF assms(1), of flag rest] by (simp add: find_start.simps [of flag])

lemma clean_marks: "clean_line ''START_SHORT_DEFINE''" "clean_line ''END_SHORT_DEFINE''"
  by (simp_all add: clean_line_def white_def)

lemma find_start_end: "find_start flag [] = (flag, [])"
  by (simp add: find_start.simps [of flag] read_line.simps [of flag] fgets_1024_def)

lemma find_start_found: "find_start ''START_SHORT_DEFINE'' s = (''START_SHORT_DEFINE'', s)"
  by (simp add: find_start.simps)

lemma read_defs_short:
  assumes "list_all proto_ok ps" and "length ps < n" and "pre = [] \<or> pre = ''END_SHORT_DEFINE'' @ [CHR 0x0A]"
  shows "read_defs n (pre @ concat (map short_text ps)) = Inr (map proto_def ps)"
  using assms
proof (induction ps arbitrary: n pre)
  case Nil
  then show ?case
    using find_start_line [OF clean_marks(2), of "[]" "[]"] by (cases n) (auto simp: find_start_end)
next
  case (Cons p ps)
  obtain m where m: "n = Suc m" "length ps < m" using Cons.prems(2) by (cases n) auto
  have p: "proto_ok p" using Cons.prems(1) by simp
  let ?rest = "(''END_SHORT_DEFINE'' @ [CHR 0x0A]) @ concat (map short_text ps)"
  let ?body = "pr_lib p @ CHR 0x0A # pr_ret p @ CHR 0x0A # pr_name p @ CHR 0x0A # (CHR ''('' # pr_args p @ '')'') @ CHR 0x0A # ?rest"
  have t: "concat (map short_text (p # ps)) = ''START_SHORT_DEFINE'' @ CHR 0x0A # ?body" by (simp add: short_text_def)
  have start: "find_start flag (''START_SHORT_DEFINE'' @ CHR 0x0A # x) = (''START_SHORT_DEFINE'', x)"
    if "flag \<in> {[], ''END_SHORT_DEFINE''}" for flag x
    using that find_start_line [OF clean_marks(1), of flag x] by (auto simp: find_start_found)
  have "find_start [] (pre @ concat (map short_text (p # ps))) = (''START_SHORT_DEFINE'', ?body)"
    using Cons.prems(3) start [of "[]" ?body] start [of "''END_SHORT_DEFINE''" ?body] find_start_line [OF clean_marks(2), of "[]"]
    unfolding t by auto
  then show ?case
    using Cons.IH [of m "''END_SHORT_DEFINE'' @ [CHR 0x0A]"] Cons.prems(1) m short_def_text [OF p, of ?rest] by simp
qed

end
