(* ===== verification/Intercept.thy ===== *)
theory Intercept
  imports Hooks Rdtsc CodeGen
begin

text \<open>
  The interception library \<open>interpose.so\<close> (\<open>dync_hook/\<close>): the wrappers that take the place of the
  functions of the C library in the program, generated from the templates
  \<open>func_template.cpp\<close>, \<open>always_check_func_template.cpp\<close>, \<open>void_func_template.cpp\<close> and
  \<open>var_arg_template.cpp\<close>; the address of the caller (\<open>get_eip\<close> of \<open>hook.cpp\<close>); and the start of
  the program (\<open>spec_hooks.cpp\<close>). A wrapper finds the original function with the dynamic
  loader, and calls the hook of the runtime when the application calls it in DMT mode,
  the original function otherwise.

  The dynamic loader, the return addresses on the stack, what an uninitialized array holds and
  the time stamp counter are arguments. The hook is an argument of the templates as the name
  \<open>tern_FUNC_NAME\<close> is; when it waits for the turn, the end of the wrapper
  (\<open>template_end\<close>) runs when it is done.
\<close>

section \<open>The dynamic loader\<close>

text \<open>Which libraries open, and the address of a symbol (\<open>None\<close>: \<open>dlerror\<close> reports an error).\<close>

record loader =
  ld_opens :: "string \<Rightarrow> bool"
  ld_sym :: "string \<Rightarrow> syncfunc \<Rightarrow> nat option"

text \<open>The state of the library: the static \<open>orig_func\<close> of each wrapper (\<open>0\<close> is \<open>NULL\<close>) and the recorder.\<close>

record interposer =
  orig_of :: "syncfunc \<Rightarrow> nat"
  ip_rdtsc :: rdtsc_state

definition lookup_orig :: "loader \<Rightarrow> string \<Rightarrow> syncfunc \<Rightarrow> nat res" where
  "lookup_orig ld lib f = check Aborted (ld_opens ld lib)
     (case ld_sym ld lib f of None \<Rightarrow> Inl Aborted | Some a \<Rightarrow> Inr a)"

text \<open>\<open>if (!orig_func) ...\<close>\<close>

definition resolve :: "loader \<Rightarrow> string \<Rightarrow> syncfunc \<Rightarrow> interposer \<Rightarrow> (nat \<times> interposer) res" where
  "resolve ld lib f ip =
     (if orig_of ip f \<noteq> 0 then Inr (orig_of ip f, ip)
      else res_bind (lookup_orig ld lib f) (\<lambda>a. Inr (a, ip\<lparr>orig_of := (orig_of ip)(f := a)\<rparr>)))"

section \<open>The address of the caller\<close>

text \<open>
  \<open>backtrace\<close> stores at most \<open>n\<close> return addresses; \<open>stack\<close> are those of the thread, \<open>old\<close> is what
  the array of five held before.
\<close>

definition trace_len :: nat where
  "trace_len = 5"

definition backtrace :: "64 word list \<Rightarrow> int \<Rightarrow> 64 word list \<Rightarrow> (nat \<times> 64 word list) res" where
  "backtrace stack n old =
     (let got = take (nat n) stack in
      check OutOfRange (length got \<le> trace_len) (Inr (length got, got @ drop (length got) old)))"

definition get_eip :: "options \<Rightarrow> 64 word list \<Rightarrow> 64 word list \<Rightarrow> (64 word) res" where
  "get_eip opt stack old =
     (if whole_stack_eip_signature opt
      then res_bind (backtrace stack (int trace_len) old) (\<lambda>(n, ptrs).
           Inr (fold (\<lambda>p ret. ret * 97 + p) (take n ptrs) 0))
      else let idx = backtrace_level opt + 2 in
           res_bind (backtrace stack (idx + 1) old) (\<lambda>(n, ptrs).
           let k = (if int n < idx then int n - 1 else idx) in
           check OutOfRange (0 \<le> k \<and> k < int trace_len) (Inr (ptrs ! nat k))))"

section \<open>The templates\<close>

text \<open>What a call finds: its thread's handle, its stack, the array, the counter at its start and end, whether the file of the recorder opens.\<close>

record call_env =
  ce_th :: pthread
  ce_stack :: "64 word list"
  ce_old :: "64 word list"
  ce_tsc_start :: "64 word"
  ce_tsc_end :: "64 word"
  ce_opens :: bool

definition call_eip :: "options \<Rightarrow> call_env \<Rightarrow> tid \<Rightarrow> rt \<Rightarrow> (64 word \<times> rt) res" where
  "call_eip opt ce self r =
     (if dync_geteip opt
      then res_bind (enterSys opt self r) (\<lambda>r. res_bind (get_eip opt (ce_stack ce) (ce_old ce)) (\<lambda>eip.
           res_bind (exitSys opt self r) (\<lambda>r. Inr (eip, r))))
      else Inr (0, r))"

definition stamp :: "options \<Rightarrow> call_env \<Rightarrow> syncfunc \<Rightarrow> string \<Rightarrow> 64 word \<Rightarrow> 64 word \<Rightarrow> interposer \<Rightarrow> interposer res" where
  "stamp opt ce f sfx tsc eip ip =
     res_bind (record_rdtsc_op opt (ce_opens ce) tsc (ce_th ce) f sfx 0 eip (ip_rdtsc ip)) (\<lambda>d.
     Inr (ip\<lparr>ip_rdtsc := d\<rparr>))"

text \<open>How the call went on: through the hook, with what the hook returned, or through the original function.\<close>

datatype 'o wrapped = ViaHook 'o "64 word" | ViaOrig int

definition call_orig :: "'w os \<Rightarrow> tid \<Rightarrow> nat \<Rightarrow> syncfunc \<Rightarrow> int list \<Rightarrow> rt \<times> 'w \<Rightarrow> (int \<times> rt \<times> 'w) res" where
  "call_orig os self a f args s = check NullDeref (a \<noteq> 0) (Inr (os_call os self f args s))"

text \<open>
  The part the templates share, after the original function is found; \<open>det\<close> is the condition on
  the options.
\<close>

definition template_body ::
  "options \<Rightarrow> 'w os \<Rightarrow> call_env \<Rightarrow> tid \<Rightarrow> syncfunc \<Rightarrow> int list \<Rightarrow> (u32 \<Rightarrow> rt \<Rightarrow> ('o \<times> rt) res) \<Rightarrow> bool \<Rightarrow> nat \<Rightarrow>
   rt \<times> 'w \<times> interposer \<Rightarrow> ('o wrapped \<times> rt \<times> 'w \<times> interposer) res" where
  "template_body opt os ce self f args hook det a = (\<lambda>(r, w, ip).
     if isApp self r
     then if det
       then res_bind (call_eip opt ce self r) (\<lambda>(eip, r).
            res_bind (stamp opt ce f ''START'' (ce_tsc_start ce) eip ip) (\<lambda>ip.
            res_bind (hook (ucast eip) r) (\<lambda>(out, r). Inr (ViaHook out eip, r, w, ip))))
       else res_bind (call_eip opt ce self r) (\<lambda>(eip, r).
            res_bind (stamp opt ce f ''START'' (ce_tsc_start ce) eip ip) (\<lambda>ip.
            res_bind (enterSys opt self r) (\<lambda>r.
            res_bind (call_orig os self a f args (r, w)) (\<lambda>(ret, r, w).
            res_bind (exitSys opt self r) (\<lambda>r.
            res_bind (stamp opt ce f ''END'' (ce_tsc_end ce) eip ip) (\<lambda>ip.
            Inr (ViaOrig ret, r, w, ip)))))))
     else res_bind (call_orig os self a f args (r, w)) (\<lambda>(ret, r, w). Inr (ViaOrig ret, r, w, ip)))"

text \<open>The wrapper after its hook is done.\<close>

definition template_end :: "options \<Rightarrow> call_env \<Rightarrow> syncfunc \<Rightarrow> 64 word \<Rightarrow> interposer \<Rightarrow> interposer res" where
  "template_end opt ce f eip ip = stamp opt ce f ''END'' (ce_tsc_end ce) eip ip"

definition det_mode :: "options \<Rightarrow> rt \<Rightarrow> bool" where
  "det_mode opt r \<longleftrightarrow> DMT opt \<and> \<not> (non_det_for_single_thread opt \<and> no_child_threads_created r)"

definition func_template ::
  "options \<Rightarrow> 'w os \<Rightarrow> loader \<Rightarrow> string \<Rightarrow> call_env \<Rightarrow> tid \<Rightarrow> syncfunc \<Rightarrow> int list \<Rightarrow> (u32 \<Rightarrow> rt \<Rightarrow> ('o \<times> rt) res) \<Rightarrow>
   rt \<times> 'w \<times> interposer \<Rightarrow> ('o wrapped \<times> rt \<times> 'w \<times> interposer) res" where
  "func_template opt os ld lib ce self f args hook = (\<lambda>(r, w, ip).
     res_bind (resolve ld lib f ip) (\<lambda>(a, ip).
     template_body opt os ce self f args hook (det_mode opt r) a (r, w, ip)))"

definition always_check_func_template ::
  "options \<Rightarrow> 'w os \<Rightarrow> loader \<Rightarrow> string \<Rightarrow> call_env \<Rightarrow> tid \<Rightarrow> syncfunc \<Rightarrow> int list \<Rightarrow> (u32 \<Rightarrow> rt \<Rightarrow> ('o \<times> rt) res) \<Rightarrow>
   rt \<times> 'w \<times> interposer \<Rightarrow> ('o wrapped \<times> rt \<times> 'w \<times> interposer) res" where
  "always_check_func_template opt os ld lib ce self f args hook = (\<lambda>(r, w, ip).
     res_bind (resolve ld lib f ip) (\<lambda>(a, ip).
     template_body opt os ce self f args hook (DMT opt) a (r, w, ip)))"

text \<open>The wrapper of a function without result looks the function up every time; what the original returns is dropped.\<close>

definition void_func_template ::
  "options \<Rightarrow> 'w os \<Rightarrow> loader \<Rightarrow> string \<Rightarrow> call_env \<Rightarrow> tid \<Rightarrow> syncfunc \<Rightarrow> int list \<Rightarrow> (u32 \<Rightarrow> rt \<Rightarrow> ('o \<times> rt) res) \<Rightarrow>
   rt \<times> 'w \<times> interposer \<Rightarrow> ('o wrapped \<times> rt \<times> 'w \<times> interposer) res" where
  "void_func_template opt os ld lib ce self f args hook = (\<lambda>(r, w, ip).
     res_bind (lookup_orig ld lib f) (\<lambda>a.
     template_body opt os ce self f args hook (det_mode opt r) a (r, w, ip)))"

definition LIBC :: string where
  "LIBC = ''/lib/x86_64-linux-gnu/libc.so.6''"

definition fcntl_wrapper ::
  "options \<Rightarrow> 'w os \<Rightarrow> loader \<Rightarrow> call_env \<Rightarrow> tid \<Rightarrow> int \<Rightarrow> int \<Rightarrow> int \<Rightarrow>
   rt \<times> 'w \<times> interposer \<Rightarrow> ((int \<times> io_step) wrapped \<times> rt \<times> 'w \<times> interposer) res" where
  "fcntl_wrapper opt os ld ce self fd cmd arg = (\<lambda>(r, w, ip).
     res_bind (resolve ld LIBC ''fcntl'' ip) (\<lambda>(a, ip).
     template_body opt os ce self ''fcntl'' [fd, cmd, arg] (\<lambda>ins. tern_fcntl opt self fd cmd arg) (det_mode opt r) a (r, w, ip)))"

section \<open>The start of the program\<close>

text \<open>
  \<open>__libc_start_main\<close>: the functions it is given are addresses. What it does is to hand
  on to the original function other functions for the initialization and for \<open>main\<close>, which find the
  saved ones in the state.
\<close>

datatype start_call = CallFunc nat | ProgBegin | ProgEnd

record start_state =
  saved_init_func :: nat
  saved_fini_func :: nat
  arg_main :: nat

definition tern_init_func :: "start_state \<Rightarrow> start_call list" where
  "tern_init_func s = (if saved_init_func s \<noteq> 0 then [CallFunc (saved_init_func s)] else []) @ [ProgBegin]"

definition tern_fini_func :: "start_state \<Rightarrow> start_call list" where
  "tern_fini_func s = ProgEnd # (if saved_fini_func s \<noteq> 0 then [CallFunc (saved_fini_func s)] else [])"

definition my_main :: "start_state \<Rightarrow> start_call list" where
  "my_main s = [CallFunc (arg_main s)]"

definition libc_path :: "string \<Rightarrow> string" where
  "libc_path dli_fname = dir_of dli_fname @ ''/libc.so.6''"

text \<open>
  The original function runs the initialization function, \<open>main\<close>, and, when the process exits, the
  two functions for its end.
\<close>

definition libc_start_main ::
  "loader \<Rightarrow> string \<Rightarrow> nat \<Rightarrow> nat \<Rightarrow> nat \<Rightarrow> nat \<Rightarrow> start_state \<Rightarrow> (start_call list \<times> start_state) res" where
  "libc_start_main ld dli_fname func_ptr init_func fini_func rtld_fini_func s =
     res_bind (lookup_orig ld (libc_path dli_fname) ''__libc_start_main'') (\<lambda>orig.
     check NullDeref (orig \<noteq> 0)
       (let s = s\<lparr>arg_main := func_ptr, saved_init_func := init_func, saved_fini_func := rtld_fini_func\<rparr> in
        Inr (tern_init_func s @ my_main s @ (if fini_func \<noteq> 0 then [CallFunc fini_func] else []) @
             (if rtld_fini_func \<noteq> 0 then [CallFunc rtld_fini_func] else []), s)))"


section \<open>Lookup\<close>

lemma resolve_cached:
  assumes "resolve ld lib f ip = Inr (a, ip')" and "a \<noteq> 0"
  shows "resolve ld' lib' f ip' = Inr (a, ip')"
  using assms by (auto simp: resolve_def res_simps split: if_splits)

lemma resolve_others:
  assumes "resolve ld lib f ip = Inr (a, ip')"
  shows "ip_rdtsc ip' = ip_rdtsc ip \<and> (\<forall>g. g \<noteq> f \<longrightarrow> orig_of ip' g = orig_of ip g) \<and> orig_of ip' f = a"
  using assms by (auto simp: resolve_def res_simps split: if_splits)

section \<open>The address of the caller\<close>

lemma backtrace_full:
  assumes "nat n = m" and "m \<le> length stack"
  shows "backtrace stack n old = check OutOfRange (m \<le> trace_len) (Inr (m, take m stack @ drop m old))"
  using assms by (simp add: backtrace_def Let_def)

lemma get_eip_frame:
  assumes "\<not> whole_stack_eip_signature opt" and "- 2 \<le> backtrace_level opt" and "backtrace_level opt \<le> 2"
    and "nat (backtrace_level opt + 2) < length stack" and "length old = trace_len"
  shows "get_eip opt stack old = Inr (stack ! nat (backtrace_level opt + 2))"
proof -
  let ?i = "nat (backtrace_level opt + 2)"
  have "backtrace stack (backtrace_level opt + 2 + 1) old = Inr (Suc ?i, take (Suc ?i) stack @ drop (Suc ?i) old)"
    using assms by (subst backtrace_full [of _ "Suc ?i"]) (simp_all add: trace_len_def check_def nat_le_iff)
  then show ?thesis
    using assms by (simp add: get_eip_def Let_def trace_len_def nth_append)
qed

text \<open>A stack exactly as deep as the level asks for makes it read what the array held before.\<close>

lemma get_eip_uninitialized:
  assumes "\<not> whole_stack_eip_signature opt" and "- 2 \<le> backtrace_level opt" and "backtrace_level opt \<le> 2"
    and "int (length stack) = backtrace_level opt + 2" and "length old = trace_len"
  shows "get_eip opt stack old = Inr (old ! length stack)"
proof -
  have "backtrace stack (backtrace_level opt + 2 + 1) old = Inr (length stack, stack @ drop (length stack) old)"
    using assms by (simp add: backtrace_def Let_def trace_len_def min_def)
  moreover have "nat (backtrace_level opt + 2) = length stack" using assms by simp
  ultimately show ?thesis
    using assms by (simp add: get_eip_def Let_def trace_len_def nth_append)
qed

text \<open>Levels outside of the five entries of the array read or write beyond it.\<close>

lemma get_eip_overflow:
  assumes "\<not> whole_stack_eip_signature opt"
  shows "backtrace_level opt \<ge> 3 \<Longrightarrow> length stack \<ge> 6 \<Longrightarrow> get_eip opt stack old = Inl OutOfRange"
    and "backtrace_level opt < - 2 \<Longrightarrow> get_eip opt stack old = Inl OutOfRange"
proof -
  assume "backtrace_level opt \<ge> 3" "length stack \<ge> 6"
  then have "\<not> length (take (nat (backtrace_level opt + 2 + 1)) stack) \<le> trace_len"
    by (simp add: trace_len_def min_def nat_le_iff)
  then show "get_eip opt stack old = Inl OutOfRange"
    using assms by (simp add: get_eip_def backtrace_def Let_def)
next
  assume "backtrace_level opt < - 2"
  then show "get_eip opt stack old = Inl OutOfRange"
    using assms by (simp add: get_eip_def backtrace_def Let_def)
qed

lemma get_eip_signature:
  assumes "whole_stack_eip_signature opt" and "length old = trace_len"
  shows "get_eip opt stack old = Inr (fold (\<lambda>p ret. ret * 97 + p) (take 5 stack) 0)"
  using assms by (auto simp: get_eip_def backtrace_def Let_def trace_len_def min_def)

section \<open>Wrappers\<close>

lemma cross_cross [simp]: "cross self (cross self r) = r"
  by (simp add: cross_def upd_tls_def)

lemma cross_errno_cross [simp]: "cross self (set_errno self e (cross self r)) = set_errno self e r"
  by (simp add: cross_def set_errno_def upd_tls_def)

lemma isApp_cross [simp]: "isApp self (cross self r) \<longleftrightarrow> \<not> isApp self r" "isSys self (cross self r) \<longleftrightarrow> isApp self r"
  by (simp_all add: isApp_def isSys_def cross_def upd_tls_def)

lemma isApp_errno [simp]: "isApp self (set_errno self e r) \<longleftrightarrow> isApp self r" "isSys self (set_errno self e r) \<longleftrightarrow> isSys self r"
  by (simp_all add: isApp_def isSys_def set_errno_def upd_tls_def)

text \<open>Finding the address of the caller leaves the runtime as it was.\<close>

lemma call_eip_id:
  assumes "isApp self r" and "dync_geteip opt \<longrightarrow> get_eip opt (ce_stack ce) (ce_old ce) = Inr e"
  shows "call_eip opt ce self r = Inr (if dync_geteip opt then e else 0, r)"
  using assms by (simp add: call_eip_def enterSys_def exitSys_def)

text \<open>The system call in the middle of a wrapper, as the application sees it.\<close>

lemma call_in_sys:
  assumes "isApp self r" and "a \<noteq> 0"
  shows "res_bind (enterSys opt self r) (\<lambda>r. res_bind (call_orig os self a f args (r, w)) (\<lambda>(ret, r, w).
           res_bind (exitSys opt self r) (\<lambda>r. k ret r w)))
       = (case os_call os self f args (r, w) of (ret, r', w') \<Rightarrow> k ret r' w')"
proof -
  have e: "errno (tls_of (cross self r) self) = errno (tls_of r self)" by (simp add: cross_def upd_tls_def)
  obtain ret e w' where "os f args (errno (tls_of r self)) w = ((ret, e), w')" by (metis surj_pair)
  then show ?thesis
    using assms by (simp add: enterSys_def exitSys_def call_orig_def os_call_def e)
qed

lemma stamp_ok:
  assumes "rdtsc_ok (ip_rdtsc ip)" and "ce_opens ce"
  obtains ip' where "stamp opt ce f x tsc eip ip = Inr ip'" "rdtsc_ok (ip_rdtsc ip')" "orig_of ip' = orig_of ip"
    "printed (ip_rdtsc ip') = printed (ip_rdtsc ip) @
       (if record_rdtsc opt then entry_line (new_entry (ce_th ce) f x 0 tsc eip) else [])"
proof (cases "record_rdtsc opt")
  case True
  obtain t where "record_rdtsc_op opt (ce_opens ce) tsc (ce_th ce) f x 0 eip (ip_rdtsc ip) = Inr t" "rdtsc_ok t"
    "printed t = printed (ip_rdtsc ip) @ entry_line (new_entry (ce_th ce) f x 0 tsc eip)"
    using record_rdtsc_op_keeps [OF assms True, of 0] by (metis order_refl zero_less_numeral)
  then show thesis using True by (intro that [of "ip\<lparr>ip_rdtsc := t\<rparr>"]) (simp_all add: stamp_def)
next
  case False
  then show thesis using assms by (intro that [of ip]) (simp_all add: stamp_def rdtsc_off)
qed

text \<open>
  A call from the application that is not sent to the runtime is the call of the original
  function, in the system space, between two time stamps.
\<close>

lemma body_orig:
  assumes app: "isApp self r" and a: "a \<noteq> 0" and eip: "dync_geteip opt \<longrightarrow> get_eip opt (ce_stack ce) (ce_old ce) = Inr e"
    and ok: "rdtsc_ok (ip_rdtsc ip)" and opens: "ce_opens ce" and call: "os_call os self f args (r, w) = (ret, r', w')"
  obtains ip' where "template_body opt os ce self f args hook False a (r, w, ip) = Inr (ViaOrig ret, r', w', ip')"
    "rdtsc_ok (ip_rdtsc ip')" "orig_of ip' = orig_of ip"
    "printed (ip_rdtsc ip') = printed (ip_rdtsc ip) @ (if record_rdtsc opt then
       entry_line (new_entry (ce_th ce) f ''START'' 0 (ce_tsc_start ce) (if dync_geteip opt then e else 0)) @
       entry_line (new_entry (ce_th ce) f ''END'' 0 (ce_tsc_end ce) (if dync_geteip opt then e else 0)) else [])"
proof -
  let ?e = "if dync_geteip opt then e else 0"
  obtain ip1 where ip1: "stamp opt ce f ''START'' (ce_tsc_start ce) ?e ip = Inr ip1" "rdtsc_ok (ip_rdtsc ip1)" "orig_of ip1 = orig_of ip"
    "printed (ip_rdtsc ip1) = printed (ip_rdtsc ip) @ (if record_rdtsc opt then entry_line (new_entry (ce_th ce) f ''START'' 0 (ce_tsc_start ce) ?e) else [])"
    using stamp_ok [OF ok opens] by metis
  obtain ip2 where ip2: "stamp opt ce f ''END'' (ce_tsc_end ce) ?e ip1 = Inr ip2" "rdtsc_ok (ip_rdtsc ip2)" "orig_of ip2 = orig_of ip1"
    "printed (ip_rdtsc ip2) = printed (ip_rdtsc ip1) @ (if record_rdtsc opt then entry_line (new_entry (ce_th ce) f ''END'' 0 (ce_tsc_end ce) ?e) else [])"
    using stamp_ok [OF ip1(2) opens] by metis
  have "template_body opt os ce self f args hook False a (r, w, ip) = Inr (ViaOrig ret, r', w', ip2)"
    by (simp add: template_body_def app call_eip_id [OF app eip] ip1(1) call_in_sys [OF app a] call ip2(1))
  then show thesis using ip1 ip2 by (intro that [of ip2]) simp_all
qed

lemma body_hook:
  assumes app: "isApp self r" and eip: "dync_geteip opt \<longrightarrow> get_eip opt (ce_stack ce) (ce_old ce) = Inr e"
    and ok: "rdtsc_ok (ip_rdtsc ip)" and opens: "ce_opens ce"
  obtains ip' where "template_body opt os ce self f args hook True a (r, w, ip) =
      res_bind (hook (if dync_geteip opt then ucast e else 0) r) (\<lambda>(out, r'). Inr (ViaHook out (if dync_geteip opt then e else 0), r', w, ip'))"
    "rdtsc_ok (ip_rdtsc ip')" "orig_of ip' = orig_of ip"
    "printed (ip_rdtsc ip') = printed (ip_rdtsc ip) @ (if record_rdtsc opt then
       entry_line (new_entry (ce_th ce) f ''START'' 0 (ce_tsc_start ce) (if dync_geteip opt then e else 0)) else [])"
proof -
  let ?e = "if dync_geteip opt then e else 0"
  obtain ip1 where ip1: "stamp opt ce f ''START'' (ce_tsc_start ce) ?e ip = Inr ip1" "rdtsc_ok (ip_rdtsc ip1)" "orig_of ip1 = orig_of ip"
    "printed (ip_rdtsc ip1) = printed (ip_rdtsc ip) @ (if record_rdtsc opt then entry_line (new_entry (ce_th ce) f ''START'' 0 (ce_tsc_start ce) ?e) else [])"
    using stamp_ok [OF ok opens] by metis
  have "template_body opt os ce self f args hook True a (r, w, ip) =
      res_bind (hook (if dync_geteip opt then ucast e else 0) r) (\<lambda>(out, r'). Inr (ViaHook out ?e, r', w, ip1))"
    by (simp add: template_body_def app call_eip_id [OF app eip] ip1(1) if_distrib [of hook] if_distrib [of ucast])
  then show thesis using ip1 by (intro that [of ip1])
qed

text \<open>A call the runtime makes itself goes straight to the original function and leaves no time stamps.\<close>

lemma body_sys:
  assumes "\<not> isApp self r" and "a \<noteq> 0"
  shows "template_body opt os ce self f args hook det a (r, w, ip) =
    (case os_call os self f args (r, w) of (ret, r', w') \<Rightarrow> Inr (ViaOrig ret, r', w', ip))"
  using assms by (auto simp: template_body_def call_orig_def split: prod.split)

section \<open>The start of the program\<close>

text \<open>The runtime is started after the program's own initialization and before its \<open>main\<close>.\<close>

lemma start_order:
  assumes "lookup_orig ld (libc_path lib) ''__libc_start_main'' = Inr a" and "a \<noteq> 0"
  shows "\<exists>s'. libc_start_main ld lib main init fini rtld s =
    Inr ((if init \<noteq> 0 then [CallFunc init] else []) @ [ProgBegin, CallFunc main] @
         (if fini \<noteq> 0 then [CallFunc fini] else []) @ (if rtld \<noteq> 0 then [CallFunc rtld] else []), s')"
  using assms by (simp add: libc_start_main_def tern_init_func_def my_main_def Let_def)

end
