(* ===== verification/Startup.thy ===== *)
theory Startup
  imports Helper Setup Intercept
begin

text \<open>
  Starting and ending, put together: how the function and the argument of a new thread reach it
  (\<open>__tern_pthread_create\<close> and \<open>__tern_thread_func\<close> of \<open>lib/runtime/helper.cpp\<close>), the whole of
  \<open>__tern_prog_begin\<close> with the options and the runtime it installs, the process from
  \<open>__libc_start_main\<close> to the handler that \<open>atexit\<close> registers, and the hook of \<open>exit\<close>. The options
  that are read are an argument (their reader is generated), as is the handler list of the C library.
\<close>

section \<open>The arguments of a new thread\<close>

text \<open>The blocks of two pointers that \<open>new\<close> has returned and \<open>delete[]\<close> has not taken back.\<close>

record arg_heap =
  blocks :: "nat \<Rightarrow> (func \<times> int) option"
  next_block :: nat

definition new_args :: "func \<Rightarrow> int \<Rightarrow> arg_heap \<Rightarrow> nat \<times> arg_heap" where
  "new_args f arg h = (next_block h, h\<lparr>blocks := (blocks h)(next_block h \<mapsto> (f, arg)), next_block := next_block h + 1\<rparr>)"

definition delete_args :: "nat \<Rightarrow> arg_heap \<Rightarrow> arg_heap res" where
  "delete_args a h = check DanglingDeref (blocks h a \<noteq> None) (Inr (h\<lparr>blocks := (blocks h)(a := None)\<rparr>))"

text \<open>\<open>create\<close> is \<open>Runtime::__pthread_create\<close> with the argument for the new thread.\<close>

definition tern_create_thread :: "(nat \<Rightarrow> 's \<Rightarrow> (int \<times> 's) res) \<Rightarrow> func \<Rightarrow> int \<Rightarrow> arg_heap \<times> 's \<Rightarrow> (int \<times> arg_heap \<times> 's) res" where
  "tern_create_thread create f arg = (\<lambda>(h, s).
     let (a, h) = new_args f arg h in
     res_bind (create a s) (\<lambda>(ret, s).
     if ret < 0 then res_bind (delete_args a h) (\<lambda>h. Inr (ret, h, s)) else Inr (ret, h, s)))"

text \<open>What \<open>__tern_thread_func\<close> does with its argument before it calls \<open>tern_thread_begin\<close>.\<close>

definition take_args :: "nat \<Rightarrow> arg_heap \<Rightarrow> ((func \<times> int) \<times> arg_heap) res" where
  "take_args a h = (case blocks h a of
     None \<Rightarrow> Inl DanglingDeref
   | Some fa \<Rightarrow> res_bind (delete_args a h) (\<lambda>h. Inr (fa, h)))"

text \<open>The new thread finds its function and argument, whatever other blocks come and go, and nothing is left behind.\<close>

lemma args_arrive:
  assumes "create (next_block h) s = Inr (0, s')" and "blocks h (next_block h) = None"
  shows "\<exists>h'. tern_create_thread create f arg (h, s) = Inr (0, h', s') \<and>
    (\<exists>h''. take_args (next_block h) h' = Inr ((f, arg), h'') \<and> blocks h'' = blocks h)"
  using assms by (auto simp: tern_create_thread_def new_args_def take_args_def delete_args_def fun_eq_iff)

lemma args_other:
  assumes "take_args a h = Inr (fa, h')" and "b \<noteq> a"
  shows "take_args b h' = map_sum id (\<lambda>(x, k). (x, k\<lparr>blocks := (blocks k)(a := None)\<rparr>)) (take_args b h)"
  using assms by (auto simp: take_args_def delete_args_def fun_upd_twist split: option.splits)

text \<open>\<open>pthread_create\<close> reports errors as positive numbers: the block of a thread that was not created stays.\<close>

lemma args_leak:
  assumes "create (next_block h) s = Inr (e, s')" and "e > 0"
  shows "\<exists>h'. tern_create_thread create f arg (h, s) = Inr (e, h', s') \<and> blocks h' (next_block h) = Some (f, arg)"
  using assms by (simp add: tern_create_thread_def new_args_def)

section \<open>The start of the process\<close>

text \<open>
  \<open>__tern_prog_begin\<close>: the assertion, the options as read, the runtime with its file of delays, the
  handler, and the calls of \<open>prog_begin\<close>. The warnings of the installation come before the calls.
\<close>

definition prog_begin_all ::
  "nat \<Rightarrow> int \<Rightarrow> u32 \<Rightarrow> string option \<Rightarrow> options \<Rightarrow> (int \<Rightarrow> u32 option) \<Rightarrow> pthread \<Rightarrow> idle_objects \<Rightarrow> helper \<Rightarrow>
   (string list \<times> action list \<times> options \<times> (int \<Rightarrow> u32 option) \<times> helper) res" where
  "prog_begin_all fuel i j file opt table self_th ob h = assert_then opt (\<not> prog_began h)
     (res_bind (InstallRuntime fuel i j file opt table) (\<lambda>(opt', table, warnings).
      res_bind (prog_begin opt' self_th ob h) (\<lambda>(as, h). Inr (warnings, as, opt', table, h))))"

lemma prog_begin_cong:
  "prog_begin (opt\<lparr>enforce_delays := b\<rparr>) th ob h = prog_begin opt th ob h"
  by (simp add: prog_begin_def assert_then_def)

text \<open>
  The options that decide about the calls and the spaces are not touched by the installation; so with delays off, or a
  file of delays written from a table, the process gets to the application space.
\<close>

lemma prog_begin_all_runs:
  assumes "\<not> prog_began h" and "InstallRuntime fuel i j file opt table = Inr (opt', table', ws)"
  shows "\<exists>as h'. prog_begin_all fuel i j file opt table th ob h = Inr (ws, as, opt', table', h') \<and> prog_began h' \<and>
    prog_begin opt th ob h = Inr (as, h') \<and> spaces opt as False = Inr True"
proof -
  have "opt' = opt \<or> opt' = opt\<lparr>enforce_delays := False\<rparr>"
    using assms(2) by (auto simp: InstallRuntime_def res_simps split: if_splits)
  then have "prog_begin opt' th ob h = prog_begin opt th ob h" using prog_begin_cong by auto
  then show ?thesis
    using prog_begin_spaces [OF assms(1), of opt th ob] assms by (auto simp: prog_begin_all_def assert_then_def)
qed

lemma prog_begin_all_twice:
  assumes "prog_began h" and "\<not> ndebug opt"
  shows "prog_begin_all fuel i j file opt table th ob h = Inl AssertFailed"
  using assms by (simp add: prog_begin_all_def assert_then_def)

text \<open>
  The process: \<open>__libc_start_main\<close> runs the program's initialization, \<open>tern_init_func\<close> begins the
  program and so registers \<open>__tern_prog_end\<close>, \<open>main\<close> runs, and the handlers run when it
  returns, the last one registered first.
\<close>

datatype process_event = RunFunc nat | Hooks "action list"

definition event_of :: "action list \<Rightarrow> action list \<Rightarrow> start_call \<Rightarrow> process_event" where
  "event_of begin_calls end_calls c = (case c of
     CallFunc f \<Rightarrow> RunFunc f | ProgBegin \<Rightarrow> Hooks begin_calls | ProgEnd \<Rightarrow> Hooks end_calls)"

definition process ::
  "loader \<Rightarrow> string \<Rightarrow> nat \<Rightarrow> nat \<Rightarrow> options \<Rightarrow> pthread \<Rightarrow> idle_objects \<Rightarrow> helper \<Rightarrow> start_state \<Rightarrow> (process_event list \<times> helper) res" where
  "process ld dli_fname main init opt self_th ob h st =
     res_bind (libc_start_main ld dli_fname main init 0 0 st) (\<lambda>(calls, _).
     res_bind (prog_begin opt self_th ob h) (\<lambda>(as, h).
     res_bind (prog_end opt self_th ob h) (\<lambda>(bs, h).
     Inr (map (event_of as bs) calls @ [Hooks bs], h))))"

text \<open>
  \<open>main\<close> runs between the start and the end of the runtime, and over the whole process every
  assertion about spaces holds: the thread starts and ends in the system space and is in the
  application space while \<open>main\<close> runs.
\<close>

lemma process_runs:
  assumes "lookup_orig ld (libc_path lib) ''__libc_start_main'' = Inr a" and "a \<noteq> 0"
    and "\<not> prog_began h" and "th \<noteq> o_idle_th ob"
  obtains as bs h' where
    "process ld lib main init opt th ob h st =
       Inr ((if init \<noteq> 0 then [RunFunc init] else []) @ [Hooks as, RunFunc main, Hooks bs], h')"
    "spaces opt as False = Inr True" "spaces opt bs True = Inr False" "\<not> prog_began h'" "idle_done h'"
proof -
  obtain st' where calls: "libc_start_main ld lib main init 0 0 st =
      Inr ((if init \<noteq> 0 then [CallFunc init] else []) @ [ProgBegin, CallFunc main], st')"
    using start_order [OF assms(1,2), of main init 0 0 st] by auto
  obtain as h1 where b: "prog_begin opt th ob h = Inr (as, h1)" "prog_began h1" "spaces opt as False = Inr True"
    using prog_begin_spaces [OF assms(3)] by blast
  obtain bs h2 where e: "prog_end opt th ob h1 = Inr (bs, h2)" "\<not> prog_began h2" "idle_done h2" "spaces opt bs True = Inr False"
    using prog_end_spaces [OF b(2) assms(4)] by blast
  have "process ld lib main init opt th ob h st = Inr ((if init \<noteq> 0 then [RunFunc init] else []) @ [Hooks as, RunFunc main, Hooks bs], h2)"
    using calls b(1) e(1) by (simp add: process_def event_of_def)
  then show thesis by (rule that) (fact b(3) e(4,2,3))+
qed

section \<open>The hook of exit\<close>

text \<open>It asserts that it is never called; without assertions it ends the thread, the program and the process.\<close>

definition tern_exit :: "options \<Rightarrow> tid \<Rightarrow> u32 \<Rightarrow> rt \<Rightarrow> thread_out" where
  "tern_exit opt self ins r = assert_then opt False (tern_thread_end opt self ins r)"

definition tern_exit_end :: "options \<Rightarrow> tid \<Rightarrow> nat \<Rightarrow> thread_pc outcome \<times> rt \<Rightarrow> thread_out" where
  "tern_exit_end opt self status = (\<lambda>(out, r). case out of
     Done _ _ \<Rightarrow> res_bind (tern_prog_end opt self r) (\<lambda>r. assert_then opt (isSys self r) (Inl (ExitProcess status)))
   | _ \<Rightarrow> Inr (out, r))"

lemma tern_exit_stops:
  shows "\<not> ndebug opt \<Longrightarrow> tern_exit opt u ins r = Inl AssertFailed"
    and "ndebug opt \<Longrightarrow> tern_exit_end opt u status (Done x e, r) = Inl (ExitProcess status)"
  by (simp_all add: tern_exit_def tern_exit_end_def tern_prog_end_def assert_then_def)

end
