(* ===== verification/SchedRandom.thy ===== *)
theory SchedRandom
  imports Prelude
begin

text \<open>
  The pseudo-random numbers of \<open>include/tern/runtime/record-scheduler.h\<close>: a linear congruential
  generator on an \<open>unsigned long\<close>. \<open>randmax + 1\<close> is computed as an \<open>int\<close> and converted to
  \<open>unsigned\<close>; the bound \<open>-1\<close> makes it zero. Nothing in the runtime uses it.
\<close>

type_synonym random = "64 word"

definition random_new :: random where
  "random_new = 1"

definition random_srand :: "u32 \<Rightarrow> random" where
  "random_srand seed = ucast seed"

definition random_rand :: "int \<Rightarrow> random \<Rightarrow> (int \<times> random) res" where
  "random_rand randmax r =
     (let r = r * 1103515245 + 12345; n = (word_of_int (randmax + 1) :: u32) in
      check DivisionByZero (n \<noteq> 0) (Inr (sint ((ucast (r div 65536) :: u32) mod n), r)))"

text \<open>For every bound from \<open>0\<close> whose successor is an \<open>int\<close> the number lies within it.\<close>

lemma random_rand_bounds:
  assumes "0 \<le> randmax" and "randmax < 2 ^ 31 - 1"
  shows "\<exists>v r'. random_rand randmax r = Inr (v, r') \<and> 0 \<le> v \<and> v \<le> randmax"
proof -
  define n where "n = (word_of_int (randmax + 1) :: u32)"
  define w where "w = (ucast ((r * 1103515245 + 12345) div 65536) :: u32)"
  have n: "uint n = randmax + 1" unfolding n_def using assms by (subst uint_word_of_int) simp
  then have "n \<noteq> 0" using assms by auto
  moreover have "uint (w mod n) = uint w mod (randmax + 1)" by (simp add: uint_mod n)
  then have u: "0 \<le> uint (w mod n)" "uint (w mod n) \<le> randmax" using assms pos_mod_bound [of "randmax + 1" "uint w"] by auto
  moreover have "sint (w mod n) = uint (w mod n)"
    unfolding sint_uint by (rule signed_take_bit_int_eq_self, rule order_trans [OF _ u(1)]) (use u(2) assms(2) in simp_all)
  ultimately show ?thesis unfolding random_rand_def Let_def n_def [symmetric] w_def [symmetric] by auto
qed

lemma random_rand_zero: "random_rand (- 1) r = Inl DivisionByZero"
  by (simp add: random_rand_def Let_def)

text \<open>The sequence is determined by the seed.\<close>

lemma random_after_srand: "random_rand randmax (random_srand seed) = random_rand randmax (ucast seed)"
  by (simp add: random_srand_def)

end
