(* ===== verification/CallProofs.thy ===== *)
theory CallProofs
  imports HookProofs Intercept
begin

text \<open>
  A whole call, from the program through the interception library, the hook and the runtime and
  back. Between its segments the calling thread stands still while the other threads run;
  \<open>lock_call\<close> strings the segments of a lock operation together, however often it has to wait. What
  is shown is that the call returns only with the lock, with the \<open>errno\<close> it was called with and in
  the space it was called from.
\<close>

section \<open>The other threads\<close>

definition others_step :: "options \<Rightarrow> tid \<Rightarrow> rt \<Rightarrow> rt \<Rightarrow> bool" where
  "others_step opt u r r' \<longleftrightarrow> (\<exists>v. v \<noteq> u \<and> (rt_step opt v r r' \<or> hook_step opt v r r'))"

lemma others_keep: "(others_step opt u)\<^sup>*\<^sup>* r r' \<Longrightarrow> tls_of r' u = tls_of r u"
  by (rule rt_private.others_run) (simp add: others_step_def [abs_def])

section \<open>Lock operations, over all their rounds\<close>

inductive lock_call :: "options \<Rightarrow> tid \<Rightarrow> lock_pc \<Rightarrow> rt \<Rightarrow> int \<Rightarrow> int \<Rightarrow> rt \<Rightarrow> bool" for opt u where
  returns: "resume_lock opt u pc r = Inr (Done ret e, r') \<Longrightarrow> lock_call opt u pc r ret e r'"
| waits: "resume_lock opt u pc r = Inr (Await pc', r1) \<Longrightarrow> (others_step opt u)\<^sup>*\<^sup>* r1 r2 \<Longrightarrow>
    lock_call opt u pc' r2 ret e r' \<Longrightarrow> lock_call opt u pc r ret e r'"

text \<open>The segments of a lock operation on \<open>l\<close> that was called with \<open>errno\<close> being \<open>error\<close>.\<close>

definition locking :: "lock_op \<Rightarrow> u32 \<Rightarrow> int \<Rightarrow> lockobj \<Rightarrow> tid \<Rightarrow> lock_pc \<Rightarrow> rt \<Rightarrow> bool" where
  "locking lop ins error l u pc r \<longleftrightarrow> pc = PLock lop ins error l \<or>
     (\<exists>n. pc = PRetry lop ins error l n) \<and> errno (tls_of r u) = error"

text \<open>The call of the program, handed to the hook with the address of the caller.\<close>

definition lock_entered :: "tid \<Rightarrow> vptr \<Rightarrow> 64 word \<Rightarrow> rt \<Rightarrow> lock_pc" where
  "lock_entered u mu eip r = PLock OpMutexLock (ucast eip) (errno (tls_of r u)) (LMutex mu)"

text \<open>Closing an operation touches neither the objects nor \<open>errno\<close>.\<close>

abbreviation seen :: "tid \<Rightarrow> rt \<Rightarrow> (vptr \<Rightarrow> mutex) \<times> int" where
  "seen u r \<equiv> (mutexes r, errno (tls_of r u))"

lemma on_sched_seen: "on_sched f r = Inr r' \<Longrightarrow> seen u r' = seen u r"
  by (auto simp: on_sched_def res_simps)

lemma sched_start_seen: "sched_start opt u r = Inr r' \<Longrightarrow> seen u r' = seen u r"
  by (auto simp: sched_start_def check_and_change_role_def res_simps upd_stat_def upd_tls_def split: if_splits)

lemma end_common_seen: "end_common opt u ins op args r = Inr r' \<Longrightarrow> seen u r' = seen u r"
  by (auto simp: end_common_def res_simps Let_def recordSync_def logSync_def upd_tls_def on_sched_def)

lemma strategy_seen: "seen u (snd (getPutTurnStrategy opt u op r)) = seen u r"
  by (auto simp: getPutTurnStrategy_def Let_def upd_tls_def)

lemma check_cv_seen: "check_cv_wait_cnt opt u r = Inr r' \<Longrightarrow> seen u r' = seen u r"
  by (auto simp: check_cv_wait_cnt_def res_simps upd_tls_def split: if_splits)

lemma sched_end_seen:
  assumes "sched_end opt u ins op args ret error r = Inr (out, r')"
  shows "seen u r' = seen u r"
proof -
  obtain r1 where r1: "end_common opt u ins op args r = Inr r1" using assms by (auto simp: sched_end_def res_simps)
  obtain k r2 where k: "getPutTurnStrategy opt u op r1 = (k, r2)" by (metis surj_pair)
  obtain r3 where r3: "on_sched (putTurn opt u (th_handle (tls_of r2 u)) False k) r2 = Inr r3"
    and r4: "check_cv_wait_cnt opt u (if slock_n_turns (tls_of r3 u) > 0
       then upd_tls u (\<lambda>t. t\<lparr>slock_n_turns := slock_n_turns t - 1\<rparr>) r3 else r3) = Inr r'"
    using assms r1 k by (auto simp: sched_end_def res_simps Let_def)
  have "seen u (if slock_n_turns (tls_of r3 u) > 0 then upd_tls u (\<lambda>t. t\<lparr>slock_n_turns := slock_n_turns t - 1\<rparr>) r3 else r3) = seen u r3"
    by (simp add: upd_tls_def)
  then show ?thesis
    using end_common_seen [OF r1] strategy_seen [of opt u op r1] on_sched_seen [OF r3, of u] check_cv_seen [OF r4] k by simp
qed

lemma lock_finish_seen:
  assumes "lock_finish opt u lop ins l ret r = Inr (out, r')"
  shows "seen u r' = seen u r" and "out = Done (if lop = OpMutexTimedLock then ret else 0) (errno (tls_of r u))"
proof -
  show "seen u r' = seen u r"
    using assms by (cases lop) (auto simp: lock_finish_def Let_def upd_tls_def dest!: sched_end_seen split: if_splits)
  show "out = Done (if lop = OpMutexTimedLock then ret else 0) (errno (tls_of r u))"
    using assms by (cases lop) (auto simp: lock_finish_def Let_def dest!: sched_end_result)
qed

lemma lock_try_seen:
  assumes "lock_try opt u (LMutex mu) n r = Inr (ret, r')"
  shows "errno (tls_of r' u) = errno (tls_of r u)" and "ret = Some v \<Longrightarrow> v = 0 \<and> m_owner (mutexes r' mu) = Some u"
proof -
  obtain x r1 where x: "try_acquire u (LMutex mu) r = (x, r1)" by (metis surj_pair)
  have r1: "tls_of r1 = tls_of r" using try_acquire_tls [of u "LMutex mu" r] x by simp
  show "errno (tls_of r' u) = errno (tls_of r u)"
    using assms x r1 by (auto simp: lock_try_def assert_then_def syncWait_def on_sched_def res_simps split: if_splits)
  show "v = 0 \<and> m_owner (mutexes r' mu) = Some u" if "ret = Some v"
    using assms that by (auto simp: lock_try_def assert_then_def res_simps try_acquire_def posix_mutex_trylock_def EBUSY_def Let_def
      split: if_splits)
qed

text \<open>One segment: it returns with the mutex, or it goes on with the same operation and the same \<open>errno\<close>.\<close>

lemma locking_segment:
  assumes pc: "locking OpMutexLock ins error (LMutex mu) u pc r" and run: "resume_lock opt u pc r = Inr (out, r')"
  shows "(out = Done 0 error \<and> m_owner (mutexes r' mu) = Some u) \<or>
     (\<exists>pc'. out = Await pc' \<and> locking OpMutexLock ins error (LMutex mu) u pc' r')"
proof -
  obtain n q where q: "lock_round opt u OpMutexLock ins error (LMutex mu) n (lock_try opt u (LMutex mu) n q) = Inr (out, r')"
     "errno (tls_of q u) = error"
    using pc run by (auto simp: locking_def resume_lock_def lock_turn_def lock_retry_turn_def lock_woken_eq res_simps)
  obtain ret r1 where r1: "lock_try opt u (LMutex mu) n q = Inr (ret, r1)" using q(1) by (auto simp: lock_round_def res_simps)
  have e: "errno (tls_of r1 u) = error" using lock_try_seen(1) [OF r1] q(2) by simp
  show ?thesis
  proof (cases ret)
    case None
    then show ?thesis using q(1) r1 e by (auto simp: lock_round_def locking_def)
  next
    case (Some v)
    then have "lock_finish opt u OpMutexLock ins (LMutex mu) v r1 = Inr (out, r')" using q(1) r1 by (simp add: lock_round_def)
    from lock_finish_seen [OF this] lock_try_seen(2) [OF r1 Some] e show ?thesis by simp
  qed
qed

lemma lock_call_owns:
  assumes "lock_call opt u pc r ret e r'" and "locking OpMutexLock ins error (LMutex mu) u pc r"
  shows "ret = 0 \<and> e = error \<and> m_owner (mutexes r' mu) = Some u \<and> isSys u r' = isSys u r"
  using assms
proof (induction rule: lock_call.induct)
  case (returns pc r ret e r')
  from locking_segment [OF returns(2,1)] isSys_kept [OF kept_view.view_lock [OF returns(1)]] show ?case by auto
next
  case (waits pc r pc' r1 r2 ret e r')
  have "locking OpMutexLock ins error (LMutex mu) u pc' r1" using locking_segment [OF waits(5,1)] by auto
  moreover have "tls_of r2 u = tls_of r1 u" by (rule others_keep [OF waits(2)])
  ultimately have "locking OpMutexLock ins error (LMutex mu) u pc' r2" "isSys u r2 = isSys u r1"
    by (simp_all add: locking_def isSys_def)
  then show ?case using waits(4) isSys_kept [OF kept_view.view_lock [OF waits(1)]] by simp
qed

text \<open>
  After \<open>enterSys\<close> (\<open>cross u r\<close>): the operation ends at once with the turn and a free mutex, and
  whenever it ends the hook takes the thread back with the mutex.
\<close>

lemma lock_call_free:
  assumes "basic opt" and "\<not> wakeamap_plus opt" and "holding opt u (sch r2)" and "settled u r2" and "m_owner (mutexes r2 mu) = None"
  shows "\<exists>r3. lock_call opt u (lock_entered u mu eip r) r2 0 (errno (tls_of r u)) r3 \<and> released opt (sch r3)"
proof -
  have "fst (try_acquire u (LMutex mu) r2) = 0" using assms(5) by (simp add: try_acquire_def posix_mutex_trylock_def Let_def)
  from lock_turn_got [OF assms(1-4) this, of OpMutexLock "ucast eip" "errno (tls_of r u)"] obtain r3 where
    "resume_lock opt u (lock_entered u mu eip r) r2 = Inr (Done 0 (errno (tls_of r u)), r3)" "released opt (sch r3)"
    by (auto simp: resume_lock_def lock_entered_def)
  then show ?thesis using lock_call.returns by blast
qed

lemma lock_call_back:
  assumes app: "isApp u r" and others: "(others_step opt u)\<^sup>*\<^sup>* (cross u r) r2"
    and call: "lock_call opt u (lock_entered u mu eip r) r2 ret err r3"
  shows "\<exists>r4. hook_exit opt u Reported (Done ret err, r3) = Inr (Done 0 (errno (tls_of r u)) :: lock_pc outcome, r4) \<and>
    isApp u r4 \<and> errno (tls_of r4 u) = errno (tls_of r u) \<and> m_owner (mutexes r4 mu) = Some u \<and> sch r4 = sch r3"
proof -
  have "locking OpMutexLock (ucast eip) (errno (tls_of r u)) (LMutex mu) u (lock_entered u mu eip r) r2"
    by (simp add: locking_def lock_entered_def)
  from lock_call_owns [OF call this] have r3: "ret = 0" "err = errno (tls_of r u)" "m_owner (mutexes r3 mu) = Some u" "isSys u r3 = isSys u r2"
    by simp_all
  have "isSys u r3" using r3(4) enterSys_ok(2) [OF app] others_keep [OF others] by (simp add: isSys_def)
  then obtain r4 where "hook_exit opt u Reported (Done ret err, r3) = Inr (Done ret err :: lock_pc outcome, r4)" "isApp u r4"
    "errno (tls_of r4 u) = err" "sch r4 = sch r3" "objects r4 = objects r3" using hook_exit_ok by blast
  then show ?thesis using r3 by (simp add: objects_def)
qed

end
