(* ===== verification/Dbug.thy ===== *)
theory Dbug
  imports Helper Intercept
begin

text \<open>
  The build for the model checker dbug (\<open>XTERN_PLUS_DBUG\<close>). In this build the base class calls the
  functions of the library \<open>libdbug.so\<close> in place of those of the C library
  (\<open>lib/runtime/runtime.cpp\<close>), and every thread is attached to the tool while it is in a blocking
  call, in a non-deterministic region, or creates, joins or forks, and detached from it while the
  runtime schedules it (\<open>record-runtime.cpp\<close>, \<open>hooks.cpp\<close>, \<open>helper.cpp\<close>). The tool is a
  parameter \<open>db\<close> like the operating system \<open>os\<close>; the environment and the dynamic loader are
  arguments, and do not change \<open>errno\<close>. The \<open>orig_func\<close> of each function is static; every function
  resolves one name, so the statics are kept by name.
\<close>

section \<open>State\<close>

record dbug =
  attachedToDbug :: "tid \<Rightarrow> bool"
  db_handle :: "string option"
  db_func :: "syncfunc \<Rightarrow> nat"

record dbug_env =
  de_root :: "string option"
  de_loader :: loader

type_synonym 'w db_state = "rt \<times> 'w \<times> dbug"

text \<open>A thread starts attached.\<close>

definition dbug_initial :: dbug where
  "dbug_initial = \<lparr>attachedToDbug = (\<lambda>_. True), db_handle = None, db_func = (\<lambda>_. 0)\<rparr>"

section \<open>Calling the tool\<close>

definition libDbugPath :: "string \<Rightarrow> string" where
  "libDbugPath root = root @ ''/mc-tools/dbug/install/lib/libdbug.so''"

definition open_dbug :: "dbug_env \<Rightarrow> dbug \<Rightarrow> string res" where
  "open_dbug env d = (case db_handle d of
     Some p \<Rightarrow> Inr p
   | None \<Rightarrow> (case de_root env of
       None \<Rightarrow> Inl NullDeref
     | Some root \<Rightarrow> check Aborted (ld_opens (de_loader env) (libDbugPath root)) (Inr (libDbugPath root))))"

definition resolveDbugFunc :: "dbug_env \<Rightarrow> syncfunc \<Rightarrow> dbug \<Rightarrow> (nat \<times> dbug) res" where
  "resolveDbugFunc env f d = res_bind (open_dbug env d) (\<lambda>p.
     case ld_sym (de_loader env) p f of None \<Rightarrow> Inl Aborted | Some a \<Rightarrow> Inr (a, d\<lparr>db_handle := Some p\<rparr>))"

definition initDbug :: "dbug_env \<Rightarrow> dbug \<Rightarrow> dbug res" where
  "initDbug env d = res_bind (resolveDbugFunc env ''pthread_create'' d) (\<lambda>(_, d). Inr d)"

text \<open>\<open>if (!orig_func) orig_func = resolveDbugFunc(...)\<close>\<close>

definition dbug_func :: "dbug_env \<Rightarrow> syncfunc \<Rightarrow> dbug \<Rightarrow> (nat \<times> dbug) res" where
  "dbug_func env f d =
     (if db_func d f \<noteq> 0 then Inr (db_func d f, d)
      else res_bind (resolveDbugFunc env f d) (\<lambda>(a, d). Inr (a, d\<lparr>db_func := (db_func d)(f := a)\<rparr>)))"

definition dbug_call :: "dbug_env \<Rightarrow> 'w os \<Rightarrow> tid \<Rightarrow> syncfunc \<Rightarrow> int list \<Rightarrow> 'w db_state \<Rightarrow> (int \<times> 'w db_state) res" where
  "dbug_call env db self f args = (\<lambda>(r, w, d).
     res_bind (dbug_func env f d) (\<lambda>(a, d).
     check NullDeref (a \<noteq> 0) (let (ret, r, w) = os_call db self f args (r, w) in Inr (ret, r, w, d))))"

definition dbug_tell :: "dbug_env \<Rightarrow> 'w os \<Rightarrow> tid \<Rightarrow> syncfunc \<Rightarrow> int list \<Rightarrow> 'w db_state \<Rightarrow> 'w db_state res" where
  "dbug_tell env db self f args s = res_bind (dbug_call env db self f args s) (\<lambda>(_, s). Inr s)"

definition set_attached :: "tid \<Rightarrow> bool \<Rightarrow> dbug \<Rightarrow> dbug" where
  "set_attached u b d = d\<lparr>attachedToDbug := (attachedToDbug d)(u := b)\<rparr>"

definition thread_detach :: "dbug_env \<Rightarrow> 'w os \<Rightarrow> tid \<Rightarrow> 'w db_state \<Rightarrow> 'w db_state res" where
  "thread_detach env db self = dbug_tell env db self ''dbug_detach'' []"

definition detach_barrier_end :: "options \<Rightarrow> dbug_env \<Rightarrow> 'w os \<Rightarrow> tid \<Rightarrow> int \<Rightarrow> int \<Rightarrow> 'w db_state \<Rightarrow> 'w db_state res" where
  "detach_barrier_end opt env db self bar_id cnt = (\<lambda>(r, w, d).
     assert_then opt (attachedToDbug d self)
       (dbug_tell env db self ''dbug_off_barrier'' [bar_id, cnt] (r, w, set_attached self False d)))"

definition thread_waiting :: "dbug_env \<Rightarrow> 'w os \<Rightarrow> tid \<Rightarrow> 'w db_state \<Rightarrow> 'w db_state res" where
  "thread_waiting env db self = dbug_tell env db self ''dbug_thread_waiting'' []"

definition thread_active :: "dbug_env \<Rightarrow> 'w os \<Rightarrow> tid \<Rightarrow> int \<Rightarrow> 'w db_state \<Rightarrow> 'w db_state res" where
  "thread_active env db self th = dbug_tell env db self ''dbug_thread_active'' [th]"

definition attach_self_to_dbug :: "options \<Rightarrow> dbug_env \<Rightarrow> 'w os \<Rightarrow> tid \<Rightarrow> 'w db_state \<Rightarrow> 'w db_state res" where
  "attach_self_to_dbug opt env db self = (\<lambda>(r, w, d).
     assert_then opt (\<not> attachedToDbug d self)
       (dbug_tell env db self ''dbug_on'' [] (r, w, set_attached self True d)))"

definition detach_self_from_dbug :: "options \<Rightarrow> dbug_env \<Rightarrow> 'w os \<Rightarrow> tid \<Rightarrow> 'w db_state \<Rightarrow> 'w db_state res" where
  "detach_self_from_dbug opt env db self = (\<lambda>(r, w, d).
     assert_then opt (attachedToDbug d self)
       (dbug_tell env db self ''dbug_off'' [] (r, w, set_attached self False d)))"

section \<open>The base class\<close>

type_synonym 'w db_op = "'w db_state \<Rightarrow> ((int \<times> int) \<times> 'w db_state) res"

definition with_errno :: "tid \<Rightarrow> int \<Rightarrow> 'w db_state \<Rightarrow> 'w db_state" where
  "with_errno self e = (\<lambda>(r, w, d). (set_errno self e r, w, d))"

definition report :: "tid \<Rightarrow> int \<times> 'w db_state \<Rightarrow> ((int \<times> int) \<times> 'w db_state) res" where
  "report self = (\<lambda>(ret, r, w, d). Inr ((ret, errno (tls_of r self)), r, w, d))"

definition db_base_call :: "dbug_env \<Rightarrow> 'w os \<Rightarrow> tid \<Rightarrow> syncfunc \<Rightarrow> int list \<Rightarrow> int \<Rightarrow> 'w db_op" where
  "db_base_call env db self f args error s =
     res_bind (dbug_call env db self f args (with_errno self error s)) (report self)"

text \<open>The tool is told, and then the C library does the work.\<close>

definition db_base_both :: "dbug_env \<Rightarrow> 'w os \<Rightarrow> 'w os \<Rightarrow> tid \<Rightarrow> syncfunc \<Rightarrow> int list \<Rightarrow> int \<Rightarrow> 'w db_op" where
  "db_base_both env db os self f args error s =
     res_bind (dbug_call env db self f args (with_errno self error s)) (\<lambda>(_, r, w, d).
     let (ret, r, w) = os_call os self f args (r, w) in report self (ret, r, w, d))"

definition told_then_done :: "syncfunc list" where
  "told_then_done = [''sem_init'', ''pthread_mutex_init'', ''pthread_mutex_destroy'']"

text \<open>The members of the base class that have no variant for the tool.\<close>

definition without_dbug :: "syncfunc list" where
  "without_dbug = [''pthread_cancel'', ''getpeername'', ''time'', ''clock_getres'', ''clock_gettime'', ''clock_settime'',
     ''gettimeofday'', ''settimeofday'']"

definition db_fork :: "options \<Rightarrow> dbug_env \<Rightarrow> 'w os \<Rightarrow> tid \<Rightarrow> int \<Rightarrow> 'w db_op" where
  "db_fork opt env db self error s =
     res_bind (attach_self_to_dbug opt env db self (with_errno self error s)) (\<lambda>s.
     res_bind (dbug_call env db self ''fork'' [] s) (\<lambda>(ret, s).
     res_bind (detach_self_from_dbug opt env db self s) (\<lambda>s. report self (ret, s))))"

definition db_execv :: "options \<Rightarrow> dbug_env \<Rightarrow> 'w os \<Rightarrow> tid \<Rightarrow> int \<Rightarrow> int \<Rightarrow> int \<Rightarrow> 'w db_op" where
  "db_execv opt env db self path argv error s =
     res_bind (attach_self_to_dbug opt env db self (with_errno self error s)) (\<lambda>s.
     res_bind (dbug_call env db self ''execv'' [path, argv] s) (report self))"

text \<open>\<open>__pthread_create\<close>: the idle thread (\<open>th == &idle_th\<close>) is not registered with the tool.\<close>

definition db_pthread_create ::
  "options \<Rightarrow> dbug_env \<Rightarrow> 'w os \<Rightarrow> 'w os \<Rightarrow> tid \<Rightarrow> bool \<Rightarrow> int \<Rightarrow> int \<Rightarrow> int \<Rightarrow> int \<Rightarrow> 'w db_state \<Rightarrow> (int \<times> 'w db_state) res" where
  "db_pthread_create opt env db os self for_idle th a func arg s =
     (if \<not> for_idle
      then res_bind (attach_self_to_dbug opt env db self s) (\<lambda>s.
           res_bind (dbug_call env db self ''pthread_create'' [th, a, func, arg] s) (\<lambda>(ret, s).
           res_bind (detach_self_from_dbug opt env db self s) (\<lambda>s. Inr (ret, s))))
      else (case s of (r, w, d) \<Rightarrow> let (ret, r, w) = base_pthread_create os self th a func arg (r, w) in Inr (ret, r, w, d)))"

definition db_pthread_exit :: "dbug_env \<Rightarrow> 'w os \<Rightarrow> tid \<Rightarrow> int \<Rightarrow> 'w db_state \<Rightarrow> 'a res" where
  "db_pthread_exit env db self value_ptr s =
     res_bind (dbug_call env db self ''pthread_exit'' [value_ptr] s) (\<lambda>_. Inl ThreadExit)"

definition db_pthread_join ::
  "options \<Rightarrow> dbug_env \<Rightarrow> 'w os \<Rightarrow> tid \<Rightarrow> int \<Rightarrow> int \<Rightarrow> 'w db_state \<Rightarrow> (int \<times> 'w db_state) res" where
  "db_pthread_join opt env db self th retval s =
     res_bind (attach_self_to_dbug opt env db self s) (\<lambda>s.
     res_bind (dbug_call env db self ''pthread_join'' [th, retval] s) (\<lambda>(ret, s).
     res_bind (detach_self_from_dbug opt env db self s) (\<lambda>s. Inr (ret, s))))"

definition db_exit :: "dbug_env \<Rightarrow> 'w os \<Rightarrow> tid \<Rightarrow> nat \<Rightarrow> 'w db_state \<Rightarrow> 'a res" where
  "db_exit env db self status s =
     res_bind (dbug_call env db self ''_exit'' [int status] s) (\<lambda>_. Inl (ExitProcess status))"

text \<open>The member of the base class of that name: \<open>accept\<close>, \<open>connect\<close> and \<open>recv\<close> have nothing special in this build.\<close>

definition db_dispatch :: "options \<Rightarrow> dbug_env \<Rightarrow> 'w os \<Rightarrow> 'w os \<Rightarrow> tid \<Rightarrow> syncfunc \<Rightarrow> int list \<Rightarrow> int \<Rightarrow> 'w db_op" where
  "db_dispatch opt env db os self f args error s =
     (if f \<in> set told_then_done then db_base_both env db os self f args error s
      else if f \<in> set without_dbug then (case s of (r, w, d) \<Rightarrow>
        res_bind (base_dispatch opt os self f args error (r, w)) (\<lambda>(re, r, w). Inr (re, r, w, d)))
      else db_base_call env db self f args error s)"

section \<open>The runtime\<close>

definition db_syncWait :: "options \<Rightarrow> dbug_env \<Rightarrow> 'w os \<Rightarrow> tid \<Rightarrow> vptr \<Rightarrow> u32 \<Rightarrow> 'w db_state \<Rightarrow> 'w db_state res" where
  "db_syncWait opt env db self ch limit s =
     res_bind (thread_waiting env db self s) (\<lambda>(r, w, d).
     res_bind (syncWait opt self ch limit r) (\<lambda>r. Inr (r, w, d)))"

text \<open>\<open>signal\<close> also returns the threads it has woken.\<close>

fun signal_list_loop :: "options \<Rightarrow> vptr \<Rightarrow> bool \<Rightarrow> tid list \<Rightarrow> tid list \<Rightarrow> tid list \<Rightarrow> sched \<Rightarrow> (tid list \<times> sched) res" where
  "signal_list_loop opt ch all kept [] signal_list s = Inr (signal_list, s)"
| "signal_list_loop opt ch all kept (t # rest) signal_list s =
     assert_then opt (t < nthread (tids s))
       (if chan (waits s t) = ch
        then let s1 = upd_wait t (\<lambda>w. (wt_reset 0 w)\<lparr>wake_reason := SIGNAL\<rparr>) (s\<lparr>waitq := kept @ rest\<rparr>) in
             res_bind (enqueue_woken opt t s1) (\<lambda>s2.
             if all then signal_list_loop opt ch all kept rest (signal_list @ [t]) s2 else Inr (signal_list @ [t], s2))
        else signal_list_loop opt ch all (kept @ [t]) rest signal_list s)"

definition db_signal :: "options \<Rightarrow> tid \<Rightarrow> vptr \<Rightarrow> bool \<Rightarrow> sched \<Rightarrow> (tid list \<times> sched) res" where
  "db_signal opt self ch all s =
     assert_then opt (ch \<noteq> 0)
       (assert_res opt (self_is_front self s)
         (signal_list_loop opt ch all [] (waitq s) [] s))"

text \<open>\<open>getPthreadTid\<close> of a thread without handle is \<open>(pthread_t) -1\<close>.\<close>

definition handle_arg :: "tid \<Rightarrow> tidmap \<Rightarrow> int" where
  "handle_arg t m = (case tm_getPthreadTid t m of Some th \<Rightarrow> int th | None \<Rightarrow> 2 ^ 64 - 1)"

definition db_syncSignal :: "options \<Rightarrow> dbug_env \<Rightarrow> 'w os \<Rightarrow> tid \<Rightarrow> vptr \<Rightarrow> bool \<Rightarrow> 'w db_state \<Rightarrow> 'w db_state res" where
  "db_syncSignal opt env db self ch all = (\<lambda>(r, w, d).
     res_bind (db_signal opt self ch all (sch r)) (\<lambda>(ts, s).
     res_fold (\<lambda>t q. thread_active env db self (handle_arg t (tids s)) q) ts (r\<lparr>sch := s\<rparr>, w, d)))"

text \<open>
  \<open>BLOCK_TIMER_START\<close>: attached once the thread has left the run queue, not at all inside a region.
  The sleeping calls go the same way in this build.
\<close>

definition db_io_attach :: "options \<Rightarrow> dbug_env \<Rightarrow> 'w os \<Rightarrow> tid \<Rightarrow> io_step \<Rightarrow> 'w db_state \<Rightarrow> (io_step \<times> 'w db_state) res" where
  "db_io_attach opt env db self st s = (case st of
     IoCall _ _ \<Rightarrow> res_bind (attach_self_to_dbug opt env db self s) (\<lambda>s. Inr (st, s))
   | _ \<Rightarrow> Inr (st, s))"

definition db_io_start :: "options \<Rightarrow> dbug_env \<Rightarrow> 'w os \<Rightarrow> tid \<Rightarrow> syncfunc \<Rightarrow> int list \<Rightarrow> 'w db_state \<Rightarrow> (io_step \<times> 'w db_state) res" where
  "db_io_start opt env db self f args = (\<lambda>(r, w, d).
     res_bind (io_start opt self f args r) (\<lambda>(st, r). db_io_attach opt env db self st (r, w, d)))"

definition db_io_turn :: "options \<Rightarrow> dbug_env \<Rightarrow> 'w os \<Rightarrow> tid \<Rightarrow> syncfunc \<Rightarrow> int list \<Rightarrow> 'w db_state \<Rightarrow> (io_step \<times> 'w db_state) res" where
  "db_io_turn opt env db self f args = (\<lambda>(r, w, d).
     res_bind (io_turn opt self f args r) (\<lambda>(st, r). db_io_attach opt env db self st (r, w, d)))"

text \<open>The call of the tool, and \<open>BLOCK_TIMER_END\<close>, which saves \<open>errno\<close> after it has told the tool.\<close>

definition db_io_end :: "options \<Rightarrow> dbug_env \<Rightarrow> 'w os \<Rightarrow> tid \<Rightarrow> int \<Rightarrow> int \<Rightarrow> 'w db_op" where
  "db_io_end opt env db self ret err s =
     res_bind (detach_self_from_dbug opt env db self s) (\<lambda>(r, w, d).
     res_bind (io_end opt self ret (errno (tls_of r self)) r) (\<lambda>(_, r). Inr ((ret, err), r, w, d)))"

definition db_io_finish :: "options \<Rightarrow> dbug_env \<Rightarrow> 'w os \<Rightarrow> 'w os \<Rightarrow> tid \<Rightarrow> io_step \<Rightarrow> int \<Rightarrow> 'w db_state \<Rightarrow> ((int \<times> int) \<times> 'w db_state) res option" where
  "db_io_finish opt env db os self st error s = (case st of
     IoTurn _ _ \<Rightarrow> None
   | IoNative f args \<Rightarrow> Some (db_dispatch opt env db os self f args error s)
   | IoDirect f args \<Rightarrow> Some (case s of (r, w, d) \<Rightarrow> let (ret, r, w) = os_call os self f args (r, w) in Inr ((ret, error), r, w, d))
   | IoCall f args \<Rightarrow> Some (res_bind (db_dispatch opt env db os self f args error s) (\<lambda>((ret, e), s).
       check NullDeref (f = ''accept'' \<or> f = ''connect'' \<longrightarrow> log_sync opt \<longrightarrow> args ! 1 \<noteq> 0) (db_io_end opt env db self ret e s))))"

text \<open>\<open>pthreadCreate\<close>, with the turn; \<open>arg\<close> is the block of arguments of the new thread.\<close>

definition db_create_turn ::
  "options \<Rightarrow> dbug_env \<Rightarrow> 'w os \<Rightarrow> 'w os \<Rightarrow> tid \<Rightarrow> u32 \<Rightarrow> int \<Rightarrow> pthread \<Rightarrow> func \<Rightarrow> int \<Rightarrow> (u32 \<times> int \<times> pthread \<times> func) option \<Rightarrow>
   'w db_state \<Rightarrow> (thread_pc outcome \<times> 'w db_state) res" where
  "db_create_turn opt env db os self ins error th f arg outer = (\<lambda>(r, w, d).
     res_bind (sched_start opt self r) (\<lambda>r.
     res_bind (db_pthread_create opt env db os self (th = idle_th r) (int th) 0 (int f) arg (r, w, d)) (\<lambda>(ret, r, w, d).
     assert_then opt (ret = 0)
       (res_bind (sched_create opt self th f (sch r)) (\<lambda>(_, s).
        res_bind (sched_end opt self ins ''pthread_create'' [int th, ret] ret error (r\<lparr>sch := s\<rparr>) :: thread_out) (\<lambda>(_, r).
        Inr (Await (PCreated ret error outer), r\<lparr>thread_begin_sem := thread_begin_sem r + 1\<rparr>, w, d)))))))"

text \<open>
  \<open>pthreadJoin\<close> of a thread other than the idle thread: with the turn the thread leaves the run
  queue; then it joins through the tool, reaps the thread and announces itself.
\<close>

definition db_join_turn :: "options \<Rightarrow> tid \<Rightarrow> 'w db_state \<Rightarrow> 'w db_state res" where
  "db_join_turn opt self = (\<lambda>(r, w, d). res_bind (block_turn opt self (sch r)) (\<lambda>(_, s). Inr (r\<lparr>sch := s\<rparr>, w, d)))"

definition db_join_call ::
  "options \<Rightarrow> dbug_env \<Rightarrow> 'w os \<Rightarrow> tid \<Rightarrow> pthread \<Rightarrow> int \<Rightarrow> 'w db_state \<Rightarrow> (int \<times> 'w db_state) res" where
  "db_join_call opt env db self th rv s =
     res_bind (db_pthread_join opt env db self (int th) rv s) (\<lambda>(ret, r, w, d).
     Inr (ret, r\<lparr>sch := wakeup self (sched_join th (sch r))\<rparr>, w, d))"

text \<open>\<open>__fork\<close> and \<open>__execv\<close>, with the turn.\<close>

definition fork_rest ::
  "options \<Rightarrow> tid \<Rightarrow> u32 \<Rightarrow> int \<Rightarrow> int \<Rightarrow> pthread \<Rightarrow> func \<Rightarrow> vptr \<Rightarrow> rt \<Rightarrow> sleep_out" where
  "fork_rest opt self ins ret error idle idle_func idle_mutex r =
     res_bind (if ret = 0 then fork_child opt self r else assert_then opt (ret > 0) (Inr r)) (\<lambda>r.
     res_bind (sched_end opt self ins ''fork'' [ret] ret error r :: sleep_out) (\<lambda>(out, r).
     if ret = 0 \<and> launch_idle_thread opt \<noteq> 0
     then res_bind (create_idle opt self idle idle_func idle_mutex None r) (\<lambda>(o', r). case o' of
            Await k \<Rightarrow> Inr (Await (PForkIdle ret error k), r)
          | _ \<Rightarrow> Inr (out, r))
     else Inr (out, r)))"

definition db_fork_turn ::
  "options \<Rightarrow> dbug_env \<Rightarrow> 'w os \<Rightarrow> tid \<Rightarrow> u32 \<Rightarrow> int \<Rightarrow> pthread \<Rightarrow> func \<Rightarrow> vptr \<Rightarrow> 'w db_state \<Rightarrow> (sleep_pc outcome \<times> 'w db_state) res" where
  "db_fork_turn opt env db self ins error idle idle_func idle_mutex = (\<lambda>(r, w, d).
     res_bind (sched_start opt self r) (\<lambda>r.
     res_bind (db_fork opt env db self error (r, w, d)) (\<lambda>((ret, e), r, w, d).
     res_bind (fork_rest opt self ins ret e idle idle_func idle_mutex r) (\<lambda>(out, r). Inr (out, r, w, d)))))"

text \<open>What the two builds share of \<open>fork\<close>.\<close>

lemma fork_turn_rest:
  "fork_turn opt self ins error ret idle idle_func idle_mutex r =
     res_bind (sched_start opt self r) (fork_rest opt self ins ret error idle idle_func idle_mutex)"
  unfolding fork_turn_def fork_rest_def by (rule refl)

definition db_execv_turn :: "options \<Rightarrow> dbug_env \<Rightarrow> 'w os \<Rightarrow> tid \<Rightarrow> int \<Rightarrow> int \<Rightarrow> int \<Rightarrow> 'w db_state \<Rightarrow> (int \<times> 'w db_state) res" where
  "db_execv_turn opt env db self path argv error = (\<lambda>(r, w, d).
     res_bind (sched_start opt self r) (\<lambda>r.
     res_bind (db_execv opt env db self path argv error (r, w, d)) (\<lambda>((ret, _), s). assert_then opt False (Inr (ret, s)))))"

text \<open>Regions: attached with the turn, before the wait; detached at the end.\<close>

definition db_non_det_start_turn :: "options \<Rightarrow> dbug_env \<Rightarrow> 'w os \<Rightarrow> tid \<Rightarrow> 'w db_state \<Rightarrow> (thread_pc outcome \<times> 'w db_state) res" where
  "db_non_det_start_turn opt env db self = (\<lambda>(r, w, d).
     res_bind (sched_start opt self r) (\<lambda>r.
     let r = set_nNonDetWait Suc (upd_stat opt (\<lambda>x. x\<lparr>nNonDetRegions := nNonDetRegions x + 1\<rparr>) r) in
     res_bind (attach_self_to_dbug opt env db self (r, w, d)) (\<lambda>(r, w, d).
     res_bind (on_sched (wait_begin opt self nonDetCV FOREVER) r) (\<lambda>r.
     Inr (Await PNonDetWoken, r, w, d)))))"

definition db_region_end :: "options \<Rightarrow> ('w db_state \<Rightarrow> 'w db_state res) \<Rightarrow> tid \<Rightarrow> 'w db_state \<Rightarrow> 'w db_state res" where
  "db_region_end opt detach self = (\<lambda>(r, w, d).
     assert_then opt (enforce_non_det_annotations opt = 1)
       (assert_then opt (inNonDet (tls_of r self))
         (res_bind (detach (upd_tls self (\<lambda>t. t\<lparr>inNonDet := False\<rparr>) r, w, d)) (\<lambda>(r, w, d).
          Inr (r\<lparr>sch := wakeup self (sch r)\<rparr>, w, d)))))"

definition db_nonDetEnd :: "options \<Rightarrow> dbug_env \<Rightarrow> 'w os \<Rightarrow> tid \<Rightarrow> 'w db_state \<Rightarrow> 'w db_state res" where
  "db_nonDetEnd opt env db self = db_region_end opt (detach_self_from_dbug opt env db self) self"

definition db_nonDetBarrierEnd :: "options \<Rightarrow> dbug_env \<Rightarrow> 'w os \<Rightarrow> tid \<Rightarrow> int \<Rightarrow> int \<Rightarrow> 'w db_state \<Rightarrow> 'w db_state res" where
  "db_nonDetBarrierEnd opt env db self bar_id cnt = db_region_end opt (detach_barrier_end opt env db self bar_id cnt) self"

text \<open>\<open>threadDetach\<close>, which does nothing in the other build. The flag of the thread is not touched.\<close>

definition db_threadDetach :: "dbug_env \<Rightarrow> 'w os \<Rightarrow> tid \<Rightarrow> 'w db_state \<Rightarrow> 'w db_state res" where
  "db_threadDetach env db self = thread_detach env db self"

section \<open>Hooks and helper\<close>

definition db_pthread_exit_end ::
  "options \<Rightarrow> dbug_env \<Rightarrow> 'w os \<Rightarrow> tid \<Rightarrow> int \<Rightarrow> thread_pc outcome \<times> 'w db_state \<Rightarrow> (thread_pc outcome \<times> 'w db_state) res" where
  "db_pthread_exit_end opt env db self retval = (\<lambda>(out, r, w, d). case out of
     Done _ _ \<Rightarrow> assert_then opt (isSys self r)
       (if self \<noteq> IdleThreadTid
        then res_bind (attach_self_to_dbug opt env db self (r, w, d)) (db_pthread_exit env db self retval)
        else base_pthread_exit)
   | _ \<Rightarrow> Inr (out, r, w, d))"

text \<open>The start of \<open>__tern_thread_func\<close>, of \<open>__tern_prog_begin\<close>, and \<open>__tern_prog_end\<close>, which does not return.\<close>

definition db_thread_func_start :: "options \<Rightarrow> dbug_env \<Rightarrow> 'w os \<Rightarrow> tid \<Rightarrow> 'w db_state \<Rightarrow> 'w db_state res" where
  "db_thread_func_start opt env db self = (\<lambda>(r, w, d).
     if idle_th r \<noteq> th_handle (tls_of r self) then detach_self_from_dbug opt env db self (r, w, d) else Inr (r, w, d))"

definition db_prog_begin ::
  "options \<Rightarrow> dbug_env \<Rightarrow> 'w os \<Rightarrow> tid \<Rightarrow> pthread \<Rightarrow> idle_objects \<Rightarrow> helper \<Rightarrow> 'w db_state \<Rightarrow> (action list \<times> helper \<times> 'w db_state) res" where
  "db_prog_begin opt env db self self_th ob h s =
     res_bind (detach_self_from_dbug opt env db self s) (\<lambda>s.
     res_bind (prog_begin opt self_th ob h) (\<lambda>(as, h). Inr (as, h, s)))"

definition db_prog_end :: "options \<Rightarrow> dbug_env \<Rightarrow> 'w os \<Rightarrow> tid \<Rightarrow> helper \<Rightarrow> 'w db_state \<Rightarrow> 'a res" where
  "db_prog_end opt env db self h = (\<lambda>(r, w, d).
     assert_then opt (prog_began h)
       (res_bind (enterSys opt self r) (\<lambda>r.
        res_bind (attach_self_to_dbug opt env db self (r, w, d)) (db_exit env db self 0))))"

end
