(* ===== verification/DbugProofs.thy ===== *)
theory DbugProofs
  imports Dbug HookProofs
begin

text \<open>
  The build for dbug: when the library has all the functions the runtime asks for, no call of it
  fails; \<open>signal\<close> reports exactly the threads it wakes; and over the lives of all threads a thread is
  attached to the tool exactly between the two calls that say so, so that the assertions about it hold.
\<close>

section \<open>Resolving\<close>

text \<open>
  The library of the tool is where the environment says and has the function; the tool is installed
  when it has the functions that attach and detach a thread and end the process.
\<close>

definition exports :: "dbug_env \<Rightarrow> syncfunc \<Rightarrow> bool" where
  "exports env f \<longleftrightarrow> (\<exists>root. de_root env = Some root \<and> ld_opens (de_loader env) (libDbugPath root) \<and>
     (\<exists>a. ld_sym (de_loader env) (libDbugPath root) f = Some a \<and> a \<noteq> 0))"

definition installed :: "dbug_env \<Rightarrow> bool" where
  "installed env \<longleftrightarrow> exports env ''dbug_on'' \<and> exports env ''dbug_off'' \<and> exports env ''dbug_off_barrier'' \<and> exports env ''_exit''"

definition handle_fits :: "dbug_env \<Rightarrow> dbug \<Rightarrow> bool" where
  "handle_fits env d \<longleftrightarrow> (case db_handle d of None \<Rightarrow> True | Some p \<Rightarrow> (\<exists>root. de_root env = Some root \<and> p = libDbugPath root))"

lemma dbug_func_ok:
  assumes "exports env f" and "handle_fits env d"
  shows "\<exists>a d'. dbug_func env f d = Inr (a, d') \<and> a \<noteq> 0 \<and> handle_fits env d' \<and> attachedToDbug d' = attachedToDbug d"
proof -
  obtain root a where "de_root env = Some root" "ld_opens (de_loader env) (libDbugPath root)"
    "ld_sym (de_loader env) (libDbugPath root) f = Some a" "a \<noteq> 0" using assms(1) by (auto simp: exports_def)
  then show ?thesis using assms(2)
    by (cases "db_handle d") (auto simp: dbug_func_def resolveDbugFunc_def open_dbug_def handle_fits_def check_def)
qed

text \<open>Without the environment variable, or without the library, the process stops.\<close>

lemma dbug_missing:
  assumes "db_handle d = None" and "db_func d f = 0"
  shows "de_root env = None \<Longrightarrow> dbug_call env db u f args (r, w, d) = Inl NullDeref"
    and "de_root env = Some root \<Longrightarrow> \<not> ld_opens (de_loader env) (libDbugPath root) \<Longrightarrow> dbug_call env db u f args (r, w, d) = Inl Aborted"
    and "de_root env = Some root \<Longrightarrow> ld_opens (de_loader env) (libDbugPath root) \<Longrightarrow>
      ld_sym (de_loader env) (libDbugPath root) f = None \<Longrightarrow> dbug_call env db u f args (r, w, d) = Inl Aborted"
  using assms by (simp_all add: dbug_call_def dbug_func_def resolveDbugFunc_def open_dbug_def)

text \<open>A function is looked up once.\<close>

lemma dbug_func_cached: "dbug_func env f d = Inr (a, d') \<Longrightarrow> a \<noteq> 0 \<Longrightarrow> dbug_func env' f d' = Inr (a, d')"
  by (auto simp: dbug_func_def res_simps split: if_splits)

lemma dbug_call_ok:
  assumes "exports env f" and "handle_fits env d"
  shows "\<exists>d'. dbug_call env db u f args (r, w, d) = Inr (case os_call db u f args (r, w) of (ret, r', w') \<Rightarrow> (ret, r', w', d')) \<and>
    handle_fits env d' \<and> attachedToDbug d' = attachedToDbug d"
proof -
  obtain a d' where "dbug_func env f d = Inr (a, d')" "a \<noteq> 0" "handle_fits env d'" "attachedToDbug d' = attachedToDbug d"
    using dbug_func_ok [OF assms] by blast
  then show ?thesis by (auto simp: dbug_call_def Let_def case_prod_beta)
qed

lemma dbug_tell_ok:
  assumes "exports env f" and "handle_fits env d"
  shows "\<exists>s'. dbug_tell env db u f args (r, w, d) = Inr s'"
  using dbug_call_ok [OF assms, of db u args r w] by (auto simp: dbug_tell_def split: prod.split)

lemma handle_set_attached [simp]: "handle_fits env (set_attached u b d) = handle_fits env d"
  by (simp add: handle_fits_def set_attached_def)

section \<open>What a call of the tool leaves alone\<close>

text \<open>The flags of all threads, and the library that is open.\<close>

definition flags :: "'w db_state \<Rightarrow> tid \<Rightarrow> bool" where
  "flags = (\<lambda>(r, w, d). attachedToDbug d)"

definition fits :: "dbug_env \<Rightarrow> 'w db_state \<Rightarrow> bool" where
  "fits env = (\<lambda>(r, w, d). handle_fits env d)"

lemma resolve_keeps:
  assumes "resolveDbugFunc env f d = Inr (a, d')" and "handle_fits env d"
  shows "handle_fits env d'" and "attachedToDbug d' = attachedToDbug d"
  using assms by (auto simp: resolveDbugFunc_def open_dbug_def handle_fits_def check_def res_simps split: option.splits if_splits)

lemma dbug_func_keeps:
  assumes "dbug_func env f d = Inr (a, d')" and "handle_fits env d"
  shows "handle_fits env d'" and "attachedToDbug d' = attachedToDbug d"
proof -
  consider "d' = d" | d1 where "resolveDbugFunc env f d = Inr (a, d1)" "d' = d1\<lparr>db_func := (db_func d1)(f := a)\<rparr>"
    using assms(1) by (auto simp: dbug_func_def res_simps split: if_splits)
  then have "handle_fits env d' \<and> attachedToDbug d' = attachedToDbug d"
  proof cases
    case (2 d1)
    from resolve_keeps [OF 2(1) assms(2)] 2(2) show ?thesis by (simp add: handle_fits_def)
  qed (use assms(2) in simp)
  then show "handle_fits env d'" "attachedToDbug d' = attachedToDbug d" by simp_all
qed

lemma dbug_call_keeps:
  assumes "dbug_call env db u f args s = Inr (ret, s')" and "fits env s"
  shows "fits env s'" and "flags s' = flags s"
proof -
  obtain r w d where s: "s = (r, w, d)" by (metis surj_pair)
  obtain a d' where d': "dbug_func env f d = Inr (a, d')" using assms(1) s by (auto simp: dbug_call_def res_simps)
  obtain x r' w' where "os_call db u f args (r, w) = (x, r', w')" by (metis surj_pair)
  then have s': "s' = (r', w', d')" using assms(1) s d' by (simp add: dbug_call_def check_def split: if_splits)
  then show "fits env s'" "flags s' = flags s"
    using dbug_func_keeps [OF d'] assms(2) s s' by (simp_all add: fits_def flags_def)
qed

lemma dbug_tell_keeps:
  assumes "dbug_tell env db u f args s = Inr s'" and "fits env s"
  shows "fits env s'" and "flags s' = flags s"
  using assms dbug_call_keeps [of env db u f args s] by (auto simp: dbug_tell_def res_simps)

lemma tell_with_flag:
  assumes "dbug_tell env db u f args (r, w, set_attached u b d) = Inr s'" and "handle_fits env d"
  shows "fits env s'" and "flags s' = (attachedToDbug d)(u := b)"
  using dbug_tell_keeps [OF assms(1)] assms(2) by (simp_all add: fits_def flags_def) (simp_all add: set_attached_def)

lemma attach_sets:
  assumes "attach_self_to_dbug opt env db u s = Inr s'" and "fits env s"
  shows "fits env s'" and "flags s' = (flags s)(u := True)"
proof -
  obtain r w d where s: "s = (r, w, d)" by (metis surj_pair)
  have "dbug_tell env db u ''dbug_on'' [] (r, w, set_attached u True d) = Inr s'"
    using assms(1) s by (simp add: attach_self_to_dbug_def assert_then_def check_def split: if_splits)
  from tell_with_flag [OF this] assms(2) s show "fits env s'" "flags s' = (flags s)(u := True)" by (simp_all add: fits_def flags_def)
qed

lemma detach_sets:
  assumes "detach_self_from_dbug opt env db u s = Inr s'" and "fits env s"
  shows "fits env s'" and "flags s' = (flags s)(u := False)"
proof -
  obtain r w d where s: "s = (r, w, d)" by (metis surj_pair)
  have "dbug_tell env db u ''dbug_off'' [] (r, w, set_attached u False d) = Inr s'"
    using assms(1) s by (simp add: detach_self_from_dbug_def assert_then_def check_def split: if_splits)
  from tell_with_flag [OF this] assms(2) s show "fits env s'" "flags s' = (flags s)(u := False)" by (simp_all add: fits_def flags_def)
qed

lemma detach_barrier_sets:
  assumes "detach_barrier_end opt env db u b n s = Inr s'" and "fits env s"
  shows "fits env s'" and "flags s' = (flags s)(u := False)"
proof -
  obtain r w d where s: "s = (r, w, d)" by (metis surj_pair)
  have "dbug_tell env db u ''dbug_off_barrier'' [b, n] (r, w, set_attached u False d) = Inr s'"
    using assms(1) s by (simp add: detach_barrier_end_def assert_then_def check_def split: if_splits)
  from tell_with_flag [OF this] assms(2) s show "fits env s'" "flags s' = (flags s)(u := False)" by (simp_all add: fits_def flags_def)
qed

section \<open>Signalling\<close>

lemma signal_list_loop_state:
  "res_bind (signal_list_loop opt ch all kp ws acc s) (\<lambda>(_, s'). Inr s') = signal_loop opt ch all kp ws s"
proof (induction ws arbitrary: kp acc s)
  case (Cons t ws)
  let ?s1 = "upd_wait t (\<lambda>w. (wt_reset 0 w)\<lparr>wake_reason := SIGNAL\<rparr>) (s\<lparr>waitq := kp @ ws\<rparr>)"
  show ?case by (cases all; cases "enqueue_woken opt t ?s1") (use Cons.IH in \<open>simp_all add: Let_def assert_then_def check_def\<close>)
qed simp

text \<open>Up to the list, it is the \<open>signal\<close> of the other build.\<close>

lemma db_signal_state: "res_bind (db_signal opt u ch all s) (\<lambda>(_, s'). Inr s') = signal opt u ch all s"
  using signal_list_loop_state [of opt ch all "[]" "waitq s" "[]" s]
  by (cases "self_is_front u s") (simp_all add: db_signal_def signal_def assert_then_def assert_res_def check_def)

lemma enqueue_woken_chan: "enqueue_woken opt t s = Inr s' \<Longrightarrow> chan (waits s' v) = chan (waits s v)"
  by (auto simp: enqueue_woken_def hp_push_back_def runq_push_back_def post_def upd_wait_def wt_post_def res_simps Let_def split: if_splits)

lemma signal_list_loop_woken:
  assumes "signal_list_loop opt ch all kp ws acc s = Inr (ts, s')" and "distinct ws"
  shows "ts = acc @ woken (\<lambda>w. chan w = ch) all ws s"
  using assms
proof (induction ws arbitrary: kp acc s)
  case Nil
  then show ?case by (simp add: woken_def)
next
  case (Cons t ws)
  let ?s1 = "upd_wait t (\<lambda>w. (wt_reset 0 w)\<lparr>wake_reason := SIGNAL\<rparr>) (s\<lparr>waitq := kp @ ws\<rparr>)"
  show ?case
  proof (cases "chan (waits s t) = ch")
    case True
    then obtain s2 where s2: "enqueue_woken opt t ?s1 = Inr s2"
      "(if all then signal_list_loop opt ch all kp ws (acc @ [t]) s2 else Inr (acc @ [t], s2)) = Inr (ts, s')"
      using Cons.prems(1) by (auto simp: Let_def assert_then_def res_simps)
    have "chan (waits s2 v) = chan (waits s v)" if "v \<in> set ws" for v
      using enqueue_woken_chan [OF s2(1), of v] that Cons.prems(2) by (auto simp: upd_wait_def)
    then have same: "woken (\<lambda>w. chan w = ch) all ws s2 = woken (\<lambda>w. chan w = ch) all ws s"
      by (auto simp: woken_def cong: filter_cong)
    have "ts = (acc @ [t]) @ woken (\<lambda>w. chan w = ch) all ws s2" if all
      using Cons.IH [of kp "acc @ [t]" s2] s2(2) that Cons.prems(2) by simp
    then show ?thesis using True s2(2) same by (cases all) (simp_all add: woken_Cons)
  next
    case False
    then show ?thesis using Cons by (auto simp: woken_Cons assert_then_def res_simps)
  qed
qed

text \<open>A thread is reported as active exactly when it is woken.\<close>

lemma db_signal_list:
  assumes "db_signal opt u ch all s = Inr (ts, s')" and "distinct (waitq s)"
  shows "ts = signalled ch all s"
proof -
  have "signal_list_loop opt ch all [] (waitq s) [] s = Inr (ts, s')"
    using assms(1) by (auto simp: db_signal_def assert_then_def assert_res_def res_simps split: if_splits)
  from signal_list_loop_woken [OF this assms(2)] show ?thesis by (simp add: signalled_def)
qed

section \<open>A tool that does what the C library does\<close>

text \<open>The base class then behaves as in the other build, but for the receive loop and the non-blocking option.\<close>

lemma db_base_call_plain:
  assumes "exports env f" and "handle_fits env d"
  obtains re r' w' d' where "base_call os u f args e (r, w) = Inr (re, r', w')"
    "db_base_call env os u f args e (r, w, d) = Inr (re, r', w', d')" "attachedToDbug d' = attachedToDbug d"
proof -
  obtain d' where d': "dbug_call env os u f args (set_errno u e r, w, d) =
      Inr (case os_call os u f args (set_errno u e r, w) of (ret, r', w') \<Rightarrow> (ret, r', w', d'))" "attachedToDbug d' = attachedToDbug d"
    using dbug_call_ok [OF assms, of os u args "set_errno u e r" w] by (elim exE conjE)
  obtain ret r' w' where "os_call os u f args (set_errno u e r, w) = (ret, r', w')" by (metis surj_pair)
  then show thesis using d' by (intro that [of "(ret, errno (tls_of r' u))" r' w' d']) (simp_all add: base_call_def db_base_call_def with_errno_def report_def)
qed

section \<open>Operations\<close>

text \<open>
  What the operations do to the flags: \<open>keeps\<close> for those that leave them alone, \<open>leaves\<close> for those
  that set the flag of the calling thread.
\<close>

definition leaves :: "dbug_env \<Rightarrow> tid \<Rightarrow> bool \<Rightarrow> 'w db_state \<Rightarrow> 'w db_state \<Rightarrow> bool" where
  "leaves env u b s s' \<longleftrightarrow> (fits env s \<longrightarrow> fits env s' \<and> flags s' = (flags s)(u := b))"

definition keeps :: "dbug_env \<Rightarrow> 'w db_state \<Rightarrow> 'w db_state \<Rightarrow> bool" where
  "keeps env s s' \<longleftrightarrow> (fits env s \<longrightarrow> fits env s' \<and> flags s' = flags s)"

lemma keeps_refl: "keeps env (r, w, d) (r', w', d)"
  by (simp add: keeps_def fits_def flags_def)

lemma keeps_trans: "keeps env s s1 \<Longrightarrow> keeps env s1 s2 \<Longrightarrow> keeps env s s2"
  by (simp add: keeps_def)

lemma leaves_keeps: "keeps env s s1 \<Longrightarrow> leaves env u b s1 s2 \<Longrightarrow> leaves env u b s s2"
  "leaves env u b s s1 \<Longrightarrow> keeps env s1 s2 \<Longrightarrow> leaves env u b s s2"
  by (simp_all add: keeps_def leaves_def)

lemma leaves_leaves: "leaves env u b s s1 \<Longrightarrow> leaves env u b' s1 s2 \<Longrightarrow> leaves env u b' s s2"
  by (simp add: leaves_def)

lemma tool_leaves:
  "attach_self_to_dbug opt env db u s = Inr s' \<Longrightarrow> leaves env u True s s'"
  "detach_self_from_dbug opt env db u s = Inr s' \<Longrightarrow> leaves env u False s s'"
  "detach_barrier_end opt env db u i n s = Inr s' \<Longrightarrow> leaves env u False s s'"
  by (simp_all add: leaves_def attach_sets detach_sets detach_barrier_sets)

lemma tool_keeps:
  "dbug_call env db u f args s = Inr (ret, s') \<Longrightarrow> keeps env s s'"
  "dbug_tell env db u f args s = Inr s' \<Longrightarrow> keeps env s s'"
  by (simp_all add: keeps_def dbug_call_keeps dbug_tell_keeps)

lemma with_errno_keeps: "keeps env s (with_errno u e s)"
  by (cases s) (simp add: with_errno_def keeps_refl)

lemma report_keeps: "report u (ret, s) = Inr (re, s') \<Longrightarrow> s' = s"
  by (cases s) (simp add: report_def)

text \<open>A call between attaching and detaching.\<close>

lemma bracket_leaves:
  assumes "res_bind (attach_self_to_dbug opt env db u s) (\<lambda>s. res_bind (dbug_call env db u f args s) (\<lambda>(ret, s).
     res_bind (detach_self_from_dbug opt env db u s) (\<lambda>s. g ret s))) = Inr y"
  obtains ret s' where "g ret s' = Inr y" "leaves env u False s s'"
proof -
  obtain s1 ret s2 s3 where k: "attach_self_to_dbug opt env db u s = Inr s1" "dbug_call env db u f args s1 = Inr (ret, s2)"
     "detach_self_from_dbug opt env db u s2 = Inr s3" "g ret s3 = Inr y"
    using assms by (auto simp: res_simps)
  have "leaves env u False s s3"
    by (rule leaves_leaves [OF leaves_keeps(2) [OF tool_leaves(1) [OF k(1)] tool_keeps(1) [OF k(2)]] tool_leaves(2) [OF k(3)]])
  then show thesis by (rule that [OF k(4)])
qed

lemma create_leaves:
  assumes "db_pthread_create opt env db os u idle th a fn arg s = Inr (ret, s')"
  shows "if idle then keeps env s s' else leaves env u False s s'"
proof (cases idle)
  case False
  with assms have "res_bind (attach_self_to_dbug opt env db u s) (\<lambda>s. res_bind (dbug_call env db u ''pthread_create'' [th, a, fn, arg] s)
     (\<lambda>(ret, s). res_bind (detach_self_from_dbug opt env db u s) (\<lambda>s. Inr (ret, s)))) = Inr (ret, s')" by (simp add: db_pthread_create_def)
  then show ?thesis using False by (elim bracket_leaves) simp
next
  case True
  then show ?thesis using assms by (cases s) (auto simp: db_pthread_create_def base_pthread_create_def keeps_refl split: prod.splits)
qed

lemma join_leaves: "db_pthread_join opt env db u th rv s = Inr (ret, s') \<Longrightarrow> leaves env u False s s'"
  unfolding db_pthread_join_def by (elim bracket_leaves) simp

lemma fork_leaves:
  assumes "db_fork opt env db u e s = Inr (re, s')"
  shows "leaves env u False s s'"
  using assms unfolding db_fork_def
  by (elim bracket_leaves) (auto dest!: report_keeps intro: leaves_keeps(1) [OF with_errno_keeps])

lemma dispatch_keeps:
  assumes "db_dispatch opt env db os u f args e s = Inr (re, s')"
  shows "keeps env s s'"
proof -
  consider (both) "db_base_both env db os u f args e s = Inr (re, s')"
    | (libc) r w d where "s = (r, w, d)" "res_bind (base_dispatch opt os u f args e (r, w)) (\<lambda>(re, r, w). Inr (re, r, w, d)) = Inr (re, s')"
    | (tool) "db_base_call env db u f args e s = Inr (re, s')"
    using assms by (cases s) (simp add: db_dispatch_def split: if_splits)
  then show ?thesis
  proof cases
    case both
    then obtain ret r w d where k: "dbug_call env db u f args (with_errno u e s) = Inr (ret, r, w, d)"
      "(case os_call os u f args (r, w) of (ret, r, w) \<Rightarrow> report u (ret, r, w, d)) = Inr (re, s')"
      by (auto simp: db_base_both_def res_simps)
    then obtain r' w' where "s' = (r', w', d)" by (cases "os_call os u f args (r, w)") (auto simp: report_def)
    then show ?thesis using keeps_trans [OF keeps_trans [OF with_errno_keeps tool_keeps(1) [OF k(1)]] keeps_refl] by simp
  next
    case libc
    then show ?thesis by (auto simp: res_simps keeps_refl)
  next
    case tool
    then show ?thesis
      by (auto simp: db_base_call_def res_simps dest!: report_keeps tool_keeps(1) intro: keeps_trans [OF with_errno_keeps])
  qed
qed

lemma io_attach_leaves:
  assumes "db_io_attach opt env db u st s = Inr (st', s')"
  shows "st' = st" and "(case st of IoCall _ _ \<Rightarrow> leaves env u True s s' | _ \<Rightarrow> s' = s)"
  using assms by (auto simp: db_io_attach_def res_simps dest: tool_leaves split: io_step.splits)

lemma io_start_leaves:
  assumes "db_io_start opt env db u f args s = Inr (st, s')"
  shows "case st of IoCall _ _ \<Rightarrow> leaves env u True s s' | _ \<Rightarrow> keeps env s s'"
proof -
  obtain r w d where s: "s = (r, w, d)" by (metis surj_pair)
  obtain st1 r1 where k: "db_io_attach opt env db u st1 (r1, w, d) = Inr (st, s')" using assms s by (auto simp: db_io_start_def res_simps)
  from io_attach_leaves [OF k] keeps_refl [of env r w d r1 w] s show ?thesis by (auto split: io_step.splits intro: leaves_keeps(1))
qed

lemma io_turn_leaves:
  assumes "db_io_turn opt env db u f args s = Inr (st, s')"
  shows "leaves env u True s s'"
proof -
  obtain r w d where s: "s = (r, w, d)" by (metis surj_pair)
  obtain r1 where k: "db_io_attach opt env db u (IoCall f args) (r1, w, d) = Inr (st, s')"
    using assms s by (auto simp: db_io_turn_def io_turn_def res_simps)
  from io_attach_leaves(2) [OF k] keeps_refl [of env r w d r1 w] s show ?thesis by (auto intro: leaves_keeps(1))
qed

lemma io_end_leaves:
  assumes "db_io_end opt env db u ret e s = Inr (re, s')"
  shows "leaves env u False s s'"
proof -
  obtain r w d r' where k: "detach_self_from_dbug opt env db u s = Inr (r, w, d)" "s' = (r', w, d)"
    using assms by (auto simp: db_io_end_def res_simps)
  show ?thesis unfolding k(2) by (rule leaves_keeps(2) [OF tool_leaves(2) [OF k(1)] keeps_refl])
qed

lemma io_finish_leaves:
  assumes "db_io_finish opt env db os u (IoCall f args) e s = Some (Inr (re, s'))"
  shows "leaves env u False s s'"
proof -
  obtain ret e' s1 where "db_dispatch opt env db os u f args e s = Inr ((ret, e'), s1)" "db_io_end opt env db u ret e' s1 = Inr (re, s')"
    using assms by (auto simp: db_io_finish_def res_simps)
  then show ?thesis using leaves_keeps(1) [OF dispatch_keeps io_end_leaves] by blast
qed

lemma syncWait_keeps:
  assumes "db_syncWait opt env db u ch n s = Inr s'"
  shows "keeps env s s'"
proof -
  obtain r w d r' where k: "thread_waiting env db u s = Inr (r, w, d)" "s' = (r', w, d)" using assms by (auto simp: db_syncWait_def res_simps)
  show ?thesis unfolding k(2) by (rule keeps_trans [OF tool_keeps(2) keeps_refl]) (rule k(1) [unfolded thread_waiting_def])
qed

lemma active_fold_keeps:
  "res_fold (\<lambda>t. thread_active env db u (g t)) ts s = Inr s' \<Longrightarrow> keeps env s s'"
proof (induction ts arbitrary: s)
  case Nil
  then show ?case by (simp add: keeps_def)
next
  case (Cons t ts)
  then obtain s1 where s1: "thread_active env db u (g t) s = Inr s1" "res_fold (\<lambda>t. thread_active env db u (g t)) ts s1 = Inr s'"
    by (cases "thread_active env db u (g t) s") simp_all
  show ?case by (rule keeps_trans [OF tool_keeps(2) [OF s1(1) [unfolded thread_active_def]] Cons.IH [OF s1(2)]])
qed

lemma syncSignal_keeps:
  assumes "db_syncSignal opt env db u ch b s = Inr s'"
  shows "keeps env s s'"
proof -
  obtain r w d where s: "s = (r, w, d)" by (metis surj_pair)
  obtain ts sc where k: "res_fold (\<lambda>t. thread_active env db u (handle_arg t (tids sc))) ts (r\<lparr>sch := sc\<rparr>, w, d) = Inr s'"
    using assms s by (auto simp: db_syncSignal_def res_simps)
  show ?thesis using keeps_trans [OF keeps_refl active_fold_keeps [OF k]] s by simp
qed

lemma create_turn_leaves:
  assumes "db_create_turn opt env db os u ins e th fn arg outer s = Inr (out, s')"
  shows "keeps env s s' \<or> leaves env u False s s'"
proof -
  obtain r w d where s: "s = (r, w, d)" by (metis surj_pair)
  obtain r1 r2 w2 d2 r' ret where k: "db_pthread_create opt env db os u (th = idle_th r1) (int th) 0 (int fn) arg (r1, w, d) = Inr (ret, r2, w2, d2)"
    "s' = (r', w2, d2)" using assms s by (auto simp: db_create_turn_def assert_then_def res_simps)
  have a: "keeps env s (r1, w, d)" "keeps env (r2, w2, d2) s'" using s k(2) keeps_refl by simp_all
  from create_leaves [OF k(1)] show ?thesis
    using keeps_trans [OF keeps_trans [OF a(1)] a(2)] leaves_keeps(2) [OF leaves_keeps(1) [OF a(1)] a(2)] by (auto split: if_splits)
qed

lemma join_call_leaves:
  assumes "db_join_call opt env db u th rv s = Inr (ret, s')"
  shows "leaves env u False s s'"
proof -
  obtain r w d r' where k: "db_pthread_join opt env db u (int th) rv s = Inr (ret, r, w, d)" "s' = (r', w, d)"
    using assms by (auto simp: db_join_call_def res_simps)
  show ?thesis unfolding k(2) by (rule leaves_keeps(2) [OF join_leaves [OF k(1)] keeps_refl])
qed

lemma join_turn_keeps: "db_join_turn opt u s = Inr s' \<Longrightarrow> keeps env s s'"
  by (cases s) (auto simp: db_join_turn_def res_simps keeps_refl)

lemma fork_turn_leaves:
  assumes "db_fork_turn opt env db u ins e idle fn mu s = Inr (out, s')"
  shows "leaves env u False s s'"
proof -
  obtain r w d where s: "s = (r, w, d)" by (metis surj_pair)
  obtain r1 re r2 w2 d2 r' where k: "db_fork opt env db u e (r1, w, d) = Inr (re, r2, w2, d2)" "s' = (r', w2, d2)"
    using assms s by (auto simp: db_fork_turn_def res_simps)
  show ?thesis using leaves_keeps(2) [OF leaves_keeps(1) [OF keeps_refl fork_leaves [OF k(1)]] keeps_refl] s k(2) by simp
qed

lemma region_start_leaves:
  assumes "db_non_det_start_turn opt env db u s = Inr (out, s')"
  shows "leaves env u True s s'"
proof -
  obtain r w d where s: "s = (r, w, d)" by (metis surj_pair)
  obtain r1 r2 w2 d2 r' where k: "attach_self_to_dbug opt env db u (r1, w, d) = Inr (r2, w2, d2)" "s' = (r', w2, d2)"
    using assms s by (auto simp: db_non_det_start_turn_def Let_def res_simps)
  show ?thesis using leaves_keeps(2) [OF leaves_keeps(1) [OF keeps_refl tool_leaves(1) [OF k(1)]] keeps_refl] s k(2) by simp
qed

lemma region_end_leaves:
  assumes "db_region_end opt detach u s = Inr s'" and "\<And>s s'. detach s = Inr s' \<Longrightarrow> leaves env u False s s'"
  shows "leaves env u False s s'"
proof -
  obtain r w d where s: "s = (r, w, d)" by (metis surj_pair)
  obtain r1 r2 w2 d2 r' where k: "detach (r1, w, d) = Inr (r2, w2, d2)" "s' = (r', w2, d2)"
    using assms(1) s by (auto simp: db_region_end_def assert_then_def res_simps)
  show ?thesis using leaves_keeps(2) [OF leaves_keeps(1) [OF keeps_refl assms(2) [OF k(1)]] keeps_refl] s k(2) by simp
qed

lemma region_ends:
  "db_nonDetEnd opt env db u s = Inr s' \<Longrightarrow> leaves env u False s s'"
  "db_nonDetBarrierEnd opt env db u i n s = Inr s' \<Longrightarrow> leaves env u False s s'"
  by (simp_all add: db_nonDetEnd_def db_nonDetBarrierEnd_def region_end_leaves tool_leaves)

section \<open>The lives of the threads\<close>

text \<open>
  Where a thread is: not started yet; running under the scheduler (and then maybe about to take the turn
  to leave the run queue for a call or a join); in a blocking call; entering a region; in a region; or it is
  the idle thread.
\<close>

datatype phase = Born | Runs | Joins | Calls | Enters | Region | Idle

text \<open>The phases in which the tool has the thread.\<close>

definition on_tool :: "phase \<Rightarrow> bool" where
  "on_tool p \<longleftrightarrow> p \<in> {Born, Calls, Enters, Region, Idle}"

inductive life :: "options \<Rightarrow> dbug_env \<Rightarrow> 'w os \<Rightarrow> 'w os \<Rightarrow> tid \<Rightarrow> phase \<Rightarrow> 'w db_state \<Rightarrow> phase \<Rightarrow> 'w db_state \<Rightarrow> bool"
  for opt env db os u where
  main_start: "db_prog_begin opt env db u th ob h s = Inr (as, h', s') \<Longrightarrow> life opt env db os u Born s Runs s'"
| start: "idle_th r \<noteq> th_handle (tls_of r u) \<Longrightarrow> db_thread_func_start opt env db u (r, w, d) = Inr s' \<Longrightarrow> life opt env db os u Born (r, w, d) Runs s'"
| idle: "idle_th r = th_handle (tls_of r u) \<Longrightarrow> db_thread_func_start opt env db u (r, w, d) = Inr s' \<Longrightarrow> life opt env db os u Born (r, w, d) Idle s'"
| segment: "rt_step opt u r r' \<or> hook_step opt u r r' \<Longrightarrow> life opt env db os u p (r, w, d) p (r', w, d)"
| sync_wait: "db_syncWait opt env db u ch n s = Inr s' \<Longrightarrow> life opt env db os u p s p s'"
| sync_signal: "db_syncSignal opt env db u ch b s = Inr s' \<Longrightarrow> life opt env db os u p s p s'"
| base: "db_dispatch opt env db os u f args e s = Inr (re, s') \<Longrightarrow> life opt env db os u p s p s'"
| io_start: "db_io_start opt env db u f args s = Inr (st, s') \<Longrightarrow>
    life opt env db os u Runs s (case st of IoCall _ _ \<Rightarrow> Calls | _ \<Rightarrow> Runs) s'"
| io_turn: "db_io_turn opt env db u f args s = Inr (st, s') \<Longrightarrow> life opt env db os u Runs s Calls s'"
| io_end: "db_io_finish opt env db os u (IoCall f args) e s = Some (Inr (re, s')) \<Longrightarrow> life opt env db os u Calls s Runs s'"
| create: "db_create_turn opt env db os u ins e th fn arg outer s = Inr (out, s') \<Longrightarrow> life opt env db os u Runs s Runs s'"
| join_turn: "db_join_turn opt u s = Inr s' \<Longrightarrow> life opt env db os u Runs s Joins s'"
| join_call: "db_join_call opt env db u th rv s = Inr (ret, s') \<Longrightarrow> life opt env db os u Joins s Runs s'"
| fork: "db_fork_turn opt env db u ins e th fn mu s = Inr (out', s') \<Longrightarrow> life opt env db os u Runs s Runs s'"
| region_start: "db_non_det_start_turn opt env db u s = Inr (out, s') \<Longrightarrow> life opt env db os u Runs s Enters s'"
| region_in: "non_det_block_turn opt u r = Inr (out, r') \<Longrightarrow> life opt env db os u Enters (r, w, d) Region (r', w, d)"
| region_end: "db_nonDetEnd opt env db u s = Inr s' \<Longrightarrow> life opt env db os u Region s Runs s'"
| region_barrier_end: "db_nonDetBarrierEnd opt env db u i n s = Inr s' \<Longrightarrow> life opt env db os u Region s Runs s'"
| detach: "db_threadDetach env db u s = Inr s' \<Longrightarrow> life opt env db os u p s p s'"

lemma threadDetach_keeps: "db_threadDetach env db u s = Inr s' \<Longrightarrow> keeps env s s'"
  by (simp add: db_threadDetach_def thread_detach_def tool_keeps(2))

lemma start_leaves:
  "db_prog_begin opt env db u th ob h s = Inr (as, h', s') \<Longrightarrow> leaves env u False s s'"
  "idle_th r \<noteq> th_handle (tls_of r u) \<Longrightarrow> db_thread_func_start opt env db u (r, w, d) = Inr s1 \<Longrightarrow> leaves env u False (r, w, d) s1"
  "idle_th r = th_handle (tls_of r u) \<Longrightarrow> db_thread_func_start opt env db u (r, w, d) = Inr s1 \<Longrightarrow> s1 = (r, w, d)"
  by (auto simp: db_prog_begin_def db_thread_func_start_def res_simps dest: tool_leaves(2))

lemma life_leaves:
  assumes "life opt env db os u p s p' s'"
  shows "leaves env u (on_tool p') s s' \<or> keeps env s s' \<and> on_tool p' = on_tool p"
  using assms
proof (induction rule: life.induct)
  case (io_start f args s st s')
  then show ?case using io_start_leaves [OF io_start] by (cases st) (auto simp: on_tool_def)
qed (auto simp: on_tool_def intro: start_leaves(1,2) keeps_refl threadDetach_keeps syncWait_keeps syncSignal_keeps dispatch_keeps io_turn_leaves io_finish_leaves
  join_turn_keeps join_call_leaves fork_turn_leaves region_start_leaves region_ends dest: create_turn_leaves start_leaves(3))

text \<open>The threads together.\<close>

definition lives :: "options \<Rightarrow> dbug_env \<Rightarrow> 'w os \<Rightarrow> 'w os \<Rightarrow> (tid \<Rightarrow> phase) \<times> 'w db_state \<Rightarrow> (tid \<Rightarrow> phase) \<times> 'w db_state \<Rightarrow> bool" where
  "lives opt env db os = (\<lambda>(ph, s) (ph', s'). \<exists>u p'. life opt env db os u (ph u) s p' s' \<and> ph' = ph(u := p'))"

lemma lives_flags:
  assumes "(lives opt env db os)\<^sup>*\<^sup>* (\<lambda>_. Born, r, w, dbug_initial) c"
  shows "fits env (snd c) \<and> flags (snd c) = (\<lambda>u. on_tool (fst c u))"
  using assms
proof (induction rule: rtranclp_induct)
  case base
  show ?case by (simp add: fits_def handle_fits_def dbug_initial_def flags_def on_tool_def)
next
  case (step c c')
  obtain ph s ph' s' where c: "c = (ph, s)" "c' = (ph', s')" by (metis surj_pair)
  then obtain u p' where k: "life opt env db os u (ph u) s p' s'" "ph' = ph(u := p')" using step(2) by (auto simp: lives_def)
  from life_leaves [OF k(1)] step(3) c k(2) show ?case by (auto simp: leaves_def keeps_def fun_eq_iff)
qed

lemma attach_ok:
  assumes "installed env" and "fits env s" and "\<not> flags s u"
  shows "\<exists>s'. attach_self_to_dbug opt env db u s = Inr s'"
proof -
  obtain r w d where s: "s = (r, w, d)" by (metis surj_pair)
  have "\<exists>s'. dbug_tell env db u ''dbug_on'' [] (r, w, set_attached u True d) = Inr s'"
    by (rule dbug_tell_ok) (use assms(1,2) s in \<open>simp_all add: fits_def installed_def\<close>)
  then show ?thesis using assms(3) s by (simp add: attach_self_to_dbug_def assert_then_def flags_def)
qed

lemma detach_ok:
  assumes "installed env" and "fits env s" and "flags s u"
  shows "\<exists>s'. detach_self_from_dbug opt env db u s = Inr s'" and "\<exists>s'. detach_barrier_end opt env db u i n s = Inr s'"
proof -
  obtain r w d where s: "s = (r, w, d)" by (metis surj_pair)
  have t: "\<exists>s'. dbug_tell env db u f args (r, w, set_attached u False d) = Inr s'" if "exports env f" for f args
    by (rule dbug_tell_ok [OF that]) (use assms(2) s in \<open>simp add: fits_def\<close>)
  have e: "exports env ''dbug_off''" "exports env ''dbug_off_barrier''" using assms(1) by (simp_all add: installed_def)
  show "\<exists>s'. detach_self_from_dbug opt env db u s = Inr s'"
    using t [OF e(1), of "[]"] assms(3) s by (simp add: detach_self_from_dbug_def assert_then_def flags_def)
  show "\<exists>s'. detach_barrier_end opt env db u i n s = Inr s'"
    using t [OF e(2), of "[i, n]"] assms(3) s by (simp add: detach_barrier_end_def assert_then_def flags_def)
qed

text \<open>The end of the process, from the application space.\<close>

lemma prog_end_exits:
  assumes "installed env" and "fits env (r, w, d)" and "\<not> flags (r, w, d) u" and "prog_began h" and "isApp u r"
  shows "db_prog_end opt env db u h (r, w, d) = Inl (ExitProcess 0)"
proof -
  have c: "fits env (cross u r, w, d)" "\<not> flags (cross u r, w, d) u" using assms(2,3) by (simp_all add: fits_def flags_def)
  obtain r' w' d' where s': "attach_self_to_dbug opt env db u (cross u r, w, d) = Inr (r', w', d')"
    using attach_ok [OF assms(1) c, of opt db] by auto
  have "handle_fits env d'" using attach_sets(1) [OF s' c(1)] by (simp add: fits_def)
  moreover have "exports env ''_exit''" using assms(1) by (simp add: installed_def)
  ultimately show ?thesis using dbug_call_ok [of env "''_exit''" d' db u "[int 0]" r' w']
      assms(4) enterSys_ok(1) [OF assms(5), of opt] s' by (auto simp: db_prog_end_def db_exit_def assert_then_def)
qed

text \<open>A thread the tool has cannot be attached again.\<close>

lemma attach_twice:
  assumes "flags s u" and "\<not> ndebug opt"
  shows "attach_self_to_dbug opt env db u s = Inl AssertFailed"
  using assms by (cases s) (simp add: attach_self_to_dbug_def assert_then_def flags_def)

end
