(* ===== verification/BusyWait.thy ===== *)
theory BusyWait
  imports RtBase
begin

text \<open>
  Busy waiting, \<open>lib/runtime/busywait.c\<close>: the comparison and the normalization of
  \<open>struct timeval\<close> and the loop that polls the clock. The readings of \<open>gettimeofday\<close> are
  an argument of the model, a function from the number of the call to the time it returns.

  The lemmas show that the two loops of \<open>timeval_normalize\<close> end, that its result is the
  quotient and the remainder of the length in microseconds (truncated towards zero), that
  \<open>timeval_lt\<close> compares normalized times by length, and that \<open>busy_wait\<close> returns exactly at
  the first reading that lies the wanted time after the first one.
\<close>

section \<open>Definitions\<close>

record timeval =
  tvl_sec :: int
  tvl_usec :: int

definition USEC_PER_SEC :: int where
  "USEC_PER_SEC = 1000000"

definition timeval_lt :: "timeval \<Rightarrow> timeval \<Rightarrow> bool" where
  "timeval_lt tv1 tv2 \<longleftrightarrow>
     tvl_sec tv1 < tvl_sec tv2 \<or> tvl_sec tv1 = tvl_sec tv2 \<and> tvl_usec tv1 < tvl_usec tv2"

text \<open>The two loops, over \<open>tv_sec\<close> and \<open>tv_usec\<close>.\<close>

function carry_up :: "int \<Rightarrow> int \<Rightarrow> int \<times> int" where
  "carry_up s u = (if u \<ge> USEC_PER_SEC then carry_up (s + 1) (u - USEC_PER_SEC) else (s, u))"
  by pat_completeness auto

termination
  by (relation "measure (\<lambda>(s, u). nat u)") (auto simp: USEC_PER_SEC_def)

function carry_down :: "int \<Rightarrow> int \<Rightarrow> int \<times> int" where
  "carry_down s u = (if u \<le> - USEC_PER_SEC then carry_down (s - 1) (u + USEC_PER_SEC) else (s, u))"
  by pat_completeness auto

termination
  by (relation "measure (\<lambda>(s, u). nat (- u))") (auto simp: USEC_PER_SEC_def)

declare carry_up.simps [simp del] carry_down.simps [simp del]

definition timeval_normalize :: "timeval \<Rightarrow> timeval" where
  "timeval_normalize tv =
     (let (s, u) = carry_up (tvl_sec tv) (tvl_usec tv);
          (s, u) = carry_down s u
      in if u < 0 \<and> s > 0 then \<lparr>tvl_sec = s - 1, tvl_usec = USEC_PER_SEC - (- 1 * u)\<rparr>
         else if u > 0 \<and> s < 0 then \<lparr>tvl_sec = s + 1, tvl_usec = - USEC_PER_SEC - (- 1 * u)\<rparr>
         else \<lparr>tvl_sec = s, tvl_usec = u\<rparr>)"

text \<open>
  The loop of \<open>busy_wait\<close>: the number of the reading at which it stops; it may poll for ever
  when the clock does not get there.
\<close>

partial_function (option) poll :: "(nat \<Rightarrow> timeval) \<Rightarrow> timeval \<Rightarrow> nat \<Rightarrow> nat option" where
  "poll clock stop i = (if timeval_lt (clock i) stop then poll clock stop (i + 1) else Some i)"

definition stop_time :: "timeval \<Rightarrow> u32 \<Rightarrow> timeval" where
  "stop_time start wait_usec = timeval_normalize (start\<lparr>tvl_usec := tvl_usec start + uint wait_usec\<rparr>)"

definition busy_wait :: "(nat \<Rightarrow> timeval) \<Rightarrow> u32 \<Rightarrow> nat option" where
  "busy_wait clock wait_usec = poll clock (stop_time (clock 0) wait_usec) 1"

section \<open>Normalization\<close>

definition usecs :: "timeval \<Rightarrow> int" where
  "usecs tv = tvl_sec tv * USEC_PER_SEC + tvl_usec tv"

text \<open>Less than a second of microseconds, and no two parts of different sign.\<close>

definition tv_normal :: "timeval \<Rightarrow> bool" where
  "tv_normal tv \<longleftrightarrow> \<bar>tvl_usec tv\<bar> < USEC_PER_SEC \<and> \<not> (tvl_usec tv < 0 \<and> tvl_sec tv > 0)
     \<and> \<not> (tvl_usec tv > 0 \<and> tvl_sec tv < 0)"

lemma carry_up_spec:
  assumes "carry_up s u = (s', u')"
  shows "s' * USEC_PER_SEC + u' = s * USEC_PER_SEC + u \<and> u' < USEC_PER_SEC \<and> (u \<ge> 0 \<longrightarrow> u' \<ge> 0) \<and> (u < 0 \<longrightarrow> u' = u)"
  using assms
proof (induction s u arbitrary: s' u' rule: carry_up.induct)
  case (1 s u)
  show ?case
  proof (cases "u \<ge> USEC_PER_SEC")
    case True
    then have "carry_up (s + 1) (u - USEC_PER_SEC) = (s', u')"
      using 1(2) by (simp add: carry_up.simps [of s u])
    from 1(1) [OF True this] True show ?thesis
      by (auto simp: distrib_right USEC_PER_SEC_def)
  next
    case False
    then show ?thesis using 1(2) by (simp add: carry_up.simps [of s u])
  qed
qed

lemma carry_down_spec:
  assumes "carry_down s u = (s', u')" and "u < USEC_PER_SEC"
  shows "s' * USEC_PER_SEC + u' = s * USEC_PER_SEC + u \<and> \<bar>u'\<bar> < USEC_PER_SEC"
  using assms
proof (induction s u arbitrary: s' u' rule: carry_down.induct)
  case (1 s u)
  show ?case
  proof (cases "u \<le> - USEC_PER_SEC")
    case True
    then have "carry_down (s - 1) (u + USEC_PER_SEC) = (s', u')"
      using 1(2) by (simp add: carry_down.simps [of s u])
    moreover have "u + USEC_PER_SEC < USEC_PER_SEC" using True by (simp add: USEC_PER_SEC_def)
    ultimately show ?thesis
      using 1(1) [OF True] by (simp add: left_diff_distrib)
  next
    case False
    then show ?thesis using 1(2,3) by (simp add: carry_down.simps [of s u] abs_less_iff)
  qed
qed

lemma normalize_normal: "tv_normal (timeval_normalize tv)"
  and normalize_usecs: "usecs (timeval_normalize tv) = usecs tv"
proof -
  obtain s u where up: "carry_up (tvl_sec tv) (tvl_usec tv) = (s, u)" by fastforce
  obtain s' u' where down: "carry_down s u = (s', u')" by fastforce
  note a = carry_up_spec [OF up] and b = carry_down_spec [OF down]
  show "tv_normal (timeval_normalize tv)" "usecs (timeval_normalize tv) = usecs tv"
    using a b by (auto simp: timeval_normalize_def up down tv_normal_def usecs_def USEC_PER_SEC_def)
qed

lemma usecs_between:
  assumes "tv_normal tv"
  shows "tvl_sec tv = usecs tv sdiv USEC_PER_SEC" "tvl_usec tv = usecs tv smod USEC_PER_SEC"
proof -
  define s u where "s = tvl_sec tv" and "u = tvl_usec tv"
  have n: "\<bar>u\<bar> < 1000000" "\<not> (u < 0 \<and> s > 0)" "\<not> (u > 0 \<and> s < 0)"
    using assms by (simp_all add: tv_normal_def USEC_PER_SEC_def s_def u_def)
  have d: "(s * 1000000 + u) sdiv 1000000 = s"
  proof (cases "s * 1000000 + u \<ge> 0")
    case True
    then have "u \<ge> 0" "s \<ge> 0" using n by linarith+
    then show ?thesis using n by (auto simp: signed_divide_int_def sgn_if)
  next
    case False
    then have "u \<le> 0" "s \<le> 0" using n by linarith+
    then have "\<bar>s * 1000000 + u\<bar> div 1000000 = - s" using n False by simp
    then show ?thesis using False by (simp add: signed_divide_int_def)
  qed
  show "tvl_sec tv = usecs tv sdiv USEC_PER_SEC" "tvl_usec tv = usecs tv smod USEC_PER_SEC"
    using d sdiv_mult_smod_eq [of "s * 1000000 + u" 1000000]
    by (simp_all add: usecs_def USEC_PER_SEC_def s_def u_def)
qed

lemma timeval_lt_usecs:
  assumes "tv_normal a" and "tv_normal b"
  shows "timeval_lt a b \<longleftrightarrow> usecs a < usecs b"
  using assms by (auto simp: timeval_lt_def tv_normal_def usecs_def USEC_PER_SEC_def)

section \<open>Polling\<close>

lemma poll_stops:
  assumes "\<not> timeval_lt (clock (i + n)) stop" and "\<forall>j < n. timeval_lt (clock (i + j)) stop"
  shows "poll clock stop i = Some (i + n)"
  using assms
proof (induction n arbitrary: i)
  case 0
  then show ?case by (simp add: poll.simps [of clock stop i])
next
  case (Suc n)
  have "timeval_lt (clock i) stop" using Suc.prems(2) by (metis add.right_neutral zero_less_Suc)
  moreover have "poll clock stop (i + 1) = Some (i + 1 + n)"
  proof (rule Suc.IH)
    show "\<not> timeval_lt (clock (i + 1 + n)) stop" using Suc.prems(1) by simp
    show "\<forall>j < n. timeval_lt (clock (i + 1 + j)) stop"
      using Suc.prems(2) by (metis Suc_less_eq add.assoc plus_1_eq_Suc)
  qed
  ultimately show ?case by (simp add: poll.simps [of clock stop i])
qed

lemma stop_time_normal [simp]: "tv_normal (stop_time start w)"
  by (simp add: stop_time_def normalize_normal)

lemma stop_time_usecs [simp]: "usecs (stop_time start w) = usecs start + uint w"
  by (simp add: stop_time_def normalize_usecs) (simp add: usecs_def)

lemma busy_wait_first:
  assumes normal: "\<forall>i. tv_normal (clock i)" and reached: "usecs (clock (Suc m)) \<ge> usecs (clock 0) + uint w"
  obtains n where "busy_wait clock w = Some n" "1 \<le> n" "n \<le> Suc m"
    "usecs (clock n) \<ge> usecs (clock 0) + uint w"
    "\<forall>i. 1 \<le> i \<and> i < n \<longrightarrow> usecs (clock i) < usecs (clock 0) + uint w"
proof -
  let ?P = "\<lambda>k. usecs (clock (Suc k)) \<ge> usecs (clock 0) + uint w"
  have lt: "timeval_lt (clock i) (stop_time (clock 0) w) \<longleftrightarrow> usecs (clock i) < usecs (clock 0) + uint w" for i
    using normal by (simp add: timeval_lt_usecs)
  define k where "k = (LEAST k. ?P k)"
  have k: "?P k" and before: "j < k \<Longrightarrow> \<not> ?P j" and le: "k \<le> m" for j
    using LeastI [of ?P, OF reached] not_less_Least [of j ?P] Least_le [of ?P, OF reached] by (auto simp: k_def)
  have "busy_wait clock w = Some (1 + k)"
    unfolding busy_wait_def using k before by (intro poll_stops) (auto simp: lt not_le)
  moreover have "usecs (clock i) < usecs (clock 0) + uint w" if "1 \<le> i" "i < 1 + k" for i
    using before [of "i - 1"] that by (simp add: not_le)
  ultimately show thesis using that [of "1 + k"] k le by auto
qed

end
