(* ===== verification/Annotations.thy ===== *)
theory Annotations
  imports Hooks RecordLog BusyWait
begin

text \<open>
  The annotations a programmer puts into the program: \<open>dync_hook/annotation_hooks.cpp\<close>, the
  versions of the interception library, and \<open>dync_hook/xtern-annot.cpp\<close>, those of a program that
  runs without it. An annotation calls its hook only when the application (not the runtime
  itself) executes it, in DMT mode, with annotations enforced and with the option of its kind
  set; otherwise it does nothing. The result is \<open>None\<close> when nothing was done, else what the hook
  returned.
\<close>

section \<open>Guards\<close>

definition annotated :: "options \<Rightarrow> tid \<Rightarrow> rt \<Rightarrow> bool" where
  "annotated opt self r \<longleftrightarrow> isApp self r \<and> DMT opt \<and> enforce_annotations opt"

definition guarded :: "bool \<Rightarrow> (rt \<Rightarrow> ('a \<times> rt) res) \<Rightarrow> rt \<Rightarrow> ('a option \<times> rt) res" where
  "guarded b hook r = (if b then res_bind (hook r) (\<lambda>(x, r). Inr (Some x, r)) else Inr (None, r))"

definition guarded_rt :: "bool \<Rightarrow> (rt \<Rightarrow> rt res) \<Rightarrow> rt \<Rightarrow> rt res" where
  "guarded_rt b hook r = (if b then hook r else Inr r)"

section \<open>Line-ups\<close>

type_synonym annot_bar = "(bar_pc outcome option \<times> rt) res"
type_synonym annot_thread = "(thread_pc outcome option \<times> rt) res"

definition soba_init :: "options \<Rightarrow> tid \<Rightarrow> int \<Rightarrow> u32 \<Rightarrow> u32 \<Rightarrow> rt \<Rightarrow> annot_bar" where
  "soba_init opt self opaque_type n timeout_turns r =
     guarded (annotated opt self r \<and> \<not> disable_soba opt) (tern_lineup_init_real opt self opaque_type n timeout_turns) r"

definition soba_destroy :: "options \<Rightarrow> tid \<Rightarrow> int \<Rightarrow> rt \<Rightarrow> annot_bar" where
  "soba_destroy opt self opaque_type r =
     guarded (annotated opt self r \<and> \<not> disable_soba opt) (tern_lineup_destroy_real opt self opaque_type) r"

definition tern_lineup_start :: "options \<Rightarrow> tid \<Rightarrow> int \<Rightarrow> rt \<Rightarrow> annot_bar" where
  "tern_lineup_start opt self opaque_type r =
     guarded (annotated opt self r \<and> \<not> disable_soba opt) (tern_lineup_start_real opt self opaque_type) r"

definition tern_lineup_end :: "options \<Rightarrow> tid \<Rightarrow> int \<Rightarrow> rt \<Rightarrow> annot_bar" where
  "tern_lineup_end opt self opaque_type r =
     guarded (annotated opt self r \<and> \<not> disable_soba opt) (tern_lineup_end_real opt self opaque_type) r"

text \<open>
  \<open>soba_wait\<close> up to the return of \<open>tern_lineup_start_real\<close>, and what it does then. The guard is
  evaluated once, at its start.
\<close>

definition soba_wait :: "options \<Rightarrow> tid \<Rightarrow> int \<Rightarrow> rt \<Rightarrow> annot_bar" where
  "soba_wait opt self opaque_type r =
     guarded (annotated opt self r \<and> \<not> disable_soba opt) (tern_lineup_start_real opt self opaque_type) r"

definition soba_wait_end :: "options \<Rightarrow> tid \<Rightarrow> int \<Rightarrow> rt \<Rightarrow> annot_bar" where
  "soba_wait_end opt self opaque_type r = guarded True (tern_lineup_end_real opt self opaque_type) r"

section \<open>Non-deterministic regions and turns\<close>

definition pcs_enter :: "options \<Rightarrow> tid \<Rightarrow> rt \<Rightarrow> annot_thread" where
  "pcs_enter opt self r =
     guarded (annotated opt self r \<and> enforce_non_det_annotations opt \<noteq> 0) (tern_non_det_start_real opt self) r"

definition pcs_exit :: "options \<Rightarrow> tid \<Rightarrow> rt \<Rightarrow> rt res" where
  "pcs_exit opt self r =
     guarded_rt (annotated opt self r \<and> enforce_non_det_annotations opt \<noteq> 0) (tern_non_det_end_real opt self) r"

definition no_wait_pcs_enter :: "options \<Rightarrow> tid \<Rightarrow> rt \<Rightarrow> rt res" where
  "no_wait_pcs_enter opt self r =
     guarded_rt (annotated opt self r \<and> enforce_no_wait_non_det_annotations opt \<noteq> 0) (tern_no_wait_non_det_start_real opt self) r"

definition no_wait_pcs_exit :: "options \<Rightarrow> tid \<Rightarrow> rt \<Rightarrow> rt res" where
  "no_wait_pcs_exit opt self r =
     guarded_rt (annotated opt self r \<and> enforce_no_wait_non_det_annotations opt \<noteq> 0) (tern_no_wait_non_det_end_real opt self) r"

definition slock_next_n :: "options \<Rightarrow> tid \<Rightarrow> int \<Rightarrow> rt \<Rightarrow> rt res" where
  "slock_next_n opt self next_n_turns r =
     guarded_rt (annotated opt self r \<and> enforce_next_n_annotations opt) (tern_set_slock_next_n opt self next_n_turns) r"

definition annot_ext_get_turn :: "options \<Rightarrow> tid \<Rightarrow> rt \<Rightarrow> annot_thread" where
  "annot_ext_get_turn opt self r =
     guarded (annotated opt self r \<and> enforce_ext_turn opt) (tern_ext_get_turn opt self) r"

definition annot_ext_put_turn :: "options \<Rightarrow> tid \<Rightarrow> rt \<Rightarrow> annot_thread" where
  "annot_ext_put_turn opt self r =
     guarded (annotated opt self r \<and> enforce_ext_turn opt) (tern_ext_put_turn opt self) r"

definition tern_dummy_sync :: "options \<Rightarrow> tid \<Rightarrow> rt \<Rightarrow> annot_thread" where
  "tern_dummy_sync opt self r =
     guarded (annotated opt self r \<and> enforce_dummy_sync opt) (tern_dummy_sync_real opt self) r"

definition annot_propose_thread_role :: "options \<Rightarrow> tid \<Rightarrow> pthread \<Rightarrow> func \<Rightarrow> rt \<Rightarrow> rt res" where
  "annot_propose_thread_role opt self th role_func r =
     guarded_rt (annotated opt self r) (tern_propose_thread_role opt self th role_func) r"

definition tern_detach :: "options \<Rightarrow> tid \<Rightarrow> rt \<Rightarrow> rt res" where
  "tern_detach opt self r = guarded_rt (annotated opt self r) (tern_detach_real opt self) r"

definition pcs_barrier_exit :: "options \<Rightarrow> tid \<Rightarrow> int \<Rightarrow> int \<Rightarrow> rt \<Rightarrow> rt res" where
  "pcs_barrier_exit opt self bar_id cnt r =
     guarded_rt (annotated opt self r \<and> enforce_non_det_annotations opt \<noteq> 0) (tern_non_det_barrier_end_real opt self bar_id cnt) r"

section \<open>Tasks\<close>

text \<open>The marks of tasks do not ask for the space or for DMT mode.\<close>

definition marks_tasks :: "options \<Rightarrow> bool" where
  "marks_tasks opt \<longleftrightarrow> enforce_delays opt \<or> log_task_time opt \<noteq> 0"

definition annot_mark_task_start :: "options \<Rightarrow> tid \<Rightarrow> int \<Rightarrow> timespec \<Rightarrow> rt \<Rightarrow> rt" where
  "annot_mark_task_start opt self task_id now r =
     (if marks_tasks opt then tern_mark_task_start opt self task_id now r else r)"

definition annot_mark_task_end :: "options \<Rightarrow> tid \<Rightarrow> int \<Rightarrow> timespec \<Rightarrow> rt \<Rightarrow> (u32 option \<times> rt) res" where
  "annot_mark_task_end opt self task_id now r =
     (if marks_tasks opt then tern_mark_task_end opt self task_id now r else Inr (None, r))"

definition annot_unmark_task :: "options \<Rightarrow> tid \<Rightarrow> int \<Rightarrow> rt \<Rightarrow> rt res" where
  "annot_unmark_task opt self task_id r = guarded_rt (marks_tasks opt) (tern_unmark_task opt self task_id) r"

section \<open>Base times and iterations\<close>

definition tern_set_base_timespec :: "options \<Rightarrow> tid \<Rightarrow> timespec option \<Rightarrow> rt \<Rightarrow> rt res" where
  "tern_set_base_timespec opt self ts r = guarded_rt (annotated opt self r) (tern_set_base_time_real opt self ts) r"

text \<open>The argument is read before the guard: a null pointer faults even when annotations are off.\<close>

definition tern_set_base_timeval :: "options \<Rightarrow> tid \<Rightarrow> timeval option \<Rightarrow> rt \<Rightarrow> rt res" where
  "tern_set_base_timeval opt self tv r = (case tv of
     None \<Rightarrow> Inl NullDeref
   | Some v \<Rightarrow> guarded_rt (annotated opt self r)
       (tern_set_base_time_real opt self (Some \<lparr>tv_sec = tvl_sec v, tv_nsec = tvl_usec v * 1000\<rparr>)) r)"

text \<open>The number of the iteration goes to the logger of the thread; only the text logger keeps it.\<close>

definition rt_set_iter_num :: "options \<Rightarrow> int \<Rightarrow> logger option \<Rightarrow> logger option res" where
  "rt_set_iter_num opt iter lg =
     (if log_sync opt
      then case lg of None \<Rightarrow> Inl NullDeref
         | Some (TxtLog l) \<Rightarrow> Inr (Some (TxtLog (set_iter_num iter l)))
         | Some l \<Rightarrow> Inr (Some l)
      else Inr lg)"

definition tern_set_iter_real :: "options \<Rightarrow> int \<Rightarrow> logger option \<Rightarrow> logger option res" where
  "tern_set_iter_real opt itr lg = rt_set_iter_num opt itr lg"

definition tern_set_iter :: "options \<Rightarrow> int \<Rightarrow> logger option \<Rightarrow> logger option res" where
  "tern_set_iter opt itr lg = tern_set_iter_real opt itr lg"

section \<open>Without the interception library\<close>

text \<open>The functions of \<open>xtern-annot.cpp\<close> that compute something; all others have an empty body.\<close>

definition time_to_long :: "timeval option \<Rightarrow> int res" where
  "time_to_long tv = (case tv of None \<Rightarrow> Inl NullDeref | Some v \<Rightarrow> Inr (tvl_sec v * 100000 + tvl_usec v))"

definition tern_time_diff :: "timeval option \<Rightarrow> timeval option \<Rightarrow> int res" where
  "tern_time_diff fin start = (case (fin, start) of
     (Some e, Some s) \<Rightarrow> Inr ((tvl_sec e - tvl_sec s) * 1000000 + (tvl_usec e - tvl_usec s))
   | _ \<Rightarrow> Inl NullDeref)"

section \<open>When annotations do nothing\<close>

lemma guarded_False [simp]: "guarded False hook r = Inr (None, r)" "guarded_rt False op r = Inr r"
  by (simp_all add: guarded_def guarded_rt_def)

lemma guarded_True [simp]: "guarded_rt True op r = op r"
  by (simp add: guarded_rt_def)

lemma guarded_eq_None:
  "guarded b hook r = Inr (None, r') \<longleftrightarrow> \<not> b \<and> r' = r"
  by (auto simp: guarded_def res_simps)

lemmas annotation_defs = soba_init_def soba_destroy_def tern_lineup_start_def tern_lineup_end_def soba_wait_def
  pcs_enter_def pcs_exit_def no_wait_pcs_enter_def no_wait_pcs_exit_def slock_next_n_def annot_ext_get_turn_def
  annot_ext_put_turn_def tern_dummy_sync_def annot_propose_thread_role_def tern_detach_def pcs_barrier_exit_def
  tern_set_base_timespec_def

text \<open>Inside the runtime, outside DMT mode or with annotations switched off every annotation is a no-op.\<close>

lemma annotations_off:
  assumes "\<not> annotated opt self r"
  shows "soba_init opt self x n k r = Inr (None, r)" "soba_destroy opt self x r = Inr (None, r)"
    "tern_lineup_start opt self x r = Inr (None, r)" "tern_lineup_end opt self x r = Inr (None, r)"
    "soba_wait opt self x r = Inr (None, r)" "pcs_enter opt self r = Inr (None, r)" "pcs_exit opt self r = Inr r"
    "no_wait_pcs_enter opt self r = Inr r" "no_wait_pcs_exit opt self r = Inr r" "slock_next_n opt self i r = Inr r"
    "annot_ext_get_turn opt self r = Inr (None, r)" "annot_ext_put_turn opt self r = Inr (None, r)"
    "tern_dummy_sync opt self r = Inr (None, r)" "annot_propose_thread_role opt self th f r = Inr r"
    "tern_detach opt self r = Inr r" "pcs_barrier_exit opt self b c r = Inr r" "tern_set_base_timespec opt self ts r = Inr r"
  using assms by (simp_all add: annotation_defs)

text \<open>With the default options only the line-ups, the roles, the base times and \<open>tern_detach\<close> do anything.\<close>

lemma annotations_default:
  "pcs_enter default_options self r = Inr (None, r)" "pcs_exit default_options self r = Inr r"
  "no_wait_pcs_enter default_options self r = Inr r" "no_wait_pcs_exit default_options self r = Inr r"
  "slock_next_n default_options self i r = Inr r" "annot_ext_get_turn default_options self r = Inr (None, r)"
  "annot_ext_put_turn default_options self r = Inr (None, r)" "tern_dummy_sync default_options self r = Inr (None, r)"
  "annot_mark_task_start default_options self k now r = r" "annot_mark_task_end default_options self k now r = Inr (None, r)"
  "annot_unmark_task default_options self k r = Inr r" "pcs_barrier_exit default_options self b c r = Inr r"
  by (simp_all add: annotation_defs annot_mark_task_start_def annot_mark_task_end_def annot_unmark_task_def
    marks_tasks_def default_options_def)

text \<open>A line-up annotation in force behaves as its hook does.\<close>

lemma soba_in_force:
  assumes "annotated opt self r" and "\<not> disable_soba opt"
  shows "soba_wait opt self x r = res_bind (tern_lineup_start_real opt self x r) (\<lambda>(out, r). Inr (Some out, r))"
  using assms by (simp add: soba_wait_def guarded_def)

text \<open>The set base time of a thread, in nanoseconds, from a time in microseconds.\<close>

lemma tern_time_diff_usecs:
  "tern_time_diff (Some e) (Some s) = Inr (usecs e - usecs s)"
  by (simp add: tern_time_diff_def usecs_def USEC_PER_SEC_def algebra_simps)

text \<open>\<open>time_to_long\<close> counts a second as a tenth of one: differences of its values are not microseconds.\<close>

lemma time_to_long_usecs:
  "time_to_long (Some v) = Inr (usecs v - 900000 * tvl_sec v)"
  by (simp add: time_to_long_def usecs_def USEC_PER_SEC_def)

end
