(* ===== verification/Fcfs.thy ===== *)
theory Fcfs
  imports RtThread BaseRuntime
begin

text \<open>
  The recording scheduler without an order of its own: \<open>RecordSerializer\<close> of
  \<open>include/tern/runtime/record-scheduler.h\<close>, whose turn is a mutex that whoever comes first takes, and
  the operations \<open>lib/runtime/record-runtime.cpp\<close> specializes for it. Condition variables and barriers
  are those of the C library here; the turn is the mutex a thread gives up while it waits on a
  condition variable.

  A segment runs from the moment the thread has the turn to the call that gives it up or blocks.
  Beside the specialized operations the model has mutex locking and unlocking, the start of a
  non-deterministic region and the end of a thread, which are the templates of the runtime over this
  scheduler; the other templates open and close in the same way and are not repeated here.

  The lemmas show that every one of these segments gives the turn up, that waiting releases the
  program's mutex and joins the waiters in one segment, so that no signal is lost, that a woken thread
  returns only with the mutex, and that the inherited \<open>block\<close> keeps the turn for ever.
\<close>

section \<open>The serializer\<close>

text \<open>
  \<open>fc_lock\<close> is the owner of the turn; \<open>fc_waiting\<close> are the threads inside \<open>pthread_cond_wait\<close> of the
  C library.
\<close>

record fcfs =
  fc_rt :: rt
  fc_lock :: "tid option"
  fc_waiting :: "vptr \<Rightarrow> tid list"

text \<open>\<open>None\<close>: the thread has to wait for the mutex.\<close>

definition fc_getTurn :: "tid \<Rightarrow> fcfs \<Rightarrow> fcfs option" where
  "fc_getTurn self s = (if fc_lock s = None then Some (s\<lparr>fc_lock := Some self\<rparr>) else None)"

definition on_rt :: "(rt \<Rightarrow> rt) \<Rightarrow> fcfs \<Rightarrow> fcfs" where
  "on_rt f s = s\<lparr>fc_rt := f (fc_rt s)\<rparr>"

definition fc_putTurn :: "options \<Rightarrow> tid \<Rightarrow> bool \<Rightarrow> fcfs \<Rightarrow> fcfs res" where
  "fc_putTurn opt self at_thread_end s =
     res_bind (if at_thread_end
       then res_bind (tm_zombify opt self (th_handle (tls_of (fc_rt s) self)) (tids (sch (fc_rt s)))) (\<lambda>m.
            Inr (on_rt (\<lambda>r. r\<lparr>sch := (sch r)\<lparr>tids := m\<rparr>\<rparr>) s))
       else Inr s) (\<lambda>s. Inr (s\<lparr>fc_lock := None\<rparr>))"

definition fc_incTurnCount :: "fcfs \<Rightarrow> u32 \<times> fcfs" where
  "fc_incTurnCount s = (case ser_incTurnCount (sch (fc_rt s)) of (n, sc) \<Rightarrow> (n, on_rt (\<lambda>r. r\<lparr>sch := sc\<rparr>) s))"

text \<open>\<open>wait\<close> up to its \<open>getTurn\<close>; it returns 0 when it has the turn again.\<close>

definition fc_wait :: "options \<Rightarrow> tid \<Rightarrow> fcfs \<Rightarrow> fcfs res" where
  "fc_wait opt self s = fc_putTurn opt self False (snd (fc_incTurnCount s))"

text \<open>
  \<open>block\<close> is inherited. \<open>putTurn\<close> of \<open>RecordSerializer\<close> has another parameter than the virtual function of
  \<open>Serializer\<close> and does not override it: \<open>block\<close> takes the mutex and calls the empty \<open>putTurn\<close>.
  \<open>nonDetStart\<close> calls \<open>block\<close>, and so does \<open>pthreadJoin\<close> in the build for dBug; the
  blocking calls do not, because the inherited \<open>interProStart\<close> answers false.
\<close>

definition ser_putTurn :: "fcfs \<Rightarrow> fcfs" where
  "ser_putTurn s = s"

definition fc_block :: "tid \<Rightarrow> fcfs \<Rightarrow> (u32 \<times> fcfs) option" where
  "fc_block self s = map_option (\<lambda>s. case fc_incTurnCount s of (n, s) \<Rightarrow> (n, ser_putTurn s)) (fc_getTurn self s)"

section \<open>Opening and closing an operation\<close>

text \<open>\<open>changeRole\<close> is here that of \<open>TidMap\<close>.\<close>

definition fc_change_role :: "options \<Rightarrow> tid \<Rightarrow> rt \<Rightarrow> rt res" where
  "fc_change_role opt self r =
     (if process_proposed_role (tls_of r self) \<and> proposed_role r \<noteq> []
      then res_bind (res_fold (\<lambda>th m. tm_changeRole opt th (the (map_of (proposed_role r) th)) m)
                      (set_order opt (map fst (proposed_role r))) (tids (sch r))) (\<lambda>m.
           Inr (upd_tls self (\<lambda>t. t\<lparr>process_proposed_role := False\<rparr>) (r\<lparr>sch := (sch r)\<lparr>tids := m\<rparr>, proposed_role := []\<rparr>)))
      else Inr r)"

definition fc_start :: "options \<Rightarrow> tid \<Rightarrow> fcfs \<Rightarrow> fcfs res" where
  "fc_start opt self s =
     (let s = (if th_handle (tls_of (fc_rt s) self) \<noteq> idle_th (fc_rt s)
               then on_rt (upd_stat opt (\<lambda>x. x\<lparr>nDetPthreadSyncOp := nDetPthreadSyncOp x + 1\<rparr>)) s else s) in
      res_bind (fc_change_role opt self (fc_rt s)) (\<lambda>r. Inr (s\<lparr>fc_rt := r\<rparr>)))"

definition fc_fake_end :: "options \<Rightarrow> tid \<Rightarrow> u32 \<Rightarrow> syncfunc \<Rightarrow> int list \<Rightarrow> fcfs \<Rightarrow> fcfs" where
  "fc_fake_end opt self ins op args s =
     (case fc_incTurnCount s of (nturn, s) \<Rightarrow> on_rt (logSync opt self ins op nturn False args) s)"

definition fc_end_common :: "options \<Rightarrow> tid \<Rightarrow> u32 \<Rightarrow> syncfunc \<Rightarrow> int list \<Rightarrow> fcfs \<Rightarrow> fcfs" where
  "fc_end_common opt self ins op args s =
     (let s = snd (fc_incTurnCount s);
          s = (if generate_per_sync_stats opt then on_rt (recordSync self op) s else s) in
      on_rt (logSync opt self ins op (ser_getTurnCount (sch (fc_rt s))) True args) s)"

definition fc_end :: "options \<Rightarrow> tid \<Rightarrow> u32 \<Rightarrow> syncfunc \<Rightarrow> int list \<Rightarrow> fcfs \<Rightarrow> fcfs res" where
  "fc_end opt self ins op args s =
     (let s = on_rt (\<lambda>r. snd (getPutTurnStrategy opt self op r)) (fc_end_common opt self ins op args s) in
      res_bind (fc_putTurn opt self False s) (\<lambda>s.
      let s = (if slock_n_turns (tls_of (fc_rt s) self) > 0
               then on_rt (upd_tls self (\<lambda>t. t\<lparr>slock_n_turns := slock_n_turns t - 1\<rparr>)) s else s) in
      res_bind (check_cv_wait_cnt opt self (fc_rt s)) (\<lambda>r. Inr (s\<lparr>fc_rt := r\<rparr>))))"

section \<open>Condition variables\<close>

text \<open>
  Where a thread goes on: with the turn again after \<open>pthread_cond_wait\<close> or \<open>pthread_cond_timedwait\<close> of the
  C library returned \<open>ret\<close>; before or after the barrier; after \<open>wait\<close> for a busy mutex or for the
  start of a non-deterministic region; before \<open>block\<close>.
\<close>

datatype fc_pc =
    FcCondLock u32 vptr vptr
  | FcTimedLock u32 vptr vptr int
  | FcBarSecond u32 vptr
  | FcBarWait u32 vptr
  | FcBarLast u32 vptr int
  | FcMutexRetry u32 vptr
  | FcNonDetWoken
  | FcNonDetBlock

type_synonym fc_out = "(fc_pc outcome \<times> fcfs) res"

definition drop_nth :: "nat \<Rightarrow> 'a list \<Rightarrow> 'a list" where
  "drop_nth i xs = take i xs @ drop (i + 1) xs"

text \<open>\<open>pthread_cond_wait(cv, getLock())\<close>: joining the waiters and giving up the turn are one step.\<close>

definition cond_block :: "tid \<Rightarrow> vptr \<Rightarrow> fcfs \<Rightarrow> fcfs" where
  "cond_block self cv s = s\<lparr>fc_waiting := (fc_waiting s)(cv := fc_waiting s cv @ [self]), fc_lock := None\<rparr>"

definition unlock_mutex :: "tid \<Rightarrow> vptr \<Rightarrow> fcfs \<Rightarrow> fcfs" where
  "unlock_mutex self mu = on_rt (\<lambda>r. snd (posix_mutex_unlock self mu r))"

definition fc_condWait :: "options \<Rightarrow> tid \<Rightarrow> u32 \<Rightarrow> int \<Rightarrow> vptr \<Rightarrow> vptr \<Rightarrow> fcfs \<Rightarrow> fc_out" where
  "fc_condWait opt self ins error cv mu s =
     res_bind (fc_start opt self s) (\<lambda>s.
     let s = unlock_mutex self mu s;
          s = fc_fake_end opt self ins ''pthread_cond_wait'' [int cv, int mu] s in
      Inr (Await (FcCondLock ins cv mu), cond_block self cv (on_rt (set_errno self error) s)))"

definition fc_condTimedWait :: "options \<Rightarrow> tid \<Rightarrow> u32 \<Rightarrow> int \<Rightarrow> vptr \<Rightarrow> vptr \<Rightarrow> fcfs \<Rightarrow> fc_out" where
  "fc_condTimedWait opt self ins error cv mu s =
     res_bind (fc_start opt self s) (\<lambda>s.
     let s = unlock_mutex self mu s;
          s = fc_fake_end opt self ins ''pthread_cond_timedwait'' [int cv, int mu] s in
      Inr (Await (FcTimedLock ins cv mu 0), cond_block self cv (on_rt (set_errno self error) s)))"

text \<open>Woken and with the turn: one round of the loop that takes the program's mutex again.\<close>

definition fc_relock :: "options \<Rightarrow> tid \<Rightarrow> vptr \<Rightarrow> fc_pc \<Rightarrow> (fcfs \<Rightarrow> fc_out) \<Rightarrow> fcfs \<Rightarrow> fc_out" where
  "fc_relock opt self mu again k s =
     (case posix_mutex_trylock self mu (fc_rt s) of (ret, r) \<Rightarrow>
        if ret = 0 then k (s\<lparr>fc_rt := r\<rparr>)
        else assert_then opt (ret = EBUSY)
          (res_bind (fc_wait opt self (s\<lparr>fc_rt := r\<rparr>)) (\<lambda>s. Inr (Await again, s))))"

definition fc_condWait_woken :: "options \<Rightarrow> tid \<Rightarrow> u32 \<Rightarrow> vptr \<Rightarrow> vptr \<Rightarrow> fcfs \<Rightarrow> fc_out" where
  "fc_condWait_woken opt self ins cv mu s =
     fc_relock opt self mu (FcCondLock ins cv mu) (\<lambda>s.
       let error = errno (tls_of (fc_rt s) self); s = snd (fc_incTurnCount s) in
       res_bind (fc_end opt self ins ''pthread_cond_wait'' [int cv, int mu] s) (\<lambda>s. Inr (Done 0 error, s))) s"

text \<open>\<open>ret\<close> is what \<open>pthread_cond_timedwait\<close> of the C library returned.\<close>

definition fc_condTimedWait_woken :: "options \<Rightarrow> tid \<Rightarrow> u32 \<Rightarrow> vptr \<Rightarrow> vptr \<Rightarrow> int \<Rightarrow> fcfs \<Rightarrow> fc_out" where
  "fc_condTimedWait_woken opt self ins cv mu ret s =
     assert_then opt (ret = 0 \<or> ret = int ETIMEDOUT)
       (fc_relock opt self mu (FcTimedLock ins cv mu ret) (\<lambda>s.
          let error = errno (tls_of (fc_rt s) self) in
          res_bind (fc_end opt self ins ''pthread_cond_timedwait'' [int cv, int mu, ret] s) (\<lambda>s. Inr (Done ret error, s))) s)"

text \<open>
  Which waiter \<open>pthread_cond_signal\<close> of the C library wakes is open: \<open>pick\<close> stands for its choice, and
  one is woken when there is one.
\<close>

definition cond_wake_one :: "vptr \<Rightarrow> nat \<Rightarrow> fcfs \<Rightarrow> fcfs" where
  "cond_wake_one cv pick s =
     (let ws = fc_waiting s cv in s\<lparr>fc_waiting := (fc_waiting s)(cv := drop_nth (pick mod length ws) ws)\<rparr>)"

definition fc_condSignal :: "options \<Rightarrow> tid \<Rightarrow> u32 \<Rightarrow> int \<Rightarrow> vptr \<Rightarrow> nat \<Rightarrow> fcfs \<Rightarrow> fc_out" where
  "fc_condSignal opt self ins error cv pick s =
     res_bind (fc_start opt self s) (\<lambda>s.
     let s = cond_wake_one cv pick (on_rt (set_errno self error) s) in
      res_bind (fc_end opt self ins ''pthread_cond_signal'' [int cv] s) (\<lambda>s. Inr (Done 0 error, s)))"

definition fc_condBroadcast :: "options \<Rightarrow> tid \<Rightarrow> u32 \<Rightarrow> int \<Rightarrow> vptr \<Rightarrow> fcfs \<Rightarrow> fc_out" where
  "fc_condBroadcast opt self ins error cv s =
     res_bind (fc_start opt self s) (\<lambda>s.
     let s = on_rt (set_errno self error) s;
          s = s\<lparr>fc_waiting := (fc_waiting s)(cv := [])\<rparr> in
      res_bind (fc_end opt self ins ''pthread_cond_broadcast'' [int cv] s) (\<lambda>s. Inr (Done 0 error, s)))"

section \<open>Barriers\<close>

definition fc_barrierWait :: "options \<Rightarrow> tid \<Rightarrow> u32 \<Rightarrow> vptr \<Rightarrow> fcfs \<Rightarrow> fc_out" where
  "fc_barrierWait opt self ins ba s =
     res_bind (fc_start opt self s) (\<lambda>s.
     let s = fc_fake_end opt self ins ''pthread_barrier_wait'' [int ba, 0] s in
      res_bind (fc_putTurn opt self False s) (\<lambda>s. Inr (Await (FcBarSecond ins ba), s)))"

definition fc_barrierWait_second :: "options \<Rightarrow> tid \<Rightarrow> u32 \<Rightarrow> int \<Rightarrow> vptr \<Rightarrow> fcfs \<Rightarrow> fc_out" where
  "fc_barrierWait_second opt self ins error ba s =
     res_bind (fc_putTurn opt self False (snd (fc_incTurnCount s))) (\<lambda>s.
     Inr (Await (FcBarWait ins ba), on_rt (set_errno self error) s))"

text \<open>The barrier of the C library returned \<open>ret\<close> and left \<open>error\<close>, and the thread has the turn.\<close>

definition fc_barrierWait_last :: "options \<Rightarrow> tid \<Rightarrow> u32 \<Rightarrow> int \<Rightarrow> vptr \<Rightarrow> int \<Rightarrow> fcfs \<Rightarrow> fc_out" where
  "fc_barrierWait_last opt self ins error ba ret s =
     assert_then opt (ret = 0 \<or> ret = PTHREAD_BARRIER_SERIAL_THREAD)
       (res_bind (fc_end opt self ins ''pthread_barrier_wait'' [int ba, ret] s) (\<lambda>s. Inr (Done ret error, s)))"

section \<open>Mutexes, regions and the end of a thread\<close>

text \<open>
  The templates over this scheduler. \<open>wait\<close> returns 0, so the helper of the mutex operations tries
  again each time; \<open>signal\<close> does nothing.
\<close>

definition fc_mutexLock_retry :: "options \<Rightarrow> tid \<Rightarrow> u32 \<Rightarrow> vptr \<Rightarrow> fcfs \<Rightarrow> fc_out" where
  "fc_mutexLock_retry opt self ins mu s =
     fc_relock opt self mu (FcMutexRetry ins mu) (\<lambda>s.
       let error = errno (tls_of (fc_rt s) self);
           s = (if policy opt 1 \<and> \<not> noCSWholeLocal (tls_of (fc_rt s) self)
                then on_rt (upd_tls self (\<lambda>t. t\<lparr>inCSLevel := inCSLevel t + 1\<rparr>)) s else s) in
       res_bind (fc_end opt self ins ''pthread_mutex_lock'' [int mu] s) (\<lambda>s. Inr (Done 0 error, s))) s"

definition fc_mutexLock :: "options \<Rightarrow> tid \<Rightarrow> u32 \<Rightarrow> int \<Rightarrow> vptr \<Rightarrow> fcfs \<Rightarrow> fc_out" where
  "fc_mutexLock opt self ins error mu s =
     res_bind (fc_start opt self s) (\<lambda>s. fc_mutexLock_retry opt self ins mu (on_rt (set_errno self error) s))"

definition fc_mutexUnlock :: "options \<Rightarrow> tid \<Rightarrow> u32 \<Rightarrow> int \<Rightarrow> vptr \<Rightarrow> fcfs \<Rightarrow> fc_out" where
  "fc_mutexUnlock opt self ins error mu s =
     res_bind (fc_start opt self s) (\<lambda>s.
     case posix_mutex_unlock self mu (set_errno self error (fc_rt s)) of (ret, r) \<Rightarrow>
       assert_then opt (ret = 0)
         (let e = errno (tls_of r self);
              r = (if policy opt 1 \<and> inCSLevel (tls_of r self) > 0 \<and> \<not> noCSWholeLocal (tls_of r self)
                   then upd_tls self (\<lambda>t. t\<lparr>inCSLevel := inCSLevel t - 1\<rparr>) r else r) in
          res_bind (fc_end opt self ins ''pthread_mutex_unlock'' [int mu, ret] (s\<lparr>fc_rt := r\<rparr>)) (\<lambda>s. Inr (Done ret e, s))))"

definition fc_nonDetStart :: "options \<Rightarrow> tid \<Rightarrow> fcfs \<Rightarrow> fc_out" where
  "fc_nonDetStart opt self s =
     res_bind (fc_start opt self s) (\<lambda>s.
     res_bind (fc_wait opt self
       (on_rt (\<lambda>r. set_nNonDetWait Suc (upd_stat opt (\<lambda>x. x\<lparr>nNonDetRegions := nNonDetRegions x + 1\<rparr>) r)) s)) (\<lambda>s.
     Inr (Await FcNonDetWoken, s)))"

definition fc_nonDetStart_woken :: "options \<Rightarrow> tid \<Rightarrow> fcfs \<Rightarrow> fc_out" where
  "fc_nonDetStart_woken opt self s =
     res_bind (fc_end opt self 0 ''tern_non_det_start'' [0] (on_rt (set_nNonDetWait (\<lambda>n. n - 1)) s)) (\<lambda>s.
     Inr (Await FcNonDetBlock, s))"

definition fc_threadEnd :: "options \<Rightarrow> tid \<Rightarrow> u32 \<Rightarrow> fcfs \<Rightarrow> fc_out" where
  "fc_threadEnd opt self ins s =
     res_bind (fc_start opt self s) (\<lambda>s.
     res_bind (fc_putTurn opt self True
       (fc_end_common opt self ins ''tern_thread_end'' [int (th_handle (tls_of (fc_rt s) self))] s)) (\<lambda>s.
     Inr (Done 0 0, s)))"

section \<open>Sleeping\<close>

text \<open>Sleeping does not take the turn at all.\<close>

definition fc_sleep :: "'w os \<Rightarrow> tid \<Rightarrow> int \<Rightarrow> int \<Rightarrow> 'w base_op" where
  "fc_sleep os self seconds = base_sleep os self seconds"

definition fc_usleep :: "'w os \<Rightarrow> tid \<Rightarrow> int \<Rightarrow> int \<Rightarrow> 'w base_op" where
  "fc_usleep os self usec = base_usleep os self usec"

definition fc_nanosleep :: "'w os \<Rightarrow> tid \<Rightarrow> int \<Rightarrow> int \<Rightarrow> int \<Rightarrow> 'w base_op" where
  "fc_nanosleep os self req rem = base_nanosleep os self req rem"


section \<open>Every segment gives the turn up\<close>

lemma on_rt_simps [simp]:
  "fc_rt (on_rt f s) = f (fc_rt s)" "fc_lock (on_rt f s) = fc_lock s" "fc_waiting (on_rt f s) = fc_waiting s"
  by (simp_all add: on_rt_def)

lemma fc_incTurnCount_simps [simp]:
  "fc_lock (snd (fc_incTurnCount s)) = fc_lock s" "fc_waiting (snd (fc_incTurnCount s)) = fc_waiting s"
  "mutexes (fc_rt (snd (fc_incTurnCount s))) = mutexes (fc_rt s)"
  "turnCount (sch (fc_rt (snd (fc_incTurnCount s)))) = turnCount (sch (fc_rt s)) + 1"
  by (simp_all add: fc_incTurnCount_def ser_incTurnCount_def)

lemma fc_putTurn_False [simp]: "fc_putTurn opt self False s = Inr (s\<lparr>fc_lock := None\<rparr>)"
  by (simp add: fc_putTurn_def)

lemma rt_frames [simp]:
  "mutexes (upd_stat opt f r) = mutexes r" "mutexes (recordSync t op r) = mutexes r"
  "mutexes (logSync opt t ins op n b args r) = mutexes r" "mutexes (upd_tls t g r) = mutexes r"
  "mutexes (set_errno t e r) = mutexes r" "mutexes (snd (getPutTurnStrategy opt t op r)) = mutexes r"
  by (simp_all add: upd_stat_def recordSync_def logSync_def upd_tls_def set_errno_def getPutTurnStrategy_def Let_def)

lemma check_cv_frame:
  "check_cv_wait_cnt opt self r = Inr r' \<Longrightarrow> mutexes r' = mutexes r"
  by (auto simp: check_cv_wait_cnt_def res_simps split: if_splits)

lemma fc_start_frame:
  assumes "fc_start opt self s = Inr s'"
  shows "fc_lock s' = fc_lock s \<and> fc_waiting s' = fc_waiting s \<and> mutexes (fc_rt s') = mutexes (fc_rt s)"
  using assms by (auto simp: fc_start_def fc_change_role_def Let_def res_simps split: if_split_asm)

lemma fc_start_plain:
  assumes "\<not> (process_proposed_role (tls_of (fc_rt s) self) \<and> proposed_role (fc_rt s) \<noteq> [])"
  shows "\<exists>s'. fc_start opt self s = Inr s'"
  using assms by (cases "process_proposed_role (tls_of (fc_rt s) self)")
    (auto simp: fc_start_def fc_change_role_def Let_def on_rt_def upd_stat_def)

lemma fc_fake_end_simps [simp]:
  "fc_lock (fc_fake_end opt self ins op args s) = fc_lock s" "fc_waiting (fc_fake_end opt self ins op args s) = fc_waiting s"
  "mutexes (fc_rt (fc_fake_end opt self ins op args s)) = mutexes (fc_rt s)"
  by (simp_all add: fc_fake_end_def fc_incTurnCount_def ser_incTurnCount_def)

lemma fc_end_common_simps [simp]:
  "fc_lock (fc_end_common opt self ins op args s) = fc_lock s" "fc_waiting (fc_end_common opt self ins op args s) = fc_waiting s"
  "mutexes (fc_rt (fc_end_common opt self ins op args s)) = mutexes (fc_rt s)"
  by (simp_all add: fc_end_common_def Let_def)

lemma fc_putTurn_frame:
  "fc_putTurn opt self b s = Inr s' \<Longrightarrow> fc_lock s' = None \<and> fc_waiting s' = fc_waiting s"
  by (auto simp: fc_putTurn_def res_simps split: if_split_asm)

lemma fc_end_frame:
  assumes "fc_end opt self ins op args s = Inr s'"
  shows "fc_lock s' = None \<and> fc_waiting s' = fc_waiting s \<and> mutexes (fc_rt s') = mutexes (fc_rt s)"
  using assms by (auto simp: fc_end_def Let_def res_simps dest!: check_cv_frame split: if_split_asm)

lemma unlock_mutex_simps [simp]:
  "fc_lock (unlock_mutex self mu s) = fc_lock s" "fc_waiting (unlock_mutex self mu s) = fc_waiting s"
  by (simp_all add: unlock_mutex_def)

section \<open>Interleavings\<close>

text \<open>The segments, with the choices the C library makes.\<close>

datatype fc_op =
    CondWait u32 int vptr vptr
  | CondTimedWait u32 int vptr vptr
  | CondWoken u32 vptr vptr
  | CondTimedWoken u32 vptr vptr int
  | CondSignal u32 int vptr nat
  | CondBroadcast u32 int vptr
  | BarWait u32 vptr
  | BarSecond u32 int vptr
  | BarLast u32 int vptr int
  | MutexLock u32 int vptr
  | MutexRetry u32 vptr
  | MutexUnlock u32 int vptr
  | NonDetStart
  | NonDetWoken
  | ThreadEnd u32

primrec fc_run :: "options \<Rightarrow> tid \<Rightarrow> fc_op \<Rightarrow> fcfs \<Rightarrow> fc_out" where
  "fc_run opt t (CondWait ins e cv mu) = fc_condWait opt t ins e cv mu"
| "fc_run opt t (CondTimedWait ins e cv mu) = fc_condTimedWait opt t ins e cv mu"
| "fc_run opt t (CondWoken ins cv mu) = fc_condWait_woken opt t ins cv mu"
| "fc_run opt t (CondTimedWoken ins cv mu ret) = fc_condTimedWait_woken opt t ins cv mu ret"
| "fc_run opt t (CondSignal ins e cv pick) = fc_condSignal opt t ins e cv pick"
| "fc_run opt t (CondBroadcast ins e cv) = fc_condBroadcast opt t ins e cv"
| "fc_run opt t (BarWait ins ba) = fc_barrierWait opt t ins ba"
| "fc_run opt t (BarSecond ins e ba) = fc_barrierWait_second opt t ins e ba"
| "fc_run opt t (BarLast ins e ba ret) = fc_barrierWait_last opt t ins e ba ret"
| "fc_run opt t (MutexLock ins e mu) = fc_mutexLock opt t ins e mu"
| "fc_run opt t (MutexRetry ins mu) = fc_mutexLock_retry opt t ins mu"
| "fc_run opt t (MutexUnlock ins e mu) = fc_mutexUnlock opt t ins e mu"
| "fc_run opt t NonDetStart = fc_nonDetStart opt t"
| "fc_run opt t NonDetWoken = fc_nonDetStart_woken opt t"
| "fc_run opt t (ThreadEnd ins) = fc_threadEnd opt t ins"

text \<open>What an operation checks before it asks for the turn.\<close>

definition fc_enter :: "options \<Rightarrow> tid \<Rightarrow> fc_op \<Rightarrow> fcfs \<Rightarrow> (fc_op outcome \<times> fcfs) res" where
  "fc_enter opt self op s =
     assert_then opt (enforce_non_det_annotations opt \<noteq> 0 \<longrightarrow> \<not> in_non_det self (fc_rt s)) (Inr (Await op, s))"

lemmas fc_op_defs = fc_condWait_def fc_condTimedWait_def fc_nonDetStart_def fc_nonDetStart_woken_def fc_threadEnd_def
  fc_condSignal_def fc_condBroadcast_def fc_barrierWait_def fc_barrierWait_second_def fc_barrierWait_last_def

lemma fc_relock_frame:
  assumes "fc_relock opt self mu again k s = Inr (out, s')"
    and "\<And>s1. fc_waiting s1 = fc_waiting s \<Longrightarrow> k s1 = Inr (out, s') \<Longrightarrow> fc_lock s' = None \<and> fc_waiting s' = fc_waiting s"
  shows "fc_lock s' = None \<and> fc_waiting s' = fc_waiting s"
  using assms(1) assms(2) [of "s\<lparr>fc_rt := snd (posix_mutex_trylock self mu (fc_rt s))\<rparr>"]
  by (auto simp: fc_relock_def fc_wait_def assert_then_def res_simps split: prod.split_asm if_split_asm)

lemma fc_mutexLock_retry_frame:
  assumes "fc_mutexLock_retry opt self ins mu s = Inr (out, s')"
  shows "fc_lock s' = None \<and> fc_waiting s' = fc_waiting s"
  using assms unfolding fc_mutexLock_retry_def
  by (rule fc_relock_frame) (auto simp: Let_def res_simps dest!: fc_end_frame split: if_split_asm)

lemma fc_mutexUnlock_frame:
  assumes "fc_mutexUnlock opt self ins e mu s = Inr (out, s')"
  shows "fc_lock s' = None \<and> fc_waiting s' = fc_waiting s"
proof -
  obtain s1 where s1: "fc_start opt self s = Inr s1" using assms by (auto simp: fc_mutexUnlock_def res_simps)
  obtain ret r where "posix_mutex_unlock self mu (set_errno self e (fc_rt s1)) = (ret, r)" by fastforce
  then show ?thesis using assms s1
    by (auto simp: fc_mutexUnlock_def Let_def assert_then_def res_simps dest!: fc_end_frame fc_start_frame)
qed

text \<open>Which threads wait afterwards: the caller joins, one leaves, or all leave.\<close>

definition waiting_after :: "fc_op \<Rightarrow> tid \<Rightarrow> (vptr \<Rightarrow> tid list) \<Rightarrow> vptr \<Rightarrow> tid list" where
  "waiting_after op t w = (case op of
     CondWait _ _ cv _ \<Rightarrow> w(cv := w cv @ [t])
   | CondTimedWait _ _ cv _ \<Rightarrow> w(cv := w cv @ [t])
   | CondSignal _ _ cv pick \<Rightarrow> w(cv := drop_nth (pick mod length (w cv)) (w cv))
   | CondBroadcast _ _ cv \<Rightarrow> w(cv := [])
   | _ \<Rightarrow> w)"

lemma fc_run_waiting:
  assumes "fc_run opt t op s = Inr (out, s')"
  shows "fc_lock s' = None \<and> fc_waiting s' = waiting_after op t (fc_waiting s)"
proof (cases op)
  case (CondWoken ins cv mu)
  have "fc_lock s' = None \<and> fc_waiting s' = fc_waiting s"
    using assms unfolding CondWoken fc_run.simps fc_condWait_woken_def
    by (rule fc_relock_frame) (auto simp: Let_def res_simps dest!: fc_end_frame)
  then show ?thesis by (simp add: CondWoken waiting_after_def)
next
  case (CondTimedWoken ins cv mu ret)
  have "fc_lock s' = None \<and> fc_waiting s' = fc_waiting s"
    using assms unfolding CondTimedWoken fc_run.simps fc_condTimedWait_woken_def assert_then_def check_eq_Inr
    by (elim conjE) (rule fc_relock_frame, assumption, auto simp: Let_def res_simps dest!: fc_end_frame)
  then show ?thesis by (simp add: CondTimedWoken waiting_after_def)
qed (use assms in \<open>auto simp: fc_op_defs fc_mutexLock_def fc_wait_def Let_def cond_block_def cond_wake_one_def waiting_after_def
  assert_then_def res_simps dest!: fc_end_frame fc_start_frame fc_mutexLock_retry_frame fc_mutexUnlock_frame
  fc_putTurn_frame\<close>)

text \<open>The inherited \<open>block\<close> takes the turn when it is free, and keeps it.\<close>

lemma fc_block_keeps:
  assumes "fc_block self s = Some (n, s')"
  shows "fc_lock s' = Some self" and "fc_lock s = None" and "fc_waiting s' = fc_waiting s"
  using assms by (auto simp: fc_block_def fc_getTurn_def fc_incTurnCount_def ser_incTurnCount_def ser_putTurn_def on_rt_def
    split: prod.split_asm if_split_asm option.split_asm)

text \<open>
  The threads between \<open>getTurn\<close> and the call that gives the turn up are \<open>H\<close>. A thread outside takes the turn
  when it is free and the thread does not wait on a condition variable; a thread in \<open>H\<close> runs a segment;
  a thread outside calls \<open>block\<close>; a wait on a condition variable can end by itself.
\<close>

inductive fc_step :: "options \<Rightarrow> tid set \<times> fcfs \<Rightarrow> tid set \<times> fcfs \<Rightarrow> bool" for opt where
  take_turn: "fc_getTurn t s = Some s' \<Longrightarrow> \<forall>cv. t \<notin> set (fc_waiting s cv) \<Longrightarrow> fc_step opt (H, s) (insert t H, s')"
| segment: "t \<in> H \<Longrightarrow> fc_run opt t op s = Inr (out, s') \<Longrightarrow> fc_step opt (H, s) (H - {t}, s')"
| block: "t \<notin> H \<Longrightarrow> \<forall>cv. t \<notin> set (fc_waiting s cv) \<Longrightarrow> fc_block t s = Some (n, s') \<Longrightarrow> fc_step opt (H, s) (H, s')"
| timeout: "t \<in> set (fc_waiting s cv) \<Longrightarrow>
    fc_step opt (H, s) (H, s\<lparr>fc_waiting := (fc_waiting s)(cv := remove1 t (fc_waiting s cv))\<rparr>)"

inductive fc_reachable :: "options \<Rightarrow> tid set \<times> fcfs \<Rightarrow> bool" for opt where
  start: "fc_lock s = None \<Longrightarrow> fc_waiting s = (\<lambda>_. []) \<Longrightarrow> fc_reachable opt ({}, s)"
| step: "fc_reachable opt x \<Longrightarrow> fc_step opt x y \<Longrightarrow> fc_reachable opt y"

definition fc_inv :: "tid set \<Rightarrow> fcfs \<Rightarrow> bool" where
  "fc_inv H s \<longleftrightarrow> (\<forall>t \<in> H. fc_lock s = Some t) \<and> (\<forall>t cv. fc_lock s = Some t \<longrightarrow> t \<notin> set (fc_waiting s cv)) \<and> (\<forall>cv. distinct (fc_waiting s cv)) \<and>
     (\<forall>u cv cv'. u \<in> set (fc_waiting s cv) \<longrightarrow> u \<in> set (fc_waiting s cv') \<longrightarrow> cv = cv')"

text \<open>Threads only leave the waiters of a condition variable, except for the caller, who joins one.\<close>

lemma waiting_after_subset:
  "set (waiting_after op t w cv) \<subseteq> insert t (set (w cv))"
  by (cases op) (auto simp: waiting_after_def drop_nth_def dest: in_set_takeD in_set_dropD)

lemma waiting_after_caller:
  assumes "\<forall>cv. t \<notin> set (w cv)" and "t \<in> set (waiting_after op t w cv)" and "t \<in> set (waiting_after op t w cv')"
  shows "cv = cv'"
  using assms by (cases op) (auto simp: waiting_after_def drop_nth_def split: if_splits dest: in_set_takeD in_set_dropD)

lemma drop_nth_remove1: "distinct xs \<Longrightarrow> i < length xs \<Longrightarrow> drop_nth i xs = remove1 (xs ! i) xs"
  by (induction xs arbitrary: i) (auto simp: drop_nth_def nth_Cons split: nat.split)

lemma drop_nth_wakes:
  assumes "distinct xs" and "xs \<noteq> []"
  shows "\<exists>w \<in> set xs. drop_nth (pick mod length xs) xs = remove1 w xs"
proof -
  have "pick mod length xs < length xs" using assms(2) by simp
  with assms(1) show ?thesis by (metis drop_nth_remove1 nth_mem)
qed

lemma distinct_drop_nth: "distinct xs \<Longrightarrow> distinct (drop_nth (pick mod length xs) xs)"
proof (cases "xs = []")
  case False
  assume "distinct xs"
  with drop_nth_wakes [OF this False, of pick] show ?thesis by (auto simp: distinct_remove1)
qed (simp add: drop_nth_def)

lemma waiting_after_distinct:
  assumes "\<forall>cv. t \<notin> set (w cv)" and "\<forall>cv. distinct (w cv)"
  shows "distinct (waiting_after op t w cv)"
  using assms distinct_drop_nth [of "w cv"] by (cases op) (auto simp: waiting_after_def)

lemma fc_step_inv:
  assumes "fc_step opt (H, s) (H', s')" and inv: "fc_inv H s"
  shows "fc_inv H' s'"
  using assms(1)
proof cases
  case (take_turn t)
  then show ?thesis using inv by (auto simp: fc_inv_def fc_getTurn_def split: if_split_asm)
next
  case (block t n)
  then show ?thesis using inv fc_block_keeps(2,3) [OF block(4)] fc_block_keeps(1) [OF block(4)] by (auto simp: fc_inv_def)
next
  case (timeout t cv)
  have sub: "set (fc_waiting s' c) \<subseteq> set (fc_waiting s c)" for c
    using set_remove1_subset [of t "fc_waiting s cv"] by (auto simp: timeout)
  have "distinct (fc_waiting s' c)" for c using inv by (simp add: timeout fc_inv_def)
  moreover have "fc_lock s' = fc_lock s" "H' = H" by (simp_all add: timeout)
  ultimately show ?thesis using inv sub unfolding fc_inv_def by (metis subsetD)
next
  case (segment t op out)
  let ?w = "fc_waiting s" and ?w' = "fc_waiting s'"
  have t: "\<forall>cv. t \<notin> set (?w cv)" and d: "\<forall>cv. distinct (?w cv)"
    and j: "\<And>u cv cv'. u \<in> set (?w cv) \<Longrightarrow> u \<in> set (?w cv') \<Longrightarrow> cv = cv'"
    using inv segment(2) unfolding fc_inv_def by blast+
  have w': "fc_lock s' = None" "?w' = waiting_after op t ?w" using fc_run_waiting [OF segment(3)] by simp_all
  have "u = t" if "u \<in> H" for u
  proof -
    have "fc_lock s = Some u" "fc_lock s = Some t" using inv that segment(2) unfolding fc_inv_def by blast+
    then show ?thesis by simp
  qed
  then have h': "H' = {}" using segment(1) by blast
  have "cv = cv'" if "u \<in> set (?w' cv)" "u \<in> set (?w' cv')" for u cv cv'
  proof (cases "u = t")
    case True
    then show ?thesis using waiting_after_caller [OF t] that unfolding w'(2) by blast
  next
    case False
    then have "u \<in> set (?w cv)" "u \<in> set (?w cv')"
      using that waiting_after_subset [of op t ?w] unfolding w'(2) by blast+
    then show ?thesis by (rule j)
  qed
  then show ?thesis using w' h' waiting_after_distinct [OF t d, of op] by (simp add: fc_inv_def)
qed

lemma fc_reachable_inv: "fc_reachable opt x \<Longrightarrow> fc_inv (fst x) (snd x)"
proof (induction rule: fc_reachable.induct)
  case (start s)
  then show ?case by (simp add: fc_inv_def)
next
  case (step x y)
  then show ?case using fc_step_inv [of opt "fst x" "snd x" "fst y" "snd y"] by simp
qed

text \<open>After \<open>block\<close> the turn is lost: no step takes it from the caller, who never gives it up.\<close>

lemma fc_stuck_step:
  assumes "fc_step opt ({}, s) (H', s')" and "fc_lock s = Some t"
  shows "H' = {} \<and> fc_lock s' = Some t"
  using assms(1)
proof cases
  case (block u n)
  then show ?thesis using assms(2) by (simp add: fc_block_def fc_getTurn_def)
qed (use assms(2) in \<open>simp_all add: fc_getTurn_def\<close>)

lemma fc_stuck:
  assumes "(fc_step opt)\<^sup>*\<^sup>* ({}, s) x" and "fc_lock s = Some t"
  shows "fst x = {} \<and> fc_lock (snd x) = Some t"
  using assms
proof (induction rule: rtranclp_induct)
  case (step y z)
  then show ?case using fc_stuck_step [of opt "snd y" "fst z" "snd z" t] by (cases y) auto
qed simp

section \<open>Waiting on a condition variable\<close>

text \<open>Waiting frees the mutex, joins the waiters and gives the turn up in one segment.\<close>

lemma fc_condWait_atomic:
  assumes "m_owner (mutexes (fc_rt s) mu) = Some self" and "m_kind (mutexes (fc_rt s) mu) = MNormal"
    and "\<not> (process_proposed_role (tls_of (fc_rt s) self) \<and> proposed_role (fc_rt s) \<noteq> [])"
  obtains s' where "fc_condWait opt self ins e cv mu s = Inr (Await (FcCondLock ins cv mu), s')"
    "m_owner (mutexes (fc_rt s') mu) = None" "fc_lock s' = None" "fc_waiting s' cv = fc_waiting s cv @ [self]"
proof -
  obtain s1 where s1: "fc_start opt self s = Inr s1" using fc_start_plain [OF assms(3)] by blast
  then show thesis using that assms(1,2) fc_start_frame [OF s1]
    by (simp add: fc_condWait_def Let_def cond_block_def unlock_mutex_def posix_mutex_unlock_def)
qed

text \<open>A woken thread returns 0 with the mutex, or waits again without it.\<close>

lemma fc_woken_owns:
  assumes "fc_condWait_woken opt self ins cv mu s = Inr (out, s')" and "m_kind (mutexes (fc_rt s) mu) = MNormal"
  shows "(\<exists>e. out = Done 0 e) \<and> m_owner (mutexes (fc_rt s) mu) = None \<and> m_owner (mutexes (fc_rt s') mu) = Some self \<or>
    out = Await (FcCondLock ins cv mu) \<and> m_owner (mutexes (fc_rt s) mu) \<noteq> None \<and> mutexes (fc_rt s') = mutexes (fc_rt s)"
  using assms by (auto simp: fc_condWait_woken_def fc_relock_def fc_wait_def posix_mutex_trylock_def assert_then_def Let_def
    EBUSY_def res_simps dest!: fc_end_frame split: if_split_asm)

end
