(* ===== verification/Preload.thy ===== *)
theory Preload
  imports RtBase
begin

text \<open>
  What the two libraries that are preloaded into an unmodified program have in common (the balance
  profiler, \<open>balanceprofiler/balance-profiler.c\<close>, and \<open>eval/rand-intercept/rand-intercept.c\<close>): a
  wrapper first gives its thread a number if it has none, and leaves out number 1, which is that
  of the idle thread of the runtime. The contract is a locale over the counter of threads and the
  numbers; that threads have different numbers, after any sequence of calls, is proved once.
\<close>

section \<open>Numbers of threads\<close>

text \<open>\<open>n\<close> is the next number, \<open>f\<close> the number of a thread, \<open>-1\<close> when it has none.\<close>

definition numbers_fit :: "int \<Rightarrow> (tid \<Rightarrow> int) \<Rightarrow> bool" where
  "numbers_fit n f \<longleftrightarrow> n \<ge> 0 \<and> n \<noteq> 1 \<and> (\<forall>t. f t = - 1 \<or> 0 \<le> f t \<and> f t < n \<and> f t \<noteq> 1) \<and>
     (\<forall>t u. t \<noteq> u \<longrightarrow> f t \<noteq> - 1 \<longrightarrow> f t \<noteq> f u)"

definition next_number :: "int \<Rightarrow> int" where
  "next_number n = (if n + 1 = 1 then n + 2 else n + 1)"

lemma numbers_fitD:
  assumes "numbers_fit n f"
  shows "f t < n" "f t \<noteq> - 1 \<Longrightarrow> f t \<ge> 0"
  using assms unfolding numbers_fit_def by (elim conjE allE [of _ t], linarith)+

lemma numbers_fit_apart:
  assumes "numbers_fit n f" and "f t \<ge> 0"
  shows "f t \<noteq> 1 \<and> (\<forall>u. u \<noteq> t \<longrightarrow> f u \<noteq> f t)"
  using assms unfolding numbers_fit_def by (metis neg_0_le_iff_le not_one_le_zero)

lemma numbers_fit_new:
  assumes "numbers_fit n f"
  shows "numbers_fit (next_number n) (f(t := n))"
proof -
  have n: "n \<ge> 0" "n \<noteq> 1" and f: "\<And>u. f u = - 1 \<or> 0 \<le> f u \<and> f u < n \<and> f u \<noteq> 1"
    and d: "\<And>u v. u \<noteq> v \<Longrightarrow> f u \<noteq> - 1 \<Longrightarrow> f u \<noteq> f v" using assms unfolding numbers_fit_def by blast+
  have lt: "f u < n" for u by (rule numbers_fitD [OF assms])
  show ?thesis
    unfolding numbers_fit_def
  proof (intro conjI allI impI)
    fix u show "(f(t := n)) u = - 1 \<or> 0 \<le> (f(t := n)) u \<and> (f(t := n)) u < next_number n \<and> (f(t := n)) u \<noteq> 1"
      using f [of u] n by (auto simp: next_number_def)
  next
    fix u v assume "u \<noteq> v" "(f(t := n)) u \<noteq> - 1"
    then show "(f(t := n)) u \<noteq> (f(t := n)) v" using d [of u v] lt [of u] lt [of v] by auto
  qed (use n in \<open>simp_all add: next_number_def\<close>)
qed

section \<open>The contract\<close>

text \<open>\<open>init e t\<close> numbers the thread \<open>t\<close>; \<open>e\<close> is what it finds around it.\<close>

locale numbered_threads =
  fixes num :: "'s \<Rightarrow> int"
    and number :: "'s \<Rightarrow> tid \<Rightarrow> int"
    and init :: "'e \<Rightarrow> tid \<Rightarrow> 's \<Rightarrow> 's res"
  assumes init_new: "init e t s = Inr s' \<Longrightarrow> number s t = - 1 \<Longrightarrow> num s' = next_number (num s) \<and> number s' = (number s)(t := num s)"
    and init_old: "init e t s = Inr s' \<Longrightarrow> number s t \<noteq> - 1 \<Longrightarrow> num s' = num s \<and> number s' = number s"
begin

lemma init_fits:
  assumes "numbers_fit (num s) (number s)" and "init e t s = Inr s'"
  shows "numbers_fit (num s') (number s') \<and> number s' t \<ge> 0"
proof (cases "number s t = - 1")
  case True
  then have "num s' = next_number (num s)" "number s' = (number s)(t := num s)" using init_new [OF assms(2)] by simp_all
  then show ?thesis using assms(1) numbers_fit_new [of "num s" "number s" t] by (simp add: numbers_fit_def)
next
  case False
  then show ?thesis using init_old [OF assms(2)] assms(1) numbers_fitD(2) [OF assms(1)] by simp
qed

lemma init_keeps:
  assumes "init e t s = Inr s'" and "number s u \<noteq> - 1"
  shows "number s' u = number s u"
  using assms init_new [OF assms(1)] init_old [OF assms(1)] by (cases "number s t = - 1") auto

end

text \<open>A library whose calls number their thread first and leave the numbers alone afterwards.\<close>

locale numbered_calls = numbered_threads num number init
  for num :: "'s \<Rightarrow> int" and number :: "'s \<Rightarrow> tid \<Rightarrow> int" and init :: "'e \<Rightarrow> tid \<Rightarrow> 's \<Rightarrow> 's res" +
  fixes call :: "'c \<Rightarrow> tid \<Rightarrow> 's \<Rightarrow> 's res"
  assumes call_init: "call c t s = Inr s' \<Longrightarrow> \<exists>e s1. init e t s = Inr s1 \<and> num s' = num s1 \<and> number s' = number s1"
begin

lemma call_fits:
  assumes "numbers_fit (num s) (number s)" and "call c t s = Inr s'"
  shows "numbers_fit (num s') (number s') \<and> number s' t \<ge> 0"
proof -
  obtain e s1 where "init e t s = Inr s1" "num s' = num s1" "number s' = number s1" using call_init [OF assms(2)] by blast
  then show ?thesis using init_fits [OF assms(1)] by simp
qed

lemma call_keeps:
  assumes "call c t s = Inr s'" and "number s u \<noteq> - 1"
  shows "number s' u = number s u"
proof -
  obtain e s1 where "init e t s = Inr s1" "number s' = number s1" using call_init [OF assms(1)] by blast
  then show ?thesis using init_keeps [of e t s s1 u] assms(2) by simp
qed

text \<open>After any sequence of calls by any threads: numbers differ, callers are numbered, and a number stays.\<close>

lemma calls_fit:
  assumes "numbers_fit (num s) (number s)" and "res_fold (\<lambda>(c, t). call c t) cs s = Inr s'"
  shows "numbers_fit (num s') (number s') \<and> (\<forall>(c, t) \<in> set cs. number s' t \<ge> 0) \<and>
    (\<forall>u. number s u \<noteq> - 1 \<longrightarrow> number s' u = number s u)"
  using assms
proof (induction cs arbitrary: s)
  case (Cons x cs)
  obtain c t where x: "x = (c, t)" by fastforce
  obtain s1 where s1: "call c t s = Inr s1" "res_fold (\<lambda>(c, t). call c t) cs s1 = Inr s'"
    using Cons.prems(2) by (auto simp: x res_simps)
  note f = call_fits [OF Cons.prems(1) s1(1)] and k = call_keeps [OF s1(1)]
  have ih: "numbers_fit (num s') (number s')" "\<forall>(c, t) \<in> set cs. number s' t \<ge> 0"
    "\<And>u. number s1 u \<noteq> - 1 \<Longrightarrow> number s' u = number s1 u" using Cons.IH [OF _ s1(2)] f by auto
  have "number s' t = number s1 t" using ih(3) [of t] f by simp
  then show ?case using ih f k by (auto simp: x)
qed simp

lemma calls_apart:
  assumes fit: "numbers_fit (num s) (number s)" and run: "res_fold (\<lambda>(c, t). call c t) cs s = Inr s1"
    and more: "res_fold (\<lambda>(c, t). call c t) cs' s1 = Inr s2" and caller: "(c, t) \<in> set cs"
  shows "number s1 t \<ge> 0 \<and> number s1 t \<noteq> 1 \<and> number s2 t = number s1 t \<and> (\<forall>u. u \<noteq> t \<longrightarrow> number s2 u \<noteq> number s1 t)"
proof -
  have s1: "numbers_fit (num s1) (number s1)" "number s1 t \<ge> 0" using calls_fit [OF fit run] caller by auto
  have s2: "numbers_fit (num s2) (number s2)" "number s2 t = number s1 t" using calls_fit [OF s1(1) more] s1(2) by auto
  show ?thesis using s1(2) s2 numbers_fit_apart [OF s2(1), of t] by simp
qed

end

end
