(* ===== verification/Profiler.thy ===== *)
theory Profiler
  imports Setup BusyWait Rdtsc Preload
begin

text \<open>
  The balance profiler, \<open>balanceprofiler/balance-profiler.c\<close>: a library that is preloaded into the
  unmodified program, measures the time between two synchronization calls of a thread and logs
  it, or, when a file of times is there, makes every such stretch take its maximal time by
  busy waiting. Each wrapper numbers the thread and the call, measures, calls the function of the
  C library and measures again.

  What the library reads from outside is an argument: the clock, the return addresses on the
  stack, the symbols the loader finds, the file of times, what its own library calls do to
  \<open>errno\<close>, and the calls of \<open>pthread_mutex_lock\<close> and \<open>pthread_mutex_unlock\<close> that \<open>backtrace()\<close> makes, which
  come back into the wrappers. The lemmas show that threads get different numbers, never that of
  the idle thread, that a wrapper returns what the wrapped function returned with its \<open>errno\<close>, that
  a call adds one line to the log of its thread and uses up one turn for itself and one for every
  call \<open>backtrace()\<close> makes, and what enforcing does.
\<close>

section \<open>State\<close>

record prof_tls =
  self_turn :: int
  self_tid :: int
  prof_time :: timespec
  entered_sys :: bool
  prof_log :: "string option"
  last_eip :: "string option"
  prof_errno :: int

text \<open>\<open>fp\<close>: whether the pointer to the function of that name is set. The table maps pairs of addresses to times.\<close>

record profiler =
  num_threads :: int
  running_mode :: int
  time_table :: "(string \<times> u32) list"
  fp :: "syncfunc \<Rightarrow> bool"
  ptls :: "tid \<Rightarrow> prof_tls"

definition PROFILE :: int where "PROFILE = 1"

definition ENFORCE :: int where "ENFORCE = 2"

definition MIN_MAX_TIME :: u32 where "MIN_MAX_TIME = 100"

definition tls_initial :: prof_tls where
  "tls_initial = \<lparr>self_turn = - 1, self_tid = - 1, prof_time = \<lparr>tv_sec = 0, tv_nsec = 0\<rparr>, entered_sys = False,
     prof_log = None, last_eip = None, prof_errno = 0\<rparr>"

definition profiler_initial :: profiler where
  "profiler_initial = \<lparr>num_threads = 0, running_mode = 0, time_table = [], fp = (\<lambda>_. False), ptls = (\<lambda>_. tls_initial)\<rparr>"

text \<open>
  What a call finds: the clock when the thread is numbered, at the start and at the end; the readings
  of the busy loop; the stack and the uninitialized array; the file \<open>syncs.time\<close> and the value of the
  uninitialized \<open>max_time\<close>; the symbols; whether the log opens; \<open>errno\<close> after the library calls of
  \<open>OPERATION_START\<close>; the wrapped calls \<open>backtrace()\<close> makes, each with the mutex and the clock: \<open>True\<close> for
  \<open>pthread_mutex_lock\<close>, \<open>False\<close> for \<open>pthread_mutex_unlock\<close>.
\<close>

type_synonym nested = "bool \<times> int \<times> timespec"

record prof_env =
  pe_init :: timespec
  pe_start :: timespec
  pe_end :: timespec
  pe_poll :: "nat \<Rightarrow> timeval"
  pe_stack :: "64 word list"
  pe_old :: "64 word list"
  pe_file :: "string option"
  pe_junk :: u32
  pe_has :: "syncfunc \<Rightarrow> bool"
  pe_log_opens :: bool
  pe_noise :: "int \<Rightarrow> int"
  pe_nested :: "nested list"

definition on_tls :: "tid \<Rightarrow> (prof_tls \<Rightarrow> prof_tls) \<Rightarrow> profiler \<Rightarrow> profiler" where
  "on_tls t f p = p\<lparr>ptls := (ptls p)(t := f (ptls p t))\<rparr>"

definition RESOLVE :: "prof_env \<Rightarrow> syncfunc \<Rightarrow> profiler \<Rightarrow> profiler res" where
  "RESOLVE pe f p =
     (if fp p f then Inr p else check (ExitProcess 255) (pe_has pe f) (Inr (p\<lparr>fp := (fp p)(f := True)\<rparr>)))"

section \<open>The file of times\<close>

text \<open>
  \<open>(int)max_time * MAX_TIME_P + MAX_TIME_K\<close>, that is six fifths of it and 200, cut to an integer
  when it is stored as a pointer.
\<close>

definition scaled_time :: "u32 \<Rightarrow> u32" where
  "scaled_time max_time = word_of_int ((6 * sint max_time + 1000) sdiv 5)"

text \<open>\<open>%s\<close>: up to the next white space, into an array of 64.\<close>

definition scan_word :: "string \<Rightarrow> string \<times> string" where
  "scan_word s = (takeWhile (\<lambda>c. \<not> is_space c) s, dropWhile (\<lambda>c. \<not> is_space c) s)"

text \<open>\<open>fscanf(fptr, "%s %u %d\n", ...)\<close> after the word: the time, and what is left.\<close>

definition scan_times :: "u32 \<Rightarrow> string \<Rightarrow> u32 \<times> string" where
  "scan_times max_time s = (case scan_num (skip_ws s) of
     (None, s1) \<Rightarrow> (max_time, s1)
   | (Some v, s1) \<Rightarrow> (case scan_num (skip_ws s1) of
       (None, s2) \<Rightarrow> (conv_u v, s2)
     | (Some _, s2) \<Rightarrow> (conv_u v, skip_ws s2)))"

lemma scan_num_length: "length (snd (scan_num s)) \<le> length s"
proof -
  have d: "length (dropWhile is_digit x) \<le> length x" for x by (rule length_dropWhile_le)
  show ?thesis
    using d [of s] d [of "tl s"]
    by (cases s) (auto simp: scan_num_def scan_digits_def Let_def case_prod_beta split: if_split)
qed

lemma skip_ws_length: "length (skip_ws s) \<le> length s"
  by (simp add: skip_ws_def length_dropWhile_le)

lemma scan_times_length: "length (snd (scan_times m s)) \<le> length s"
  using scan_num_length [of "skip_ws s"] scan_num_length [of "skip_ws (snd (scan_num (skip_ws s)))"]
    skip_ws_length [of s] skip_ws_length [of "snd (scan_num (skip_ws s))"]
    skip_ws_length [of "snd (scan_num (skip_ws (snd (scan_num (skip_ws s)))))"]
  by (auto simp: scan_times_def case_prod_beta split: option.split)

lemma scan_word_length: "skip_ws s = c # cs \<Longrightarrow> length (snd (scan_word (c # cs))) \<le> length cs"
  using hd_dropWhile [of is_space s] length_dropWhile_le [of "\<lambda>c. \<not> is_space c" cs]
  by (auto simp: scan_word_def skip_ws_def)

text \<open>The loop of \<open>initTid\<close>: every round consumes a word, so it ends.\<close>

function read_times :: "u32 \<Rightarrow> (string \<times> u32) list \<Rightarrow> string \<Rightarrow> (string \<times> u32) list res" where
  "read_times max_time tab s = (if skip_ws s = [] then Inr tab
     else let (key, s1) = scan_word (skip_ws s); (m, s2) = scan_times max_time s1 in
       check OutOfRange (length key < 64) (read_times m (AList.update key (scaled_time m) tab) s2))"
  by pat_completeness auto

termination
proof (relation "measure (\<lambda>(m, tab, s). length s)", simp, goal_cases)
  case (1 max_time tab s x key s1 y m s2)
  obtain c cs where s: "skip_ws s = c # cs" using 1(1) by (cases "skip_ws s") auto
  have "length s1 \<le> length cs" using scan_word_length [OF s] 1(2,3) s by (metis snd_conv)
  moreover have "length s2 \<le> length s1" using scan_times_length [of max_time s1] 1(4,5) by (metis snd_conv)
  moreover have "Suc (length cs) \<le> length s" using skip_ws_length [of s] s by simp
  ultimately show ?case by simp
qed

declare read_times.simps [simp del]


section \<open>Numbering and measuring\<close>

definition bp_time_diff :: "timespec \<Rightarrow> timespec \<Rightarrow> timespec" where
  "bp_time_diff start fin =
     (if tv_nsec fin - tv_nsec start < 0
      then \<lparr>tv_sec = tv_sec fin - tv_sec start - 1, tv_nsec = 1000000000 - tv_nsec start + tv_nsec fin\<rparr>
      else \<lparr>tv_sec = tv_sec fin - tv_sec start, tv_nsec = tv_nsec fin - tv_nsec start\<rparr>)"

lemma bp_time_diff_eq [simp]: "bp_time_diff = time_diff"
  by (simp add: bp_time_diff_def time_diff_def fun_eq_iff)

definition prof_update_time :: "tid \<Rightarrow> timespec \<Rightarrow> profiler \<Rightarrow> timespec \<times> profiler" where
  "prof_update_time t now p = (bp_time_diff (prof_time (ptls p t)) now, on_tls t (\<lambda>x. x\<lparr>prof_time := now\<rparr>) p)"

text \<open>\<open>internal_mutex_lock\<close> and \<open>internal_mutex_unlock\<close> on the lock of the library: only the lookup is visible, nobody else uses the lock.\<close>

definition internal_mutex_lock :: "prof_env \<Rightarrow> profiler \<Rightarrow> profiler res" where
  "internal_mutex_lock pe p = RESOLVE pe ''pthread_mutex_lock'' p"

definition internal_mutex_unlock :: "prof_env \<Rightarrow> profiler \<Rightarrow> profiler res" where
  "internal_mutex_unlock pe p = RESOLVE pe ''pthread_mutex_unlock'' p"

definition load_times :: "prof_env \<Rightarrow> profiler \<Rightarrow> profiler res" where
  "load_times pe p = (case pe_file pe of
     None \<Rightarrow> Inr (p\<lparr>time_table := [], running_mode := PROFILE\<rparr>)
   | Some s \<Rightarrow> res_bind (read_times (pe_junk pe) [] s) (\<lambda>tab. Inr (p\<lparr>time_table := tab, running_mode := ENFORCE\<rparr>)))"

definition initTid :: "prof_env \<Rightarrow> tid \<Rightarrow> profiler \<Rightarrow> profiler res" where
  "initTid pe t p =
     (if self_tid (ptls p t) = - 1
      then res_bind (internal_mutex_lock pe p) (\<lambda>p.
           let n = num_threads p;
               p = on_tls t (\<lambda>x. x\<lparr>self_tid := n\<rparr>) (p\<lparr>num_threads := (if n + 1 = 1 then n + 2 else n + 1)\<rparr>) in
           res_bind (if n = 0 then load_times pe p else Inr p) (\<lambda>p.
           res_bind (internal_mutex_unlock pe p) (\<lambda>p. Inr (snd (prof_update_time t (pe_init pe) p)))))
      else Inr p)"

definition updateTurn :: "tid \<Rightarrow> profiler \<Rightarrow> profiler" where
  "updateTurn t p = on_tls t (\<lambda>x. x\<lparr>self_turn := self_turn x + 1\<rparr>) p"

text \<open>Two return addresses, printed into a block of 32 bytes.\<close>

definition two_eips :: "prof_env \<Rightarrow> string res" where
  "two_eips pe =
     (let got = take 4 (pe_stack pe); ptrs = got @ drop (length got) (pe_old pe);
          s = show_ptr (ptrs ! 2) @ show_ptr (ptrs ! 3) in
      check OutOfRange (length s < 32) (Inr s))"

definition delay_key :: "string option \<Rightarrow> string \<Rightarrow> string" where
  "delay_key prev eip = (case prev of None \<Rightarrow> ''(null)'' | Some l \<Rightarrow> l) @ ''|'' @ eip"

text \<open>Enforcing: the time the thread still has to spend, if any.\<close>

definition delay_of :: "(string \<times> u32) list \<Rightarrow> string option \<Rightarrow> string \<Rightarrow> timespec \<Rightarrow> u32 option res" where
  "delay_of tab prev eip app_time =
     check OutOfRange (length (delay_key prev eip) < 64)
       (case map_of tab (delay_key prev eip) of
          None \<Rightarrow> Inl AssertFailed
        | Some max_time \<Rightarrow> check AssertFailed (max_time \<noteq> 0)
            (let elapsed_time = timespec_to_usec app_time in
             check AssertFailed (0 \<le> sint (max_time - elapsed_time))
               (Inr (if max_time > MIN_MAX_TIME then Some (max_time - elapsed_time) else None))))"

definition spend :: "prof_env \<Rightarrow> u32 option \<Rightarrow> 'a res \<Rightarrow> 'a res" where
  "spend pe w m = (case w of None \<Rightarrow> m | Some n \<Rightarrow> (case busy_wait (pe_poll pe) n of None \<Rightarrow> Inl LoopBound | Some _ \<Rightarrow> m))"

section \<open>The frame of a wrapper\<close>

text \<open>
  A wrapped call \<open>backtrace()\<close> makes while \<open>entered_sys\<close> is set: the wrapper counts it and restarts the
  time, calls the function and leaves its \<open>errno\<close>; \<open>OPERATION_END\<close> does nothing.
\<close>

definition nested_name :: "nested \<Rightarrow> syncfunc" where
  "nested_name c = (if fst c then ''pthread_mutex_lock'' else ''pthread_mutex_unlock'')"

definition nested_call :: "prof_env \<Rightarrow> 'w os \<Rightarrow> tid \<Rightarrow> nested \<Rightarrow> profiler \<times> 'w \<Rightarrow> (profiler \<times> 'w) res" where
  "nested_call pe os t c = (\<lambda>(p, w).
     res_bind (RESOLVE pe (nested_name c) (snd (prof_update_time t (snd (snd c)) (updateTurn t p)))) (\<lambda>p.
     let ((ret, e), w) = os (nested_name c) [fst (snd c)] (prof_errno (ptls p t)) w in
     Inr (on_tls t (\<lambda>x. x\<lparr>prof_errno := e\<rparr>) p, w)))"

definition set_entered :: "tid \<Rightarrow> bool \<Rightarrow> profiler \<Rightarrow> profiler" where
  "set_entered t b = on_tls t (\<lambda>x. x\<lparr>entered_sys := b\<rparr>)"

definition get_eip_sys :: "prof_env \<Rightarrow> 'w os \<Rightarrow> tid \<Rightarrow> profiler \<times> 'w \<Rightarrow> (string \<times> profiler \<times> 'w) res" where
  "get_eip_sys pe os t s =
     res_bind (res_fold (nested_call pe os t) (pe_nested pe) s) (\<lambda>s. res_bind (two_eips pe) (\<lambda>eip. Inr (eip, s)))"

definition enforce_delay :: "prof_env \<Rightarrow> tid \<Rightarrow> string \<Rightarrow> timespec \<Rightarrow> profiler \<Rightarrow> unit res" where
  "enforce_delay pe t eip app_time p =
     (if running_mode p = ENFORCE
      then res_bind (delay_of (time_table p) (last_eip (ptls p t)) eip app_time) (\<lambda>d. spend pe d (Inr ()))
      else Inr ())"

text \<open>\<open>None\<close> for the address when the thread is inside the library: \<open>eip\<close> is then not set.\<close>

definition OPERATION_START ::
  "prof_env \<Rightarrow> 'w os \<Rightarrow> tid \<Rightarrow> profiler \<times> 'w \<Rightarrow> ((string option \<times> timespec) \<times> profiler \<times> 'w) res" where
  "OPERATION_START pe os t = (\<lambda>(p, w).
     res_bind (initTid pe t p) (\<lambda>p.
     let (app_time, p) = prof_update_time t (pe_start pe) (updateTurn t p) in
     if entered_sys (ptls p t) then Inr ((None, app_time), p, w)
     else res_bind (get_eip_sys pe os t (set_entered t True p, w)) (\<lambda>(eip, p, w).
          res_bind (enforce_delay pe t eip app_time p) (\<lambda>_.
          Inr ((Some eip, app_time), set_entered t False p, w)))))"

definition log_header :: string where
  "log_header = ''op, eip, tid, self_turn, app_time, syscall_time'' @ endl"

definition log_line :: "syncfunc \<Rightarrow> string \<Rightarrow> int \<Rightarrow> int \<Rightarrow> timespec \<Rightarrow> timespec \<Rightarrow> string" where
  "log_line op eip t turn app_time syscall_time =
     op @ '', '' @ eip @ '', '' @ dec t @ '', '' @ dec turn @ '', '' @ dec (uint (timespec_to_usec app_time)) @ '', '' @
     dec (uint (timespec_to_usec syscall_time)) @ endl"

text \<open>\<open>self()\<close> in the name of the file asserts that the thread is numbered.\<close>

definition logOp :: "prof_env \<Rightarrow> tid \<Rightarrow> syncfunc \<Rightarrow> string \<Rightarrow> timespec \<Rightarrow> timespec \<Rightarrow> profiler \<Rightarrow> profiler res" where
  "logOp pe t op eip app_time syscall_time p =
     (let x = ptls p t; line = log_line op eip (self_tid x) (self_turn x) app_time syscall_time in
      case prof_log x of
        None \<Rightarrow> check AssertFailed (self_tid x \<ge> 0) (check AssertFailed (pe_log_opens pe)
                 (Inr (on_tls t (\<lambda>x. x\<lparr>prof_log := Some (log_header @ line)\<rparr>) p)))
      | Some l \<Rightarrow> Inr (on_tls t (\<lambda>x. x\<lparr>prof_log := Some (l @ line)\<rparr>) p))"

definition OPERATION_END :: "prof_env \<Rightarrow> tid \<Rightarrow> syncfunc \<Rightarrow> string option \<Rightarrow> timespec \<Rightarrow> profiler \<Rightarrow> profiler res" where
  "OPERATION_END pe t op eip app_time p =
     (if entered_sys (ptls p t) then Inr p
      else case eip of
        None \<Rightarrow> Inl DanglingDeref
      | Some e \<Rightarrow> (case prof_update_time t (pe_end pe) p of (syscall_time, p) \<Rightarrow>
          res_bind (logOp pe t op e app_time syscall_time p) (\<lambda>p. Inr (on_tls t (\<lambda>x. x\<lparr>last_eip := Some e\<rparr>) p))))"

text \<open>
  A wrapper: \<open>f\<close> is the function it calls, \<open>rf\<close> the one it looks up. \<open>errno\<close> after the call is
  saved before \<open>OPERATION_END\<close> and restored after it.
\<close>

definition bp_call ::
  "prof_env \<Rightarrow> 'w os \<Rightarrow> tid \<Rightarrow> syncfunc \<Rightarrow> syncfunc \<Rightarrow> int list \<Rightarrow> profiler \<times> 'w \<Rightarrow> (int \<times> profiler \<times> 'w) res" where
  "bp_call pe os t f rf args = (\<lambda>(p, w).
     res_bind (OPERATION_START pe os t (p, w)) (\<lambda>((eip, app_time), p, w).
     res_bind (RESOLVE pe rf p) (\<lambda>p.
     check NullDeref (fp p f)
       (let ((ret, e), w) = os f args (pe_noise pe (prof_errno (ptls p t))) w in
        res_bind (OPERATION_END pe t f eip app_time p) (\<lambda>p.
        Inr (ret, on_tls t (\<lambda>x. x\<lparr>prof_errno := e\<rparr>) p, w))))))"


section \<open>The wrappers\<close>

text \<open>
  Pointers are addresses. \<open>pthread_barrier_destroy\<close> looks up \<open>pthread_barrier_wait\<close>; the pointer
  to \<open>recv\<close> is declared to return an \<open>int\<close>.
\<close>

type_synonym 'w bp_op = "profiler \<times> 'w \<Rightarrow> (int \<times> profiler \<times> 'w) res"

definition bp_pthread_mutex_lock :: "prof_env \<Rightarrow> 'w os \<Rightarrow> tid \<Rightarrow> int \<Rightarrow> 'w bp_op" where
  "bp_pthread_mutex_lock pe os t mutex = bp_call pe os t ''pthread_mutex_lock'' ''pthread_mutex_lock'' [mutex]"

definition bp_pthread_mutex_unlock :: "prof_env \<Rightarrow> 'w os \<Rightarrow> tid \<Rightarrow> int \<Rightarrow> 'w bp_op" where
  "bp_pthread_mutex_unlock pe os t mutex = bp_call pe os t ''pthread_mutex_unlock'' ''pthread_mutex_unlock'' [mutex]"

definition bp_pthread_mutex_trylock :: "prof_env \<Rightarrow> 'w os \<Rightarrow> tid \<Rightarrow> int \<Rightarrow> 'w bp_op" where
  "bp_pthread_mutex_trylock pe os t mutex = bp_call pe os t ''pthread_mutex_trylock'' ''pthread_mutex_trylock'' [mutex]"

definition bp_pthread_mutex_init :: "prof_env \<Rightarrow> 'w os \<Rightarrow> tid \<Rightarrow> int \<Rightarrow> int \<Rightarrow> 'w bp_op" where
  "bp_pthread_mutex_init pe os t mutex attr = bp_call pe os t ''pthread_mutex_init'' ''pthread_mutex_init'' [mutex, attr]"

definition bp_pthread_create :: "prof_env \<Rightarrow> 'w os \<Rightarrow> tid \<Rightarrow> int \<Rightarrow> int \<Rightarrow> int \<Rightarrow> int \<Rightarrow> 'w bp_op" where
  "bp_pthread_create pe os t thread attr start_routine arg = bp_call pe os t ''pthread_create'' ''pthread_create'' [thread, attr, start_routine, arg]"

definition bp_pthread_join :: "prof_env \<Rightarrow> 'w os \<Rightarrow> tid \<Rightarrow> int \<Rightarrow> int \<Rightarrow> 'w bp_op" where
  "bp_pthread_join pe os t thread retval = bp_call pe os t ''pthread_join'' ''pthread_join'' [thread, retval]"

definition bp_pthread_cond_wait :: "prof_env \<Rightarrow> 'w os \<Rightarrow> tid \<Rightarrow> int \<Rightarrow> int \<Rightarrow> 'w bp_op" where
  "bp_pthread_cond_wait pe os t cv mutex = bp_call pe os t ''pthread_cond_wait'' ''pthread_cond_wait'' [cv, mutex]"

definition bp_pthread_cond_destroy :: "prof_env \<Rightarrow> 'w os \<Rightarrow> tid \<Rightarrow> int \<Rightarrow> 'w bp_op" where
  "bp_pthread_cond_destroy pe os t cv = bp_call pe os t ''pthread_cond_destroy'' ''pthread_cond_destroy'' [cv]"

definition bp_pthread_cond_timedwait :: "prof_env \<Rightarrow> 'w os \<Rightarrow> tid \<Rightarrow> int \<Rightarrow> int \<Rightarrow> int \<Rightarrow> 'w bp_op" where
  "bp_pthread_cond_timedwait pe os t cv mutex abstime = bp_call pe os t ''pthread_cond_timedwait'' ''pthread_cond_timedwait'' [cv, mutex, abstime]"

definition bp_pthread_cond_signal :: "prof_env \<Rightarrow> 'w os \<Rightarrow> tid \<Rightarrow> int \<Rightarrow> 'w bp_op" where
  "bp_pthread_cond_signal pe os t cv = bp_call pe os t ''pthread_cond_signal'' ''pthread_cond_signal'' [cv]"

definition bp_pthread_cond_broadcast :: "prof_env \<Rightarrow> 'w os \<Rightarrow> tid \<Rightarrow> int \<Rightarrow> 'w bp_op" where
  "bp_pthread_cond_broadcast pe os t cv = bp_call pe os t ''pthread_cond_broadcast'' ''pthread_cond_broadcast'' [cv]"

definition bp_pthread_barrier_init :: "prof_env \<Rightarrow> 'w os \<Rightarrow> tid \<Rightarrow> int \<Rightarrow> int \<Rightarrow> int \<Rightarrow> 'w bp_op" where
  "bp_pthread_barrier_init pe os t barrier attr count = bp_call pe os t ''pthread_barrier_init'' ''pthread_barrier_init'' [barrier, attr, count]"

definition bp_pthread_barrier_wait :: "prof_env \<Rightarrow> 'w os \<Rightarrow> tid \<Rightarrow> int \<Rightarrow> 'w bp_op" where
  "bp_pthread_barrier_wait pe os t barrier = bp_call pe os t ''pthread_barrier_wait'' ''pthread_barrier_wait'' [barrier]"

definition bp_pthread_barrier_destroy :: "prof_env \<Rightarrow> 'w os \<Rightarrow> tid \<Rightarrow> int \<Rightarrow> 'w bp_op" where
  "bp_pthread_barrier_destroy pe os t barrier = bp_call pe os t ''pthread_barrier_destroy'' ''pthread_barrier_wait'' [barrier]"

definition bp_usleep :: "prof_env \<Rightarrow> 'w os \<Rightarrow> tid \<Rightarrow> int \<Rightarrow> 'w bp_op" where
  "bp_usleep pe os t usec = bp_call pe os t ''usleep'' ''usleep'' [usec]"

definition bp_pthread_rwlock_trywrlock :: "prof_env \<Rightarrow> 'w os \<Rightarrow> tid \<Rightarrow> int \<Rightarrow> 'w bp_op" where
  "bp_pthread_rwlock_trywrlock pe os t rwlock = bp_call pe os t ''pthread_rwlock_trywrlock'' ''pthread_rwlock_trywrlock'' [rwlock]"

definition bp_pthread_rwlock_wrlock :: "prof_env \<Rightarrow> 'w os \<Rightarrow> tid \<Rightarrow> int \<Rightarrow> 'w bp_op" where
  "bp_pthread_rwlock_wrlock pe os t rwlock = bp_call pe os t ''pthread_rwlock_wrlock'' ''pthread_rwlock_wrlock'' [rwlock]"

definition bp_pthread_rwlock_rdlock :: "prof_env \<Rightarrow> 'w os \<Rightarrow> tid \<Rightarrow> int \<Rightarrow> 'w bp_op" where
  "bp_pthread_rwlock_rdlock pe os t rwlock = bp_call pe os t ''pthread_rwlock_rdlock'' ''pthread_rwlock_rdlock'' [rwlock]"

definition bp_pthread_rwlock_tryrdlock :: "prof_env \<Rightarrow> 'w os \<Rightarrow> tid \<Rightarrow> int \<Rightarrow> 'w bp_op" where
  "bp_pthread_rwlock_tryrdlock pe os t rwlock = bp_call pe os t ''pthread_rwlock_tryrdlock'' ''pthread_rwlock_tryrdlock'' [rwlock]"

definition bp_pthread_rwlock_unlock :: "prof_env \<Rightarrow> 'w os \<Rightarrow> tid \<Rightarrow> int \<Rightarrow> 'w bp_op" where
  "bp_pthread_rwlock_unlock pe os t rwlock = bp_call pe os t ''pthread_rwlock_unlock'' ''pthread_rwlock_unlock'' [rwlock]"

definition bp_pthread_rwlock_destroy :: "prof_env \<Rightarrow> 'w os \<Rightarrow> tid \<Rightarrow> int \<Rightarrow> 'w bp_op" where
  "bp_pthread_rwlock_destroy pe os t rwlock = bp_call pe os t ''pthread_rwlock_destroy'' ''pthread_rwlock_destroy'' [rwlock]"

definition bp_pthread_rwlock_init :: "prof_env \<Rightarrow> 'w os \<Rightarrow> tid \<Rightarrow> int \<Rightarrow> int \<Rightarrow> 'w bp_op" where
  "bp_pthread_rwlock_init pe os t rwlock attr = bp_call pe os t ''pthread_rwlock_init'' ''pthread_rwlock_init'' [rwlock, attr]"

definition bp_pthread_rwlock_timedwrlock :: "prof_env \<Rightarrow> 'w os \<Rightarrow> tid \<Rightarrow> int \<Rightarrow> int \<Rightarrow> 'w bp_op" where
  "bp_pthread_rwlock_timedwrlock pe os t rwlock abs_timeout = bp_call pe os t ''pthread_rwlock_timedwrlock'' ''pthread_rwlock_timedwrlock'' [rwlock, abs_timeout]"

definition bp_pthread_rwlock_timedrdlock :: "prof_env \<Rightarrow> 'w os \<Rightarrow> tid \<Rightarrow> int \<Rightarrow> int \<Rightarrow> 'w bp_op" where
  "bp_pthread_rwlock_timedrdlock pe os t rwlock abs_timeout = bp_call pe os t ''pthread_rwlock_timedrdlock'' ''pthread_rwlock_timedrdlock'' [rwlock, abs_timeout]"

definition bp_recv :: "prof_env \<Rightarrow> 'w os \<Rightarrow> tid \<Rightarrow> int \<Rightarrow> int \<Rightarrow> int \<Rightarrow> int \<Rightarrow> 'w bp_op" where
  "bp_recv pe os t socket buffer len flags = (\<lambda>s. res_bind (bp_call pe os t ''recv'' ''recv'' [socket, buffer, len, flags] s) (\<lambda>(ret, s). Inr (to_int32 ret, s)))"

text \<open>\<open>pthread_exit\<close>: the state the thread ends in. Inside the library the pointer may not be set.\<close>

definition bp_pthread_exit :: "prof_env \<Rightarrow> 'w os \<Rightarrow> tid \<Rightarrow> profiler \<times> 'w \<Rightarrow> (profiler \<times> 'w) res" where
  "bp_pthread_exit pe os t = (\<lambda>(p, w).
     res_bind (if entered_sys (ptls p t) then Inr (p, w)
       else res_bind (OPERATION_START pe os t (p, w)) (\<lambda>((eip, app_time), p, w).
            res_bind (RESOLVE pe ''pthread_exit'' p) (\<lambda>p.
            res_bind (OPERATION_END pe t ''pthread_exit'' eip app_time p) (\<lambda>p.
            Inr (set_entered t True p, w))))) (\<lambda>(p, w).
     check NullDeref (fp p ''pthread_exit'') (Inr (p, w))))"


section \<open>Numbers of threads\<close>

definition numbers :: "profiler \<Rightarrow> int \<times> (tid \<Rightarrow> int)" where
  "numbers p = (num_threads p, \<lambda>t. self_tid (ptls p t))"

definition numbers_ok :: "profiler \<Rightarrow> bool" where
  "numbers_ok p \<longleftrightarrow> numbers_fit (num_threads p) (\<lambda>t. self_tid (ptls p t))"

lemma numbers_ok_cong: "numbers p = numbers q \<Longrightarrow> numbers_ok p = numbers_ok q"
  by (simp add: numbers_def numbers_ok_def fun_eq_iff)

lemma numbers_simps [simp]:
  "(\<And>x. self_tid (f x) = self_tid x) \<Longrightarrow> numbers (on_tls t f p) = numbers p"
  "numbers (p\<lparr>fp := g\<rparr>) = numbers p" "numbers (p\<lparr>time_table := tab, running_mode := m\<rparr>) = numbers p"
  "numbers (snd (prof_update_time t now p)) = numbers p" "numbers (updateTurn t p) = numbers p"
  by (simp_all add: numbers_def on_tls_def prof_update_time_def updateTurn_def fun_eq_iff)

lemma RESOLVE_numbers: "RESOLVE pe f p = Inr p' \<Longrightarrow> numbers p' = numbers p \<and> ptls p' = ptls p"
  by (auto simp: RESOLVE_def res_simps split: if_split_asm)

lemma load_times_numbers: "load_times pe p = Inr p' \<Longrightarrow> numbers p' = numbers p \<and> ptls p' = ptls p"
  by (auto simp: load_times_def res_simps split: option.split_asm)

text \<open>A thread without a number gets the next one, and number 1 is left out.\<close>

lemma initTid_new:
  assumes run: "initTid pe t p = Inr p'" and new: "self_tid (ptls p t) = - 1"
  shows "num_threads p' = next_number (num_threads p) \<and>
    (\<lambda>u. self_tid (ptls p' u)) = (\<lambda>u. self_tid (ptls p u))(t := num_threads p) \<and> (\<forall>u. u \<noteq> t \<longrightarrow> ptls p' u = ptls p u)"
proof -
  obtain p1 where p1: "RESOLVE pe ''pthread_mutex_lock'' p = Inr p1"
    using run new by (auto simp: initTid_def internal_mutex_lock_def res_simps)
  let ?n = "num_threads p1"
  let ?q = "on_tls t (\<lambda>x. x\<lparr>self_tid := ?n\<rparr>) (p1\<lparr>num_threads := (if ?n = 0 then ?n + 2 else ?n + 1)\<rparr>)"
  have k1: "?n = num_threads p" "ptls p1 = ptls p" using RESOLVE_numbers [OF p1] by (simp_all add: numbers_def)
  obtain p2 p3 where p2: "(if ?n = 0 then load_times pe ?q else Inr ?q) = Inr p2"
    and p3: "RESOLVE pe ''pthread_mutex_unlock'' p2 = Inr p3" and p': "p' = snd (prof_update_time t (pe_init pe) p3)"
    using run new p1 by (auto simp: initTid_def internal_mutex_lock_def internal_mutex_unlock_def Let_def res_simps)
  have "numbers p2 = numbers ?q \<and> ptls p2 = ptls ?q" using p2 load_times_numbers [of pe ?q p2] by (auto split: if_split_asm)
  then have k: "numbers p3 = numbers ?q" "ptls p3 = ptls ?q" using RESOLVE_numbers [OF p3] by simp_all
  have "numbers p' = numbers ?q" using k(1) p' by simp
  then show ?thesis using p' k(2)
    by (auto simp: numbers_def prof_update_time_def on_tls_def k1 next_number_def fun_eq_iff)
qed

lemma initTid_old: "initTid pe t p = Inr p' \<Longrightarrow> self_tid (ptls p t) \<noteq> - 1 \<Longrightarrow> p' = p"
  by (simp add: initTid_def)

interpretation profiled: numbered_threads num_threads "\<lambda>p t. self_tid (ptls p t)" initTid
  by unfold_locales (use initTid_new in blast, use initTid_old in blast)

lemma initTid_numbers:
  assumes ok: "numbers_ok p" and run: "initTid pe t p = Inr p'"
  shows "numbers_ok p' \<and> self_tid (ptls p' t) \<ge> 0 \<and> (\<forall>u. u \<noteq> t \<longrightarrow> ptls p' u = ptls p u)"
  using profiled.init_fits [OF ok [unfolded numbers_ok_def] run] initTid_new [OF run] initTid_old [OF run]
  by (cases "self_tid (ptls p t) = - 1") (simp_all add: numbers_ok_def)

section \<open>What a call does\<close>

lemma set_entered_simps [simp]:
  "numbers (set_entered t b p) = numbers p" "self_tid (ptls (set_entered t b p) u) = self_tid (ptls p u)"
  "self_turn (ptls (set_entered t b p) u) = self_turn (ptls p u)" "entered_sys (ptls (set_entered t b p) t) = b"
  "prof_time (ptls (set_entered t b p) u) = prof_time (ptls p u)" "prof_log (ptls (set_entered t b p) u) = prof_log (ptls p u)"
  "prof_errno (ptls (set_entered t b p) u) = prof_errno (ptls p u)" "u \<noteq> t \<Longrightarrow> ptls (set_entered t b p) u = ptls p u"
  "running_mode (set_entered t b p) = running_mode p" "fp (set_entered t b p) = fp p"
  by (simp_all add: set_entered_def on_tls_def numbers_def fun_eq_iff)

text \<open>The clock reading and what the function calls do, over the calls of \<open>backtrace()\<close>.\<close>

primrec last_reading :: "timespec \<Rightarrow> nested list \<Rightarrow> timespec" where
  "last_reading now [] = now"
| "last_reading now (c # cs) = last_reading (snd (snd c)) cs"

primrec os_nested :: "'w os \<Rightarrow> nested list \<Rightarrow> int \<times> 'w \<Rightarrow> int \<times> 'w" where
  "os_nested os [] s = s"
| "os_nested os (c # cs) s = (case os (nested_name c) [fst (snd c)] (fst s) (snd s) of ((ret, e), w) \<Rightarrow> os_nested os cs (e, w))"

text \<open>A nested call is the wrapper itself, entered again.\<close>

lemma nested_is_call:
  assumes "entered_sys (ptls p t)" and "self_tid (ptls p t) \<noteq> - 1"
  shows "nested_call pe os t c (p, w) =
    res_bind (bp_call (pe\<lparr>pe_start := snd (snd c), pe_noise := \<lambda>e. e\<rparr>) os t (nested_name c) (nested_name c) [fst (snd c)] (p, w))
      (\<lambda>(ret, s). Inr s)"
proof -
  let ?pe = "pe\<lparr>pe_start := snd (snd c), pe_noise := \<lambda>e. e\<rparr>" and ?q = "snd (prof_update_time t (snd (snd c)) (updateTurn t p))"
  have r: "RESOLVE ?pe = RESOLVE pe" by (simp add: RESOLVE_def fun_eq_iff)
  have q: "entered_sys (ptls ?q t)" using assms(1) by (simp add: prof_update_time_def updateTurn_def on_tls_def)
  then have start: "OPERATION_START ?pe os t (p, w) = Inr ((None, fst (prof_update_time t (snd (snd c)) (updateTurn t p))), ?q, w)"
    using assms(2) by (simp add: OPERATION_START_def initTid_def Let_def case_prod_beta)
  show ?thesis
  proof (cases "RESOLVE pe (nested_name c) ?q")
    case (Inl e)
    then show ?thesis using start by (simp add: nested_call_def bp_call_def r)
  next
    case (Inr p1)
    then have "entered_sys (ptls p1 t) \<and> fp p1 (nested_name c)" using q by (auto simp: RESOLVE_def res_simps split: if_split_asm)
    then show ?thesis using start Inr by (simp add: nested_call_def bp_call_def r OPERATION_END_def Let_def case_prod_beta)
  qed
qed

lemma nested_call_eq:
  assumes "RESOLVE pe (nested_name c) (snd (prof_update_time t (snd (snd c)) (updateTurn t p))) = Inr p1"
    and "os (nested_name c) [fst (snd c)] (prof_errno (ptls p1 t)) w = ((ret, e), w1)"
  shows "nested_call pe os t c (p, w) = Inr (on_tls t (\<lambda>x. x\<lparr>prof_errno := e\<rparr>) p1, w1)"
  using assms by (simp add: nested_call_def)

lemma nested_effect:
  assumes "res_fold (nested_call pe os t) cs (p, w) = Inr (p', w')"
  shows "numbers p' = numbers p \<and> self_turn (ptls p' t) = self_turn (ptls p t) + int (length cs) \<and>
    entered_sys (ptls p' t) = entered_sys (ptls p t) \<and> prof_time (ptls p' t) = last_reading (prof_time (ptls p t)) cs \<and>
    prof_log (ptls p' t) = prof_log (ptls p t) \<and> last_eip (ptls p' t) = last_eip (ptls p t) \<and>
    (prof_errno (ptls p' t), w') = os_nested os cs (prof_errno (ptls p t), w) \<and> (\<forall>u. u \<noteq> t \<longrightarrow> ptls p' u = ptls p u)"
  using assms
proof (induction cs arbitrary: p w)
  case (Cons c cs)
  obtain p1 where p1: "RESOLVE pe (nested_name c) (snd (prof_update_time t (snd (snd c)) (updateTurn t p))) = Inr p1"
    using Cons.prems by (auto simp: nested_call_def res_simps)
  note k = RESOLVE_numbers [OF p1]
  obtain ret e w1 where call: "os (nested_name c) [fst (snd c)] (prof_errno (ptls p1 t)) w = ((ret, e), w1)" by (metis surj_pair)
  have "res_fold (nested_call pe os t) cs (on_tls t (\<lambda>x. x\<lparr>prof_errno := e\<rparr>) p1, w1) = Inr (p', w')"
    using Cons.prems nested_call_eq [where os = os and w = w, OF p1 call] by simp
  from Cons.IH [OF this] show ?case using k call
    by (simp add: prof_update_time_def updateTurn_def on_tls_def numbers_def fun_eq_iff)
qed simp

lemma nested_fp:
  assumes "res_fold (nested_call pe os t) cs (p, w) = Inr (p', w')" and "f \<noteq> ''pthread_mutex_lock''" and "f \<noteq> ''pthread_mutex_unlock''"
  shows "fp p' f = fp p f"
  using assms(1)
proof (induction cs arbitrary: p w)
  case (Cons c cs)
  obtain p1 w1 where p1: "nested_call pe os t c (p, w) = Inr (p1, w1)" "res_fold (nested_call pe os t) cs (p1, w1) = Inr (p', w')"
    using Cons.prems by (auto simp: res_simps)
  have "fp p1 f = fp p f"
    using p1(1) assms(2,3) by (auto simp: nested_call_def nested_name_def RESOLVE_def prof_update_time_def updateTurn_def on_tls_def
      Let_def res_simps split: if_split_asm prod.split_asm)
  then show ?case using Cons.IH [OF p1(2)] by simp
qed simp

lemma nested_runs:
  assumes "pe_has pe = (\<lambda>_. True)"
  shows "\<exists>p' w'. res_fold (nested_call pe os t) cs (p, w) = Inr (p', w') \<and> running_mode p' = running_mode p"
proof (induction cs arbitrary: p w)
  case (Cons c cs)
  obtain p1 where p1: "RESOLVE pe (nested_name c) (snd (prof_update_time t (snd (snd c)) (updateTurn t p))) = Inr p1"
    "running_mode p1 = running_mode p"
    using assms by (cases "fp p (nested_name c)") (auto simp: RESOLVE_def prof_update_time_def updateTurn_def on_tls_def)
  obtain ret e w1 where call: "os (nested_name c) [fst (snd c)] (prof_errno (ptls p1 t)) w = ((ret, e), w1)" by (metis surj_pair)
  show ?case using Cons.IH [of "on_tls t (\<lambda>x. x\<lparr>prof_errno := e\<rparr>) p1" w1] nested_call_eq [where os = os and w = w, OF p1(1) call] p1(2)
    by (simp add: on_tls_def)
qed simp

text \<open>The calls \<open>backtrace()\<close> makes in a call of the program; none from inside the library.\<close>

definition made :: "prof_env \<Rightarrow> tid \<Rightarrow> profiler \<Rightarrow> nested list" where
  "made pe t p = (if entered_sys (ptls p t) then [] else pe_nested pe)"

text \<open>The thread's variables after \<open>OPERATION_START\<close>; other threads keep theirs.\<close>

lemma start_effect:
  assumes "numbers_ok p" and "OPERATION_START pe os t (p, w) = Inr ((eip, app), p', w')"
  obtains p1 where "initTid pe t p = Inr p1" "numbers p' = numbers p1" "numbers_ok p'" "self_tid (ptls p' t) \<ge> 0"
    "self_turn (ptls p' t) = self_turn (ptls p1 t) + 1 + int (length (made pe t p1))" "entered_sys (ptls p' t) = entered_sys (ptls p1 t)"
    "prof_time (ptls p' t) = last_reading (pe_start pe) (made pe t p1)" "app = time_diff (prof_time (ptls p1 t)) (pe_start pe)"
    "prof_log (ptls p' t) = prof_log (ptls p1 t)"
    "(prof_errno (ptls p' t), w') = os_nested os (made pe t p1) (prof_errno (ptls p1 t), w)" "\<forall>u. u \<noteq> t \<longrightarrow> ptls p' u = ptls p1 u"
    "\<And>x. eip = Some x \<Longrightarrow> two_eips pe = Inr x"
proof -
  obtain p1 where p1: "initTid pe t p = Inr p1" using assms(2) by (auto simp: OPERATION_START_def res_simps)
  note n = initTid_numbers [OF assms(1) p1]
  let ?q = "snd (prof_update_time t (pe_start pe) (updateTurn t p1))"
  have app: "app = time_diff (prof_time (ptls p1 t)) (pe_start pe)"
    using assms(2) p1 by (auto simp: OPERATION_START_def prof_update_time_def updateTurn_def on_tls_def Let_def res_simps split: if_split_asm)
  have q: "numbers ?q = numbers p1" "self_turn (ptls ?q t) = self_turn (ptls p1 t) + 1" "entered_sys (ptls ?q t) = entered_sys (ptls p1 t)"
    "prof_time (ptls ?q t) = pe_start pe" "prof_log (ptls ?q t) = prof_log (ptls p1 t)"
    "prof_errno (ptls ?q t) = prof_errno (ptls p1 t)" "\<forall>u. u \<noteq> t \<longrightarrow> ptls ?q u = ptls p1 u"
    by (simp_all add: prof_update_time_def updateTurn_def on_tls_def numbers_def fun_eq_iff)
  have nums: "numbers_ok p'" "self_tid (ptls p' t) \<ge> 0" if "numbers p' = numbers p1"
    using that n numbers_ok_cong [OF that] by (simp_all add: numbers_def fun_eq_iff)
  show thesis
  proof (cases "entered_sys (ptls p1 t)")
    case True
    then have "eip = None" "p' = ?q" "w' = w"
      using assms(2) p1 q(3) by (auto simp: OPERATION_START_def Let_def res_simps case_prod_beta)
    then show thesis using q nums True by (intro that [OF p1]) (simp_all add: app made_def)
  next
    case False
    then obtain x p2 w2 where g: "get_eip_sys pe os t (set_entered t True ?q, w) = Inr (x, p2, w2)" "eip = Some x"
      "p' = set_entered t False p2" "w' = w2"
      using assms(2) p1 q(3) by (auto simp: OPERATION_START_def Let_def res_simps case_prod_beta)
    then have f: "res_fold (nested_call pe os t) (pe_nested pe) (set_entered t True ?q, w) = Inr (p2, w2)" "two_eips pe = Inr x"
      by (auto simp: get_eip_sys_def res_simps)
    note e = nested_effect [OF f(1)]
    show thesis using e q nums False f(2) g(2)
      by (intro that [OF p1]) (simp_all add: app made_def g(3,4))
  qed
qed

lemma initTid_keeps:
  assumes "initTid pe t p = Inr p'"
  shows "self_turn (ptls p' t) = self_turn (ptls p t) \<and> entered_sys (ptls p' t) = entered_sys (ptls p t) \<and>
    prof_log (ptls p' t) = prof_log (ptls p t) \<and> last_eip (ptls p' t) = last_eip (ptls p t) \<and>
    prof_errno (ptls p' t) = prof_errno (ptls p t) \<and> (\<forall>u. u \<noteq> t \<longrightarrow> ptls p' u = ptls p u)"
  using assms by (auto simp: initTid_def internal_mutex_lock_def internal_mutex_unlock_def prof_update_time_def on_tls_def Let_def
    res_simps dest!: RESOLVE_numbers load_times_numbers split: if_split_asm)


text \<open>
  A wrapped call from the program: it returns what the function returned and leaves its \<open>errno\<close>,
  uses up one turn of the thread and one for every call of \<open>backtrace()\<close>, writes one line, and remembers
  the address. Calls made inside the library only use up a turn.
\<close>

lemma end_effect:
  assumes "OPERATION_END pe t f eip app p = Inr p'"
  shows "numbers p' = numbers p \<and> self_turn (ptls p' t) = self_turn (ptls p t) \<and> entered_sys (ptls p' t) = entered_sys (ptls p t) \<and>
    (\<forall>u. u \<noteq> t \<longrightarrow> ptls p' u = ptls p u) \<and>
    (if entered_sys (ptls p t) then prof_log (ptls p' t) = prof_log (ptls p t)
     else \<exists>e. eip = Some e \<and> last_eip (ptls p' t) = eip \<and> prof_time (ptls p' t) = pe_end pe \<and>
       prof_log (ptls p' t) = Some ((case prof_log (ptls p t) of None \<Rightarrow> log_header | Some l \<Rightarrow> l) @
         log_line f e (self_tid (ptls p t)) (self_turn (ptls p t)) app (time_diff (prof_time (ptls p t)) (pe_end pe))))"
  using assms by (auto simp: OPERATION_END_def logOp_def prof_update_time_def on_tls_def numbers_def Let_def res_simps fun_eq_iff
    split: if_split_asm option.split_asm)

lemma bp_call_parts:
  assumes "bp_call pe os t f rf args (p, w) = Inr (ret, p', w')"
  obtains eip app p1 w1 p2 e p3 where "OPERATION_START pe os t (p, w) = Inr ((eip, app), p1, w1)" "RESOLVE pe rf p1 = Inr p2"
    "os f args (pe_noise pe (prof_errno (ptls p2 t))) w1 = ((ret, e), w')"
    "OPERATION_END pe t f eip app p2 = Inr p3" "p' = on_tls t (\<lambda>x. x\<lparr>prof_errno := e\<rparr>) p3"
proof -
  obtain eip app p1 w1 p2 where start: "OPERATION_START pe os t (p, w) = Inr ((eip, app), p1, w1)" "RESOLVE pe rf p1 = Inr p2" "fp p2 f"
    using assms by (auto simp: bp_call_def res_simps)
  obtain r e w2 where call: "os f args (pe_noise pe (prof_errno (ptls p2 t))) w1 = ((r, e), w2)" by (metis surj_pair)
  then show thesis using assms start that by (auto simp: bp_call_def res_simps)
qed

lemma bp_call_effect:
  assumes ok: "numbers_ok p" and run: "bp_call pe os t f rf args (p, w) = Inr (ret, p', w')"
  shows "\<exists>e0 w0 e. (e0, w0) = os_nested os (made pe t p) (prof_errno (ptls p t), w) \<and>
    os f args (pe_noise pe e0) w0 = ((ret, e), w') \<and> prof_errno (ptls p' t) = e \<and>
    numbers_ok p' \<and> self_tid (ptls p' t) \<ge> 0 \<and> self_turn (ptls p' t) = self_turn (ptls p t) + 1 + int (length (made pe t p)) \<and>
    entered_sys (ptls p' t) = entered_sys (ptls p t) \<and> (\<forall>u. u \<noteq> t \<longrightarrow> ptls p' u = ptls p u)"
proof -
  obtain eip app p1 w1 p2 e p3 where start: "OPERATION_START pe os t (p, w) = Inr ((eip, app), p1, w1)" and res: "RESOLVE pe rf p1 = Inr p2"
    and call: "os f args (pe_noise pe (prof_errno (ptls p2 t))) w1 = ((ret, e), w')"
    and fin: "OPERATION_END pe t f eip app p2 = Inr p3" and p': "p' = on_tls t (\<lambda>x. x\<lparr>prof_errno := e\<rparr>) p3"
    by (rule bp_call_parts [OF run])
  obtain p0 where p0: "initTid pe t p = Inr p0" "numbers_ok p1" "self_tid (ptls p1 t) \<ge> 0"
    "self_turn (ptls p1 t) = self_turn (ptls p0 t) + 1 + int (length (made pe t p0))" "entered_sys (ptls p1 t) = entered_sys (ptls p0 t)"
    "(prof_errno (ptls p1 t), w1) = os_nested os (made pe t p0) (prof_errno (ptls p0 t), w)" "\<forall>u. u \<noteq> t \<longrightarrow> ptls p1 u = ptls p0 u"
    by (rule start_effect [OF ok start]) blast
  note r = RESOLVE_numbers [OF res] and e = end_effect [OF fin] and k = initTid_keeps [OF p0(1)]
  have "numbers p' = numbers p1" using r e by (simp add: p')
  then have n: "numbers_ok p'" "self_tid (ptls p' t) \<ge> 0"
    using p0(2,3) numbers_ok_cong [of p' p1] by (simp_all add: numbers_def fun_eq_iff)
  have m: "made pe t p0 = made pe t p" using k by (simp add: made_def)
  have "self_turn (ptls p' t) = self_turn (ptls p t) + 1 + int (length (made pe t p)) \<and> entered_sys (ptls p' t) = entered_sys (ptls p t) \<and>
      (\<forall>u. u \<noteq> t \<longrightarrow> ptls p' u = ptls p u) \<and> prof_errno (ptls p' t) = e"
    using r e k p0(4,5,7) by (simp add: p' on_tls_def m)
  moreover have "(prof_errno (ptls p2 t), w1) = os_nested os (made pe t p) (prof_errno (ptls p t), w)" using r k p0(6) by (simp add: m)
  ultimately show ?thesis using n call by auto
qed

text \<open>Any sequence of wrapped calls keeps the threads apart.\<close>

type_synonym 'w prof_call = "prof_env \<times> 'w os \<times> syncfunc \<times> syncfunc \<times> int list \<times> 'w"

definition prof_step :: "'w prof_call \<Rightarrow> tid \<Rightarrow> profiler \<Rightarrow> profiler res" where
  "prof_step = (\<lambda>(pe, os, f, rf, args, w) t p. res_bind (bp_call pe os t f rf args (p, w)) (\<lambda>(ret, p, w). Inr p))"

lemma start_numbers:
  assumes "OPERATION_START pe os t (p, w) = Inr (x, p', w')"
  obtains p0 where "initTid pe t p = Inr p0" "numbers p' = numbers p0"
  using assms by (auto simp: OPERATION_START_def get_eip_sys_def set_entered_def prof_update_time_def updateTurn_def Let_def res_simps
    dest!: nested_effect split: if_split_asm)

lemma prof_step_init:
  assumes "prof_step c t p = Inr p'"
  shows "\<exists>pe p1. initTid pe t p = Inr p1 \<and> numbers p' = numbers p1"
proof -
  obtain pe os f rf args w where c: "c = (pe, os, f, rf, args, w)" by (metis surj_pair)
  obtain ret w' where run: "bp_call pe os t f rf args (p, w) = Inr (ret, p', w')"
    using assms by (auto simp: c prof_step_def res_simps)
  obtain eip app p1 w1 p2 e p3 where st: "OPERATION_START pe os t (p, w) = Inr ((eip, app), p1, w1)" "RESOLVE pe rf p1 = Inr p2"
    "OPERATION_END pe t f eip app p2 = Inr p3" "p' = on_tls t (\<lambda>x. x\<lparr>prof_errno := e\<rparr>) p3" by (rule bp_call_parts [OF run])
  obtain p0 where p0: "initTid pe t p = Inr p0" "numbers p1 = numbers p0" by (rule start_numbers [OF st(1)])
  have "numbers p' = numbers p0" using end_effect [OF st(3)] RESOLVE_numbers [OF st(2)] by (simp add: st(4) p0(2))
  then show ?thesis using p0(1) by blast
qed

interpretation profiled_calls: numbered_calls num_threads "\<lambda>p t. self_tid (ptls p t)" initTid prof_step
  by unfold_locales (use prof_step_init in \<open>fastforce simp: numbers_def fun_eq_iff\<close>)

text \<open>A call of the program leaves one line, with the number of the thread and of the call and the two times.\<close>

lemma bp_call_logs:
  assumes ok: "numbers_ok p" and out: "\<not> entered_sys (ptls p t)" and run: "bp_call pe os t f rf args (p, w) = Inr (ret, p', w')"
  shows "\<exists>e app sys. two_eips pe = Inr e \<and> nanos sys = nanos (pe_end pe) - nanos (last_reading (pe_start pe) (pe_nested pe)) \<and>
    (self_tid (ptls p t) \<noteq> - 1 \<longrightarrow> nanos app = nanos (pe_start pe) - nanos (prof_time (ptls p t))) \<and>
    prof_log (ptls p' t) = Some ((case prof_log (ptls p t) of None \<Rightarrow> log_header | Some l \<Rightarrow> l) @
      log_line f e (self_tid (ptls p' t)) (self_turn (ptls p' t)) app sys)"
proof -
  obtain eip app p1 w1 p2 e p3 where start: "OPERATION_START pe os t (p, w) = Inr ((eip, app), p1, w1)" and res: "RESOLVE pe rf p1 = Inr p2"
    and fin: "OPERATION_END pe t f eip app p2 = Inr p3" and p': "p' = on_tls t (\<lambda>x. x\<lparr>prof_errno := e\<rparr>) p3"
    by (rule bp_call_parts [OF run])
  obtain p0 where p0: "initTid pe t p = Inr p0" "entered_sys (ptls p1 t) = entered_sys (ptls p0 t)" "prof_log (ptls p1 t) = prof_log (ptls p0 t)"
    "prof_time (ptls p1 t) = last_reading (pe_start pe) (made pe t p0)" "app = time_diff (prof_time (ptls p0 t)) (pe_start pe)"
    "\<And>x. eip = Some x \<Longrightarrow> two_eips pe = Inr x"
    by (rule start_effect [OF ok start]) blast
  note k = initTid_keeps [OF p0(1)] and r = RESOLVE_numbers [OF res] and en = end_effect [OF fin]
  have app: "self_tid (ptls p t) \<noteq> - 1 \<Longrightarrow> nanos app = nanos (pe_start pe) - nanos (prof_time (ptls p t))"
    using p0(1,5) by (simp add: initTid_def time_diff_exact)
  have ns: "\<not> entered_sys (ptls p2 t)" using out k r p0(2) by simp
  have "made pe t p0 = pe_nested pe" using out k by (simp add: made_def)
  then have log: "prof_log (ptls p2 t) = prof_log (ptls p t)" "prof_time (ptls p2 t) = last_reading (pe_start pe) (pe_nested pe)"
    using k r p0(3,4) by simp_all
  have nums: "self_tid (ptls p' t) = self_tid (ptls p2 t)" "self_turn (ptls p' t) = self_turn (ptls p2 t)"
    using en by (simp_all add: p' on_tls_def numbers_def fun_eq_iff)
  obtain x where x: "eip = Some x" "prof_log (ptls p3 t) = Some ((case prof_log (ptls p2 t) of None \<Rightarrow> log_header | Some l \<Rightarrow> l) @
      log_line f x (self_tid (ptls p2 t)) (self_turn (ptls p2 t)) app (time_diff (prof_time (ptls p2 t)) (pe_end pe)))"
    using en ns by auto
  have "nanos (time_diff (last_reading (pe_start pe) (pe_nested pe)) (pe_end pe)) =
      nanos (pe_end pe) - nanos (last_reading (pe_start pe) (pe_nested pe))" by (rule time_diff_exact)
  moreover have "prof_log (ptls p' t) = prof_log (ptls p3 t)" by (simp add: p' on_tls_def)
  ultimately show ?thesis using p0(6) [OF x(1)] app x(2) log nums by auto
qed

text \<open>
  While times are recorded (no file of times), with all symbols there and room for the addresses, a
  call of the program comes back.
\<close>

definition recording :: "prof_env \<Rightarrow> profiler \<Rightarrow> bool" where
  "recording pe p \<longleftrightarrow> pe_file pe = None \<and> running_mode p \<noteq> ENFORCE \<and> pe_has pe = (\<lambda>_. True) \<and> pe_log_opens pe"

lemma initTid_recording:
  assumes "recording pe p"
  obtains p' where "initTid pe t p = Inr p'" "running_mode p' \<noteq> ENFORCE"
proof -
  have r: "RESOLVE pe f q = Inr (q\<lparr>fp := (fp q)(f := True)\<rparr>)" for f q
    using assms by (simp add: RESOLVE_def recording_def fun_upd_idem)
  show thesis
    using assms that by (cases "self_tid (ptls p t) = - 1"; cases "num_threads p = 0")
      (simp_all add: initTid_def internal_mutex_lock_def internal_mutex_unlock_def r load_times_def prof_update_time_def on_tls_def
        Let_def recording_def PROFILE_def ENFORCE_def)
qed

lemma bp_call_runs:
  assumes ok: "numbers_ok p" and rec: "recording pe p" and out: "\<not> entered_sys (ptls p t)" and eip: "two_eips pe = Inr eip"
  shows "\<exists>ret p' w'. bp_call pe os t f f args (p, w) = Inr (ret, p', w')"
proof -
  obtain p0 where p0: "initTid pe t p = Inr p0" "running_mode p0 \<noteq> ENFORCE" by (rule initTid_recording [OF rec])
  let ?q = "snd (prof_update_time t (pe_start pe) (updateTurn t p0))"
  have e0: "\<not> entered_sys (ptls p0 t)" using initTid_keeps [OF p0(1)] out by simp
  have q: "\<not> entered_sys (ptls ?q t)" "running_mode ?q = running_mode p0"
    using e0 by (simp_all add: prof_update_time_def updateTurn_def on_tls_def)
  obtain p1 w1 where f: "res_fold (nested_call pe os t) (pe_nested pe) (set_entered t True ?q, w) = Inr (p1, w1)"
    "running_mode p1 = running_mode (set_entered t True ?q)"
    using nested_runs [of pe os t "pe_nested pe" "set_entered t True ?q" w] rec by (auto simp: recording_def)
  let ?p = "set_entered t False p1"
  have "running_mode p1 \<noteq> ENFORCE" using f(2) q(2) p0(2) by simp
  then obtain app where start: "OPERATION_START pe os t (p, w) = Inr ((Some eip, app), ?p, w1)"
    using p0(1) q(1) f(1) eip by (simp add: OPERATION_START_def get_eip_sys_def enforce_delay_def Let_def case_prod_beta)
  have tid: "self_tid (ptls ?p t) \<ge> 0" by (rule start_effect [OF ok start])
  define p2 where "p2 = (if fp ?p f then ?p else ?p\<lparr>fp := (fp ?p)(f := True)\<rparr>)"
  have p2: "RESOLVE pe f ?p = Inr p2" "fp p2 f" "ptls p2 = ptls ?p"
    using rec by (auto simp: p2_def RESOLVE_def recording_def)
  have "\<not> entered_sys (ptls ?p t)" by simp
  then obtain p3 where "OPERATION_END pe t f (Some eip) app p2 = Inr p3"
    using p2(3) tid rec by (cases "prof_log (ptls ?p t)")
      (simp_all add: OPERATION_END_def logOp_def prof_update_time_def on_tls_def Let_def recording_def)
  then show ?thesis using start p2(1,2) by (simp add: bp_call_def case_prod_beta)
qed

section \<open>Enforcing times\<close>

text \<open>Values of the file up to about 1.7 billion are stored as six fifths and 200, never as a null pointer.\<close>

lemma scaled_time_value:
  assumes "unat m \<le> 1789569706"
  shows "uint (scaled_time m) = 6 * uint m div 5 + 200"
proof -
  have "int (unat m) \<le> 1789569706" using assms by linarith
  then have u: "0 \<le> uint m" "uint m \<le> 1789569706" by simp_all
  have s: "sint m = uint m"
  proof -
    have "word_of_int (uint m) = m" by simp
    then have "sint m = signed_take_bit 31 (uint m)" by (simp add: sint_uint)
    then show ?thesis using u by (simp add: signed_take_bit_int_eq_self)
  qed
  have "6 * uint m + 1000 > 0" using u by linarith
  then have "(6 * uint m + 1000) sdiv 5 = 6 * uint m div 5 + 200"
    by (auto simp: signed_divide_int_def sgn_if)
  moreover have "6 * uint m div 5 + 200 < 2 ^ 32" "0 \<le> 6 * uint m div 5 + 200"
    using u(2) by (simp, simp add: pos_imp_zdiv_nonneg_iff add_nonneg_nonneg)
  ultimately show ?thesis unfolding scaled_time_def s uint_word_of_int by (simp add: take_bit_int_eq_self)
qed

text \<open>A pair of addresses that is not in the table, or a thread that is late, stops the program.\<close>

lemma delay_of_missing:
  assumes "map_of tab (delay_key prev eip) = None" and "length (delay_key prev eip) < 64"
  shows "delay_of tab prev eip app = Inl AssertFailed"
  using assms by (simp add: delay_of_def)

text \<open>The thread waits for what is missing of its time.\<close>

lemma delay_of_waits:
  assumes "delay_of tab prev eip app = Inr (Some w)"
  obtains max_time where "map_of tab (delay_key prev eip) = Some max_time"
    "timespec_to_usec app + w = max_time" "0 \<le> sint w" "max_time > MIN_MAX_TIME"
  using assms by (auto simp: delay_of_def Let_def res_simps split: option.split_asm if_split_asm)

section \<open>Wrappers that do not work\<close>

text \<open>No wrapper sets the pointer \<open>pthread_barrier_destroy\<close> calls.\<close>

lemma initTid_fp:
  assumes "initTid pe t p = Inr p'" and "f \<noteq> ''pthread_mutex_lock''" and "f \<noteq> ''pthread_mutex_unlock''"
  shows "fp p' f = fp p f"
  using assms by (auto simp: initTid_def internal_mutex_lock_def internal_mutex_unlock_def RESOLVE_def load_times_def
    prof_update_time_def on_tls_def Let_def res_simps split: if_split_asm option.split_asm)

lemma start_fp:
  assumes "OPERATION_START pe os t (p, w) = Inr (x, p', w')" and "f \<noteq> ''pthread_mutex_lock''" and "f \<noteq> ''pthread_mutex_unlock''"
  shows "fp p' f = fp p f"
  using assms by (auto simp: OPERATION_START_def get_eip_sys_def set_entered_def prof_update_time_def updateTurn_def on_tls_def Let_def
    res_simps dest!: initTid_fp nested_fp split: if_split_asm)

lemma barrier_destroy_faults:
  assumes "\<not> fp p ''pthread_barrier_destroy''"
  shows "\<exists>e. bp_pthread_barrier_destroy pe os t ba (p, w) = Inl e"
proof (cases "OPERATION_START pe os t (p, w)")
  case (Inr x)
  obtain eip app p1 w1 where x: "x = ((eip, app), p1, w1)" by (metis surj_pair)
  have "\<not> fp p1 ''pthread_barrier_destroy''"
    using start_fp [of pe os t p w "(eip, app)" p1 w1 "''pthread_barrier_destroy''"] Inr x assms by simp
  then have "\<not> fp p2 ''pthread_barrier_destroy''" if "RESOLVE pe ''pthread_barrier_wait'' p1 = Inr p2" for p2
    using that by (auto simp: RESOLVE_def res_simps split: if_split_asm)
  then show ?thesis
    using Inr x by (cases "RESOLVE pe ''pthread_barrier_wait'' p1") (auto simp: bp_pthread_barrier_destroy_def bp_call_def)
qed (simp add: bp_pthread_barrier_destroy_def bp_call_def)

end
