(* ===== verification/RandIntercept.thy ===== *)
theory RandIntercept
  imports Preload Rdtsc TimeProofs BaseRuntime
begin

text \<open>
  The library of the evaluation that is preloaded into the unmodified program,
  \<open>eval/rand-intercept/rand-intercept.c\<close>: wrappers of the synchronization calls that number the
  threads and, with logging compiled in (\<open>DO_LOGGING\<close>, off in the file), number all calls of the
  program in one order, measure the time before and inside the call, and write a line per call.

  The clock, the stack, the symbols, whether the log opens, the text \<open>printf\<close> makes of a time, and
  what the calls of the library itself do to \<open>errno\<close> are arguments. The counters are
  unbounded. The lemmas show that a wrapper is transparent, that without logging it does nothing
  else than numbering its thread, and that with logging no two calls have the same turn.
\<close>

section \<open>State\<close>

record rand_tls =
  ri_self_turn :: int
  ri_self_tid :: int
  ri_time :: timespec
  ri_entered_sys :: bool
  ri_log :: "string option"
  ri_errno :: int

record rand_lib =
  ri_num_threads :: int
  ri_turn :: int
  ri_fp :: "syncfunc \<Rightarrow> bool"
  ri_tls :: "tid \<Rightarrow> rand_tls"

definition rand_initial :: rand_lib where
  "rand_initial = \<lparr>ri_num_threads = 0, ri_turn = 0, ri_fp = (\<lambda>_. False),
     ri_tls = (\<lambda>_. \<lparr>ri_self_turn = - 1, ri_self_tid = - 1, ri_time = \<lparr>tv_sec = 0, tv_nsec = 0\<rparr>, ri_entered_sys = False,
       ri_log = None, ri_errno = 0\<rparr>)\<rparr>"

definition DO_LOGGING :: bool where
  "DO_LOGGING = False"

text \<open>
  What a call finds: the clock when the thread is numbered, at the start and at the end; the stack and
  the array of five; the value of the uninitialized \<open>app_time\<close>; the symbols; whether the log opens;
  how a time is printed with \<open>%f\<close>; \<open>errno\<close> after the library calls of \<open>OPERATION_START\<close>. The wrapped calls
  \<open>backtrace()\<close> makes when the library is built to log are left out.
\<close>

record rand_env =
  re_init :: timespec
  re_start :: timespec
  re_end :: timespec
  re_stack :: "64 word list"
  re_old :: "64 word list"
  re_junk :: timespec
  re_has :: "syncfunc \<Rightarrow> bool"
  re_log_opens :: bool
  re_show :: "timespec \<Rightarrow> string"
  re_noise :: "int \<Rightarrow> int"

definition on_ri :: "tid \<Rightarrow> (rand_tls \<Rightarrow> rand_tls) \<Rightarrow> rand_lib \<Rightarrow> rand_lib" where
  "on_ri t f p = p\<lparr>ri_tls := (ri_tls p)(t := f (ri_tls p t))\<rparr>"

section \<open>Numbering and measuring\<close>

definition ri_RESOLVE :: "rand_env \<Rightarrow> syncfunc \<Rightarrow> rand_lib \<Rightarrow> rand_lib res" where
  "ri_RESOLVE re f p =
     (if ri_fp p f then Inr p else check (ExitProcess 255) (re_has re f) (Inr (p\<lparr>ri_fp := (ri_fp p)(f := True)\<rparr>)))"

text \<open>The lock of the library guards nothing the model could see: a wrapper runs as one step.\<close>

definition ri_mutex_lock :: "rand_env \<Rightarrow> rand_lib \<Rightarrow> rand_lib res" where
  "ri_mutex_lock re = ri_RESOLVE re ''pthread_mutex_lock''"

definition ri_mutex_unlock :: "rand_env \<Rightarrow> rand_lib \<Rightarrow> rand_lib res" where
  "ri_mutex_unlock re = ri_RESOLVE re ''pthread_mutex_unlock''"

definition ri_time_diff :: "timespec \<Rightarrow> timespec \<Rightarrow> timespec" where
  "ri_time_diff start fin =
     (if tv_nsec fin - tv_nsec start < 0
      then \<lparr>tv_sec = tv_sec fin - tv_sec start - 1, tv_nsec = 1000000000 - tv_nsec start + tv_nsec fin\<rparr>
      else \<lparr>tv_sec = tv_sec fin - tv_sec start, tv_nsec = tv_nsec fin - tv_nsec start\<rparr>)"

definition ri_update_time :: "tid \<Rightarrow> timespec \<Rightarrow> rand_lib \<Rightarrow> timespec \<times> rand_lib" where
  "ri_update_time t now p = (ri_time_diff (ri_time (ri_tls p t)) now, on_ri t (\<lambda>x. x\<lparr>ri_time := now\<rparr>) p)"

text \<open>The thread gets the next number; number 1 is left out.\<close>

definition ri_count :: "tid \<Rightarrow> rand_lib \<Rightarrow> rand_lib" where
  "ri_count t p =
     (let p = on_ri t (\<lambda>x. x\<lparr>ri_self_tid := ri_num_threads p\<rparr>) p; p = p\<lparr>ri_num_threads := ri_num_threads p + 1\<rparr> in
      if ri_num_threads p = 1 then p\<lparr>ri_num_threads := ri_num_threads p + 1\<rparr> else p)"

definition ri_initTid :: "rand_env \<Rightarrow> tid \<Rightarrow> rand_lib \<Rightarrow> rand_lib res" where
  "ri_initTid re t p =
     (if ri_self_tid (ri_tls p t) = - 1
      then res_bind (ri_mutex_lock re p) (\<lambda>p.
           res_bind (ri_mutex_unlock re (ri_count t p)) (\<lambda>p. Inr (snd (ri_update_time t (re_init re) p))))
      else Inr p)"

definition ri_updateTurn :: "rand_env \<Rightarrow> tid \<Rightarrow> rand_lib \<Rightarrow> rand_lib res" where
  "ri_updateTurn re t p =
     res_bind (ri_mutex_lock re p) (\<lambda>p.
     let p = on_ri t (\<lambda>x. x\<lparr>ri_self_turn := ri_turn p\<rparr>) p; p = p\<lparr>ri_turn := ri_turn p + 1\<rparr> in
     ri_mutex_unlock re p)"

definition ri_get_eip :: "rand_env \<Rightarrow> 64 word" where
  "ri_get_eip re = (let got = take 5 (re_stack re) in (got @ drop (length got) (re_old re)) ! 2)"

definition ri_line :: "rand_env \<Rightarrow> syncfunc \<Rightarrow> 64 word \<Rightarrow> int \<Rightarrow> int \<Rightarrow> timespec \<Rightarrow> timespec \<Rightarrow> string" where
  "ri_line re op eip t turn app_time syscall_time =
     op @ '' '' @ show_ptr eip @ '' '' @ dec turn @ '' '' @ re_show re app_time @ '' '' @ re_show re syscall_time @ '' 0.0 '' @
     dec t @ '' n/a'' @ endl"

definition ri_logOp :: "rand_env \<Rightarrow> tid \<Rightarrow> syncfunc \<Rightarrow> 64 word \<Rightarrow> timespec \<Rightarrow> timespec \<Rightarrow> rand_lib \<Rightarrow> rand_lib res" where
  "ri_logOp re t op eip app_time syscall_time p =
     (let x = ri_tls p t; line = ri_line re op eip (ri_self_tid x) (ri_self_turn x) app_time syscall_time in
      case ri_log x of
        None \<Rightarrow> check AssertFailed (ri_self_tid x \<ge> 0) (check AssertFailed (re_log_opens re)
                 (Inr (on_ri t (\<lambda>x. x\<lparr>ri_log := Some line\<rparr>) p)))
      | Some l \<Rightarrow> Inr (on_ri t (\<lambda>x. x\<lparr>ri_log := Some (l @ line)\<rparr>) p))"

section \<open>The frame of a wrapper\<close>

text \<open>\<open>lg\<close> is \<open>DO_LOGGING\<close>.\<close>

definition ri_START :: "bool \<Rightarrow> rand_env \<Rightarrow> tid \<Rightarrow> rand_lib \<Rightarrow> (timespec \<times> rand_lib) res" where
  "ri_START lg re t p =
     res_bind (ri_initTid re t p) (\<lambda>p.
     if lg then res_bind (ri_updateTurn re t p) (\<lambda>p. Inr (ri_update_time t (re_start re) p)) else Inr (re_junk re, p))"

definition ri_END :: "bool \<Rightarrow> rand_env \<Rightarrow> tid \<Rightarrow> syncfunc \<Rightarrow> timespec \<Rightarrow> rand_lib \<Rightarrow> rand_lib res" where
  "ri_END lg re t op app_time p =
     (if lg \<and> \<not> ri_entered_sys (ri_tls p t)
      then let p = on_ri t (\<lambda>x. x\<lparr>ri_entered_sys := True\<rparr>) p; (syscall_time, p) = ri_update_time t (re_end re) p in
           res_bind (ri_logOp re t op (ri_get_eip re) app_time syscall_time p) (\<lambda>p.
           Inr (on_ri t (\<lambda>x. x\<lparr>ri_entered_sys := False\<rparr>) p))
      else Inr p)"

definition ri_call ::
  "bool \<Rightarrow> rand_env \<Rightarrow> 'w os \<Rightarrow> tid \<Rightarrow> syncfunc \<Rightarrow> int list \<Rightarrow> rand_lib \<times> 'w \<Rightarrow> (int \<times> rand_lib \<times> 'w) res" where
  "ri_call lg re os t f args = (\<lambda>(p, w).
     res_bind (ri_START lg re t p) (\<lambda>(app_time, p).
     res_bind (ri_RESOLVE re f p) (\<lambda>p.
     let ((ret, e), w) = os f args (re_noise re (ri_errno (ri_tls p t))) w in
     res_bind (ri_END lg re t f app_time p) (\<lambda>p.
     Inr (ret, on_ri t (\<lambda>x. x\<lparr>ri_errno := e\<rparr>) p, w)))))"

section \<open>The wrappers\<close>

type_synonym 'w ri_op = "rand_lib \<times> 'w \<Rightarrow> (int \<times> rand_lib \<times> 'w) res"

definition ri_pthread_mutex_lock :: "rand_env \<Rightarrow> 'w os \<Rightarrow> tid \<Rightarrow> int \<Rightarrow> 'w ri_op" where
  "ri_pthread_mutex_lock re os t mutex = ri_call DO_LOGGING re os t ''pthread_mutex_lock'' [mutex]"

definition ri_pthread_mutex_unlock :: "rand_env \<Rightarrow> 'w os \<Rightarrow> tid \<Rightarrow> int \<Rightarrow> 'w ri_op" where
  "ri_pthread_mutex_unlock re os t mutex = ri_call DO_LOGGING re os t ''pthread_mutex_unlock'' [mutex]"

definition ri_pthread_mutex_trylock :: "rand_env \<Rightarrow> 'w os \<Rightarrow> tid \<Rightarrow> int \<Rightarrow> 'w ri_op" where
  "ri_pthread_mutex_trylock re os t mutex = ri_call DO_LOGGING re os t ''pthread_mutex_trylock'' [mutex]"

definition ri_pthread_mutex_init :: "rand_env \<Rightarrow> 'w os \<Rightarrow> tid \<Rightarrow> int \<Rightarrow> int \<Rightarrow> 'w ri_op" where
  "ri_pthread_mutex_init re os t mutex attr = ri_call DO_LOGGING re os t ''pthread_mutex_init'' [mutex, attr]"

definition ri_pthread_mutex_destroy :: "rand_env \<Rightarrow> 'w os \<Rightarrow> tid \<Rightarrow> int \<Rightarrow> 'w ri_op" where
  "ri_pthread_mutex_destroy re os t mutex = ri_call DO_LOGGING re os t ''pthread_mutex_destroy'' [mutex]"

definition ri_pthread_create :: "rand_env \<Rightarrow> 'w os \<Rightarrow> tid \<Rightarrow> int \<Rightarrow> int \<Rightarrow> int \<Rightarrow> int \<Rightarrow> 'w ri_op" where
  "ri_pthread_create re os t thread attr start_routine arg = ri_call DO_LOGGING re os t ''pthread_create'' [thread, attr, start_routine, arg]"

definition ri_pthread_join :: "rand_env \<Rightarrow> 'w os \<Rightarrow> tid \<Rightarrow> int \<Rightarrow> int \<Rightarrow> 'w ri_op" where
  "ri_pthread_join re os t thread retval = ri_call DO_LOGGING re os t ''pthread_join'' [thread, retval]"

definition ri_pthread_cond_wait :: "rand_env \<Rightarrow> 'w os \<Rightarrow> tid \<Rightarrow> int \<Rightarrow> int \<Rightarrow> 'w ri_op" where
  "ri_pthread_cond_wait re os t cond mutex = ri_call DO_LOGGING re os t ''pthread_cond_wait'' [cond, mutex]"

definition ri_pthread_cond_destroy :: "rand_env \<Rightarrow> 'w os \<Rightarrow> tid \<Rightarrow> int \<Rightarrow> 'w ri_op" where
  "ri_pthread_cond_destroy re os t cond = ri_call DO_LOGGING re os t ''pthread_cond_destroy'' [cond]"

definition ri_pthread_cond_timedwait :: "rand_env \<Rightarrow> 'w os \<Rightarrow> tid \<Rightarrow> int \<Rightarrow> int \<Rightarrow> int \<Rightarrow> 'w ri_op" where
  "ri_pthread_cond_timedwait re os t cond mutex abstime = ri_call DO_LOGGING re os t ''pthread_cond_timedwait'' [cond, mutex, abstime]"

definition ri_pthread_cond_signal :: "rand_env \<Rightarrow> 'w os \<Rightarrow> tid \<Rightarrow> int \<Rightarrow> 'w ri_op" where
  "ri_pthread_cond_signal re os t cond = ri_call DO_LOGGING re os t ''pthread_cond_signal'' [cond]"

definition ri_pthread_cond_broadcast :: "rand_env \<Rightarrow> 'w os \<Rightarrow> tid \<Rightarrow> int \<Rightarrow> 'w ri_op" where
  "ri_pthread_cond_broadcast re os t cond = ri_call DO_LOGGING re os t ''pthread_cond_broadcast'' [cond]"

definition ri_pthread_rwlock_trywrlock :: "rand_env \<Rightarrow> 'w os \<Rightarrow> tid \<Rightarrow> int \<Rightarrow> 'w ri_op" where
  "ri_pthread_rwlock_trywrlock re os t rwlock = ri_call DO_LOGGING re os t ''pthread_rwlock_trywrlock'' [rwlock]"

definition ri_pthread_rwlock_wrlock :: "rand_env \<Rightarrow> 'w os \<Rightarrow> tid \<Rightarrow> int \<Rightarrow> 'w ri_op" where
  "ri_pthread_rwlock_wrlock re os t rwlock = ri_call DO_LOGGING re os t ''pthread_rwlock_wrlock'' [rwlock]"

definition ri_pthread_rwlock_rdlock :: "rand_env \<Rightarrow> 'w os \<Rightarrow> tid \<Rightarrow> int \<Rightarrow> 'w ri_op" where
  "ri_pthread_rwlock_rdlock re os t rwlock = ri_call DO_LOGGING re os t ''pthread_rwlock_rdlock'' [rwlock]"

definition ri_pthread_rwlock_tryrdlock :: "rand_env \<Rightarrow> 'w os \<Rightarrow> tid \<Rightarrow> int \<Rightarrow> 'w ri_op" where
  "ri_pthread_rwlock_tryrdlock re os t rwlock = ri_call DO_LOGGING re os t ''pthread_rwlock_tryrdlock'' [rwlock]"

definition ri_pthread_rwlock_unlock :: "rand_env \<Rightarrow> 'w os \<Rightarrow> tid \<Rightarrow> int \<Rightarrow> 'w ri_op" where
  "ri_pthread_rwlock_unlock re os t rwlock = ri_call DO_LOGGING re os t ''pthread_rwlock_unlock'' [rwlock]"

definition ri_pthread_rwlock_destroy :: "rand_env \<Rightarrow> 'w os \<Rightarrow> tid \<Rightarrow> int \<Rightarrow> 'w ri_op" where
  "ri_pthread_rwlock_destroy re os t rwlock = ri_call DO_LOGGING re os t ''pthread_rwlock_destroy'' [rwlock]"

definition ri_pthread_rwlock_init :: "rand_env \<Rightarrow> 'w os \<Rightarrow> tid \<Rightarrow> int \<Rightarrow> int \<Rightarrow> 'w ri_op" where
  "ri_pthread_rwlock_init re os t rwlock attr = ri_call DO_LOGGING re os t ''pthread_rwlock_init'' [rwlock, attr]"

definition ri_pthread_rwlock_timedwrlock :: "rand_env \<Rightarrow> 'w os \<Rightarrow> tid \<Rightarrow> int \<Rightarrow> int \<Rightarrow> 'w ri_op" where
  "ri_pthread_rwlock_timedwrlock re os t rwlock abs_timeout = ri_call DO_LOGGING re os t ''pthread_rwlock_timedwrlock'' [rwlock, abs_timeout]"

definition ri_pthread_rwlock_timedrdlock :: "rand_env \<Rightarrow> 'w os \<Rightarrow> tid \<Rightarrow> int \<Rightarrow> int \<Rightarrow> 'w ri_op" where
  "ri_pthread_rwlock_timedrdlock re os t rwlock abs_timeout = ri_call DO_LOGGING re os t ''pthread_rwlock_timedrdlock'' [rwlock, abs_timeout]"

definition ri_recv :: "rand_env \<Rightarrow> 'w os \<Rightarrow> tid \<Rightarrow> int \<Rightarrow> int \<Rightarrow> int \<Rightarrow> int \<Rightarrow> 'w ri_op" where
  "ri_recv re os t socket buffer len flags = (\<lambda>s. res_bind (ri_call DO_LOGGING re os t ''recv'' [socket, buffer, len, flags] s) (\<lambda>(ret, s). Inr (to_int32 ret, s)))"

text \<open>\<open>pthread_exit\<close>: the state the thread ends in.\<close>

definition ri_pthread_exit :: "rand_env \<Rightarrow> tid \<Rightarrow> rand_lib \<Rightarrow> rand_lib res" where
  "ri_pthread_exit re t p =
     res_bind (if ri_entered_sys (ri_tls p t) then Inr p
       else res_bind (ri_START DO_LOGGING re t p) (\<lambda>(app_time, p).
            res_bind (ri_RESOLVE re ''pthread_exit'' p) (\<lambda>p.
            res_bind (ri_END DO_LOGGING re t ''pthread_exit'' app_time p) (\<lambda>p.
            Inr (on_ri t (\<lambda>x. x\<lparr>ri_entered_sys := True\<rparr>) p))))) (\<lambda>p.
     check NullDeref (ri_fp p ''pthread_exit'') (Inr p))"

section \<open>Numbers\<close>

lemma ri_time_diff_eq [simp]: "ri_time_diff = time_diff"
  by (simp add: ri_time_diff_def time_diff_def fun_eq_iff)

lemma ri_RESOLVE_keeps:
  "ri_RESOLVE re f p = Inr p' \<Longrightarrow> ri_tls p' = ri_tls p \<and> ri_num_threads p' = ri_num_threads p \<and> ri_turn p' = ri_turn p"
  by (auto simp: ri_RESOLVE_def res_simps split: if_split_asm)

lemmas ri_lock_defs = ri_mutex_lock_def ri_mutex_unlock_def ri_update_time_def on_ri_def

lemma ri_initTid_old: "ri_initTid re t p = Inr p' \<Longrightarrow> ri_self_tid (ri_tls p t) \<noteq> - 1 \<Longrightarrow> p' = p"
  by (simp add: ri_initTid_def)

lemma ri_count_eq:
  "ri_tls (ri_count t p) = (ri_tls p)(t := (ri_tls p t)\<lparr>ri_self_tid := ri_num_threads p\<rparr>)"
  "ri_num_threads (ri_count t p) = next_number (ri_num_threads p)" "ri_turn (ri_count t p) = ri_turn p"
  by (simp_all add: ri_count_def on_ri_def next_number_def Let_def)

lemma ri_initTid_new:
  assumes "ri_initTid re t p = Inr p'" and "ri_self_tid (ri_tls p t) = - 1"
  shows "ri_num_threads p' = next_number (ri_num_threads p)" "ri_turn p' = ri_turn p"
    "ri_tls p' = (ri_tls p)(t := (ri_tls p t)\<lparr>ri_self_tid := ri_num_threads p, ri_time := re_init re\<rparr>)"
  using assms by (auto simp: ri_initTid_def ri_lock_defs ri_count_eq res_simps dest!: ri_RESOLVE_keeps)

interpretation rand_threads: numbered_threads ri_num_threads "\<lambda>p t. ri_self_tid (ri_tls p t)" ri_initTid
  by unfold_locales (auto simp: ri_initTid_new dest: ri_initTid_old)

text \<open>What the start of a wrapper does, given its thread is numbered.\<close>

lemma ri_updateTurn_parts:
  assumes "ri_updateTurn re t p = Inr p'"
  shows "ri_num_threads p' = ri_num_threads p \<and> ri_turn p' = ri_turn p + 1 \<and>
    ri_tls p' = (ri_tls p)(t := (ri_tls p t)\<lparr>ri_self_turn := ri_turn p\<rparr>)"
  using assms by (auto simp: ri_updateTurn_def ri_lock_defs Let_def res_simps dest!: ri_RESOLVE_keeps)

lemma ri_START_parts:
  assumes "ri_START lg re t p = Inr (app, p')"
  obtains p1 where "ri_initTid re t p = Inr p1" "ri_num_threads p' = ri_num_threads p1"
    "ri_turn p' = ri_turn p1 + (if lg then 1 else 0)"
    "ri_tls p' = (ri_tls p1)(t := if lg then (ri_tls p1 t)\<lparr>ri_self_turn := ri_turn p1, ri_time := re_start re\<rparr> else ri_tls p1 t)"
    "app = (if lg then time_diff (ri_time (ri_tls p1 t)) (re_start re) else re_junk re)"
proof -
  obtain p1 where p1: "ri_initTid re t p = Inr p1" using assms by (auto simp: ri_START_def res_simps)
  show thesis
  proof (cases lg)
    case True
    then obtain p2 where p2: "ri_updateTurn re t p1 = Inr p2" "(app, p') = ri_update_time t (re_start re) p2"
      using assms p1 by (auto simp: ri_START_def res_simps)
    then show ?thesis using True ri_updateTurn_parts [OF p2(1)] by (intro that [OF p1]) (simp_all add: ri_update_time_def on_ri_def)
  next
    case False
    then show ?thesis using assms p1 by (intro that [OF p1]) (simp_all add: ri_START_def)
  qed
qed

lemma ri_END_parts:
  assumes "ri_END lg re t f app p = Inr p'"
  shows "ri_num_threads p' = ri_num_threads p \<and> ri_turn p' = ri_turn p \<and>
    ri_tls p' = (ri_tls p)(t := if lg \<and> \<not> ri_entered_sys (ri_tls p t)
      then (ri_tls p t)\<lparr>ri_time := re_end re, ri_log := Some ((case ri_log (ri_tls p t) of None \<Rightarrow> [] | Some l \<Rightarrow> l) @
        ri_line re f (ri_get_eip re) (ri_self_tid (ri_tls p t)) (ri_self_turn (ri_tls p t)) app
          (time_diff (ri_time (ri_tls p t)) (re_end re)))\<rparr>
      else ri_tls p t)"
  using assms by (auto simp: ri_END_def ri_logOp_def ri_lock_defs Let_def res_simps fun_eq_iff split: if_split_asm option.split_asm)

text \<open>A call: what it returns, and the thread's variables afterwards.\<close>

lemma ri_call_effect:
  assumes "ri_call lg re os t f args (p, w) = Inr (ret, p', w')"
  obtains e p1 where "ri_initTid re t p = Inr p1"
    "os f args (re_noise re (ri_errno (ri_tls p1 t))) w = ((ret, e), w')" "ri_errno (ri_tls p' t) = e"
    "ri_num_threads p' = ri_num_threads p1" "ri_turn p' = ri_turn p1 + (if lg then 1 else 0)"
    "\<And>u. u \<noteq> t \<Longrightarrow> ri_tls p' u = ri_tls p1 u" "ri_self_tid (ri_tls p' t) = ri_self_tid (ri_tls p1 t)"
    "ri_self_turn (ri_tls p' t) = (if lg then ri_turn p1 else ri_self_turn (ri_tls p1 t))"
    "ri_log (ri_tls p' t) = (if lg \<and> \<not> ri_entered_sys (ri_tls p1 t)
       then Some ((case ri_log (ri_tls p1 t) of None \<Rightarrow> [] | Some l \<Rightarrow> l) @
         ri_line re f (ri_get_eip re) (ri_self_tid (ri_tls p1 t)) (ri_turn p1) (time_diff (ri_time (ri_tls p1 t)) (re_start re))
           (time_diff (re_start re) (re_end re)))
       else ri_log (ri_tls p1 t))"
proof -
  obtain app p2 p3 where st: "ri_START lg re t p = Inr (app, p2)" "ri_RESOLVE re f p2 = Inr p3"
    using assms by (auto simp: ri_call_def res_simps)
  obtain r e w1 where call: "os f args (re_noise re (ri_errno (ri_tls p3 t))) w = ((r, e), w1)" by (metis surj_pair)
  obtain p4 where fin: "ri_END lg re t f app p3 = Inr p4" "p' = on_ri t (\<lambda>x. x\<lparr>ri_errno := e\<rparr>) p4" "ret = r" "w' = w1"
    using assms st call by (auto simp: ri_call_def res_simps)
  obtain p1 where p1: "ri_initTid re t p = Inr p1" "ri_num_threads p2 = ri_num_threads p1" "ri_turn p2 = ri_turn p1 + (if lg then 1 else 0)"
    "ri_tls p2 = (ri_tls p1)(t := if lg then (ri_tls p1 t)\<lparr>ri_self_turn := ri_turn p1, ri_time := re_start re\<rparr> else ri_tls p1 t)"
    "app = (if lg then time_diff (ri_time (ri_tls p1 t)) (re_start re) else re_junk re)" by (rule ri_START_parts [OF st(1)])
  note r = ri_RESOLVE_keeps [OF st(2)] and e = ri_END_parts [OF fin(1)]
  show thesis
  proof (cases lg)
    case True
    show ?thesis by (rule that [OF p1(1), of e]) (use True call fin(2-) p1 r e in \<open>auto simp: on_ri_def\<close>)
  next
    case False
    show ?thesis by (rule that [OF p1(1), of e]) (use False call fin(2-) p1 r e in \<open>auto simp: on_ri_def\<close>)
  qed
qed

type_synonym 'w rand_call = "bool \<times> rand_env \<times> 'w os \<times> syncfunc \<times> int list \<times> 'w"

definition rand_step :: "'w rand_call \<Rightarrow> tid \<Rightarrow> rand_lib \<Rightarrow> rand_lib res" where
  "rand_step = (\<lambda>(lg, re, os, f, args, w) t p. res_bind (ri_call lg re os t f args (p, w)) (\<lambda>(ret, p, w). Inr p))"

lemma rand_step_call:
  assumes "rand_step (lg, re, os, f, args, w) t p = Inr p'"
  obtains ret w' where "ri_call lg re os t f args (p, w) = Inr (ret, p', w')"
  using assms by (auto simp: rand_step_def res_simps)

lemma rand_step_init:
  assumes "rand_step c t p = Inr p'"
  shows "\<exists>re p1. ri_initTid re t p = Inr p1 \<and> ri_num_threads p' = ri_num_threads p1 \<and>
    (\<lambda>u. ri_self_tid (ri_tls p' u)) = (\<lambda>u. ri_self_tid (ri_tls p1 u))"
proof -
  obtain lg re os f args w where c: "c = (lg, re, os, f, args, w)" by (metis surj_pair)
  obtain ret w' where "ri_call lg re os t f args (p, w) = Inr (ret, p', w')" using rand_step_call assms c by metis
  then obtain p1 where p1: "ri_initTid re t p = Inr p1" "ri_num_threads p' = ri_num_threads p1"
    "\<And>u. u \<noteq> t \<Longrightarrow> ri_tls p' u = ri_tls p1 u" "ri_self_tid (ri_tls p' t) = ri_self_tid (ri_tls p1 t)"
    by (rule ri_call_effect) blast
  have "ri_self_tid (ri_tls p' u) = ri_self_tid (ri_tls p1 u)" for u using p1(3,4) by (cases "u = t") simp_all
  then show ?thesis using p1(1,2) by blast
qed

interpretation rand_calls: numbered_calls ri_num_threads "\<lambda>p t. ri_self_tid (ri_tls p t)" ri_initTid rand_step
  by unfold_locales (rule rand_step_init)

section \<open>Turns\<close>

text \<open>Every turn a thread has was given out, and to no other thread.\<close>

definition turns_ok :: "rand_lib \<Rightarrow> bool" where
  "turns_ok p \<longleftrightarrow> ri_turn p \<ge> 0 \<and> (\<forall>t. ri_self_turn (ri_tls p t) < ri_turn p) \<and>
     (\<forall>t u. t \<noteq> u \<longrightarrow> ri_self_turn (ri_tls p t) \<noteq> - 1 \<longrightarrow> ri_self_turn (ri_tls p t) \<noteq> ri_self_turn (ri_tls p u))"

lemma initTid_turns:
  assumes "ri_initTid re t p = Inr p'"
  shows "ri_turn p' = ri_turn p \<and> ri_self_turn (ri_tls p' u) = ri_self_turn (ri_tls p u)"
  using ri_initTid_new [OF assms] ri_initTid_old [OF assms] by (cases "ri_self_tid (ri_tls p t) = - 1") auto

lemma call_turns:
  assumes ok: "turns_ok p" and run: "ri_call lg re os t f args (p, w) = Inr (ret, p', w')"
  shows "turns_ok p' \<and> (if lg then ri_self_turn (ri_tls p' t) = ri_turn p \<and> ri_turn p' = ri_turn p + 1 else ri_turn p' = ri_turn p)"
proof -
  obtain p1 where p1: "ri_initTid re t p = Inr p1" "ri_turn p' = ri_turn p1 + (if lg then 1 else 0)"
    "\<And>u. u \<noteq> t \<Longrightarrow> ri_tls p' u = ri_tls p1 u"
    "ri_self_turn (ri_tls p' t) = (if lg then ri_turn p1 else ri_self_turn (ri_tls p1 t))"
    by (rule ri_call_effect [OF run]) blast
  have st: "ri_self_turn (ri_tls p' u) = (if lg \<and> u = t then ri_turn p else ri_self_turn (ri_tls p u))" for u
    using p1(3) [of u] p1(4) initTid_turns [OF p1(1), of u] initTid_turns [OF p1(1), of t] by (cases "u = t") auto
  have tn: "ri_turn p' = ri_turn p + (if lg then 1 else 0)" using p1(2) initTid_turns [OF p1(1)] by simp
  have lt: "ri_self_turn (ri_tls p u) < ri_turn p" for u using ok by (simp add: turns_ok_def)
  have d: "u \<noteq> v \<Longrightarrow> ri_self_turn (ri_tls p u) \<noteq> - 1 \<Longrightarrow> ri_self_turn (ri_tls p u) \<noteq> ri_self_turn (ri_tls p v)" for u v
    using ok by (simp add: turns_ok_def)
  have "turns_ok p'"
    unfolding turns_ok_def st tn
  proof (intro conjI allI impI)
    fix u show "(if lg \<and> u = t then ri_turn p else ri_self_turn (ri_tls p u)) < ri_turn p + (if lg then 1 else 0)"
      using lt [of u] by auto
  next
    fix u v assume "u \<noteq> v" "(if lg \<and> u = t then ri_turn p else ri_self_turn (ri_tls p u)) \<noteq> - 1"
    then show "(if lg \<and> u = t then ri_turn p else ri_self_turn (ri_tls p u)) \<noteq> (if lg \<and> v = t then ri_turn p else ri_self_turn (ri_tls p v))"
      using d [of u v] lt [of u] lt [of v] by (auto split: if_split_asm)
  qed (use ok in \<open>simp add: turns_ok_def\<close>)
  then show ?thesis using st [of t] tn by simp
qed

text \<open>As compiled, a wrapper numbers its thread and passes the call through, nothing else.\<close>

lemma ri_call_plain:
  assumes "ri_call DO_LOGGING re os t f args (p, w) = Inr (ret, p', w')"
  shows "\<exists>p1 e. ri_initTid re t p = Inr p1 \<and> os f args (re_noise re (ri_errno (ri_tls p1 t))) w = ((ret, e), w') \<and>
    ri_errno (ri_tls p' t) = e \<and> ri_turn p' = ri_turn p1 \<and> ri_log (ri_tls p' t) = ri_log (ri_tls p1 t)"
  by (rule ri_call_effect [OF assms [unfolded DO_LOGGING_def]]) (auto intro!: exI)

end
