(* ===== verification/ToolProperties.thy ===== *)
theory ToolProperties
  imports Scenario CallProofs DbugProofs Annotations Fcfs Profiler RandIntercept
begin

text \<open>
  The properties of the parts around the runtime: the wrappers of the interception library and
  their generator, the scheduler without an order of its own, the file of delays, busy
  waiting and the balance profiler.
\<close>

section \<open>Interception\<close>

text \<open>
  C16. A wrapper sends a call where it belongs. A call of the application goes to the hook of
  the runtime in DMT mode; otherwise, and always when the runtime itself calls, it goes to the
  original function, whose result, \<open>errno\<close> and effect the caller gets unchanged, in the space
  it was in. The recorder gets the stamp of the start before the hook, both stamps around the
  original function, and none for calls of the runtime; the original function is looked up
  once.
\<close>

theorem wrapper_routes:
  assumes found: "resolve ld lib f ip = Inr (a, ip0)" "a \<noteq> 0" and ok: "rdtsc_ok (ip_rdtsc ip)" and opens: "ce_opens ce"
    and eip: "dync_geteip opt \<longrightarrow> get_eip opt (ce_stack ce) (ce_old ce) = Inr e"
    and orig: "os_call os self f args (r, w) = (ret, r', w')"
  shows "\<exists>ip' eip. func_template opt os ld lib ce self f args hook (r, w, ip) =
      (if isApp self r \<and> det_mode opt r
       then res_bind (hook (ucast eip) r) (\<lambda>(out, r1). Inr (ViaHook out eip, r1, w, ip'))
       else Inr (ViaOrig ret, r', w', ip')) \<and>
    rdtsc_ok (ip_rdtsc ip') \<and> resolve ld lib f ip' = Inr (a, ip') \<and>
    printed (ip_rdtsc ip') = printed (ip_rdtsc ip) @
      (if isApp self r \<and> record_rdtsc opt
       then entry_line (new_entry (ce_th ce) f ''START'' 0 (ce_tsc_start ce) eip) @
         (if det_mode opt r then [] else entry_line (new_entry (ce_th ce) f ''END'' 0 (ce_tsc_end ce) eip))
       else [])"
proof -
  have ip0: "ip_rdtsc ip0 = ip_rdtsc ip" "orig_of ip0 f = a" using resolve_others [OF found(1)] by simp_all
  then have ok0: "rdtsc_ok (ip_rdtsc ip0)" using ok by simp
  have cached: "resolve ld lib f ip' = Inr (a, ip')" if "orig_of ip' = orig_of ip0" for ip'
    using that ip0(2) found(2) by (simp add: resolve_def)
  have body: "func_template opt os ld lib ce self f args hook (r, w, ip) =
      template_body opt os ce self f args hook (det_mode opt r) a (r, w, ip0)" using found(1) by (simp add: func_template_def)
  let ?e = "if dync_geteip opt then e else 0"
  consider "\<not> isApp self r" | "isApp self r" "det_mode opt r" | "isApp self r" "\<not> det_mode opt r" by blast
  then show ?thesis
  proof cases
    case 1
    then show ?thesis using body body_sys [OF 1 found(2), of opt os ce f args hook "det_mode opt r" w ip0] orig ip0 ok0 cached [of ip0] by (intro exI [of _ ip0]) simp
  next
    case 2
    from body_hook [OF 2(1) eip ok0 opens, of os f args hook a w] obtain ip' where
      "template_body opt os ce self f args hook True a (r, w, ip0) =
         res_bind (hook (if dync_geteip opt then ucast e else 0) r) (\<lambda>(out, r'). Inr (ViaHook out ?e, r', w, ip'))"
      "rdtsc_ok (ip_rdtsc ip')" "orig_of ip' = orig_of ip0"
      "printed (ip_rdtsc ip') = printed (ip_rdtsc ip0) @ (if record_rdtsc opt then
         entry_line (new_entry (ce_th ce) f ''START'' 0 (ce_tsc_start ce) ?e) else [])" .
    then show ?thesis using body 2 ip0(1) cached [of ip']
      by (intro exI [of _ ip'] exI [of _ ?e]) (simp add: if_distrib [of ucast])
  next
    case 3
    from body_orig [OF 3(1) found(2) eip ok0 opens orig, of hook] obtain ip' where
      "template_body opt os ce self f args hook False a (r, w, ip0) = Inr (ViaOrig ret, r', w', ip')"
      "rdtsc_ok (ip_rdtsc ip')" "orig_of ip' = orig_of ip0"
      "printed (ip_rdtsc ip') = printed (ip_rdtsc ip0) @ (if record_rdtsc opt then
         entry_line (new_entry (ce_th ce) f ''START'' 0 (ce_tsc_start ce) ?e) @
         entry_line (new_entry (ce_th ce) f ''END'' 0 (ce_tsc_end ce) ?e) else [])" .
    then show ?thesis using body 3 ip0(1) cached [of ip'] by (intro exI [of _ ip'] exI [of _ ?e]) simp
  qed
qed

text \<open>
  C25. Locking a mutex, from the program's call to its return. The wrapper stamps the start and
  hands the call of an application thread in DMT mode to the hook, which waits for the turn. However
  often the operation then has to wait, and whatever the other threads do meanwhile, when it is done
  the result is \<open>0\<close> and the thread owns the mutex; the hook takes it back to the application
  space with the mutex and the \<open>errno\<close> it had, and the wrapper stamps the end. With the turn and a
  free mutex it is done at once and passes the turn on.
\<close>

theorem intercepted_lock:
  fixes os :: "'w os" and r :: rt and mu :: vptr and opt :: options and t :: tid
  assumes found: "resolve ld lib ''pthread_mutex_lock'' ip = Inr (a, ip0)" and ok: "rdtsc_ok (ip_rdtsc ip)" and opens: "ce_opens ce"
    and eip: "dync_geteip opt \<longrightarrow> get_eip opt (ce_stack ce) (ce_old ce) = Inr e"
    and app: "isApp t r" and det: "det_mode opt r" and out: "\<not> in_non_det t r"
  shows "\<exists>eip ip1. func_template opt os ld lib ce t ''pthread_mutex_lock'' [int mu] (\<lambda>ins. tern_pthread_mutex_lock opt t ins mu) (r, w, ip) =
      Inr (ViaHook (Await (lock_entered t mu eip r)) eip, cross t r, w, ip1) \<and>
    (\<forall>r2 ret err r3. (others_step opt t)\<^sup>*\<^sup>* (cross t r) r2 \<and> lock_call opt t (lock_entered t mu eip r) r2 ret err r3 \<longrightarrow>
      (\<exists>r4 ip2. hook_exit opt t Reported (Done ret err, r3) = Inr (Done 0 (errno (tls_of r t)) :: lock_pc outcome, r4) \<and>
        isApp t r4 \<and> errno (tls_of r4 t) = errno (tls_of r t) \<and> m_owner (mutexes r4 mu) = Some t \<and> sch r4 = sch r3 \<and>
        template_end opt ce ''pthread_mutex_lock'' eip ip1 = Inr ip2 \<and>
        printed (ip_rdtsc ip2) = printed (ip_rdtsc ip) @ (if record_rdtsc opt
          then entry_line (new_entry (ce_th ce) ''pthread_mutex_lock'' ''START'' 0 (ce_tsc_start ce) eip) @
               entry_line (new_entry (ce_th ce) ''pthread_mutex_lock'' ''END'' 0 (ce_tsc_end ce) eip) else []))) \<and>
    (\<forall>r2. (others_step opt t)\<^sup>*\<^sup>* (cross t r) r2 \<and> basic opt \<and> \<not> wakeamap_plus opt \<and> holding opt t (sch r2) \<and> settled t r2 \<and>
        m_owner (mutexes r2 mu) = None \<longrightarrow>
      (\<exists>r3. lock_call opt t (lock_entered t mu eip r) r2 0 (errno (tls_of r t)) r3 \<and> released opt (sch r3)))"
proof -
  let ?f = "''pthread_mutex_lock''" and ?e = "if dync_geteip opt then e else 0" and ?hook = "\<lambda>ins. tern_pthread_mutex_lock opt t ins mu"
  have ok0: "rdtsc_ok (ip_rdtsc ip0)" "ip_rdtsc ip0 = ip_rdtsc ip" using resolve_others [OF found] ok by simp_all
  from body_hook [OF app eip ok0(1) opens, of os ?f "[int mu]" ?hook a w] obtain ip1 where body:
    "template_body opt os ce t ?f [int mu] ?hook True a (r, w, ip0) =
       res_bind (?hook (if dync_geteip opt then ucast e else 0) r) (\<lambda>(out, r'). Inr (ViaHook out ?e, r', w, ip1))"
    "rdtsc_ok (ip_rdtsc ip1)" "printed (ip_rdtsc ip1) = printed (ip_rdtsc ip0) @
       (if record_rdtsc opt then entry_line (new_entry (ce_th ce) ?f ''START'' 0 (ce_tsc_start ce) ?e) else [])" .
  obtain ip2 where ip2: "stamp opt ce ?f ''END'' (ce_tsc_end ce) ?e ip1 = Inr ip2" "printed (ip_rdtsc ip2) = printed (ip_rdtsc ip1) @
       (if record_rdtsc opt then entry_line (new_entry (ce_th ce) ?f ''END'' 0 (ce_tsc_end ce) ?e) else [])"
    using stamp_ok [OF body(2) opens] by metis
  have call: "func_template opt os ld lib ce t ?f [int mu] ?hook (r, w, ip) = Inr (ViaHook (Await (lock_entered t mu ?e r)) ?e, cross t r, w, ip1)"
    using found det body(1) out enterSys_ok(1) [OF app, of opt]
    by (simp add: func_template_def tern_pthread_mutex_lock_def hook_op_def pthreadMutexLock_def enter_op_def before_turn_def
      assert_then_def hook_exit_def lock_entered_def)
  have "template_end opt ce ?f ?e ip1 = Inr ip2" using ip2(1) by (simp add: template_end_def)
  moreover have "printed (ip_rdtsc ip2) = printed (ip_rdtsc ip) @ (if record_rdtsc opt
      then entry_line (new_entry (ce_th ce) ?f ''START'' 0 (ce_tsc_start ce) ?e) @ entry_line (new_entry (ce_th ce) ?f ''END'' 0 (ce_tsc_end ce) ?e)
      else [])" using body(3) ip2(2) ok0(2) by simp
  ultimately show ?thesis using call lock_call_back [OF app] lock_call_free
    by (intro exI [of _ ?e] exI [of _ ip1]) metis
qed

text \<open>A loader that has every symbol, and the environment of a call at the start of a process.\<close>

definition every_symbol :: loader where
  "every_symbol = \<lparr>ld_opens = (\<lambda>_. True), ld_sym = (\<lambda>_ _. Some 4096)\<rparr>"

definition first_call :: call_env where
  "first_call = \<lparr>ce_th = 7, ce_stack = [], ce_old = [], ce_tsc_start = 5, ce_tsc_end = 9, ce_opens = True\<rparr>"

definition fresh_interposer :: interposer where
  "fresh_interposer = \<lparr>orig_of = (\<lambda>_. 0), ip_rdtsc = rdtsc_initial\<rparr>"

text \<open>A file that delivers three bytes, reports \<open>11\<close> in \<open>errno\<close> and counts the calls.\<close>

definition counting_file :: "nat os" where
  "counting_file f args e w = ((3, 11), w + 1)"

theorem wrapper_routes_witness:
  "\<exists>r ip'. isApp MainThreadTid r \<and>
     func_template (default_options\<lparr>DMT := False\<rparr>) counting_file every_symbol LIBC first_call MainThreadTid
       ''read'' [4, 100, 5] (\<lambda>ins r. Inr ((), r)) (r, 0, fresh_interposer) =
     Inr (ViaOrig 3, set_errno MainThreadTid 11 r, 1, ip')"
proof -
  obtain s where "holding default_options MainThreadTid s" using scene_two by blast
  let ?opt = "default_options\<lparr>DMT := False\<rparr>" and ?r = "cross MainThreadTid (rt_new s)"
  have r: "isApp MainThreadTid ?r" by (simp add: cross_def isApp_def tls_new_def)
  have found: "\<exists>ip. resolve every_symbol LIBC ''read'' fresh_interposer = Inr (4096, ip)"
    by (simp add: resolve_def lookup_orig_def every_symbol_def fresh_interposer_def)
  have ok: "rdtsc_ok (ip_rdtsc fresh_interposer)" "ce_opens first_call"
    by (simp_all add: fresh_interposer_def first_call_def rdtsc_ok_def rdtsc_initial_def)
  have eip: "dync_geteip ?opt \<longrightarrow> get_eip ?opt (ce_stack first_call) (ce_old first_call) = Inr 0" by (simp add: default_options_def)
  have call: "os_call counting_file MainThreadTid ''read'' [4, 100, 5] (?r, 0) = (3, set_errno MainThreadTid 11 ?r, 1)" by (simp add: os_call_def counting_file_def)
  have det: "\<not> det_mode ?opt ?r" by (simp add: det_mode_def)
  obtain ip where ip: "resolve every_symbol LIBC ''read'' fresh_interposer = Inr (4096, ip)" using found by blast
  have "\<exists>ip'. func_template ?opt counting_file every_symbol LIBC first_call MainThreadTid ''read'' [4, 100, 5] (\<lambda>ins r. Inr ((), r))
      (?r, 0, fresh_interposer) = Inr (ViaOrig 3, set_errno MainThreadTid 11 ?r, 1, ip')"
    using wrapper_routes [OF ip _ ok eip call, of "\<lambda>ins r. Inr ((), r)"] det by auto
  then show ?thesis using r by blast
qed

theorem intercepted_lock_witness:
  "\<exists>r r3 r4 eip ip1. isApp MainThreadTid r \<and>
     func_template default_options counting_file every_symbol LIBC first_call MainThreadTid ''pthread_mutex_lock'' [int 5]
       (\<lambda>ins. tern_pthread_mutex_lock default_options MainThreadTid ins 5) (r, 0, fresh_interposer) =
     Inr (ViaHook (Await (lock_entered MainThreadTid 5 eip r)) eip, cross MainThreadTid r, 0, ip1) \<and>
     lock_call default_options MainThreadTid (lock_entered MainThreadTid 5 eip r) (cross MainThreadTid r) 0 0 r3 \<and>
     hook_exit default_options MainThreadTid Reported (Done 0 0, r3) = Inr (Done 0 0 :: lock_pc outcome, r4) \<and>
     isApp MainThreadTid r4 \<and> m_owner (mutexes r4 5) = Some MainThreadTid"
proof -
  obtain s where s: "holding default_options MainThreadTid s" using scene_two by blast
  let ?opt = default_options and ?t = MainThreadTid and ?r = "cross MainThreadTid (rt_new s)"
  have r: "isApp ?t ?r" "det_mode ?opt ?r" "\<not> in_non_det ?t ?r" "errno (tls_of ?r ?t) = 0"
    "sch ?r = s" "mutexes ?r 5 = \<lparr>m_kind = MNormal, m_owner = None, m_count = 0\<rparr>"
    by (simp_all add: cross_def upd_tls_def isApp_def tls_new_def det_mode_def default_options_def in_non_det_def rt_new_def)
  obtain ip where ip: "resolve every_symbol LIBC ''pthread_mutex_lock'' fresh_interposer = Inr (4096, ip)"
    by (simp add: resolve_def lookup_orig_def every_symbol_def fresh_interposer_def)
  have ok: "rdtsc_ok (ip_rdtsc fresh_interposer)" "ce_opens first_call"
    by (simp_all add: fresh_interposer_def first_call_def rdtsc_ok_def rdtsc_initial_def)
  have eip: "dync_geteip ?opt \<longrightarrow> get_eip ?opt (ce_stack first_call) (ce_old first_call) = Inr 0" by (simp add: default_options_def)
  have free: "\<not> wakeamap_plus ?opt" "holding ?opt ?t (sch (cross ?t ?r))" "settled ?t (cross ?t ?r)" "m_owner (mutexes (cross ?t ?r) 5) = None"
    using s by (simp_all add: settled_def rt_new_def)
  from intercepted_lock [OF ip ok eip r(1-3), of counting_file 5 0] obtain eip ip1 where call:
    "func_template ?opt counting_file every_symbol LIBC first_call ?t ''pthread_mutex_lock'' [int 5]
       (\<lambda>ins. tern_pthread_mutex_lock ?opt ?t ins 5) (?r, 0, fresh_interposer) =
     Inr (ViaHook (Await (lock_entered ?t 5 eip ?r)) eip, cross ?t ?r, 0, ip1)"
    and leaves: "\<And>ret err r3. lock_call ?opt ?t (lock_entered ?t 5 eip ?r) (cross ?t ?r) ret err r3 \<Longrightarrow>
      \<exists>r4. hook_exit ?opt ?t Reported (Done ret err, r3) = Inr (Done 0 0 :: lock_pc outcome, r4) \<and> isApp ?t r4 \<and> m_owner (mutexes r4 5) = Some ?t"
    and got: "\<exists>r3. lock_call ?opt ?t (lock_entered ?t 5 eip ?r) (cross ?t ?r) 0 0 r3"
    unfolding r(4) using basic_default free by (metis rtranclp.rtrancl_refl)
  then show ?thesis using r(1) by blast
qed

text \<open>
  C30. The generator of the wrappers. From a list of functions in the short form it produces, in
  order, the template of every function filled in with its return type, its parameters, their
  types and their names, and the type of the function; it ends whenever no text contains all
  the characters of the placeholder it is put in for.
\<close>

theorem generator_output:
  assumes "list_all proto_ok fs" and "\<forall>p \<in> set fs. fillable (libPathPrefix ps) (proto_def p)"
  shows "\<exists>code. (\<forall>p \<in> set fs. print_func ps (proto_def p) = Some (code p)) \<and>
    convert ps (concat (map short_text fs)) =
      Inr (concat (map code fs), concat (map (\<lambda>p. type_line (proto_def p)) fs))"
proof -
  let ?s = "concat (map short_text fs)"
  have "length fs \<le> length ?s" by (induction fs) (simp_all add: short_text_def)
  then have defs: "read_defs (Suc (length ?s)) ?s = Inr (map proto_def fs)"
    using read_defs_short [OF assms(1), of "Suc (length ?s)" "[]"] by simp
  have print: "print_func ps (proto_def p) = Some (the (print_func ps (proto_def p)))" if "p \<in> set fs" for p
    using print_func_ends [of ps "proto_def p"] assms(2) that by auto
  have "\<forall>d \<in> set (map proto_def fs). print_func ps d = Some (the (print_func ps d))" using print by simp
  from convert_loop_writes [OF defs this, of "[]" "[]"] print show ?thesis
    by (intro exI [of _ "\<lambda>p. the (print_func ps (proto_def p))"]) (simp add: convert_def comp_def)
qed

text \<open>\<open>sem_wait\<close>, as the list of functions has it.\<close>

definition sem_wait_proto :: proto where
  "sem_wait_proto = \<lparr>pr_lib = ''/libpthread.so.0'', pr_ret = ''int'', pr_name = ''sem_wait'', pr_params = [(''sem_t *'', ''sem'')]\<rparr>"

theorem generator_output_witness:
  "\<exists>code. convert \<lparr>func_pattern = ''FUNC_NAME(ARGS_WITH_NAME)'', void_func_pattern = [], always_check_func_pattern = [],
       libPathPrefix = ''/lib''\<rparr> (short_text sem_wait_proto) =
     Inr (code, ''typedef int (*__sem_wait_funcdef)(sem_t *sem);'' @ [CHR 0x0A])"
proof -
  let ?ps = "\<lparr>func_pattern = ''FUNC_NAME(ARGS_WITH_NAME)'', void_func_pattern = [], always_check_func_pattern = [],
       libPathPrefix = ''/lib''\<rparr>"
  have good: "list_all goodchar ''sem_t''" "\<not> goodchar CHR '' ''" "\<not> goodchar CHR ''*''" "list_all goodchar ''sem''"
    by (simp_all add: goodchar_def char_between_def)
  have "type_text ''sem_t *''"
    using good split_args_token [of "''sem_t''" "'' *''" "[]" "[]"]
    by (simp add: type_text_def split_args.simps type_words_def)
  moreover have "name_text ''sem''" using good by (simp add: name_text_def type_words_def)
  ultimately have ok: "list_all proto_ok [sem_wait_proto]"
    by (simp add: proto_ok_def sem_wait_proto_def clean_line_def white_def pr_args_def)
  have "\<forall>p \<in> set [sem_wait_proto]. fillable (libPathPrefix ?ps) (proto_def p)"
    by (simp add: fillable_def fills_def proto_def_def sem_wait_proto_def pr_args_def)
  from generator_output [OF ok this] show ?thesis
    by (auto simp: type_line_def proto_def_def sem_wait_proto_def pr_args_def)
qed

section \<open>First come, first served\<close>

text \<open>
  C19. The scheduler without an order of its own. Under every interleaving of threads taking the turn,
  of the operations specialized for this scheduler, of mutex locking and unlocking, of region starts
  and thread ends, of calls of the inherited \<open>block\<close> and of time-outs, at most one thread is past
  \<open>getTurn\<close>, the owner of the turn waits on no condition variable and no thread waits on two. The
  segment a thread runs with the turn gives the turn up, and changes who waits only by adding the
  caller, waking one (one of the waiters when there is one) or waking all. A thread that calls \<open>block\<close>, however,
  keeps the turn: whatever the threads do from there on, nobody gets the turn again.
\<close>

theorem fcfs_turns:
  assumes "fc_reachable opt (H, s)"
  shows "(\<forall>t \<in> H. fc_lock s = Some t) \<and> (\<forall>t cv. fc_lock s = Some t \<longrightarrow> t \<notin> set (fc_waiting s cv)) \<and> (\<forall>cv. distinct (fc_waiting s cv)) \<and>
    (\<forall>u cv cv'. u \<in> set (fc_waiting s cv) \<longrightarrow> u \<in> set (fc_waiting s cv') \<longrightarrow> cv = cv') \<and>
    (\<forall>t op out s'. t \<in> H \<longrightarrow> fc_run opt t op s = Inr (out, s') \<longrightarrow>
       fc_lock s' = None \<and> fc_waiting s' = waiting_after op t (fc_waiting s) \<and> fc_reachable opt (H - {t}, s')) \<and>
    (\<forall>t ins e cv pick. fc_waiting s cv \<noteq> [] \<longrightarrow>
       (\<exists>w \<in> set (fc_waiting s cv). waiting_after (CondSignal ins e cv pick) t (fc_waiting s) cv = remove1 w (fc_waiting s cv))) \<and>
    (\<forall>t n s' H2 s2. fc_block t s = Some (n, s') \<longrightarrow> (fc_step opt)\<^sup>*\<^sup>* (H, s') (H2, s2) \<longrightarrow>
       H2 = {} \<and> fc_lock s2 = Some t \<and> (\<forall>u. fc_getTurn u s2 = None))"
proof -
  have inv: "fc_inv H s" using fc_reachable_inv [OF assms] by simp
  have w: "\<exists>w \<in> set (fc_waiting s cv). waiting_after (CondSignal ins e cv pick) t (fc_waiting s) cv = remove1 w (fc_waiting s cv)"
    if "fc_waiting s cv \<noteq> []" for t ins e cv pick
    using drop_nth_wakes [OF _ that, of pick] inv by (simp add: waiting_after_def fc_inv_def)
  have b: "H2 = {} \<and> fc_lock s2 = Some t \<and> (\<forall>u. fc_getTurn u s2 = None)"
    if "fc_block t s = Some (n, s')" "(fc_step opt)\<^sup>*\<^sup>* (H, s') (H2, s2)" for t n s' H2 s2
  proof -
    have "H = {}" using inv fc_block_keeps(2) [OF that(1)] by (auto simp: fc_inv_def)
    then have run: "(fc_step opt)\<^sup>*\<^sup>* ({}, s') (H2, s2)" using that(2) by simp
    show ?thesis using fc_stuck [OF run fc_block_keeps(1) [OF that(1)]] by (simp add: fc_getTurn_def)
  qed
  have r: "fc_lock s' = None \<and> fc_waiting s' = waiting_after op t (fc_waiting s) \<and> fc_reachable opt (H - {t}, s')"
    if "t \<in> H" "fc_run opt t op s = Inr (out, s')" for t op out s'
    using fc_run_waiting [OF that(2)] fc_reachable.step [OF assms fc_step.segment [OF that]] by simp
  show ?thesis
  proof (intro conjI)
    show "\<forall>t \<in> H. fc_lock s = Some t" "\<forall>t cv. fc_lock s = Some t \<longrightarrow> t \<notin> set (fc_waiting s cv)" "\<forall>cv. distinct (fc_waiting s cv)"
      "\<forall>u cv cv'. u \<in> set (fc_waiting s cv) \<longrightarrow> u \<in> set (fc_waiting s cv') \<longrightarrow> cv = cv'"
      using inv unfolding fc_inv_def by blast+
  qed (use r w b in blast)+
qed

theorem fcfs_turns_witness:
  "\<exists>s s'. fc_reachable default_options ({MainThreadTid}, s) \<and>
     fc_run default_options MainThreadTid (CondWait 0 0 6 5) s = Inr (Await (FcCondLock 0 6 5), s') \<and>
     fc_lock s' = None \<and> fc_waiting s' 6 = [MainThreadTid] \<and>
     (\<exists>n s2. fc_block 2 s' = Some (n, s2) \<and> (\<forall>u. fc_getTurn u s2 = None))"
proof -
  obtain x where "holding default_options MainThreadTid x" using scene_two by blast
  let ?r = "(rt_new x)\<lparr>mutexes := (mutexes (rt_new x))(5 := \<lparr>m_kind = MNormal, m_owner = Some MainThreadTid, m_count = 1\<rparr>)\<rparr>"
  let ?s = "\<lparr>fc_rt = ?r, fc_lock = None, fc_waiting = (\<lambda>_. [])\<rparr>"
  let ?t = "?s\<lparr>fc_lock := Some MainThreadTid\<rparr>"
  have "fc_step default_options ({}, ?s) ({MainThreadTid}, ?t)"
    by (rule fc_step.take_turn [of MainThreadTid]) (simp_all add: fc_getTurn_def)
  then have reach: "fc_reachable default_options ({MainThreadTid}, ?t)" by (intro fc_reachable.step [OF fc_reachable.start]) simp_all
  obtain s' where s': "fc_condWait default_options MainThreadTid 0 0 6 5 ?t = Inr (Await (FcCondLock 0 6 5), s')"
    by (rule fc_condWait_atomic [of ?t 5 MainThreadTid]) (simp_all add: tls_new_def rt_new_def)
  have "fc_run default_options MainThreadTid (CondWait 0 0 6 5) ?t = Inr (Await (FcCondLock 0 6 5), s')" using s' by simp
  then have run: "fc_lock s' = None" "fc_waiting s' = waiting_after (CondWait 0 0 6 5) MainThreadTid (fc_waiting ?t)"
    "fc_reachable default_options ({MainThreadTid} - {MainThreadTid}, s')"
    using fcfs_turns [OF reach] by blast+
  have w: "fc_waiting s' 6 = [MainThreadTid]" using run(2) by (simp add: waiting_after_def)
  obtain n s2 where b: "fc_block 2 s' = Some (n, s2)"
    using run(1) by (cases "fc_incTurnCount (s'\<lparr>fc_lock := Some 2\<rparr>)") (simp add: fc_block_def fc_getTurn_def)
  then have "\<forall>u. fc_getTurn u s2 = None" using fcfs_turns [OF run(3)] by blast
  then show ?thesis using s' run(1) w b reach by (intro exI [of _ ?t] exI [of _ s'] conjI) auto
qed

section \<open>The balance profiler\<close>

text \<open>
  C24. While the profiler records, a wrapper that looks up the function it calls is transparent and
  keeps the profiler's state well formed: the call returns with the result and the \<open>errno\<close> of the
  wrapped function (\<open>recv\<close> cuts the result to an \<open>int\<close>); threads have different numbers, none of them
  that of the idle thread. The turn of the thread rises by one for the call and by one for every
  wrapped call \<open>backtrace()\<close> makes to find the return address; the call adds one line to the log of
  its thread, with that turn, the time from the thread's last clock reading to the start of the
  call, and the time from the last clock reading before the function, which is that of the last
  nested call if there is one, to its return, both printed as microseconds in 32 bits. The variables
  of other threads stay the same. \<open>pthread_barrier_destroy\<close>, which looks up another function, never
  comes back.
\<close>

theorem profiler_transparent:
  assumes ok: "numbers_ok p" and rec: "recording pe p" and out: "\<not> entered_sys (ptls p t)" and eip: "two_eips pe = Inr eip"
    and nested: "os_nested os (pe_nested pe) (prof_errno (ptls p t), w) = (e0, w0)"
    and call: "os f args (pe_noise pe e0) w0 = ((ret, e), w')"
  shows "\<exists>p' app sys. bp_call pe os t f f args (p, w) = Inr (ret, p', w') \<and> prof_errno (ptls p' t) = e \<and>
    (\<forall>socket buffer len flags. f = ''recv'' \<and> args = [socket, buffer, len, flags] \<longrightarrow>
       bp_recv pe os t socket buffer len flags (p, w) = Inr (to_int32 ret, p', w')) \<and>
    numbers_ok p' \<and> self_tid (ptls p' t) \<ge> 0 \<and> self_turn (ptls p' t) = self_turn (ptls p t) + 1 + int (length (pe_nested pe)) \<and>
    nanos sys = nanos (pe_end pe) - nanos (last_reading (pe_start pe) (pe_nested pe)) \<and>
    (self_tid (ptls p t) \<noteq> - 1 \<longrightarrow> nanos app = nanos (pe_start pe) - nanos (prof_time (ptls p t))) \<and>
    prof_log (ptls p' t) = Some ((case prof_log (ptls p t) of None \<Rightarrow> log_header | Some l \<Rightarrow> l) @
      log_line f eip (self_tid (ptls p' t)) (self_turn (ptls p' t)) app sys) \<and>
    (\<forall>u. u \<noteq> t \<longrightarrow> ptls p' u = ptls p u) \<and>
    (\<not> fp p ''pthread_barrier_destroy'' \<longrightarrow> (\<forall>ba. \<exists>x. bp_pthread_barrier_destroy pe os t ba (p, w) = Inl x))"
proof -
  obtain ret1 p' w1 where run: "bp_call pe os t f f args (p, w) = Inr (ret1, p', w1)" using bp_call_runs [OF ok rec out eip] by metis
  have made: "made pe t p = pe_nested pe" using out by (simp add: made_def)
  note effect = bp_call_effect [OF ok run, unfolded made]
  have same: "ret1 = ret" "w1 = w'" "prof_errno (ptls p' t) = e" using effect nested call by auto
  have recv: "\<forall>socket buffer len flags. f = ''recv'' \<and> args = [socket, buffer, len, flags] \<longrightarrow>
       bp_recv pe os t socket buffer len flags (p, w) = Inr (to_int32 ret, p', w')"
    using run same by (auto simp: bp_recv_def)
  obtain app sys where "nanos sys = nanos (pe_end pe) - nanos (last_reading (pe_start pe) (pe_nested pe))"
    "self_tid (ptls p t) \<noteq> - 1 \<longrightarrow> nanos app = nanos (pe_start pe) - nanos (prof_time (ptls p t))"
    "prof_log (ptls p' t) = Some ((case prof_log (ptls p t) of None \<Rightarrow> log_header | Some l \<Rightarrow> l) @
      log_line f eip (self_tid (ptls p' t)) (self_turn (ptls p' t)) app sys)"
    using bp_call_logs [OF ok out run] eip by auto
  moreover have "numbers_ok p'" "self_tid (ptls p' t) \<ge> 0" "\<forall>u. u \<noteq> t \<longrightarrow> ptls p' u = ptls p u"
    "self_turn (ptls p' t) = self_turn (ptls p t) + 1 + int (length (pe_nested pe))" using effect by blast+
  moreover have "\<forall>ba. \<exists>x. bp_pthread_barrier_destroy pe os t ba (p, w) = Inl x" if "\<not> fp p ''pthread_barrier_destroy''"
    by (intro allI barrier_destroy_faults [OF that])
  ultimately show ?thesis using run same recv by (intro exI [of _ p'] exI [of _ app] exI [of _ sys]) simp
qed

definition quiet_env :: prof_env where
  "quiet_env = \<lparr>pe_init = \<lparr>tv_sec = 0, tv_nsec = 0\<rparr>, pe_start = \<lparr>tv_sec = 1, tv_nsec = 0\<rparr>, pe_end = \<lparr>tv_sec = 1, tv_nsec = 5\<rparr>,
     pe_poll = (\<lambda>_. \<lparr>tvl_sec = 0, tvl_usec = 0\<rparr>), pe_stack = [0, 0, 0, 0], pe_old = [], pe_file = None, pe_junk = 0,
     pe_has = (\<lambda>_. True), pe_log_opens = True, pe_noise = (\<lambda>e. e),
     pe_nested = [(True, 9, \<lparr>tv_sec = 1, tv_nsec = 1\<rparr>), (False, 9, \<lparr>tv_sec = 1, tv_nsec = 2\<rparr>)]\<rparr>"

definition quiet_rand :: rand_env where
  "quiet_rand = \<lparr>re_init = \<lparr>tv_sec = 0, tv_nsec = 0\<rparr>, re_start = \<lparr>tv_sec = 1, tv_nsec = 0\<rparr>, re_end = \<lparr>tv_sec = 1, tv_nsec = 5\<rparr>,
     re_stack = [], re_old = [], re_junk = \<lparr>tv_sec = 0, tv_nsec = 0\<rparr>, re_has = (\<lambda>_. True), re_log_opens = True,
     re_show = (\<lambda>_. []), re_noise = (\<lambda>e. e)\<rparr>"

theorem profiler_transparent_witness:
  "\<exists>p'. bp_pthread_mutex_lock quiet_env (\<lambda>f args e w. ((0, e), w)) 3 5 (profiler_initial, ()) = Inr (0, p', ()) \<and>
     numbers_ok p' \<and> self_tid (ptls p' 3) \<ge> 0 \<and> self_turn (ptls p' 3) = 2"
proof -
  have a: "numbers_ok profiler_initial" "\<not> entered_sys (ptls profiler_initial 3)" "self_turn (ptls profiler_initial 3) = - 1"
    by (simp_all add: numbers_ok_def numbers_fit_def profiler_initial_def tls_initial_def)
  have b: "recording quiet_env profiler_initial" by (simp add: recording_def quiet_env_def profiler_initial_def ENFORCE_def)
  have c: "two_eips quiet_env = Inr ''(nil)(nil)''" by (simp add: two_eips_def quiet_env_def show_ptr_def)
  show ?thesis
    using profiler_transparent [OF a(1) b a(2) c, of "\<lambda>f args e w. ((0, e), w)" "()" "prof_errno (ptls profiler_initial 3)" "()"
      "''pthread_mutex_lock''" "[5]" 0 "prof_errno (ptls profiler_initial 3)" "()"] a(3)
    by (auto simp: bp_pthread_mutex_lock_def quiet_env_def)
qed

text \<open>
  The preloaded libraries keep threads apart. After any sequence of wrapped calls by any
  threads since the start of the process, in the balance profiler and in the library of the
  evaluation, every thread that made a call has a number, no two threads have the same, none has
  the number 1 of the idle thread, and a number once given stays.
\<close>

lemma preloaded_numbers:
  fixes cs cs' :: "('w prof_call \<times> tid) list" and ds ds' :: "('v rand_call \<times> tid) list"
  assumes "res_fold (\<lambda>(c, t). prof_step c t) cs profiler_initial = Inr p" and "res_fold (\<lambda>(c, t). prof_step c t) cs' p = Inr p'"
    and "res_fold (\<lambda>(c, t). rand_step c t) ds rand_initial = Inr q" and "res_fold (\<lambda>(c, t). rand_step c t) ds' q = Inr q'"
  shows "(\<forall>(c, t) \<in> set cs. self_tid (ptls p t) \<ge> 0 \<and> self_tid (ptls p t) \<noteq> 1 \<and> self_tid (ptls p' t) = self_tid (ptls p t) \<and>
      (\<forall>u. u \<noteq> t \<longrightarrow> self_tid (ptls p' u) \<noteq> self_tid (ptls p t))) \<and>
    (\<forall>(c, t) \<in> set ds. ri_self_tid (ri_tls q t) \<ge> 0 \<and> ri_self_tid (ri_tls q t) \<noteq> 1 \<and> ri_self_tid (ri_tls q' t) = ri_self_tid (ri_tls q t) \<and>
      (\<forall>u. u \<noteq> t \<longrightarrow> ri_self_tid (ri_tls q' u) \<noteq> ri_self_tid (ri_tls q t)))"
proof -
  have p0: "numbers_fit (num_threads profiler_initial) (\<lambda>t. self_tid (ptls profiler_initial t))"
    and q0: "numbers_fit (ri_num_threads rand_initial) (\<lambda>t. ri_self_tid (ri_tls rand_initial t))"
    by (simp_all add: numbers_fit_def profiler_initial_def tls_initial_def rand_initial_def)
  show ?thesis using profiled_calls.calls_apart [OF p0 assms(1,2)] rand_calls.calls_apart [OF q0 assms(3,4)] by blast
qed

lemma preloaded_numbers_witness:
  "\<exists>p q. prof_step (quiet_env, (\<lambda>f args e w. ((0, e), w)), ''pthread_mutex_lock'', ''pthread_mutex_lock'', [5], ()) 3 profiler_initial = Inr p \<and>
     self_tid (ptls p 3) \<ge> 0 \<and> self_tid (ptls p 3) \<noteq> 1 \<and>
     rand_step (False, quiet_rand, (\<lambda>f args e w. ((0, e), w)), ''pthread_mutex_lock'', [5], ()) 3 rand_initial = Inr q \<and>
     ri_self_tid (ri_tls q 3) \<ge> 0 \<and> ri_self_tid (ri_tls q 3) \<noteq> 1"
proof -
  let ?os = "\<lambda>(f :: syncfunc) (args :: int list) (e :: int) (w :: unit). ((0 :: int, e), w)"
  let ?c = "(quiet_env, ?os, ''pthread_mutex_lock'', ''pthread_mutex_lock'', [5], ())"
  let ?d = "(False, quiet_rand, ?os, ''pthread_mutex_lock'', [5], ())"
  have a: "numbers_ok profiler_initial" "\<not> entered_sys (ptls profiler_initial 3)" "recording quiet_env profiler_initial"
    "two_eips quiet_env = Inr ''(nil)(nil)''"
    by (simp_all add: numbers_ok_def numbers_fit_def profiler_initial_def tls_initial_def recording_def quiet_env_def ENFORCE_def
      two_eips_def show_ptr_def)
  obtain p where p: "prof_step ?c 3 profiler_initial = Inr p"
    using bp_call_runs [OF a(1,3,2,4), of ?os "''pthread_mutex_lock''" "[5]" "()"] by (auto simp: prof_step_def)
  obtain q where q: "rand_step ?d 3 rand_initial = Inr q"
    by (simp add: rand_step_def ri_call_def ri_START_def ri_END_def ri_initTid_def ri_mutex_lock_def ri_mutex_unlock_def ri_RESOLVE_def
      quiet_rand_def rand_initial_def ri_count_def ri_update_time_def on_ri_def Let_def)
  have "res_fold (\<lambda>(c, t). prof_step c t) [(?c, 3)] profiler_initial = Inr p" "res_fold (\<lambda>(c, t). prof_step c t) [] p = Inr p"
    "res_fold (\<lambda>(c, t). rand_step c t) [(?d, 3)] rand_initial = Inr q" "res_fold (\<lambda>(c, t). rand_step c t) [] q = Inr q"
    using p q by simp_all
  from preloaded_numbers [OF this] show ?thesis using p q by auto
qed

section \<open>Busy waiting\<close>

text \<open>
  Normalizing a time by repeated addition and subtraction gives what a division gives: the
  seconds and the microseconds of the result are the quotient and the remainder of its
  length, cut towards zero.
\<close>

lemma normalize_divides:
  "timeval_normalize tv = \<lparr>tvl_sec = usecs tv sdiv 1000000, tvl_usec = usecs tv smod 1000000\<rparr>"
  using usecs_between [OF normalize_normal, of tv]
  by (simp add: normalize_usecs USEC_PER_SEC_def)

section \<open>The file of delays\<close>

text \<open>
  C29. Installing the runtime with delays. A file that was written from a table, one line for
  every task, is read back as that table; a file that after such lines goes on with something
  that is neither a number nor white space is read for ever, whatever the bound.
\<close>

theorem delay_file_read_back:
  assumes "enforce_delays opt" and "distinct (map fst tab)" and "tab \<noteq> []"
    and "\<forall>(k, v) \<in> set tab. - (2 ^ 31) \<le> k \<and> k < 2 ^ 31" and "length tab < fuel"
  shows "InstallRuntime fuel i j (Some (concat (map delay_line tab))) opt old = Inr (opt, map_of tab, check_options opt) \<and>
    (\<forall>n junk. stuck_at junk \<longrightarrow> skip_ws junk = junk \<longrightarrow>
       InstallRuntime n i j (Some (concat (map delay_line tab) @ junk)) opt old = Inl LoopBound)"
  using assms read_back [OF assms(2,4,5), of i j] read_loop_lines_stuck [OF assms(4)]
  by (simp add: InstallRuntime_def read_delay_file_def)

theorem delay_file_read_back_witness:
  "InstallRuntime 3 0 0 (Some (concat (map delay_line [(- 4, 250), (17, 4000000000)]))) (default_options\<lparr>enforce_delays := True\<rparr>) Map.empty =
     Inr (default_options\<lparr>enforce_delays := True\<rparr>, map_of [(- 4, 250), (17, 4000000000)], []) \<and>
   InstallRuntime 1000 0 0 (Some (concat (map delay_line [(- 4, 250), (17, 4000000000)]) @ ''x'')) (default_options\<lparr>enforce_delays := True\<rparr>)
     Map.empty = Inl LoopBound"
proof -
  let ?opt = "default_options\<lparr>enforce_delays := True\<rparr>" and ?tab = "[(- 4, 250), (17, 4000000000)] :: delay_table"
  have "check_options ?opt = []" by (simp add: check_options_def default_options_def)
  moreover have "stuck_at ''x''" "skip_ws ''x'' = ''x''" by (simp_all add: stuck_at_def skip_ws_def is_space_def is_digit_def)
  ultimately show ?thesis using delay_file_read_back [of ?opt ?tab 3 0 0 Map.empty] by simp
qed

section \<open>The build for dbug\<close>

text \<open>
  C34. Attaching to the tool. However the lives of the threads interleave, a thread is attached
  to the tool exactly while it has not started, is in a blocking call, or is on its way into or inside a
  non-deterministic region (and the idle thread always); so, with the tool installed, the assertions in
  attaching and detaching hold wherever the runtime does so, and the end of the process goes
  through. Inside a region the functions of the base class that attach once more (for joining and
  forking) and the end of the process stop at the assertion.
\<close>

theorem dbug_attached:
  assumes "(lives opt env db os)\<^sup>*\<^sup>* (\<lambda>_. Born, r0, w0, dbug_initial) (ph, r, w, d)" and "installed env"
  shows "(attachedToDbug d u \<longleftrightarrow> ph u \<in> {Born, Calls, Enters, Region, Idle}) \<and>
    (ph u \<in> {Runs, Joins} \<longrightarrow> (\<exists>s'. attach_self_to_dbug opt env db u (r, w, d) = Inr s')) \<and>
    (ph u \<in> {Born, Calls, Region} \<longrightarrow> (\<exists>s'. detach_self_from_dbug opt env db u (r, w, d) = Inr s') \<and>
       (\<exists>s'. detach_barrier_end opt env db u i n (r, w, d) = Inr s')) \<and>
    (prog_began h \<longrightarrow> isApp u r \<longrightarrow> ph u = Runs \<longrightarrow> db_prog_end opt env db u h (r, w, d) = (Inl (ExitProcess 0) :: unit res)) \<and>
    (ph u = Region \<longrightarrow> \<not> ndebug opt \<longrightarrow>
       db_pthread_join opt env db u th rv (r, w, d) = Inl AssertFailed \<and> db_fork opt env db u e (r, w, d) = Inl AssertFailed \<and>
       (prog_began h \<longrightarrow> isApp u r \<longrightarrow> db_prog_end opt env db u h (r, w, d) = (Inl AssertFailed :: unit res)))"
proof -
  from lives_flags [OF assms(1)] have f: "fits env (r, w, d)" "\<And>q v. flags (q, w, d) v = on_tool (ph v)" by (simp_all add: flags_def)
  have att: "attachedToDbug d u = on_tool (ph u)" using f(2) [of r u] by (simp add: flags_def)
  have twice: "attach_self_to_dbug opt env db u (q, w, d) = Inl AssertFailed" if "ph u = Region" "\<not> ndebug opt" for q
    using attach_twice [of "(q, w, d)" u opt env db] that f(2) [of q u] by (simp add: on_tool_def)
  have "ph u \<in> {Runs, Joins} \<longrightarrow> (\<exists>s'. attach_self_to_dbug opt env db u (r, w, d) = Inr s')"
    using attach_ok [OF assms(2) f(1), of u opt db] f(2) by (auto simp: on_tool_def)
  moreover have "ph u \<in> {Born, Calls, Region} \<longrightarrow> (\<exists>s'. detach_self_from_dbug opt env db u (r, w, d) = Inr s') \<and>
       (\<exists>s'. detach_barrier_end opt env db u i n (r, w, d) = Inr s')"
    using detach_ok [OF assms(2) f(1), of u opt db] f(2) by (auto simp: on_tool_def)
  moreover have "db_prog_end opt env db u h (r, w, d) = (Inl (ExitProcess 0) :: unit res)" if "prog_began h" "isApp u r" "ph u = Runs"
    by (rule prog_end_exits [OF assms(2) f(1) _ that(1,2)]) (simp add: f(2) that(3) on_tool_def)
  moreover have "db_pthread_join opt env db u th rv (r, w, d) = Inl AssertFailed" "db_fork opt env db u e (r, w, d) = Inl AssertFailed"
    if "ph u = Region" "\<not> ndebug opt" using twice [OF that] by (simp_all add: db_pthread_join_def db_fork_def with_errno_def)
  moreover have "db_prog_end opt env db u h (r, w, d) = (Inl AssertFailed :: unit res)"
    if "ph u = Region" "\<not> ndebug opt" "prog_began h" "isApp u r"
    using twice [OF that(1,2)] that(3) enterSys_ok(1) [OF that(4), of opt] by (simp add: db_prog_end_def assert_then_def)
  ultimately show ?thesis using att by (simp add: on_tool_def)
qed

text \<open>The tool installed under \<open>/mc\<close>, counting its calls.\<close>

definition dbug_installed :: dbug_env where
  "dbug_installed = \<lparr>de_root = Some ''/mc'', de_loader = every_symbol\<rparr>"

theorem dbug_attached_witness:
  "\<exists>r s'. life default_options dbug_installed counting_file counting_file 0 Born (r, 0, dbug_initial) Runs s' \<and>
     (case s' of (r', w, d) \<Rightarrow> \<not> attachedToDbug d 0 \<and>
        (\<exists>s2. attach_self_to_dbug default_options dbug_installed counting_file 0 (r', w, d) = Inr s2))"
proof -
  let ?opt = default_options and ?env = dbug_installed and ?db = counting_file
  obtain s where "holding default_options MainThreadTid s" using scene_two by blast
  let ?r = "(rt_new s)\<lparr>idle_th := Suc (th_handle (tls_of (rt_new s) 0))\<rparr>"
  have i: "installed ?env" by (simp add: installed_def exports_def dbug_installed_def every_symbol_def)
  have f: "fits ?env (?r, 0, dbug_initial)" "flags (?r, 0, dbug_initial) 0" by (simp_all add: fits_def handle_fits_def dbug_initial_def flags_def)
  have n: "idle_th ?r \<noteq> th_handle (tls_of ?r 0)" by simp
  obtain r' w d where s': "db_thread_func_start ?opt ?env ?db 0 (?r, 0, dbug_initial) = Inr (r', w, d)"
    using detach_ok(1) [OF i f, of ?opt ?db] by (auto simp: db_thread_func_start_def)
  have l: "life ?opt ?env ?db ?db 0 Born (?r, 0, dbug_initial) Runs (r', w, d)" by (rule life.start [OF n s'])
  then have "lives ?opt ?env ?db ?db (\<lambda>_. Born, ?r, 0, dbug_initial) ((\<lambda>_. Born)(0 := Runs), r', w, d)" by (auto simp: lives_def)
  from dbug_attached [OF r_into_rtranclp, OF this i, of 0] show ?thesis
    using l by (intro exI [of _ ?r] exI [of _ "(r', w, d)"]) simp
qed

end
