(* ===== verification/Spec2Isabelle.thy ===== *)
theory Spec2Isabelle
  imports ObjectProperties ThreadProperties DataProperties HookProperties LogProperties Startup SchedRandom ToolProperties
begin

text \<open>
  Verification of minSMT, a runtime that makes multithreaded programs deterministic: every
  synchronization operation of the program goes through a hook, waits for its turn in a
  round-robin order, runs alone, and passes the turn on.

  \<^bold>\<open>The program and its model.\<close> The code is a stack of components; each theory models one of
  them and is a translation of the files named here (all under \<open>src/\<close>).

  \<^item> \<open>Prelude\<close>: the machine types, the faults an operation can end in, and results. \<open>Interfaces\<close>: the
    contracts between components, as locales.
  \<^item> \<open>RunQueue\<close>: \<open>include/tern/runtime/run-queue.h\<close>, the intrusive doubly linked queue, over an
    explicit heap of elements, with null and dangling dereferences as faults. \<open>RunQueueDebug\<close>: the same
    queue compiled with \<open>DEBUG_RUN_QUEUE\<close>, which checks itself.
  \<^item> \<open>TidMap\<close>: the options (\<open>default.options\<close>), \<open>TidMap\<close> of \<open>include/tern/runtime/scheduler.h\<close> and
    \<open>non-det-thread-set.h\<close>. \<open>SyncFuncs\<close>: the table of the functions (\<open>include/tern/syncfuncs.def.h\<close>).
  \<^item> \<open>Scheduler\<close>: \<open>RRScheduler\<close> of \<open>lib/runtime/record-scheduler.cpp\<close> with the parts of
    \<open>Scheduler\<close> and \<open>Serializer\<close> it uses; one record \<open>sched\<close> is its state, one definition each of its
    functions. \<open>SchedRandom\<close>: the random numbers of \<open>include/tern/runtime/record-scheduler.h\<close>.
  \<^item> \<open>RtBase\<close>, \<open>RtLock\<close>, \<open>RtCond\<close>, \<open>RtBarrier\<close>, \<open>RtThread\<close>, \<open>RtIO\<close>: \<open>RecorderRT\<close> of
    \<open>lib/runtime/record-runtime.cpp\<close>: the thread-local and global state (record \<open>rt\<close>), the macros around
    every operation, and the operations.
  \<^item> \<open>BaseRuntime\<close>: the base class, \<open>lib/runtime/runtime.cpp\<close>, which calls the operating system; the
    operating system is the parameter \<open>os\<close> of its definitions.
  \<^item> \<open>Hooks\<close>: \<open>lib/runtime/hooks.cpp\<close> and the spaces of \<open>lib/common/space.cpp\<close>.
  \<^item> \<open>Helper\<close>: start and end of the process and of its threads, \<open>lib/runtime/helper.cpp\<close>, as the sequences
    of calls they make. \<open>Startup\<close>: how a new thread gets its function and argument, and the process
    from \<open>__libc_start_main\<close> to the end of the runtime.
  \<^item> \<open>Dbug\<close>: the build with \<open>XTERN_PLUS_DBUG\<close>, in which the runtime hands blocking calls and
    non-deterministic regions to the tool \<open>dbug\<close> and tells it who waits: the variants of the operations of
    all files above. The tool is a parameter, like the operating system.
  \<^item> \<open>RecordLog\<close>: the loggers of \<open>lib/runtime/record-log.cpp\<close> and \<open>include/tern/logdefs.h\<close>. \<open>Rdtsc\<close>: the
    recorder of time stamps, \<open>lib/runtime/rdtsc.cpp\<close>. \<open>BusyWait\<close>: \<open>lib/runtime/busywait.c\<close>.
  \<^item> \<open>Setup\<close>: checking the options, reading the file of delays, installing the runtime, and the
    statistics at the end (free functions of \<open>lib/runtime/record-runtime.cpp\<close>).
  \<^item> \<open>Fcfs\<close>: \<open>RecordSerializer\<close> of \<open>include/tern/runtime/record-scheduler.h\<close>, whose turn is a plain mutex, the
    operations \<open>record-runtime.cpp\<close> specializes for it, and, of the templates over it, mutex locking and
    unlocking, the start of a region and the end of a thread.
  \<^item> \<open>Intercept\<close>: the wrappers that stand between the program and the hooks: the templates, \<open>hook.cpp\<close>
    and \<open>spec_hooks.cpp\<close> of \<open>dync_hook/\<close>. \<open>CodeGen\<close>: their generator, \<open>code_gen.cpp\<close>. \<open>Annotations\<close>:
    \<open>annotation_hooks.cpp\<close> and \<open>xtern-annot.cpp\<close>.
  \<^item> \<open>Profiler\<close>: \<open>balanceprofiler/balance-profiler.c\<close>, and \<open>RandIntercept\<close>: \<open>eval/rand-intercept/rand-intercept.c\<close>,
    libraries preloaded into the unmodified program; \<open>Preload\<close>: what they have in common. The calls
    \<open>backtrace()\<close> makes back into the wrappers of the profiler are a parameter of its model.

  \<^bold>\<open>Granularity.\<close> A thread runs alone from its \<open>getTurn\<close> to the call that gives the turn up
  (\<open>putTurn\<close>, \<open>wait\<close>, \<open>block\<close>). An operation is therefore cut into segments at those calls: a
  function for the part before its first turn, and one for every part that runs with the turn
  (\<open>lock_turn\<close>, \<open>cond_woken_turn\<close>, ...). A segment ends in an \<open>outcome\<close>: done with a result, handed
  to the C library, or waiting for the turn with what remains to be done; \<open>resume_lock\<close>,
  \<open>resume_cond\<close>, \<open>resume_bar\<close> and \<open>resume_thread\<close> run the rest. What threads do without the turn
  (\<open>interProStart\<close>, \<open>interProEnd\<close>, \<open>wakeup\<close>) is a step of its own; the code guards it by locks or by
  the order of its writes, which are not modelled below that level. The little that the closing
  macro does after \<open>putTurn\<close> (the countdown of \<open>slock_n_turns\<close>, \<open>check_cv_wait_cnt\<close>) is part of the segment.
  The results of the library's \<open>pthread_create\<close>, \<open>pthread_join\<close> and of the blocking calls are arguments.

  \<^bold>\<open>What is shown.\<close>

  \<^item> The data structures: the queue refines a list whatever sequence of operations is run on it
    (\<open>SchedInv\<close>, locales \<open>fifo_queue\<close> and \<open>indexed_queue\<close>), identifiers and names are in bijection
    (locale \<open>name_table\<close>), times and deadlines are computed exactly (\<open>TimeProofs\<close>).
  \<^item> The scheduler: \<open>SchedInv\<close>, \<open>SchedWake\<close>, \<open>SchedTurn\<close> give each function its effect on the queues;
    \<open>SchedProtocol\<close>, \<open>TurnProtocol\<close> define the steps threads can make (\<open>thread_step\<close>, and \<open>turn_step\<close> for
    any of them) and prove by rule induction that the turn is held by at most one thread and never
    lost, and that a thread that has ended is gone for good; \<open>Fairness\<close> that the turn reaches every thread.
  \<^item> The operations: \<open>RtProtocol\<close>, \<open>LockProofs\<close>, \<open>CondProofs\<close>, \<open>BarProofs\<close>, \<open>ThreadProofs\<close>, \<open>IoProofs\<close>
    give each segment its effect on every branch, and \<open>Segments\<close> (locale \<open>turn_segment\<close>) that any
    sequence of building blocks runs without a fault and passes the turn on.
  \<^item> The boundary to the program: \<open>SegmentViews\<close> (locale \<open>segment_view\<close>) proves once what no segment
    changes; \<open>HookProofs\<close> (locale \<open>private_state\<close>) uses it for the thread-local state across a hook,
    \<open>LogProofs\<close> for the entries of the log, \<open>CallProofs\<close> for a call from the wrapper down to the
    scheduler and back, over the steps of the other threads.
  \<^item> The other builds: the queue that checks itself agrees with the plain one (\<open>RunQueueDebug\<close>), and
    the flag that says who is attached to \<open>dbug\<close> fits the lives of the threads, by rule induction over
    their interleavings (\<open>DbugProofs\<close>).
  \<^item> Around the runtime: a wrapper of the interception library is transparent unless it calls the
    hook, and no time stamp is lost (\<open>Intercept\<close>, \<open>Rdtsc\<close>); annotations do nothing unless they are in
    force (\<open>Annotations\<close>); the generator reads back what a list of functions says and ends
    (\<open>CodeGen\<close>); the turn of \<open>Fcfs\<close> has one owner under all interleavings and is given up by the segments,
    but not by the inherited \<open>block\<close>, after which nobody gets it; busy waiting and the file of delays do what division and the table say
    (\<open>BusyWait\<close>, \<open>Setup\<close>); the threads of a preloaded library have different numbers after any
    sequence of calls (\<open>Preload\<close>, locales \<open>numbered_threads\<close> and \<open>numbered_calls\<close>) and its wrappers
    return what the function returned (\<open>Profiler\<close>, \<open>RandIntercept\<close>);
    the arguments of a thread arrive, and \<open>main\<close> runs between the start and the end of the runtime
    (\<open>Startup\<close>).

  The properties are in \<open>Spec2Isabelle\<close> (C1 to C8), \<open>ObjectProperties\<close> (C9 to C18 but C16),
  \<open>ThreadProperties\<close> (C20 to C26 but C24 and C25), \<open>DataProperties\<close> (C27, C31, C32, C33 and C35),
  \<open>HookProperties\<close> (C36 to C39), \<open>LogProperties\<close> (C28 and C40) and \<open>ToolProperties\<close> (C16, C19, C24,
  C25, C29, C30 and C34). Their witnesses run on the states of \<open>Scenario\<close>, which are reached from
  the scheduler's constructor.

  \<^bold>\<open>Assumptions.\<close> \<open>basic opt\<close> selects the configurations the protocol theorems are about: turns are
  enforced, one of the relay mechanisms is used, and the policies that reorder the queue are off;
  the options as shipped satisfy it. \<open>can_leave\<close> says that some thread, at least the idle thread, is
  ready when a thread leaves the run queue; \<open>can_finish\<close> says it of a thread other than the main one that
  ends. \<open>recv_within\<close> is what the operating system promises of \<open>recv\<close> without \<open>MSG_TRUNC\<close>. \<open>rdtsc_ok\<close> holds of the recorder at its start and is kept by it. \<open>recording\<close> says that the
  profiler finds all symbols and no file of times. \<open>fillable\<close> excludes texts that contain every
  character of the placeholder they replace. \<open>installed\<close> says that \<open>dbug\<close> is where the environment
  says it is and exports the functions that attach, detach and exit. \<open>legal_run\<close> describes a queue used as one: only threads
  that are off the queue are put on it, and only a queue with elements is asked for its front.

  \<^bold>\<open>Bounds.\<close> \<open>nextRunnable\<close> may loop; its model has the bound \<open>next_bound\<close>, the number of queued
  and waiting threads plus two, and C31 shows that it is used up in one case only, in which no
  bound is enough: under the role strategy, when nobody who can run has the caller's role. The loop of \<open>recv\<close> has the bound
  \<open>recv_bound\<close>, the length of the buffer plus the ten retries, and C39 shows the same of it. The main
  loop of the generator has the length of its input as bound, which \<open>read_defs_ends\<close> shows to be
  enough. The loop over the file of delays does not end for some files (C29), so its bound is an
  argument; \<open>replace_all\<close> and \<open>poll\<close> may not end either and are partial functions, with C30 and
  \<open>busy_wait_first\<close> showing when they do. All other loops are structural or have a termination proof.

  \<^bold>\<open>Not modelled.\<close> Of \<open>turn_step\<close>: the waiting of the idle thread (\<open>idleThreadCondWait\<close>), the return into
  a forked child, the end of the main thread and the role strategy, which the components above do
  model; the assertion on the range of the identifier in \<open>getTurn\<close>; what the recorder of time stamps
  does to \<open>errno\<close> when it opens its file; the width of the arguments the binary logger is given. The delays of the profiling options inside the hooks, which only spend time
  between readings of the clock; the reader of option strings, which the build
  generates: the options are an argument of every definition; \<open>balance-profiler-with-args.c\<close>,
  which does not compile; the list of functions \<open>hook_func.def\<close>, which is data; the applications,
  evaluation scripts and tests.
\<close>

section \<open>The turn protocol\<close>

text \<open>
  C1. Mutual exclusion of the turn. From the state the scheduler's constructor builds, however
  threads interleave their \<open>getTurn\<close> with scheduler operations and blocking calls, at most one
  thread is between a \<open>getTurn\<close> and the call that gives the turn up, and that thread is the
  head of the run queue.
\<close>

theorem turn_exclusive:
  assumes "basic opt" and "rr_new opt th = Inr s0"
    and "(turn_step opt)\<^sup>*\<^sup>* (s0, {}) (s, H)" and "t \<in> H"
  shows "H = {t} \<and> rq_front (heap s) (runq s) = Inr t"
  using turn_inv_front [OF turn_reach_inv [OF assms(1-3)] assms(4)] by blast

theorem turn_exclusive_witness:
  "\<exists>s0 s H. rr_new default_options 7 = Inr s0 \<and> (turn_step default_options)\<^sup>*\<^sup>* (s0, {}) (s, H) \<and>
     H = {MainThreadTid} \<and> rq_front (heap s) (runq s) = Inr MainThreadTid"
proof -
  obtain s0 s1 where "rr_new default_options 7 = Inr s0"
      "(turn_step default_options)\<^sup>*\<^sup>* (s0, {}) (s1, {MainThreadTid})"
    using main_acquires [OF basic_default] by blast
  then show ?thesis using turn_exclusive [OF basic_default, of 7 s0 s1 "{MainThreadTid}" MainThreadTid] by blast
qed

text \<open>
  C2. The turn is never lost or duplicated. In every reachable state, if no thread holds the
  turn then exactly one thread passes its \<open>getTurn\<close>, and while a thread holds it nobody does.
\<close>

theorem turn_never_lost:
  assumes "basic opt" and "rr_new opt th = Inr s0" and "(turn_step opt)\<^sup>*\<^sup>* (s0, {}) (s, H)"
  shows "(H = {} \<longrightarrow> (\<exists>!t. getTurn opt t s \<noteq> None)) \<and> (H \<noteq> {} \<longrightarrow> (\<forall>t. getTurn opt t s = None))"
  using turn_inv_getTurn [OF assms(1) turn_reach_inv [OF assms]] by blast

theorem turn_never_lost_witness:
  "\<exists>s. rr_new default_options 7 = Inr s \<and> (\<exists>!t. getTurn default_options t s \<noteq> None)"
proof -
  obtain s where "rr_new default_options 7 = Inr s" using scene_start by blast
  then show ?thesis using turn_never_lost [OF basic_default, of 7 s s "{}"] by blast
qed

text \<open>
  C3. Round-robin fairness. When nobody on the run queue is stopped in a blocking call, handing
  the turn on \<open>i\<close> times reaches exactly the \<open>i\<close>-th thread of the queue: every thread gets its
  turn within one round, in the order of the queue.
\<close>

theorem round_robin_fair:
  assumes "basic opt" and "ready opt s xs" and "i < length xs"
  shows "\<exists>s'. iterate i (pass_turn opt th) s = Inr s' \<and> (\<forall>u. getTurn opt u s' \<noteq> None \<longleftrightarrow> u = xs ! i)"
  by (rule fair [OF assms])

theorem round_robin_fair_witness:
  "\<exists>s s'. ready default_options s [1, MainThreadTid] \<and> iterate 1 (pass_turn default_options 7) s = Inr s' \<and>
     (\<forall>u. getTurn default_options u s' \<noteq> None \<longleftrightarrow> u = MainThreadTid)"
proof -
  obtain s where s: "ready default_options s [1, MainThreadTid]" using scene_ready .
  then show ?thesis using round_robin_fair [OF basic_default s, of 1 7] by auto
qed

text \<open>
  C4. What \<open>putTurn\<close> does with the default strategy: the thread goes to the end of the run
  queue, threads stopped in blocking calls are taken off its front, and the thread then at the
  head, and it alone, is let through.
\<close>

theorem put_turn_next:
  assumes "basic opt" and "holding opt t s" and "rq_tids (heap s) (runq s) = Inr (t # ys)"
    and "\<not> inter_pro_wakeup_flag s"
  shows "\<exists>s'. putTurn opt t th False 0 s = Inr s' \<and> released opt s' \<and>
     rq_tids (heap s') (runq s') = Inr (dropWhile (stopped s) (ys @ [t])) \<and>
     getTurn opt (hd (dropWhile (stopped s) (ys @ [t]))) s' \<noteq> None"
  using putTurn_round_robin [OF assms, of th] by blast

theorem put_turn_next_witness:
  "\<exists>s s'. holding default_options MainThreadTid s \<and> putTurn default_options MainThreadTid 7 False 0 s = Inr s' \<and>
     rq_tids (heap s') (runq s') = Inr [1, MainThreadTid]"
proof -
  obtain s where s: "holding default_options MainThreadTid s" "rq_tids (heap s) (runq s) = Inr [MainThreadTid, 1]"
    "\<not> inter_pro_wakeup_flag s" "status_of s 1 = Some RUNNABLE" using scene_two by blast
  then show ?thesis using put_turn_next [OF basic_default s(1-3), of 7] by (auto simp: stopped_def)
qed

text \<open>
  C5. Waiting. A thread that waits while someone else can run joins the wait queue with its
  channel and deadline, uses up one turn, and the turn is passed on.
\<close>

theorem wait_hands_over:
  assumes "basic opt" and "holding opt t s" and "can_leave opt t s"
  shows "\<exists>s'. wait_begin opt t ch n s = Inr s' \<and> released opt s' \<and> turnCount s' = turnCount s + 1 \<and>
     t \<in> set (waitq s') \<and> chan (waits s' t) = ch \<and> timeout (waits s' t) = n"
  using holding_wait [OF assms] by blast

theorem wait_hands_over_witness:
  "\<exists>s s'. holding default_options MainThreadTid s \<and> wait_begin default_options MainThreadTid 5 FOREVER s = Inr s' \<and>
     released default_options s' \<and> MainThreadTid \<in> set (waitq s')"
proof -
  obtain s where s: "holding default_options MainThreadTid s" "can_leave default_options MainThreadTid s"
    using scene_two by blast
  then show ?thesis using wait_hands_over [OF basic_default s, of 5 FOREVER] by blast
qed

text \<open>
  C6. Signalling. \<open>signal\<close> takes exactly the threads waiting on the channel off the wait queue
  (the first of them, or all), marks them as signalled, and appends them to the run queue in the
  order in which they have waited; the caller keeps the turn.
\<close>

theorem signal_wakes:
  assumes "basic opt" and "holding opt t s" and "ch \<noteq> 0" and "rq_tids (heap s) (runq s) = Inr xs"
    and "W = (if all then filter (\<lambda>u. chan (waits s u) = ch) (waitq s)
              else take 1 (filter (\<lambda>u. chan (waits s u) = ch) (waitq s)))"
  shows "\<exists>s'. signal opt t ch all s = Inr s' \<and> holding opt t s' \<and>
     waitq s' = filter (\<lambda>u. u \<notin> set W) (waitq s) \<and> rq_tids (heap s') (runq s') = Inr (xs @ W) \<and>
     (\<forall>u \<in> set W. wait_end u s' = SIGNAL)"
proof -
  have W: "W = signalled ch all s" using assms(5) by (simp add: signalled_def woken_def)
  then show ?thesis using holding_signal [OF assms(1-3), of all] assms(4) by (auto simp: wait_end_def)
qed

theorem signal_wakes_witness:
  "\<exists>s s'. holding default_options 1 s \<and> waitq s = [MainThreadTid] \<and> signal default_options 1 5 False s = Inr s' \<and>
     waitq s' = [] \<and> rq_tids (heap s') (runq s') = Inr [1, MainThreadTid] \<and> wait_end MainThreadTid s' = SIGNAL"
proof -
  obtain s where s: "holding default_options 1 s" "rq_tids (heap s) (runq s) = Inr [1]" "waitq s = [MainThreadTid]"
    "chan (waits s MainThreadTid) = 5" using scene_waiter by blast
  moreover obtain s' where "signal default_options 1 5 False s = Inr s'" "waitq s' = []"
    "rq_tids (heap s') (runq s') = Inr [1, MainThreadTid]" "wait_end MainThreadTid s' = SIGNAL"
    using signal_wakes [OF basic_default s(1) _ s(2), of 5 "[MainThreadTid]" False] s(3,4) by auto
  ultimately show ?thesis by blast
qed

text \<open>
  C7. Timeouts. A tick of the logical clock takes exactly the threads whose deadline lies strictly
  before the new turn off the wait queue, marks them as timed out, and appends them to the run
  queue in the order in which they have waited, before the threads that come back from blocking
  calls; the caller keeps the turn. A thread that waits \<open>FOREVER\<close> is never among them, and one
  whose deadline is the new turn itself waits on; a deadline of \<open>0\<close> is a deadline like any other,
  and has passed unless the counter has wrapped around to \<open>0\<close>. The comment on \<open>Serializer::wait\<close>
  promises both otherwise: a wait ends once the turn count is greater than \<^emph>\<open>or equal to\<close> the
  deadline, and \<open>0\<close> means none.
\<close>

theorem tick_fires_timeouts:
  assumes "basic opt" and "holding opt t s" and "rq_tids (heap s) (runq s) = Inr xs"
    and "W = filter (\<lambda>u. timeout (waits s u) < turnCount s + 1) (waitq s)"
  shows "\<exists>s' zs. incTurnCount opt s = Inr (turnCount s, s') \<and> holding opt t s' \<and> turnCount s' = turnCount s + 1 \<and>
     waitq s' = filter (\<lambda>u. u \<notin> set W) (waitq s) \<and> (\<forall>u \<in> set W. wait_end u s' = TIMEDOUT) \<and>
     rq_tids (heap s') (runq s') = Inr (xs @ W @ zs) \<and> set zs \<subseteq> set (inter_pro_wakeup_tids s) \<and>
     (\<forall>u. timeout (waits s u) = FOREVER \<longrightarrow> u \<notin> set W) \<and>
     (\<forall>u \<in> set (waitq s). timeout (waits s u) = turnCount s' \<longrightarrow> u \<in> set (waitq s')) \<and>
     (\<forall>u \<in> set (waitq s). timeout (waits s u) = 0 \<and> turnCount s' \<noteq> 0 \<longrightarrow> u \<in> set W)"
proof -
  have p: "plain opt" using assms(1) by (simp add: basic_def)
  obtain ys where c: "core opt s t ys" using holdingD [OF assms(2)] by metis
  have xs: "xs = t # ys" using queues_tids [OF sinvD(1) [OF coreD(1) [OF c]]] assms(3) by simp
  have W: "W = expired (s\<lparr>turnCount := turnCount s + 1\<rparr>)" using assms(4) by (simp add: expired_def)
  obtain s' us where s': "incTurnCount opt s = Inr (turnCount s, s')" "core opt s' t us"
     "ticked opt s (t # ys) = t # us" "turnCount s' = turnCount s + 1" "waitq s' = filter (\<lambda>u. u \<notin> set W) (waitq s)"
     "waits s' = (\<lambda>u. if u \<in> set W then (wt_reset ETIMEDOUT (waits s u))\<lparr>wake_reason := TIMEDOUT\<rparr> else waits s u)"
    using incTurnCount_core [OF p c W] by blast
  have "rq_tids (heap s') (runq s') = Inr (xs @ W @ returning opt s (xs @ W))"
    using queues_tids [OF sinvD(1) [OF coreD(1) [OF s'(2)]]] s'(3) xs W by (simp add: ticked_def Let_def)
  moreover have "set (returning opt s (xs @ W)) \<subseteq> set (inter_pro_wakeup_tids s)"
    using plainD(4) [OF p] coreD(2) [OF c] by (auto simp: returning_def order_ok_def wset_ok_def)
  moreover have "holding opt t s'" using holding_tick [OF assms(1,2)] s'(1) by auto
  moreover have "FOREVER = - 1" by (simp add: FOREVER_def)
  then have "\<not> FOREVER < turnCount s + 1" using word_n1_ge [of "turnCount s + 1"] by (simp only: not_less)
  then have "\<forall>u. timeout (waits s u) = FOREVER \<longrightarrow> u \<notin> set W" using assms(4) by simp
  moreover have "\<forall>u \<in> set (waitq s). timeout (waits s u) = turnCount s' \<longrightarrow> u \<in> set (waitq s')"
    "\<forall>u \<in> set (waitq s). timeout (waits s u) = 0 \<and> turnCount s' \<noteq> 0 \<longrightarrow> u \<in> set W"
    using s'(4,5) assms(4) by (simp_all add: word_neq_0_conv)
  moreover have "\<forall>u \<in> set W. wait_end u s' = TIMEDOUT" using s'(6) by (simp add: wait_end_def)
  ultimately show ?thesis using s'(1,4,5) by blast
qed

theorem tick_fires_timeouts_witness:
  "(\<exists>s s' zs. holding default_options 1 s \<and> waitq s = [MainThreadTid] \<and> timeout (waits s MainThreadTid) = 0 \<and>
     incTurnCount default_options s = Inr (1, s') \<and> waitq s' = [] \<and> wait_end MainThreadTid s' = TIMEDOUT \<and>
     rq_tids (heap s') (runq s') = Inr ([1, MainThreadTid] @ zs)) \<and>
   (\<exists>s s' zs. holding default_options 1 s \<and> timeout (waits s MainThreadTid) = 2 \<and>
     incTurnCount default_options s = Inr (1, s') \<and> turnCount s' = 2 \<and> waitq s' = [MainThreadTid] \<and>
     rq_tids (heap s') (runq s') = Inr ([1] @ zs))"
proof
  obtain s where s: "holding default_options 1 s" "rq_tids (heap s) (runq s) = Inr [1]" "waitq s = [MainThreadTid]"
    "timeout (waits s MainThreadTid) = 0" "turnCount s = 1" using scene_waiter by blast
  moreover obtain s' zs where "incTurnCount default_options s = Inr (1, s')" "waitq s' = []" "wait_end MainThreadTid s' = TIMEDOUT"
    "rq_tids (heap s') (runq s') = Inr ([1, MainThreadTid] @ zs)"
    using tick_fires_timeouts [OF basic_default s(1,2), of "[MainThreadTid]"] s(3-5) by auto
  ultimately show "\<exists>s s' zs. holding default_options 1 s \<and> waitq s = [MainThreadTid] \<and> timeout (waits s MainThreadTid) = 0 \<and>
     incTurnCount default_options s = Inr (1, s') \<and> waitq s' = [] \<and> wait_end MainThreadTid s' = TIMEDOUT \<and>
     rq_tids (heap s') (runq s') = Inr ([1, MainThreadTid] @ zs)" by blast
  obtain s where s: "holding default_options 1 s" "rq_tids (heap s) (runq s) = Inr [1]" "waitq s = [MainThreadTid]"
    "timeout (waits s MainThreadTid) = 2" "turnCount s = 1" using scene_waiter by blast
  moreover obtain s' zs where "incTurnCount default_options s = Inr (1, s')" "turnCount s' = 2" "waitq s' = [MainThreadTid]"
    "rq_tids (heap s') (runq s') = Inr ([1] @ zs)"
    using tick_fires_timeouts [OF basic_default s(1,2), of "[]"] s(3-5) by auto
  ultimately show "\<exists>s s' zs. holding default_options 1 s \<and> timeout (waits s MainThreadTid) = 2 \<and>
     incTurnCount default_options s = Inr (1, s') \<and> turnCount s' = 2 \<and> waitq s' = [MainThreadTid] \<and>
     rq_tids (heap s') (runq s') = Inr ([1] @ zs)" by blast
qed

text \<open>
  C8. Segments. Whatever sequence of signals and intermediate ticks a runtime operation makes
  while it holds the turn, and whether it then ends or waits, it runs through without a fault and
  the turn has been passed on.
\<close>

theorem segment_runs:
  assumes "basic opt" and "holding opt t (sch r)" and "list_all rt_ok cs" and "rt_may opt t l r"
  shows "\<exists>r'. res_bind (res_fold (run_rt opt t) cs r) (run_rt_leave opt t l) = Inr r' \<and> released opt (sch r')"
  using rt_seg.segment [of opt t r cs l] assms by simp

theorem segment_runs_witness:
  "\<exists>r r'. holding default_options MainThreadTid (sch r) \<and>
     res_bind (res_fold (run_rt default_options MainThreadTid) [RtSignal 5 False, RtFakeEnd 0 ''pthread_cond_wait'' [6, 5]] r)
       (run_rt_leave default_options MainThreadTid (RtWait 6 FOREVER)) = Inr r' \<and> released default_options (sch r')"
proof -
  obtain s where s: "holding default_options MainThreadTid s" "can_leave default_options MainThreadTid s"
    using scene_two by blast
  moreover have "list_all rt_ok [RtSignal 5 False, RtFakeEnd 0 ''pthread_cond_wait'' [6, 5]]" by (simp add: rt_ok_def)
  moreover have "rt_may default_options MainThreadTid (RtWait 6 FOREVER) (rt_new s)" using s by (simp add: rt_may_def)
  ultimately show ?thesis using segment_runs [OF basic_default, of MainThreadTid "rt_new s"] by (metis rt_new_simps(1))
qed

end
